(* ===== verification/Prelude.thy ===== *)
theory Prelude
  imports Main
begin

text \<open>
  Shared vocabulary of the development: results that may be an error, transactions that
  roll back, tables as lists of rows, and the hint collections the component theories fill.

  A TypeScript function that may throw is a function into the sum type \<open>'e + 'a\<close>:
  \<open>Inl e\<close> is the thrown error, \<open>Inr x\<close> the returned value. A sequence of statements
  is a chain of \<open>bindR\<close>, which stops at the first error exactly as an exception does.
  A PostgreSQL table is the list of its rows; \<open>update t set f where p\<close> is
  \<open>update_where p f t\<close>.
\<close>

named_theorems guard_defs "definitions of the guards of the operations"
named_theorems table_defs "definitions of the statements that read or write tables"

subsection \<open>Results\<close>

definition bindR :: "('e + 'a) \<Rightarrow> ('a \<Rightarrow> 'e + 'b) \<Rightarrow> 'e + 'b" where
  "bindR m f = (case m of Inl e \<Rightarrow> Inl e | Inr x \<Rightarrow> f x)"

definition guardR :: "bool \<Rightarrow> 'e \<Rightarrow> 'e + unit" where
  "guardR b e = (if b then Inr () else Inl e)"

definition fromOption :: "'e \<Rightarrow> 'a option \<Rightarrow> 'e + 'a" where
  "fromOption e x = (case x of None \<Rightarrow> Inl e | Some y \<Rightarrow> Inr y)"

definition isOk :: "('e + 'a) \<Rightarrow> bool" where
  "isOk r = (case r of Inl _ \<Rightarrow> False | Inr _ \<Rightarrow> True)"

lemma bindR_simps [simp]:
  "bindR (Inl e) f = Inl e"
  "bindR (Inr x) f = f x"
  by (simp_all add: bindR_def)

lemma bindR_eq_Inr: "bindR m f = Inr y \<longleftrightarrow> (\<exists>x. m = Inr x \<and> f x = Inr y)"
  by (cases m) simp_all

lemma bindR_eq_Inl:
  "bindR m f = Inl e \<longleftrightarrow> m = Inl e \<or> (\<exists>x. m = Inr x \<and> f x = Inl e)"
  by (cases m) simp_all

lemma bindR_InrE:
  assumes "bindR m f = Inr y" obtains x where "m = Inr x" and "f x = Inr y"
  using assms by (auto simp: bindR_eq_Inr)

lemma bindR_guardE:
  assumes "bindR (guardR b e) f = Inr y" obtains "b" and "f () = Inr y"
  using assms by (auto simp: bindR_eq_Inr guardR_def split: if_splits)

lemma bindR_optionE:
  assumes "bindR (fromOption e x) f = Inr y" obtains z where "x = Some z" and "f z = Inr y"
  using assms by (cases x) (auto simp: bindR_eq_Inr fromOption_def)

lemma Inr_pairE:
  assumes "Inr (a, b) = Inr (c, d)" obtains "c = a" and "d = b"
  using assms by simp

text \<open>Taking a chain of statements that returned apart, from the front.\<close>

lemmas result_elims = bindR_guardE bindR_optionE bindR_InrE Inr_pairE

lemma bindR_cong [fundef_cong]:
  "m = m' \<Longrightarrow> (\<And>x. m' = Inr x \<Longrightarrow> f x = f' x) \<Longrightarrow> bindR m f = bindR m' f'"
  by (cases m') simp_all

lemma guardR_eq [simp]:
  "guardR b e = Inr u \<longleftrightarrow> b"
  "guardR b e = Inl e' \<longleftrightarrow> \<not> b \<and> e' = e"
  by (auto simp: guardR_def)

lemma guardR_True [simp]: "b \<Longrightarrow> guardR b e = Inr ()"
  by (simp add: guardR_def)

lemma guardR_False [simp]: "\<not> b \<Longrightarrow> guardR b e = Inl e"
  by (simp add: guardR_def)

lemma fromOption_eq [simp]:
  "fromOption e x = Inr y \<longleftrightarrow> x = Some y"
  "fromOption e x = Inl e' \<longleftrightarrow> x = None \<and> e' = e"
  by (auto simp: fromOption_def split: option.splits)

lemma fromOption_simps [simp]:
  "fromOption e None = Inl e"
  "fromOption e (Some y) = Inr y"
  by (simp_all add: fromOption_def)

lemma isOk_simps [simp]:
  "isOk (Inl e) = False"
  "isOk (Inr x) = True"
  by (simp_all add: isOk_def)

lemma isOk_iff: "isOk r \<longleftrightarrow> (\<exists>x. r = Inr x)"
  by (cases r) simp_all

lemma isOk_bindR [simp]: "isOk (bindR m f) \<longleftrightarrow> (\<exists>x. m = Inr x \<and> isOk (f x))"
  by (cases m) simp_all

lemmas result_iffs = bindR_eq_Inr bindR_eq_Inl

subsection \<open>Transactions\<close>

text \<open>
  \<open>begin ... commit\<close> with \<open>catch { rollback; throw }\<close>: the work sees the committed
  state and returns the state to commit; an error leaves the committed state as it was.
\<close>

definition run_tx :: "('s \<Rightarrow> 'e + 's \<times> 'a) \<Rightarrow> 's \<Rightarrow> 's \<times> ('e + 'a)" where
  "run_tx work s = (case work s of Inl e \<Rightarrow> (s, Inl e) | Inr (s', x) \<Rightarrow> (s', Inr x))"

lemma run_tx_Inl [simp]: "work s = Inl e \<Longrightarrow> run_tx work s = (s, Inl e)"
  by (simp add: run_tx_def)

lemma run_tx_Inr [simp]: "work s = Inr (s', x) \<Longrightarrow> run_tx work s = (s', Inr x)"
  by (simp add: run_tx_def)

lemma run_tx_eq_Inr: "run_tx work s = (s', Inr x) \<longleftrightarrow> work s = Inr (s', x)"
  by (auto simp: run_tx_def split: sum.splits)

lemma run_tx_eq_Inl: "run_tx work s = (s', Inl e) \<longleftrightarrow> s' = s \<and> work s = Inl e"
  by (auto simp: run_tx_def split: sum.splits)

lemma run_tx_invariant:
  assumes "P s" and "\<And>s' x. work s = Inr (s', x) \<Longrightarrow> P s'"
  shows "P (fst (run_tx work s))"
  using assms by (auto simp: run_tx_def split: sum.splits)

subsection \<open>Tables\<close>

definition update_where :: "('r \<Rightarrow> bool) \<Rightarrow> ('r \<Rightarrow> 'r) \<Rightarrow> 'r list \<Rightarrow> 'r list" where
  "update_where p f t = map (\<lambda>r. if p r then f r else r) t"

definition exists_where :: "('r \<Rightarrow> bool) \<Rightarrow> 'r list \<Rightarrow> bool" where
  "exists_where p t = list_ex p t"

definition row_where :: "('r \<Rightarrow> bool) \<Rightarrow> 'r list \<Rightarrow> 'r option" where
  "row_where p t = find p t"

text \<open>A unique index over the rows a condition selects: no two of them share a key.\<close>

definition unique_on :: "('r \<Rightarrow> bool) \<Rightarrow> ('r \<Rightarrow> 'k) \<Rightarrow> 'r list \<Rightarrow> bool" where
  "unique_on p k t = distinct (map k (filter p t))"

text \<open>A statement commits its new table when the constraints hold and raises otherwise.\<close>

definition checked :: "('t \<Rightarrow> bool) \<Rightarrow> 'e \<Rightarrow> 't \<Rightarrow> 'e + 't" where
  "checked ok e t = (if ok t then Inr t else Inl e)"

lemma checked_eq [simp]:
  "checked ok e t = Inr t' \<longleftrightarrow> t' = t \<and> ok t"
  "checked ok e t = Inl e' \<longleftrightarrow> \<not> ok t \<and> e' = e"
  by (auto simp: checked_def)

lemma checked_ok [simp]: "ok t \<Longrightarrow> checked ok e t = Inr t"
  by (simp add: checked_def)

lemma update_where_Nil [simp]: "update_where p f [] = []"
  by (simp add: update_where_def)

lemma update_where_Cons [simp]:
  "update_where p f (r # t) = (if p r then f r else r) # update_where p f t"
  by (simp add: update_where_def)

lemma length_update_where [simp]: "length (update_where p f t) = length t"
  by (simp add: update_where_def)

lemma set_update_where: "set (update_where p f t) = (\<lambda>r. if p r then f r else r) ` set t"
  by (simp add: update_where_def)

lemma in_update_where:
  "r \<in> set (update_where p f t) \<longleftrightarrow> (\<exists>q \<in> set t. r = (if p q then f q else q))"
  by (auto simp: set_update_where)

lemma list_all_update_where:
  "(\<And>r. r \<in> set t \<Longrightarrow> Q (if p r then f r else r)) \<Longrightarrow> list_all Q (update_where p f t)"
  by (induction t) (simp_all add: list_all_iff)

lemma map_update_where_same:
  "(\<And>r. r \<in> set t \<Longrightarrow> p r \<Longrightarrow> k (f r) = k r) \<Longrightarrow> map k (update_where p f t) = map k t"
  by (auto simp: update_where_def)

lemma update_where_id: "(\<And>r. r \<in> set t \<Longrightarrow> \<not> p r) \<Longrightarrow> update_where p f t = t"
  by (induction t) auto

lemma update_where_cong:
  "(\<And>r. r \<in> set t \<Longrightarrow> p r = q r) \<Longrightarrow> (\<And>r. r \<in> set t \<Longrightarrow> q r \<Longrightarrow> f r = g r)
    \<Longrightarrow> update_where p f t = update_where q g t"
  by (induction t) auto

lemma row_where_Some: "row_where p t = Some r \<Longrightarrow> r \<in> set t \<and> p r"
  by (induction t) (auto simp: row_where_def split: if_splits)

lemma row_where_None: "row_where p t = None \<longleftrightarrow> (\<forall>r \<in> set t. \<not> p r)"
  by (induction t) (auto simp: row_where_def)

lemma row_where_simps [simp]:
  "row_where p [] = None"
  "row_where p (r # t) = (if p r then Some r else row_where p t)"
  by (simp_all add: row_where_def)

lemma row_where_append:
  "row_where p (t @ u) = (case row_where p t of None \<Rightarrow> row_where p u | Some r \<Rightarrow> Some r)"
  by (induction t) simp_all

lemma exists_where_iff: "exists_where p t \<longleftrightarrow> (\<exists>r \<in> set t. p r)"
  by (simp add: exists_where_def list_ex_iff)

lemma row_where_unique:
  assumes "distinct (map k t)" and "r \<in> set t" and "k r = x"
  shows "row_where (\<lambda>r. k r = x) t = Some r"
  using assms by (induction t) (auto simp: image_iff)

lemma row_where_update_same:
  assumes "\<And>r. k (f r) = k r"
  shows "row_where (\<lambda>r. k r = x) (update_where (\<lambda>r. k r = x) f t)
    = map_option f (row_where (\<lambda>r. k r = x) t)"
  by (induction t) (auto simp: assms)

lemma row_where_update_other:
  assumes "\<And>r. k (f r) = k r" and "\<And>r. p r \<Longrightarrow> k r \<noteq> x"
  shows "row_where (\<lambda>r. k r = x) (update_where p f t) = row_where (\<lambda>r. k r = x) t"
  using assms by (induction t) auto

lemma unique_on_Cons:
  "unique_on p k (r # t) \<longleftrightarrow>
    unique_on p k t \<and> (p r \<longrightarrow> (\<forall>q \<in> set t. p q \<longrightarrow> k q \<noteq> k r))"
  unfolding unique_on_def by (cases "p r") (force simp: image_iff)+

lemma unique_on_append1:
  "unique_on p k (t @ [r]) \<longleftrightarrow>
    unique_on p k t \<and> (p r \<longrightarrow> (\<forall>q \<in> set t. p q \<longrightarrow> k q \<noteq> k r))"
  unfolding unique_on_def by (cases "p r") (force simp: image_iff)+

lemma unique_on_update_shrink:
  assumes "unique_on p k t"
    and "\<And>r. r \<in> set t \<Longrightarrow> c r \<Longrightarrow> p (f r) \<Longrightarrow> p r \<and> k (f r) = k r"
  shows "unique_on p k (update_where c f t)"
  using assms
proof (induction t)
  case Nil
  then show ?case by (simp add: unique_on_def)
next
  case (Cons r t)
  have tail: "unique_on p k (update_where c f t)"
    using Cons by (simp add: unique_on_Cons)
  have shrink: "p (if c q then f q else q) \<Longrightarrow> p q \<and> k (if c q then f q else q) = k q"
    if "q \<in> set (r # t)" for q
    using Cons.prems(2) [OF that] by (cases "c q") auto
  have old: "p r \<Longrightarrow> q \<in> set t \<Longrightarrow> p q \<Longrightarrow> k q \<noteq> k r" for q
    using Cons.prems(1) by (simp add: unique_on_Cons)
  have "k (if c q then f q else q) \<noteq> k (if c r then f r else r)"
    if q: "q \<in> set t" and pr: "p (if c r then f r else r)" and pq: "p (if c q then f q else q)" for q
  proof -
    have "p r" and kr: "k (if c r then f r else r) = k r" using shrink [of r] pr by simp_all
    moreover have "p q" and kq: "k (if c q then f q else q) = k q" using shrink [of q] pq q by simp_all
    ultimately have "k q \<noteq> k r" using old q by blast
    then show ?thesis using kr kq by simp
  qed
  then show ?case
    unfolding update_where_Cons unique_on_Cons using tail by (auto simp only: in_update_where)
qed

lemma unique_onD:
  assumes "unique_on p k t" and "r \<in> set t" and "q \<in> set t" and "p r" and "p q" and "k r = k q"
  shows "r = q"
  using assms by (induction t) (auto simp: unique_on_Cons)

subsection \<open>Sums over tables\<close>

definition sum_where :: "('r \<Rightarrow> bool) \<Rightarrow> ('r \<Rightarrow> int) \<Rightarrow> 'r list \<Rightarrow> int" where
  "sum_where p f t = sum_list (map f (filter p t))"

lemma sum_where_simps [simp]:
  "sum_where p f [] = 0"
  "sum_where p f (r # t) = (if p r then f r else 0) + sum_where p f t"
  by (simp_all add: sum_where_def)

lemma sum_where_append [simp]: "sum_where p f (t @ u) = sum_where p f t + sum_where p f u"
  by (simp add: sum_where_def)

lemma sum_where_cong:
  "(\<And>r. r \<in> set t \<Longrightarrow> p r = q r) \<Longrightarrow> (\<And>r. r \<in> set t \<Longrightarrow> q r \<Longrightarrow> f r = g r)
    \<Longrightarrow> sum_where p f t = sum_where q g t"
  by (induction t) auto

lemma sum_where_update_one:
  assumes "distinct (map k t)" and "row_where (\<lambda>r. k r = x) t = Some r"
  shows "sum_where p f (update_where (\<lambda>r. k r = x) g t)
    = sum_where p f t - (if p r then f r else 0) + (if p (g r) then f (g r) else 0)"
  using assms
proof (induction t)
  case (Cons q t)
  show ?case
  proof (cases "k q = x")
    case True
    then have "update_where (\<lambda>r. k r = x) g t = t"
      using Cons.prems(1) by (intro update_where_id) (auto simp: image_iff)
    then show ?thesis using True Cons.prems(2) by auto
  next
    case False
    then show ?thesis using Cons by auto
  qed
qed simp

lemma sum_where_nonneg: "(\<And>r. r \<in> set t \<Longrightarrow> p r \<Longrightarrow> 0 \<le> f r) \<Longrightarrow> 0 \<le> sum_where p f t"
  by (induction t) auto

lemma sum_where_ge_member:
  assumes "r \<in> set t" and "p r" and "\<And>q. q \<in> set t \<Longrightarrow> p q \<Longrightarrow> 0 \<le> f q"
  shows "f r \<le> sum_where p f t"
  using assms
proof (induction t)
  case (Cons q t)
  have "0 \<le> sum_where p f t" using Cons.prems(3) by (intro sum_where_nonneg) auto
  with Cons show ?case by (cases "r = q") (fastforce)+
qed simp

subsection \<open>Lists\<close>

text \<open>\<open>[...new Set(xs)]\<close>: the first occurrence of every element, in order.\<close>

fun js_unique_acc :: "'a list \<Rightarrow> 'a list \<Rightarrow> 'a list" where
  "js_unique_acc seen [] = rev seen"
| "js_unique_acc seen (x # xs) = js_unique_acc (if x \<in> set seen then seen else x # seen) xs"

definition js_unique :: "'a list \<Rightarrow> 'a list" where
  "js_unique xs = js_unique_acc [] xs"

lemma js_unique_acc_set: "set (js_unique_acc seen xs) = set seen \<union> set xs"
  by (induction xs arbitrary: seen) auto

lemma js_unique_acc_distinct: "distinct seen \<Longrightarrow> distinct (js_unique_acc seen xs)"
  by (induction xs arbitrary: seen) auto

lemma set_js_unique [simp]: "set (js_unique xs) = set xs"
  by (simp add: js_unique_def js_unique_acc_set)

lemma distinct_js_unique [simp]: "distinct (js_unique xs)"
  by (simp add: js_unique_def js_unique_acc_distinct)

lemma js_unique_Nil_iff [simp]: "js_unique xs = [] \<longleftrightarrow> xs = []"
  by (metis set_js_unique set_empty)

end
