(* ===== verification/Js_Strings.thy ===== *)
theory Js_Strings
  imports Prelude
begin

text \<open>
  The string operations of the language that the components use. A JavaScript string is
  represented by its UTF-8 encoding, a list of 8-bit \<open>char\<close>s, so ASCII text is written
  as an ordinary literal and no text is out of reach (lone surrogates excepted). UTF-8 is
  self-synchronising: \<open>startsWith\<close>, \<open>endsWith\<close>, \<open>includes\<close> and \<open>split\<close> at an ASCII
  separator agree with their byte-wise counterparts. \<open>length\<close> counts UTF-16 code units,
  so it is \<open>js_length\<close> and not the length of the byte list.
\<close>

type_synonym js_string = string

abbreviation byte_of :: "char \<Rightarrow> nat" where
  "byte_of c \<equiv> of_char c"

subsection \<open>Length in UTF-16 code units\<close>

definition utf16_units :: "char \<Rightarrow> nat" where
  "utf16_units c =
     (if byte_of c < 128 then 1 else if byte_of c < 192 then 0
      else if byte_of c < 240 then 1 else 2)"

definition js_length :: "js_string \<Rightarrow> nat" where
  "js_length s = sum_list (map utf16_units s)"

definition ascii :: "js_string \<Rightarrow> bool" where
  "ascii s \<longleftrightarrow> (\<forall>c \<in> set s. byte_of c < 128)"

lemma js_length_simps [simp]:
  "js_length [] = 0"
  "js_length (c # s) = utf16_units c + js_length s"
  by (simp_all add: js_length_def)

lemma js_length_append [simp]: "js_length (s @ t) = js_length s + js_length t"
  by (simp add: js_length_def)

lemma js_length_ascii: "ascii s \<Longrightarrow> js_length s = length s"
  by (induction s) (auto simp: ascii_def utf16_units_def)

subsection \<open>Prefixes, suffixes, membership\<close>

definition starts_with :: "js_string \<Rightarrow> js_string \<Rightarrow> bool" where
  "starts_with p s \<longleftrightarrow> take (length p) s = p"

definition ends_with :: "js_string \<Rightarrow> js_string \<Rightarrow> bool" where
  "ends_with p s \<longleftrightarrow> starts_with (rev p) (rev s)"

definition includes_char :: "char \<Rightarrow> js_string \<Rightarrow> bool" where
  "includes_char c s \<longleftrightarrow> c \<in> set s"

lemma starts_with_simps [simp]:
  "starts_with [] s"
  "\<not> starts_with (c # p) []"
  "starts_with (c # p) (d # s) \<longleftrightarrow> c = d \<and> starts_with p s"
  by (auto simp: starts_with_def)

lemma starts_with_iff: "starts_with p s \<longleftrightarrow> (\<exists>t. s = p @ t)"
  by (metis append_eq_conv_conj starts_with_def append_take_drop_id)

lemma ends_with_iff: "ends_with p s \<longleftrightarrow> (\<exists>t. s = t @ p)"
  by (metis ends_with_def rev_append rev_rev_ident starts_with_iff)

lemma starts_with_append [simp]: "starts_with p (p @ t)"
  by (auto simp: starts_with_iff)

lemma ends_with_append [simp]: "ends_with p (t @ p)"
  by (auto simp: ends_with_iff)

subsection \<open>split and join\<close>

text \<open>\<open>s.split("/")\<close>: never the empty array.\<close>

fun split_on :: "char \<Rightarrow> js_string \<Rightarrow> js_string list" where
  "split_on sep [] = [[]]"
| "split_on sep (c # s) =
     (if c = sep then [] # split_on sep s
      else case split_on sep s of [] \<Rightarrow> [[c]] | w # ws \<Rightarrow> (c # w) # ws)"

fun join_with :: "char \<Rightarrow> js_string list \<Rightarrow> js_string" where
  "join_with sep [] = []"
| "join_with sep [w] = w"
| "join_with sep (w # v # ws) = w @ sep # join_with sep (v # ws)"

lemma split_on_not_Nil [simp]: "split_on sep s \<noteq> []"
  by (induction s) (auto split: list.splits)

lemma join_with_Cons: "ws \<noteq> [] \<Longrightarrow> join_with sep (w # ws) = w @ sep # join_with sep ws"
  by (cases ws) auto

lemma join_split [simp]: "join_with sep (split_on sep s) = s"
proof (induction s)
  case (Cons c s)
  then show ?case
  proof (cases "split_on sep s")
    case Nil
    then show ?thesis by simp
  next
    case (Cons w ws)
    with Cons.IH show ?thesis
      by (cases ws) (auto simp: join_with_Cons)
  qed
qed simp

lemma split_on_no_sep: "w \<in> set (split_on sep s) \<Longrightarrow> sep \<notin> set w"
proof (induction s arbitrary: w)
  case (Cons c s)
  then show ?case by (cases "split_on sep s") (auto split: if_splits)
qed simp

lemma split_on_chars: "w \<in> set (split_on sep s) \<Longrightarrow> set w \<subseteq> set s"
proof (induction s arbitrary: w)
  case (Cons c s)
  then show ?case by (cases "split_on sep s") (fastforce split: if_splits)+
qed simp

lemma split_on_single: "sep \<notin> set s \<Longrightarrow> split_on sep s = [s]"
  by (induction s) auto

lemma split_on_append_sep:
  "sep \<notin> set w \<Longrightarrow> split_on sep (w @ sep # s) = w # split_on sep s"
  by (induction w) auto

lemma split_join:
  "ws \<noteq> [] \<Longrightarrow> (\<And>w. w \<in> set ws \<Longrightarrow> sep \<notin> set w) \<Longrightarrow> split_on sep (join_with sep ws) = ws"
  by (induction sep ws rule: join_with.induct) (auto simp: split_on_single split_on_append_sep)

lemma set_join_with: "set (join_with sep ws) \<subseteq> insert sep (\<Union> (set ` set ws))"
  by (induction sep ws rule: join_with.induct) auto

subsection \<open>trim\<close>

text \<open>
  The UTF-8 encodings of the WhiteSpace and LineTerminator code points that
  \<open>trim\<close> removes.
\<close>

definition js_whitespace :: "js_string list" where
  "js_whitespace =
     [[CHR 0x09], [CHR 0x0A], [CHR 0x0B], [CHR 0x0C], [CHR 0x0D], [CHR 0x20],
      [CHR 0xC2, CHR 0xA0], [CHR 0xE1, CHR 0x9A, CHR 0x80],
      [CHR 0xE2, CHR 0x80, CHR 0x80], [CHR 0xE2, CHR 0x80, CHR 0x81],
      [CHR 0xE2, CHR 0x80, CHR 0x82], [CHR 0xE2, CHR 0x80, CHR 0x83],
      [CHR 0xE2, CHR 0x80, CHR 0x84], [CHR 0xE2, CHR 0x80, CHR 0x85],
      [CHR 0xE2, CHR 0x80, CHR 0x86], [CHR 0xE2, CHR 0x80, CHR 0x87],
      [CHR 0xE2, CHR 0x80, CHR 0x88], [CHR 0xE2, CHR 0x80, CHR 0x89],
      [CHR 0xE2, CHR 0x80, CHR 0x8A], [CHR 0xE2, CHR 0x80, CHR 0xA8],
      [CHR 0xE2, CHR 0x80, CHR 0xA9], [CHR 0xE2, CHR 0x80, CHR 0xAF],
      [CHR 0xE2, CHR 0x81, CHR 0x9F], [CHR 0xE3, CHR 0x80, CHR 0x80],
      [CHR 0xEF, CHR 0xBB, CHR 0xBF]]"

definition ws_length :: "js_string list \<Rightarrow> js_string \<Rightarrow> nat" where
  "ws_length ws s = (case find (\<lambda>w. starts_with w s) ws of None \<Rightarrow> 0 | Some w \<Rightarrow> length w)"

function drop_ws :: "js_string list \<Rightarrow> js_string \<Rightarrow> js_string" where
  "drop_ws ws s =
     (if ws_length ws s = 0 \<or> s = [] then s else drop_ws ws (drop (ws_length ws s) s))"
  by pat_completeness auto
termination
  by (relation "measure (\<lambda>(ws, s). length s)") auto

declare drop_ws.simps [simp del]

definition js_trim :: "js_string \<Rightarrow> js_string" where
  "js_trim s = rev (drop_ws (map rev js_whitespace) (rev (drop_ws js_whitespace s)))"

lemma drop_ws_fixed: "ws_length ws s = 0 \<Longrightarrow> drop_ws ws s = s"
  by (subst drop_ws.simps) simp

lemma drop_ws_suffix: "\<exists>p. s = p @ drop_ws ws s"
proof (induction ws s rule: drop_ws.induct)
  case (1 ws s)
  show ?case
  proof (cases "ws_length ws s = 0 \<or> s = []")
    case True
    then show ?thesis by (auto simp: drop_ws.simps [of ws s])
  next
    case False
    with 1 obtain p where "drop (ws_length ws s) s = p @ drop_ws ws (drop (ws_length ws s) s)"
      by blast
    with False show ?thesis
      by (metis append.assoc append_take_drop_id drop_ws.simps)
  qed
qed

lemma drop_ws_stable: "ws_length ws (drop_ws ws s) = 0 \<or> drop_ws ws s = []"
proof (induction ws s rule: drop_ws.induct)
  case (1 ws s)
  then show ?case by (cases "ws_length ws s = 0 \<or> s = []") (auto simp: drop_ws.simps [of ws s])
qed

lemma js_length_drop_ws: "js_length (drop_ws ws s) \<le> js_length s"
  using drop_ws_suffix [of s ws] by (metis js_length_append le_add2)

lemma js_length_rev [simp]: "js_length (rev s) = js_length s"
  by (simp add: js_length_def rev_map [symmetric])

lemma js_length_trim: "js_length (js_trim s) \<le> js_length s"
  unfolding js_trim_def js_length_rev
  using js_length_drop_ws [of "map rev js_whitespace" "rev (drop_ws js_whitespace s)"]
    js_length_drop_ws [of js_whitespace s] by simp

lemma set_drop_ws: "set (drop_ws ws s) \<subseteq> set s"
  using drop_ws_suffix [of s ws] by (metis le_sup_iff order_refl set_append)

lemma set_js_trim: "set (js_trim s) \<subseteq> set s"
  using set_drop_ws [of "map rev js_whitespace" "rev (drop_ws js_whitespace s)"]
    set_drop_ws [of js_whitespace s]
  by (auto simp: js_trim_def)

lemma ws_length_starts:
  "(\<And>w. w \<in> set ws \<Longrightarrow> w \<noteq> []) \<Longrightarrow> ws_length ws s = 0 \<longleftrightarrow> \<not> list_ex (\<lambda>w. starts_with w s) ws"
proof -
  assume ne: "\<And>w. w \<in> set ws \<Longrightarrow> w \<noteq> []"
  show ?thesis
  proof (cases "find (\<lambda>w. starts_with w s) ws")
    case None
    then have "\<not> list_ex (\<lambda>w. starts_with w s) ws" by (simp add: find_None_iff list_ex_iff)
    with None show ?thesis by (simp add: ws_length_def)
  next
    case (Some w)
    then have "w \<in> set ws" "starts_with w s" by (auto simp: find_Some_iff)
    with Some ne show ?thesis by (auto simp: ws_length_def list_ex_iff)
  qed
qed

lemma whitespace_nonempty:
  "w \<in> set js_whitespace \<Longrightarrow> w \<noteq> []" "w \<in> set (map rev js_whitespace) \<Longrightarrow> w \<noteq> []"
  by (auto simp: js_whitespace_def)

lemma ws_length_prefix:
  assumes "\<And>w. w \<in> set ws \<Longrightarrow> w \<noteq> []" and "ws_length ws (s @ t) = 0"
  shows "ws_length ws s = 0"
proof -
  have "\<not> list_ex (\<lambda>w. starts_with w (s @ t)) ws" using assms(2) ws_length_starts [OF assms(1)] by simp
  then have "\<not> list_ex (\<lambda>w. starts_with w s) ws" by (auto simp: list_ex_iff starts_with_iff)
  then show ?thesis using ws_length_starts [OF assms(1)] by simp
qed

lemma js_trim_ends:
  "drop_ws js_whitespace (js_trim s) = js_trim s"
  "drop_ws (map rev js_whitespace) (rev (js_trim s)) = rev (js_trim s)"
proof -
  let ?a = "drop_ws js_whitespace s"
  let ?b = "drop_ws (map rev js_whitespace) (rev ?a)"
  obtain p where p: "rev ?a = p @ ?b" using drop_ws_suffix by metis
  then have a: "?a = rev ?b @ rev p" by (metis rev_append rev_rev_ident)
  have "drop_ws js_whitespace (rev ?b) = rev ?b"
  proof (cases "ws_length js_whitespace ?a = 0")
    case True
    then have "ws_length js_whitespace (rev ?b) = 0"
      using ws_length_prefix [of js_whitespace "rev ?b" "rev p"] whitespace_nonempty(1) a by simp
    then show ?thesis by (rule drop_ws_fixed)
  next
    case False
    then have "?a = []" using drop_ws_stable [of js_whitespace s] by simp
    then show ?thesis using a by (simp add: drop_ws.simps)
  qed
  then show "drop_ws js_whitespace (js_trim s) = js_trim s" by (simp add: js_trim_def)
  have "drop_ws (map rev js_whitespace) ?b = ?b"
    using drop_ws_stable [of "map rev js_whitespace" "rev ?a"] drop_ws_fixed
    by (metis drop_ws.simps)
  then show "drop_ws (map rev js_whitespace) (rev (js_trim s)) = rev (js_trim s)" by (simp add: js_trim_def)
qed

lemma js_trim_idem [simp]: "js_trim (js_trim s) = js_trim s"
  using js_trim_ends [of s] by (simp add: js_trim_def [of "js_trim s"])

lemma drop_ws_id: "drop_ws ws t = t \<Longrightarrow> t \<noteq> [] \<Longrightarrow> ws_length ws t = 0"
proof (rule ccontr)
  assume t: "drop_ws ws t = t" "t \<noteq> []" "ws_length ws t \<noteq> 0"
  then have "t = drop_ws ws (drop (ws_length ws t) t)" by (simp add: drop_ws.simps [of ws t])
  moreover obtain p where "drop (ws_length ws t) t = p @ drop_ws ws (drop (ws_length ws t) t)"
    using drop_ws_suffix by metis
  ultimately have "length t \<le> length (drop (ws_length ws t) t)" by (metis le_add2 length_append)
  moreover have "length t - ws_length ws t < length t"
    using t(2,3) by (intro diff_less) auto
  ultimately show False by simp
qed

text \<open>No white space is left at either end.\<close>

lemma js_trim_no_space:
  "w \<in> set js_whitespace \<Longrightarrow> \<not> starts_with w (js_trim s)"
  "w \<in> set js_whitespace \<Longrightarrow> \<not> ends_with w (js_trim s)"
proof -
  assume w: "w \<in> set js_whitespace"
  show "\<not> starts_with w (js_trim s)"
  proof (cases "js_trim s = []")
    case True
    then show ?thesis using whitespace_nonempty(1) [OF w] by (simp add: starts_with_def)
  next
    case False
    from drop_ws_id [OF js_trim_ends(1) this] show ?thesis
      using w ws_length_starts [of js_whitespace "js_trim s"] whitespace_nonempty(1) by (auto simp: list_ex_iff)
  qed
  show "\<not> ends_with w (js_trim s)"
  proof (cases "js_trim s = []")
    case True
    then show ?thesis using whitespace_nonempty(1) [OF w] by (simp add: ends_with_def starts_with_def)
  next
    case False
    then have "rev (js_trim s) \<noteq> []" by simp
    from drop_ws_id [OF js_trim_ends(2) this] show ?thesis
      using w ws_length_starts [of "map rev js_whitespace" "rev (js_trim s)"] whitespace_nonempty(2)
      by (auto simp: list_ex_iff ends_with_def)
  qed
qed

subsection \<open>ASCII case folding\<close>

text \<open>
  \<open>toLowerCase\<close> on the ASCII range. The only code points above it whose lower case
  involves an ASCII letter are U+212A (to \<open>k\<close>) and U+0130 (to \<open>i\<close> and a combining dot),
  so comparing a folded string with an ASCII literal without \<open>k\<close> agrees with the language.
\<close>

definition lower_char :: "char \<Rightarrow> char" where
  "lower_char c = (if 65 \<le> byte_of c \<and> byte_of c \<le> 90 then char_of (byte_of c + 32) else c)"

definition to_lower :: "js_string \<Rightarrow> js_string" where
  "to_lower s = map lower_char s"

lemma length_to_lower [simp]: "length (to_lower s) = length s"
  by (simp add: to_lower_def)

lemma lower_char_idem [simp]: "lower_char (lower_char c) = lower_char c"
  by (auto simp: lower_char_def)

lemma to_lower_idem [simp]: "to_lower (to_lower s) = to_lower s"
  by (simp add: to_lower_def)

end
