(* ===== verification/Gallery_Domain.thy ===== *)
theory Gallery_Domain
  imports Js_Strings
begin

text \<open>
  The Gallery vocabulary of \<open>api/src/application/gallery/domain.ts\<close>: lifecycle, review
  state, closure reasons, effective access, the projections the services return, and the
  outcome types. String unions are datatypes with one constructor per literal, nullable
  fields are options, dates are instants in milliseconds.
\<close>

type_synonym time = int

datatype GalleryLifecycle = Pending | Listed | Withdrawn | Removed
datatype GalleryReviewState = Clear | Reviewing | Restricted

datatype GalleryClosureReason =
    Creator_withdrawal
  | Artifact_deleted
  | Account_deleted
  | Initial_policy_rejection
  | Initial_governance_block
  | Administrator_removal

datatype GalleryEffectiveAccessRestriction =
    Gallery_disabled
  | Deployment_ineligible
  | Not_listed
  | Public_sharing_restricted
  | Artifact_takedown
  | Administrator_removal_restriction
  | Appeal_pending
  | Source_deleted

record GalleryEffectiveAccess =
  accessible :: bool
  access_restrictions :: "GalleryEffectiveAccessRestriction list"

record GalleryCommittedRevision =
  cr_id :: js_string
  cr_revision :: int
  cr_versionId :: js_string
  cr_title :: js_string
  cr_description :: "js_string option"
  cr_tags :: "js_string list"
  cr_permissionAcceptanceId :: js_string

datatype GalleryProposalState =
  Open | Promoted | Rejected | Governance_blocked | Stale | Closed

record GalleryProposal =
  gpr_id :: js_string
  gpr_baseListingRevision :: int
  gpr_versionId :: js_string
  gpr_state :: GalleryProposalState

record GalleryListingProjection =
  glp_id :: js_string
  glp_artifactId :: js_string
  glp_lifecycle :: GalleryLifecycle
  glp_reviewState :: GalleryReviewState
  glp_closureReason :: "GalleryClosureReason option"
  glp_listingRevision :: int
  glp_committed :: "GalleryCommittedRevision option"
  glp_proposal :: "GalleryProposal option"
  glp_effectiveAccess :: GalleryEffectiveAccess

datatype GalleryOwnerOperationKind = Share_to_gallery | Update_gallery | Withdraw_from_gallery
datatype GalleryOperationStatus =
  Op_accepted | Op_completed | Op_rejected | Op_indeterminate

record GalleryOperationOutcome =
  goo_operationId :: js_string
  goo_operation :: GalleryOwnerOperationKind
  goo_acceptedAt :: time
  goo_status :: GalleryOperationStatus
  goo_committedListingRevision :: "int option"

datatype GalleryTransitionResult =
    Tr_committed GalleryListingProjection js_string
  | Tr_already_accepted GalleryOperationOutcome GalleryListingProjection
  | Tr_revision_conflict GalleryListingProjection
  | Tr_state_conflict GalleryListingProjection js_string
  | Tr_forbidden js_string
  | Tr_not_found js_string
  | Tr_unavailable js_string

datatype GalleryCopyState =
  Copy_accepted | Copy_processing | Copy_ready | Copy_failed | Copy_cancelled | Copy_indeterminate
datatype QuotaState = Held | Committed | Released

record GalleryCopyProjection =
  gcp_id :: js_string
  gcp_state :: GalleryCopyState
  gcp_sourceListingId :: js_string
  gcp_sourceListingRevision :: int
  gcp_sourceVersionId :: js_string
  gcp_destinationArtifactId :: "js_string option"
  gcp_quotaState :: QuotaState

datatype GalleryCaseKind =
  Case_proposal | Case_report | Case_removal | Case_restriction | Case_takedown | Case_appeal
datatype GalleryCaseState = Case_open | Case_decided | Case_moot

record GalleryGovernanceProjection =
  ggp_caseId :: js_string
  ggp_caseKind :: GalleryCaseKind
  ggp_state :: GalleryCaseState
  ggp_effectiveAccess :: GalleryEffectiveAccess

subsection \<open>Errors of a transaction\<close>

text \<open>
  What ends a transaction: a table constraint or a trigger of \<open>db/migrations\<close> (named
  after it), an \<open>Error\<close> thrown with a message, or the error class of the service,
  which carries its code.
\<close>

datatype tx_error =
    Check_violation js_string
  | Unique_violation js_string
  | Foreign_key_violation js_string
  | Trigger_raised js_string
  | Thrown js_string
  | Coded js_string

end
