(* ===== verification/Gallery_Tables.thy ===== *)
theory Gallery_Tables
  imports Gallery_Domain
begin

text \<open>
  The Gallery tables of \<open>db/migrations/0014\<close>, \<open>0015\<close> and \<open>0027\<close> that the services of
  \<open>api/src/application/gallery/\<close> write, with the check constraints, unique indexes and
  immutability triggers the statements can run into. A statement checks its table after
  the change and raises the violated constraint. Foreign keys and the length checks of the
  text columns are not modelled (the services insert rows they have just read or
  validated); surrogate ids that nothing reads back (events), the avatar columns of a
  profile, the cover of a revision and the safety evidence of a proposal are left out.
\<close>

record listing_row =
  gl_id :: js_string
  gl_artifact_id :: js_string
  gl_owner_user_id :: js_string
  gl_creator_profile_id :: js_string
  gl_opaque_slug :: js_string
  gl_lifecycle_state :: GalleryLifecycle
  gl_review_state :: GalleryReviewState
  gl_closure_reason :: "GalleryClosureReason option"
  gl_listing_revision :: int
  gl_current_revision_id :: "js_string option"
  gl_predecessor_listing_id :: "js_string option"
  gl_restoration_forfeited_at :: "time option"
  gl_created_at :: time
  gl_updated_at :: time
  gl_closed_at :: "time option"

record proposal_row =
  gp_id :: js_string
  gp_listing_id :: js_string
  gp_base_listing_revision :: int
  gp_version_id :: js_string
  gp_permission_acceptance_id :: js_string
  gp_public_title :: js_string
  gp_public_description :: "js_string option"
  gp_tags :: "js_string list"
  gp_state :: GalleryProposalState
  gp_closed_at :: "time option"

record revision_row =
  gr_id :: js_string
  gr_listing_id :: js_string
  gr_revision :: int
  gr_version_id :: js_string
  gr_permission_acceptance_id :: js_string
  gr_public_title :: js_string
  gr_public_description :: "js_string option"
  gr_tags :: "js_string list"

record acceptance_row =
  ga_id :: js_string
  ga_user_id :: js_string
  ga_listing_id :: js_string
  ga_version_id :: "js_string option"
  ga_grant_version :: js_string
  ga_grant_text_digest :: js_string
  ga_accepted_at :: time

datatype actor_kind = Actor_creator | Actor_administrator | Actor_system

record event_row =
  ge_listing_id :: js_string
  ge_from_lifecycle_state :: "GalleryLifecycle option"
  ge_to_lifecycle_state :: GalleryLifecycle
  ge_closure_reason :: "GalleryClosureReason option"
  ge_base_listing_revision :: "int option"
  ge_committed_listing_revision :: int
  ge_actor_kind :: actor_kind
  ge_actor_id :: "js_string option"

record tombstone_row =
  gt_listing_id :: js_string
  gt_opaque_slug :: js_string
  gt_was_ever_public :: bool
  gt_terminal_lifecycle_state :: GalleryLifecycle
  gt_closure_reason :: GalleryClosureReason
  gt_source_deleted_at :: "time option"
  gt_permanently_non_restorable_at :: "time option"

record profile_row =
  pr_id :: js_string
  pr_user_id :: js_string
  pr_opaque_slug :: js_string
  pr_display_name :: js_string
  pr_biography :: "js_string option"
  pr_revision :: int
  pr_public_at :: "time option"
  pr_retired_at :: "time option"

text \<open>A restriction or takedown of an artifact, in force while its state is active.\<close>

datatype block_state = Block_active | Block_cleared | Block_reversed

record block_row =
  gb_artifact_id :: js_string
  gb_source_decision_id :: js_string
  gb_source_root_decision_id :: js_string
  gb_state :: block_state
  gb_rule_code :: js_string
  gb_ended_at :: "time option"
  gb_ending_decision_id :: "js_string option"

definition gb_active :: "block_row \<Rightarrow> bool" where
  "gb_active b \<longleftrightarrow> gb_state b = Block_active"

datatype appeal_state = Appeal_state_pending | Appeal_state_upheld | Appeal_state_reversed | Appeal_state_moot

record appeal_row =
  gap_id :: js_string
  gap_case_id :: js_string
  gap_decision_id :: js_string
  gap_appellant_user_id :: js_string
  gap_policy_version :: js_string
  gap_deadline_at :: time
  gap_statement :: js_string
  gap_state :: appeal_state
  gap_idempotency_key_digest :: js_string
  gap_input_fingerprint :: js_string
  gap_resolved_at :: "time option"
  gap_resolution_decision_id :: "js_string option"

datatype GovernanceDecisionKind =
    Decide_approve | Decide_reject | Decide_dismiss | Decide_remove | Decide_restore | Decide_restrict
  | Decide_clear_restriction | Decide_takedown | Decide_clear_takedown | Decide_uphold_appeal | Decide_reverse_appeal

record decision_row =
  gd_id :: js_string
  gd_case_id :: js_string
  gd_actor_user_id :: js_string
  gd_decision_kind :: GovernanceDecisionKind
  gd_rule_code :: js_string
  gd_rationale :: js_string
  gd_evidence_digest :: js_string
  gd_appeal_policy_version :: "js_string option"
  gd_appeal_deadline_at :: "time option"
  gd_idempotency_key_digest :: js_string
  gd_input_fingerprint :: js_string
  gd_created_at :: time

datatype case_kind =
  Case_proposal | Case_report | Case_removal | Case_restriction | Case_takedown | Case_appeal

datatype case_state = Case_open | Case_decided | Case_moot

record case_row =
  gcase_id :: js_string
  gcase_kind :: case_kind
  gcase_listing_id :: "js_string option"
  gcase_artifact_id :: "js_string option"
  gcase_proposal_id :: "js_string option"
  gcase_report_id :: "js_string option"
  gcase_parent_case_id :: "js_string option"
  gcase_state :: case_state
  gcase_evidence_digest :: js_string
  gcase_opened_at :: time
  gcase_closed_at :: "time option"

record gallery_db =
  listings :: "listing_row list"
  proposals :: "proposal_row list"
  revisions :: "revision_row list"
  acceptances :: "acceptance_row list"
  lifecycle_events :: "event_row list"
  tombstones :: "tombstone_row list"
  profiles :: "profile_row list"
  public_sharing_restrictions :: "block_row list"
  artifact_takedowns :: "block_row list"
  appeals :: "appeal_row list"
  decisions :: "decision_row list"
  cases :: "case_row list"
  account_closures :: "js_string list"

subsection \<open>Constraints\<close>

definition open_listing :: "listing_row \<Rightarrow> bool" where
  "open_listing r \<longleftrightarrow> gl_lifecycle_state r = Pending \<or> gl_lifecycle_state r = Listed"

text \<open>The row checks of \<open>gallery_listing\<close>, in the order of the migration.\<close>

definition terminal_projection_check :: "listing_row \<Rightarrow> bool" where
  "terminal_projection_check r \<longleftrightarrow>
     (open_listing r \<and> gl_closure_reason r = None \<and> gl_closed_at r = None)
   \<or> ((gl_lifecycle_state r = Withdrawn \<or> gl_lifecycle_state r = Removed)
       \<and> gl_closure_reason r \<noteq> None \<and> gl_closed_at r \<noteq> None)"

definition committed_projection_check :: "listing_row \<Rightarrow> bool" where
  "committed_projection_check r \<longleftrightarrow>
     (gl_lifecycle_state r = Pending \<and> gl_current_revision_id r = None)
   \<or> gl_lifecycle_state r \<noteq> Pending"

definition listed_revision_check :: "listing_row \<Rightarrow> bool" where
  "listed_revision_check r \<longleftrightarrow>
     gl_lifecycle_state r \<noteq> Listed \<or> gl_current_revision_id r \<noteq> None"

definition listing_row_ok :: "listing_row \<Rightarrow> bool" where
  "listing_row_ok r \<longleftrightarrow>
     0 < gl_listing_revision r \<and> terminal_projection_check r
     \<and> committed_projection_check r \<and> listed_revision_check r"

definition listings_unique :: "listing_row list \<Rightarrow> bool" where
  "listings_unique t \<longleftrightarrow>
     unique_on (\<lambda>_. True) gl_id t \<and> unique_on (\<lambda>_. True) gl_opaque_slug t
     \<and> unique_on open_listing gl_artifact_id t"

definition open_proposal :: "proposal_row \<Rightarrow> bool" where
  "open_proposal p \<longleftrightarrow> gp_state p = Open"

definition proposal_row_ok :: "proposal_row \<Rightarrow> bool" where
  "proposal_row_ok p \<longleftrightarrow>
     0 < gp_base_listing_revision p \<and> (open_proposal p \<longleftrightarrow> gp_closed_at p = None)"

definition proposals_unique :: "proposal_row list \<Rightarrow> bool" where
  "proposals_unique t \<longleftrightarrow>
     unique_on (\<lambda>_. True) gp_id t \<and> unique_on open_proposal gp_listing_id t"

definition revisions_unique :: "revision_row list \<Rightarrow> bool" where
  "revisions_unique t \<longleftrightarrow>
     unique_on (\<lambda>_. True) gr_id t \<and> unique_on (\<lambda>_. True) (\<lambda>r. (gr_listing_id r, gr_revision r)) t"

definition acceptances_unique :: "acceptance_row list \<Rightarrow> bool" where
  "acceptances_unique t \<longleftrightarrow>
     unique_on (\<lambda>_. True) ga_id t
     \<and> unique_on (\<lambda>_. True) (\<lambda>a. (ga_listing_id a, ga_grant_version a, ga_grant_text_digest a)) t"

definition tombstones_unique :: "tombstone_row list \<Rightarrow> bool" where
  "tombstones_unique t \<longleftrightarrow>
     unique_on (\<lambda>_. True) gt_listing_id t \<and> unique_on (\<lambda>_. True) gt_opaque_slug t"

definition profile_row_ok :: "profile_row \<Rightarrow> bool" where
  "profile_row_ok r \<longleftrightarrow> 0 < pr_revision r \<and> (pr_public_at r = None \<or> pr_retired_at r = None)"

definition profiles_unique :: "profile_row list \<Rightarrow> bool" where
  "profiles_unique t \<longleftrightarrow>
     unique_on (\<lambda>_. True) pr_id t \<and> unique_on (\<lambda>_. True) pr_user_id t
     \<and> unique_on (\<lambda>_. True) pr_opaque_slug t"

text \<open>All constraints of the schema, which every committed state satisfies.\<close>

definition gallery_db_ok :: "'x gallery_db_scheme \<Rightarrow> bool" where
  "gallery_db_ok db \<longleftrightarrow>
     list_all listing_row_ok (listings db) \<and> listings_unique (listings db)
     \<and> list_all proposal_row_ok (proposals db) \<and> proposals_unique (proposals db)
     \<and> revisions_unique (revisions db) \<and> acceptances_unique (acceptances db)
     \<and> tombstones_unique (tombstones db)
     \<and> list_all profile_row_ok (profiles db) \<and> profiles_unique (profiles db)"

subsection \<open>Statements\<close>

definition check_listings :: "listing_row list \<Rightarrow> tx_error + listing_row list" where
  "check_listings t =
     (if \<not> list_all terminal_projection_check t
        then Inl (Check_violation ''gallery_listing_terminal_projection_check'')
      else if \<not> list_all committed_projection_check t
        then Inl (Check_violation ''gallery_listing_committed_projection_check'')
      else if \<not> list_all listed_revision_check t
        then Inl (Check_violation ''gallery_listing_listed_revision_check'')
      else if \<not> list_all (\<lambda>r. 0 < gl_listing_revision r) t
        then Inl (Check_violation ''gallery_listing_listing_revision_check'')
      else if \<not> listings_unique t
        then Inl (Unique_violation ''gallery_listing_one_open_per_artifact_idx'')
      else Inr t)"

definition check_proposals :: "proposal_row list \<Rightarrow> tx_error + proposal_row list" where
  "check_proposals t =
     (if \<not> list_all proposal_row_ok t
        then Inl (Check_violation ''gallery_listing_proposal_closure_check'')
      else if \<not> proposals_unique t
        then Inl (Unique_violation ''gallery_listing_proposal_one_open_idx'')
      else Inr t)"

definition update_listings ::
  "(listing_row \<Rightarrow> bool) \<Rightarrow> (listing_row \<Rightarrow> listing_row) \<Rightarrow> 'x gallery_db_scheme
    \<Rightarrow> tx_error + 'x gallery_db_scheme" where
  "update_listings p f db =
     bindR (check_listings (update_where p f (listings db))) (\<lambda>t. Inr (db\<lparr>listings := t\<rparr>))"

definition insert_listing ::
  "listing_row \<Rightarrow> 'x gallery_db_scheme \<Rightarrow> tx_error + 'x gallery_db_scheme" where
  "insert_listing r db =
     bindR (check_listings (listings db @ [r])) (\<lambda>t. Inr (db\<lparr>listings := t\<rparr>))"

definition update_proposals ::
  "(proposal_row \<Rightarrow> bool) \<Rightarrow> (proposal_row \<Rightarrow> proposal_row) \<Rightarrow> 'x gallery_db_scheme
    \<Rightarrow> tx_error + 'x gallery_db_scheme" where
  "update_proposals p f db =
     bindR (check_proposals (update_where p f (proposals db))) (\<lambda>t. Inr (db\<lparr>proposals := t\<rparr>))"

definition insert_proposal ::
  "proposal_row \<Rightarrow> 'x gallery_db_scheme \<Rightarrow> tx_error + 'x gallery_db_scheme" where
  "insert_proposal r db =
     bindR (check_proposals (proposals db @ [r])) (\<lambda>t. Inr (db\<lparr>proposals := t\<rparr>))"

definition insert_revision ::
  "revision_row \<Rightarrow> 'x gallery_db_scheme \<Rightarrow> tx_error + 'x gallery_db_scheme" where
  "insert_revision r db =
     (if revisions_unique (revisions db @ [r]) then Inr (db\<lparr>revisions := revisions db @ [r]\<rparr>)
      else Inl (Unique_violation ''gallery_listing_revision_listing_id_revision_key''))"

definition insert_acceptance ::
  "acceptance_row \<Rightarrow> 'x gallery_db_scheme \<Rightarrow> tx_error + 'x gallery_db_scheme" where
  "insert_acceptance r db =
     (if acceptances_unique (acceptances db @ [r]) then Inr (db\<lparr>acceptances := acceptances db @ [r]\<rparr>)
      else Inl (Unique_violation
        ''gallery_permission_grant_acceptance (listing_id, grant_version, grant_text_digest)''))"

definition insert_event :: "event_row \<Rightarrow> 'x gallery_db_scheme \<Rightarrow> 'x gallery_db_scheme" where
  "insert_event e db = db\<lparr>lifecycle_events := lifecycle_events db @ [e]\<rparr>"

definition check_tombstones :: "tombstone_row list \<Rightarrow> tx_error + tombstone_row list" where
  "check_tombstones t =
     (if tombstones_unique t then Inr t
      else Inl (Unique_violation ''gallery_listing_closure_tombstone_opaque_slug_key''))"

text \<open>
  \<open>insert ... on conflict (listing_id) do nothing\<close>, and \<open>... do update\<close>: the second form
  updates the existing row, which \<open>gallery_closure_tombstone_immutable\<close> forbids.
\<close>

definition insert_tombstone_do_nothing ::
  "tombstone_row \<Rightarrow> 'x gallery_db_scheme \<Rightarrow> tx_error + 'x gallery_db_scheme" where
  "insert_tombstone_do_nothing r db =
     (if exists_where (\<lambda>t. gt_listing_id t = gt_listing_id r) (tombstones db) then Inr db
      else bindR (check_tombstones (tombstones db @ [r])) (\<lambda>t. Inr (db\<lparr>tombstones := t\<rparr>)))"

definition insert_tombstone_do_update ::
  "tombstone_row \<Rightarrow> 'x gallery_db_scheme \<Rightarrow> tx_error + 'x gallery_db_scheme" where
  "insert_tombstone_do_update r db =
     (if exists_where (\<lambda>t. gt_listing_id t = gt_listing_id r) (tombstones db)
        then Inl (Trigger_raised ''gallery_closure_tombstone_immutable'')
      else bindR (check_tombstones (tombstones db @ [r])) (\<lambda>t. Inr (db\<lparr>tombstones := t\<rparr>)))"

fun insert_tombstones_do_update ::
  "tombstone_row list \<Rightarrow> 'x gallery_db_scheme \<Rightarrow> tx_error + 'x gallery_db_scheme" where
  "insert_tombstones_do_update [] db = Inr db"
| "insert_tombstones_do_update (r # rs) db =
     bindR (insert_tombstone_do_update r db) (insert_tombstones_do_update rs)"

definition update_profiles ::
  "(profile_row \<Rightarrow> bool) \<Rightarrow> (profile_row \<Rightarrow> profile_row) \<Rightarrow> 'x gallery_db_scheme
    \<Rightarrow> tx_error + 'x gallery_db_scheme" where
  "update_profiles p f db =
     (let t = update_where p f (profiles db)
      in if \<not> list_all profile_row_ok t
           then Inl (Check_violation ''gallery_creator_profile_visibility_check'')
         else if \<not> profiles_unique t
           then Inl (Unique_violation ''gallery_creator_profile_user_id_key'')
         else Inr (db\<lparr>profiles := t\<rparr>))"

text \<open>The two \<open>exists\<close> sub-queries every publication guard of the Gallery asks.\<close>

definition artifact_blocked :: "'x gallery_db_scheme \<Rightarrow> js_string \<Rightarrow> bool" where
  "artifact_blocked db a \<longleftrightarrow>
     exists_where (\<lambda>b. gb_artifact_id b = a \<and> gb_active b) (public_sharing_restrictions db)
     \<or> exists_where (\<lambda>b. gb_artifact_id b = a \<and> gb_active b) (artifact_takedowns db)"

lemmas [table_defs] =
  update_listings_def insert_listing_def update_proposals_def insert_proposal_def
  insert_revision_def insert_acceptance_def insert_event_def insert_tombstone_do_nothing_def
  insert_tombstone_do_update_def update_profiles_def check_listings_def check_proposals_def
  check_tombstones_def

subsection \<open>Facts about the statements\<close>

lemma check_listings_Inr:
  "check_listings t = Inr u \<longleftrightarrow> u = t \<and> list_all listing_row_ok t \<and> listings_unique t"
  by (auto simp: check_listings_def listing_row_ok_def list_all_iff)

lemma check_proposals_Inr:
  "check_proposals t = Inr u \<longleftrightarrow> u = t \<and> list_all proposal_row_ok t \<and> proposals_unique t"
  by (auto simp: check_proposals_def)

lemma check_tombstones_Inr: "check_tombstones t = Inr u \<longleftrightarrow> u = t \<and> tombstones_unique t"
  by (auto simp: check_tombstones_def)

lemma update_listings_Inr:
  "update_listings p f db = Inr db' \<longleftrightarrow>
     db' = db\<lparr>listings := update_where p f (listings db)\<rparr>
     \<and> list_all listing_row_ok (update_where p f (listings db))
     \<and> listings_unique (update_where p f (listings db))"
  by (auto simp: update_listings_def bindR_eq_Inr check_listings_Inr)

lemma insert_listing_Inr:
  "insert_listing r db = Inr db' \<longleftrightarrow>
     db' = db\<lparr>listings := listings db @ [r]\<rparr>
     \<and> list_all listing_row_ok (listings db @ [r]) \<and> listings_unique (listings db @ [r])"
  by (auto simp: insert_listing_def bindR_eq_Inr check_listings_Inr)

lemma update_proposals_Inr:
  "update_proposals p f db = Inr db' \<longleftrightarrow>
     db' = db\<lparr>proposals := update_where p f (proposals db)\<rparr>
     \<and> list_all proposal_row_ok (update_where p f (proposals db))
     \<and> proposals_unique (update_where p f (proposals db))"
  by (auto simp: update_proposals_def bindR_eq_Inr check_proposals_Inr)

lemma insert_proposal_Inr:
  "insert_proposal r db = Inr db' \<longleftrightarrow>
     db' = db\<lparr>proposals := proposals db @ [r]\<rparr>
     \<and> list_all proposal_row_ok (proposals db @ [r]) \<and> proposals_unique (proposals db @ [r])"
  by (auto simp: insert_proposal_def bindR_eq_Inr check_proposals_Inr)

lemma insert_revision_Inr:
  "insert_revision r db = Inr db' \<longleftrightarrow>
     db' = db\<lparr>revisions := revisions db @ [r]\<rparr> \<and> revisions_unique (revisions db @ [r])"
  by (auto simp: insert_revision_def)

lemma insert_acceptance_Inr:
  "insert_acceptance r db = Inr db' \<longleftrightarrow>
     db' = db\<lparr>acceptances := acceptances db @ [r]\<rparr> \<and> acceptances_unique (acceptances db @ [r])"
  by (auto simp: insert_acceptance_def)

lemma update_profiles_Inr:
  "update_profiles p f db = Inr db' \<longleftrightarrow>
     db' = db\<lparr>profiles := update_where p f (profiles db)\<rparr>
     \<and> list_all profile_row_ok (update_where p f (profiles db))
     \<and> profiles_unique (update_where p f (profiles db))"
  by (auto simp: update_profiles_def Let_def)

lemma insert_tombstone_do_nothing_Inr:
  "insert_tombstone_do_nothing r db = Inr db' \<longleftrightarrow>
     (if exists_where (\<lambda>t. gt_listing_id t = gt_listing_id r) (tombstones db) then db' = db
      else db' = db\<lparr>tombstones := tombstones db @ [r]\<rparr> \<and> tombstones_unique (tombstones db @ [r]))"
  by (auto simp: insert_tombstone_do_nothing_def bindR_eq_Inr check_tombstones_Inr)

lemma insert_tombstones_do_update_Inr:
  "(insert_tombstones_do_update rs db :: tx_error + 'x gallery_db_scheme) = Inr db' \<Longrightarrow>
     db' = db\<lparr>tombstones := tombstones db @ rs\<rparr>
     \<and> (tombstones_unique (tombstones db) \<longrightarrow> tombstones_unique (tombstones db @ rs))"
proof (induction rs arbitrary: db)
  case (Cons r rs)
  from Cons.prems obtain db1
    where one: "(insert_tombstone_do_update r db :: tx_error + 'x gallery_db_scheme) = Inr db1"
    and rest: "(insert_tombstones_do_update rs db1 :: tx_error + 'x gallery_db_scheme) = Inr db'"
    by (auto simp: bindR_eq_Inr)
  from one have "db1 = db\<lparr>tombstones := tombstones db @ [r]\<rparr>"
    and "tombstones_unique (tombstones db @ [r])"
    by (auto simp: insert_tombstone_do_update_def bindR_eq_Inr check_tombstones_Inr
        split: if_splits)
  with Cons.IH [OF rest] show ?case by simp
qed simp

lemmas statement_Inr =
  update_listings_Inr insert_listing_Inr update_proposals_Inr insert_proposal_Inr
  insert_revision_Inr insert_acceptance_Inr update_profiles_Inr insert_tombstone_do_nothing_Inr

text \<open>Every statement keeps the constraints of the whole schema.\<close>

lemma gallery_db_ok_frame [simp]:
  "gallery_db_ok (db\<lparr>lifecycle_events := e\<rparr>) = gallery_db_ok db"
  "gallery_db_ok (db\<lparr>appeals := a\<rparr>) = gallery_db_ok db"
  "gallery_db_ok (db\<lparr>account_closures := c\<rparr>) = gallery_db_ok db"
  by (simp_all add: gallery_db_ok_def)

lemma gallery_db_ok_insert_event [simp]: "gallery_db_ok (insert_event e db) = gallery_db_ok db"
  by (simp add: insert_event_def)

lemma insert_event_frame [simp]:
  "listings (insert_event e db) = listings db"
  "proposals (insert_event e db) = proposals db"
  "revisions (insert_event e db) = revisions db"
  "tombstones (insert_event e db) = tombstones db"
  "acceptances (insert_event e db) = acceptances db"
  "profiles (insert_event e db) = profiles db"
  "lifecycle_events (insert_event e db) = lifecycle_events db @ [e]"
  by (simp_all add: insert_event_def)

lemma gallery_db_ok_statement:
  assumes "gallery_db_ok db"
  shows "update_listings p f db = Inr db' \<Longrightarrow> gallery_db_ok db'"
    and "insert_listing l db = Inr db' \<Longrightarrow> gallery_db_ok db'"
    and "update_proposals pp pf db = Inr db' \<Longrightarrow> gallery_db_ok db'"
    and "insert_proposal pr db = Inr db' \<Longrightarrow> gallery_db_ok db'"
    and "insert_revision rr db = Inr db' \<Longrightarrow> gallery_db_ok db'"
    and "insert_acceptance ar db = Inr db' \<Longrightarrow> gallery_db_ok db'"
    and "update_profiles rp rf db = Inr db' \<Longrightarrow> gallery_db_ok db'"
    and "insert_tombstone_do_nothing tr db = Inr db' \<Longrightarrow> gallery_db_ok db'"
    and "insert_tombstones_do_update trs db = Inr db' \<Longrightarrow> gallery_db_ok db'"
  using assms
  by (auto simp: statement_Inr gallery_db_ok_def split: if_splits
      dest!: insert_tombstones_do_update_Inr)

text \<open>
  A change of one listing that keeps its keys is accepted when the changed row satisfies
  the checks and does not open a second listing of the artifact.
\<close>

definition other_open :: "'x gallery_db_scheme \<Rightarrow> listing_row \<Rightarrow> bool" where
  "other_open db r \<longleftrightarrow>
     exists_where (\<lambda>q. open_listing q \<and> gl_artifact_id q = gl_artifact_id r \<and> gl_id q \<noteq> gl_id r)
       (listings db)"

lemma gallery_db_ok_listing_row: "gallery_db_ok db \<Longrightarrow> r \<in> set (listings db) \<Longrightarrow> listing_row_ok r"
  by (auto simp: gallery_db_ok_def list_all_iff)

lemma gallery_db_ok_listing_id:
  "gallery_db_ok db \<Longrightarrow> r \<in> set (listings db) \<Longrightarrow> q \<in> set (listings db) \<Longrightarrow> gl_id r = gl_id q \<Longrightarrow> r = q"
  by (auto simp: gallery_db_ok_def listings_unique_def elim: unique_onD)

lemma open_listing_unique:
  assumes ok: "gallery_db_ok db" and r: "r \<in> set (listings db)" "open_listing r"
  shows "\<not> other_open db r"
proof
  assume "other_open db r"
  then obtain q where q: "q \<in> set (listings db)" "open_listing q"
      "gl_artifact_id q = gl_artifact_id r" "gl_id q \<noteq> gl_id r"
    by (auto simp: other_open_def exists_where_iff)
  have "unique_on open_listing gl_artifact_id (listings db)"
    using ok by (simp add: gallery_db_ok_def listings_unique_def)
  from unique_onD [OF this q(1) r(1) q(2) r(2) q(3)] q(4) show False by simp
qed

lemma listings_unique_update:
  assumes uniq: "listings_unique t"
    and keys: "\<And>r. gl_id (f r) = gl_id r" "\<And>r. gl_opaque_slug (f r) = gl_opaque_slug r"
      "\<And>r. gl_artifact_id (f r) = gl_artifact_id r"
    and opens: "\<And>r. r \<in> set t \<Longrightarrow> gl_id r = x \<Longrightarrow> open_listing (f r) \<Longrightarrow> \<not> open_listing r \<Longrightarrow>
      \<forall>q \<in> set t. open_listing q \<longrightarrow> gl_artifact_id q = gl_artifact_id r \<longrightarrow> gl_id q = x"
  shows "listings_unique (update_where (\<lambda>r. gl_id r = x) f t)"
proof -
  let ?u = "update_where (\<lambda>r. gl_id r = x) f t"
  have "map gl_id ?u = map gl_id t" "map gl_opaque_slug ?u = map gl_opaque_slug t"
    using keys by (auto simp: update_where_def)
  then have ids: "distinct (map gl_id ?u)" "distinct (map gl_opaque_slug ?u)"
    using uniq by (simp_all add: listings_unique_def unique_on_def)
  have ok: "unique_on open_listing gl_artifact_id t" "distinct (map gl_id t)"
    using uniq by (simp_all add: listings_unique_def unique_on_def)
  have "unique_on open_listing gl_artifact_id ?u"
    using ok opens
  proof (induction t)
    case (Cons r t)
    have tail: "unique_on open_listing gl_artifact_id (update_where (\<lambda>r. gl_id r = x) f t)"
    proof (rule Cons.IH)
      show "unique_on open_listing gl_artifact_id t" "distinct (map gl_id t)"
        using Cons.prems(1,2) by (simp_all add: unique_on_Cons)
      show "\<forall>q\<in>set t. open_listing q \<longrightarrow> gl_artifact_id q = gl_artifact_id r' \<longrightarrow> gl_id q = x"
        if "r' \<in> set t" "gl_id r' = x" "open_listing (f r')" "\<not> open_listing r'" for r'
        using Cons.prems(3) [of r'] that by auto
    qed
    have clash: "gl_artifact_id q \<noteq> gl_artifact_id r"
      if "open_listing (if gl_id r = x then f r else r)" "q \<in> set t"
        "open_listing (if gl_id q = x then f q else q)" for q
    proof
      assume same: "gl_artifact_id q = gl_artifact_id r"
      have neq: "gl_id q \<noteq> gl_id r" using Cons.prems(2) that(2) by (auto simp: image_iff)
      have both: "\<not> (open_listing r \<and> open_listing q)"
        using Cons.prems(1) that(2) same by (auto simp: unique_on_Cons)
      show False
      proof (cases "open_listing r")
        case True
        with both have "\<not> open_listing q" by simp
        with that(3) have "gl_id q = x" "open_listing (f q)" by (auto split: if_splits)
        with Cons.prems(3) [of q] \<open>\<not> open_listing q\<close> True that(2) same neq show False by auto
      next
        case False
        with that(1) have r: "gl_id r = x" "open_listing (f r)" by (auto split: if_splits)
        with neq that(3) have "open_listing q" by auto
        with Cons.prems(3) [of r] r False that(2) same neq show False by auto
      qed
    qed
    have "gl_artifact_id (if gl_id q = x then f q else q) = gl_artifact_id q" for q
      by (simp add: keys)
    then show ?case
      using tail clash by (auto simp only: update_where_Cons unique_on_Cons in_update_where)
  qed (simp add: unique_on_def)
  with ids show ?thesis by (simp add: listings_unique_def unique_on_def)
qed

lemma update_listings_one:
  assumes ok: "gallery_db_ok db" and r: "row_where (\<lambda>r. gl_id r = x) (listings db) = Some r"
    and keys: "\<And>r. gl_id (f r) = gl_id r" "\<And>r. gl_opaque_slug (f r) = gl_opaque_slug r"
      "\<And>r. gl_artifact_id (f r) = gl_artifact_id r"
    and row: "listing_row_ok (f r)"
    and opens: "open_listing (f r) \<Longrightarrow> \<not> open_listing r \<Longrightarrow> \<not> other_open db r"
  shows "update_listings (\<lambda>r. gl_id r = x) f db
    = Inr (db\<lparr>listings := update_where (\<lambda>r. gl_id r = x) f (listings db)\<rparr>)"
proof -
  have rx: "r \<in> set (listings db)" "gl_id r = x" using row_where_Some [OF r] by simp_all
  have only: "q = r" if "q \<in> set (listings db)" "gl_id q = x" for q
    using gallery_db_ok_listing_id [OF ok that(1) rx(1)] that(2) rx(2) by simp
  have "list_all listing_row_ok (update_where (\<lambda>r. gl_id r = x) f (listings db))"
    using row only gallery_db_ok_listing_row [OF ok] by (auto simp: list_all_iff in_update_where)
  moreover have "listings_unique (update_where (\<lambda>r. gl_id r = x) f (listings db))"
  proof (rule listings_unique_update [OF _ keys])
    show "listings_unique (listings db)" using ok by (simp add: gallery_db_ok_def)
    show "\<forall>q\<in>set (listings db). open_listing q \<longrightarrow> gl_artifact_id q = gl_artifact_id r' \<longrightarrow> gl_id q = x"
      if "r' \<in> set (listings db)" "gl_id r' = x" "open_listing (f r')" "\<not> open_listing r'" for r'
      using opens only [OF that(1,2)] that rx by (auto simp: other_open_def exists_where_iff)
  qed
  ultimately show ?thesis by (simp add: update_listings_Inr)
qed

text \<open>Closing the open proposals of a listing never violates a constraint.\<close>

lemma update_proposals_close:
  assumes ok: "gallery_db_ok db"
    and keys: "\<And>p. gp_id (f p) = gp_id p" "\<And>p. gp_base_listing_revision (f p) = gp_base_listing_revision p"
    and closed: "\<And>p. \<not> open_proposal (f p)" "\<And>p. gp_closed_at (f p) = Some now"
  shows "update_proposals c f db = Inr (db\<lparr>proposals := update_where c f (proposals db)\<rparr>)"
proof -
  have "list_all proposal_row_ok (update_where c f (proposals db))"
    using ok keys closed by (auto simp: gallery_db_ok_def list_all_iff in_update_where proposal_row_ok_def)
  moreover have "proposals_unique (update_where c f (proposals db))"
    using ok closed keys unfolding gallery_db_ok_def proposals_unique_def
    by (auto intro!: unique_on_update_shrink)
  ultimately show ?thesis by (simp add: update_proposals_Inr)
qed

end
