(* ===== verification/Listing_Transitions.thy ===== *)
theory Listing_Transitions
  imports Gallery_Tables
begin

text \<open>
  The listing lifecycle of \<open>api/src/application/gallery/listing-transitions.ts\<close>: the pure
  decision \<open>decideGalleryTransition\<close> and the transactional store that applies it under a
  row lock with an expected revision. The lemmas give the lifecycle machine (which states
  are terminal and what leaves them), the optimistic concurrency of the store, and which
  commands the table constraints of \<open>gallery_listing\<close> accept.
\<close>

record GalleryListingState =
  ls_id :: js_string
  ls_lifecycle :: GalleryLifecycle
  ls_reviewState :: GalleryReviewState
  ls_closureReason :: "GalleryClosureReason option"
  ls_listingRevision :: int
  ls_hasCommittedRevision :: bool
  ls_restorationForfeited :: bool

datatype GalleryTransitionCommand =
    Cmd_promote_initial
  | Cmd_creator_withdrawal
  | Cmd_initial_policy_rejection
  | Cmd_initial_governance_block
  | Cmd_administrator_removal
  | Cmd_administrator_restoration
  | Cmd_artifact_deleted
  | Cmd_account_deleted
  | Cmd_begin_review
  | Cmd_clear_review
  | Cmd_restrict

datatype GalleryTransitionDecision =
    Commit GalleryLifecycle GalleryReviewState "GalleryClosureReason option" bool
  | Preserve_terminal_with_source_event
  | Conflict js_string

abbreviation pending_or_listed :: "GalleryLifecycle \<Rightarrow> bool" where
  "pending_or_listed l \<equiv> l = Pending \<or> l = Listed"

definition decideGalleryTransition ::
  "GalleryListingState \<Rightarrow> GalleryTransitionCommand \<Rightarrow> GalleryTransitionDecision" where
  "decideGalleryTransition s c =
     (if c = Cmd_begin_review then
        (if pending_or_listed (ls_lifecycle s)
         then Commit (ls_lifecycle s) Reviewing (ls_closureReason s) False
         else Conflict ''terminal_listing'')
      else if c = Cmd_clear_review then
        (if pending_or_listed (ls_lifecycle s)
         then Commit (ls_lifecycle s) Clear (ls_closureReason s) False
         else Conflict ''terminal_listing'')
      else if c = Cmd_restrict then
        (if pending_or_listed (ls_lifecycle s)
         then Commit (ls_lifecycle s) Restricted (ls_closureReason s) True
         else Conflict ''terminal_listing'')
      else if c = Cmd_promote_initial then
        (if ls_lifecycle s = Pending \<and> \<not> ls_hasCommittedRevision s
         then Commit Listed Clear None True
         else Conflict ''initial_promotion_not_allowed'')
      else if c = Cmd_creator_withdrawal then
        (if pending_or_listed (ls_lifecycle s)
         then Commit Withdrawn (ls_reviewState s) (Some Creator_withdrawal) True
         else Conflict ''withdrawal_not_allowed'')
      else if c = Cmd_initial_policy_rejection \<or> c = Cmd_initial_governance_block then
        (if ls_lifecycle s \<noteq> Pending \<or> ls_hasCommittedRevision s
         then Conflict ''initial_closure_not_allowed''
         else Commit Removed (ls_reviewState s)
                (Some (if c = Cmd_initial_policy_rejection
                       then Initial_policy_rejection else Initial_governance_block)) True)
      else if c = Cmd_administrator_removal then
        (if ls_lifecycle s = Listed \<and> ls_hasCommittedRevision s
         then Commit Removed (ls_reviewState s) (Some Administrator_removal) True
         else Conflict ''administrator_removal_not_allowed'')
      else if c = Cmd_administrator_restoration then
        (if ls_lifecycle s = Removed \<and> ls_closureReason s = Some Administrator_removal
            \<and> ls_hasCommittedRevision s \<and> \<not> ls_restorationForfeited s
         then Commit Listed Clear None True
         else Conflict ''restoration_not_allowed'')
      else if ls_lifecycle s = Removed \<and> ls_closureReason s \<noteq> Some Administrator_removal then
        Preserve_terminal_with_source_event
      else if ls_lifecycle s = Withdrawn then Preserve_terminal_with_source_event
      else Commit Withdrawn (ls_reviewState s)
             (Some (if c = Cmd_artifact_deleted then Artifact_deleted else Account_deleted)) True)"

subsection \<open>The store\<close>

datatype PersistedGalleryTransition =
    Pt_committed GalleryListingState
  | Pt_current_state GalleryListingState js_string

record transition_actor =
  ta_kind :: actor_kind
  ta_id :: "js_string option"

definition loadForUpdate ::
  "'x gallery_db_scheme \<Rightarrow> js_string \<Rightarrow> GalleryListingState option" where
  "loadForUpdate db listingId =
     map_option
       (\<lambda>r. \<lparr>ls_id = listingId, ls_lifecycle = gl_lifecycle_state r,
             ls_reviewState = gl_review_state r, ls_closureReason = gl_closure_reason r,
             ls_listingRevision = gl_listing_revision r,
             ls_hasCommittedRevision = gl_current_revision_id r \<noteq> None,
             ls_restorationForfeited = gl_restoration_forfeited_at r \<noteq> None\<rparr>)
       (row_where (\<lambda>r. gl_id r = listingId) (listings db))"

text \<open>The event's \<open>kind\<close>, where it ends with \<open>deleted\<close>.\<close>

definition deleted_event_reason :: "GalleryTransitionCommand \<Rightarrow> GalleryClosureReason option" where
  "deleted_event_reason c =
     (case c of
        Cmd_artifact_deleted \<Rightarrow> Some Artifact_deleted
      | Cmd_account_deleted \<Rightarrow> Some Account_deleted
      | _ \<Rightarrow> None)"

definition recordEvent ::
  "GalleryListingState \<Rightarrow> GalleryListingState \<Rightarrow> GalleryTransitionCommand \<Rightarrow> transition_actor
    \<Rightarrow> 'x gallery_db_scheme \<Rightarrow> 'x gallery_db_scheme" where
  "recordEvent before after event actor =
     insert_event
       \<lparr>ge_listing_id = ls_id before,
        ge_from_lifecycle_state = Some (ls_lifecycle before),
        ge_to_lifecycle_state = ls_lifecycle after,
        ge_closure_reason =
          (case ls_closureReason after of Some r \<Rightarrow> Some r | None \<Rightarrow> deleted_event_reason event),
        ge_base_listing_revision = Some (ls_listingRevision before),
        ge_committed_listing_revision = ls_listingRevision after,
        ge_actor_kind = ta_kind actor, ge_actor_id = ta_id actor\<rparr>"

definition close_open_proposals ::
  "js_string \<Rightarrow> time \<Rightarrow> 'x gallery_db_scheme \<Rightarrow> tx_error + 'x gallery_db_scheme" where
  "close_open_proposals listingId now =
     update_proposals (\<lambda>p. gp_listing_id p = listingId \<and> gp_state p = Open)
       (\<lambda>p. p\<lparr>gp_state := Closed, gp_closed_at := Some now\<rparr>)"

text \<open>The row the \<open>update gallery_listing\<close> writes, and the state the store returns.\<close>

definition commit_row ::
  "time \<Rightarrow> GalleryLifecycle \<Rightarrow> GalleryReviewState \<Rightarrow> GalleryClosureReason option \<Rightarrow> int
    \<Rightarrow> listing_row \<Rightarrow> listing_row" where
  "commit_row now lifecycle reviewState closureReason nextRevision r =
     r\<lparr>gl_lifecycle_state := lifecycle, gl_review_state := reviewState,
       gl_closure_reason := closureReason, gl_listing_revision := nextRevision,
       gl_closed_at := (if lifecycle = Removed \<or> lifecycle = Withdrawn then Some now else None),
       gl_updated_at := now\<rparr>"

definition next_state ::
  "GalleryListingState \<Rightarrow> GalleryLifecycle \<Rightarrow> GalleryReviewState \<Rightarrow> GalleryClosureReason option
    \<Rightarrow> GalleryListingState" where
  "next_state current lifecycle reviewState closureReason =
     current\<lparr>ls_lifecycle := lifecycle, ls_reviewState := reviewState,
       ls_closureReason := closureReason, ls_listingRevision := ls_listingRevision current + 1\<rparr>"

text \<open>The body between \<open>begin\<close> and \<open>commit\<close>; \<open>now\<close> is the transaction's time.\<close>

definition transition_body ::
  "time \<Rightarrow> js_string \<Rightarrow> int \<Rightarrow> GalleryTransitionCommand \<Rightarrow> transition_actor
    \<Rightarrow> 'x gallery_db_scheme
    \<Rightarrow> tx_error + 'x gallery_db_scheme \<times> PersistedGalleryTransition" where
  "transition_body now listingId expectedRevision command actor db =
     bindR (fromOption (Thrown ''gallery_listing_not_found'') (loadForUpdate db listingId)) (\<lambda>current.
     if ls_listingRevision current \<noteq> expectedRevision then
       Inr (db, Pt_current_state current ''revision_conflict'')
     else case decideGalleryTransition current command of
       Conflict reason \<Rightarrow> Inr (db, Pt_current_state current reason)
     | Preserve_terminal_with_source_event \<Rightarrow>
         Inr (recordEvent current current command actor db,
              Pt_current_state current ''terminal_state_preserved'')
     | Commit lifecycle reviewState closureReason closeProposals \<Rightarrow>
         bindR (update_listings (\<lambda>r. gl_id r = listingId)
                  (commit_row now lifecycle reviewState closureReason
                     (ls_listingRevision current + 1)) db) (\<lambda>db1.
         bindR (if closeProposals then close_open_proposals listingId now db1 else Inr db1) (\<lambda>db2.
         let next = next_state current lifecycle reviewState closureReason
         in Inr (recordEvent current next command actor db2, Pt_committed next))))"

definition store_transition ::
  "time \<Rightarrow> js_string \<Rightarrow> int \<Rightarrow> GalleryTransitionCommand \<Rightarrow> transition_actor
    \<Rightarrow> 'x gallery_db_scheme
    \<Rightarrow> 'x gallery_db_scheme \<times> (tx_error + PersistedGalleryTransition)" where
  "store_transition now listingId expectedRevision command actor =
     run_tx (transition_body now listingId expectedRevision command actor)"

subsection \<open>The decision\<close>

lemmas decide_def = decideGalleryTransition_def

definition terminal_projection :: "GalleryListingState \<Rightarrow> bool" where
  "terminal_projection s \<longleftrightarrow> (ls_closureReason s = None \<longleftrightarrow> pending_or_listed (ls_lifecycle s))"

lemma decide_withdrawn: "ls_lifecycle s = Withdrawn \<Longrightarrow> decideGalleryTransition s c \<noteq> Commit l rv cr cp"
  by (cases c) (simp_all add: decide_def)

lemma decide_removed:
  "ls_lifecycle s = Removed \<Longrightarrow> decideGalleryTransition s c = Commit l rv cr cp \<Longrightarrow>
     ls_closureReason s = Some Administrator_removal \<and>
     (l = Withdrawn \<or> l = Listed \<and> c = Cmd_administrator_restoration
        \<and> ls_hasCommittedRevision s \<and> \<not> ls_restorationForfeited s)"
  by (cases c) (auto simp: decide_def split: if_splits)

lemma decide_commit_projection:
  "decideGalleryTransition s c = Commit l rv cr cp \<Longrightarrow> terminal_projection s \<Longrightarrow>
     (cr = None \<longleftrightarrow> pending_or_listed l)"
  by (cases c) (auto simp: decide_def terminal_projection_def split: if_splits)

lemma decide_commit_pending:
  "decideGalleryTransition s c = Commit Pending rv cr cp \<Longrightarrow> ls_lifecycle s = Pending"
  by (cases c) (auto simp: decide_def split: if_splits)

lemma decide_commit_listed:
  "decideGalleryTransition s c = Commit Listed rv cr cp \<Longrightarrow> c \<noteq> Cmd_promote_initial \<Longrightarrow>
     ls_lifecycle s = Listed \<or> c = Cmd_administrator_restoration \<and> ls_hasCommittedRevision s"
  by (cases c) (auto simp: decide_def split: if_splits)

lemma decide_commit_opens:
  "decideGalleryTransition s c = Commit l rv cr cp \<Longrightarrow> pending_or_listed l \<Longrightarrow>
     pending_or_listed (ls_lifecycle s) \<or> c = Cmd_administrator_restoration"
  by (cases c) (auto simp: decide_def split: if_splits)


definition example_removed_state :: GalleryListingState where
  "example_removed_state =
     \<lparr>ls_id = ''l1'', ls_lifecycle = Removed, ls_reviewState = Clear,
      ls_closureReason = Some Administrator_removal, ls_listingRevision = 3,
      ls_hasCommittedRevision = True, ls_restorationForfeited = False\<rparr>"


subsection \<open>The store keeps the schema and reports what it read\<close>

lemma loadForUpdate_Some:
  "loadForUpdate db x = Some s \<longleftrightarrow>
     (\<exists>r. row_where (\<lambda>r. gl_id r = x) (listings db) = Some r \<and>
       s = \<lparr>ls_id = x, ls_lifecycle = gl_lifecycle_state r, ls_reviewState = gl_review_state r,
            ls_closureReason = gl_closure_reason r, ls_listingRevision = gl_listing_revision r,
            ls_hasCommittedRevision = gl_current_revision_id r \<noteq> None,
            ls_restorationForfeited = gl_restoration_forfeited_at r \<noteq> None\<rparr>)"
  by (auto simp: loadForUpdate_def)

lemma gallery_db_ok_recordEvent [simp]: "gallery_db_ok (recordEvent b a e act db) = gallery_db_ok db"
  by (simp add: recordEvent_def)

lemma recordEvent_frame [simp]:
  "listings (recordEvent b a e act db) = listings db"
  "proposals (recordEvent b a e act db) = proposals db"
  by (simp_all add: recordEvent_def)

lemma loadForUpdate_recordEvent [simp]:
  "loadForUpdate (recordEvent b a e act db) x = loadForUpdate db x"
  by (simp add: loadForUpdate_def)

lemma close_open_proposals_ok:
  "gallery_db_ok db \<Longrightarrow>
   close_open_proposals x now db = Inr (db\<lparr>proposals := update_where
     (\<lambda>p. gp_listing_id p = x \<and> gp_state p = Open)
     (\<lambda>p. p\<lparr>gp_state := Closed, gp_closed_at := Some now\<rparr>) (proposals db)\<rparr>)"
  unfolding close_open_proposals_def
  by (rule update_proposals_close [where now = now]) (simp_all add: open_proposal_def)

lemma close_open_proposals_Inr:
  "close_open_proposals x now db = Inr db' \<Longrightarrow>
     listings db' = listings db \<and> lifecycle_events db' = lifecycle_events db"
  by (auto simp: close_open_proposals_def update_proposals_Inr)

lemma loaded_terminal_projection:
  assumes "gallery_db_ok db" and "loadForUpdate db x = Some s"
  shows "terminal_projection s"
proof -
  from assms(2) obtain r where r: "row_where (\<lambda>r. gl_id r = x) (listings db) = Some r"
    and s: "ls_closureReason s = gl_closure_reason r" "ls_lifecycle s = gl_lifecycle_state r"
    by (auto simp: loadForUpdate_Some)
  have "listing_row_ok r"
    using gallery_db_ok_listing_row [OF assms(1)] row_where_Some [OF r] by blast
  with s show ?thesis
    by (auto simp: terminal_projection_def listing_row_ok_def terminal_projection_check_def
        open_listing_def)
qed

text \<open>The four ways a transition returns.\<close>

lemma transition_body_cases:
  fixes db :: "'x gallery_db_scheme"
  assumes run: "(transition_body now x n c act db
      :: tx_error + 'x gallery_db_scheme \<times> PersistedGalleryTransition) = Inr (db', res)"
  obtains (stale) s where "loadForUpdate db x = Some s" "ls_listingRevision s \<noteq> n"
      "db' = db" "res = Pt_current_state s ''revision_conflict''"
    | (conflict) s reason where "loadForUpdate db x = Some s" "ls_listingRevision s = n"
      "decideGalleryTransition s c = Conflict reason" "db' = db" "res = Pt_current_state s reason"
    | (preserved) s where "loadForUpdate db x = Some s" "ls_listingRevision s = n"
      "decideGalleryTransition s c = Preserve_terminal_with_source_event"
      "db' = recordEvent s s c act db" "res = Pt_current_state s ''terminal_state_preserved''"
    | (committed) s l rv cr cp db1 db2 where "loadForUpdate db x = Some s" "ls_listingRevision s = n"
      "decideGalleryTransition s c = Commit l rv cr cp"
      "(update_listings (\<lambda>r. gl_id r = x) (commit_row now l rv cr (n + 1)) db :: tx_error + _)
        = Inr db1"
      "(if cp then close_open_proposals x now db1 else Inr db1 :: tx_error + _) = Inr db2"
      "db' = recordEvent s (next_state s l rv cr) c act db2" "res = Pt_committed (next_state s l rv cr)"
proof -
  from run obtain s where s: "loadForUpdate db x = Some s"
    by (auto simp: transition_body_def bindR_eq_Inr)
  show thesis
  proof (cases "ls_listingRevision s = n")
    case False
    have "db' = db" "res = Pt_current_state s ''revision_conflict''"
      using run s False by (simp_all add: transition_body_def)
    with s False show thesis by (rule stale)
  next
    case True
    show thesis
    proof (cases "decideGalleryTransition s c")
      case (Commit l rv cr cp)
      have "bindR (update_listings (\<lambda>r. gl_id r = x) (commit_row now l rv cr (n + 1)) db :: tx_error + _)
          (\<lambda>db1. bindR (if cp then close_open_proposals x now db1 else Inr db1) (\<lambda>db2.
            Inr (recordEvent s (next_state s l rv cr) c act db2, Pt_committed (next_state s l rv cr))))
          = Inr (db', res)"
        using run unfolding transition_body_def s fromOption_simps bindR_simps Let_def
        by (simp only: True Commit GalleryTransitionDecision.case simp_thms if_False)
      then obtain db1 db2 where
        "(update_listings (\<lambda>r. gl_id r = x) (commit_row now l rv cr (n + 1)) db :: tx_error + _)
          = Inr db1"
        "(if cp then close_open_proposals x now db1 else Inr db1 :: tx_error + _) = Inr db2"
        "db' = recordEvent s (next_state s l rv cr) c act db2" "res = Pt_committed (next_state s l rv cr)"
        unfolding bindR_eq_Inr by blast
      with s True Commit show thesis by (rule committed)
    next
      case Preserve_terminal_with_source_event
      have "db' = recordEvent s s c act db" "res = Pt_current_state s ''terminal_state_preserved''"
        using run s True Preserve_terminal_with_source_event by (simp_all add: transition_body_def)
      with s True Preserve_terminal_with_source_event show thesis by (rule preserved)
    next
      case (Conflict reason)
      have "db' = db" "res = Pt_current_state s reason"
        using run s True Conflict by (simp_all add: transition_body_def)
      with s True Conflict show thesis by (rule conflict)
    qed
  qed
qed

lemma transition_body_ok:
  fixes db :: "'x gallery_db_scheme"
  assumes ok: "gallery_db_ok db"
    and run: "(transition_body now x n c act db
      :: tx_error + 'x gallery_db_scheme \<times> PersistedGalleryTransition) = Inr (db', res)"
  shows "gallery_db_ok db'"
  using run
proof (cases rule: transition_body_cases)
  case (committed s l rv cr cp db1 db2)
  from gallery_db_ok_statement(1) [OF ok committed(4)] have db1: "gallery_db_ok db1" .
  have "gallery_db_ok db2"
  proof (cases cp)
    case True
    with committed(5) have "(close_open_proposals x now db1 :: tx_error + _) = Inr db2" by simp
    then show ?thesis unfolding close_open_proposals_def by (rule gallery_db_ok_statement(3) [OF db1])
  qed (use committed(5) db1 in simp)
  with committed(6) show ?thesis by simp
qed (use ok in simp_all)

lemma commit_row_keys [simp]:
  "gl_id (commit_row now l rv cr n r) = gl_id r"
  "gl_artifact_id (commit_row now l rv cr n r) = gl_artifact_id r"
  "gl_opaque_slug (commit_row now l rv cr n r) = gl_opaque_slug r"
  "gl_lifecycle_state (commit_row now l rv cr n r) = l"
  "gl_review_state (commit_row now l rv cr n r) = rv"
  "gl_closure_reason (commit_row now l rv cr n r) = cr"
  "gl_listing_revision (commit_row now l rv cr n r) = n"
  "gl_current_revision_id (commit_row now l rv cr n r) = gl_current_revision_id r"
  "gl_restoration_forfeited_at (commit_row now l rv cr n r) = gl_restoration_forfeited_at r"
  by (simp_all add: commit_row_def)

lemma commit_row_ok_iff:
  assumes "0 < n" and "cr = None \<longleftrightarrow> pending_or_listed l"
  shows "listing_row_ok (commit_row now l rv cr n r) \<longleftrightarrow>
    (l = Pending \<longrightarrow> gl_current_revision_id r = None) \<and> (l = Listed \<longrightarrow> gl_current_revision_id r \<noteq> None)"
  using assms
  by (cases l) (auto simp: listing_row_ok_def terminal_projection_check_def open_listing_def
      committed_projection_check_def listed_revision_check_def commit_row_def)

subsection \<open>What a committed transition does\<close>

lemma committed_effect:
  fixes db :: "'x gallery_db_scheme"
  assumes run: "(transition_body now x n c act db
      :: tx_error + 'x gallery_db_scheme \<times> PersistedGalleryTransition) = Inr (db', Pt_committed s')"
  obtains s l rv cr cp where "loadForUpdate db x = Some s" "ls_listingRevision s = n"
    "decideGalleryTransition s c = Commit l rv cr cp" "s' = next_state s l rv cr"
    "listings db' = update_where (\<lambda>r. gl_id r = x) (commit_row now l rv cr (n + 1)) (listings db)"
    "proposals db' = (if cp then update_where (\<lambda>p. gp_listing_id p = x \<and> gp_state p = Open)
       (\<lambda>p. p\<lparr>gp_state := Closed, gp_closed_at := Some now\<rparr>) (proposals db) else proposals db)"
    "lifecycle_events db' = lifecycle_events db @
       [\<lparr>ge_listing_id = x, ge_from_lifecycle_state = Some (ls_lifecycle s),
         ge_to_lifecycle_state = l,
         ge_closure_reason = (case cr of Some r \<Rightarrow> Some r | None \<Rightarrow> deleted_event_reason c),
         ge_base_listing_revision = Some n, ge_committed_listing_revision = n + 1,
         ge_actor_kind = ta_kind act, ge_actor_id = ta_id act\<rparr>]"
  using run
proof (cases rule: transition_body_cases)
  case (committed s l rv cr cp db1 db2)
  have db1: "db1 = db\<lparr>listings := update_where (\<lambda>r. gl_id r = x) (commit_row now l rv cr (n + 1)) (listings db)\<rparr>"
    using committed(4) by (simp add: update_listings_Inr)
  have db2: "db2 = (if cp then db1\<lparr>proposals := update_where (\<lambda>p. gp_listing_id p = x \<and> gp_state p = Open)
       (\<lambda>p. p\<lparr>gp_state := Closed, gp_closed_at := Some now\<rparr>) (proposals db1)\<rparr> else db1)"
    using committed(5) by (auto simp: close_open_proposals_def update_proposals_Inr)
  have ids: "ls_id s = x" using committed(1) by (auto simp: loadForUpdate_Some)
  from committed(1,2,3) show thesis
  proof (rule that)
    show "s' = next_state s l rv cr" using committed(7) by simp
    show "listings db' = update_where (\<lambda>r. gl_id r = x) (commit_row now l rv cr (n + 1)) (listings db)"
      "proposals db' = (if cp then update_where (\<lambda>p. gp_listing_id p = x \<and> gp_state p = Open)
       (\<lambda>p. p\<lparr>gp_state := Closed, gp_closed_at := Some now\<rparr>) (proposals db) else proposals db)"
      using committed(6) db1 db2 by simp_all
    show "lifecycle_events db' = lifecycle_events db @
       [\<lparr>ge_listing_id = x, ge_from_lifecycle_state = Some (ls_lifecycle s),
         ge_to_lifecycle_state = l,
         ge_closure_reason = (case cr of Some r \<Rightarrow> Some r | None \<Rightarrow> deleted_event_reason c),
         ge_base_listing_revision = Some n, ge_committed_listing_revision = n + 1,
         ge_actor_kind = ta_kind act, ge_actor_id = ta_id act\<rparr>]"
      using committed(2,6) db1 db2 ids by (simp add: recordEvent_def next_state_def)
  qed
qed simp_all

lemma committed_frame:
  fixes db :: "'x gallery_db_scheme"
  assumes run: "(transition_body now x n c act db
      :: tx_error + 'x gallery_db_scheme \<times> PersistedGalleryTransition) = Inr (db', Pt_committed s')"
  shows "db' = db\<lparr>listings := listings db', proposals := proposals db', lifecycle_events := lifecycle_events db'\<rparr>"
  using run
proof (cases rule: transition_body_cases)
  case (committed s l rv cr cp db1 db2)
  have db1: "db1 = db\<lparr>listings := update_where (\<lambda>r. gl_id r = x) (commit_row now l rv cr (n + 1)) (listings db)\<rparr>"
    using committed(4) by (simp add: update_listings_Inr)
  have db2: "db2 = (if cp then db1\<lparr>proposals := update_where (\<lambda>p. gp_listing_id p = x \<and> gp_state p = Open)
       (\<lambda>p. p\<lparr>gp_state := Closed, gp_closed_at := Some now\<rparr>) (proposals db1)\<rparr> else db1)"
    using committed(5) by (auto simp: close_open_proposals_def update_proposals_Inr)
  show ?thesis unfolding committed(6) db2 db1 by (simp add: recordEvent_def insert_event_def)
qed simp_all

text \<open>
  The lifecycle the specification \<open>openspec/specs/gallery-listing\<close> documents, edge by edge, on
  the lifecycle of a listing with its closure reason: what each command does where. A command
  for which no rule gives an edge from the present state is refused.
\<close>

inductive lifecycle_edge ::
  "GalleryTransitionCommand \<Rightarrow> GalleryLifecycle \<times> GalleryClosureReason option
    \<Rightarrow> GalleryLifecycle \<times> GalleryClosureReason option \<Rightarrow> bool" where
  Edge_promote: "lifecycle_edge Cmd_promote_initial (Pending, None) (Listed, None)"
| Edge_withdraw: "l = Pending \<or> l = Listed \<Longrightarrow>
    lifecycle_edge Cmd_creator_withdrawal (l, None) (Withdrawn, Some Creator_withdrawal)"
| Edge_reject: "lifecycle_edge Cmd_initial_policy_rejection (Pending, None) (Removed, Some Initial_policy_rejection)"
| Edge_block: "lifecycle_edge Cmd_initial_governance_block (Pending, None) (Removed, Some Initial_governance_block)"
| Edge_remove: "lifecycle_edge Cmd_administrator_removal (Listed, None) (Removed, Some Administrator_removal)"
| Edge_restore: "lifecycle_edge Cmd_administrator_restoration (Removed, Some Administrator_removal) (Listed, None)"
| Edge_artifact: "before \<in> {(Pending, None), (Listed, None), (Removed, Some Administrator_removal)} \<Longrightarrow>
    lifecycle_edge Cmd_artifact_deleted before (Withdrawn, Some Artifact_deleted)"
| Edge_account: "before \<in> {(Pending, None), (Listed, None), (Removed, Some Administrator_removal)} \<Longrightarrow>
    lifecycle_edge Cmd_account_deleted before (Withdrawn, Some Account_deleted)"
| Edge_review: "c \<in> {Cmd_begin_review, Cmd_clear_review, Cmd_restrict} \<Longrightarrow> l = Pending \<or> l = Listed \<Longrightarrow>
    lifecycle_edge c (l, None) (l, None)"

inductive_simps lifecycle_edge_iff: "lifecycle_edge c before after"

text \<open>The side conditions of the edges, and the review state a command leaves.\<close>

lemma decide_commits_edge:
  assumes "decideGalleryTransition s c = Commit l rv cr cp" and "terminal_projection s"
  shows "lifecycle_edge c (ls_lifecycle s, ls_closureReason s) (l, cr)"
    and "c \<in> {Cmd_promote_initial, Cmd_initial_policy_rejection, Cmd_initial_governance_block} \<Longrightarrow> \<not> ls_hasCommittedRevision s"
    and "c \<in> {Cmd_administrator_removal, Cmd_administrator_restoration} \<Longrightarrow> ls_hasCommittedRevision s"
    and "c = Cmd_administrator_restoration \<Longrightarrow> \<not> ls_restorationForfeited s"
    and "rv = (if c = Cmd_begin_review then Reviewing else if c = Cmd_restrict then Restricted
      else if c \<in> {Cmd_clear_review, Cmd_promote_initial, Cmd_administrator_restoration} then Clear else ls_reviewState s)"
    and "cp \<longleftrightarrow> c \<notin> {Cmd_begin_review, Cmd_clear_review}"
proof -
  note expand = decide_def lifecycle_edge_iff terminal_projection_def
  show "lifecycle_edge c (ls_lifecycle s, ls_closureReason s) (l, cr)"
  proof (cases "ls_lifecycle s")
    case Withdrawn
    with assms(1) show ?thesis by (simp add: decide_withdrawn)
  qed (use assms in \<open>cases c; simp add: expand split: if_splits\<close>)+
  show "c \<in> {Cmd_promote_initial, Cmd_initial_policy_rejection, Cmd_initial_governance_block} \<Longrightarrow> \<not> ls_hasCommittedRevision s"
    "c \<in> {Cmd_administrator_removal, Cmd_administrator_restoration} \<Longrightarrow> ls_hasCommittedRevision s"
    "c = Cmd_administrator_restoration \<Longrightarrow> \<not> ls_restorationForfeited s"
    using assms(1) by (auto simp: decide_def split: if_splits)
  show "rv = (if c = Cmd_begin_review then Reviewing else if c = Cmd_restrict then Restricted
      else if c \<in> {Cmd_clear_review, Cmd_promote_initial, Cmd_administrator_restoration} then Clear else ls_reviewState s)"
    "cp \<longleftrightarrow> c \<notin> {Cmd_begin_review, Cmd_clear_review}"
    using assms(1) by (cases c; simp add: decide_def split: if_splits)+
qed

text \<open>
  C1: a committed transition follows one documented edge of the lifecycle, for its command, from
  the row it found at the expected revision: initial closures and promotions only before the
  first public revision, removals and restorations only after it, no restoration that was
  forfeited. It advances the revision by one, sets the review state of the command, dates the
  closing, closes the open proposals unless a review begins or ends, records exactly this edge
  as an event of the actor, and leaves every other listing, proposal and table as it was.
\<close>

theorem transitions_follow_lifecycle:
  assumes "gallery_db_ok db" and "store_transition now x n c act db = (db', Inr (Pt_committed s'))"
  shows "\<exists>r \<in> set (listings db). \<exists>l cr. gl_id r = x \<and> gl_listing_revision r = n
    \<and> lifecycle_edge c (gl_lifecycle_state r, gl_closure_reason r) (l, cr)
    \<and> (c \<in> {Cmd_promote_initial, Cmd_initial_policy_rejection, Cmd_initial_governance_block} \<longrightarrow> gl_current_revision_id r = None)
    \<and> (c \<in> {Cmd_administrator_removal, Cmd_administrator_restoration} \<longrightarrow> gl_current_revision_id r \<noteq> None)
    \<and> (c = Cmd_administrator_restoration \<longrightarrow> gl_restoration_forfeited_at r = None)
    \<and> listings db' = map (\<lambda>q. if gl_id q = x then q\<lparr>gl_lifecycle_state := l, gl_closure_reason := cr,
          gl_review_state := (if c = Cmd_begin_review then Reviewing else if c = Cmd_restrict then Restricted
            else if c \<in> {Cmd_clear_review, Cmd_promote_initial, Cmd_administrator_restoration} then Clear
            else gl_review_state r),
          gl_listing_revision := n + 1, gl_closed_at := (if l = Pending \<or> l = Listed then None else Some now),
          gl_updated_at := now\<rparr> else q) (listings db)
    \<and> proposals db' = map (\<lambda>p. if c \<notin> {Cmd_begin_review, Cmd_clear_review} \<and> gp_listing_id p = x \<and> gp_state p = Open
          then p\<lparr>gp_state := Closed, gp_closed_at := Some now\<rparr> else p) (proposals db)
    \<and> lifecycle_events db' = lifecycle_events db @
        [\<lparr>ge_listing_id = x, ge_from_lifecycle_state = Some (gl_lifecycle_state r), ge_to_lifecycle_state = l,
          ge_closure_reason = cr, ge_base_listing_revision = Some n, ge_committed_listing_revision = n + 1,
          ge_actor_kind = ta_kind act, ge_actor_id = ta_id act\<rparr>]
    \<and> db' = db\<lparr>listings := listings db', proposals := proposals db', lifecycle_events := lifecycle_events db'\<rparr>"
proof -
  have run: "transition_body now x n c act db = Inr (db', Pt_committed s')"
    using assms(2) by (simp add: store_transition_def run_tx_eq_Inr)
  obtain s l rv cr cp where s: "loadForUpdate db x = Some s" "ls_listingRevision s = n"
    and dec: "decideGalleryTransition s c = Commit l rv cr cp"
    and ls: "listings db' = update_where (\<lambda>r. gl_id r = x) (commit_row now l rv cr (n + 1)) (listings db)"
    and ps: "proposals db' = (if cp then update_where (\<lambda>p. gp_listing_id p = x \<and> gp_state p = Open)
       (\<lambda>p. p\<lparr>gp_state := Closed, gp_closed_at := Some now\<rparr>) (proposals db) else proposals db)"
    and ev: "lifecycle_events db' = lifecycle_events db @
       [\<lparr>ge_listing_id = x, ge_from_lifecycle_state = Some (ls_lifecycle s), ge_to_lifecycle_state = l,
         ge_closure_reason = (case cr of Some r \<Rightarrow> Some r | None \<Rightarrow> deleted_event_reason c),
         ge_base_listing_revision = Some n, ge_committed_listing_revision = n + 1,
         ge_actor_kind = ta_kind act, ge_actor_id = ta_id act\<rparr>]"
    by (rule committed_effect [OF run]) (rule that; assumption)
  from s(1) obtain r where r: "row_where (\<lambda>r. gl_id r = x) (listings db) = Some r"
    and fields: "ls_lifecycle s = gl_lifecycle_state r" "ls_reviewState s = gl_review_state r"
      "ls_closureReason s = gl_closure_reason r" "ls_listingRevision s = gl_listing_revision r"
      "ls_hasCommittedRevision s \<longleftrightarrow> gl_current_revision_id r \<noteq> None"
      "ls_restorationForfeited s \<longleftrightarrow> gl_restoration_forfeited_at r \<noteq> None"
    by (auto simp: loadForUpdate_Some)
  note edge = decide_commits_edge [OF dec loaded_terminal_projection [OF assms(1) s(1)], unfolded fields]
  have closed: "(l = Removed \<or> l = Withdrawn) = (\<not> (l = Pending \<or> l = Listed))" by (cases l) auto
  have row: "commit_row now l rv cr (n + 1) q = q\<lparr>gl_lifecycle_state := l, gl_closure_reason := cr, gl_review_state := rv,
      gl_listing_revision := n + 1, gl_closed_at := (if l = Pending \<or> l = Listed then None else Some now), gl_updated_at := now\<rparr>" for q
    by (simp add: commit_row_def closed)
  have reason: "(case cr of Some r \<Rightarrow> Some r | None \<Rightarrow> deleted_event_reason c) = cr"
    using edge(1) by (auto simp: lifecycle_edge_iff deleted_event_reason_def split: option.split)
  have p: "proposals db' = map (\<lambda>p. if c \<notin> {Cmd_begin_review, Cmd_clear_review} \<and> gp_listing_id p = x \<and> gp_state p = Open
      then p\<lparr>gp_state := Closed, gp_closed_at := Some now\<rparr> else p) (proposals db)"
    unfolding ps edge(6) by (simp add: update_where_def)
  have q: "listings db' = map (\<lambda>q. if gl_id q = x then q\<lparr>gl_lifecycle_state := l, gl_closure_reason := cr, gl_review_state := rv,
      gl_listing_revision := n + 1, gl_closed_at := (if l = Pending \<or> l = Listed then None else Some now), gl_updated_at := now\<rparr>
      else q) (listings db)"
    unfolding ls update_where_def row by (rule refl)
  note q = q [unfolded edge(5)] and ev = ev [unfolded reason fields(1)]
  have found: "r \<in> set (listings db)" "gl_id r = x" "gl_listing_revision r = n"
    using row_where_Some [OF r] s(2) fields(4) by simp_all
  have guards: "c \<in> {Cmd_promote_initial, Cmd_initial_policy_rejection, Cmd_initial_governance_block} \<longrightarrow> gl_current_revision_id r = None"
    "c \<in> {Cmd_administrator_removal, Cmd_administrator_restoration} \<longrightarrow> gl_current_revision_id r \<noteq> None"
    "c = Cmd_administrator_restoration \<longrightarrow> gl_restoration_forfeited_at r = None"
    using edge(2-4) by blast+
  from found(2,3) guards edge(1) p q ev committed_frame [OF run] show ?thesis
    by (intro bexI [OF _ found(1)] exI [of _ l] exI [of _ cr] conjI) assumption+
qed

lemma committed_reload:
  fixes db :: "'x gallery_db_scheme"
  assumes "(transition_body now x n c act db
      :: tx_error + 'x gallery_db_scheme \<times> PersistedGalleryTransition) = Inr (db', Pt_committed s')"
  shows "loadForUpdate db' x = Some s'" and "ls_listingRevision s' = n + 1"
proof -
  from assms obtain s l rv cr cp where s: "loadForUpdate db x = Some s" "ls_listingRevision s = n"
      "s' = next_state s l rv cr"
    and ls: "listings db' = update_where (\<lambda>r. gl_id r = x) (commit_row now l rv cr (n + 1)) (listings db)"
    by (rule committed_effect)
  from s(1) obtain r where r: "row_where (\<lambda>r. gl_id r = x) (listings db) = Some r"
    and sr: "s = \<lparr>ls_id = x, ls_lifecycle = gl_lifecycle_state r, ls_reviewState = gl_review_state r,
            ls_closureReason = gl_closure_reason r, ls_listingRevision = gl_listing_revision r,
            ls_hasCommittedRevision = gl_current_revision_id r \<noteq> None,
            ls_restorationForfeited = gl_restoration_forfeited_at r \<noteq> None\<rparr>"
    unfolding loadForUpdate_Some by blast
  have "row_where (\<lambda>r. gl_id r = x) (listings db') = Some (commit_row now l rv cr (n + 1) r)"
    unfolding ls by (subst row_where_update_same) (simp_all add: r)
  with s(2,3) sr show "loadForUpdate db' x = Some s'"
    by (simp add: loadForUpdate_def next_state_def)
  from s(2,3) show "ls_listingRevision s' = n + 1" by (simp add: next_state_def)
qed

text \<open>
  C10: the store's optimistic concurrency control. Once a transition that expected revision
  \<open>n\<close> has committed, every other transition that expected the same revision of the same
  listing, whatever its command, time or actor, returns \<open>revision_conflict\<close> with the state
  just committed and writes nothing: of the writers that read one revision, one wins.
\<close>

theorem store_transition_one_winner:
  fixes db :: "'x gallery_db_scheme"
  assumes "(store_transition now x n c act db
      :: 'x gallery_db_scheme \<times> (tx_error + PersistedGalleryTransition))
    = (db', Inr (Pt_committed s'))"
  shows "store_transition now2 x n c2 act2 db'
    = (db', Inr (Pt_current_state s' ''revision_conflict''))"
proof -
  have body: "(transition_body now x n c act db
      :: tx_error + 'x gallery_db_scheme \<times> PersistedGalleryTransition) = Inr (db', Pt_committed s')"
    using assms by (simp add: store_transition_def run_tx_eq_Inr)
  from committed_reload [OF body] have "loadForUpdate db' x = Some s'" "ls_listingRevision s' \<noteq> n"
    by simp_all
  then have "transition_body now2 x n c2 act2 db' = Inr (db', Pt_current_state s' ''revision_conflict'')"
    by (simp add: transition_body_def)
  then show ?thesis by (simp add: store_transition_def)
qed

subsection \<open>Which commands the schema accepts\<close>

text \<open>
  Apart from the initial promotion, no transition runs into a constraint of the schema.
  For every committed state that satisfies the constraints and every listing in it, the
  store returns a result (a commit, or the current state with a reason) and never raises;
  a restoration needs that no replacement listing of the artifact is open.
\<close>

theorem store_transition_never_raises:
  fixes db :: "'x gallery_db_scheme"
  assumes ok: "gallery_db_ok db"
    and r: "row_where (\<lambda>r. gl_id r = x) (listings db) = Some r"
    and cmd: "c \<noteq> Cmd_promote_initial"
    and restore: "c = Cmd_administrator_restoration \<Longrightarrow> \<not> other_open db r"
  shows "isOk (snd (store_transition now x n c act db
    :: 'x gallery_db_scheme \<times> (tx_error + PersistedGalleryTransition)))"
proof -
  obtain s where s: "loadForUpdate db x = Some s"
    and sr: "ls_lifecycle s = gl_lifecycle_state r" "ls_listingRevision s = gl_listing_revision r"
      "ls_hasCommittedRevision s \<longleftrightarrow> gl_current_revision_id r \<noteq> None"
    using r by (auto simp: loadForUpdate_def)
  have rok: "listing_row_ok r" "r \<in> set (listings db)" "gl_id r = x"
    using gallery_db_ok_listing_row [OF ok] row_where_Some [OF r] by blast+
  have proj: "terminal_projection s" by (rule loaded_terminal_projection [OF ok s])
  have "isOk (transition_body now x n c act db
      :: tx_error + 'x gallery_db_scheme \<times> PersistedGalleryTransition)"
  proof (cases "decideGalleryTransition s c")
    case (Commit l rv cr cp)
    let ?f = "commit_row now l rv cr (gl_listing_revision r + 1)"
    have cr: "cr = None \<longleftrightarrow> pending_or_listed l" by (rule decide_commit_projection [OF Commit proj])
    have pend: "gl_current_revision_id r = None" if "l = Pending"
      using decide_commit_pending [of s c rv cr cp] Commit that sr(1) rok(1)
      by (auto simp: listing_row_ok_def committed_projection_check_def)
    have lst: "gl_current_revision_id r \<noteq> None" if "l = Listed"
      using decide_commit_listed [of s c rv cr cp] Commit that cmd sr(1,3) rok(1)
      by (auto simp: listing_row_ok_def listed_revision_check_def)
    have row: "listing_row_ok (?f r)"
      using rok(1) cr pend lst by (subst commit_row_ok_iff) (auto simp: listing_row_ok_def)
    have opens: "\<not> other_open db r" if "open_listing (?f r)" "\<not> open_listing r"
      using decide_commit_opens [OF Commit] that sr(1) restore by (auto simp: open_listing_def)
    have upd: "update_listings (\<lambda>r. gl_id r = x) ?f db
        = Inr (db\<lparr>listings := update_where (\<lambda>r. gl_id r = x) ?f (listings db)\<rparr>)"
      by (rule update_listings_one [OF ok r]) (use row opens in simp_all)
    have "gallery_db_ok (db\<lparr>listings := update_where (\<lambda>r. gl_id r = x) ?f (listings db)\<rparr>)"
      by (rule gallery_db_ok_statement(1) [OF ok upd])
    then show ?thesis
      using s Commit upd sr(2)
      by (cases "gl_listing_revision r = n")
        (simp_all add: transition_body_def close_open_proposals_ok Let_def)
  qed (use s in \<open>simp_all add: transition_body_def\<close>)
  then show ?thesis
    by (auto simp: store_transition_def run_tx_def isOk_iff)
qed

text \<open>
  C36: the initial promotion can never commit through this store. It makes a Pending listing
  Listed without a committed revision, which the check constraint
  \<open>gallery_listing_listed_revision_check\<close> forbids, so every accepted \<open>promote_initial\<close>
  raises and rolls back.
\<close>

theorem promote_initial_always_raises:
  fixes db :: "'x gallery_db_scheme"
  assumes ok: "gallery_db_ok db"
    and r: "row_where (\<lambda>r. gl_id r = x) (listings db) = Some r"
    and pending: "gl_lifecycle_state r = Pending"
  shows "store_transition now x (gl_listing_revision r) Cmd_promote_initial act db
    = (db, Inl (Check_violation ''gallery_listing_listed_revision_check''))"
proof -
  have rok: "listing_row_ok r" "r \<in> set (listings db)" "gl_id r = x"
    using gallery_db_ok_listing_row [OF ok] row_where_Some [OF r] by blast+
  then have none: "gl_current_revision_id r = None"
    using pending by (auto simp: listing_row_ok_def committed_projection_check_def)
  let ?f = "commit_row now Listed Clear None (gl_listing_revision r + 1)"
  let ?u = "update_where (\<lambda>r. gl_id r = x) ?f (listings db)"
  have f: "terminal_projection_check (?f q)" "committed_projection_check (?f q)" for q
    by (simp_all add: terminal_projection_check_def open_listing_def committed_projection_check_def commit_row_def)
  have "list_all terminal_projection_check ?u" "list_all committed_projection_check ?u"
    using ok f by (auto simp: gallery_db_ok_def list_all_iff in_update_where listing_row_ok_def)
  moreover have "?f r \<in> set ?u" using rok(2,3) by (force simp: in_update_where)
  moreover have "\<not> listed_revision_check (?f r)" using none by (simp add: listed_revision_check_def)
  ultimately have "update_listings (\<lambda>r. gl_id r = x) ?f db
      = Inl (Check_violation ''gallery_listing_listed_revision_check'')"
    by (auto simp: update_listings_def check_listings_def list_all_iff)
  then have "transition_body now x (gl_listing_revision r) Cmd_promote_initial act db
      = Inl (Check_violation ''gallery_listing_listed_revision_check'')"
    using r pending none
    by (simp add: transition_body_def loadForUpdate_def decide_def)
  then show ?thesis by (simp add: store_transition_def)
qed

subsection \<open>Runs of the store\<close>

text \<open>One transaction of any caller, and what any sequence of them can reach.\<close>

inductive store_step :: "gallery_db \<Rightarrow> gallery_db \<Rightarrow> bool" where
  transition: "store_transition now x n c act db = (db', res) \<Longrightarrow> store_step db db'"

inductive_cases store_step_elim: "store_step db db'"

lemma store_step_ok: "store_step db db' \<Longrightarrow> gallery_db_ok db \<Longrightarrow> gallery_db_ok db'"
proof (induction rule: store_step.induct)
  case (transition now x n c act db db' res)
  then show ?case
    by (cases res) (auto simp: store_transition_def run_tx_eq_Inr run_tx_eq_Inl
        intro: transition_body_ok)
qed

lemma store_reaches_ok: "store_step\<^sup>*\<^sup>* db db' \<Longrightarrow> gallery_db_ok db \<Longrightarrow> gallery_db_ok db'"
  by (induction rule: rtranclp_induct) (auto intro: store_step_ok)

text \<open>A step changes the row of at most one listing, and only by a decided commit.\<close>

lemma store_step_row:
  assumes "store_step db db'" and r: "row_where (\<lambda>r. gl_id r = y) (listings db) = Some r"
  shows "row_where (\<lambda>r. gl_id r = y) (listings db') = Some r \<or>
    (\<exists>now s c l rv cr cp. loadForUpdate db y = Some s \<and> decideGalleryTransition s c = Commit l rv cr cp
       \<and> row_where (\<lambda>r. gl_id r = y) (listings db')
         = Some (commit_row now l rv cr (gl_listing_revision r + 1) r))"
proof -
  from assms(1) obtain now x n c act res where tx: "store_transition now x n c act db = (db', res)"
    by (elim store_step_elim)
  show ?thesis
  proof (cases res)
    case (Inl e)
    with tx r show ?thesis by (simp add: store_transition_def run_tx_eq_Inl)
  next
    case (Inr p)
    with tx have body: "transition_body now x n c act db = Inr (db', p)"
      by (simp add: store_transition_def run_tx_eq_Inr)
    show ?thesis
    proof (cases p)
      case (Pt_current_state st why)
      from body have "listings db' = listings db"
        by (cases rule: transition_body_cases) (simp_all add: Pt_current_state)
      with r show ?thesis by simp
    next
      case (Pt_committed s')
      obtain s l rv cr cp where s: "loadForUpdate db x = Some s" "ls_listingRevision s = n"
          "decideGalleryTransition s c = Commit l rv cr cp"
        and ls: "listings db' = update_where (\<lambda>r. gl_id r = x) (commit_row now l rv cr (n + 1)) (listings db)"
        by (rule committed_effect [OF body [unfolded Pt_committed]])
      show ?thesis
      proof (cases "x = y")
        case True
        have "n = gl_listing_revision r" using s(1,2) r True by (auto simp: loadForUpdate_def)
        moreover have "row_where (\<lambda>r. gl_id r = y) (listings db') = Some (commit_row now l rv cr (n + 1) r)"
          unfolding ls True by (subst row_where_update_same) (simp_all add: r)
        ultimately show ?thesis using s True by blast
      next
        case False
        have "row_where (\<lambda>r. gl_id r = y) (listings db') = row_where (\<lambda>r. gl_id r = y) (listings db)"
          unfolding ls by (rule row_where_update_other) (use False in auto)
        with r show ?thesis by simp
      qed
    qed
  qed
qed

lemma loaded_lifecycle:
  "loadForUpdate db y = Some s \<Longrightarrow> row_where (\<lambda>r. gl_id r = y) (listings db) = Some r \<Longrightarrow>
     ls_lifecycle s = gl_lifecycle_state r \<and> ls_closureReason s = gl_closure_reason r"
  by (auto simp: loadForUpdate_def)

text \<open>
  Withdrawn is final. Whatever transitions any callers run afterwards, in any order,
  the row of a withdrawn listing never changes again: lifecycle, review state, closure
  reason and revision stay as they were.
\<close>

theorem withdrawn_is_final:
  assumes "store_step\<^sup>*\<^sup>* db db'"
    and "row_where (\<lambda>r. gl_id r = y) (listings db) = Some r" and "gl_lifecycle_state r = Withdrawn"
  shows "row_where (\<lambda>r. gl_id r = y) (listings db') = Some r"
  using assms(1)
proof (induction rule: rtranclp_induct)
  case base
  show ?case by (rule assms(2))
next
  case (step db1 db2)
  have "\<not> (\<exists>now s c l rv cr cp. loadForUpdate db1 y = Some s \<and>
      decideGalleryTransition s c = Commit l rv cr cp \<and>
      row_where (\<lambda>r. gl_id r = y) (listings db2) = Some (commit_row now l rv cr (gl_listing_revision r + 1) r))"
    using loaded_lifecycle [OF _ step.IH] decide_withdrawn assms(3) by metis
  with store_step_row [OF step.hyps(2) step.IH] show ?case by blast
qed

text \<open>
  Along every run the revision of a listing never decreases, and a listing that was
  closed by an initial rejection or an initial governance block stays Removed with that
  reason for ever.
\<close>

theorem initial_closure_is_final:
  assumes "store_step\<^sup>*\<^sup>* db db'"
    and "row_where (\<lambda>r. gl_id r = y) (listings db) = Some r"
  shows "\<exists>r'. row_where (\<lambda>r. gl_id r = y) (listings db') = Some r'
      \<and> gl_listing_revision r \<le> gl_listing_revision r'
      \<and> (gl_lifecycle_state r = Removed \<and> gl_closure_reason r \<noteq> Some Administrator_removal \<longrightarrow> r' = r)"
  using assms(1)
proof (induction rule: rtranclp_induct)
  case base
  then show ?case using assms(2) by blast
next
  case (step db1 db2)
  then obtain r1 where r1: "row_where (\<lambda>r. gl_id r = y) (listings db1) = Some r1"
    "gl_listing_revision r \<le> gl_listing_revision r1"
    "gl_lifecycle_state r = Removed \<and> gl_closure_reason r \<noteq> Some Administrator_removal \<longrightarrow> r1 = r"
    by blast
  from store_step_row [OF step.hyps(2) r1(1)] show ?case
  proof
    assume "row_where (\<lambda>r. gl_id r = y) (listings db2) = Some r1"
    with r1 show ?thesis by blast
  next
    assume "\<exists>now s c l rv cr cp. loadForUpdate db1 y = Some s \<and>
      decideGalleryTransition s c = Commit l rv cr cp \<and>
      row_where (\<lambda>r. gl_id r = y) (listings db2) = Some (commit_row now l rv cr (gl_listing_revision r1 + 1) r1)"
    then obtain now s c l rv cr cp where c: "loadForUpdate db1 y = Some s"
      "decideGalleryTransition s c = Commit l rv cr cp"
      "row_where (\<lambda>r. gl_id r = y) (listings db2) = Some (commit_row now l rv cr (gl_listing_revision r1 + 1) r1)"
      by blast
    have "\<not> (gl_lifecycle_state r1 = Removed \<and> gl_closure_reason r1 \<noteq> Some Administrator_removal)"
      using loaded_lifecycle [OF c(1) r1(1)] decide_removed [OF _ c(2)] by auto
    then have "\<not> (gl_lifecycle_state r = Removed \<and> gl_closure_reason r \<noteq> Some Administrator_removal)"
      using r1(3) by auto
    then show ?thesis using c(3) r1(2) by auto
  qed
qed

subsection \<open>Witnesses\<close>

definition example_listing :: listing_row where
  "example_listing =
     \<lparr>gl_id = ''l1'', gl_artifact_id = ''a1'', gl_owner_user_id = ''u1'',
      gl_creator_profile_id = ''p1'', gl_opaque_slug = ''slug1'', gl_lifecycle_state = Pending,
      gl_review_state = Clear, gl_closure_reason = None, gl_listing_revision = 1,
      gl_current_revision_id = None, gl_predecessor_listing_id = None,
      gl_restoration_forfeited_at = None, gl_created_at = 0, gl_updated_at = 0,
      gl_closed_at = None\<rparr>"

definition example_db :: gallery_db where
  "example_db =
     \<lparr>listings = [example_listing], proposals = [], revisions = [], acceptances = [],
      lifecycle_events = [], tombstones = [], profiles = [], public_sharing_restrictions = [],
      artifact_takedowns = [], appeals = [], decisions = [], cases = [], account_closures = []\<rparr>"

definition example_actor :: transition_actor where
  "example_actor = \<lparr>ta_kind = Actor_creator, ta_id = Some ''u1''\<rparr>"

lemma example_db_ok: "gallery_db_ok example_db"
  by (simp add: gallery_db_ok_def example_db_def example_listing_def listing_row_ok_def
      terminal_projection_check_def open_listing_def committed_projection_check_def
      listed_revision_check_def listings_unique_def unique_on_def proposals_unique_def
      revisions_unique_def acceptances_unique_def tombstones_unique_def profiles_unique_def)

lemma example_listing_row: "row_where (\<lambda>r. gl_id r = ''l1'') (listings example_db) = Some example_listing"
  by (simp add: example_db_def example_listing_def)

lemma example_withdraw:
  "\<exists>db' s'. store_transition 5 ''l1'' 1 Cmd_creator_withdrawal example_actor example_db
    = (db', Inr (Pt_committed s'))"
proof -
  have "transition_body 5 ''l1'' 1 Cmd_creator_withdrawal example_actor example_db
      = Inr (recordEvent
          \<lparr>ls_id = ''l1'', ls_lifecycle = Pending, ls_reviewState = Clear, ls_closureReason = None,
           ls_listingRevision = 1, ls_hasCommittedRevision = False, ls_restorationForfeited = False\<rparr>
          \<lparr>ls_id = ''l1'', ls_lifecycle = Withdrawn, ls_reviewState = Clear,
           ls_closureReason = Some Creator_withdrawal,
           ls_listingRevision = 2, ls_hasCommittedRevision = False, ls_restorationForfeited = False\<rparr>
          Cmd_creator_withdrawal example_actor
          (example_db\<lparr>listings := [commit_row 5 Withdrawn Clear (Some Creator_withdrawal) 2 example_listing]\<rparr>),
        Pt_committed
          \<lparr>ls_id = ''l1'', ls_lifecycle = Withdrawn, ls_reviewState = Clear,
           ls_closureReason = Some Creator_withdrawal,
           ls_listingRevision = 2, ls_hasCommittedRevision = False, ls_restorationForfeited = False\<rparr>)"
    by (simp add: transition_body_def loadForUpdate_def example_db_def example_listing_def decide_def
        update_listings_def check_listings_def commit_row_def terminal_projection_check_def open_listing_def
        committed_projection_check_def listed_revision_check_def listings_unique_def unique_on_def
        close_open_proposals_def update_proposals_def check_proposals_def proposals_unique_def next_state_def Let_def)
  then show ?thesis by (auto simp: store_transition_def)
qed

theorem transitions_follow_lifecycle_witness:
  "\<exists>l cr. lifecycle_edge Cmd_creator_withdrawal (Pending, None) (l, cr)
    \<and> map gl_lifecycle_state (listings (fst (store_transition 5 ''l1'' 1 Cmd_creator_withdrawal example_actor example_db))) = [l]
    \<and> map ge_closure_reason (lifecycle_events
        (fst (store_transition 5 ''l1'' 1 Cmd_creator_withdrawal example_actor example_db))) = [cr]"
proof -
  obtain db' s' where run: "store_transition 5 ''l1'' 1 Cmd_creator_withdrawal example_actor example_db
      = (db', Inr (Pt_committed s'))"
    using example_withdraw by blast
  have rows: "listings example_db = [example_listing]" "lifecycle_events example_db = []"
    by (simp_all add: example_db_def)
  have row: "gl_id example_listing = ''l1''" "gl_lifecycle_state example_listing = Pending"
    "gl_closure_reason example_listing = None"
    by (simp_all add: example_listing_def)
  from transitions_follow_lifecycle [OF example_db_ok run] show ?thesis
    unfolding run fst_conv rows by (elim bexE exE conjE) (auto simp: row)
qed

theorem store_transition_one_winner_witness:
  "\<exists>(db' :: gallery_db) s'. store_transition 6 ''l1'' 1 Cmd_restrict example_actor db'
    = (db', Inr (Pt_current_state s' ''revision_conflict''))"
proof -
  obtain db' s' where "store_transition 5 ''l1'' 1 Cmd_creator_withdrawal example_actor example_db
      = (db', Inr (Pt_committed s'))"
    using example_withdraw by blast
  from store_transition_one_winner [OF this, of 6 Cmd_restrict example_actor] show ?thesis by blast
qed

theorem store_transition_never_raises_witness:
  "isOk (snd (store_transition 5 ''l1'' 1 Cmd_creator_withdrawal example_actor example_db))"
  by (rule store_transition_never_raises [OF example_db_ok example_listing_row]) simp_all

theorem promote_initial_always_raises_witness:
  "store_transition 5 ''l1'' 1 Cmd_promote_initial example_actor example_db
    = (example_db, Inl (Check_violation ''gallery_listing_listed_revision_check''))"
  using promote_initial_always_raises [OF example_db_ok example_listing_row, of 5 example_actor]
  by (simp add: example_listing_def)

definition example_withdrawn_db :: gallery_db where
  "example_withdrawn_db = example_db\<lparr>listings :=
     [commit_row 5 Withdrawn Clear (Some Creator_withdrawal) 2 example_listing]\<rparr>"

theorem withdrawn_is_final_witness:
  "row_where (\<lambda>r. gl_id r = ''l1'')
     (listings (fst (store_transition 9 ''l1'' 2 Cmd_account_deleted example_actor example_withdrawn_db)))
   = Some (commit_row 5 Withdrawn Clear (Some Creator_withdrawal) 2 example_listing)"
proof -
  let ?out = "store_transition 9 ''l1'' 2 Cmd_account_deleted example_actor example_withdrawn_db"
  have "store_step example_withdrawn_db (fst ?out)"
    by (rule store_step.transition [of 9 "''l1''" 2 Cmd_account_deleted example_actor _ _ "snd ?out"]) simp
  then have "store_step\<^sup>*\<^sup>* example_withdrawn_db (fst ?out)" by (rule r_into_rtranclp)
  then show ?thesis
    by (rule withdrawn_is_final) (simp_all add: example_withdrawn_db_def example_listing_def)
qed

theorem initial_closure_is_final_witness:
  "\<exists>r'. row_where (\<lambda>r. gl_id r = ''l1'') (listings example_db) = Some r' \<and> 1 \<le> gl_listing_revision r'"
  using initial_closure_is_final [OF rtranclp.rtrancl_refl example_listing_row]
  by (auto simp: example_listing_def)

end
