(* ===== verification/Proposal_Promotion.thy ===== *)
theory Proposal_Promotion
  imports Gallery_Tables
begin

text \<open>
  Resolution of Gallery proposals, \<open>api/src/application/gallery/proposal-promotion.ts\<close>: the
  pure decision and the transaction that applies it. The lemmas show when a proposal can
  become public, that a proposal is resolved at most once, that the transaction never runs
  into the schema, and that the current revision of a listing always denotes a stored
  revision of that listing.
\<close>

datatype ProposalResolution = Pass | Reject | Governance_block

record ProposalContext =
  pc_listingLifecycle :: GalleryLifecycle
  pc_listingRevision :: int
  pc_currentRevisionId :: "js_string option"
  pc_proposalBaseRevision :: int
  pc_proposalState :: GalleryProposalState
  pc_governanceBlocked :: bool

datatype ProposalDecision =
    Promote bool
  | Close_initial GalleryClosureReason
  | Close_update GalleryProposalState
  | Decided_stale js_string
  | Decided_conflict js_string

definition decideProposalResolution :: "ProposalContext \<Rightarrow> ProposalResolution \<Rightarrow> ProposalDecision" where
  "decideProposalResolution context resolution =
     (if pc_proposalState context \<noteq> Open then Decided_conflict ''proposal_closed''
      else if \<not> (pc_listingLifecycle context = Pending \<or> pc_listingLifecycle context = Listed)
        then Decided_conflict ''listing_closed''
      else if pc_proposalBaseRevision context \<noteq> pc_listingRevision context
        then Decided_stale ''base_revision_mismatch''
      else let initial = pc_currentRevisionId context = None
        in if pc_governanceBlocked context \<or> resolution = Governance_block then
             (if initial then Close_initial Initial_governance_block
              else Close_update Governance_blocked)
           else if resolution = Reject then
             (if initial then Close_initial Initial_policy_rejection else Close_update Rejected)
           else Promote initial)"

subsection \<open>The promoter\<close>

text \<open>The \<open>governance_blocked\<close> column of the query: four sources of a block.\<close>

definition pending_appeal :: "'x gallery_db_scheme \<Rightarrow> js_string \<Rightarrow> bool" where
  "pending_appeal db listingId \<longleftrightarrow>
     exists_where (\<lambda>a. gap_state a = Appeal_state_pending \<and>
       exists_where (\<lambda>d. gd_id d = gap_decision_id a \<and>
         exists_where (\<lambda>c. gcase_id c = gd_case_id d \<and> gcase_listing_id c = Some listingId)
           (cases db)) (decisions db)) (appeals db)"

definition governance_blocked :: "'x gallery_db_scheme \<Rightarrow> listing_row \<Rightarrow> bool" where
  "governance_blocked db l \<longleftrightarrow>
     artifact_blocked db (gl_artifact_id l)
     \<or> (gl_lifecycle_state l = Removed \<and> gl_closure_reason l = Some Administrator_removal)
     \<or> pending_appeal db (gl_id l)"

definition proposal_join ::
  "'x gallery_db_scheme \<Rightarrow> js_string \<Rightarrow> (proposal_row \<times> listing_row) option" where
  "proposal_join db proposalId =
     (case row_where (\<lambda>p. gp_id p = proposalId) (proposals db) of
        None \<Rightarrow> None
      | Some p \<Rightarrow> map_option (\<lambda>l. (p, l)) (row_where (\<lambda>l. gl_id l = gp_listing_id p) (listings db)))"

definition context_of :: "'x gallery_db_scheme \<Rightarrow> proposal_row \<Rightarrow> listing_row \<Rightarrow> ProposalContext" where
  "context_of db p l =
     \<lparr>pc_listingLifecycle = gl_lifecycle_state l, pc_listingRevision = gl_listing_revision l,
      pc_currentRevisionId = gl_current_revision_id l,
      pc_proposalBaseRevision = gp_base_listing_revision p, pc_proposalState = gp_state p,
      pc_governanceBlocked = governance_blocked db l\<rparr>"

definition set_proposal_state ::
  "js_string \<Rightarrow> GalleryProposalState \<Rightarrow> time \<Rightarrow> 'x gallery_db_scheme
    \<Rightarrow> tx_error + 'x gallery_db_scheme" where
  "set_proposal_state proposalId st now =
     update_proposals (\<lambda>p. gp_id p = proposalId) (\<lambda>p. p\<lparr>gp_state := st, gp_closed_at := Some now\<rparr>)"

definition close_initial_listing ::
  "GalleryClosureReason \<Rightarrow> time \<Rightarrow> listing_row \<Rightarrow> listing_row" where
  "close_initial_listing reason now r =
     r\<lparr>gl_lifecycle_state := Removed, gl_closure_reason := Some reason, gl_closed_at := Some now,
       gl_listing_revision := gl_listing_revision r + 1, gl_updated_at := now\<rparr>"

definition promote_listing :: "js_string \<Rightarrow> int \<Rightarrow> time \<Rightarrow> listing_row \<Rightarrow> listing_row" where
  "promote_listing revisionId nextRevision now r =
     r\<lparr>gl_lifecycle_state := Listed, gl_closure_reason := None,
       gl_current_revision_id := Some revisionId, gl_listing_revision := nextRevision,
       gl_updated_at := now, gl_closed_at := None\<rparr>"

definition promoted_revision :: "js_string \<Rightarrow> int \<Rightarrow> proposal_row \<Rightarrow> revision_row" where
  "promoted_revision revisionId nextRevision p =
     \<lparr>gr_id = revisionId, gr_listing_id = gp_listing_id p, gr_revision = nextRevision,
      gr_version_id = gp_version_id p, gr_permission_acceptance_id = gp_permission_acceptance_id p,
      gr_public_title = gp_public_title p, gr_public_description = gp_public_description p,
      gr_tags = gp_tags p\<rparr>"

definition publish_profile ::
  "js_string \<Rightarrow> time \<Rightarrow> 'x gallery_db_scheme \<Rightarrow> tx_error + 'x gallery_db_scheme" where
  "publish_profile profileId now =
     update_profiles (\<lambda>r. pr_id r = profileId)
       (\<lambda>r. r\<lparr>pr_public_at := (case pr_public_at r of None \<Rightarrow> Some now | Some t \<Rightarrow> Some t)\<rparr>)"

text \<open>\<open>revisionId\<close> is the fresh id the body draws; \<open>now\<close> the transaction's time.\<close>

definition resolve_body ::
  "time \<Rightarrow> js_string \<Rightarrow> js_string \<Rightarrow> ProposalResolution \<Rightarrow> 'x gallery_db_scheme
    \<Rightarrow> tx_error + 'x gallery_db_scheme \<times> ProposalDecision" where
  "resolve_body now revisionId proposalId resolution db =
     bindR (fromOption (Thrown ''gallery_proposal_not_found'') (proposal_join db proposalId)) (\<lambda>(p, l).
     let decision = decideProposalResolution (context_of db p l) resolution in
     case decision of
       Decided_stale _ \<Rightarrow>
         bindR (set_proposal_state proposalId Stale now db) (\<lambda>db. Inr (db, decision))
     | Close_update st \<Rightarrow>
         bindR (set_proposal_state proposalId st now db) (\<lambda>db. Inr (db, decision))
     | Close_initial reason \<Rightarrow>
         bindR (set_proposal_state proposalId
                 (if reason = Initial_policy_rejection then Rejected else Governance_blocked) now db) (\<lambda>db.
         bindR (update_listings (\<lambda>r. gl_id r = gl_id l) (close_initial_listing reason now) db) (\<lambda>db.
         Inr (db, decision)))
     | Promote initial \<Rightarrow>
         let nextRevision = gl_listing_revision l + 1 in
         bindR (insert_revision (promoted_revision revisionId nextRevision p) db) (\<lambda>db.
         bindR (update_listings (\<lambda>r. gl_id r = gl_id l) (promote_listing revisionId nextRevision now) db) (\<lambda>db.
         bindR (if initial then publish_profile (gl_creator_profile_id l) now db else Inr db) (\<lambda>db.
         bindR (set_proposal_state proposalId Promoted now db) (\<lambda>db.
         Inr (db, decision)))))
     | Decided_conflict _ \<Rightarrow> Inr (db, decision))"

definition resolve ::
  "time \<Rightarrow> js_string \<Rightarrow> js_string \<Rightarrow> ProposalResolution \<Rightarrow> 'x gallery_db_scheme
    \<Rightarrow> 'x gallery_db_scheme \<times> (tx_error + ProposalDecision)" where
  "resolve now revisionId proposalId resolution = run_tx (resolve_body now revisionId proposalId resolution)"

subsection \<open>The decision\<close>

lemma decide_promote_iff:
  "decideProposalResolution ctx res = Promote initial \<longleftrightarrow>
     pc_proposalState ctx = Open \<and>
     (pc_listingLifecycle ctx = Pending \<or> pc_listingLifecycle ctx = Listed) \<and>
     pc_proposalBaseRevision ctx = pc_listingRevision ctx \<and>
     \<not> pc_governanceBlocked ctx \<and> res = Pass \<and> initial = (pc_currentRevisionId ctx = None)"
  by (cases res) (auto simp: decideProposalResolution_def Let_def)

lemma decide_close_initial_iff:
  "decideProposalResolution ctx res = Close_initial reason \<longleftrightarrow>
     pc_proposalState ctx = Open \<and>
     (pc_listingLifecycle ctx = Pending \<or> pc_listingLifecycle ctx = Listed) \<and>
     pc_proposalBaseRevision ctx = pc_listingRevision ctx \<and> pc_currentRevisionId ctx = None \<and>
     (if pc_governanceBlocked ctx \<or> res = Governance_block then reason = Initial_governance_block
      else res = Reject \<and> reason = Initial_policy_rejection)"
  by (cases res) (auto simp: decideProposalResolution_def Let_def)

lemma decide_close_update_state:
  "decideProposalResolution ctx res = Close_update st \<Longrightarrow>
     pc_proposalState ctx = Open \<and> (st = Governance_blocked \<or> st = Rejected)"
  by (cases res) (auto simp: decideProposalResolution_def Let_def split: if_splits)

lemma decide_stale_open:
  "decideProposalResolution ctx res = Decided_stale why \<Longrightarrow> pc_proposalState ctx = Open"
  by (cases res) (auto simp: decideProposalResolution_def Let_def split: if_splits)

lemma proposal_join_Some:
  assumes "proposal_join db x = Some (p, l)"
  shows "row_where (\<lambda>p. gp_id p = x) (proposals db) = Some p" "p \<in> set (proposals db)" "gp_id p = x"
    "row_where (\<lambda>r. gl_id r = gl_id l) (listings db) = Some l"
    "l \<in> set (listings db)" "gl_id l = gp_listing_id p"
proof -
  from assms have p: "row_where (\<lambda>p. gp_id p = x) (proposals db) = Some p"
    and l: "row_where (\<lambda>l. gl_id l = gp_listing_id p) (listings db) = Some l"
    by (auto simp: proposal_join_def split: option.splits)
  show "row_where (\<lambda>p. gp_id p = x) (proposals db) = Some p" by (rule p)
  show "p \<in> set (proposals db)" "gp_id p = x" using row_where_Some [OF p] by simp_all
  show "l \<in> set (listings db)" and gl: "gl_id l = gp_listing_id p" using row_where_Some [OF l] by simp_all
  show "row_where (\<lambda>r. gl_id r = gl_id l) (listings db) = Some l" using l gl by simp
qed

subsection \<open>What a resolution writes\<close>

abbreviation closed_as :: "GalleryProposalState \<Rightarrow> time \<Rightarrow> proposal_row \<Rightarrow> proposal_row" where
  "closed_as st now p \<equiv> p\<lparr>gp_state := st, gp_closed_at := Some now\<rparr>"

lemma set_proposal_state_ok:
  assumes "gallery_db_ok db" and "st \<noteq> Open"
  shows "set_proposal_state x st now db
    = Inr (db\<lparr>proposals := update_where (\<lambda>p. gp_id p = x) (closed_as st now) (proposals db)\<rparr>)"
  unfolding set_proposal_state_def
  by (rule update_proposals_close [where now = now]) (use assms in \<open>simp_all add: open_proposal_def\<close>)

lemma set_proposal_state_Inr:
  "set_proposal_state x st now db = Inr db' \<Longrightarrow>
     db' = db\<lparr>proposals := update_where (\<lambda>p. gp_id p = x) (closed_as st now) (proposals db)\<rparr>"
  by (simp add: set_proposal_state_def update_proposals_Inr)

lemma set_proposal_state_keeps:
  "set_proposal_state x st now db = Inr db' \<Longrightarrow> gallery_db_ok db \<Longrightarrow> gallery_db_ok db'"
  unfolding set_proposal_state_def by (rule gallery_db_ok_statement(3))

lemma publish_profile_Inr:
  "publish_profile a now db = Inr db' \<Longrightarrow> \<exists>t. db' = db\<lparr>profiles := t\<rparr>"
  by (auto simp: publish_profile_def update_profiles_Inr)

lemma resolve_body_join:
  "resolve_body now rid x res db = Inr (db', dec) \<Longrightarrow>
     \<exists>p l. proposal_join db x = Some (p, l) \<and> dec = decideProposalResolution (context_of db p l) res"
proof -
  assume run: "resolve_body now rid x res db = Inr (db', dec)"
  then obtain p l where join: "proposal_join db x = Some (p, l)"
    by (auto simp: resolve_body_def bindR_eq_Inr)
  with run show ?thesis
    by (cases "decideProposalResolution (context_of db p l) res") (auto simp: resolve_body_def bindR_eq_Inr Let_def)
qed

lemma resolve_body_cases:
  assumes run: "resolve_body now rid x res db = Inr (db', dec)"
    and join: "proposal_join db x = Some (p, l)"
  shows "case dec of
      Decided_conflict _ \<Rightarrow> db' = db
    | Decided_stale _ \<Rightarrow> set_proposal_state x Stale now db = Inr db'
    | Close_update st \<Rightarrow> set_proposal_state x st now db = Inr db'
    | Close_initial reason \<Rightarrow> \<exists>db1.
        set_proposal_state x (if reason = Initial_policy_rejection then Rejected else Governance_blocked) now db
          = Inr db1 \<and>
        update_listings (\<lambda>r. gl_id r = gl_id l) (close_initial_listing reason now) db1 = Inr db'
    | Promote initial \<Rightarrow> \<exists>db1 db2 db3.
        insert_revision (promoted_revision rid (gl_listing_revision l + 1) p) db = Inr db1 \<and>
        update_listings (\<lambda>r. gl_id r = gl_id l) (promote_listing rid (gl_listing_revision l + 1) now) db1
          = Inr db2 \<and>
        (if initial then publish_profile (gl_creator_profile_id l) now db2 else Inr db2) = Inr db3 \<and>
        set_proposal_state x Promoted now db3 = Inr db'"
proof -
  have d: "dec = decideProposalResolution (context_of db p l) res"
    using resolve_body_join [OF run] join by auto
  have r: "(case dec of
      Decided_stale _ \<Rightarrow> bindR (set_proposal_state x Stale now db) (\<lambda>db. Inr (db, dec))
    | Close_update st \<Rightarrow> bindR (set_proposal_state x st now db) (\<lambda>db. Inr (db, dec))
    | Close_initial reason \<Rightarrow>
        bindR (set_proposal_state x
                (if reason = Initial_policy_rejection then Rejected else Governance_blocked) now db) (\<lambda>db.
        bindR (update_listings (\<lambda>r. gl_id r = gl_id l) (close_initial_listing reason now) db) (\<lambda>db.
        Inr (db, dec)))
    | Promote initial \<Rightarrow>
        bindR (insert_revision (promoted_revision rid (gl_listing_revision l + 1) p) db) (\<lambda>db.
        bindR (update_listings (\<lambda>r. gl_id r = gl_id l) (promote_listing rid (gl_listing_revision l + 1) now) db) (\<lambda>db.
        bindR (if initial then publish_profile (gl_creator_profile_id l) now db else Inr db) (\<lambda>db.
        bindR (set_proposal_state x Promoted now db) (\<lambda>db. Inr (db, dec)))))
    | Decided_conflict _ \<Rightarrow> Inr (db, dec)) = Inr (db', dec)"
    using run unfolding resolve_body_def join fromOption_simps bindR_simps prod.case Let_def d [symmetric] .
  show ?thesis
    by (cases dec; use r in \<open>simp only: ProposalDecision.case bindR_eq_Inr Inr_inject prod.inject\<close>; blast)
qed

lemma resolve_body_ok:
  assumes ok: "gallery_db_ok db" and run: "resolve_body now rid x res db = Inr (db', dec)"
  shows "gallery_db_ok db'"
proof -
  obtain p l where join: "proposal_join db x = Some (p, l)" using resolve_body_join [OF run] by blast
  note c = resolve_body_cases [OF run join]
  show ?thesis
  proof (cases dec)
    case (Promote initial)
    with c obtain db1 db2 db3 where s:
      "insert_revision (promoted_revision rid (gl_listing_revision l + 1) p) db = Inr db1"
      "update_listings (\<lambda>r. gl_id r = gl_id l) (promote_listing rid (gl_listing_revision l + 1) now) db1 = Inr db2"
      "(if initial then publish_profile (gl_creator_profile_id l) now db2 else Inr db2) = Inr db3"
      "set_proposal_state x Promoted now db3 = Inr db'"
      by auto
    have "gallery_db_ok db2"
      by (rule gallery_db_ok_statement(1) [OF gallery_db_ok_statement(5) [OF ok s(1)] s(2)])
    then have "gallery_db_ok db3"
      using s(3) by (cases initial) (auto simp: publish_profile_def intro: gallery_db_ok_statement(7))
    then show ?thesis by (rule set_proposal_state_keeps [OF s(4)])
  next
    case (Close_initial reason)
    with c obtain db1 where "set_proposal_state x
          (if reason = Initial_policy_rejection then Rejected else Governance_blocked) now db = Inr db1"
      and upd: "update_listings (\<lambda>r. gl_id r = gl_id l) (close_initial_listing reason now) db1 = Inr db'"
      by auto
    then have "gallery_db_ok db1" using set_proposal_state_keeps ok by blast
    then show ?thesis using gallery_db_ok_statement(1) upd by blast
  qed (use c ok set_proposal_state_keeps in auto)
qed

text \<open>A resolution that is not a conflict leaves the proposal closed.\<close>

lemma closed_after_resolution:
  assumes run: "resolve_body now rid x res db = Inr (db', dec)"
    and dec: "\<And>why. dec \<noteq> Decided_conflict why"
  shows "\<exists>p'. row_where (\<lambda>p. gp_id p = x) (proposals db') = Some p' \<and> gp_state p' \<noteq> Open"
proof -
  obtain p l where join: "proposal_join db x = Some (p, l)"
    and d: "dec = decideProposalResolution (context_of db p l) res"
    using resolve_body_join [OF run] by blast
  note c = resolve_body_cases [OF run join]
  have p: "row_where (\<lambda>p. gp_id p = x) (proposals db) = Some p" by (rule proposal_join_Some(1) [OF join])
  have closed: "row_where (\<lambda>p. gp_id p = x) (update_where (\<lambda>p. gp_id p = x) (closed_as st now) (proposals db))
      = Some (closed_as st now p)" for st
    by (subst row_where_update_same) (simp_all add: p)
  have "\<exists>st. st \<noteq> Open \<and> proposals db' = update_where (\<lambda>p. gp_id p = x) (closed_as st now) (proposals db)"
  proof (cases dec)
    case (Promote initial)
    with c obtain db1 db2 db3 where s:
      "insert_revision (promoted_revision rid (gl_listing_revision l + 1) p) db = Inr db1"
      "update_listings (\<lambda>r. gl_id r = gl_id l) (promote_listing rid (gl_listing_revision l + 1) now) db1 = Inr db2"
      "(if initial then publish_profile (gl_creator_profile_id l) now db2 else Inr db2) = Inr db3"
      "set_proposal_state x Promoted now db3 = Inr db'"
      by auto
    have "proposals db3 = proposals db2" using s(3) publish_profile_Inr by (cases initial) fastforce+
    with s show ?thesis
      by (intro exI [of _ Promoted]) (auto simp: insert_revision_Inr update_listings_Inr dest!: set_proposal_state_Inr)
  next
    case (Close_initial reason)
    with c obtain db1 where "set_proposal_state x
          (if reason = Initial_policy_rejection then Rejected else Governance_blocked) now db = Inr db1"
      and "update_listings (\<lambda>r. gl_id r = gl_id l) (close_initial_listing reason now) db1 = Inr db'"
      by auto
    then show ?thesis
      by (intro exI [of _ "if reason = Initial_policy_rejection then Rejected else Governance_blocked"])
        (auto simp: update_listings_Inr dest!: set_proposal_state_Inr)
  next
    case (Close_update st)
    moreover have "st \<noteq> Open"
      using decide_close_update_state [of "context_of db p l" res st] Close_update d by auto
    ultimately show ?thesis using c by (auto dest!: set_proposal_state_Inr)
  next
    case (Decided_stale why)
    then show ?thesis using c by (auto dest!: set_proposal_state_Inr intro!: exI [of _ Stale])
  qed (use dec in blast)
  then show ?thesis using closed by fastforce
qed

text \<open>
  C17: a proposal is resolved at most once. After any resolution that returned other than a
  conflict, every later resolution of the same proposal, of any kind and at any time,
  returns the conflict \<open>proposal_closed\<close> and leaves the database as it is.
\<close>

theorem proposal_resolved_at_most_once:
  assumes "resolve now rid x res db = (db', Inr dec)" and "\<And>why. dec \<noteq> Decided_conflict why"
    and "row_where (\<lambda>l. gl_id l = gp_listing_id p') (listings db') \<noteq> None"
    and "row_where (\<lambda>p. gp_id p = x) (proposals db') = Some p'"
  shows "resolve now2 rid2 x res2 db' = (db', Inr (Decided_conflict ''proposal_closed''))"
proof -
  have "resolve_body now rid x res db = Inr (db', dec)"
    using assms(1) by (simp add: resolve_def run_tx_eq_Inr)
  from closed_after_resolution [OF this assms(2)] assms(4) have "gp_state p' \<noteq> Open" by auto
  moreover from assms(3,4) obtain l' where "proposal_join db' x = Some (p', l')"
    by (auto simp: proposal_join_def)
  ultimately have "resolve_body now2 rid2 x res2 db' = Inr (db', Decided_conflict ''proposal_closed'')"
    by (simp add: resolve_body_def decideProposalResolution_def context_of_def)
  then show ?thesis by (simp add: resolve_def)
qed

subsection \<open>Promotion\<close>

lemma promote_listing_simps [simp]:
  "gl_id (promote_listing rid n now r) = gl_id r"
  "gl_opaque_slug (promote_listing rid n now r) = gl_opaque_slug r"
  "gl_artifact_id (promote_listing rid n now r) = gl_artifact_id r"
  "gl_listing_revision (promote_listing rid n now r) = n"
  "gl_current_revision_id (promote_listing rid n now r) = Some rid"
  "gl_lifecycle_state (promote_listing rid n now r) = Listed"
  by (simp_all add: promote_listing_def)

lemma close_initial_listing_simps [simp]:
  "gl_id (close_initial_listing reason now r) = gl_id r"
  "gl_opaque_slug (close_initial_listing reason now r) = gl_opaque_slug r"
  "gl_artifact_id (close_initial_listing reason now r) = gl_artifact_id r"
  "gl_listing_revision (close_initial_listing reason now r) = gl_listing_revision r + 1"
  "gl_current_revision_id (close_initial_listing reason now r) = gl_current_revision_id r"
  by (simp_all add: close_initial_listing_def)

lemma publish_profile_frame:
  "publish_profile a now db = Inr db' \<Longrightarrow> listings db' = listings db \<and> revisions db' = revisions db"
  by (auto dest: publish_profile_Inr)

text \<open>The listings and the revisions a promotion leaves.\<close>

lemma promote_tables:
  assumes run: "resolve_body now rid x res db = Inr (db', Promote initial)"
    and join: "proposal_join db x = Some (p, l)"
  shows "listings db' = update_where (\<lambda>r. gl_id r = gl_id l)
      (promote_listing rid (gl_listing_revision l + 1) now) (listings db)"
    and "revisions db' = revisions db @ [promoted_revision rid (gl_listing_revision l + 1) p]"
proof -
  from resolve_body_cases [OF run join] obtain db1 db2 db3 where s:
    "insert_revision (promoted_revision rid (gl_listing_revision l + 1) p) db = Inr db1"
    "update_listings (\<lambda>r. gl_id r = gl_id l) (promote_listing rid (gl_listing_revision l + 1) now) db1 = Inr db2"
    "(if initial then publish_profile (gl_creator_profile_id l) now db2 else Inr db2) = Inr db3"
    "set_proposal_state x Promoted now db3 = Inr db'"
    by auto
  have "listings db3 = listings db2 \<and> revisions db3 = revisions db2"
    using s(3) publish_profile_frame by (cases initial) auto
  with s(1,2) set_proposal_state_Inr [OF s(4)] show
    "listings db' = update_where (\<lambda>r. gl_id r = gl_id l)
      (promote_listing rid (gl_listing_revision l + 1) now) (listings db)"
    "revisions db' = revisions db @ [promoted_revision rid (gl_listing_revision l + 1) p]"
    by (simp_all add: insert_revision_Inr update_listings_Inr)
qed

lemma promote_frame:
  assumes run: "resolve_body now rid x res db = Inr (db', Promote initial)"
    and join: "proposal_join db x = Some (p, l)"
  shows "db' = db\<lparr>listings := listings db', revisions := revisions db', profiles := profiles db', proposals := proposals db'\<rparr>"
    and "profiles db' = (if initial then update_where (\<lambda>r. pr_id r = gl_creator_profile_id l)
      (\<lambda>r. r\<lparr>pr_public_at := (case pr_public_at r of None \<Rightarrow> Some now | Some t \<Rightarrow> Some t)\<rparr>) (profiles db) else profiles db)"
    and "proposals db' = update_where (\<lambda>p. gp_id p = x) (closed_as Promoted now) (proposals db)"
proof -
  from resolve_body_cases [OF run join] obtain db1 db2 db3 where s:
    "insert_revision (promoted_revision rid (gl_listing_revision l + 1) p) db = Inr db1"
    "update_listings (\<lambda>r. gl_id r = gl_id l) (promote_listing rid (gl_listing_revision l + 1) now) db1 = Inr db2"
    "(if initial then publish_profile (gl_creator_profile_id l) now db2 else Inr db2) = Inr db3"
    "set_proposal_state x Promoted now db3 = Inr db'"
    by auto
  have 1: "db1 = db\<lparr>revisions := revisions db1\<rparr>" using s(1) by (auto simp: insert_revision_Inr)
  have 2: "db2 = db1\<lparr>listings := listings db2\<rparr>" using s(2) by (auto simp: update_listings_Inr)
  have 3: "db3 = db2\<lparr>profiles := (if initial then update_where (\<lambda>r. pr_id r = gl_creator_profile_id l)
      (\<lambda>r. r\<lparr>pr_public_at := (case pr_public_at r of None \<Rightarrow> Some now | Some t \<Rightarrow> Some t)\<rparr>) (profiles db2) else profiles db2)\<rparr>"
    using s(3) by (cases initial) (auto simp: publish_profile_def update_profiles_Inr)
  note 4 = set_proposal_state_Inr [OF s(4)]
  from 1 2 3 obtain rs ls where abs: "db1 = db\<lparr>revisions := rs\<rparr>" "db2 = db1\<lparr>listings := ls\<rparr>" by blast
  show "db' = db\<lparr>listings := listings db', revisions := revisions db', profiles := profiles db', proposals := proposals db'\<rparr>"
    unfolding 4 3 abs by simp
  show "profiles db' = (if initial then update_where (\<lambda>r. pr_id r = gl_creator_profile_id l)
      (\<lambda>r. r\<lparr>pr_public_at := (case pr_public_at r of None \<Rightarrow> Some now | Some t \<Rightarrow> Some t)\<rparr>) (profiles db) else profiles db)"
    "proposals db' = update_where (\<lambda>p. gp_id p = x) (closed_as Promoted now) (proposals db)"
    unfolding 4 3 abs by simp_all
qed

text \<open>
  C18: a promotion publishes its proposal and nothing else. When a resolution promotes, it was
  \<open>pass\<close>, the proposal was open and made against the current revision of an open listing, the
  artifact had no active restriction or takedown and no appeal against a decision on the listing
  was pending. The one revision added is the next of the listing, with the version, the grant
  acceptance, the title, the description and the tags of the proposal; it is the current one of the
  listing, which is Listed and not closed; the proposal is promoted and closed; the first
  promotion of a listing makes its creator's profile public. No other row and no other table
  changed.
\<close>

theorem promotion_publishes_the_proposal:
  assumes "resolve now rid x res db = (db', Inr (Promote initial))"
  shows "\<exists>p \<in> set (proposals db). \<exists>l \<in> set (listings db).
    gp_id p = x \<and> gl_id l = gp_listing_id p
    \<and> res = Pass \<and> gp_state p = Open \<and> gp_base_listing_revision p = gl_listing_revision l
    \<and> gl_lifecycle_state l \<in> {Pending, Listed} \<and> initial = (gl_current_revision_id l = None)
    \<and> \<not> (\<exists>b \<in> set (public_sharing_restrictions db @ artifact_takedowns db). gb_artifact_id b = gl_artifact_id l \<and> gb_active b)
    \<and> \<not> (\<exists>a \<in> set (appeals db). \<exists>d \<in> set (decisions db). \<exists>c \<in> set (cases db). gap_state a = Appeal_state_pending
        \<and> gd_id d = gap_decision_id a \<and> gcase_id c = gd_case_id d \<and> gcase_listing_id c = Some (gl_id l))
    \<and> db' = db\<lparr>listings := map (\<lambda>r. if gl_id r = gl_id l then r\<lparr>gl_lifecycle_state := Listed, gl_closure_reason := None,
            gl_current_revision_id := Some rid, gl_listing_revision := gl_listing_revision l + 1, gl_updated_at := now,
            gl_closed_at := None\<rparr> else r) (listings db),
          revisions := revisions db @ [\<lparr>gr_id = rid, gr_listing_id = gl_id l, gr_revision = gl_listing_revision l + 1,
            gr_version_id = gp_version_id p, gr_permission_acceptance_id = gp_permission_acceptance_id p,
            gr_public_title = gp_public_title p, gr_public_description = gp_public_description p, gr_tags = gp_tags p\<rparr>],
          profiles := map (\<lambda>r. if initial \<and> pr_id r = gl_creator_profile_id l \<and> pr_public_at r = None
            then r\<lparr>pr_public_at := Some now\<rparr> else r) (profiles db),
          proposals := map (\<lambda>q. if gp_id q = x then q\<lparr>gp_state := Promoted, gp_closed_at := Some now\<rparr> else q) (proposals db)\<rparr>"
proof -
  have run: "resolve_body now rid x res db = Inr (db', Promote initial)"
    using assms(1) by (simp add: resolve_def run_tx_eq_Inr)
  obtain p l where join: "proposal_join db x = Some (p, l)"
    and "decideProposalResolution (context_of db p l) res = Promote initial"
    using resolve_body_join [OF run] by auto
  then have dec: "res = Pass" "gp_state p = Open" "gp_base_listing_revision p = gl_listing_revision l"
    "gl_lifecycle_state l \<in> {Pending, Listed}" "initial = (gl_current_revision_id l = None)" "\<not> governance_blocked db l"
    by (simp_all add: decide_promote_iff context_of_def)
  from dec(6) have free:
    "\<not> (\<exists>b \<in> set (public_sharing_restrictions db @ artifact_takedowns db). gb_artifact_id b = gl_artifact_id l \<and> gb_active b)"
    "\<not> (\<exists>a \<in> set (appeals db). \<exists>d \<in> set (decisions db). \<exists>c \<in> set (cases db). gap_state a = Appeal_state_pending
        \<and> gd_id d = gap_decision_id a \<and> gcase_id c = gd_case_id d \<and> gcase_listing_id c = Some (gl_id l))"
    unfolding governance_blocked_def artifact_blocked_def pending_appeal_def exists_where_iff by auto
  note found = proposal_join_Some [OF join]
  note rows = promote_tables [OF run join] and frame = promote_frame [OF run join]
  have profiles: "profiles db' = map (\<lambda>r. if initial \<and> pr_id r = gl_creator_profile_id l \<and> pr_public_at r = None
      then r\<lparr>pr_public_at := Some now\<rparr> else r) (profiles db)"
    unfolding frame(2) update_where_def by (auto split: option.split)
  note tables = rows(1) [unfolded update_where_def promote_listing_def] rows(2) [unfolded promoted_revision_def found(6) [symmetric]]
    profiles frame(3) [unfolded update_where_def]
  from found(3,6) dec(1-5) free frame(1) [unfolded tables] show ?thesis
    by (intro bexI [OF _ found(2)] bexI [OF _ found(5)] conjI) assumption+
qed

subsection \<open>Stored revisions\<close>

text \<open>
  Every listing is at least at the revision of each revision row stored for it, and its
  current revision id denotes such a row.
\<close>

definition listing_linked :: "revision_row list \<Rightarrow> listing_row \<Rightarrow> bool" where
  "listing_linked t l \<longleftrightarrow>
     list_all (\<lambda>r. gr_listing_id r = gl_id l \<longrightarrow> gr_revision r \<le> gl_listing_revision l) t \<and>
     (case gl_current_revision_id l of
        None \<Rightarrow> True
      | Some c \<Rightarrow> exists_where (\<lambda>r. gr_id r = c \<and> gr_listing_id r = gl_id l) t)"

definition revisions_linked :: "'x gallery_db_scheme \<Rightarrow> bool" where
  "revisions_linked db \<longleftrightarrow> list_all (listing_linked (revisions db)) (listings db)"

lemma listing_linked_raise:
  "listing_linked t l \<Longrightarrow> gl_id l' = gl_id l \<Longrightarrow> gl_current_revision_id l' = gl_current_revision_id l \<Longrightarrow>
     gl_listing_revision l \<le> gl_listing_revision l' \<Longrightarrow> listing_linked t l'"
  by (cases "gl_current_revision_id l") (auto simp: listing_linked_def list_all_iff intro: order_trans)

lemma listing_linked_other:
  "listing_linked t l \<Longrightarrow> gr_listing_id r \<noteq> gl_id l \<Longrightarrow> listing_linked (t @ [r]) l"
  by (auto simp: listing_linked_def list_all_iff exists_where_iff split: option.splits)

lemma promoted_listing_linked:
  assumes "listing_linked t l" and "gp_listing_id p = gl_id l"
  shows "listing_linked (t @ [promoted_revision rid (gl_listing_revision l + 1) p])
    (promote_listing rid (gl_listing_revision l + 1) now l)"
  using assms by (fastforce simp: listing_linked_def list_all_iff exists_where_iff promoted_revision_def)

text \<open>
  The revision of a listing is consistent through every resolution. Revision rows
  never run ahead of the listing's revision and the current revision id always denotes a
  stored revision of that listing, whatever the decision and whether or not the
  transaction committed.
\<close>

theorem resolve_keeps_revisions_linked:
  assumes ok: "gallery_db_ok db" and lk: "revisions_linked db"
  shows "revisions_linked (fst (resolve now rid x res db)) \<and> gallery_db_ok (fst (resolve now rid x res db))"
proof -
  have "revisions_linked db' \<and> gallery_db_ok db'"
    if run: "resolve_body now rid x res db = Inr (db', dec)" for db' dec
  proof -
    obtain p l where join: "proposal_join db x = Some (p, l)" using resolve_body_join [OF run] by blast
    note c = resolve_body_cases [OF run join]
    have l: "l \<in> set (listings db)" "gl_id l = gp_listing_id p"
      using proposal_join_Some(5,6) [OF join] by blast+
    have only: "q = l" if "q \<in> set (listings db)" "gl_id q = gl_id l" for q
      by (rule gallery_db_ok_listing_id [OF ok that(1) l(1) that(2)])
    have linked: "listing_linked (revisions db) q" if "q \<in> set (listings db)" for q
      using lk that by (simp add: revisions_linked_def list_all_iff)
    have "revisions_linked db'"
    proof (cases dec)
      case (Promote initial)
      note t = promote_tables [OF run [unfolded Promote] join]
      have "listing_linked (revisions db') q'" if "q' \<in> set (listings db')" for q'
      proof -
        from that obtain q where q: "q \<in> set (listings db)"
          "q' = (if gl_id q = gl_id l then promote_listing rid (gl_listing_revision l + 1) now q else q)"
          unfolding t(1) in_update_where by blast
        show ?thesis
        proof (cases "gl_id q = gl_id l")
          case True
          then show ?thesis
            using q(2) only [OF q(1)] promoted_listing_linked [OF linked [OF l(1)], of p] l(2) by (simp add: t(2))
        next
          case False
          then show ?thesis
            using q(2) l(2) listing_linked_other [OF linked [OF q(1)]] by (simp add: t(2) promoted_revision_def)
        qed
      qed
      then show ?thesis by (simp add: revisions_linked_def list_all_iff)
    next
      case (Close_initial reason)
      with c obtain db1 where s: "set_proposal_state x
            (if reason = Initial_policy_rejection then Rejected else Governance_blocked) now db = Inr db1"
        and u: "update_listings (\<lambda>r. gl_id r = gl_id l) (close_initial_listing reason now) db1 = Inr db'"
        by auto
      have t: "listings db' = update_where (\<lambda>r. gl_id r = gl_id l) (close_initial_listing reason now) (listings db)"
        "revisions db' = revisions db"
        using u set_proposal_state_Inr [OF s] by (simp_all add: update_listings_Inr)
      have "listing_linked (revisions db) (close_initial_listing reason now q)" if "q \<in> set (listings db)" for q
        by (rule listing_linked_raise [OF linked [OF that]]) simp_all
      then show ?thesis using linked by (auto simp: revisions_linked_def t list_all_iff in_update_where)
    qed (use c lk in \<open>auto simp: revisions_linked_def dest!: set_proposal_state_Inr\<close>)
    then show ?thesis using resolve_body_ok [OF ok run] by simp
  qed
  then show ?thesis
    using ok lk by (cases "resolve_body now rid x res db") (auto simp: resolve_def run_tx_def)
qed

text \<open>
  A resolution never runs into the schema. On a committed state whose revisions are
  linked, resolving an existing proposal with a fresh revision id returns a decision and
  raises nothing, provided the creator profile it would publish is not retired.
\<close>

theorem resolve_never_raises:
  assumes ok: "gallery_db_ok db" and lk: "revisions_linked db"
    and join: "proposal_join db x = Some (p, l)"
    and fresh: "\<not> exists_where (\<lambda>r. gr_id r = rid) (revisions db)"
    and live: "\<not> exists_where (\<lambda>r. pr_id r = gl_creator_profile_id l \<and> pr_retired_at r \<noteq> None) (profiles db)"
  shows "isOk (snd (resolve now rid x res db))"
proof -
  have l: "l \<in> set (listings db)" "gl_id l = gp_listing_id p"
    and row: "row_where (\<lambda>r. gl_id r = gl_id l) (listings db) = Some l"
    using proposal_join_Some(4-6) [OF join] by blast+
  have lok: "listing_row_ok l" by (rule gallery_db_ok_listing_row [OF ok l(1)])
  have llk: "listing_linked (revisions db) l" using lk l(1) by (simp add: revisions_linked_def list_all_iff)
  have "isOk (resolve_body now rid x res db)"
  proof (cases "decideProposalResolution (context_of db p l) res")
    case (Decided_stale why)
    then show ?thesis by (simp add: resolve_body_def join Let_def set_proposal_state_ok [OF ok])
  next
    case (Decided_conflict why)
    then show ?thesis by (simp add: resolve_body_def join Let_def)
  next
    case (Close_update st)
    then have "st \<noteq> Open" using decide_close_update_state by fastforce
    with Close_update show ?thesis by (simp add: resolve_body_def join Let_def set_proposal_state_ok [OF ok])
  next
    case (Close_initial reason)
    let ?st = "if reason = Initial_policy_rejection then Rejected else Governance_blocked"
    let ?db = "db\<lparr>proposals := update_where (\<lambda>p. gp_id p = x) (closed_as ?st now) (proposals db)\<rparr>"
    have s: "set_proposal_state x ?st now db = Inr ?db" by (rule set_proposal_state_ok [OF ok]) simp
    have "gallery_db_ok ?db" by (rule set_proposal_state_keeps [OF s ok])
    then have "isOk (update_listings (\<lambda>r. gl_id r = gl_id l) (close_initial_listing reason now) ?db)"
      by (subst update_listings_one [where r = l])
        (use row lok in \<open>simp_all add: close_initial_listing_def listing_row_ok_def open_listing_def
          terminal_projection_check_def committed_projection_check_def listed_revision_check_def\<close>)
    with Close_initial show ?thesis by (auto simp: resolve_body_def join Let_def s isOk_iff)
  next
    case (Promote initial)
    let ?n = "gl_listing_revision l + 1"
    have opl: "open_listing l" using Promote by (simp add: decide_promote_iff context_of_def open_listing_def)
    have "revisions_unique (revisions db @ [promoted_revision rid ?n p])"
      using ok fresh llk l(2)
      by (auto simp: gallery_db_ok_def revisions_unique_def unique_on_append1 promoted_revision_def
          exists_where_iff listing_linked_def list_all_iff)
    then obtain db1 where s1: "insert_revision (promoted_revision rid ?n p) db = Inr db1"
      and db1: "db1 = db\<lparr>revisions := revisions db @ [promoted_revision rid ?n p]\<rparr>"
      by (simp add: insert_revision_def)
    have ok1: "gallery_db_ok db1" by (rule gallery_db_ok_statement(5) [OF ok s1])
    have "update_listings (\<lambda>r. gl_id r = gl_id l) (promote_listing rid ?n now) db1
        = Inr (db1\<lparr>listings := update_where (\<lambda>r. gl_id r = gl_id l) (promote_listing rid ?n now) (listings db1)\<rparr>)"
      by (rule update_listings_one [where r = l])
        (use ok1 row lok opl in \<open>simp_all add: db1 promote_listing_def listing_row_ok_def open_listing_def
          terminal_projection_check_def committed_projection_check_def listed_revision_check_def\<close>)
    then obtain db2 where s2: "update_listings (\<lambda>r. gl_id r = gl_id l) (promote_listing rid ?n now) db1 = Inr db2"
      and pf2: "profiles db2 = profiles db"
      by (simp add: db1)
    have ok2: "gallery_db_ok db2" by (rule gallery_db_ok_statement(1) [OF ok1 s2])
    let ?f = "\<lambda>r. r\<lparr>pr_public_at := (case pr_public_at r of None \<Rightarrow> Some now | Some t \<Rightarrow> Some t)\<rparr>"
    let ?t = "update_where (\<lambda>r. pr_id r = gl_creator_profile_id l) ?f (profiles db2)"
    have "profile_row_ok (if pr_id r = gl_creator_profile_id l then ?f r else r)" if "r \<in> set (profiles db2)" for r
    proof -
      have "profile_row_ok r" using ok2 that by (simp add: gallery_db_ok_def list_all_iff)
      moreover have "pr_id r = gl_creator_profile_id l \<Longrightarrow> pr_retired_at r = None"
        using live that by (simp add: exists_where_iff pf2)
      ultimately show ?thesis by (simp add: profile_row_ok_def split: option.split)
    qed
    then have "list_all profile_row_ok ?t" by (rule list_all_update_where)
    moreover have "profiles_unique ?t"
      using ok2 unfolding gallery_db_ok_def profiles_unique_def by (auto intro!: unique_on_update_shrink)
    ultimately have "publish_profile (gl_creator_profile_id l) now db2 = Inr (db2\<lparr>profiles := ?t\<rparr>)"
      by (simp add: publish_profile_def update_profiles_Inr)
    then obtain db3 where s3: "(if initial then publish_profile (gl_creator_profile_id l) now db2 else Inr db2) = Inr db3"
      by (cases initial) simp_all
    have "gallery_db_ok db3"
      using s3 ok2 by (cases initial) (auto simp: publish_profile_def intro: gallery_db_ok_statement(7))
    then obtain db4 where "set_proposal_state x Promoted now db3 = Inr db4"
      by (simp add: set_proposal_state_ok)
    with s1 s2 s3 Promote show ?thesis by (simp add: resolve_body_def join Let_def)
  qed
  then show ?thesis by (auto simp: resolve_def run_tx_def isOk_iff split: sum.splits)
qed

subsection \<open>Witnesses\<close>

definition example_pending :: listing_row where
  "example_pending =
     \<lparr>gl_id = ''l1'', gl_artifact_id = ''a1'', gl_owner_user_id = ''u1'',
      gl_creator_profile_id = ''p1'', gl_opaque_slug = ''slug1'', gl_lifecycle_state = Pending,
      gl_review_state = Clear, gl_closure_reason = None, gl_listing_revision = 1,
      gl_current_revision_id = None, gl_predecessor_listing_id = None,
      gl_restoration_forfeited_at = None, gl_created_at = 0, gl_updated_at = 0,
      gl_closed_at = None\<rparr>"

definition example_proposal :: proposal_row where
  "example_proposal =
     \<lparr>gp_id = ''q1'', gp_listing_id = ''l1'', gp_base_listing_revision = 1, gp_version_id = ''v1'',
      gp_permission_acceptance_id = ''g1'', gp_public_title = ''Title'', gp_public_description = None,
      gp_tags = [], gp_state = Open, gp_closed_at = None\<rparr>"

definition example_resolve_db :: gallery_db where
  "example_resolve_db =
     \<lparr>listings = [example_pending], proposals = [example_proposal], revisions = [], acceptances = [],
      lifecycle_events = [], tombstones = [], profiles = [], public_sharing_restrictions = [],
      artifact_takedowns = [], appeals = [], decisions = [], cases = [], account_closures = []\<rparr>"

lemma example_resolve_db_ok: "gallery_db_ok example_resolve_db" "revisions_linked example_resolve_db"
  by (simp_all add: gallery_db_ok_def example_resolve_db_def example_pending_def example_proposal_def
      listing_row_ok_def terminal_projection_check_def open_listing_def committed_projection_check_def
      listed_revision_check_def listings_unique_def unique_on_def proposals_unique_def proposal_row_ok_def
      open_proposal_def revisions_unique_def acceptances_unique_def tombstones_unique_def profiles_unique_def
      revisions_linked_def listing_linked_def)

lemma example_join: "proposal_join example_resolve_db ''q1'' = Some (example_proposal, example_pending)"
  by (simp add: proposal_join_def example_resolve_db_def example_pending_def example_proposal_def)

lemma example_decision:
  "decideProposalResolution (context_of example_resolve_db example_proposal example_pending) Pass = Promote True"
  by (simp add: decide_promote_iff context_of_def example_proposal_def example_pending_def governance_blocked_def
      artifact_blocked_def pending_appeal_def example_resolve_db_def exists_where_def)

theorem resolve_never_raises_witness: "isOk (snd (resolve 7 ''r1'' ''q1'' Pass example_resolve_db))"
  by (rule resolve_never_raises [OF example_resolve_db_ok example_join])
    (simp_all add: example_resolve_db_def exists_where_def)

text \<open>The state after the proposal of the example was promoted.\<close>

definition example_promoted_db :: gallery_db where
  "example_promoted_db = example_resolve_db
     \<lparr>listings := [promote_listing ''r1'' 2 7 example_pending],
      proposals := [closed_as Promoted 7 example_proposal],
      revisions := [promoted_revision ''r1'' 2 example_proposal]\<rparr>"

lemma example_promotes:
  "resolve 7 ''r1'' ''q1'' Pass example_resolve_db = (example_promoted_db, Inr (Promote True))"
proof -
  have "resolve_body 7 ''r1'' ''q1'' Pass example_resolve_db = Inr (example_promoted_db, Promote True)"
    by (simp add: resolve_body_def example_join Let_def example_decision set_proposal_state_def publish_profile_def)
      (simp add: statement_Inr bindR_eq_Inr insert_revision_def update_listings_def check_listings_Inr
        check_listings_def update_profiles_def update_proposals_def check_proposals_def Let_def
        example_resolve_db_def example_promoted_db_def example_pending_def example_proposal_def
        promoted_revision_def promote_listing_def revisions_unique_def unique_on_def
        terminal_projection_check_def committed_projection_check_def listed_revision_check_def open_listing_def
        listings_unique_def profiles_unique_def proposals_unique_def proposal_row_ok_def open_proposal_def)
  then show ?thesis by (simp add: resolve_def)
qed

theorem proposal_resolved_at_most_once_witness:
  "resolve 8 ''r2'' ''q1'' Reject example_promoted_db
    = (example_promoted_db, Inr (Decided_conflict ''proposal_closed''))"
  by (rule proposal_resolved_at_most_once [OF example_promotes, of "closed_as Promoted 7 example_proposal"])
    (simp_all add: example_promoted_db_def example_proposal_def example_pending_def)

theorem promotion_publishes_the_proposal_witness:
  "map gr_version_id (revisions example_promoted_db) = [gp_version_id example_proposal]
   \<and> map gl_current_revision_id (listings example_promoted_db) = [Some ''r1'']"
proof -
  have rows: "listings example_resolve_db = [example_pending]" "proposals example_resolve_db = [example_proposal]"
    "revisions example_resolve_db = []"
    by (simp_all add: example_resolve_db_def)
  obtain p l rs us where "p \<in> set (proposals example_resolve_db)" "l \<in> set (listings example_resolve_db)" and
    after: "example_promoted_db = example_resolve_db\<lparr>listings := map (\<lambda>r. if gl_id r = gl_id l then r\<lparr>gl_lifecycle_state := Listed,
          gl_closure_reason := None, gl_current_revision_id := Some ''r1'', gl_listing_revision := gl_listing_revision l + 1,
          gl_updated_at := 7, gl_closed_at := None\<rparr> else r) (listings example_resolve_db),
      revisions := revisions example_resolve_db @ [\<lparr>gr_id = ''r1'', gr_listing_id = gl_id l, gr_revision = gl_listing_revision l + 1,
          gr_version_id = gp_version_id p, gr_permission_acceptance_id = gp_permission_acceptance_id p,
          gr_public_title = gp_public_title p, gr_public_description = gp_public_description p, gr_tags = gp_tags p\<rparr>],
      profiles := rs, proposals := us\<rparr>"
    using promotion_publishes_the_proposal [OF example_promotes] by (elim bexE conjE) (rule that; assumption)
  moreover from this have "p = example_proposal" "l = example_pending" by (simp_all add: rows)
  ultimately show ?thesis unfolding after by (simp add: rows)
qed

theorem resolve_keeps_revisions_linked_witness:
  "revisions_linked (fst (resolve 7 ''r1'' ''q1'' Reject example_resolve_db))"
  using resolve_keeps_revisions_linked [OF example_resolve_db_ok] by blast

end
