(* ===== verification/Source_Closure.thy ===== *)
theory Source_Closure
  imports Proposal_Promotion
begin

text \<open>
  Closing the Gallery side of an account, \<open>api/src/application/gallery/source-closure.ts\<close>:
  one transaction withdraws the listings that could still be public, closes proposals and
  appeals, leaves tombstones and retires the profile. The lemmas show what a committed
  closure guarantees and the two states in which the statements run into the schema.
\<close>

definition closes_with_account :: "js_string \<Rightarrow> listing_row \<Rightarrow> bool" where
  "closes_with_account userId l \<longleftrightarrow>
     gl_owner_user_id l = userId \<and>
     (open_listing l \<or> (gl_lifecycle_state l = Removed \<and> gl_closure_reason l = Some Administrator_removal))"

definition account_closed_event :: "listing_row \<Rightarrow> event_row" where
  "account_closed_event l =
     \<lparr>ge_listing_id = gl_id l, ge_from_lifecycle_state = Some (gl_lifecycle_state l),
      ge_to_lifecycle_state = Withdrawn, ge_closure_reason = Some Account_deleted,
      ge_base_listing_revision = Some (gl_listing_revision l),
      ge_committed_listing_revision = gl_listing_revision l + 1,
      ge_actor_kind = Actor_system, ge_actor_id = None\<rparr>"

definition withdraw_for_account :: "time \<Rightarrow> listing_row \<Rightarrow> listing_row" where
  "withdraw_for_account now l =
     l\<lparr>gl_lifecycle_state := Withdrawn, gl_closure_reason := Some Account_deleted,
       gl_listing_revision := gl_listing_revision l + 1, gl_closed_at := Some now, gl_updated_at := now\<rparr>"

definition owned_listing_id :: "'x gallery_db_scheme \<Rightarrow> js_string \<Rightarrow> js_string \<Rightarrow> bool" where
  "owned_listing_id db userId x \<longleftrightarrow>
     exists_where (\<lambda>l. gl_id l = x \<and> gl_owner_user_id l = userId) (listings db)"

definition owned_decision :: "'x gallery_db_scheme \<Rightarrow> js_string \<Rightarrow> js_string \<Rightarrow> bool" where
  "owned_decision db userId d \<longleftrightarrow>
     exists_where (\<lambda>dec. gd_id dec = d \<and>
       exists_where (\<lambda>c. gcase_id c = gd_case_id dec \<and>
         (case gcase_listing_id c of None \<Rightarrow> False | Some x \<Rightarrow> owned_listing_id db userId x)) (cases db))
       (decisions db)"

definition account_tombstone :: "time \<Rightarrow> listing_row \<Rightarrow> tombstone_row" where
  "account_tombstone now l =
     \<lparr>gt_listing_id = gl_id l, gt_opaque_slug = gl_opaque_slug l,
      gt_was_ever_public = (gl_current_revision_id l \<noteq> None),
      gt_terminal_lifecycle_state = Withdrawn, gt_closure_reason = Account_deleted,
      gt_source_deleted_at = Some now, gt_permanently_non_restorable_at = Some now\<rparr>"

definition account_withdrawn :: "js_string \<Rightarrow> listing_row \<Rightarrow> bool" where
  "account_withdrawn userId l \<longleftrightarrow>
     gl_owner_user_id l = userId \<and> gl_lifecycle_state l = Withdrawn
     \<and> gl_closure_reason l = Some Account_deleted"

definition close_account_body ::
  "time \<Rightarrow> js_string \<Rightarrow> 'x gallery_db_scheme \<Rightarrow> tx_error + 'x gallery_db_scheme \<times> unit" where
  "close_account_body now userId db =
     (let db = db\<lparr>account_closures :=
          (if userId \<in> set (account_closures db) then account_closures db else account_closures db @ [userId])\<rparr>;
          db = db\<lparr>lifecycle_events := lifecycle_events db
            @ map account_closed_event (filter (closes_with_account userId) (listings db))\<rparr>
      in bindR (update_listings (closes_with_account userId) (withdraw_for_account now) db) (\<lambda>db.
         bindR (update_proposals (\<lambda>p. open_proposal p \<and> owned_listing_id db userId (gp_listing_id p))
                 (\<lambda>p. p\<lparr>gp_state := Closed, gp_closed_at := Some now\<rparr>) db) (\<lambda>db.
         let db = db\<lparr>appeals := update_where
               (\<lambda>a. gap_state a = Appeal_state_pending \<and> owned_decision db userId (gap_decision_id a))
               (\<lambda>a. a\<lparr>gap_state := Appeal_state_moot, gap_resolved_at := Some now\<rparr>) (appeals db)\<rparr>
         in bindR (insert_tombstones_do_update
                    (map (account_tombstone now) (filter (account_withdrawn userId) (listings db))) db) (\<lambda>db.
            bindR (update_profiles (\<lambda>r. pr_user_id r = userId)
                    (\<lambda>r. r\<lparr>pr_retired_at := (case pr_retired_at r of None \<Rightarrow> Some now | Some t \<Rightarrow> Some t)\<rparr>) db) (\<lambda>db.
            Inr (db, ()))))))"

definition closeAccount ::
  "time \<Rightarrow> js_string \<Rightarrow> 'x gallery_db_scheme \<Rightarrow> 'x gallery_db_scheme \<times> (tx_error + unit)" where
  "closeAccount now userId = run_tx (close_account_body now userId)"

subsection \<open>A committed closure\<close>

lemma withdraw_for_account_simps [simp]:
  "gl_id (withdraw_for_account now l) = gl_id l"
  "gl_owner_user_id (withdraw_for_account now l) = gl_owner_user_id l"
  "gl_opaque_slug (withdraw_for_account now l) = gl_opaque_slug l"
  "gl_current_revision_id (withdraw_for_account now l) = gl_current_revision_id l"
  "gl_lifecycle_state (withdraw_for_account now l) = Withdrawn"
  "gl_closure_reason (withdraw_for_account now l) = Some Account_deleted"
  "closes_with_account userId (withdraw_for_account now l) = False"
  by (simp_all add: withdraw_for_account_def closes_with_account_def open_listing_def)

lemma insert_tombstones_conflict:
  assumes "t \<in> set rs" and "exists_where (\<lambda>q. gt_listing_id q = gt_listing_id t) (tombstones db)"
  shows "\<exists>e. insert_tombstones_do_update rs db = (Inl e :: tx_error + 'x gallery_db_scheme)"
  using assms
proof (induction rs arbitrary: db)
  case (Cons r rs)
  show ?case
  proof (cases "insert_tombstone_do_update r db")
    case (Inr db1)
    then have "tombstones db1 = tombstones db @ [r]"
      and fresh: "\<not> exists_where (\<lambda>q. gt_listing_id q = gt_listing_id r) (tombstones db)"
      by (auto simp: insert_tombstone_do_update_def bindR_eq_Inr check_tombstones_Inr split: if_splits)
    moreover from fresh Cons.prems have "t \<in> set rs" by auto
    ultimately have "\<exists>e. insert_tombstones_do_update rs db1 = Inl e"
      using Cons.IH Cons.prems(2) by (simp add: exists_where_iff)
    with Inr show ?thesis by simp
  qed simp
qed simp

lemma insert_tombstones_effect:
  assumes "(insert_tombstones_do_update rs db :: tx_error + 'x gallery_db_scheme) = Inr db'"
  shows "db' = db\<lparr>tombstones := tombstones db @ rs\<rparr> \<and>
    list_all (\<lambda>t. \<not> exists_where (\<lambda>q. gt_listing_id q = gt_listing_id t) (tombstones db)) rs"
proof -
  have "\<not> exists_where (\<lambda>q. gt_listing_id q = gt_listing_id t) (tombstones db)" if "t \<in> set rs" for t
    using insert_tombstones_conflict [OF that, of db] assms by auto
  with insert_tombstones_do_update_Inr [OF assms] show ?thesis by (simp add: list_all_iff)
qed

text \<open>The tables a committed closure leaves, statement by statement.\<close>

lemma close_account_effect:
  assumes "close_account_body now userId db = Inr (db', u)"
  shows "listings db' = update_where (closes_with_account userId) (withdraw_for_account now) (listings db)"
    and "proposals db' = update_where (\<lambda>p. open_proposal p \<and> owned_listing_id db' userId (gp_listing_id p))
      (\<lambda>p. p\<lparr>gp_state := Closed, gp_closed_at := Some now\<rparr>) (proposals db)"
    and "tombstones db' = tombstones db
      @ map (account_tombstone now) (filter (account_withdrawn userId) (listings db'))"
    and "appeals db' = update_where
      (\<lambda>a. gap_state a = Appeal_state_pending \<and> owned_decision db' userId (gap_decision_id a))
      (\<lambda>a. a\<lparr>gap_state := Appeal_state_moot, gap_resolved_at := Some now\<rparr>) (appeals db)"
    and "profiles db' = update_where (\<lambda>r. pr_user_id r = userId)
      (\<lambda>r. r\<lparr>pr_retired_at := (case pr_retired_at r of None \<Rightarrow> Some now | Some t \<Rightarrow> Some t)\<rparr>) (profiles db)"
    and "userId \<in> set (account_closures db')"
    and "list_all profile_row_ok (profiles db')"
    and "list_all (\<lambda>t. \<not> exists_where (\<lambda>q. gt_listing_id q = gt_listing_id t) (tombstones db))
      (map (account_tombstone now) (filter (account_withdrawn userId) (listings db')))"
  using assms
  by (auto simp: close_account_body_def Let_def bindR_eq_Inr update_listings_Inr update_proposals_Inr
      update_profiles_Inr owned_listing_id_def owned_decision_def dest!: insert_tombstones_effect
      cong: option.case_cong)

lemma close_account_frame:
  assumes "close_account_body now userId db = Inr (db', u)"
  shows "db' = db\<lparr>listings := listings db', proposals := proposals db', appeals := appeals db', tombstones := tombstones db',
      profiles := profiles db',
      lifecycle_events := lifecycle_events db @ map account_closed_event (filter (closes_with_account userId) (listings db)),
      account_closures := (if userId \<in> set (account_closures db) then account_closures db else account_closures db @ [userId])\<rparr>"
  using assms
  by (auto simp: close_account_body_def Let_def bindR_eq_Inr update_listings_Inr update_proposals_Inr
      update_profiles_Inr dest!: insert_tombstones_effect cong: option.case_cong)

lemma case_option_iff: "(case y of None \<Rightarrow> False | Some x \<Rightarrow> P x) \<longleftrightarrow> (\<exists>x. y = Some x \<and> P x)"
  by (cases y) simp_all

lemma exists_where_update_same:
  "(\<And>r. p (f r) = p r) \<Longrightarrow> exists_where p (update_where c f t) = exists_where p t"
  by (auto simp: exists_where_iff update_where_def)

text \<open>
  C28: a committed account closure leaves nothing of the account public and touches nothing else.
  Exactly its pending, listed and administrator-removed listings are withdrawn, each with a
  lifecycle event at its next revision; exactly the open proposals of its listings are closed and
  exactly the pending appeals against decisions on its listings are moot; every listing withdrawn
  for the account gets a tombstone that no restoration can lift; its profile is retired, unless it
  was before. All rows of other accounts and all other tables are as they were; afterwards the
  account has no open listing, and none of its listings has an open proposal.
\<close>

theorem closeAccount_closes_everything:
  assumes "closeAccount now userId db = (db', Inr u)"
  defines "closing \<equiv> \<lambda>l. gl_owner_user_id l = userId \<and> (gl_lifecycle_state l \<in> {Pending, Listed}
      \<or> gl_lifecycle_state l = Removed \<and> gl_closure_reason l = Some Administrator_removal)"
    and "owned \<equiv> \<lambda>x. \<exists>l \<in> set (listings db). gl_id l = x \<and> gl_owner_user_id l = userId"
  shows "db' = db\<lparr>listings := map (\<lambda>l. if closing l then l\<lparr>gl_lifecycle_state := Withdrawn, gl_closure_reason := Some Account_deleted,
          gl_listing_revision := gl_listing_revision l + 1, gl_closed_at := Some now, gl_updated_at := now\<rparr> else l) (listings db),
        proposals := map (\<lambda>p. if gp_state p = Open \<and> owned (gp_listing_id p)
          then p\<lparr>gp_state := Closed, gp_closed_at := Some now\<rparr> else p) (proposals db),
        appeals := map (\<lambda>a. if gap_state a = Appeal_state_pending \<and> (\<exists>d \<in> set (decisions db). gd_id d = gap_decision_id a
            \<and> (\<exists>c \<in> set (cases db). gcase_id c = gd_case_id d \<and> (\<exists>x. gcase_listing_id c = Some x \<and> owned x)))
          then a\<lparr>gap_state := Appeal_state_moot, gap_resolved_at := Some now\<rparr> else a) (appeals db),
        tombstones := tombstones db @ map (\<lambda>l. \<lparr>gt_listing_id = gl_id l, gt_opaque_slug = gl_opaque_slug l,
            gt_was_ever_public = (gl_current_revision_id l \<noteq> None), gt_terminal_lifecycle_state = Withdrawn,
            gt_closure_reason = Account_deleted, gt_source_deleted_at = Some now, gt_permanently_non_restorable_at = Some now\<rparr>)
          (filter (\<lambda>l. gl_owner_user_id l = userId \<and> gl_lifecycle_state l = Withdrawn \<and> gl_closure_reason l = Some Account_deleted)
            (listings db')),
        profiles := map (\<lambda>r. if pr_user_id r = userId
          then r\<lparr>pr_retired_at := (if pr_retired_at r = None then Some now else pr_retired_at r)\<rparr> else r) (profiles db),
        lifecycle_events := lifecycle_events db @ map (\<lambda>l. \<lparr>ge_listing_id = gl_id l,
            ge_from_lifecycle_state = Some (gl_lifecycle_state l), ge_to_lifecycle_state = Withdrawn,
            ge_closure_reason = Some Account_deleted, ge_base_listing_revision = Some (gl_listing_revision l),
            ge_committed_listing_revision = gl_listing_revision l + 1, ge_actor_kind = Actor_system, ge_actor_id = None\<rparr>)
          (filter closing (listings db)),
        account_closures := (if userId \<in> set (account_closures db) then account_closures db else account_closures db @ [userId])\<rparr>
    \<and> (\<forall>l \<in> set (listings db'). gl_owner_user_id l = userId \<longrightarrow> \<not> open_listing l
        \<and> \<not> (gl_lifecycle_state l = Removed \<and> gl_closure_reason l = Some Administrator_removal))
    \<and> (\<forall>p \<in> set (proposals db'). gp_state p = Open \<longrightarrow>
        \<not> (\<exists>l \<in> set (listings db'). gl_id l = gp_listing_id p \<and> gl_owner_user_id l = userId))"
proof -
  have run: "close_account_body now userId db = Inr (db', u)"
    using assms(1) by (simp add: closeAccount_def run_tx_eq_Inr)
  note e = close_account_effect [OF run]
  have closing: "closes_with_account userId = closing"
    by (rule ext) (auto simp: closes_with_account_def open_listing_def closing_def)
  have owned: "owned_listing_id db' userId = owned"
    unfolding owned_listing_id_def e(1) owned_def
    by (rule ext, subst exists_where_update_same) (auto simp: exists_where_iff)
  obtain ls ps as ts rs where frame: "db' = db\<lparr>listings := ls, proposals := ps, appeals := as, tombstones := ts, profiles := rs,
      lifecycle_events := lifecycle_events db @ map account_closed_event (filter (closes_with_account userId) (listings db)),
      account_closures := (if userId \<in> set (account_closures db) then account_closures db else account_closures db @ [userId])\<rparr>"
    using close_account_frame [OF run] by blast
  have same: "decisions db' = decisions db" "cases db' = cases db" unfolding frame by simp_all
  have decided: "owned_decision db' userId d = (\<exists>e \<in> set (decisions db). gd_id e = d
      \<and> (\<exists>c \<in> set (cases db). gcase_id c = gd_case_id e \<and> (\<exists>x. gcase_listing_id c = Some x \<and> owned x)))" for d
    unfolding owned_decision_def owned same exists_where_iff case_option_iff ..
  have retire: "(case pr_retired_at r of None \<Rightarrow> Some now | Some t \<Rightarrow> Some t) = (if pr_retired_at r = None then Some now else pr_retired_at r)"
    for r by (auto split: option.split)
  have ls: "ls = map (\<lambda>l. if closing l then l\<lparr>gl_lifecycle_state := Withdrawn, gl_closure_reason := Some Account_deleted,
          gl_listing_revision := gl_listing_revision l + 1, gl_closed_at := Some now, gl_updated_at := now\<rparr> else l) (listings db)"
    using e(1) unfolding frame update_where_def withdraw_for_account_def closing by simp
  have ps: "ps = map (\<lambda>p. if gp_state p = Open \<and> owned (gp_listing_id p)
          then p\<lparr>gp_state := Closed, gp_closed_at := Some now\<rparr> else p) (proposals db)"
    using e(2) [unfolded owned open_proposal_def update_where_def] unfolding frame by simp
  have as: "as = map (\<lambda>a. if gap_state a = Appeal_state_pending \<and> (\<exists>d \<in> set (decisions db). gd_id d = gap_decision_id a
            \<and> (\<exists>c \<in> set (cases db). gcase_id c = gd_case_id d \<and> (\<exists>x. gcase_listing_id c = Some x \<and> owned x)))
          then a\<lparr>gap_state := Appeal_state_moot, gap_resolved_at := Some now\<rparr> else a) (appeals db)"
    using e(4) [unfolded decided update_where_def] unfolding frame by simp
  have ts: "ts = tombstones db @ map (\<lambda>l. \<lparr>gt_listing_id = gl_id l, gt_opaque_slug = gl_opaque_slug l,
            gt_was_ever_public = (gl_current_revision_id l \<noteq> None), gt_terminal_lifecycle_state = Withdrawn,
            gt_closure_reason = Account_deleted, gt_source_deleted_at = Some now, gt_permanently_non_restorable_at = Some now\<rparr>)
          (filter (\<lambda>l. gl_owner_user_id l = userId \<and> gl_lifecycle_state l = Withdrawn \<and> gl_closure_reason l = Some Account_deleted)
            (listings db'))"
    using e(3) [unfolded account_tombstone_def account_withdrawn_def] unfolding frame by simp
  have rs: "rs = map (\<lambda>r. if pr_user_id r = userId
          then r\<lparr>pr_retired_at := (if pr_retired_at r = None then Some now else pr_retired_at r)\<rparr> else r) (profiles db)"
    using e(5) [unfolded retire update_where_def] unfolding frame by simp
  have "list_all (\<lambda>l. \<not> closes_with_account userId l) (listings db')"
    unfolding e(1) by (rule list_all_update_where) simp
  then have listed: "\<forall>l \<in> set (listings db'). gl_owner_user_id l = userId \<longrightarrow> \<not> open_listing l
        \<and> \<not> (gl_lifecycle_state l = Removed \<and> gl_closure_reason l = Some Administrator_removal)"
    by (auto simp: list_all_iff closes_with_account_def)
  have "list_all (\<lambda>p. open_proposal p \<longrightarrow> \<not> owned_listing_id db' userId (gp_listing_id p)) (proposals db')"
    unfolding e(2) by (rule list_all_update_where) (auto simp: open_proposal_def)
  then have proposed: "\<forall>p \<in> set (proposals db'). gp_state p = Open \<longrightarrow>
        \<not> (\<exists>l \<in> set (listings db'). gl_id l = gp_listing_id p \<and> gl_owner_user_id l = userId)"
    by (auto simp: list_all_iff open_proposal_def owned_listing_id_def exists_where_iff)
  from frame [unfolded ls ps as ts rs closing account_closed_event_def] listed proposed show ?thesis
    by (intro conjI) assumption+
qed

subsection \<open>Closures the schema refuses\<close>

text \<open>
  The account of a published creator cannot be closed. The transaction sets
  \<open>retired_at\<close> and leaves \<open>public_at\<close>, which \<open>gallery_creator_profile_visibility_check\<close>
  forbids: with a public profile \<open>closeAccount\<close> always raises, and it rolls back, so the
  listings stay as public as they were.
\<close>

theorem closeAccount_public_creator_raises:
  assumes "exists_where (\<lambda>r. pr_user_id r = userId \<and> pr_public_at r \<noteq> None) (profiles db)"
  shows "\<exists>e. closeAccount now userId db = (db, Inl e)"
proof -
  have False if run: "close_account_body now userId db = Inr (db', u)" for db' u
  proof -
    from assms obtain r where r: "r \<in> set (profiles db)" "pr_user_id r = userId" "pr_public_at r \<noteq> None"
      by (auto simp: exists_where_iff)
    let ?f = "\<lambda>r. r\<lparr>pr_retired_at := (case pr_retired_at r of None \<Rightarrow> Some now | Some t \<Rightarrow> Some t)\<rparr>"
    have "?f r \<in> set (profiles db')"
      unfolding close_account_effect(5) [OF run] set_update_where using r(1,2) by force
    then have "profile_row_ok (?f r)"
      using close_account_effect(7) [OF run] by (simp add: list_all_iff)
    then show False using r(3) by (auto simp: profile_row_ok_def split: option.splits)
  qed
  then show ?thesis
    unfolding closeAccount_def by (cases "close_account_body now userId db") (auto simp: run_tx_def)
qed

text \<open>
  A listing that an administrator removed and that already has a closure tombstone
  blocks the closure of its owner's account: the \<open>on conflict do update\<close> of the tombstone
  insert meets the immutability trigger, and the transaction raises and rolls back.
\<close>

theorem closeAccount_existing_tombstone_raises:
  assumes "l \<in> set (listings db)" and "closes_with_account userId l"
    and "exists_where (\<lambda>t. gt_listing_id t = gl_id l) (tombstones db)"
  shows "\<exists>e. closeAccount now userId db = (db, Inl e)"
proof -
  have False if run: "close_account_body now userId db = Inr (db', u)" for db' u
  proof -
    have "withdraw_for_account now l \<in> set (listings db')"
      unfolding close_account_effect(1) [OF run] set_update_where using assms(1,2) by force
    moreover have "account_withdrawn userId (withdraw_for_account now l)"
      using assms(2) by (simp add: account_withdrawn_def closes_with_account_def)
    ultimately show False
      using close_account_effect(8) [OF run] assms(3) by (auto simp: list_all_iff account_tombstone_def)
  qed
  then show ?thesis
    unfolding closeAccount_def by (cases "close_account_body now userId db") (auto simp: run_tx_def)
qed

subsection \<open>Witnesses\<close>

lemma example_closes: "\<exists>db'. closeAccount 9 ''u1'' example_resolve_db = (db', Inr ())"
proof -
  have "\<exists>db'. close_account_body 9 ''u1'' example_resolve_db = Inr (db', ())"
    by (simp add: close_account_body_def Let_def example_resolve_db_def example_pending_def example_proposal_def
        closes_with_account_def withdraw_for_account_def open_listing_def update_listings_def check_listings_def
        terminal_projection_check_def committed_projection_check_def listed_revision_check_def
        listings_unique_def unique_on_def update_proposals_def check_proposals_def proposal_row_ok_def
        open_proposal_def proposals_unique_def owned_listing_id_def exists_where_def account_withdrawn_def
        account_tombstone_def insert_tombstone_do_update_def check_tombstones_def tombstones_unique_def
        update_profiles_def profiles_unique_def)
  then show ?thesis by (auto simp: closeAccount_def)
qed

theorem closeAccount_closes_everything_witness:
  "\<exists>db'. closeAccount 9 ''u1'' example_resolve_db = (db', Inr ())
     \<and> (\<forall>l \<in> set (listings db'). gl_owner_user_id l = ''u1'' \<longrightarrow> \<not> open_listing l)"
proof -
  from example_closes obtain db' where "closeAccount 9 ''u1'' example_resolve_db = (db', Inr ())" by blast
  with closeAccount_closes_everything [OF this] show ?thesis by blast
qed

definition example_public_profile :: profile_row where
  "example_public_profile = \<lparr>pr_id = ''p1'', pr_user_id = ''u1'', pr_opaque_slug = ''creator1'',
     pr_display_name = ''Ada'', pr_biography = None, pr_revision = 1, pr_public_at = Some 7, pr_retired_at = None\<rparr>"

theorem closeAccount_public_creator_raises_witness:
  "\<exists>e. closeAccount 9 ''u1'' (example_promoted_db\<lparr>profiles := [example_public_profile]\<rparr>)
     = (example_promoted_db\<lparr>profiles := [example_public_profile]\<rparr>, Inl e)"
  by (rule closeAccount_public_creator_raises) (simp add: exists_where_def example_public_profile_def)

text \<open>The listing of the example after its removal by an administrator.\<close>

definition example_removed :: listing_row where
  "example_removed = (promote_listing ''r1'' 2 7 example_pending)
     \<lparr>gl_lifecycle_state := Removed, gl_closure_reason := Some Administrator_removal,
      gl_listing_revision := 3, gl_closed_at := Some 8\<rparr>"

definition example_removed_db :: gallery_db where
  "example_removed_db = example_promoted_db\<lparr>listings := [example_removed],
     tombstones := [\<lparr>gt_listing_id = ''l1'', gt_opaque_slug = ''slug1'', gt_was_ever_public = True,
       gt_terminal_lifecycle_state = Removed, gt_closure_reason = Administrator_removal,
       gt_source_deleted_at = None, gt_permanently_non_restorable_at = None\<rparr>]\<rparr>"

theorem closeAccount_existing_tombstone_raises_witness:
  "\<exists>e. closeAccount 9 ''u1'' example_removed_db = (example_removed_db, Inl e)"
  by (rule closeAccount_existing_tombstone_raises [of example_removed])
    (simp_all add: example_removed_db_def example_removed_def example_pending_def promote_listing_def
      closes_with_account_def exists_where_def)

end
