(* ===== verification/Quota_Accounting.thy ===== *)
theory Quota_Accounting
  imports Gallery_Tables
begin

text \<open>
  Storage quota of an account, \<open>api/src/application/gallery/quota-accounting.ts\<close> over the
  tables of \<open>db/migrations/0016\<close>: reservations are held, then committed or released, and
  the account row carries the running totals. The lemmas show that the reserved totals are
  the sums of the held reservations in every reachable state, that a granted reservation
  respects the active policy, that a reservation is settled at most once and that
  reconciliation repairs any account. Amounts are mathematical integers: the JavaScript
  numbers of the code are exact below $2^{53}$, far above the limits of the policies.
\<close>

record policy_row =
  qp_revision :: js_string
  qp_artifact_limit :: int
  qp_storage_bytes_limit :: int
  qp_copy_rate_limit :: int
  qp_copy_rate_window_seconds :: int
  qp_active :: bool

record account_row =
  qa_user_id :: js_string
  qa_policy_revision :: js_string
  qa_artifact_usage :: int
  qa_storage_usage :: int
  qa_artifact_reserved :: int
  qa_storage_reserved :: int
  qa_revision :: int

record reservation_row =
  qr_id :: js_string
  qr_user_id :: js_string
  qr_policy_revision :: js_string
  qr_artifact_count :: int
  qr_storage_bytes :: int
  qr_state :: QuotaState
  qr_expires_at :: time
  qr_committed_at :: "time option"
  qr_released_at :: "time option"

text \<open>The columns of the artifact tables that the usage of an account is counted from.\<close>

record artifact_row =
  ar_id :: js_string
  ar_owner_user_id :: js_string

record bundle_row =
  cb_id :: js_string
  cb_owner_user_id :: js_string
  cb_ready :: bool

record manifest_row =
  cm_bundle_id :: js_string
  cm_total_size_bytes :: int

record quota_db = gallery_db +
  quota_policies :: "policy_row list"
  quota_accounts :: "account_row list"
  quota_reservations :: "reservation_row list"
  artifacts :: "artifact_row list"
  bundles :: "bundle_row list"
  manifests :: "manifest_row list"

subsection \<open>Constraints and statements\<close>

definition account_row_ok :: "account_row \<Rightarrow> bool" where
  "account_row_ok a \<longleftrightarrow>
     0 \<le> qa_artifact_usage a \<and> 0 \<le> qa_storage_usage a
     \<and> 0 \<le> qa_artifact_reserved a \<and> 0 \<le> qa_storage_reserved a \<and> 0 < qa_revision a"

definition reservation_row_ok :: "reservation_row \<Rightarrow> bool" where
  "reservation_row_ok r \<longleftrightarrow>
     0 < qr_artifact_count r \<and> 0 \<le> qr_storage_bytes r \<and>
     (case qr_state r of
        Held \<Rightarrow> qr_committed_at r = None \<and> qr_released_at r = None
      | Committed \<Rightarrow> qr_committed_at r \<noteq> None \<and> qr_released_at r = None
      | Released \<Rightarrow> qr_committed_at r = None \<and> qr_released_at r \<noteq> None)"

definition policy_row_ok :: "policy_row \<Rightarrow> bool" where
  "policy_row_ok p \<longleftrightarrow>
     0 < qp_artifact_limit p \<and> 0 < qp_storage_bytes_limit p
     \<and> 0 < qp_copy_rate_limit p \<and> 0 < qp_copy_rate_window_seconds p"

definition quota_tables_ok :: "'x quota_db_scheme \<Rightarrow> bool" where
  "quota_tables_ok db \<longleftrightarrow>
     list_all account_row_ok (quota_accounts db) \<and> unique_on (\<lambda>_. True) qa_user_id (quota_accounts db)
     \<and> list_all reservation_row_ok (quota_reservations db)
     \<and> unique_on (\<lambda>_. True) qr_id (quota_reservations db)"

definition update_accounts ::
  "(account_row \<Rightarrow> bool) \<Rightarrow> (account_row \<Rightarrow> account_row) \<Rightarrow> 'x quota_db_scheme
    \<Rightarrow> tx_error + 'x quota_db_scheme" where
  "update_accounts p f db =
     bindR (checked (list_all account_row_ok)
             (Check_violation ''artifact_storage_quota_account'') (update_where p f (quota_accounts db)))
       (\<lambda>t. Inr (db\<lparr>quota_accounts := t\<rparr>))"

definition ensure_account :: "js_string \<Rightarrow> js_string \<Rightarrow> 'x quota_db_scheme \<Rightarrow> 'x quota_db_scheme" where
  "ensure_account userId policyRevision db =
     (if exists_where (\<lambda>a. qa_user_id a = userId) (quota_accounts db) then db
      else db\<lparr>quota_accounts := quota_accounts db @
        [\<lparr>qa_user_id = userId, qa_policy_revision = policyRevision, qa_artifact_usage = 0,
          qa_storage_usage = 0, qa_artifact_reserved = 0, qa_storage_reserved = 0, qa_revision = 1\<rparr>]\<rparr>)"

definition insert_reservation ::
  "reservation_row \<Rightarrow> 'x quota_db_scheme \<Rightarrow> tx_error + 'x quota_db_scheme" where
  "insert_reservation r db =
     (if \<not> reservation_row_ok r then Inl (Check_violation ''artifact_storage_quota_reservation'')
      else if exists_where (\<lambda>q. qr_id q = qr_id r) (quota_reservations db)
        then Inl (Unique_violation ''artifact_storage_quota_reservation_pkey'')
      else Inr (db\<lparr>quota_reservations := quota_reservations db @ [r]\<rparr>))"

definition update_reservations ::
  "(reservation_row \<Rightarrow> bool) \<Rightarrow> (reservation_row \<Rightarrow> reservation_row) \<Rightarrow> 'x quota_db_scheme
    \<Rightarrow> tx_error + 'x quota_db_scheme" where
  "update_reservations p f db =
     bindR (checked (list_all reservation_row_ok)
             (Check_violation ''artifact_storage_quota_reservation_state_projection_check'')
             (update_where p f (quota_reservations db)))
       (\<lambda>t. Inr (db\<lparr>quota_reservations := t\<rparr>))"

subsection \<open>The operations\<close>

record QuotaPolicy =
  pol_revision :: js_string
  pol_artifactLimit :: int
  pol_storageBytesLimit :: int
  pol_copyRateLimit :: int
  pol_copyRateWindowSeconds :: int

datatype QuotaReservationResult =
    Reserved js_string QuotaPolicy
  | Insufficient_artifacts QuotaPolicy
  | Insufficient_storage QuotaPolicy

record reserve_input =
  ri_reservationId :: js_string
  ri_userId :: js_string
  ri_artifactCount :: int
  ri_storageBytes :: int
  ri_expiresAt :: time

definition policy_of_row :: "policy_row \<Rightarrow> QuotaPolicy" where
  "policy_of_row r =
     \<lparr>pol_revision = qp_revision r, pol_artifactLimit = qp_artifact_limit r,
      pol_storageBytesLimit = qp_storage_bytes_limit r, pol_copyRateLimit = qp_copy_rate_limit r,
      pol_copyRateWindowSeconds = qp_copy_rate_window_seconds r\<rparr>"

definition currentPolicy :: "'x quota_db_scheme \<Rightarrow> tx_error + QuotaPolicy" where
  "currentPolicy db =
     (case filter qp_active (quota_policies db) of
        [row] \<Rightarrow> Inr (policy_of_row row)
      | _ \<Rightarrow> Inl (Thrown ''artifact_storage_quota_policy_unavailable''))"

definition add_reserved :: "int \<Rightarrow> int \<Rightarrow> account_row \<Rightarrow> account_row" where
  "add_reserved n b a =
     a\<lparr>qa_artifact_reserved := qa_artifact_reserved a + n,
       qa_storage_reserved := qa_storage_reserved a + b, qa_revision := qa_revision a + 1\<rparr>"

definition held_reservation :: "js_string \<Rightarrow> js_string \<Rightarrow> js_string \<Rightarrow> int \<Rightarrow> int \<Rightarrow> time \<Rightarrow> reservation_row" where
  "held_reservation rid userId policyRevision n b expires =
     \<lparr>qr_id = rid, qr_user_id = userId, qr_policy_revision = policyRevision, qr_artifact_count = n,
      qr_storage_bytes = b, qr_state = Held, qr_expires_at = expires,
      qr_committed_at = None, qr_released_at = None\<rparr>"

definition reserve_body ::
  "reserve_input \<Rightarrow> 'x quota_db_scheme \<Rightarrow> tx_error + 'x quota_db_scheme \<times> QuotaReservationResult" where
  "reserve_body input db =
     bindR (currentPolicy db) (\<lambda>policy.
     let db = ensure_account (ri_userId input) (pol_revision policy) db in
     bindR (fromOption (Thrown ''undefined account'')
             (row_where (\<lambda>a. qa_user_id a = ri_userId input) (quota_accounts db))) (\<lambda>account.
     if qa_artifact_usage account + qa_artifact_reserved account + ri_artifactCount input
         > pol_artifactLimit policy then Inr (db, Insufficient_artifacts policy)
     else if qa_storage_usage account + qa_storage_reserved account + ri_storageBytes input
         > pol_storageBytesLimit policy then Inr (db, Insufficient_storage policy)
     else
       bindR (insert_reservation (held_reservation (ri_reservationId input) (ri_userId input)
               (pol_revision policy) (ri_artifactCount input) (ri_storageBytes input)
               (ri_expiresAt input)) db) (\<lambda>db.
       bindR (update_accounts (\<lambda>a. qa_user_id a = ri_userId input)
               (add_reserved (ri_artifactCount input) (ri_storageBytes input)) db) (\<lambda>db.
       Inr (db, Reserved (ri_reservationId input) policy)))))"

definition settle_reservation :: "time \<Rightarrow> QuotaState \<Rightarrow> reservation_row \<Rightarrow> reservation_row" where
  "settle_reservation now st r =
     r\<lparr>qr_state := st, qr_committed_at := (if st = Committed then Some now else None),
       qr_released_at := (if st = Released then Some now else None)\<rparr>"

definition settle_account :: "QuotaState \<Rightarrow> int \<Rightarrow> int \<Rightarrow> account_row \<Rightarrow> account_row" where
  "settle_account st n b a =
     a\<lparr>qa_artifact_reserved := qa_artifact_reserved a - n,
       qa_storage_reserved := qa_storage_reserved a - b,
       qa_artifact_usage := qa_artifact_usage a + (if st = Committed then n else 0),
       qa_storage_usage := qa_storage_usage a + (if st = Committed then b else 0),
       qa_revision := qa_revision a + 1\<rparr>"

definition finish_body ::
  "time \<Rightarrow> js_string \<Rightarrow> QuotaState \<Rightarrow> 'x quota_db_scheme \<Rightarrow> tx_error + 'x quota_db_scheme \<times> bool" where
  "finish_body now rid st db =
     (case row_where (\<lambda>r. qr_id r = rid) (quota_reservations db) of
        None \<Rightarrow> Inr (db, False)
      | Some r \<Rightarrow>
          if qr_state r \<noteq> Held then Inr (db, False)
          else
            bindR (update_reservations (\<lambda>r. qr_id r = rid) (settle_reservation now st) db) (\<lambda>db.
            bindR (update_accounts (\<lambda>a. qa_user_id a = qr_user_id r)
                    (settle_account st (qr_artifact_count r) (qr_storage_bytes r)) db) (\<lambda>db.
            Inr (db, True))))"

definition held_of :: "js_string \<Rightarrow> (reservation_row \<Rightarrow> int) \<Rightarrow> reservation_row list \<Rightarrow> int" where
  "held_of userId f t = sum_where (\<lambda>r. qr_user_id r = userId \<and> qr_state r = Held) f t"

definition artifact_usage_of :: "js_string \<Rightarrow> 'x quota_db_scheme \<Rightarrow> int" where
  "artifact_usage_of userId db = sum_where (\<lambda>a. ar_owner_user_id a = userId) (\<lambda>_. 1) (artifacts db)"

definition storage_usage_of :: "js_string \<Rightarrow> 'x quota_db_scheme \<Rightarrow> int" where
  "storage_usage_of userId db =
     sum_list (map (\<lambda>b. sum_where (\<lambda>m. cm_bundle_id m = cb_id b) cm_total_size_bytes (manifests db))
       (filter (\<lambda>b. cb_owner_user_id b = userId \<and> cb_ready b) (bundles db)))"

definition counted_account :: "js_string \<Rightarrow> js_string \<Rightarrow> 'x quota_db_scheme \<Rightarrow> int \<Rightarrow> account_row" where
  "counted_account userId policyRevision db revision =
     \<lparr>qa_user_id = userId, qa_policy_revision = policyRevision,
      qa_artifact_usage = artifact_usage_of userId db, qa_storage_usage = storage_usage_of userId db,
      qa_artifact_reserved = held_of userId qr_artifact_count (quota_reservations db),
      qa_storage_reserved = held_of userId qr_storage_bytes (quota_reservations db),
      qa_revision = revision\<rparr>"

definition reconcile_body ::
  "js_string \<Rightarrow> 'x quota_db_scheme \<Rightarrow> tx_error + 'x quota_db_scheme \<times> unit" where
  "reconcile_body userId db =
     bindR (currentPolicy db) (\<lambda>policy.
     bindR (if exists_where (\<lambda>a. qa_user_id a = userId) (quota_accounts db)
            then update_accounts (\<lambda>a. qa_user_id a = userId)
                   (\<lambda>a. counted_account userId (pol_revision policy) db (qa_revision a + 1)) db
            else bindR (checked (list_all account_row_ok) (Check_violation ''artifact_storage_quota_account'')
                     (quota_accounts db @ [counted_account userId (pol_revision policy) db 1]))
                   (\<lambda>t. Inr (db\<lparr>quota_accounts := t\<rparr>))) (\<lambda>db.
     Inr (db, ())))"

definition activate_policy_body ::
  "QuotaPolicy \<Rightarrow> 'x quota_db_scheme \<Rightarrow> tx_error + 'x quota_db_scheme \<times> unit" where
  "activate_policy_body policy db =
     (let t = update_where qp_active (\<lambda>p. p\<lparr>qp_active := False\<rparr>) (quota_policies db);
          r = \<lparr>qp_revision = pol_revision policy, qp_artifact_limit = pol_artifactLimit policy,
               qp_storage_bytes_limit = pol_storageBytesLimit policy,
               qp_copy_rate_limit = pol_copyRateLimit policy,
               qp_copy_rate_window_seconds = pol_copyRateWindowSeconds policy, qp_active = True\<rparr>
      in if \<not> policy_row_ok r then Inl (Check_violation ''artifact_storage_quota_policy'')
         else if exists_where (\<lambda>p. qp_revision p = qp_revision r) t
           then Inl (Unique_violation ''artifact_storage_quota_policy_pkey'')
         else Inr (db\<lparr>quota_policies := t @ [r]\<rparr>, ()))"

definition reserve where "reserve input = run_tx (reserve_body input)"
definition finish where "finish now rid st = run_tx (finish_body now rid st)"
definition commit where "commit now rid = finish now rid Committed"
definition release where "release now rid = finish now rid Released"
definition reconcile where "reconcile userId = run_tx (reconcile_body userId)"
definition activatePolicy where "activatePolicy policy = run_tx (activate_policy_body policy)"

subsection \<open>Conservation\<close>

text \<open>
  The reserved totals of every account are the sums of its held reservations, and every
  held reservation has an account to be settled against.
\<close>

definition conserved :: "account_row list \<Rightarrow> reservation_row list \<Rightarrow> bool" where
  "conserved as rs \<longleftrightarrow>
     list_all (\<lambda>a. qa_artifact_reserved a = held_of (qa_user_id a) qr_artifact_count rs
                 \<and> qa_storage_reserved a = held_of (qa_user_id a) qr_storage_bytes rs) as
     \<and> list_all (\<lambda>r. qr_state r = Held \<longrightarrow> exists_where (\<lambda>a. qa_user_id a = qr_user_id r) as) rs"

definition quota_ok :: "'x quota_db_scheme \<Rightarrow> bool" where
  "quota_ok db \<longleftrightarrow> quota_tables_ok db \<and> conserved (quota_accounts db) (quota_reservations db)"

lemma held_of_append [simp]:
  "held_of u f (rs @ [r]) = held_of u f rs + (if qr_user_id r = u \<and> qr_state r = Held then f r else 0)"
  by (simp add: held_of_def)

lemma held_of_settle:
  assumes "unique_on (\<lambda>_. True) qr_id rs" and "row_where (\<lambda>r. qr_id r = rid) rs = Some r"
    and "qr_state r = Held" and "st \<noteq> Held"
  shows "held_of u f (update_where (\<lambda>r. qr_id r = rid) (settle_reservation now st) rs)
    = held_of u f rs - (if qr_user_id r = u then f r else 0)"
  unfolding held_of_def
  by (subst sum_where_update_one [where k = qr_id and r = r])
    (use assms in \<open>simp_all add: unique_on_def settle_reservation_def\<close>)

lemma held_of_absent:
  assumes "conserved as rs" and "\<not> exists_where (\<lambda>a. qa_user_id a = u) as"
  shows "held_of u f rs = 0"
proof -
  have "\<not> (qr_user_id r = u \<and> qr_state r = Held)" if "r \<in> set rs" for r
    using assms that by (auto simp: conserved_def list_all_iff)
  then show ?thesis
    unfolding held_of_def by (induction rs) auto
qed

lemma exists_account_update [simp]:
  assumes "\<And>a. p a \<Longrightarrow> qa_user_id (f a) = qa_user_id a"
  shows "exists_where (\<lambda>a. qa_user_id a = u) (update_where p f as) = exists_where (\<lambda>a. qa_user_id a = u) as"
  by (induction as) (auto simp: exists_where_def assms)

lemma conserved_ensure:
  assumes "conserved as rs" and "\<not> exists_where (\<lambda>a. qa_user_id a = qa_user_id n) as"
    and "qa_artifact_reserved n = held_of (qa_user_id n) qr_artifact_count rs"
    and "qa_storage_reserved n = held_of (qa_user_id n) qr_storage_bytes rs"
  shows "conserved (as @ [n]) rs"
  using assms by (auto simp: conserved_def list_all_iff exists_where_iff)

lemma conserved_reserve:
  assumes "conserved as rs" and "exists_where (\<lambda>a. qa_user_id a = u) as"
    and r: "r = held_reservation rid u pr n b e"
  shows "conserved (update_where (\<lambda>a. qa_user_id a = u) (add_reserved n b) as) (rs @ [r])"
proof -
  have keep: "qa_user_id (add_reserved n b a) = qa_user_id a" for a by (simp add: add_reserved_def)
  show ?thesis
    unfolding conserved_def exists_account_update [OF keep]
  proof (intro conjI list_all_update_where)
    fix a assume "a \<in> set as"
    with assms(1) have a: "qa_artifact_reserved a = held_of (qa_user_id a) qr_artifact_count rs"
      "qa_storage_reserved a = held_of (qa_user_id a) qr_storage_bytes rs"
      by (simp_all add: conserved_def list_all_iff)
    let ?a = "if qa_user_id a = u then add_reserved n b a else a"
    show "qa_artifact_reserved ?a = held_of (qa_user_id ?a) qr_artifact_count (rs @ [r])"
      "qa_storage_reserved ?a = held_of (qa_user_id ?a) qr_storage_bytes (rs @ [r])"
      by (simp_all add: a r held_reservation_def add_reserved_def)
  qed (use assms in \<open>auto simp: conserved_def list_all_iff held_reservation_def\<close>)
qed

lemma conserved_settle:
  assumes cons: "conserved as rs" and uniq: "unique_on (\<lambda>_. True) qr_id rs"
    and r: "row_where (\<lambda>r. qr_id r = rid) rs = Some r" "qr_state r = Held" and st: "st \<noteq> Held"
  shows "conserved (update_where (\<lambda>a. qa_user_id a = qr_user_id r)
        (settle_account st (qr_artifact_count r) (qr_storage_bytes r)) as)
      (update_where (\<lambda>r. qr_id r = rid) (settle_reservation now st) rs)"
proof -
  let ?g = "settle_account st (qr_artifact_count r) (qr_storage_bytes r)"
  have keep: "qa_user_id (?g a) = qa_user_id a" for a by (simp add: settle_account_def)
  note h = held_of_settle [OF uniq r st]
  show ?thesis
    unfolding conserved_def exists_account_update [OF keep]
  proof (intro conjI list_all_update_where)
    fix a assume "a \<in> set as"
    with cons have a: "qa_artifact_reserved a = held_of (qa_user_id a) qr_artifact_count rs"
      "qa_storage_reserved a = held_of (qa_user_id a) qr_storage_bytes rs"
      by (simp_all add: conserved_def list_all_iff)
    let ?a = "if qa_user_id a = qr_user_id r then ?g a else a"
    let ?rs = "update_where (\<lambda>r. qr_id r = rid) (settle_reservation now st) rs"
    show "qa_artifact_reserved ?a = held_of (qa_user_id ?a) qr_artifact_count ?rs"
      "qa_storage_reserved ?a = held_of (qa_user_id ?a) qr_storage_bytes ?rs"
      by (simp_all add: a h settle_account_def)
  qed (use cons st in \<open>auto simp: conserved_def list_all_iff settle_reservation_def\<close>)
qed

lemma ensure_account_ok: "quota_ok db \<Longrightarrow> quota_ok (ensure_account u pr db)"
proof (cases "exists_where (\<lambda>a. qa_user_id a = u) (quota_accounts db)")
  case False
  assume ok: "quota_ok db"
  let ?n = "\<lparr>qa_user_id = u, qa_policy_revision = pr, qa_artifact_usage = 0,
    qa_storage_usage = 0, qa_artifact_reserved = 0, qa_storage_reserved = 0, qa_revision = 1\<rparr>"
  from ok have cons: "conserved (quota_accounts db) (quota_reservations db)" by (simp add: quota_ok_def)
  have "conserved (quota_accounts db @ [?n]) (quota_reservations db)"
    by (rule conserved_ensure [OF cons]) (use False held_of_absent [OF cons False] in simp_all)
  then show ?thesis
    using ok False
    by (auto simp: quota_ok_def quota_tables_ok_def ensure_account_def unique_on_append1 account_row_ok_def
        exists_where_iff)
qed (simp add: ensure_account_def)

lemma ensure_account_exists: "exists_where (\<lambda>a. qa_user_id a = u) (quota_accounts (ensure_account u pr db))"
  by (simp add: ensure_account_def exists_where_iff)

lemma ensure_account_frame [simp]:
  "quota_reservations (ensure_account u pr db) = quota_reservations db"
  "quota_policies (ensure_account u pr db) = quota_policies db"
  by (simp_all add: ensure_account_def)

lemma update_accounts_Inr:
  "update_accounts p f db = Inr db' \<longleftrightarrow>
     db' = db\<lparr>quota_accounts := update_where p f (quota_accounts db)\<rparr>
     \<and> list_all account_row_ok (update_where p f (quota_accounts db))"
  by (auto simp: update_accounts_def bindR_eq_Inr)

lemma insert_reservation_Inr:
  "insert_reservation r db = Inr db' \<longleftrightarrow>
     db' = db\<lparr>quota_reservations := quota_reservations db @ [r]\<rparr> \<and> reservation_row_ok r
     \<and> \<not> exists_where (\<lambda>q. qr_id q = qr_id r) (quota_reservations db)"
  by (auto simp: insert_reservation_def)

lemma update_reservations_Inr:
  "update_reservations p f db = Inr db' \<longleftrightarrow>
     db' = db\<lparr>quota_reservations := update_where p f (quota_reservations db)\<rparr>
     \<and> list_all reservation_row_ok (update_where p f (quota_reservations db))"
  by (auto simp: update_reservations_def bindR_eq_Inr)

text \<open>Granting a reservation: the common effect of \<open>reserve\<close> and of accepting a copy.\<close>

lemma grant_keeps_quota_ok:
  assumes ok: "quota_ok db" and acc: "exists_where (\<lambda>a. qa_user_id a = u) (quota_accounts db)"
    and ins: "insert_reservation (held_reservation rid u pr n b e) db = Inr db1"
    and upd: "update_accounts (\<lambda>a. qa_user_id a = u) (add_reserved n b) db1 = Inr db2"
  shows "quota_ok db2"
proof -
  have keep: "qa_user_id (add_reserved n b a) = qa_user_id a" for a by (simp add: add_reserved_def)
  have "unique_on (\<lambda>_. True) qa_user_id (update_where (\<lambda>a. qa_user_id a = u) (add_reserved n b) (quota_accounts db))"
    using ok by (intro unique_on_update_shrink) (simp_all add: quota_ok_def quota_tables_ok_def keep)
  then show ?thesis
    using ok acc ins upd conserved_reserve [OF _ acc refl]
    by (auto simp: quota_ok_def quota_tables_ok_def insert_reservation_Inr update_accounts_Inr
        unique_on_append1 exists_where_iff)
qed

lemma reserve_body_keeps: "reserve_body input db = Inr (db', res) \<Longrightarrow> quota_ok db \<Longrightarrow> quota_ok db'"
  by (auto simp: reserve_body_def bindR_eq_Inr Let_def ensure_account_ok split: if_splits
      intro: grant_keeps_quota_ok [OF ensure_account_ok ensure_account_exists])

lemma settle_account_keep [simp]: "qa_user_id (settle_account st n b a) = qa_user_id a"
  by (simp add: settle_account_def)

lemma finish_body_keeps:
  assumes run: "finish_body now rid st db = Inr (db', res)" and ok: "quota_ok db" and st: "st \<noteq> Held"
  shows "quota_ok db'"
proof (cases "\<exists>r. row_where (\<lambda>r. qr_id r = rid) (quota_reservations db) = Some r \<and> qr_state r = Held")
  case False
  then show ?thesis using run ok by (auto simp: finish_body_def split: option.splits if_splits)
next
  case True
  then obtain r where r: "row_where (\<lambda>r. qr_id r = rid) (quota_reservations db) = Some r" "qr_state r = Held"
    by blast
  let ?as = "update_where (\<lambda>a. qa_user_id a = qr_user_id r)
      (settle_account st (qr_artifact_count r) (qr_storage_bytes r)) (quota_accounts db)"
  let ?rs = "update_where (\<lambda>r. qr_id r = rid) (settle_reservation now st) (quota_reservations db)"
  from ok have t: "unique_on (\<lambda>_. True) qa_user_id (quota_accounts db)"
    "unique_on (\<lambda>_. True) qr_id (quota_reservations db)" "conserved (quota_accounts db) (quota_reservations db)"
    by (simp_all add: quota_ok_def quota_tables_ok_def)
  have "unique_on (\<lambda>_. True) qa_user_id ?as" "unique_on (\<lambda>_. True) qr_id ?rs"
    by (rule unique_on_update_shrink [OF t(1)], simp)
      (rule unique_on_update_shrink [OF t(2)], simp add: settle_reservation_def)
  moreover have "conserved ?as ?rs" by (rule conserved_settle [OF t(3,2) r st])
  moreover have "list_all account_row_ok ?as" "list_all reservation_row_ok ?rs"
    "quota_accounts db' = ?as" "quota_reservations db' = ?rs"
    using run r by (auto simp: finish_body_def bindR_eq_Inr update_accounts_Inr update_reservations_Inr)
  ultimately show ?thesis by (simp add: quota_ok_def quota_tables_ok_def)
qed

lemma counted_account_simps [simp]:
  "qa_user_id (counted_account u pr db n) = u"
  "qa_artifact_reserved (counted_account u pr db n) = held_of u qr_artifact_count (quota_reservations db)"
  "qa_storage_reserved (counted_account u pr db n) = held_of u qr_storage_bytes (quota_reservations db)"
  by (simp_all add: counted_account_def)

lemma reconcile_body_keeps:
  assumes run: "reconcile_body u db = Inr (db', x)" and ok: "quota_ok db"
  shows "quota_ok db'"
proof -
  obtain policy where p: "currentPolicy db = Inr policy" using run by (auto simp: reconcile_body_def bindR_eq_Inr)
  let ?f = "\<lambda>a. counted_account u (pol_revision policy) db (qa_revision a + 1)"
  from ok have t: "unique_on (\<lambda>_. True) qa_user_id (quota_accounts db)"
    "conserved (quota_accounts db) (quota_reservations db)"
    by (simp_all add: quota_ok_def quota_tables_ok_def)
  show ?thesis
  proof (cases "exists_where (\<lambda>a. qa_user_id a = u) (quota_accounts db)")
    case True
    let ?as = "update_where (\<lambda>a. qa_user_id a = u) ?f (quota_accounts db)"
    have "unique_on (\<lambda>_. True) qa_user_id ?as" by (rule unique_on_update_shrink [OF t(1)]) simp
    moreover have "conserved ?as (quota_reservations db)"
    proof -
      have ex: "exists_where (\<lambda>a. qa_user_id a = v) ?as = exists_where (\<lambda>a. qa_user_id a = v) (quota_accounts db)" for v
        by (rule exists_account_update) simp
      show ?thesis
        unfolding conserved_def ex
        by (intro conjI list_all_update_where) (use t(2) in \<open>auto simp: conserved_def list_all_iff\<close>)
    qed
    moreover have "list_all account_row_ok ?as" "db' = db\<lparr>quota_accounts := ?as\<rparr>"
      using run p True by (auto simp: reconcile_body_def bindR_eq_Inr update_accounts_Inr)
    ultimately show ?thesis using ok by (simp add: quota_ok_def quota_tables_ok_def)
  next
    case False
    let ?n = "counted_account u (pol_revision policy) db 1"
    have "conserved (quota_accounts db @ [?n]) (quota_reservations db)"
      by (rule conserved_ensure [OF t(2)]) (use False in simp_all)
    moreover have "unique_on (\<lambda>_. True) qa_user_id (quota_accounts db @ [?n])"
      using t(1) False by (auto simp: unique_on_append1 exists_where_iff)
    moreover have "list_all account_row_ok (quota_accounts db @ [?n])"
      "db' = db\<lparr>quota_accounts := quota_accounts db @ [?n]\<rparr>"
      using run p False by (auto simp: reconcile_body_def bindR_eq_Inr)
    ultimately show ?thesis using ok by (simp add: quota_ok_def quota_tables_ok_def)
  qed
qed

lemma activate_policy_body_keeps:
  "activate_policy_body policy db = Inr (db', x) \<Longrightarrow> quota_ok db \<Longrightarrow> quota_ok db'"
  by (auto simp: activate_policy_body_def Let_def quota_ok_def quota_tables_ok_def split: if_splits)

subsection \<open>Runs\<close>

inductive quota_step :: "'x quota_db_scheme \<Rightarrow> 'x quota_db_scheme \<Rightarrow> bool" where
  step_reserve: "reserve input db = (db', res) \<Longrightarrow> quota_step db db'"
| step_commit: "commit now rid db = (db', b) \<Longrightarrow> quota_step db db'"
| step_release: "release now rid db = (db', b) \<Longrightarrow> quota_step db db'"
| step_reconcile: "reconcile userId db = (db', u) \<Longrightarrow> quota_step db db'"
| step_activate: "activatePolicy policy db = (db', u) \<Longrightarrow> quota_step db db'"

inductive_cases quota_step_elim: "quota_step db db'"

lemmas quota_operation_defs =
  reserve_def commit_def release_def finish_def reconcile_def activatePolicy_def

lemma run_tx_keeps:
  assumes "run_tx work db = (db', res)" and "P db" and "\<And>db' x. work db = Inr (db', x) \<Longrightarrow> P db'"
  shows "P db'"
  using assms by (cases "work db") (auto simp: run_tx_def)

lemma quota_step_ok: "quota_step db db' \<Longrightarrow> quota_ok db \<Longrightarrow> quota_ok db'"
  by (elim quota_step_elim; unfold quota_operation_defs; erule run_tx_keeps)
    (auto intro: reserve_body_keeps finish_body_keeps reconcile_body_keeps activate_policy_body_keeps)

text \<open>
  C4: quota is conserved. From a consistent state, whatever reservations, commits,
  releases, reconciliations and policy activations run in whatever order, the reserved
  totals of every account remain the sums of its held reservations, no total is negative
  and account and reservation keys stay unique.
\<close>

theorem quota_conserved_along_runs:
  assumes "quota_step\<^sup>*\<^sup>* db db'" and "quota_ok db"
  shows "quota_ok db'"
  using assms by (induction rule: rtranclp_induct) (auto intro: quota_step_ok)

subsection \<open>What the operations return\<close>

lemma row_where_account_update:
  assumes "\<And>a. qa_user_id (f a) = qa_user_id a"
  shows "row_where (\<lambda>a. qa_user_id a = u) (update_where (\<lambda>a. qa_user_id a = u) f t)
    = map_option f (row_where (\<lambda>a. qa_user_id a = u) t)"
  using assms by (rule row_where_update_same)

text \<open>
  C27: a reservation is granted exactly when it fits the active policy. When \<open>reserve\<close>
  grants, the account of the user afterwards has usage plus reserved within both limits and
  the only new reservation is the held one asked for; when it refuses, no reservation was
  made and the named limit would have been exceeded.
\<close>

theorem reserve_respects_policy:
  assumes "reserve input db = (db', Inr res)"
  shows "\<exists>policy a. currentPolicy db = Inr policy
    \<and> row_where (\<lambda>a. qa_user_id a = ri_userId input) (quota_accounts db') = Some a
    \<and> (case res of
        Reserved rid p \<Rightarrow> rid = ri_reservationId input \<and> p = policy
          \<and> qa_artifact_usage a + qa_artifact_reserved a \<le> pol_artifactLimit policy
          \<and> qa_storage_usage a + qa_storage_reserved a \<le> pol_storageBytesLimit policy
          \<and> quota_reservations db' = quota_reservations db @
              [held_reservation rid (ri_userId input) (pol_revision policy) (ri_artifactCount input)
                 (ri_storageBytes input) (ri_expiresAt input)]
      | Insufficient_artifacts p \<Rightarrow> p = policy \<and> quota_reservations db' = quota_reservations db
          \<and> pol_artifactLimit policy < qa_artifact_usage a + qa_artifact_reserved a + ri_artifactCount input
      | Insufficient_storage p \<Rightarrow> p = policy \<and> quota_reservations db' = quota_reservations db
          \<and> pol_storageBytesLimit policy < qa_storage_usage a + qa_storage_reserved a + ri_storageBytes input)"
proof -
  let ?u = "ri_userId input"
  have "reserve_body input db = Inr (db', res)" using assms by (simp add: reserve_def run_tx_eq_Inr)
  then obtain policy a0 where p: "currentPolicy db = Inr policy"
    and a0: "row_where (\<lambda>a. qa_user_id a = ?u) (quota_accounts (ensure_account ?u (pol_revision policy) db)) = Some a0"
    and rest: "(if qa_artifact_usage a0 + qa_artifact_reserved a0 + ri_artifactCount input > pol_artifactLimit policy
        then Inr (ensure_account ?u (pol_revision policy) db, Insufficient_artifacts policy)
      else if qa_storage_usage a0 + qa_storage_reserved a0 + ri_storageBytes input > pol_storageBytesLimit policy
        then Inr (ensure_account ?u (pol_revision policy) db, Insufficient_storage policy)
      else bindR (insert_reservation (held_reservation (ri_reservationId input) ?u
               (pol_revision policy) (ri_artifactCount input) (ri_storageBytes input)
               (ri_expiresAt input)) (ensure_account ?u (pol_revision policy) db)) (\<lambda>db.
       bindR (update_accounts (\<lambda>a. qa_user_id a = ?u)
               (add_reserved (ri_artifactCount input) (ri_storageBytes input)) db) (\<lambda>db.
       Inr (db, Reserved (ri_reservationId input) policy)))) = (Inr (db', res) :: tx_error + _)"
    by (auto simp: reserve_body_def bindR_eq_Inr Let_def)
  have keep: "qa_user_id (add_reserved n b a) = qa_user_id a" for n b a by (simp add: add_reserved_def)
  have row: "row_where (\<lambda>a. qa_user_id a = ?u) (update_where (\<lambda>a. qa_user_id a = ?u) (add_reserved n b)
      (quota_accounts (ensure_account ?u (pol_revision policy) db))) = Some (add_reserved n b a0)" for n b
    by (subst row_where_account_update [OF keep]) (simp add: a0)
  have sums: "qa_artifact_usage (add_reserved n b a) = qa_artifact_usage a"
    "qa_storage_usage (add_reserved n b a) = qa_storage_usage a"
    "qa_artifact_reserved (add_reserved n b a) = qa_artifact_reserved a + n"
    "qa_storage_reserved (add_reserved n b a) = qa_storage_reserved a + b" for n b a
    by (simp_all add: add_reserved_def)
  show ?thesis
    using rest a0 p
    by (auto simp: bindR_eq_Inr insert_reservation_Inr update_accounts_Inr row sums split: if_splits)
qed

lemma finish_settles_body:
  assumes ok: "quota_ok db" and st: "st \<noteq> Held"
    and r: "row_where (\<lambda>r. qr_id r = rid) (quota_reservations db) = Some r" "qr_state r = Held"
  shows "finish_body now rid st db = Inr (db\<lparr>
      quota_reservations := update_where (\<lambda>r. qr_id r = rid) (settle_reservation now st) (quota_reservations db),
      quota_accounts := update_where (\<lambda>a. qa_user_id a = qr_user_id r)
        (settle_account st (qr_artifact_count r) (qr_storage_bytes r)) (quota_accounts db)\<rparr>, True)"
proof -
  let ?g = "settle_account st (qr_artifact_count r) (qr_storage_bytes r)"
  from ok have t: "list_all account_row_ok (quota_accounts db)" "list_all reservation_row_ok (quota_reservations db)"
    "conserved (quota_accounts db) (quota_reservations db)"
    by (simp_all add: quota_ok_def quota_tables_ok_def)
  have rin: "r \<in> set (quota_reservations db)" using row_where_Some [OF r(1)] by simp
  have pos: "0 \<le> qr_artifact_count q \<and> 0 \<le> qr_storage_bytes q" if "q \<in> set (quota_reservations db)" for q
    using t(2) that by (fastforce simp: list_all_iff reservation_row_ok_def)
  have "reservation_row_ok (settle_reservation now st q)" if "q \<in> set (quota_reservations db)" for q
    using t(2) that st by (cases st) (auto simp: list_all_iff reservation_row_ok_def settle_reservation_def)
  then have rs: "list_all reservation_row_ok
      (update_where (\<lambda>r. qr_id r = rid) (settle_reservation now st) (quota_reservations db))"
    using t(2) by (intro list_all_update_where) (simp add: list_all_iff)
  have "account_row_ok (?g a)" if a: "a \<in> set (quota_accounts db)" "qa_user_id a = qr_user_id r" for a
  proof -
    have "qr_artifact_count r \<le> held_of (qr_user_id r) qr_artifact_count (quota_reservations db)"
      "qr_storage_bytes r \<le> held_of (qr_user_id r) qr_storage_bytes (quota_reservations db)"
      unfolding held_of_def by (rule sum_where_ge_member [OF rin]; use r(2) pos in simp)+
    moreover have "qa_artifact_reserved a = held_of (qr_user_id r) qr_artifact_count (quota_reservations db)"
      "qa_storage_reserved a = held_of (qr_user_id r) qr_storage_bytes (quota_reservations db)"
      using t(3) a by (auto simp: conserved_def list_all_iff)
    moreover have "account_row_ok a" using t(1) a(1) by (simp add: list_all_iff)
    ultimately show ?thesis using pos [OF rin] by (simp add: account_row_ok_def settle_account_def)
  qed
  then have "list_all account_row_ok (update_where (\<lambda>a. qa_user_id a = qr_user_id r) ?g (quota_accounts db))"
    using t(1) by (intro list_all_update_where) (simp add: list_all_iff)
  with rs r show ?thesis
    by (simp add: finish_body_def update_reservations_def update_accounts_def)
qed

text \<open>
  A reservation is settled exactly once. On a consistent state \<open>commit\<close> and
  \<open>release\<close> never raise; they report success exactly for a held reservation, and after
  either of them every further commit or release of that reservation returns \<open>false\<close> and
  changes nothing.
\<close>

theorem reservation_settled_once:
  assumes ok: "quota_ok db" and st: "st = Committed \<or> st = Released"
  shows "\<exists>db'. finish now rid st db
      = (db', Inr (exists_where (\<lambda>r. qr_id r = rid \<and> qr_state r = Held) (quota_reservations db)))
    \<and> commit now2 rid db' = (db', Inr False) \<and> release now2 rid db' = (db', Inr False)"
proof (cases "row_where (\<lambda>r. qr_id r = rid) (quota_reservations db)")
  case None
  then have "\<not> exists_where (\<lambda>r. qr_id r = rid \<and> qr_state r = Held) (quota_reservations db)"
    by (auto simp: row_where_None exists_where_iff)
  with None show ?thesis by (simp add: quota_operation_defs finish_body_def)
next
  case (Some r)
  then have rin: "r \<in> set (quota_reservations db)" "qr_id r = rid" using row_where_Some by fast+
  have "unique_on (\<lambda>_. True) qr_id (quota_reservations db)" using ok by (simp add: quota_ok_def quota_tables_ok_def)
  then have only: "q = r" if "q \<in> set (quota_reservations db)" "qr_id q = rid" for q
    by (rule unique_onD) (use that rin in simp_all)
  show ?thesis
  proof (cases "qr_state r = Held")
    case False
    then have "\<not> exists_where (\<lambda>r. qr_id r = rid \<and> qr_state r = Held) (quota_reservations db)"
      using only by (auto simp: exists_where_iff)
    with Some False show ?thesis by (simp add: quota_operation_defs finish_body_def)
  next
    case True
    have "exists_where (\<lambda>r. qr_id r = rid \<and> qr_state r = Held) (quota_reservations db)"
      using rin True by (auto simp: exists_where_iff)
    moreover have "st \<noteq> Held" using st by auto
    moreover have keep: "qr_id (settle_reservation now st r) = qr_id r" for r by (simp add: settle_reservation_def)
    have "row_where (\<lambda>r. qr_id r = rid)
        (update_where (\<lambda>r. qr_id r = rid) (settle_reservation now st) (quota_reservations db))
      = Some (settle_reservation now st r)"
      by (subst row_where_update_same) (simp_all add: keep Some)
    ultimately show ?thesis
      using finish_settles_body [OF ok _ Some True, of st now]
      by (simp add: quota_operation_defs finish_body_def settle_reservation_def)
  qed
qed

text \<open>
  Reconciliation repairs an account. Whatever the account row held before, after
  \<open>reconcile\<close> its usage is the number of the user's artifacts and the bytes of their ready
  bundles, and its reserved totals are the sums of the held reservations; the reservations
  and the accounts of other users are as before.
\<close>

theorem reconcile_repairs_account:
  assumes "reconcile userId db = (db', Inr u)"
  shows "(\<exists>a. row_where (\<lambda>a. qa_user_id a = userId) (quota_accounts db') = Some a
      \<and> qa_artifact_usage a = artifact_usage_of userId db \<and> qa_storage_usage a = storage_usage_of userId db
      \<and> qa_artifact_reserved a = held_of userId qr_artifact_count (quota_reservations db)
      \<and> qa_storage_reserved a = held_of userId qr_storage_bytes (quota_reservations db))
    \<and> quota_reservations db' = quota_reservations db
    \<and> filter (\<lambda>a. qa_user_id a \<noteq> userId) (quota_accounts db')
      = filter (\<lambda>a. qa_user_id a \<noteq> userId) (quota_accounts db)"
proof -
  have run: "reconcile_body userId db = Inr (db', u)" using assms by (simp add: reconcile_def run_tx_eq_Inr)
  then obtain policy where p: "currentPolicy db = Inr policy" by (auto simp: reconcile_body_def bindR_eq_Inr)
  let ?f = "\<lambda>a. counted_account userId (pol_revision policy) db (qa_revision a + 1)"
  show ?thesis
  proof (cases "exists_where (\<lambda>a. qa_user_id a = userId) (quota_accounts db)")
    case True
    have found: "exists_where (\<lambda>a. qa_user_id a = userId) t \<Longrightarrow>
        \<exists>n. row_where (\<lambda>a. qa_user_id a = userId) (update_where (\<lambda>a. qa_user_id a = userId) ?f t)
          = Some (counted_account userId (pol_revision policy) db n)" for t
      by (induction t) (auto simp: exists_where_def)
    have others: "filter (\<lambda>a. qa_user_id a \<noteq> userId) (update_where (\<lambda>a. qa_user_id a = userId) ?f t)
        = filter (\<lambda>a. qa_user_id a \<noteq> userId) t" for t
      by (induction t) auto
    show ?thesis
      using run p True found [OF True] others
      by (auto simp: reconcile_body_def bindR_eq_Inr update_accounts_Inr) (auto simp: counted_account_def)
  next
    case False
    then have "row_where (\<lambda>a. qa_user_id a = userId)
        (quota_accounts db @ [counted_account userId (pol_revision policy) db 1])
      = Some (counted_account userId (pol_revision policy) db 1)"
      by (simp add: row_where_append exists_where_iff row_where_None [THEN iffD2])
    with run p False show ?thesis
      by (auto simp: reconcile_body_def bindR_eq_Inr) (auto simp: counted_account_def)
  qed
qed

subsection \<open>Witnesses\<close>

definition example_policy :: policy_row where
  "example_policy = \<lparr>qp_revision = ''artifact-storage/v1'', qp_artifact_limit = 100,
     qp_storage_bytes_limit = 5368709120, qp_copy_rate_limit = 10, qp_copy_rate_window_seconds = 3600,
     qp_active = True\<rparr>"

definition example_quota_db :: quota_db where
  "example_quota_db =
     \<lparr>listings = [], proposals = [], revisions = [], acceptances = [], lifecycle_events = [],
      tombstones = [], profiles = [], public_sharing_restrictions = [], artifact_takedowns = [],
      appeals = [], decisions = [], cases = [], account_closures = [],
      quota_policies = [example_policy],
      quota_accounts = [\<lparr>qa_user_id = ''u1'', qa_policy_revision = ''artifact-storage/v1'',
        qa_artifact_usage = 2, qa_storage_usage = 500, qa_artifact_reserved = 1,
        qa_storage_reserved = 40, qa_revision = 3\<rparr>],
      quota_reservations = [held_reservation ''h1'' ''u1'' ''artifact-storage/v1'' 1 40 9],
      artifacts = [\<lparr>ar_id = ''a1'', ar_owner_user_id = ''u1''\<rparr>], bundles = [], manifests = []\<rparr>"

lemma example_quota_ok: "quota_ok example_quota_db"
  by (simp add: quota_ok_def quota_tables_ok_def conserved_def example_quota_db_def account_row_ok_def
      reservation_row_ok_def held_reservation_def held_of_def unique_on_def exists_where_def)

theorem quota_conserved_along_runs_witness:
  "quota_ok (fst (release 7 ''h1'' (fst (reserve \<lparr>ri_reservationId = ''h2'', ri_userId = ''u2'',
     ri_artifactCount = 1, ri_storageBytes = 10, ri_expiresAt = 9\<rparr> example_quota_db))))"
  (is "quota_ok (fst (release _ _ (fst (reserve ?i _))))")
proof -
  let ?db1 = "fst (reserve ?i example_quota_db)"
  have "quota_step example_quota_db ?db1" by (rule quota_step.step_reserve) (rule prod.collapse [symmetric])
  moreover have "quota_step ?db1 (fst (release 7 ''h1'' ?db1))"
    by (rule quota_step.step_release) (rule prod.collapse [symmetric])
  ultimately have "quota_step\<^sup>*\<^sup>* example_quota_db (fst (release 7 ''h1'' ?db1))" by simp
  then show ?thesis by (rule quota_conserved_along_runs) (rule example_quota_ok)
qed

lemma example_reserves:
  "\<exists>db' p. reserve \<lparr>ri_reservationId = ''h2'', ri_userId = ''u2'',
     ri_artifactCount = 1, ri_storageBytes = 10, ri_expiresAt = 9\<rparr> example_quota_db = (db', Inr (Reserved ''h2'' p))"
proof -
  have "\<exists>db' p. reserve_body \<lparr>ri_reservationId = ''h2'', ri_userId = ''u2'',
     ri_artifactCount = 1, ri_storageBytes = 10, ri_expiresAt = 9\<rparr> example_quota_db = Inr (db', Reserved ''h2'' p)"
    by (simp add: reserve_body_def currentPolicy_def example_quota_db_def example_policy_def policy_of_row_def
        ensure_account_def exists_where_def insert_reservation_def held_reservation_def reservation_row_ok_def
        update_accounts_def add_reserved_def account_row_ok_def Let_def)
  then show ?thesis by (auto simp: reserve_def)
qed

theorem reserve_respects_policy_witness:
  "\<exists>db' a. row_where (\<lambda>a. qa_user_id a = ''u2'') (quota_accounts db') = Some (a :: account_row)
     \<and> length (quota_reservations (db' :: quota_db)) = 2"
proof -
  obtain db' p where r: "reserve \<lparr>ri_reservationId = ''h2'', ri_userId = ''u2'',
     ri_artifactCount = 1, ri_storageBytes = 10, ri_expiresAt = 9\<rparr> example_quota_db = (db', Inr (Reserved ''h2'' p))"
    using example_reserves by blast
  from reserve_respects_policy [OF this] show ?thesis
    by (auto simp: example_quota_db_def)
qed

theorem reservation_settled_once_witness:
  "\<exists>db'. finish 7 ''h1'' Released example_quota_db = (db', Inr True) \<and> commit 8 ''h1'' db' = (db', Inr False)"
  using reservation_settled_once [OF example_quota_ok, of Released 7 "''h1''" 8]
  by (simp add: example_quota_db_def held_reservation_def exists_where_def) blast

theorem reconcile_repairs_account_witness:
  "\<exists>db' a. reconcile ''u1'' example_quota_db = (db', Inr ())
     \<and> row_where (\<lambda>a. qa_user_id a = ''u1'') (quota_accounts db') = Some a \<and> qa_artifact_usage a = 1"
proof -
  have "\<exists>db'. reconcile_body ''u1'' example_quota_db = Inr (db', ())"
    by (simp add: reconcile_body_def currentPolicy_def example_quota_db_def example_policy_def policy_of_row_def
        exists_where_def update_accounts_def counted_account_def artifact_usage_of_def storage_usage_of_def
        account_row_ok_def held_of_def held_reservation_def)
  then obtain db' where r: "reconcile ''u1'' example_quota_db = (db', Inr ())" by (auto simp: reconcile_def)
  moreover have "artifact_usage_of ''u1'' example_quota_db = 1"
    by (simp add: artifact_usage_of_def example_quota_db_def)
  ultimately show ?thesis using reconcile_repairs_account [OF r] by auto
qed

end
