(* ===== verification/Json.thy ===== *)
theory Json
  imports Js_Strings
begin

text \<open>
  \<open>JSON.stringify\<close> on the values the services digest: objects with string keys, strings,
  integers, booleans, arrays and null. The text of a string is quoted as the standard
  prescribes, so that two strings have the same JSON text only when they are equal.
\<close>

fun decimal :: "nat \<Rightarrow> js_string" where
  "decimal n = (if n < 10 then [char_of (48 + n)] else decimal (n div 10) @ [char_of (48 + n mod 10)])"

declare decimal.simps [simp del]

definition decimal_int :: "int \<Rightarrow> js_string" where
  "decimal_int i = (if i < 0 then CHR ''-'' # decimal (nat (- i)) else decimal (nat i))"

definition hex_digit :: "nat \<Rightarrow> char" where
  "hex_digit n = (if n < 10 then char_of (48 + n) else char_of (87 + n))"

definition json_escape :: "char \<Rightarrow> js_string" where
  "json_escape c =
     (let n = of_char c :: nat in
      if c = CHR 0x22 then [CHR 0x5C, CHR 0x22]
      else if c = CHR 0x5C then [CHR 0x5C, CHR 0x5C]
      else if c = CHR 0x08 then [CHR 0x5C, CHR ''b'']
      else if c = CHR 0x09 then [CHR 0x5C, CHR ''t'']
      else if c = CHR 0x0A then [CHR 0x5C, CHR ''n'']
      else if c = CHR 0x0C then [CHR 0x5C, CHR ''f'']
      else if c = CHR 0x0D then [CHR 0x5C, CHR ''r'']
      else if n < 32 then [CHR 0x5C, CHR ''u'', CHR ''0'', CHR ''0'', hex_digit (n div 16), hex_digit (n mod 16)]
      else [c])"

definition json_quote :: "js_string \<Rightarrow> js_string" where
  "json_quote s = CHR 0x22 # concat (map json_escape s) @ [CHR 0x22]"

text \<open>\<open>JReal\<close> is a number that is not an integer of at most 2^53 - 1, by its text.\<close>

datatype json =
    JNull
  | JBool bool
  | JNum int
  | JReal js_string
  | JStr js_string
  | JArr "json list"
  | JObj "(js_string \<times> json) list"

definition is_JObj :: "json \<Rightarrow> bool" where
  "is_JObj j = (case j of JObj _ \<Rightarrow> True | _ \<Rightarrow> False)"

definition comma_separated :: "js_string list \<Rightarrow> js_string" where
  "comma_separated = join_with (CHR '','')"

fun stringify :: "json \<Rightarrow> js_string" where
  "stringify JNull = ''null''"
| "stringify (JBool b) = (if b then ''true'' else ''false'')"
| "stringify (JNum i) = decimal_int i"
| "stringify (JReal s) = s"
| "stringify (JStr s) = json_quote s"
| "stringify (JArr xs) = CHR ''['' # comma_separated (map stringify xs) @ '']''"
| "stringify (JObj kvs) =
     CHR ''{'' # comma_separated (map (\<lambda>(k, v). json_quote k @ CHR '':'' # stringify v) kvs) @ ''}''"

definition json_option :: "('a \<Rightarrow> json) \<Rightarrow> 'a option \<Rightarrow> json" where
  "json_option f x = (case x of None \<Rightarrow> JNull | Some y \<Rightarrow> f y)"

subsection \<open>Quoting is injective\<close>

text \<open>Reading back one escaped character.\<close>

definition hex_value :: "char \<Rightarrow> nat" where
  "hex_value c = (let n = of_char c :: nat in if n < 58 then n - 48 else n - 87)"

fun unescape1 :: "js_string \<Rightarrow> (char \<times> js_string) option" where
  "unescape1 [] = None"
| "unescape1 (c # s) =
     (if c = CHR 0x22 then None
      else if c \<noteq> CHR 0x5C then Some (c, s)
      else case s of
        [] \<Rightarrow> None
      | d # s \<Rightarrow>
          if d = CHR 0x22 \<or> d = CHR 0x5C then Some (d, s)
          else if d = CHR ''b'' then Some (CHR 0x08, s)
          else if d = CHR ''t'' then Some (CHR 0x09, s)
          else if d = CHR ''n'' then Some (CHR 0x0A, s)
          else if d = CHR ''f'' then Some (CHR 0x0C, s)
          else if d = CHR ''r'' then Some (CHR 0x0D, s)
          else Some (char_of (16 * hex_value (s ! 2) + hex_value (s ! 3)), drop 4 s))"

lemma unescape1_escape: "unescape1 (json_escape c @ s) = Some (c, s)"
proof -
  have "\<forall>n < 32. hex_digit (n div 16) \<in> set ''01'' \<and> 16 * hex_value (hex_digit (n div 16)) + hex_value (hex_digit (n mod 16)) = n"
    by code_simp
  then have hex: "16 * hex_value (hex_digit (n div 16)) + hex_value (hex_digit (n mod 16)) = n" if "n < 32" for n
    using that by blast
  have "of_char c < (32 :: nat) \<Longrightarrow> char_of (16 * hex_value (hex_digit (of_char c div 16)) + hex_value (hex_digit (of_char c mod 16))) = c"
    using hex [of "of_char c"] by simp
  then show ?thesis
    by (simp add: json_escape_def Let_def)
qed

fun unquote :: "nat \<Rightarrow> js_string \<Rightarrow> js_string" where
  "unquote 0 s = []"
| "unquote (Suc k) s = (case unescape1 s of None \<Rightarrow> [] | Some (c, s') \<Rightarrow> c # unquote k s')"

lemma unquote_quote:
  "length s \<le> k \<Longrightarrow> unquote k (concat (map json_escape s) @ CHR 0x22 # t) = s"
proof (induction s arbitrary: k)
  case Nil
  then show ?case by (cases k) simp_all
next
  case (Cons c s)
  then show ?case by (cases k) (simp_all add: unescape1_escape)
qed

lemma json_quote_inject: "json_quote s = json_quote t \<longleftrightarrow> s = t"
proof
  assume eq: "json_quote s = json_quote t"
  have "unquote (length s + length t) (tl (json_quote s)) = s" for s t
    using unquote_quote [of s "length s + length t" "[]"] by (simp add: json_quote_def)
  moreover have "unquote (length s + length t) (tl (json_quote t)) = t"
    using unquote_quote [of t "length s + length t" "[]"] by (simp add: json_quote_def)
  ultimately show "s = t" using eq by metis
qed simp

end
