(* ===== verification/Gallery_Copy.thy ===== *)
theory Gallery_Copy
  imports Quota_Accounting Json
begin

text \<open>
  Accepting a copy of a Gallery listing, \<open>api/src/application/gallery/copy.ts\<close>: an
  idempotent request that checks the listing, the copy rate and the quota of the copier,
  holds a reservation and records the job. The lemmas show that a replay returns the job
  recorded first and changes nothing, and what an accepted copy was checked against. The
  digest is a parameter \<open>sha256\<close>; \<open>now\<close> is the transaction's time and \<open>clock\<close> the process
  clock, both in milliseconds.
\<close>

record copy_snapshot =
  cs_listingId :: js_string
  cs_listingRevision :: int
  cs_versionId :: js_string
  cs_policyRevision :: js_string
  cs_destinationOwnerUserId :: js_string
  cs_destinationArtifactId :: js_string
  cs_reservedStorageBytes :: int
  cs_sourceRetentionReferenceId :: js_string

record copy_job_row =
  cj_id :: js_string
  cj_copier_user_id :: js_string
  cj_source_listing_id :: js_string
  cj_source_listing_revision :: int
  cj_source_version_id :: js_string
  cj_destination_artifact_id :: js_string
  cj_destination_version_id :: js_string
  cj_destination_title :: js_string
  cj_quota_reservation_id :: js_string
  cj_input_snapshot :: copy_snapshot
  cj_input_snapshot_digest :: js_string
  cj_state :: GalleryCopyState
  cj_terminal_failure_code :: "js_string option"
  cj_idempotency_key_digest :: js_string
  cj_input_fingerprint :: js_string
  cj_finished_at :: "time option"
  cj_lease_owner :: "js_string option"
  cj_fence_token :: int
  cj_max_attempts :: int

record rate_row =
  cr_copier_user_id :: js_string
  cr_policy_revision :: js_string
  cr_window_started_at :: time
  cr_consumed_at :: time
  cr_privacy_delete_after :: time
  cr_operation_id :: js_string

record retention_row =
  rt_id :: js_string
  rt_job_id :: js_string
  rt_source_listing_id :: js_string
  rt_source_version_id :: js_string
  rt_release_after :: "time option"
  rt_released_at :: "time option"

record version_row =
  av_id :: js_string
  av_content_bundle_id :: "js_string option"

record copy_db = quota_db +
  copy_jobs :: "copy_job_row list"
  copy_rate_evidence :: "rate_row list"
  copy_retentions :: "retention_row list"
  versions :: "version_row list"

record GalleryCopyOutcome =
  co_id :: js_string
  co_state :: GalleryCopyState
  co_sourceListingId :: js_string
  co_sourceListingRevision :: int
  co_sourceVersionId :: js_string
  co_destinationArtifactId :: "js_string option"
  co_quotaState :: QuotaState

record copy_input =
  ci_copierUserId :: js_string
  ci_slug :: js_string
  ci_title :: js_string
  ci_idempotencyKey :: js_string

text \<open>The random ids one call draws.\<close>

record copy_ids =
  id_job :: js_string
  id_artifact :: js_string
  id_version :: js_string
  id_reservation :: js_string
  id_retention :: js_string

subsection \<open>Queries\<close>

definition copy_fingerprint :: "(js_string \<Rightarrow> js_string) \<Rightarrow> js_string \<Rightarrow> js_string \<Rightarrow> js_string" where
  "copy_fingerprint sha256 slug title =
     sha256 (stringify (JObj [(''slug'', JStr slug), (''title'', JStr title)]))"

definition snapshot_json :: "copy_snapshot \<Rightarrow> json" where
  "snapshot_json s =
     JObj [(''listingId'', JStr (cs_listingId s)), (''listingRevision'', JNum (cs_listingRevision s)),
           (''versionId'', JStr (cs_versionId s)), (''objectLayoutRevision'', JStr ''gallery-objects/v1''),
           (''policyRevision'', JStr (cs_policyRevision s)),
           (''destinationOwnerUserId'', JStr (cs_destinationOwnerUserId s)),
           (''destinationArtifactId'', JStr (cs_destinationArtifactId s)),
           (''reservedArtifactCount'', JNum 1),
           (''reservedStorageBytes'', JNum (cs_reservedStorageBytes s)),
           (''sourceRetentionReferenceId'', JStr (cs_sourceRetentionReferenceId s))]"

definition quota_state_of :: "'x copy_db_scheme \<Rightarrow> copy_job_row \<Rightarrow> QuotaState option" where
  "quota_state_of db j =
     map_option qr_state (row_where (\<lambda>r. qr_id r = cj_quota_reservation_id j) (quota_reservations db))"

text \<open>A job joined with its reservation.\<close>

definition job_with_quota ::
  "(copy_job_row \<Rightarrow> bool) \<Rightarrow> 'x copy_db_scheme \<Rightarrow> (copy_job_row \<times> QuotaState) option" where
  "job_with_quota p db =
     (case row_where (\<lambda>j. p j \<and> quota_state_of db j \<noteq> None) (copy_jobs db) of
        None \<Rightarrow> None
      | Some j \<Rightarrow> map_option (Pair j) (quota_state_of db j))"

definition outcome :: "copy_job_row \<times> QuotaState \<Rightarrow> GalleryCopyOutcome" where
  "outcome row = (case row of (j, q) \<Rightarrow>
     \<lparr>co_id = cj_id j, co_state = cj_state j, co_sourceListingId = cj_source_listing_id j,
      co_sourceListingRevision = cj_source_listing_revision j,
      co_sourceVersionId = cj_source_version_id j,
      co_destinationArtifactId =
        (if cj_state j = Copy_ready then Some (cj_destination_artifact_id j) else None),
      co_quotaState = q\<rparr>)"

text \<open>The version and the size the listing query joins; both null when there is none.\<close>

definition current_version :: "'x copy_db_scheme \<Rightarrow> listing_row \<Rightarrow> js_string option" where
  "current_version db l =
     (case gl_current_revision_id l of None \<Rightarrow> None
      | Some c \<Rightarrow> map_option gr_version_id (row_where (\<lambda>r. gr_id r = c) (revisions db)))"

definition version_bytes :: "'x copy_db_scheme \<Rightarrow> js_string \<Rightarrow> int option" where
  "version_bytes db v =
     (case row_where (\<lambda>r. av_id r = v) (versions db) of None \<Rightarrow> None
      | Some r \<Rightarrow> (case av_content_bundle_id r of None \<Rightarrow> None
         | Some b \<Rightarrow> map_option cm_total_size_bytes (row_where (\<lambda>m. cm_bundle_id m = b) (manifests db))))"

definition listing_bytes :: "'x copy_db_scheme \<Rightarrow> listing_row \<Rightarrow> int" where
  "listing_bytes db l =
     (case current_version db l of None \<Rightarrow> 0
      | Some v \<Rightarrow> (case version_bytes db v of None \<Rightarrow> 0 | Some n \<Rightarrow> n))"

definition recent_copies :: "'x copy_db_scheme \<Rightarrow> js_string \<Rightarrow> time \<Rightarrow> int" where
  "recent_copies db userId windowStart =
     sum_where (\<lambda>e. cr_copier_user_id e = userId \<and> cr_consumed_at e > windowStart) (\<lambda>_. 1) (copy_rate_evidence db)"

subsection \<open>Accepting a copy\<close>

definition new_job ::
  "(js_string \<Rightarrow> js_string) \<Rightarrow> copy_ids \<Rightarrow> copy_input \<Rightarrow> js_string \<Rightarrow> listing_row \<Rightarrow> js_string \<Rightarrow> int
    \<Rightarrow> js_string \<Rightarrow> int \<Rightarrow> copy_job_row" where
  "new_job sha256 ids input title l version bytes policyRevision maxAttempts =
     (let snapshot =
        \<lparr>cs_listingId = gl_id l, cs_listingRevision = gl_listing_revision l, cs_versionId = version,
         cs_policyRevision = policyRevision, cs_destinationOwnerUserId = ci_copierUserId input,
         cs_destinationArtifactId = id_artifact ids, cs_reservedStorageBytes = bytes,
         cs_sourceRetentionReferenceId = id_retention ids\<rparr>
      in \<lparr>cj_id = id_job ids, cj_copier_user_id = ci_copierUserId input,
          cj_source_listing_id = gl_id l, cj_source_listing_revision = gl_listing_revision l,
          cj_source_version_id = version, cj_destination_artifact_id = id_artifact ids,
          cj_destination_version_id = id_version ids, cj_destination_title = title,
          cj_quota_reservation_id = id_reservation ids, cj_input_snapshot = snapshot,
          cj_input_snapshot_digest = sha256 (stringify (snapshot_json snapshot)),
          cj_state = Copy_accepted, cj_terminal_failure_code = None,
          cj_idempotency_key_digest = sha256 (ci_idempotencyKey input),
          cj_input_fingerprint = copy_fingerprint sha256 (ci_slug input) title,
          cj_finished_at = None, cj_lease_owner = None, cj_fence_token = 0,
          cj_max_attempts = maxAttempts\<rparr>)"

definition copy_jobs_unique :: "copy_job_row list \<Rightarrow> bool" where
  "copy_jobs_unique t \<longleftrightarrow>
     unique_on (\<lambda>_. True) cj_id t \<and> unique_on (\<lambda>_. True) cj_quota_reservation_id t
     \<and> unique_on (\<lambda>_. True) (\<lambda>j. (cj_copier_user_id j, cj_idempotency_key_digest j)) t"

definition insert_copy_job :: "copy_job_row \<Rightarrow> 'x copy_db_scheme \<Rightarrow> tx_error + 'x copy_db_scheme" where
  "insert_copy_job j db =
     (if cj_max_attempts j \<le> 0 then Inl (Check_violation ''gallery_copy_job_max_attempts_check'')
      else if \<not> copy_jobs_unique (copy_jobs db @ [j])
        then Inl (Unique_violation ''gallery_copy_job_copier_user_id_idempotency_key_digest_key'')
      else Inr (db\<lparr>copy_jobs := copy_jobs db @ [j]\<rparr>))"

text \<open>The source retention and the rate evidence an acceptance leaves.\<close>

definition record_acceptance ::
  "time \<Rightarrow> copy_ids \<Rightarrow> js_string \<Rightarrow> js_string \<Rightarrow> time \<Rightarrow> listing_row \<Rightarrow> js_string
    \<Rightarrow> 'x copy_db_scheme \<Rightarrow> 'x copy_db_scheme" where
  "record_acceptance now ids user policyRevision windowStart l version db = db
     \<lparr>copy_retentions := copy_retentions db @
        [\<lparr>rt_id = id_retention ids, rt_job_id = id_job ids, rt_source_listing_id = gl_id l,
          rt_source_version_id = version, rt_release_after = None, rt_released_at = None\<rparr>],
      copy_rate_evidence := copy_rate_evidence db @
        [\<lparr>cr_copier_user_id = user, cr_policy_revision = policyRevision,
          cr_window_started_at = windowStart, cr_consumed_at = now,
          cr_privacy_delete_after = now + 30 * 86400000, cr_operation_id = id_job ids\<rparr>]\<rparr>"

definition accepted_outcome :: "copy_ids \<Rightarrow> listing_row \<Rightarrow> js_string \<Rightarrow> GalleryCopyOutcome" where
  "accepted_outcome ids l version =
     \<lparr>co_id = id_job ids, co_state = Copy_accepted, co_sourceListingId = gl_id l,
      co_sourceListingRevision = gl_listing_revision l, co_sourceVersionId = version,
      co_destinationArtifactId = None, co_quotaState = Held\<rparr>"

definition accept_body ::
  "(js_string \<Rightarrow> js_string) \<Rightarrow> int \<Rightarrow> time \<Rightarrow> time \<Rightarrow> copy_ids \<Rightarrow> js_string \<Rightarrow> copy_input
    \<Rightarrow> 'x copy_db_scheme \<Rightarrow> tx_error + 'x copy_db_scheme \<times> GalleryCopyOutcome" where
  "accept_body sha256 maxAttempts now clock ids title input db =
     (let user = ci_copierUserId input;
          keyDigest = sha256 (ci_idempotencyKey input);
          fingerprint = copy_fingerprint sha256 (ci_slug input) title
      in case job_with_quota (\<lambda>j. cj_copier_user_id j = user \<and> cj_idempotency_key_digest j = keyDigest) db of
        Some (previous, q) \<Rightarrow>
          if cj_input_fingerprint previous \<noteq> fingerprint then Inl (Coded ''idempotency_conflict'')
          else Inr (db, outcome (previous, q))
      | None \<Rightarrow>
          bindR (fromOption (Coded ''not_found'') (row_where (\<lambda>l. gl_opaque_slug l = ci_slug input) (listings db))) (\<lambda>l.
          bindR (guardR (gl_lifecycle_state l \<noteq> Withdrawn) (Coded ''gone'')) (\<lambda>_.
          bindR (guardR (gl_lifecycle_state l = Listed
                   \<and> (gl_review_state l = Clear \<or> gl_review_state l = Reviewing)
                   \<and> \<not> artifact_blocked db (gl_artifact_id l)) (Coded ''not_found'')) (\<lambda>_.
          bindR (fromOption (Thrown ''quota_policy_unavailable'') (row_where qp_active (quota_policies db))) (\<lambda>policy.
          let windowStart = clock - qp_copy_rate_window_seconds policy * 1000 in
          bindR (guardR (recent_copies db user windowStart < qp_copy_rate_limit policy) (Coded ''rate_limited'')) (\<lambda>_.
          let db = ensure_account user (qp_revision policy) db in
          bindR (fromOption (Thrown ''undefined account'')
                  (row_where (\<lambda>a. qa_user_id a = user) (quota_accounts db))) (\<lambda>account.
          let bytes = listing_bytes db l in
          bindR (guardR (qa_artifact_usage account + qa_artifact_reserved account + 1 \<le> qp_artifact_limit policy)
                  (Coded ''artifact_quota_unavailable'')) (\<lambda>_.
          bindR (guardR (qa_storage_usage account + qa_storage_reserved account + bytes \<le> qp_storage_bytes_limit policy)
                  (Coded ''storage_quota_unavailable'')) (\<lambda>_.
          bindR (insert_reservation (held_reservation (id_reservation ids) user (qp_revision policy) 1 bytes
                  (now + 3600000)) db) (\<lambda>db.
          bindR (update_accounts (\<lambda>a. qa_user_id a = user) (add_reserved 1 bytes) db) (\<lambda>db.
          bindR (fromOption (Check_violation ''source_version_id not null'') (current_version db l)) (\<lambda>version.
          bindR (insert_copy_job (new_job sha256 ids input title l version bytes (qp_revision policy) maxAttempts) db) (\<lambda>db.
          Inr (record_acceptance now ids user (qp_revision policy) windowStart l version db,
               accepted_outcome ids l version))))))))))))))"

definition accept_copy ::
  "(js_string \<Rightarrow> js_string) \<Rightarrow> int \<Rightarrow> time \<Rightarrow> time \<Rightarrow> copy_ids \<Rightarrow> copy_input
    \<Rightarrow> 'x copy_db_scheme \<Rightarrow> 'x copy_db_scheme \<times> (tx_error + GalleryCopyOutcome)" where
  "accept_copy sha256 maxAttempts now clock ids input db =
     (let title = js_trim (ci_title input)
      in if title = [] \<or> js_length title > 200 then (db, Inl (Coded ''not_found''))
         else run_tx (accept_body sha256 maxAttempts now clock ids title input) db)"

definition recover_copy ::
  "(js_string \<Rightarrow> js_string) \<Rightarrow> js_string \<Rightarrow> js_string \<Rightarrow> js_string \<Rightarrow> js_string
    \<Rightarrow> 'x copy_db_scheme \<Rightarrow> tx_error + GalleryCopyOutcome option" where
  "recover_copy sha256 userId slug title key db =
     (case job_with_quota (\<lambda>j. cj_copier_user_id j = userId \<and> cj_idempotency_key_digest j = sha256 key) db of
        None \<Rightarrow> Inr None
      | Some row \<Rightarrow>
          if cj_input_fingerprint (fst row) \<noteq> copy_fingerprint sha256 slug (js_trim title)
            then Inl (Coded ''idempotency_conflict'')
          else Inr (Some (outcome row)))"

definition get_copy :: "js_string \<Rightarrow> js_string \<Rightarrow> 'x copy_db_scheme \<Rightarrow> GalleryCopyOutcome option" where
  "get_copy userId x db =
     map_option outcome (job_with_quota (\<lambda>j. cj_id j = x \<and> cj_copier_user_id j = userId) db)"

subsection \<open>What an acceptance did\<close>

lemma ensure_account_more [simp]:
  "copy_jobs (ensure_account u p db) = copy_jobs db"
  "copy_rate_evidence (ensure_account u p db) = copy_rate_evidence db"
  "revisions (ensure_account u p db) = revisions db"
  "versions (ensure_account u p db) = versions db"
  "manifests (ensure_account u p db) = manifests db"
  by (simp_all add: ensure_account_def)

lemma listing_joins_ensure [simp]:
  "current_version (ensure_account u p db) l = current_version db l"
  "listing_bytes (ensure_account u p db) l = listing_bytes db l"
  by (simp_all add: current_version_def listing_bytes_def version_bytes_def cong: option.case_cong)

lemma insert_copy_job_Inr:
  "insert_copy_job j db = Inr db' \<longleftrightarrow>
     db' = db\<lparr>copy_jobs := copy_jobs db @ [j]\<rparr> \<and> 0 < cj_max_attempts j \<and> copy_jobs_unique (copy_jobs db @ [j])"
  by (auto simp: insert_copy_job_def)

text \<open>The facts a fresh acceptance established, and the tables it left.\<close>

lemma accept_body_fresh:
  fixes db :: "'x copy_db_scheme"
  assumes run: "accept_body sha256 m now clock ids title input db = Inr (db', out)"
    and fresh: "job_with_quota (\<lambda>j. cj_copier_user_id j = ci_copierUserId input
      \<and> cj_idempotency_key_digest j = sha256 (ci_idempotencyKey input)) db = None"
  obtains l policy account version db0 db1 db2 db3
  where "row_where (\<lambda>l. gl_opaque_slug l = ci_slug input) (listings db) = Some l"
    and "gl_lifecycle_state l = Listed"
    and "gl_review_state l = Clear \<or> gl_review_state l = Reviewing"
    and "\<not> artifact_blocked db (gl_artifact_id l)"
    and "row_where qp_active (quota_policies db) = Some policy"
    and "recent_copies db (ci_copierUserId input) (clock - qp_copy_rate_window_seconds policy * 1000)
      < qp_copy_rate_limit policy"
    and "db0 = ensure_account (ci_copierUserId input) (qp_revision policy) db"
    and "row_where (\<lambda>a. qa_user_id a = ci_copierUserId input) (quota_accounts db0) = Some account"
    and "qa_artifact_usage account + qa_artifact_reserved account + 1 \<le> qp_artifact_limit policy"
    and "qa_storage_usage account + qa_storage_reserved account + listing_bytes db0 l \<le> qp_storage_bytes_limit policy"
    and "insert_reservation (held_reservation (id_reservation ids) (ci_copierUserId input) (qp_revision policy) 1
      (listing_bytes db0 l) (now + 3600000)) db0 = (Inr db1 :: tx_error + 'x copy_db_scheme)"
    and "update_accounts (\<lambda>a. qa_user_id a = ci_copierUserId input) (add_reserved 1 (listing_bytes db0 l)) db1
      = (Inr db2 :: tx_error + 'x copy_db_scheme)"
    and "current_version db2 l = Some version"
    and "insert_copy_job (new_job sha256 ids input title l version (listing_bytes db0 l) (qp_revision policy) m) db2
      = (Inr db3 :: tx_error + 'x copy_db_scheme)"
    and "db' = record_acceptance now ids (ci_copierUserId input) (qp_revision policy)
        (clock - qp_copy_rate_window_seconds policy * 1000) l version db3"
    and "out = accepted_outcome ids l version"
proof -
  from run show thesis
    unfolding accept_body_def Let_def fresh option.case
    by (elim result_elims conjE) (rule that; (assumption | rule refl))
qed

text \<open>The facts a fresh acceptance established, and the tables it left.\<close>

lemma statement_frames:
  fixes db db1 db2 :: "'x copy_db_scheme"
  assumes "insert_reservation r db = Inr db1" and "update_accounts p f db1 = Inr db2"
  shows "copy_jobs db2 = copy_jobs db" "copy_rate_evidence db2 = copy_rate_evidence db"
    "listings db2 = listings db" "current_version db2 l = current_version db l"
    "quota_reservations db2 = quota_reservations db @ [r]"
    "quota_accounts db2 = update_where p f (quota_accounts db)"
    "\<not> exists_where (\<lambda>q. qr_id q = qr_id r) (quota_reservations db)"
  using assms by (auto simp: insert_reservation_Inr update_accounts_Inr current_version_def cong: option.case_cong)

abbreviation same_request :: "(js_string \<Rightarrow> js_string) \<Rightarrow> copy_input \<Rightarrow> copy_job_row \<Rightarrow> bool" where
  "same_request sha256 input j \<equiv>
     cj_copier_user_id j = ci_copierUserId input \<and> cj_idempotency_key_digest j = sha256 (ci_idempotencyKey input)"

text \<open>After any acceptance the request finds its job again, with the outcome it returned.\<close>

lemma accept_body_recorded:
  fixes db :: "'x copy_db_scheme"
  assumes run: "accept_body sha256 m now clock ids title input db = Inr (db', out)"
  shows "\<exists>row. job_with_quota (same_request sha256 input) db' = Some row
    \<and> cj_input_fingerprint (fst row) = copy_fingerprint sha256 (ci_slug input) title \<and> outcome row = out"
proof (cases "job_with_quota (same_request sha256 input) db")
  case (Some row)
  with run show ?thesis by (cases row) (auto simp: accept_body_def Let_def split: if_splits)
next
  case None
  show ?thesis
  proof (rule accept_body_fresh [OF run None])
    fix l account version and policy :: policy_row and db0 db1 db2 db3 :: "'x copy_db_scheme"
    let ?u = "ci_copierUserId input"
    let ?r = "held_reservation (id_reservation ids) ?u (qp_revision policy) 1 (listing_bytes db0 l) (now + 3600000)"
    let ?j = "new_job sha256 ids input title l version (listing_bytes db0 l) (qp_revision policy) m"
    assume db0: "db0 = ensure_account ?u (qp_revision policy) db"
      and ins: "insert_reservation ?r db0 = Inr db1"
      and upd: "update_accounts (\<lambda>a. qa_user_id a = ?u) (add_reserved 1 (listing_bytes db0 l)) db1 = Inr db2"
      and job: "insert_copy_job ?j db2 = Inr db3"
      and db': "db' = record_acceptance now ids ?u (qp_revision policy)
        (clock - qp_copy_rate_window_seconds policy * 1000) l version db3"
      and out: "out = accepted_outcome ids l version"
    note fr = statement_frames [OF ins upd]
    have jobs: "copy_jobs db' = copy_jobs db @ [?j]" and uniq: "copy_jobs_unique (copy_jobs db @ [?j])"
      and res: "quota_reservations db' = quota_reservations db @ [?r]"
      using job fr db0 by (simp_all add: insert_copy_job_Inr db' record_acceptance_def)
    have sr: "same_request sha256 input ?j" by (simp add: new_job_def Let_def)
    then have other: "\<not> same_request sha256 input j" if "j \<in> set (copy_jobs db)" for j
      using uniq that by (auto simp: copy_jobs_unique_def unique_on_append1)
    have "row_where (\<lambda>r. qr_id r = id_reservation ids) (quota_reservations db @ [?r]) = Some ?r"
      using fr(7) db0
      by (simp add: row_where_append row_where_None [THEN iffD2] exists_where_iff held_reservation_def)
    then have q: "quota_state_of db' ?j = Some Held"
      by (simp add: quota_state_of_def res new_job_def Let_def) (simp add: held_reservation_def)
    have "row_where (\<lambda>j. same_request sha256 input j \<and> quota_state_of db' j \<noteq> None) (copy_jobs db') = Some ?j"
    proof -
      have none: "row_where (\<lambda>j. same_request sha256 input j \<and> quota_state_of db' j \<noteq> None) (copy_jobs db) = None"
        using other by (auto simp: row_where_None)
      show ?thesis unfolding jobs row_where_append none option.case row_where_simps using sr q by simp
    qed
    then have "job_with_quota (same_request sha256 input) db' = Some (?j, Held)"
      by (simp add: job_with_quota_def q)
    then show ?thesis by (simp add: out accepted_outcome_def outcome_def new_job_def Let_def)
  qed
qed

subsection \<open>Whatever happens later\<close>

text \<open>
  What can happen to the tables after an acceptance: further acceptances, the quota operations,
  updates of the columns in which a job (at the worker or at a rollback) and a reservation make
  progress, and any change of the other tables, the Gallery's among them.
\<close>

inductive copy_step :: "'x copy_db_scheme \<Rightarrow> 'x copy_db_scheme \<Rightarrow> bool" where
  Step_accept: "accept_copy sha256 m now clock ids input db = (db', res) \<Longrightarrow> copy_step db db'"
| Step_quota: "quota_step db db' \<Longrightarrow> copy_step db db'"
| Step_progress: "copy_step db (db\<lparr>copy_jobs := update_where p (\<lambda>j. j\<lparr>cj_state := st j, cj_terminal_failure_code := code j,
    cj_finished_at := finished j, cj_lease_owner := lease j, cj_fence_token := fence j\<rparr>) (copy_jobs db)\<rparr>)"
| Step_settle: "copy_step db (db\<lparr>quota_reservations := update_where q (\<lambda>r. r\<lparr>qr_state := state r,
    qr_committed_at := committed r, qr_released_at := released r\<rparr>) (quota_reservations db)\<rparr>)"
| Step_elsewhere: "copy_jobs db' = copy_jobs db \<Longrightarrow> quota_reservations db' = quota_reservations db \<Longrightarrow> copy_step db db'"

text \<open>The columns of a job that never change, and that no job and no reservation goes away.\<close>

definition same_copy :: "copy_job_row \<Rightarrow> copy_job_row \<Rightarrow> bool" where
  "same_copy j i \<longleftrightarrow> i = j\<lparr>cj_state := cj_state i, cj_terminal_failure_code := cj_terminal_failure_code i,
     cj_finished_at := cj_finished_at i, cj_lease_owner := cj_lease_owner i, cj_fence_token := cj_fence_token i\<rparr>"

definition copies_kept :: "'x copy_db_scheme \<Rightarrow> 'x copy_db_scheme \<Rightarrow> bool" where
  "copies_kept db db' \<longleftrightarrow> (\<forall>j \<in> set (copy_jobs db). \<exists>i \<in> set (copy_jobs db'). same_copy j i)
     \<and> (\<forall>r \<in> set (quota_reservations db). \<exists>q \<in> set (quota_reservations db'). qr_id q = qr_id r)"

lemma same_copy_refl [simp]: "same_copy j j"
  by (simp add: same_copy_def)

lemma same_copy_columns:
  assumes "same_copy j i"
  shows "cj_id i = cj_id j" "cj_copier_user_id i = cj_copier_user_id j" "cj_idempotency_key_digest i = cj_idempotency_key_digest j"
    "cj_input_fingerprint i = cj_input_fingerprint j" "cj_source_listing_id i = cj_source_listing_id j"
    "cj_source_listing_revision i = cj_source_listing_revision j" "cj_source_version_id i = cj_source_version_id j"
    "cj_destination_artifact_id i = cj_destination_artifact_id j" "cj_quota_reservation_id i = cj_quota_reservation_id j"
  by (subst assms [unfolded same_copy_def], simp)+

lemma same_copy_trans: "same_copy j i \<Longrightarrow> same_copy i h \<Longrightarrow> same_copy j h"
  by (cases j, cases i, cases h) (simp add: same_copy_def)

lemma copies_kept_refl [simp]: "copies_kept db db"
  unfolding copies_kept_def using same_copy_refl by blast

lemma copies_kept_trans:
  assumes "copies_kept db db1" "copies_kept db1 db2"
  shows "copies_kept db db2"
  unfolding copies_kept_def
proof (intro conjI ballI)
  fix j assume "j \<in> set (copy_jobs db)"
  with assms obtain i h where "same_copy j i" "h \<in> set (copy_jobs db2)" "same_copy i h"
    unfolding copies_kept_def by meson
  then show "\<exists>h \<in> set (copy_jobs db2). same_copy j h" using same_copy_trans by blast
next
  fix r assume "r \<in> set (quota_reservations db)"
  with assms show "\<exists>q \<in> set (quota_reservations db2). qr_id q = qr_id r"
    unfolding copies_kept_def by metis
qed

lemma copies_kept_tables:
  assumes "set (copy_jobs db) \<subseteq> set (copy_jobs db')"
    and "qr_id ` set (quota_reservations db) \<subseteq> qr_id ` set (quota_reservations db')"
  shows "copies_kept db db'"
  unfolding copies_kept_def
proof (intro conjI ballI)
  fix j assume "j \<in> set (copy_jobs db)"
  with assms(1) show "\<exists>i \<in> set (copy_jobs db'). same_copy j i" by (intro bexI [of _ j]) auto
next
  fix r assume "r \<in> set (quota_reservations db)"
  with assms(2) have "qr_id r \<in> qr_id ` set (quota_reservations db')" by blast
  then show "\<exists>q \<in> set (quota_reservations db'). qr_id q = qr_id r" by auto
qed

lemma run_tx_copies:
  assumes "run_tx work db = (db', res)" and "\<And>db1 x. work db = Inr (db1, x) \<Longrightarrow> copies_kept db db1 \<and> copy_jobs_unique (copy_jobs db1)"
    and "copy_jobs_unique (copy_jobs db)"
  shows "copies_kept db db' \<and> copy_jobs_unique (copy_jobs db')"
  using run_tx_keeps [of work db db' res "\<lambda>db'. copies_kept db db' \<and> copy_jobs_unique (copy_jobs db')"] assms by simp

lemma accept_keeps_copies:
  fixes db :: "'x copy_db_scheme"
  assumes "accept_copy sha256 m now clock ids input db = (db', res)" and "copy_jobs_unique (copy_jobs db)"
  shows "copies_kept db db' \<and> copy_jobs_unique (copy_jobs db')"
proof (cases "js_trim (ci_title input) = [] \<or> js_length (js_trim (ci_title input)) > 200")
  case True
  with assms show ?thesis by (auto simp: accept_copy_def Let_def)
next
  case False
  let ?t = "js_trim (ci_title input)"
  have run: "run_tx (accept_body sha256 m now clock ids ?t input) db = (db', res)"
    using assms(1) False by (auto simp: accept_copy_def Let_def)
  show ?thesis
  proof (rule run_tx_copies [OF run _ assms(2)])
    fix db1 :: "'x copy_db_scheme" and out
    assume body: "accept_body sha256 m now clock ids ?t input db = Inr (db1, out)"
    show "copies_kept db db1 \<and> copy_jobs_unique (copy_jobs db1)"
    proof (cases "job_with_quota (same_request sha256 input) db")
      case (Some row)
      with body have "db1 = db" by (cases row) (auto simp: accept_body_def Let_def split: if_splits)
      with assms(2) show ?thesis by simp
    next
      case None
      show ?thesis
      proof (rule accept_body_fresh [OF body None])
        fix l account version and policy :: policy_row and db2 db3 db4 db5 :: "'x copy_db_scheme"
        let ?u = "ci_copierUserId input"
        assume ens: "db2 = ensure_account ?u (qp_revision policy) db"
          and ins: "insert_reservation (held_reservation (id_reservation ids) ?u (qp_revision policy) 1 (listing_bytes db2 l)
            (now + 3600000)) db2 = Inr db3"
          and upd: "update_accounts (\<lambda>a. qa_user_id a = ?u) (add_reserved 1 (listing_bytes db2 l)) db3 = Inr db4"
          and job: "insert_copy_job (new_job sha256 ids input ?t l version (listing_bytes db2 l) (qp_revision policy) m) db4 = Inr db5"
          and db1: "db1 = record_acceptance now ids ?u (qp_revision policy)
            (clock - qp_copy_rate_window_seconds policy * 1000) l version db5"
        note fr = statement_frames [OF ins upd]
        have "copy_jobs db5 = copy_jobs db @ [new_job sha256 ids input ?t l version (listing_bytes db2 l) (qp_revision policy) m]"
          "copy_jobs_unique (copy_jobs db5)" "quota_reservations db5 = quota_reservations db4"
          using job fr(1) ens by (simp_all add: insert_copy_job_Inr)
        then show "copies_kept db db1 \<and> copy_jobs_unique (copy_jobs db1)"
          using fr(5) ens by (auto simp: db1 record_acceptance_def intro: copies_kept_tables)
      qed
    qed
  qed
qed

lemma quota_bodies_keep_copies:
  fixes db db1 :: "'x copy_db_scheme"
  shows "reserve_body input db = Inr (db1, res) \<Longrightarrow> copies_kept db db1 \<and> copy_jobs db1 = copy_jobs db"
    and "finish_body now rid st db = Inr (db1, b) \<Longrightarrow> copies_kept db db1 \<and> copy_jobs db1 = copy_jobs db"
    and "reconcile_body u db = Inr (db1, x) \<Longrightarrow> copies_kept db db1 \<and> copy_jobs db1 = copy_jobs db"
    and "activate_policy_body policy db = Inr (db1, y) \<Longrightarrow> copies_kept db db1 \<and> copy_jobs db1 = copy_jobs db"
proof -
  have settled: "qr_id ` set (update_where (\<lambda>r. qr_id r = rid) (settle_reservation now st) rs) = qr_id ` set rs" for rs
    by (induction rs) (auto simp: settle_reservation_def)
  have rows: "copies_kept db db1 \<and> copy_jobs db1 = copy_jobs db"
    if "copy_jobs db1 = copy_jobs db \<and> qr_id ` set (quota_reservations db) \<subseteq> qr_id ` set (quota_reservations db1)"
    using that by (simp add: copies_kept_tables)
  show "reserve_body input db = Inr (db1, res) \<Longrightarrow> copies_kept db db1 \<and> copy_jobs db1 = copy_jobs db"
    by (rule rows) (auto simp: reserve_body_def bindR_eq_Inr Let_def insert_reservation_Inr update_accounts_Inr split: if_splits)
  show "finish_body now rid st db = Inr (db1, b) \<Longrightarrow> copies_kept db db1 \<and> copy_jobs db1 = copy_jobs db"
    by (rule rows) (auto simp: finish_body_def bindR_eq_Inr update_reservations_Inr update_accounts_Inr settled
        split: option.splits if_splits)
  show "reconcile_body u db = Inr (db1, x) \<Longrightarrow> copies_kept db db1 \<and> copy_jobs db1 = copy_jobs db"
  proof (rule rows)
    assume "reconcile_body u db = Inr (db1, x)"
    then obtain t where "db1 = db\<lparr>quota_accounts := t\<rparr>"
      by (auto simp only: reconcile_body_def bindR_eq_Inr update_accounts_Inr Inr_inject prod.inject split: if_split_asm)
    then show "copy_jobs db1 = copy_jobs db \<and> qr_id ` set (quota_reservations db) \<subseteq> qr_id ` set (quota_reservations db1)"
      by simp
  qed
  show "activate_policy_body policy db = Inr (db1, y) \<Longrightarrow> copies_kept db db1 \<and> copy_jobs db1 = copy_jobs db"
    by (rule rows) (auto simp: activate_policy_body_def Let_def split: if_splits)
qed

lemma run_tx_keeps_copies:
  assumes "run_tx work db = (db', res)"
    and "\<And>db1 x. work db = Inr (db1, x) \<Longrightarrow> copies_kept db db1 \<and> copy_jobs db1 = copy_jobs db"
  shows "copies_kept db db' \<and> copy_jobs db' = copy_jobs db"
  by (rule run_tx_keeps [OF assms(1)]) (use assms(2) in simp_all)

lemma quota_keeps_copies: "quota_step db db' \<Longrightarrow> copies_kept db db' \<and> copy_jobs db' = copy_jobs db"
  by (elim quota_step_elim; unfold quota_operation_defs; erule run_tx_keeps_copies; erule quota_bodies_keep_copies)

lemma step_keeps_copies:
  "copy_step db db' \<Longrightarrow> copy_jobs_unique (copy_jobs db) \<Longrightarrow> copies_kept db db' \<and> copy_jobs_unique (copy_jobs db')"
proof (induction rule: copy_step.induct)
  case (Step_accept sha256 m now clock ids input db db' res)
  then show ?case using accept_keeps_copies by blast
next
  case (Step_quota db db')
  then show ?case using quota_keeps_copies [of db db'] by simp
next
  case (Step_progress db p fence lease finished code st)
  let ?f = "\<lambda>j. j\<lparr>cj_state := st j, cj_terminal_failure_code := code j, cj_finished_at := finished j,
      cj_lease_owner := lease j, cj_fence_token := fence j\<rparr>"
  have "\<exists>i \<in> set (update_where p ?f (copy_jobs db)). same_copy j i" if "j \<in> set (copy_jobs db)" for j
    using that by (intro bexI [of _ "if p j then ?f j else j"]) (auto simp: same_copy_def in_update_where set_update_where)
  moreover have "copy_jobs_unique (update_where p ?f (copy_jobs db))"
    using Step_progress by (auto simp: copy_jobs_unique_def intro!: unique_on_update_shrink)
  ultimately show ?case by (auto simp: copies_kept_def)
next
  case (Step_settle db q released committed state)
  let ?f = "\<lambda>r. r\<lparr>qr_state := state r, qr_committed_at := committed r, qr_released_at := released r\<rparr>"
  have "qr_id ` set (update_where q ?f rs) = qr_id ` set rs" for rs by (induction rs) auto
  with Step_settle show ?case by (auto intro!: copies_kept_tables)
qed (simp add: copies_kept_tables)

lemma run_keeps_copies:
  assumes "copy_step\<^sup>*\<^sup>* db db'" and "copy_jobs_unique (copy_jobs db)"
  shows "copies_kept db db' \<and> copy_jobs_unique (copy_jobs db')"
  using assms
proof (induction rule: rtranclp_induct)
  case (step db1 db2)
  then show ?case using step_keeps_copies copies_kept_trans by blast
qed simp

text \<open>A job found by its request is found again, by the same request, after any run.\<close>

lemma job_found_later:
  assumes "job_with_quota (same_request sha256 input) db = Some (j, q)" "copies_kept db db'" "copy_jobs_unique (copy_jobs db')"
  obtains i p where "job_with_quota (same_request sha256 input) db' = Some (i, p)" "same_copy j i"
    "i \<in> set (copy_jobs db')" "quota_state_of db' i = Some p"
proof -
  from assms(1) have j: "row_where (\<lambda>j. same_request sha256 input j \<and> quota_state_of db j \<noteq> None) (copy_jobs db) = Some j"
    by (auto simp: job_with_quota_def split: option.splits)
  note found = row_where_Some [OF this]
  then obtain i where i: "i \<in> set (copy_jobs db')" "same_copy j i" using assms(2) by (auto simp: copies_kept_def)
  from found obtain r where "r \<in> set (quota_reservations db)" "qr_id r = cj_quota_reservation_id j"
    by (auto simp: quota_state_of_def dest: row_where_Some)
  with assms(2) obtain r' where "r' \<in> set (quota_reservations db')" "qr_id r' = cj_quota_reservation_id i"
    by (auto simp: copies_kept_def same_copy_columns [OF i(2)])
  then have "quota_state_of db' i \<noteq> None" by (auto simp: quota_state_of_def row_where_None)
  then obtain p where p: "quota_state_of db' i = Some p" by blast
  have request: "same_request sha256 input i" using found by (simp add: same_copy_columns [OF i(2)])
  obtain h where h: "row_where (\<lambda>j. same_request sha256 input j \<and> quota_state_of db' j \<noteq> None) (copy_jobs db') = Some h"
    using i(1) request p by (cases "row_where (\<lambda>j. same_request sha256 input j \<and> quota_state_of db' j \<noteq> None) (copy_jobs db')")
      (auto simp: row_where_None)
  from row_where_Some [OF h] have "h = i"
    using i(1) request assms(3) unique_onD [of "\<lambda>_. True" "\<lambda>j. (cj_copier_user_id j, cj_idempotency_key_digest j)" "copy_jobs db'" h i]
    by (simp add: copy_jobs_unique_def)
  with h p have "job_with_quota (same_request sha256 input) db' = Some (i, p)" by (simp add: job_with_quota_def)
  from this i(2,1) p show thesis by (rule that)
qed

text \<open>
  C22: accepting a copy is idempotent for ever. After a call returned an outcome, whatever happens
  (further copies, quota operations, progress or cancellation of the job, the source being
  restricted, withdrawn or deleted), a repetition at any time, with any fresh ids, changes nothing
  and answers with the same copy, in the state it has by then: the same id and source, the
  present state of the job and of its reservation, and the destination once it is ready.
  \<open>recover\<close> gives the same answer, and as long as nothing happened it is the first one. A
  call that reuses the key for another slug or title is an idempotency conflict and changes
  nothing.
\<close>

theorem copy_accept_is_idempotent:
  fixes db :: "'x copy_db_scheme"
  assumes "accept_copy sha256 m now clock ids input db = (db', Inr out)"
    and "copy_jobs_unique (copy_jobs db)" and "copy_step\<^sup>*\<^sup>* db' later"
  shows "(\<exists>out'. accept_copy sha256 m2 now2 clock2 ids2 input later = (later, Inr out')
      \<and> recover_copy sha256 (ci_copierUserId input) (ci_slug input) (ci_title input) (ci_idempotencyKey input) later
        = Inr (Some out')
      \<and> co_id out' = co_id out \<and> co_sourceListingId out' = co_sourceListingId out
      \<and> co_sourceListingRevision out' = co_sourceListingRevision out \<and> co_sourceVersionId out' = co_sourceVersionId out
      \<and> (\<exists>j \<in> set (copy_jobs later). \<exists>r \<in> set (quota_reservations later). cj_id j = co_id out
          \<and> cj_copier_user_id j = ci_copierUserId input \<and> qr_id r = cj_quota_reservation_id j
          \<and> co_state out' = cj_state j \<and> co_quotaState out' = qr_state r
          \<and> co_destinationArtifactId out' = (if cj_state j = Copy_ready then Some (cj_destination_artifact_id j) else None))
      \<and> (later = db' \<longrightarrow> out' = out))
    \<and> (\<forall>other. ci_copierUserId other = ci_copierUserId input \<and> ci_idempotencyKey other = ci_idempotencyKey input
        \<and> copy_fingerprint sha256 (ci_slug other) (js_trim (ci_title other))
          \<noteq> copy_fingerprint sha256 (ci_slug input) (js_trim (ci_title input))
        \<and> js_trim (ci_title other) \<noteq> [] \<and> js_length (js_trim (ci_title other)) \<le> 200 \<longrightarrow>
      accept_copy sha256 m2 now2 clock2 ids2 other later = (later, Inl (Coded ''idempotency_conflict'')))"
proof -
  let ?t = "js_trim (ci_title input)"
  from assms(1) have valid: "?t \<noteq> []" "\<not> js_length ?t > 200"
    and run: "accept_body sha256 m now clock ids ?t input db = Inr (db', out)"
    by (auto simp: accept_copy_def Let_def run_tx_eq_Inr split: if_splits)
  from accept_body_recorded [OF run] obtain j q where row:
    "job_with_quota (same_request sha256 input) db' = Some (j, q)"
    "cj_input_fingerprint j = copy_fingerprint sha256 (ci_slug input) ?t" and out: "outcome (j, q) = out"
    by auto
  have "copy_jobs_unique (copy_jobs db')" using accept_keeps_copies [OF assms(1,2)] by blast
  from run_keeps_copies [OF assms(3) this] have kept: "copies_kept db' later" "copy_jobs_unique (copy_jobs later)" by simp_all
  obtain i p where found: "job_with_quota (same_request sha256 input) later = Some (i, p)"
    and i: "same_copy j i" "i \<in> set (copy_jobs later)" "quota_state_of later i = Some p"
    by (rule job_found_later [of input sha256 db' j q later, OF row(1) kept]) (rule that; assumption)
  note same = same_copy_columns [OF i(1)]
  have "row_where (\<lambda>j. same_request sha256 input j \<and> quota_state_of db' j \<noteq> None) (copy_jobs db') = Some j"
    using row(1) by (auto simp: job_with_quota_def split: option.splits)
  then have user: "cj_copier_user_id j = ci_copierUserId input" by (auto dest: row_where_Some)
  from i(3) obtain r where r: "r \<in> set (quota_reservations later)" "qr_id r = cj_quota_reservation_id i" "p = qr_state r"
    by (auto simp: quota_state_of_def dest: row_where_Some)
  have replay: "accept_copy sha256 m2 now2 clock2 ids2 input later = (later, Inr (outcome (i, p)))"
    "recover_copy sha256 (ci_copierUserId input) (ci_slug input) (ci_title input) (ci_idempotencyKey input) later
        = Inr (Some (outcome (i, p)))"
    using valid found row(2) same(4)
    by (simp_all add: accept_copy_def accept_body_def Let_def run_tx_def recover_copy_def)
  have conflict: "accept_copy sha256 m2 now2 clock2 ids2 other later = (later, Inl (Coded ''idempotency_conflict''))"
    if "ci_copierUserId other = ci_copierUserId input" "ci_idempotencyKey other = ci_idempotencyKey input"
      "copy_fingerprint sha256 (ci_slug other) (js_trim (ci_title other)) \<noteq> copy_fingerprint sha256 (ci_slug input) ?t"
      "js_trim (ci_title other) \<noteq> []" "js_length (js_trim (ci_title other)) \<le> 200" for other
    using found row(2) same(4) that by (simp add: accept_copy_def accept_body_def Let_def run_tx_def)
  have first: "later = db' \<longrightarrow> outcome (i, p) = out" using found row(1) out by auto
  have columns: "co_id (outcome (i, p)) = co_id out" "co_sourceListingId (outcome (i, p)) = co_sourceListingId out"
    "co_sourceListingRevision (outcome (i, p)) = co_sourceListingRevision out"
    "co_sourceVersionId (outcome (i, p)) = co_sourceVersionId out"
    unfolding out [symmetric] by (simp_all add: outcome_def same)
  have "cj_id i = co_id out" unfolding out [symmetric] by (simp add: outcome_def same)
  with r user have state: "\<exists>j \<in> set (copy_jobs later). \<exists>r \<in> set (quota_reservations later). cj_id j = co_id out
      \<and> cj_copier_user_id j = ci_copierUserId input \<and> qr_id r = cj_quota_reservation_id j
      \<and> co_state (outcome (i, p)) = cj_state j \<and> co_quotaState (outcome (i, p)) = qr_state r
      \<and> co_destinationArtifactId (outcome (i, p)) = (if cj_state j = Copy_ready then Some (cj_destination_artifact_id j) else None)"
    by (intro bexI [OF _ i(2)] bexI [OF _ r(1)]) (simp add: outcome_def same)
  from replay columns state first conflict show ?thesis
    by (intro conjI exI [of _ "outcome (i, p)"]) blast+
qed

text \<open>
  What a fresh acceptance was checked against. The listing of the slug is Listed,
  clear or under review, and its artifact is neither restricted nor taken down; the copier
  stays within the copy rate of the active policy, counting this copy, and within both
  storage limits, counting this reservation; the outcome names the current revision's
  version; and conservation of the quota is kept.
\<close>

theorem copy_accept_checks:
  fixes db :: "'x copy_db_scheme"
  assumes "accept_copy sha256 m now clock ids input db = (db', Inr out)"
    and "job_with_quota (same_request sha256 input) db = None"
  shows "\<exists>l policy a. row_where (\<lambda>l. gl_opaque_slug l = ci_slug input) (listings db) = Some l
    \<and> gl_lifecycle_state l = Listed \<and> gl_review_state l \<noteq> Restricted
    \<and> \<not> artifact_blocked db (gl_artifact_id l)
    \<and> row_where qp_active (quota_policies db) = Some policy
    \<and> recent_copies db' (ci_copierUserId input) (clock - qp_copy_rate_window_seconds policy * 1000)
        \<le> qp_copy_rate_limit policy
    \<and> row_where (\<lambda>a. qa_user_id a = ci_copierUserId input) (quota_accounts db') = Some a
    \<and> qa_artifact_usage a + qa_artifact_reserved a \<le> qp_artifact_limit policy
    \<and> qa_storage_usage a + qa_storage_reserved a \<le> qp_storage_bytes_limit policy
    \<and> co_sourceListingId out = gl_id l \<and> current_version db l = Some (co_sourceVersionId out)
    \<and> (quota_ok db \<longrightarrow> quota_ok db')"
proof -
  let ?t = "js_trim (ci_title input)" and ?u = "ci_copierUserId input"
  from assms(1) have run: "accept_body sha256 m now clock ids ?t input db = Inr (db', out)"
    by (auto simp: accept_copy_def Let_def run_tx_eq_Inr split: if_splits)
  show ?thesis
  proof (rule accept_body_fresh [OF run assms(2)])
    fix l account version and policy :: policy_row and db0 db1 db2 db3 :: "'x copy_db_scheme"
    let ?b = "listing_bytes db0 l"
    let ?r = "held_reservation (id_reservation ids) ?u (qp_revision policy) 1 ?b (now + 3600000)"
    let ?j = "new_job sha256 ids input ?t l version ?b (qp_revision policy) m"
    assume l: "row_where (\<lambda>l. gl_opaque_slug l = ci_slug input) (listings db) = Some l"
        "gl_lifecycle_state l = Listed" "gl_review_state l = Clear \<or> gl_review_state l = Reviewing"
        "\<not> artifact_blocked db (gl_artifact_id l)" "row_where qp_active (quota_policies db) = Some policy"
      and rate: "recent_copies db ?u (clock - qp_copy_rate_window_seconds policy * 1000) < qp_copy_rate_limit policy"
      and db0: "db0 = ensure_account ?u (qp_revision policy) db"
      and acc: "row_where (\<lambda>a. qa_user_id a = ?u) (quota_accounts db0) = Some account"
      and lim: "qa_artifact_usage account + qa_artifact_reserved account + 1 \<le> qp_artifact_limit policy"
        "qa_storage_usage account + qa_storage_reserved account + ?b \<le> qp_storage_bytes_limit policy"
      and ins: "insert_reservation ?r db0 = Inr db1"
      and upd: "update_accounts (\<lambda>a. qa_user_id a = ?u) (add_reserved 1 ?b) db1 = Inr db2"
      and ver: "current_version db2 l = Some version"
      and job: "insert_copy_job ?j db2 = Inr db3"
      and db': "db' = record_acceptance now ids ?u (qp_revision policy)
        (clock - qp_copy_rate_window_seconds policy * 1000) l version db3"
      and out: "out = accepted_outcome ids l version"
    note fr = statement_frames [OF ins upd]
    have keep: "qa_user_id (add_reserved 1 ?b a) = qa_user_id a" for a by (simp add: add_reserved_def)
    have "row_where (\<lambda>a. qa_user_id a = ?u) (quota_accounts db') = Some (add_reserved 1 ?b account)"
      using job by (simp add: insert_copy_job_Inr db' record_acceptance_def fr(6) row_where_account_update [OF keep] acc)
    moreover have "recent_copies db' ?u (clock - qp_copy_rate_window_seconds policy * 1000) \<le> qp_copy_rate_limit policy"
      using rate job fr(2) by (simp add: insert_copy_job_Inr db' record_acceptance_def db0 recent_copies_def)
    moreover have "quota_ok db \<longrightarrow> quota_ok db'"
    proof
      assume "quota_ok db"
      then have "quota_ok db2"
        by (intro grant_keeps_quota_ok [OF _ _ ins upd]) (simp_all add: db0 ensure_account_ok ensure_account_exists)
      then show "quota_ok db'" using job by (simp add: insert_copy_job_Inr db' record_acceptance_def quota_ok_def quota_tables_ok_def)
    qed
    moreover have "current_version db l = Some (co_sourceVersionId out)"
      using ver fr(4) by (simp add: db0 out accepted_outcome_def)
    ultimately show ?thesis
      using l lim by (intro exI [of _ l] exI [of _ policy] exI [of _ "add_reserved 1 ?b account"])
        (auto simp: add_reserved_def out accepted_outcome_def)
  qed
qed

subsection \<open>Witnesses\<close>

text \<open>A Listed listing \<open>l1\<close> with one revision, and an identity digest.\<close>

definition example_copy_listing :: listing_row where
  "example_copy_listing =
     \<lparr>gl_id = ''l1'', gl_artifact_id = ''a1'', gl_owner_user_id = ''u1'',
      gl_creator_profile_id = ''p1'', gl_opaque_slug = ''slug1'', gl_lifecycle_state = Listed,
      gl_review_state = Clear, gl_closure_reason = None, gl_listing_revision = 2,
      gl_current_revision_id = Some ''r1'', gl_predecessor_listing_id = None,
      gl_restoration_forfeited_at = None, gl_created_at = 0, gl_updated_at = 0,
      gl_closed_at = None\<rparr>"

definition example_copy_db :: copy_db where
  "example_copy_db =
     \<lparr>listings = [example_copy_listing], proposals = [],
      revisions = [\<lparr>gr_id = ''r1'', gr_listing_id = ''l1'', gr_revision = 2, gr_version_id = ''v1'',
        gr_permission_acceptance_id = ''g1'', gr_public_title = ''Title'', gr_public_description = None, gr_tags = []\<rparr>],
      acceptances = [], lifecycle_events = [],
      tombstones = [], profiles = [], public_sharing_restrictions = [], artifact_takedowns = [],
      appeals = [], decisions = [], cases = [], account_closures = [],
      quota_policies = [example_policy], quota_accounts = [], quota_reservations = [],
      artifacts = [], bundles = [], manifests = [\<lparr>cm_bundle_id = ''b1'', cm_total_size_bytes = 40\<rparr>],
      copy_jobs = [], copy_rate_evidence = [], copy_retentions = [],
      versions = [\<lparr>av_id = ''v1'', av_content_bundle_id = Some ''b1''\<rparr>]\<rparr>"

definition example_copy_input :: copy_input where
  "example_copy_input = \<lparr>ci_copierUserId = ''u2'', ci_slug = ''slug1'', ci_title = ''Mine'', ci_idempotencyKey = ''k''\<rparr>"

definition example_copy_ids :: copy_ids where
  "example_copy_ids = \<lparr>id_job = ''j1'', id_artifact = ''a2'', id_version = ''v2'', id_reservation = ''q1'', id_retention = ''t1''\<rparr>"

lemma js_trim_examples: "js_trim ''Mine'' = ''Mine''" "js_trim ''Other'' = ''Other''" "js_length ''Mine'' = 4" "js_length ''Other'' = 5"
  by code_simp+

lemma example_copy_accepted:
  "\<exists>db' out. accept_copy (\<lambda>s. s) 3 5 5 example_copy_ids example_copy_input example_copy_db = (db', Inr out)"
proof -
  have "\<exists>db' out. accept_body (\<lambda>s. s) 3 5 5 example_copy_ids ''Mine'' example_copy_input example_copy_db = Inr (db', out)"
    by (simp add: accept_body_def example_copy_ids_def example_copy_input_def example_copy_db_def
        example_copy_listing_def example_policy_def job_with_quota_def artifact_blocked_def exists_where_def
        recent_copies_def ensure_account_def listing_bytes_def current_version_def version_bytes_def
        insert_reservation_def held_reservation_def reservation_row_ok_def update_accounts_def
        add_reserved_def account_row_ok_def insert_copy_job_def new_job_def copy_jobs_unique_def
        unique_on_def Let_def)
  then show ?thesis
    by (auto simp: accept_copy_def example_copy_input_def js_trim_examples utf16_units_def Let_def)
qed

lemma example_fingerprints:
  "copy_fingerprint (\<lambda>s. s) ''slug1'' ''Other'' \<noteq> copy_fingerprint (\<lambda>s. s) ''slug1'' ''Mine''"
  by code_simp

text \<open>The source is withdrawn between the acceptance and its repetition.\<close>

theorem copy_accept_is_idempotent_witness:
  "\<exists>db' :: copy_db. \<exists>out'. listings db' = [example_copy_listing\<lparr>gl_lifecycle_state := Withdrawn\<rparr>]
    \<and> accept_copy (\<lambda>s. s) 3 9 9 example_copy_ids example_copy_input db' = (db', Inr out')
    \<and> accept_copy (\<lambda>s. s) 3 9 9 example_copy_ids (example_copy_input\<lparr>ci_title := ''Other''\<rparr>) db'
      = (db', Inl (Coded ''idempotency_conflict''))"
proof -
  obtain db' out where accepted:
    "accept_copy (\<lambda>s. s) 3 5 5 example_copy_ids example_copy_input example_copy_db = (db', Inr out)"
    using example_copy_accepted by blast
  let ?later = "db'\<lparr>listings := [example_copy_listing\<lparr>gl_lifecycle_state := Withdrawn\<rparr>]\<rparr>"
  let ?other = "example_copy_input\<lparr>ci_title := ''Other''\<rparr>"
  have "copy_jobs_unique (copy_jobs example_copy_db)"
    by (simp add: example_copy_db_def copy_jobs_unique_def unique_on_def)
  moreover have "copy_step db' ?later" by (rule Step_elsewhere) simp_all
  ultimately have "(\<exists>out'. accept_copy (\<lambda>s. s) 3 9 9 example_copy_ids example_copy_input ?later = (?later, Inr out'))
      \<and> accept_copy (\<lambda>s. s) 3 9 9 example_copy_ids ?other ?later = (?later, Inl (Coded ''idempotency_conflict''))"
    using copy_accept_is_idempotent [OF accepted _ r_into_rtranclp, of ?later 3 9 9 example_copy_ids] example_fingerprints
    by (auto simp: example_copy_input_def js_trim_examples utf16_units_def)
  then show ?thesis by (intro exI [of _ ?later]) auto
qed

theorem copy_accept_checks_witness:
  "\<exists>db' :: copy_db. \<exists>a. row_where (\<lambda>a. qa_user_id a = ''u2'') (quota_accounts db') = Some a
     \<and> qa_artifact_usage a + qa_artifact_reserved a \<le> 100"
proof -
  obtain db' out where r:
    "accept_copy (\<lambda>s. s) 3 5 5 example_copy_ids example_copy_input example_copy_db = (db', Inr out)"
    using example_copy_accepted by blast
  have "job_with_quota (same_request (\<lambda>s. s) example_copy_input) example_copy_db = None"
    by (simp add: job_with_quota_def example_copy_db_def)
  from copy_accept_checks [OF r this] obtain policy a where
    "row_where qp_active (quota_policies example_copy_db) = Some policy"
    "row_where (\<lambda>a. qa_user_id a = ci_copierUserId example_copy_input) (quota_accounts db') = Some a"
    "qa_artifact_usage a + qa_artifact_reserved a \<le> qp_artifact_limit policy"
    by blast
  then show ?thesis
    by (intro exI [of _ db'] exI [of _ a]) (auto simp: example_copy_db_def example_policy_def example_copy_input_def)
qed

end
