(* ===== verification/Rollback_Coordinator.thy ===== *)
theory Rollback_Coordinator
  imports Gallery_Copy
begin

text \<open>
  Fencing of Gallery work after the Gallery is disabled at runtime,
  \<open>api/src/application/gallery/rollback-coordinator.ts\<close>. One transaction requeues running
  safety and cover jobs, cancels copies in flight and gives their quota back. The lemmas
  show what it fences and the state in which it gives back too little quota.
\<close>

datatype lease_job_state = Job_queued | Job_running | Job_succeeded | Job_failed

record lease_job_row =
  lj_id :: js_string
  lj_state :: lease_job_state
  lj_lease_owner :: "js_string option"
  lj_fence_token :: int

datatype attempt_state =
  Attempt_running | Attempt_succeeded | Attempt_failed | Attempt_cancelled | Attempt_lease_lost

record copy_attempt_row =
  at_job_id :: js_string
  at_object_prefix :: js_string
  at_state :: attempt_state
  at_failure_code :: "js_string option"
  at_finished_at :: "time option"

record rollback_db = copy_db +
  safety_jobs :: "lease_job_row list"
  cover_jobs :: "lease_job_row list"
  copy_attempts :: "copy_attempt_row list"

definition requeue_running :: "lease_job_row list \<Rightarrow> lease_job_row list" where
  "requeue_running =
     update_where (\<lambda>j. lj_state j = Job_running)
       (\<lambda>j. j\<lparr>lj_state := Job_queued, lj_lease_owner := None, lj_fence_token := lj_fence_token j + 1\<rparr>)"

definition cancel_copies :: "time \<Rightarrow> copy_job_row list \<Rightarrow> copy_job_row list" where
  "cancel_copies now =
     update_where (\<lambda>j. cj_state j = Copy_accepted \<or> cj_state j = Copy_processing)
       (\<lambda>j. j\<lparr>cj_state := Copy_cancelled, cj_terminal_failure_code := Some ''gallery_unavailable'',
              cj_lease_owner := None, cj_fence_token := cj_fence_token j + 1,
              cj_finished_at := Some now\<rparr>)"

definition cancelled_job :: "copy_job_row list \<Rightarrow> js_string \<Rightarrow> bool" where
  "cancelled_job js x \<longleftrightarrow> exists_where (\<lambda>j. cj_id j = x \<and> cj_state j = Copy_cancelled) js"

definition fail_attempts :: "time \<Rightarrow> copy_job_row list \<Rightarrow> copy_attempt_row list \<Rightarrow> copy_attempt_row list" where
  "fail_attempts now js =
     update_where (\<lambda>a. cancelled_job js (at_job_id a) \<and> at_state a = Attempt_running)
       (\<lambda>a. a\<lparr>at_state := Attempt_failed, at_failure_code := Some ''gallery_unavailable'',
              at_finished_at := Some now\<rparr>)"

definition attempt_prefixes :: "copy_job_row list \<Rightarrow> copy_attempt_row list \<Rightarrow> js_string list" where
  "attempt_prefixes js as =
     js_unique (map at_object_prefix
       (filter (\<lambda>a. cancelled_job js (at_job_id a) \<and> at_state a = Attempt_failed) as))"

text \<open>A held reservation of a cancelled copy.\<close>

definition to_release :: "copy_job_row list \<Rightarrow> reservation_row \<Rightarrow> bool" where
  "to_release js r \<longleftrightarrow> qr_state r = Held \<and>
     exists_where (\<lambda>j. cj_quota_reservation_id j = qr_id r \<and> cj_state j = Copy_cancelled) js"

definition release_reservation :: "time \<Rightarrow> reservation_row \<Rightarrow> reservation_row" where
  "release_reservation now r = r\<lparr>qr_state := Released, qr_released_at := Some now\<rparr>"

text \<open>
  \<open>update account ... from reservation join job\<close>: PostgreSQL updates every account row that
  joins at all exactly once, with one of the joined reservations; here the first.
\<close>

definition give_back_quota ::
  "copy_job_row list \<Rightarrow> 'x quota_db_scheme \<Rightarrow> tx_error + 'x quota_db_scheme" where
  "give_back_quota js db =
     update_accounts
       (\<lambda>a. exists_where (\<lambda>r. qr_user_id r = qa_user_id a \<and> to_release js r) (quota_reservations db))
       (\<lambda>a. case row_where (\<lambda>r. qr_user_id r = qa_user_id a \<and> to_release js r) (quota_reservations db) of
             None \<Rightarrow> a
           | Some r \<Rightarrow> settle_account Released (qr_artifact_count r) (qr_storage_bytes r) a) db"

definition release_retention :: "time \<Rightarrow> copy_job_row list \<Rightarrow> retention_row list \<Rightarrow> retention_row list" where
  "release_retention now js =
     update_where (\<lambda>r. cancelled_job js (rt_job_id r))
       (\<lambda>r. r\<lparr>rt_release_after := (case rt_release_after r of None \<Rightarrow> Some now | Some t \<Rightarrow> Some t),
              rt_released_at := (case rt_released_at r of None \<Rightarrow> Some now | Some t \<Rightarrow> Some t)\<rparr>)"

definition reconcile_disabled_body ::
  "time \<Rightarrow> 'x rollback_db_scheme \<Rightarrow> tx_error + 'x rollback_db_scheme \<times> js_string list" where
  "reconcile_disabled_body now db =
     (let db = db\<lparr>safety_jobs := requeue_running (safety_jobs db)\<rparr>;
          db = db\<lparr>cover_jobs := requeue_running (cover_jobs db)\<rparr>;
          db = db\<lparr>copy_jobs := cancel_copies now (copy_jobs db)\<rparr>;
          db = db\<lparr>copy_attempts := fail_attempts now (copy_jobs db) (copy_attempts db)\<rparr>;
          prefixes = attempt_prefixes (copy_jobs db) (copy_attempts db)
      in bindR (give_back_quota (copy_jobs db) db) (\<lambda>db.
         bindR (update_reservations (to_release (copy_jobs db)) (release_reservation now) db) (\<lambda>db.
         Inr (db\<lparr>copy_retentions := release_retention now (copy_jobs db) (copy_retentions db)\<rparr>, prefixes))))"

text \<open>The transaction, and the staging prefixes whose objects are removed after its commit.\<close>

definition reconcileDisabled ::
  "time \<Rightarrow> 'x rollback_db_scheme \<Rightarrow> 'x rollback_db_scheme \<times> (tx_error + js_string list)" where
  "reconcileDisabled now db =
     (case run_tx (reconcile_disabled_body now) db of
        (db', Inl e) \<Rightarrow> (db', Inl e)
      | (db', Inr prefixes) \<Rightarrow> (db', Inr (filter (starts_with ''staging/gallery-copy/'') prefixes)))"

subsection \<open>What is fenced\<close>

lemma reconcileDisabled_body:
  "reconcileDisabled now db = (db', Inr ps) \<Longrightarrow>
     \<exists>qs. reconcile_disabled_body now db = Inr (db', qs) \<and> ps = filter (starts_with ''staging/gallery-copy/'') qs"
  by (auto simp: reconcileDisabled_def run_tx_def split: sum.splits)

text \<open>The tables a committed run leaves.\<close>

lemma reconcile_disabled_effect:
  assumes "reconcile_disabled_body now db = Inr (db', qs)"
  shows "safety_jobs db' = requeue_running (safety_jobs db)"
    and "cover_jobs db' = requeue_running (cover_jobs db)"
    and "copy_jobs db' = cancel_copies now (copy_jobs db)"
    and "copy_attempts db' = fail_attempts now (copy_jobs db') (copy_attempts db)"
    and "quota_reservations db' = update_where (to_release (copy_jobs db')) (release_reservation now)
      (quota_reservations db)"
    and "quota_accounts db' = update_where
       (\<lambda>a. exists_where (\<lambda>r. qr_user_id r = qa_user_id a \<and> to_release (copy_jobs db') r) (quota_reservations db))
       (\<lambda>a. case row_where (\<lambda>r. qr_user_id r = qa_user_id a \<and> to_release (copy_jobs db') r) (quota_reservations db) of
             None \<Rightarrow> a
           | Some r \<Rightarrow> settle_account Released (qr_artifact_count r) (qr_storage_bytes r) a) (quota_accounts db)"
    and "listings db' = listings db" and "proposals db' = proposals db"
    and "qs = attempt_prefixes (copy_jobs db') (copy_attempts db')"
  using assms
  by (auto simp: reconcile_disabled_body_def Let_def bindR_eq_Inr give_back_quota_def update_accounts_Inr
      update_reservations_Inr)

lemma to_release_settled [simp]: "\<not> to_release js (release_reservation now r)"
  by (simp add: to_release_def release_reservation_def)

lemma cancel_copies_terminal:
  "list_all (\<lambda>j. cj_state j \<noteq> Copy_accepted \<and> cj_state j \<noteq> Copy_processing) (cancel_copies now js)"
  unfolding cancel_copies_def by (rule list_all_update_where) simp

lemma reconcile_disabled_frame:
  assumes "reconcile_disabled_body now db = Inr (db', qs)"
  shows "db' = db\<lparr>safety_jobs := safety_jobs db', cover_jobs := cover_jobs db', copy_jobs := copy_jobs db',
      copy_attempts := copy_attempts db', quota_accounts := quota_accounts db', quota_reservations := quota_reservations db',
      copy_retentions := copy_retentions db'\<rparr>"
    and "copy_retentions db' = release_retention now (copy_jobs db') (copy_retentions db)"
  using assms
  by (auto simp: reconcile_disabled_body_def Let_def bindR_eq_Inr give_back_quota_def update_accounts_Inr
      update_reservations_Inr)

lemma list_all2_update_where: "(\<And>x. x \<in> set t \<Longrightarrow> P x (if p x then f x else x)) \<Longrightarrow> list_all2 P t (update_where p f t)"
  by (simp add: update_where_def list_all2_map2 list.rel_refl_strong)

text \<open>
  C31: disabling the Gallery fences all expanding work and touches nothing else. A committed
  run queues exactly the running safety and cover jobs again and cancels exactly the accepted and
  processing copies, each with its lease gone and its fence token advanced; it fails the running
  attempts of cancelled copies, releases exactly the held reservations of cancelled copies and ends
  the retention of their sources. The account of a user gives back one of the released
  reservations, whichever the database joins, and is untouched when there is none; that is all
  of them only when the user has one (a second one stays reserved for ever). Every other row and
  every other table is as it was, and the prefixes removed afterwards are those of the failed
  attempts of cancelled copies below the staging root.
\<close>

theorem reconcileDisabled_fences:
  assumes "reconcileDisabled now db = (db', Inr ps)"
  defines "cancelled \<equiv> \<lambda>x. \<exists>j \<in> set (copy_jobs db'). cj_id j = x \<and> cj_state j = Copy_cancelled"
    and "released \<equiv> \<lambda>r. qr_state r = Held \<and> (\<exists>j \<in> set (copy_jobs db'). cj_quota_reservation_id j = qr_id r \<and> cj_state j = Copy_cancelled)"
    and "requeued \<equiv> \<lambda>j. if lj_state j = Job_running
      then j\<lparr>lj_state := Job_queued, lj_lease_owner := None, lj_fence_token := lj_fence_token j + 1\<rparr> else j"
  shows "db' = db\<lparr>safety_jobs := map requeued (safety_jobs db), cover_jobs := map requeued (cover_jobs db),
        copy_jobs := map (\<lambda>j. if cj_state j = Copy_accepted \<or> cj_state j = Copy_processing
          then j\<lparr>cj_state := Copy_cancelled, cj_terminal_failure_code := Some ''gallery_unavailable'', cj_lease_owner := None,
            cj_fence_token := cj_fence_token j + 1, cj_finished_at := Some now\<rparr> else j) (copy_jobs db),
        copy_attempts := map (\<lambda>a. if cancelled (at_job_id a) \<and> at_state a = Attempt_running
          then a\<lparr>at_state := Attempt_failed, at_failure_code := Some ''gallery_unavailable'', at_finished_at := Some now\<rparr>
          else a) (copy_attempts db),
        quota_accounts := quota_accounts db',
        quota_reservations := map (\<lambda>r. if released r then r\<lparr>qr_state := Released, qr_released_at := Some now\<rparr> else r)
          (quota_reservations db),
        copy_retentions := map (\<lambda>r. if cancelled (rt_job_id r)
          then r\<lparr>rt_release_after := (if rt_release_after r = None then Some now else rt_release_after r),
            rt_released_at := (if rt_released_at r = None then Some now else rt_released_at r)\<rparr> else r) (copy_retentions db)\<rparr>
    \<and> list_all2 (\<lambda>a a'. if \<exists>r \<in> set (quota_reservations db). qr_user_id r = qa_user_id a \<and> released r
          then \<exists>r \<in> set (quota_reservations db). qr_user_id r = qa_user_id a \<and> released r
            \<and> a' = a\<lparr>qa_artifact_reserved := qa_artifact_reserved a - qr_artifact_count r,
                qa_storage_reserved := qa_storage_reserved a - qr_storage_bytes r, qa_revision := qa_revision a + 1\<rparr>
          else a' = a) (quota_accounts db) (quota_accounts db')
    \<and> distinct ps \<and> set ps = {at_object_prefix a | a. a \<in> set (copy_attempts db') \<and> cancelled (at_job_id a)
        \<and> at_state a = Attempt_failed \<and> starts_with ''staging/gallery-copy/'' (at_object_prefix a)}
    \<and> (\<forall>j \<in> set (safety_jobs db' @ cover_jobs db'). lj_state j \<noteq> Job_running)
    \<and> (\<forall>j \<in> set (copy_jobs db'). cj_state j \<noteq> Copy_accepted \<and> cj_state j \<noteq> Copy_processing)
    \<and> (\<forall>r \<in> set (quota_reservations db'). \<not> released r)"
proof -
  obtain qs where run: "reconcile_disabled_body now db = Inr (db', qs)"
    and ps: "ps = filter (starts_with ''staging/gallery-copy/'') qs"
    using reconcileDisabled_body [OF assms(1)] by blast
  note e = reconcile_disabled_effect [OF run] and f = reconcile_disabled_frame [OF run]
  have cancelled: "cancelled_job (copy_jobs db') = cancelled"
    by (rule ext) (auto simp: cancelled_job_def cancelled_def exists_where_iff)
  have released: "to_release (copy_jobs db') = released"
    by (rule ext) (auto simp: to_release_def released_def exists_where_iff)
  have requeued: "requeue_running js = map requeued js" for js
    by (simp add: requeue_running_def update_where_def requeued_def)
  have coalesce: "(case x of None \<Rightarrow> Some now | Some t \<Rightarrow> Some t) = (if x = None then Some now else x)" for x
    by (simp split: option.split)
  note tables = e(1,2) [unfolded requeued] e(3) [unfolded cancel_copies_def update_where_def]
    e(4) [unfolded fail_attempts_def cancelled update_where_def]
    e(5) [unfolded released update_where_def release_reservation_def]
    f(2) [unfolded release_retention_def cancelled update_where_def coalesce]
  have accounts: "list_all2 (\<lambda>a a'. if \<exists>r \<in> set (quota_reservations db). qr_user_id r = qa_user_id a \<and> released r
          then \<exists>r \<in> set (quota_reservations db). qr_user_id r = qa_user_id a \<and> released r
            \<and> a' = a\<lparr>qa_artifact_reserved := qa_artifact_reserved a - qr_artifact_count r,
                qa_storage_reserved := qa_storage_reserved a - qr_storage_bytes r, qa_revision := qa_revision a + 1\<rparr>
          else a' = a) (quota_accounts db) (quota_accounts db')"
    unfolding e(6) released
  proof (rule list_all2_update_where)
    fix a :: account_row
    let ?p = "\<lambda>r. qr_user_id r = qa_user_id a \<and> released r"
    let ?q = "\<lambda>r. a\<lparr>qa_artifact_reserved := qa_artifact_reserved a - qr_artifact_count r,
        qa_storage_reserved := qa_storage_reserved a - qr_storage_bytes r, qa_revision := qa_revision a + 1\<rparr>"
    let ?new = "if exists_where ?p (quota_reservations db) then (case row_where ?p (quota_reservations db) of None \<Rightarrow> a
        | Some r \<Rightarrow> settle_account Released (qr_artifact_count r) (qr_storage_bytes r) a) else a"
    have "\<exists>r \<in> set (quota_reservations db). qr_user_id r = qa_user_id a \<and> released r \<and> ?new = ?q r"
      if "exists_where ?p (quota_reservations db)"
    proof -
      from that obtain r where r: "row_where ?p (quota_reservations db) = Some r"
        by (cases "row_where ?p (quota_reservations db)") (auto simp: exists_where_iff row_where_None)
      from row_where_Some [OF r] show ?thesis using that by (intro bexI [of _ r]) (simp_all add: r settle_account_def)
    qed
    then show "if \<exists>r \<in> set (quota_reservations db). ?p r
        then \<exists>r \<in> set (quota_reservations db). qr_user_id r = qa_user_id a \<and> released r \<and> ?new = ?q r else ?new = a"
      by (simp add: exists_where_iff) blast
  qed
  have prefixes: "distinct ps" "set ps = {at_object_prefix a | a. a \<in> set (copy_attempts db') \<and> cancelled (at_job_id a)
        \<and> at_state a = Attempt_failed \<and> starts_with ''staging/gallery-copy/'' (at_object_prefix a)}"
    unfolding ps e(9) attempt_prefixes_def cancelled by auto
  have fenced: "\<forall>j \<in> set (safety_jobs db' @ cover_jobs db'). lj_state j \<noteq> Job_running"
    "\<forall>j \<in> set (copy_jobs db'). cj_state j \<noteq> Copy_accepted \<and> cj_state j \<noteq> Copy_processing"
    unfolding tables(1-3) requeued_def by auto
  have "\<forall>r \<in> set (quota_reservations db'). \<not> released r"
    unfolding tables(5) released_def by auto
  with f(1) [unfolded tables] accounts prefixes fenced show ?thesis by (intro conjI) assumption+
qed

subsection \<open>Quota given back\<close>

lemma held_of_release:
  "held_of u f (update_where p (release_reservation now) rs)
    = held_of u f rs - sum_where (\<lambda>r. qr_user_id r = u \<and> qr_state r = Held \<and> p r) f rs"
  unfolding held_of_def by (induction rs) (auto simp: release_reservation_def)

lemma sum_where_two:
  assumes "r \<in> set t" "q \<in> set t" "r \<noteq> q" "p r" "p q" and "\<And>x. x \<in> set t \<Longrightarrow> p x \<Longrightarrow> (0::int) \<le> f x"
  shows "f r + f q \<le> sum_where p f t"
  using assms
proof (induction t)
  case (Cons x t)
  have ge: "f y \<le> sum_where p f t" if "y \<in> set t" "p y" for y
    by (rule sum_where_ge_member) (use that Cons.prems(6) in auto)
  consider "x = r" | "x = q" | "x \<noteq> r" "x \<noteq> q" by blast
  then show ?case
  proof cases
    case 1
    then show ?thesis using Cons.prems ge [of q] by auto
  next
    case 2
    then show ?thesis using Cons.prems ge [of r] by auto
  next
    case 3
    then have "f r + f q \<le> sum_where p f t" using Cons by auto
    then show ?thesis using Cons.prems(6) [of x] by auto
  qed
qed simp

text \<open>
  A user with two copies in flight keeps quota reserved for ever. From any consistent
  state in which one user holds two reservations of copies that are cancelled by the run,
  a committed run releases both reservations but subtracts only one of them from the
  account: the reserved totals no longer are the sums of the held reservations.
\<close>

theorem reconcileDisabled_leaks_quota:
  assumes ok: "quota_ok db" and run: "reconcileDisabled now db = (db', Inr ps)"
    and two: "r \<in> set (quota_reservations db)" "q \<in> set (quota_reservations db)" "r \<noteq> q"
      "qr_user_id r = qr_user_id q"
      "to_release (cancel_copies now (copy_jobs db)) r" "to_release (cancel_copies now (copy_jobs db)) q"
  shows "\<not> quota_ok db'"
proof
  assume ok': "quota_ok db'"
  let ?u = "qr_user_id r" and ?js = "cancel_copies now (copy_jobs db)"
  obtain qs where body: "reconcile_disabled_body now db = Inr (db', qs)"
    using reconcileDisabled_body [OF run] by blast
  note e = reconcile_disabled_effect [OF body]
  let ?p = "\<lambda>x. qr_user_id x = ?u \<and> to_release ?js x"
  have held: "qr_state r = Held" using two(5) by (simp add: to_release_def)
  from ok two(1) held obtain a where a: "a \<in> set (quota_accounts db)" "qa_user_id a = ?u"
    "qa_artifact_reserved a = held_of ?u qr_artifact_count (quota_reservations db)"
    by (force simp: quota_ok_def conserved_def list_all_iff exists_where_iff)
  have "exists_where ?p (quota_reservations db)" using two(1,5) by (auto simp: exists_where_iff)
  then obtain f where f: "row_where ?p (quota_reservations db) = Some f"
    by (cases "row_where ?p (quota_reservations db)") (auto simp: exists_where_iff row_where_None)
  have "settle_account Released (qr_artifact_count f) (qr_storage_bytes f) a \<in> set (quota_accounts db')"
    unfolding e(6) set_update_where using a(1,2) f \<open>exists_where ?p (quota_reservations db)\<close>
    by (intro image_eqI [of _ _ a]) (simp_all add: e(3))
  with ok' have "qa_artifact_reserved (settle_account Released (qr_artifact_count f) (qr_storage_bytes f) a)
      = held_of ?u qr_artifact_count (quota_reservations db')"
    by (auto simp: quota_ok_def conserved_def list_all_iff a(2))
  then have sums: "qr_artifact_count f
      = sum_where (\<lambda>x. qr_user_id x = ?u \<and> qr_state x = Held \<and> to_release ?js x) qr_artifact_count (quota_reservations db)"
    by (simp add: settle_account_def a(3) e(5) e(3) held_of_release)
  have pos: "0 < qr_artifact_count x" if "x \<in> set (quota_reservations db)" for x
    using ok that by (auto simp: quota_ok_def quota_tables_ok_def list_all_iff reservation_row_ok_def)
  have fin: "f \<in> set (quota_reservations db)" "?p f" using row_where_Some [OF f] by simp_all
  obtain g where g: "g \<in> set (quota_reservations db)" "g \<noteq> f" "?p g" using two by (cases "f = r") auto
  have "qr_artifact_count f + qr_artifact_count g
      \<le> sum_where (\<lambda>x. qr_user_id x = ?u \<and> qr_state x = Held \<and> to_release ?js x) qr_artifact_count (quota_reservations db)"
    by (rule sum_where_two) (use fin g pos in \<open>force simp: to_release_def\<close>)+
  with sums pos [OF g(1)] show False by simp
qed

subsection \<open>Witnesses\<close>

text \<open>One user with two accepted copies, each with its held reservation.\<close>

definition example_job :: "js_string \<Rightarrow> js_string \<Rightarrow> js_string \<Rightarrow> copy_job_row" where
  "example_job x r k = (new_job (\<lambda>s. s) example_copy_ids example_copy_input ''Mine'' example_copy_listing ''v1'' 40
     ''artifact-storage/v1'' 3)\<lparr>cj_id := x, cj_quota_reservation_id := r, cj_idempotency_key_digest := k\<rparr>"

definition example_rollback_db :: rollback_db where
  "example_rollback_db =
     \<lparr>listings = [], proposals = [], revisions = [], acceptances = [], lifecycle_events = [],
      tombstones = [], profiles = [], public_sharing_restrictions = [], artifact_takedowns = [],
      appeals = [], decisions = [], cases = [], account_closures = [],
      quota_policies = [example_policy],
      quota_accounts = [\<lparr>qa_user_id = ''u2'', qa_policy_revision = ''artifact-storage/v1'',
        qa_artifact_usage = 0, qa_storage_usage = 0, qa_artifact_reserved = 2,
        qa_storage_reserved = 80, qa_revision = 3\<rparr>],
      quota_reservations = [held_reservation ''q1'' ''u2'' ''artifact-storage/v1'' 1 40 9,
        held_reservation ''q2'' ''u2'' ''artifact-storage/v1'' 1 40 9],
      artifacts = [], bundles = [], manifests = [],
      copy_jobs = [example_job ''j1'' ''q1'' ''k1'', example_job ''j2'' ''q2'' ''k2''],
      copy_rate_evidence = [], copy_retentions = [], versions = [],
      safety_jobs = [], cover_jobs = [], copy_attempts = []\<rparr>"

lemma example_rollback_ok: "quota_ok example_rollback_db"
  by (simp add: quota_ok_def quota_tables_ok_def conserved_def example_rollback_db_def account_row_ok_def
      reservation_row_ok_def held_reservation_def held_of_def unique_on_def exists_where_def)

lemma example_to_release:
  "to_release (cancel_copies 7 (copy_jobs example_rollback_db)) (held_reservation ''q1'' ''u2'' ''artifact-storage/v1'' 1 40 9)"
  "to_release (cancel_copies 7 (copy_jobs example_rollback_db)) (held_reservation ''q2'' ''u2'' ''artifact-storage/v1'' 1 40 9)"
  by (simp_all add: to_release_def cancel_copies_def example_rollback_db_def example_job_def new_job_def Let_def
      held_reservation_def exists_where_def)

lemma example_rollback_runs: "\<exists>db' ps. reconcileDisabled 7 example_rollback_db = (db', Inr ps)"
proof -
  have "\<exists>db' qs. reconcile_disabled_body 7 example_rollback_db = Inr (db', qs)"
    by (simp add: reconcile_disabled_body_def give_back_quota_def Let_def requeue_running_def cancel_copies_def
        fail_attempts_def attempt_prefixes_def release_retention_def example_rollback_db_def example_job_def
        new_job_def to_release_def held_reservation_def exists_where_def settle_account_def update_accounts_def
        account_row_ok_def update_reservations_def release_reservation_def reservation_row_ok_def)
  then show ?thesis by (auto simp: reconcileDisabled_def)
qed

theorem reconcileDisabled_leaks_quota_witness:
  "\<exists>db' ps. reconcileDisabled 7 example_rollback_db = (db', Inr ps) \<and> \<not> quota_ok db'"
proof -
  obtain db' ps where r: "reconcileDisabled 7 example_rollback_db = (db', Inr ps)"
    using example_rollback_runs by blast
  have "\<not> quota_ok db'"
    by (rule reconcileDisabled_leaks_quota [OF example_rollback_ok r _ _ _ _ example_to_release])
      (simp_all add: example_rollback_db_def held_reservation_def)
  with r show ?thesis by blast
qed

theorem reconcileDisabled_fences_witness:
  "\<exists>db' ps. reconcileDisabled 7 example_rollback_db = (db', Inr ps)
    \<and> (\<forall>j \<in> set (copy_jobs db'). cj_state j \<noteq> Copy_accepted \<and> cj_state j \<noteq> Copy_processing)"
proof -
  obtain db' ps where r: "reconcileDisabled 7 example_rollback_db = (db', Inr ps)"
    using example_rollback_runs by blast
  from reconcileDisabled_fences [OF r]
  have "\<forall>j \<in> set (copy_jobs db'). cj_state j \<noteq> Copy_accepted \<and> cj_state j \<noteq> Copy_processing"
    by (elim conjE) assumption
  with r show ?thesis by (intro exI conjI)
qed

end
