(* ===== verification/Archive_Entries.thy ===== *)
theory Archive_Entries
  imports Js_Strings "HOL-Library.Multiset"
begin

text \<open>
  Structural preflight of an uploaded archive, \<open>web/src/artifacts/archive-preflight.ts\<close>
  lines 1 to 167 and 273 to 278: the paths, sizes and entry file of the listed entries
  against the upload policy. The lemmas show that an accepted archive satisfies every bound
  of the policy and contains only safe, distinct paths and exactly one entry file. The
  comparison \<open>localeCompare\<close> of the host is a parameter \<open>collate\<close>; sizes are integers.
\<close>

subsection \<open>Reports\<close>

record ValidationDetails =
  vd_path :: "js_string option"
  vd_paths :: "js_string list option"
  vd_candidates :: "js_string list option"
  vd_extension :: "js_string option"
  vd_validationKind :: "js_string option"
  vd_actualBytes :: "int option"
  vd_limitBytes :: "int option"
  vd_actualCount :: "int option"
  vd_limitCount :: "int option"
  vd_ignoredCount :: "int option"
  vd_directory :: "js_string option"
  vd_entryFile :: "js_string option"

record ValidationNotice =
  vn_code :: js_string
  vn_message :: js_string
  vn_action :: "js_string option"
  vn_details :: ValidationDetails

record ValidationReport =
  vr_primaryIssue :: "ValidationNotice option"
  vr_issues :: "ValidationNotice list"
  vr_warnings :: "ValidationNotice list"

record ArchiveEntry =
  ae_path :: js_string
  ae_sizeBytes :: int
  ae_directory :: bool

record UploadPolicy =
  up_maxArchiveBytes :: int
  up_maxExpandedBytes :: int
  up_maxFileCount :: int
  up_maxFileBytes :: int
  up_enabledExtensions :: "js_string list"

definition report_limit :: nat where
  "report_limit = 20"

definition nested_archive_extensions :: "js_string list" where
  "nested_archive_extensions = [''.zip'', ''.tar'', ''.gz'', ''.tgz'', ''.bz2'', ''.xz'', ''.7z'', ''.rar'']"

definition no_details :: ValidationDetails where
  "no_details =
     \<lparr>vd_path = None, vd_paths = None, vd_candidates = None, vd_extension = None,
      vd_validationKind = None, vd_actualBytes = None, vd_limitBytes = None, vd_actualCount = None,
      vd_limitCount = None, vd_ignoredCount = None, vd_directory = None, vd_entryFile = None\<rparr>"

text \<open>The table \<open>copy\<close> of messages and actions.\<close>

definition notice_copy :: "(js_string \<times> (js_string \<times> js_string option)) list" where
  "notice_copy =
     [(''archive_too_large'', (''The ZIP exceeds the allowed size.'', Some ''Reduce the ZIP size, then upload it again.'')),
      (''invalid_zip'', (''The uploaded file is not a valid ZIP.'', Some ''Create a new ZIP and upload it again.'')),
      (''unsafe_archive_path'', (''The ZIP contains an unsafe file path.'', Some ''Remove unsafe paths and create a new ZIP.'')),
      (''duplicate_archive_path'', (''The ZIP contains duplicate file paths.'', Some ''Rename or remove duplicate files and create a new ZIP.'')),
      (''unsupported_file_type'', (''The ZIP contains a link or special file.'', Some ''Remove links and special files, then create a new ZIP.'')),
      (''nested_archive'', (''The ZIP contains another archive.'', Some ''Expand nested archives before creating the ZIP.'')),
      (''unsupported_format'', (''A file format is not supported.'', Some ''Remove or convert the file, then upload a new ZIP.'')),
      (''invalid_file_content'', (''A file does not match its expected format.'', Some ''Replace the file with valid content, then upload a new ZIP.'')),
      (''expanded_size_exceeded'', (''The expanded files exceed the allowed size.'', Some ''Reduce the expanded content, then upload a new ZIP.'')),
      (''file_count_exceeded'', (''The ZIP contains too many files.'', Some ''Reduce the number of files, then upload a new ZIP.'')),
      (''single_file_too_large'', (''A file exceeds the allowed size.'', Some ''Reduce or split the file, then upload a new ZIP.'')),
      (''missing_entry_file'', (''The ZIP has no root HTML entry file.'', Some ''Add one HTML file at the ZIP root.'')),
      (''ambiguous_entry_file'', (''The ZIP has multiple possible root HTML entry files.'', Some ''Keep one root HTML file or name the intended file index.html.'')),
      (''ignored_system_metadata'', (''System metadata files were ignored.'', None)),
      (''wrapper_directory_removed'', (''A common wrapper directory was removed.'', None)),
      (''entry_file_inferred'', (''The only root HTML file was selected as the entry file.'', None))]"

definition notice :: "js_string \<Rightarrow> ValidationDetails \<Rightarrow> ValidationNotice" where
  "notice code details =
     (let (message, action) = (case map_of notice_copy code of
            None \<Rightarrow> (''Archive validation failed.'', Some ''Correct the ZIP and upload it again.'')
          | Some p \<Rightarrow> p)
      in \<lparr>vn_code = code, vn_message = message, vn_action = action,
          vn_details = details\<lparr>vd_paths := map_option (take report_limit) (vd_paths details),
                              vd_candidates := map_option (take report_limit) (vd_candidates details)\<rparr>\<rparr>)"

definition failure :: "js_string \<Rightarrow> ValidationDetails \<Rightarrow> ValidationNotice list \<Rightarrow> ValidationReport" where
  "failure code details warnings =
     \<lparr>vr_primaryIssue = Some (notice code details), vr_issues = [], vr_warnings = warnings\<rparr>"

definition success :: "ValidationNotice list \<Rightarrow> ValidationReport" where
  "success warnings = \<lparr>vr_primaryIssue = None, vr_issues = [], vr_warnings = warnings\<rparr>"

subsection \<open>Paths\<close>

definition drive_letter :: "js_string \<Rightarrow> bool" where
  "drive_letter path =
     (case path of c # d # _ \<Rightarrow>
        d = CHR '':'' \<and> (65 \<le> byte_of c \<and> byte_of c \<le> 90 \<or> 97 \<le> byte_of c \<and> byte_of c \<le> 122)
      | _ \<Rightarrow> False)"

definition safePath :: "js_string \<Rightarrow> js_string option" where
  "safePath path =
     (if path = [] \<or> starts_with ''/'' path \<or> drive_letter path
         \<or> includes_char (CHR 0x5C) path \<or> includes_char (CHR 0x00) path then None
      else
        let parts = split_on (CHR ''/'') path;
            normalized = (if ends_with ''/'' path then butlast parts else parts)
        in if normalized = [] \<or> list_ex (\<lambda>part. part = [] \<or> part = ''.'' \<or> part = ''..'') normalized then None
           else Some (join_with (CHR ''/'') normalized))"

definition basename :: "js_string \<Rightarrow> js_string" where
  "basename path = last (split_on (CHR ''/'') path)"

definition isIgnoredMetadata :: "js_string \<Rightarrow> bool" where
  "isIgnoredMetadata path \<longleftrightarrow>
     starts_with ''__MACOSX/'' path \<or> starts_with ''._'' (basename path) \<or> basename path = ''.DS_Store''"

text \<open>\<open>basename.slice(lastIndexOf("."))\<close> when the last dot is not the first character.\<close>

definition extension :: "js_string \<Rightarrow> js_string option" where
  "extension path =
     (let parts = split_on (CHR ''.'') (basename path)
      in if length parts \<le> 1 \<or> butlast parts = [[]] then None else Some (CHR ''.'' # last parts))"

subsection \<open>The entries\<close>

record scan_state =
  ss_paths :: "js_string list"
  ss_entries :: "ArchiveEntry list"
  ss_ignored :: "js_string list"
  ss_ignoredCount :: int

fun scan_entries :: "ArchiveEntry list \<Rightarrow> scan_state \<Rightarrow> ValidationReport + scan_state" where
  "scan_entries [] s = Inr s"
| "scan_entries (raw # input) s =
     (case safePath (ae_path raw) of
        None \<Rightarrow> Inl (failure ''unsafe_archive_path'' no_details [])
      | Some path \<Rightarrow>
          if path \<in> set (ss_paths s)
            then Inl (failure ''duplicate_archive_path'' (no_details\<lparr>vd_path := Some path\<rparr>) [])
          else
            let s = s\<lparr>ss_paths := ss_paths s @ [path]\<rparr>
            in scan_entries input
              (if ae_directory raw then s
               else if isIgnoredMetadata path then
                 s\<lparr>ss_ignoredCount := ss_ignoredCount s + 1,
                   ss_ignored := (if length (ss_ignored s) < report_limit then ss_ignored s @ [path] else ss_ignored s)\<rparr>
               else s\<lparr>ss_entries := ss_entries s @ [raw\<lparr>ae_path := path\<rparr>]\<rparr>))"

definition first_directory :: "ArchiveEntry list \<Rightarrow> js_string option" where
  "first_directory entries =
     (case entries of [] \<Rightarrow> None | e # _ \<Rightarrow> Some (hd (split_on (CHR ''/'') (ae_path e))))"

definition wrapper_of :: "ArchiveEntry list \<Rightarrow> js_string option" where
  "wrapper_of entries =
     (case first_directory entries of
        None \<Rightarrow> None
      | Some d \<Rightarrow>
          if d \<noteq> [] \<and> list_all (\<lambda>e. starts_with (d @ ''/'') (ae_path e)) entries then Some d else None)"

fun strip_entries ::
  "ValidationNotice list \<Rightarrow> nat \<Rightarrow> ArchiveEntry list \<Rightarrow> js_string list \<Rightarrow> ValidationReport + ArchiveEntry list" where
  "strip_entries w n [] stripped = Inr []"
| "strip_entries w n (e # es) stripped =
     (let path = drop n (ae_path e)
      in if path = [] \<or> path \<in> set stripped then Inl (failure ''duplicate_archive_path'' no_details w)
         else bindR (strip_entries w n es (path # stripped)) (\<lambda>es. Inr (e\<lparr>ae_path := path\<rparr> # es)))"

definition remove_wrapper ::
  "ValidationNotice list \<Rightarrow> ArchiveEntry list \<Rightarrow> ValidationReport + ArchiveEntry list \<times> ValidationNotice list" where
  "remove_wrapper w entries =
     (case wrapper_of entries of
        None \<Rightarrow> Inr (entries, w)
      | Some d \<Rightarrow>
          bindR (strip_entries w (length d + 1) entries []) (\<lambda>es.
          Inr (es, w @ [notice ''wrapper_directory_removed'' (no_details\<lparr>vd_directory := Some d\<rparr>)])))"

text \<open>A stable sort by the host's collation.\<close>

fun insert_collated :: "(js_string \<Rightarrow> js_string \<Rightarrow> int) \<Rightarrow> ArchiveEntry \<Rightarrow> ArchiveEntry list \<Rightarrow> ArchiveEntry list" where
  "insert_collated collate e [] = [e]"
| "insert_collated collate e (x # xs) =
     (if collate (ae_path e) (ae_path x) \<le> 0 then e # x # xs else x # insert_collated collate e xs)"

definition sort_collated :: "(js_string \<Rightarrow> js_string \<Rightarrow> int) \<Rightarrow> ArchiveEntry list \<Rightarrow> ArchiveEntry list" where
  "sort_collated collate es = foldr (insert_collated collate) es []"

definition html_extension :: "ArchiveEntry \<Rightarrow> bool" where
  "html_extension e \<longleftrightarrow> map_option to_lower (extension (ae_path e)) = Some ''.html''"

definition root_html :: "ArchiveEntry \<Rightarrow> bool" where
  "root_html e \<longleftrightarrow> \<not> includes_char (CHR ''/'') (ae_path e) \<and> html_extension e"

definition choose_entry_file ::
  "ValidationNotice list \<Rightarrow> ArchiveEntry list \<Rightarrow> ValidationReport + ValidationNotice list" where
  "choose_entry_file w entries =
     (if list_ex (\<lambda>e. ae_path e = ''index.html'') entries then Inr w
      else
        let roots = map ae_path (filter root_html entries)
        in if length roots = 1
             then Inr (w @ [notice ''entry_file_inferred'' (no_details\<lparr>vd_entryFile := Some (hd roots)\<rparr>)])
           else if 1 < length roots
             then Inl (failure ''ambiguous_entry_file'' (no_details\<lparr>vd_candidates := Some roots\<rparr>) w)
           else Inl (failure ''missing_entry_file''
             (no_details\<lparr>vd_candidates := Some (map ae_path (filter html_extension entries))\<rparr>) w))"

fun check_entries ::
  "UploadPolicy \<Rightarrow> ValidationNotice list \<Rightarrow> int \<Rightarrow> int \<Rightarrow> ArchiveEntry list \<Rightarrow> ValidationReport" where
  "check_entries policy w index expanded [] = success w"
| "check_entries policy w index expanded (e # es) =
     (let ext = extension (ae_path e); here = no_details\<lparr>vd_path := Some (ae_path e)\<rparr> in
      if (case ext of None \<Rightarrow> False | Some x \<Rightarrow> to_lower x \<in> set nested_archive_extensions)
        then failure ''nested_archive'' here w
      else if (case ext of None \<Rightarrow> True | Some x \<Rightarrow> x \<notin> set (up_enabledExtensions policy))
        then failure ''unsupported_format'' (here\<lparr>vd_extension := ext\<rparr>) w
      else if ae_sizeBytes e > up_maxFileBytes policy
        then failure ''single_file_too_large''
          (here\<lparr>vd_actualBytes := Some (ae_sizeBytes e), vd_limitBytes := Some (up_maxFileBytes policy)\<rparr>) w
      else if index + 1 > up_maxFileCount policy
        then failure ''file_count_exceeded''
          (here\<lparr>vd_actualCount := Some (index + 1), vd_limitCount := Some (up_maxFileCount policy)\<rparr>) w
      else if expanded + ae_sizeBytes e > up_maxExpandedBytes policy
        then failure ''expanded_size_exceeded''
          (here\<lparr>vd_actualBytes := Some (expanded + ae_sizeBytes e),
                vd_limitBytes := Some (up_maxExpandedBytes policy)\<rparr>) w
      else check_entries policy w (index + 1) (expanded + ae_sizeBytes e) es)"

definition metadata_warning :: "scan_state \<Rightarrow> ValidationNotice list" where
  "metadata_warning s =
     (if ss_ignoredCount s > 0 then
        [notice ''ignored_system_metadata''
           (no_details\<lparr>vd_ignoredCount := Some (ss_ignoredCount s), vd_paths := Some (ss_ignored s)\<rparr>)]
      else [])"

text \<open>The entries the checks run on, with the warnings so far.\<close>

definition effective_entries ::
  "(js_string \<Rightarrow> js_string \<Rightarrow> int) \<Rightarrow> ArchiveEntry list
    \<Rightarrow> ValidationReport + ArchiveEntry list \<times> ValidationNotice list" where
  "effective_entries collate input =
     bindR (scan_entries input \<lparr>ss_paths = [], ss_entries = [], ss_ignored = [], ss_ignoredCount = 0\<rparr>) (\<lambda>s.
     bindR (remove_wrapper (metadata_warning s) (ss_entries s)) (\<lambda>(es, w).
     Inr (sort_collated collate es, w)))"

definition preflightEntries ::
  "(js_string \<Rightarrow> js_string \<Rightarrow> int) \<Rightarrow> ArchiveEntry list \<Rightarrow> UploadPolicy \<Rightarrow> int option \<Rightarrow> ValidationReport" where
  "preflightEntries collate input policy archiveSizeBytes =
     (if (case archiveSizeBytes of None \<Rightarrow> False | Some n \<Rightarrow> n > up_maxArchiveBytes policy)
        then failure ''archive_too_large''
          (no_details\<lparr>vd_actualBytes := archiveSizeBytes, vd_limitBytes := Some (up_maxArchiveBytes policy)\<rparr>) []
      else case effective_entries collate input of
        Inl report \<Rightarrow> report
      | Inr (entries, w) \<Rightarrow>
          (case choose_entry_file w entries of
             Inl report \<Rightarrow> report
           | Inr w \<Rightarrow> check_entries policy w 0 0 entries))"

definition effectivePathMap :: "ArchiveEntry list \<Rightarrow> (js_string \<times> js_string) list" where
  "effectivePathMap entries =
     (let effective = filter (\<lambda>e. \<not> ae_directory e \<and> \<not> isIgnoredMetadata (ae_path e)) entries;
          strip = wrapper_of effective
      in map (\<lambda>e. (ae_path e, case strip of None \<Rightarrow> ae_path e | Some d \<Rightarrow> drop (length d + 1) (ae_path e)))
           effective)"

subsection \<open>Safe paths\<close>

lemma report_simps [simp]:
  "vr_primaryIssue (failure c d w) = Some (notice c d)"
  "vr_primaryIssue (success w) = None"
  "vr_warnings (success w) = w"
  by (simp_all add: failure_def success_def)

text \<open>A relative path none of whose components is empty, \<open>.\<close> or \<open>..\<close>.\<close>

definition bad_part :: "js_string \<Rightarrow> bool" where
  "bad_part part \<longleftrightarrow> part = [] \<or> part = ''.'' \<or> part = ''..''"

definition safe_parts :: "js_string \<Rightarrow> bool" where
  "safe_parts p \<longleftrightarrow>
     list_all (\<lambda>part. \<not> bad_part part) (split_on (CHR ''/'') p)
     \<and> \<not> includes_char (CHR 0x5C) p \<and> \<not> includes_char (CHR 0x00) p"

lemma safePath_safe_parts:
  assumes "safePath p = Some q"
  shows "safe_parts q"
proof -
  let ?parts = "split_on (CHR ''/'') p"
  let ?n = "if ends_with ''/'' p then butlast ?parts else ?parts"
  from assms have n: "?n \<noteq> []" "\<not> list_ex (\<lambda>part. part = [] \<or> part = ''.'' \<or> part = ''..'') ?n"
    and q: "q = join_with (CHR ''/'') ?n"
    and c: "CHR 0x5C \<notin> set p" "CHR 0x00 \<notin> set p"
    by (simp_all add: safePath_def Let_def includes_char_def split: if_splits)
  have sub: "w \<in> set ?n \<Longrightarrow> w \<in> set ?parts" for w by (auto split: if_splits dest: in_set_butlastD)
  have "split_on (CHR ''/'') q = ?n"
    unfolding q by (rule split_join [OF n(1)]) (use sub split_on_no_sep in blast)
  moreover have "set q \<subseteq> insert (CHR ''/'') (set p)"
    unfolding q using set_join_with [of "CHR ''/''" ?n] split_on_chars [of _ "CHR ''/''" p] sub by blast
  ultimately show ?thesis
    using n(2) c by (auto simp: safe_parts_def includes_char_def bad_part_def list_all_iff list_ex_iff)
qed

lemma safe_parts_strip:
  assumes "safe_parts (d @ CHR ''/'' # r)" and "CHR ''/'' \<notin> set d"
  shows "safe_parts r"
  using assms by (simp add: safe_parts_def split_on_append_sep includes_char_def)

subsection \<open>What the scan and the stripping return\<close>

lemma scan_entries_Inr:
  assumes "scan_entries input s = Inr s'"
    and "distinct (map ae_path (ss_entries s))" "ae_path ` set (ss_entries s) \<subseteq> set (ss_paths s)"
    and "list_all (\<lambda>e. safe_parts (ae_path e)) (ss_entries s)"
  shows "distinct (map ae_path (ss_entries s')) \<and> list_all (\<lambda>e. safe_parts (ae_path e)) (ss_entries s')"
  using assms
proof (induction input arbitrary: s)
  case (Cons raw input)
  from Cons.prems(1) obtain path where path: "safePath (ae_path raw) = Some path"
    and new: "path \<notin> set (ss_paths s)"
    by (auto split: option.splits if_splits)
  note safe = safePath_safe_parts [OF path]
  from new have fresh: "path \<notin> ae_path ` set (ss_entries s)" using Cons.prems(3) by blast
  show ?case
    by (rule Cons.IH [OF Cons.prems(1) [unfolded scan_entries.simps path option.case Let_def if_not_P [OF new]]])
      (use Cons.prems(2-4) fresh safe in auto)
qed simp

lemma strip_entries_Inr:
  "strip_entries w n es acc = Inr es' \<Longrightarrow>
     map ae_path es' = map (\<lambda>e. drop n (ae_path e)) es \<and> distinct (map ae_path es')
     \<and> set (map ae_path es') \<inter> set acc = {}
     \<and> map ae_sizeBytes es' = map ae_sizeBytes es"
proof (induction es arbitrary: acc es')
  case (Cons e es)
  let ?p = "drop n (ae_path e)"
  from Cons.prems obtain rest where p: "?p \<notin> set acc" and rest: "strip_entries w n es (?p # acc) = Inr rest"
    and es': "es' = e\<lparr>ae_path := ?p\<rparr> # rest"
    by (auto simp: Let_def bindR_eq_Inr split: if_splits)
  note IH = Cons.IH [OF rest]
  have paths: "map ae_path es' = ?p # map ae_path rest" by (simp add: es')
  from IH have "set (map ae_path rest) \<inter> set (?p # acc) = {}" "distinct (map ae_path rest)" by blast+
  with p have "distinct (?p # map ae_path rest)" "set (?p # map ae_path rest) \<inter> set acc = {}" by auto
  moreover have "map ae_path es' = map (\<lambda>e. drop n (ae_path e)) (e # es)"
    "map ae_sizeBytes es' = map ae_sizeBytes (e # es)"
    using IH by (simp_all add: es')
  ultimately show ?case unfolding paths [symmetric] by blast
qed simp

lemma wrapper_of_Some:
  assumes "wrapper_of es = Some d"
  shows "CHR ''/'' \<notin> set d" and "\<And>e. e \<in> set es \<Longrightarrow> \<exists>r. ae_path e = d @ CHR ''/'' # r"
proof -
  from assms obtain e es' where es: "es = e # es'" and d: "d = hd (split_on (CHR ''/'') (ae_path e))"
    by (auto simp: wrapper_of_def first_directory_def split: option.splits list.splits if_splits)
  have "d \<in> set (split_on (CHR ''/'') (ae_path e))" using d by simp
  then show "CHR ''/'' \<notin> set d" by (rule split_on_no_sep)
  from assms have all: "list_all (\<lambda>e. starts_with (d @ ''/'') (ae_path e)) es"
    by (auto simp: wrapper_of_def split: option.splits if_splits)
  show "\<exists>r. ae_path x = d @ CHR ''/'' # r" if "x \<in> set es" for x
    using all that by (auto simp: list_all_iff starts_with_iff)
qed

lemma remove_wrapper_Inr:
  assumes run: "remove_wrapper w es = Inr (es', w')"
    and "distinct (map ae_path es)" and safe: "list_all (\<lambda>e. safe_parts (ae_path e)) es"
  shows "distinct (map ae_path es') \<and> list_all (\<lambda>e. safe_parts (ae_path e)) es'
    \<and> map ae_path es' = map (\<lambda>e. case wrapper_of es of None \<Rightarrow> ae_path e | Some d \<Rightarrow> drop (length d + 1) (ae_path e)) es"
proof (cases "wrapper_of es")
  case None
  with assms show ?thesis by (simp add: remove_wrapper_def)
next
  case (Some d)
  then have strip: "strip_entries w (length d + 1) es [] = Inr es'"
    using run by (auto simp: remove_wrapper_def bindR_eq_Inr)
  note m = strip_entries_Inr [OF strip]
  have "safe_parts (drop (length d + 1) (ae_path e))" if e: "e \<in> set es" for e
  proof -
    obtain r where r: "ae_path e = d @ CHR ''/'' # r"
      using wrapper_of_Some(2) [OF Some] e by blast
    have "safe_parts (ae_path e)" using safe e by (simp add: list_all_iff)
    then have "safe_parts r" using safe_parts_strip wrapper_of_Some(1) [OF Some] by (simp add: r)
    then show ?thesis by (simp add: r)
  qed
  then have "list_all safe_parts (map ae_path es')" using m by (simp add: list_all_iff)
  then have "list_all (\<lambda>e. safe_parts (ae_path e)) es'" by (simp add: list.pred_map comp_def)
  then show ?thesis using m unfolding Some option.case by blast
qed

lemma mset_sort_collated [simp]: "mset (sort_collated collate es) = mset es"
proof -
  have "mset (insert_collated collate e xs) = add_mset e (mset xs)" for e xs by (induction xs) auto
  then show ?thesis by (induction es) (simp_all add: sort_collated_def)
qed

lemma set_sort_collated [simp]: "set (sort_collated collate es) = set es"
  by (metis mset_sort_collated set_mset_mset)

lemma distinct_sort_collated [simp]:
  "distinct (map f (sort_collated collate es)) = distinct (map f es)"
  by (metis mset_sort_collated mset_map mset_eq_imp_distinct_iff)

lemma effective_entries_Inr:
  assumes "effective_entries collate input = Inr (es, w)"
  shows "distinct (map ae_path es) \<and> list_all (\<lambda>e. safe_parts (ae_path e)) es"
proof -
  from assms obtain s es1 w1 where scan: "scan_entries input \<lparr>ss_paths = [], ss_entries = [], ss_ignored = [],
      ss_ignoredCount = 0\<rparr> = Inr s"
    and rw: "remove_wrapper (metadata_warning s) (ss_entries s) = Inr (es1, w1)" and es: "es = sort_collated collate es1"
    by (auto simp: effective_entries_def bindR_eq_Inr)
  have "distinct (map ae_path (ss_entries s)) \<and> list_all (\<lambda>e. safe_parts (ae_path e)) (ss_entries s)"
    by (rule scan_entries_Inr [OF scan]) simp_all
  then have "distinct (map ae_path es1) \<and> list_all (\<lambda>e. safe_parts (ae_path e)) es1"
    using remove_wrapper_Inr [OF rw] by blast
  then show ?thesis by (simp add: es list_all_iff)
qed

subsection \<open>Acceptance\<close>

definition allowed_file :: "UploadPolicy \<Rightarrow> ArchiveEntry \<Rightarrow> bool" where
  "allowed_file policy e \<longleftrightarrow>
     ae_sizeBytes e \<le> up_maxFileBytes policy \<and>
     (case extension (ae_path e) of None \<Rightarrow> False
      | Some x \<Rightarrow> x \<in> set (up_enabledExtensions policy) \<and> to_lower x \<notin> set nested_archive_extensions)"

lemma check_entries_accepts:
  "vr_primaryIssue (check_entries policy w i x es) = None \<Longrightarrow>
     list_all (allowed_file policy) es
     \<and> (es \<noteq> [] \<longrightarrow> i + int (length es) \<le> up_maxFileCount policy
        \<and> x + sum_list (map ae_sizeBytes es) \<le> up_maxExpandedBytes policy)"
proof (induction es arbitrary: i x)
  case (Cons e es)
  from Cons.prems have ok: "allowed_file policy e" "i + 1 \<le> up_maxFileCount policy"
    "x + ae_sizeBytes e \<le> up_maxExpandedBytes policy"
    and rest: "vr_primaryIssue (check_entries policy w (i + 1) (x + ae_sizeBytes e) es) = None"
    by (auto simp: Let_def allowed_file_def split: if_splits option.splits)
  from Cons.IH [OF rest] ok show ?case by (cases es) (auto simp: algebra_simps)
qed simp

lemma scan_entries_Inl: "scan_entries input s = Inl r \<Longrightarrow> vr_primaryIssue r \<noteq> None"
  by (induction input s rule: scan_entries.induct) (auto simp: Let_def split: option.splits if_splits)

lemma strip_entries_Inl: "strip_entries w n es acc = Inl r \<Longrightarrow> vr_primaryIssue r \<noteq> None"
  by (induction es arbitrary: acc) (auto simp: Let_def bindR_eq_Inl split: if_splits)

lemma effective_entries_Inl: "effective_entries collate input = Inl r \<Longrightarrow> vr_primaryIssue r \<noteq> None"
  by (auto simp: effective_entries_def bindR_eq_Inl remove_wrapper_def dest: scan_entries_Inl strip_entries_Inl
      split: option.splits)

lemma choose_entry_file_Inl: "choose_entry_file w es = Inl r \<Longrightarrow> vr_primaryIssue r \<noteq> None"
  by (auto simp: choose_entry_file_def Let_def split: if_splits)

lemma scan_entries_filter:
  "scan_entries input s = Inr s' \<Longrightarrow> list_all (\<lambda>e. safePath (ae_path e) = Some (ae_path e)) input \<Longrightarrow>
     ss_entries s' = ss_entries s @ filter (\<lambda>e. \<not> ae_directory e \<and> \<not> isIgnoredMetadata (ae_path e)) input"
  by (induction input arbitrary: s) (auto simp: Let_def split: if_splits)

text \<open>
  C19: an archive the preflight accepts is within the policy. Its effective files (safe
  names, metadata dropped, wrapper removed) have distinct relative paths without empty,
  \<open>.\<close> or \<open>..\<close> components, there are at most \<open>maxFileCount\<close> of them, none larger than
  \<open>maxFileBytes\<close>, together at most \<open>maxExpandedBytes\<close>, each with an enabled extension that
  is not an archive's, and the entry file is determined: \<open>index.html\<close> or the only HTML file
  at the root.
\<close>

theorem preflight_acceptance_is_within_policy:
  assumes "vr_primaryIssue (preflightEntries collate input policy sizeBytes) = None"
  shows "\<exists>es w. effective_entries collate input = Inr (es, w)
    \<and> distinct (map ae_path es) \<and> list_all (\<lambda>e. safe_parts (ae_path e)) es
    \<and> list_all (allowed_file policy) es
    \<and> int (length es) \<le> up_maxFileCount policy
    \<and> sum_list (map ae_sizeBytes es) \<le> up_maxExpandedBytes policy
    \<and> (''index.html'' \<in> ae_path ` set es \<or> length (filter root_html es) = 1)
    \<and> (case sizeBytes of None \<Rightarrow> True | Some n \<Rightarrow> n \<le> up_maxArchiveBytes policy)"
proof -
  have size: "case sizeBytes of None \<Rightarrow> True | Some n \<Rightarrow> n \<le> up_maxArchiveBytes policy"
    and rest: "vr_primaryIssue (case effective_entries collate input of
        Inl report \<Rightarrow> report
      | Inr (entries, w) \<Rightarrow>
          (case choose_entry_file w entries of
             Inl report \<Rightarrow> report | Inr w \<Rightarrow> check_entries policy w 0 0 entries)) = None"
    using assms by (auto simp: preflightEntries_def split: if_splits option.splits)
  from rest obtain es w where es: "effective_entries collate input = Inr (es, w)"
    using effective_entries_Inl by (cases "effective_entries collate input") auto
  with rest obtain w' where entry: "choose_entry_file w es = Inr w'"
    using choose_entry_file_Inl by (cases "choose_entry_file w es") auto
  have chk: "vr_primaryIssue (check_entries policy w' 0 0 es) = None" using rest es entry by simp
  have determined: "''index.html'' \<in> ae_path ` set es \<or> length (filter root_html es) = 1"
    using entry by (force simp: choose_entry_file_def Let_def list_ex_iff split: if_splits)
  then have "es \<noteq> []" by auto
  with check_entries_accepts [OF chk] have "list_all (allowed_file policy) es"
    "int (length es) \<le> up_maxFileCount policy" "sum_list (map ae_sizeBytes es) \<le> up_maxExpandedBytes policy"
    by simp_all
  then show ?thesis using es effective_entries_Inr [OF es] determined size by blast
qed

text \<open>
  The content pass sees the files the structural pass accepted. For entries whose
  names are already normalised, the values of \<open>effectivePathMap\<close> are exactly the paths of the
  effective files, and its keys are distinct, so no checked path is looked up twice.
\<close>

theorem effectivePathMap_is_preflight_stripping:
  assumes "effective_entries collate input = Inr (es, w)"
    and "list_all (\<lambda>e. safePath (ae_path e) = Some (ae_path e)) input"
  shows "mset (map snd (effectivePathMap input)) = mset (map ae_path es)
    \<and> distinct (map fst (effectivePathMap input))
    \<and> set (map fst (effectivePathMap input))
      = {ae_path e | e. e \<in> set input \<and> \<not> ae_directory e \<and> \<not> isIgnoredMetadata (ae_path e)}"
proof -
  let ?eff = "filter (\<lambda>e. \<not> ae_directory e \<and> \<not> isIgnoredMetadata (ae_path e)) input"
  from assms(1) obtain s es1 w1 where scan: "scan_entries input \<lparr>ss_paths = [], ss_entries = [], ss_ignored = [],
      ss_ignoredCount = 0\<rparr> = Inr s"
    and rw: "remove_wrapper (metadata_warning s) (ss_entries s) = Inr (es1, w1)" and es: "es = sort_collated collate es1"
    by (auto simp: effective_entries_def bindR_eq_Inr)
  have s: "ss_entries s = ?eff" using scan_entries_filter [OF scan assms(2)] by simp
  have ok: "distinct (map ae_path (ss_entries s)) \<and> list_all (\<lambda>e. safe_parts (ae_path e)) (ss_entries s)"
    by (rule scan_entries_Inr [OF scan]) simp_all
  have "map ae_path es1
      = map (\<lambda>e. case wrapper_of ?eff of None \<Rightarrow> ae_path e | Some d \<Rightarrow> drop (length d + 1) (ae_path e)) ?eff"
    using remove_wrapper_Inr [OF rw] ok unfolding s by blast
  moreover have "map snd (effectivePathMap input)
      = map (\<lambda>e. case wrapper_of ?eff of None \<Rightarrow> ae_path e | Some d \<Rightarrow> drop (length d + 1) (ae_path e)) ?eff"
    by (simp add: effectivePathMap_def Let_def o_def)
  moreover have "map fst (effectivePathMap input) = map ae_path ?eff"
    by (simp add: effectivePathMap_def Let_def o_def)
  moreover have "distinct (map ae_path ?eff)" using ok s by simp
  ultimately have "mset (map snd (effectivePathMap input)) = mset (map ae_path es1)"
    "distinct (map fst (effectivePathMap input))" "map fst (effectivePathMap input) = map ae_path ?eff"
    by simp_all
  moreover have "mset (map ae_path es) = mset (map ae_path es1)" by (simp add: es)
  moreover have "set (map ae_path ?eff) = {ae_path e | e. e \<in> set input \<and> \<not> ae_directory e \<and> \<not> isIgnoredMetadata (ae_path e)}"
    by auto
  ultimately show ?thesis by simp
qed

subsection \<open>Witnesses\<close>

definition example_policy_two_files :: UploadPolicy where
  "example_policy_two_files =
     \<lparr>up_maxArchiveBytes = 1000, up_maxExpandedBytes = 100, up_maxFileCount = 2, up_maxFileBytes = 50,
      up_enabledExtensions = [''.html'', ''.css'']\<rparr>"

definition example_entries :: "ArchiveEntry list" where
  "example_entries =
     [\<lparr>ae_path = ''site/main.html'', ae_sizeBytes = 40, ae_directory = False\<rparr>,
      \<lparr>ae_path = ''site/._main.html'', ae_sizeBytes = 4, ae_directory = False\<rparr>,
      \<lparr>ae_path = ''site/css/a.css'', ae_sizeBytes = 50, ae_directory = False\<rparr>]"

definition compare_length :: "js_string \<Rightarrow> js_string \<Rightarrow> int" where
  "compare_length a b = int (length a) - int (length b)"

lemma example_entries_accepted:
  "vr_primaryIssue (preflightEntries compare_length example_entries example_policy_two_files (Some 900)) = None"
  by code_simp

theorem preflight_acceptance_is_within_policy_witness:
  "\<exists>es w. effective_entries compare_length example_entries = Inr (es, w) \<and> int (length es) \<le> 2"
  using preflight_acceptance_is_within_policy [OF example_entries_accepted]
  by (auto simp: example_policy_two_files_def)

lemma example_entries_effective:
  "\<exists>w. effective_entries compare_length example_entries
    = Inr ([\<lparr>ae_path = ''main.html'', ae_sizeBytes = 40, ae_directory = False\<rparr>,
            \<lparr>ae_path = ''css/a.css'', ae_sizeBytes = 50, ae_directory = False\<rparr>], w)"
proof -
  have "(case effective_entries compare_length example_entries of
      Inl _ \<Rightarrow> False
    | Inr (es, w) \<Rightarrow> es = [\<lparr>ae_path = ''main.html'', ae_sizeBytes = 40, ae_directory = False\<rparr>,
            \<lparr>ae_path = ''css/a.css'', ae_sizeBytes = 50, ae_directory = False\<rparr>])"
    by code_simp
  then show ?thesis by (auto split: sum.splits)
qed

theorem effectivePathMap_is_preflight_stripping_witness:
  "mset (map snd (effectivePathMap example_entries)) = {#''main.html'', ''css/a.css''#}"
proof -
  obtain w where w: "effective_entries compare_length example_entries
    = Inr ([\<lparr>ae_path = ''main.html'', ae_sizeBytes = 40, ae_directory = False\<rparr>,
            \<lparr>ae_path = ''css/a.css'', ae_sizeBytes = 50, ae_directory = False\<rparr>], w)"
    using example_entries_effective by blast
  have "list_all (\<lambda>e. safePath (ae_path e) = Some (ae_path e)) example_entries" by code_simp
  from effectivePathMap_is_preflight_stripping [OF w this] show ?thesis by simp
qed

text \<open>
  Removing the wrapper directory can uncover a path that \<open>safePath\<close> itself rejects: the
  drive letter of \<open>site/C:x.html\<close> is not at the start of the entry's name, but it is at the
  start of the effective path the archive is accepted with.
\<close>

lemma wrapper_hides_drive_letter:
  "vr_primaryIssue (preflightEntries compare_length
      [\<lparr>ae_path = ''site/C:x.html'', ae_sizeBytes = 4, ae_directory = False\<rparr>] example_policy_two_files (Some 9)) = None
   \<and> map snd (effectivePathMap [\<lparr>ae_path = ''site/C:x.html'', ae_sizeBytes = 4, ae_directory = False\<rparr>]) = [''C:x.html'']
   \<and> safePath ''C:x.html'' = None"
  by (intro conjI) code_simp+

end
