(* ===== verification/Text_Decoding.thy ===== *)
theory Text_Decoding
  imports Js_Strings "HOL-Library.Word"
begin

text \<open>
  Decoding of bytes to text as the language does it: the streaming UTF-8 decoder of
  \<open>TextDecoder\<close> in its fatal mode, and the acceptance of a text by \<open>JSON.parse\<close>. Both are
  automata that read one byte at a time, so a chunked run and a run over the joined bytes
  are the same fold.
\<close>

type_synonym byte = "8 word"

definition text_of :: "byte list \<Rightarrow> js_string" where
  "text_of bs = map (\<lambda>b. char_of (unat b)) bs"

lemma text_of_simps [simp]:
  "text_of [] = []"
  "text_of (b # bs) = char_of (unat b) # text_of bs"
  "text_of (as @ bs) = text_of as @ text_of bs"
  "length (text_of bs) = length bs"
  by (simp_all add: text_of_def)

subsection \<open>UTF-8\<close>

text \<open>
  The decoder's state: the continuation bytes still needed and the range the next one must
  lie in, or failed. The ranges exclude overlong forms, surrogates and code points above
  U+10FFFF.
\<close>

datatype utf8_state = Utf8_need nat nat nat | Utf8_failed

abbreviation utf8_start :: utf8_state where
  "utf8_start \<equiv> Utf8_need 0 128 191"

definition utf8_lead :: "nat \<Rightarrow> utf8_state" where
  "utf8_lead b =
     (if b < 128 then utf8_start
      else if 194 \<le> b \<and> b \<le> 223 then Utf8_need 1 128 191
      else if b = 224 then Utf8_need 2 160 191
      else if b = 237 then Utf8_need 2 128 159
      else if 225 \<le> b \<and> b \<le> 239 then Utf8_need 2 128 191
      else if b = 240 then Utf8_need 3 144 191
      else if b = 244 then Utf8_need 3 128 143
      else if 241 \<le> b \<and> b \<le> 243 then Utf8_need 3 128 191
      else Utf8_failed)"

fun utf8_step :: "byte \<Rightarrow> utf8_state \<Rightarrow> utf8_state" where
  "utf8_step b Utf8_failed = Utf8_failed"
| "utf8_step b (Utf8_need n lo hi) =
     (if n = 0 then utf8_lead (unat b)
      else if lo \<le> unat b \<and> unat b \<le> hi then Utf8_need (n - 1) 128 191
      else Utf8_failed)"

definition utf8_run :: "byte list \<Rightarrow> utf8_state \<Rightarrow> utf8_state" where
  "utf8_run bs s = fold utf8_step bs s"

definition utf8_complete :: "utf8_state \<Rightarrow> bool" where
  "utf8_complete s = (case s of Utf8_need n _ _ \<Rightarrow> n = 0 | Utf8_failed \<Rightarrow> False)"

definition utf8_valid :: "byte list \<Rightarrow> bool" where
  "utf8_valid bs \<longleftrightarrow> utf8_complete (utf8_run bs utf8_start)"

lemma utf8_run_append: "utf8_run (as @ bs) s = utf8_run bs (utf8_run as s)"
  by (simp add: utf8_run_def)

lemma utf8_run_Nil [simp]: "utf8_run [] s = s"
  by (simp add: utf8_run_def)

lemma utf8_run_failed [simp]: "utf8_run bs Utf8_failed = Utf8_failed"
  by (induction bs) (simp_all add: utf8_run_def)

text \<open>The byte order mark is stripped from decoded text.\<close>

definition decode_text :: "byte list \<Rightarrow> js_string" where
  "decode_text bs = text_of (if take 3 bs = [239, 187, 191] then drop 3 bs else bs)"

subsection \<open>JSON texts\<close>

datatype json_frame = In_array | In_object

text \<open>
  What the parser expects next: a value, a first element or \<open>]\<close>, a first key or \<open>}\<close>, a key,
  a colon, or what may follow a value; inside a token, the rest of a literal, a position in
  a number, or a position in a string (which is a key when the flag is set).
\<close>

datatype json_number = Num_minus | Num_zero | Num_int | Num_dot | Num_frac | Num_exp | Num_exp_sign | Num_exp_digits

datatype json_pos =
    Want_value
  | Want_first_element
  | Want_first_key
  | Want_key
  | Want_colon
  | After_value
  | In_literal js_string
  | In_number json_number
  | In_string bool
  | In_escape bool
  | In_hex bool nat

type_synonym json_state = "(json_pos \<times> json_frame list) option"

definition json_space :: "char \<Rightarrow> bool" where
  "json_space c \<longleftrightarrow> c = CHR '' '' \<or> c = CHR 0x09 \<or> c = CHR 0x0A \<or> c = CHR 0x0D"

definition json_digit :: "char \<Rightarrow> bool" where
  "json_digit c \<longleftrightarrow> 48 \<le> byte_of c \<and> byte_of c \<le> 57"

definition json_hex :: "char \<Rightarrow> bool" where
  "json_hex c \<longleftrightarrow> json_digit c \<or> (65 \<le> byte_of c \<and> byte_of c \<le> 70) \<or> (97 \<le> byte_of c \<and> byte_of c \<le> 102)"

definition json_value_start :: "char \<Rightarrow> json_frame list \<Rightarrow> json_state" where
  "json_value_start c st =
     (if c = CHR 0x22 then Some (In_string False, st)
      else if c = CHR ''['' then Some (Want_first_element, In_array # st)
      else if c = CHR ''{'' then Some (Want_first_key, In_object # st)
      else if c = CHR ''t'' then Some (In_literal ''rue'', st)
      else if c = CHR ''f'' then Some (In_literal ''alse'', st)
      else if c = CHR ''n'' then Some (In_literal ''ull'', st)
      else if c = CHR ''-'' then Some (In_number Num_minus, st)
      else if c = CHR ''0'' then Some (In_number Num_zero, st)
      else if json_digit c then Some (In_number Num_int, st)
      else None)"

definition json_after_value :: "char \<Rightarrow> json_frame list \<Rightarrow> json_state" where
  "json_after_value c st =
     (if json_space c then Some (After_value, st)
      else case st of
        [] \<Rightarrow> None
      | In_array # st' \<Rightarrow>
          if c = CHR '','' then Some (Want_value, st)
          else if c = CHR '']'' then Some (After_value, st') else None
      | In_object # st' \<Rightarrow>
          if c = CHR '','' then Some (Want_key, st)
          else if c = CHR ''}'' then Some (After_value, st') else None)"

definition json_number_step :: "char \<Rightarrow> json_number \<Rightarrow> json_frame list \<Rightarrow> json_state" where
  "json_number_step c n st =
     (let e = (c = CHR ''e'' \<or> c = CHR ''E'') in
      case n of
        Num_minus \<Rightarrow>
          if c = CHR ''0'' then Some (In_number Num_zero, st)
          else if json_digit c then Some (In_number Num_int, st) else None
      | Num_zero \<Rightarrow>
          if c = CHR ''.'' then Some (In_number Num_dot, st)
          else if e then Some (In_number Num_exp, st) else json_after_value c st
      | Num_int \<Rightarrow>
          if json_digit c then Some (In_number Num_int, st)
          else if c = CHR ''.'' then Some (In_number Num_dot, st)
          else if e then Some (In_number Num_exp, st) else json_after_value c st
      | Num_dot \<Rightarrow> if json_digit c then Some (In_number Num_frac, st) else None
      | Num_frac \<Rightarrow>
          if json_digit c then Some (In_number Num_frac, st)
          else if e then Some (In_number Num_exp, st) else json_after_value c st
      | Num_exp \<Rightarrow>
          if c = CHR ''+'' \<or> c = CHR ''-'' then Some (In_number Num_exp_sign, st)
          else if json_digit c then Some (In_number Num_exp_digits, st) else None
      | Num_exp_sign \<Rightarrow> if json_digit c then Some (In_number Num_exp_digits, st) else None
      | Num_exp_digits \<Rightarrow>
          if json_digit c then Some (In_number Num_exp_digits, st) else json_after_value c st)"

definition json_string_end :: "bool \<Rightarrow> json_pos" where
  "json_string_end key = (if key then Want_colon else After_value)"

definition json_step :: "char \<Rightarrow> json_state \<Rightarrow> json_state" where
  "json_step c s = (case s of None \<Rightarrow> None | Some (p, st) \<Rightarrow> (case p of
       Want_value \<Rightarrow> if json_space c then s else json_value_start c st
     | Want_first_element \<Rightarrow>
         if json_space c then s else if c = CHR '']'' then Some (After_value, tl st) else json_value_start c st
     | Want_first_key \<Rightarrow>
         if json_space c then s else if c = CHR ''}'' then Some (After_value, tl st)
         else if c = CHR 0x22 then Some (In_string True, st) else None
     | Want_key \<Rightarrow> if json_space c then s else if c = CHR 0x22 then Some (In_string True, st) else None
     | Want_colon \<Rightarrow> if json_space c then s else if c = CHR '':'' then Some (Want_value, st) else None
     | After_value \<Rightarrow> json_after_value c st
     | In_literal w \<Rightarrow>
         (case w of [] \<Rightarrow> None
          | d # w' \<Rightarrow> if c = d then Some (if w' = [] then After_value else In_literal w', st) else None)
     | In_number n \<Rightarrow> json_number_step c n st
     | In_string key \<Rightarrow>
         if c = CHR 0x22 then Some (json_string_end key, st)
         else if c = CHR 0x5C then Some (In_escape key, st)
         else if byte_of c < 32 then None else s
     | In_escape key \<Rightarrow>
         if c \<in> {CHR 0x22, CHR 0x5C, CHR ''/'', CHR ''b'', CHR ''f'', CHR ''n'', CHR ''r'', CHR ''t''}
           then Some (In_string key, st)
         else if c = CHR ''u'' then Some (In_hex key 4, st) else None
     | In_hex key n \<Rightarrow>
         if json_hex c then Some (if n \<le> 1 then In_string key else In_hex key (n - 1), st) else None))"

definition json_accepts :: "json_state \<Rightarrow> bool" where
  "json_accepts s = (case s of
       Some (After_value, []) \<Rightarrow> True
     | Some (In_number n, []) \<Rightarrow> n \<in> {Num_zero, Num_int, Num_frac, Num_exp_digits}
     | _ \<Rightarrow> False)"

definition json_parses :: "js_string \<Rightarrow> bool" where
  "json_parses s \<longleftrightarrow> json_accepts (fold json_step s (Some (Want_value, [])))"

subsection \<open>Lossy decoding\<close>

text \<open>
  \<open>TextDecoder\<close> without \<open>fatal\<close>: every maximal broken sequence becomes U+FFFD. \<open>pend\<close> are
  the bytes of the sequence being read.
\<close>

definition replacement_char :: js_string where
  "replacement_char = [CHR 0xEF, CHR 0xBF, CHR 0xBD]"

definition lossy_lead :: "byte \<Rightarrow> js_string \<times> utf8_state \<times> byte list" where
  "lossy_lead b =
     (case utf8_lead (unat b) of
        Utf8_failed \<Rightarrow> (replacement_char, utf8_start, [])
      | Utf8_need n lo hi \<Rightarrow>
          if n = 0 then (text_of [b], utf8_start, []) else ([], Utf8_need n lo hi, [b]))"

definition lossy_step :: "byte \<Rightarrow> utf8_state \<times> byte list \<Rightarrow> js_string \<times> utf8_state \<times> byte list" where
  "lossy_step b = (\<lambda>(s, pend).
     case s of
       Utf8_failed \<Rightarrow> lossy_lead b
     | Utf8_need n lo hi \<Rightarrow>
         if n = 0 then lossy_lead b
         else if lo \<le> unat b \<and> unat b \<le> hi then
           (if n = 1 then (text_of (pend @ [b]), utf8_start, [])
            else ([], Utf8_need (n - 1) 128 191, pend @ [b]))
         else case lossy_lead b of (out, r) \<Rightarrow> (replacement_char @ out, r))"

fun lossy_from :: "byte list \<Rightarrow> utf8_state \<times> byte list \<Rightarrow> js_string" where
  "lossy_from [] (s, pend) = (if pend = [] then [] else replacement_char)"
| "lossy_from (b # bs) (s, pend) =
     (case lossy_step b (s, pend) of (out, r) \<Rightarrow> out @ lossy_from bs r)"

definition decode_lossy :: "byte list \<Rightarrow> js_string" where
  "decode_lossy bs =
     lossy_from (if take 3 bs = [239, 187, 191] then drop 3 bs else bs) (utf8_start, [])"

end
