(* ===== verification/Archive_Content.thy ===== *)
theory Archive_Content
  imports Archive_Entries Text_Decoding
begin

unbundle bit_operations_syntax

text \<open>
  Content preflight of an uploaded archive, \<open>web/src/artifacts/archive-preflight.ts\<close> lines
  169 to 332 and 334 to 487: the ZIP central directory, the content validators and the pass
  over the expanded bytes. The inflating library (fflate) is outside the repository: the
  files and data events it reports for each pushed chunk are inputs. The lemmas show that
  the pass never observes more than one byte over the limits, that what it accepts is
  within them, and that a validator's verdict does not depend on the chunking.
\<close>

subsection \<open>Header fields\<close>

definition byte_at :: "byte list \<Rightarrow> nat \<Rightarrow> 32 word" where
  "byte_at bytes offset = (if offset < length bytes then ucast (bytes ! offset) else 0)"

definition readU16 :: "byte list \<Rightarrow> nat \<Rightarrow> 32 word" where
  "readU16 bytes offset = byte_at bytes offset OR push_bit 8 (byte_at bytes (offset + 1))"

definition readU32 :: "byte list \<Rightarrow> nat \<Rightarrow> 32 word" where
  "readU32 bytes offset = readU16 bytes offset OR push_bit 16 (readU16 bytes (offset + 2))"

text \<open>The offsets \<open>lo + n - 1\<close> down to \<open>lo\<close>.\<close>

fun end_loop :: "byte list \<Rightarrow> nat \<Rightarrow> nat \<Rightarrow> nat option" where
  "end_loop bytes lo 0 = None"
| "end_loop bytes lo (Suc n) =
     (let offset = lo + n in
      if readU32 bytes offset \<noteq> 0x06054b50 then end_loop bytes lo n
      else if offset + 22 + unat (readU16 bytes (offset + 20)) \<noteq> length bytes then end_loop bytes lo n
      else if readU16 bytes (offset + 4) \<noteq> 0 \<or> readU16 bytes (offset + 6) \<noteq> 0 then None
      else if readU16 bytes (offset + 8) \<noteq> readU16 bytes (offset + 10) then None
      else Some offset)"

definition findEndOfCentralDirectory :: "byte list \<Rightarrow> nat option" where
  "findEndOfCentralDirectory bytes =
     (let lo = length bytes - 65557
      in if length bytes < 22 then None else end_loop bytes lo (length bytes - 22 - lo + 1))"

definition slice :: "nat \<Rightarrow> nat \<Rightarrow> 'a list \<Rightarrow> 'a list" where
  "slice i j xs = take (j - i) (drop i xs)"

definition central_invalid :: js_string where
  "central_invalid = ''ZIP central directory is invalid.''"

definition special_file :: "byte list \<Rightarrow> nat \<Rightarrow> bool" where
  "special_file bytes offset \<longleftrightarrow>
     (let fileType = (drop_bit 16 (readU32 bytes (offset + 38))) AND 0xf000
      in byte_at bytes (offset + 5) = 3 \<and> fileType \<noteq> 0 \<and> fileType \<noteq> 0x8000 \<and> fileType \<noteq> 0x4000)"

definition record_end :: "byte list \<Rightarrow> nat \<Rightarrow> nat" where
  "record_end bytes offset =
     offset + 46 + unat (readU16 bytes (offset + 28)) + unat (readU16 bytes (offset + 30))
       + unat (readU16 bytes (offset + 32))"

fun central_loop :: "byte list \<Rightarrow> nat \<Rightarrow> nat \<Rightarrow> nat \<Rightarrow> js_string + js_string option" where
  "central_loop bytes centralEnd 0 offset =
     (if offset \<noteq> centralEnd then Inl central_invalid else Inr None)"
| "central_loop bytes centralEnd (Suc n) offset =
     (if offset + 46 > centralEnd \<or> readU32 bytes offset \<noteq> 0x02014b50 then Inl central_invalid
      else if record_end bytes offset > centralEnd then Inl central_invalid
      else if special_file bytes offset then
        Inr (Some (decode_lossy (slice (offset + 46) (offset + 46 + unat (readU16 bytes (offset + 28))) bytes)))
      else central_loop bytes centralEnd n (record_end bytes offset))"

definition unsupportedUnixEntry :: "byte list \<Rightarrow> js_string + js_string option" where
  "unsupportedUnixEntry bytes =
     (case findEndOfCentralDirectory bytes of
        None \<Rightarrow> Inl ''ZIP central directory is unavailable.''
      | Some directoryEnd \<Rightarrow>
          let entryCount = readU16 bytes (directoryEnd + 10);
              centralSize = readU32 bytes (directoryEnd + 12);
              centralOffset = readU32 bytes (directoryEnd + 16);
              centralEnd = unat centralOffset + unat centralSize
          in if entryCount = 0xffff \<or> centralSize = 0xffffffff \<or> centralOffset = 0xffffffff
               then Inl ''ZIP64 preflight is unavailable.''
             else if centralEnd > directoryEnd \<or> centralEnd > length bytes then Inl central_invalid
             else central_loop bytes centralEnd (unat entryCount) (unat centralOffset))"

subsection \<open>Content validators\<close>

datatype ValidationKind =
  Kind_text | Kind_json | Kind_svg | Kind_png | Kind_jpeg | Kind_gif | Kind_webp | Kind_avif
| Kind_ico | Kind_woff | Kind_woff2

definition validation_kinds :: "(js_string \<times> ValidationKind) list" where
  "validation_kinds =
     [(''.html'', Kind_text), (''.css'', Kind_text), (''.js'', Kind_text), (''.mjs'', Kind_text),
      (''.txt'', Kind_text), (''.csv'', Kind_text), (''.tsv'', Kind_text), (''.json'', Kind_json),
      (''.svg'', Kind_svg), (''.png'', Kind_png), (''.jpg'', Kind_jpeg), (''.jpeg'', Kind_jpeg),
      (''.gif'', Kind_gif), (''.webp'', Kind_webp), (''.avif'', Kind_avif), (''.ico'', Kind_ico),
      (''.woff'', Kind_woff), (''.woff2'', Kind_woff2)]"

definition kind_name :: "ValidationKind \<Rightarrow> js_string" where
  "kind_name k = (case k of
       Kind_text \<Rightarrow> ''text'' | Kind_json \<Rightarrow> ''json'' | Kind_svg \<Rightarrow> ''svg'' | Kind_png \<Rightarrow> ''png''
     | Kind_jpeg \<Rightarrow> ''jpeg'' | Kind_gif \<Rightarrow> ''gif'' | Kind_webp \<Rightarrow> ''webp'' | Kind_avif \<Rightarrow> ''avif''
     | Kind_ico \<Rightarrow> ''ico'' | Kind_woff \<Rightarrow> ''woff'' | Kind_woff2 \<Rightarrow> ''woff2'')"

definition validationKind :: "js_string \<Rightarrow> ValidationKind option" where
  "validationKind path = (case extension path of None \<Rightarrow> None | Some x \<Rightarrow> map_of validation_kinds x)"

text \<open>The rest of the text after the first occurrence of the marker.\<close>

fun afterMarker :: "js_string \<Rightarrow> js_string \<Rightarrow> js_string option" where
  "afterMarker marker [] = None"
| "afterMarker marker (c # s) =
     (if starts_with marker (c # s) then Some (drop (length marker) (c # s)) else afterMarker marker s)"

fun afterDoctype :: "nat \<Rightarrow> char option \<Rightarrow> js_string \<Rightarrow> js_string option" where
  "afterDoctype depth quote [] = None"
| "afterDoctype depth quote (c # s) =
     (case quote of
        Some q \<Rightarrow> afterDoctype depth (if c = q then None else Some q) s
      | None \<Rightarrow>
          if c = CHR 0x22 \<or> c = CHR 0x27 then afterDoctype depth (Some c) s
          else if c = CHR ''['' then afterDoctype (depth + 1) None s
          else if c = CHR '']'' then afterDoctype (depth - 1) None s
          else if c = CHR ''>'' \<and> depth = 0 then Some s
          else afterDoctype depth None s)"

fun findTagEnd :: "char option \<Rightarrow> js_string \<Rightarrow> bool" where
  "findTagEnd quote [] = False"
| "findTagEnd quote (c # s) =
     (case quote of
        Some q \<Rightarrow> findTagEnd (if c = q then None else Some q) s
      | None \<Rightarrow>
          if c = CHR 0x22 \<or> c = CHR 0x27 then findTagEnd (Some c) s
          else if c = CHR ''>'' then True else findTagEnd None s)"

text \<open>The tag name and what follows it: up to white space, \<open>/\<close> or \<open>>\<close>.\<close>

fun tag_name :: "js_string \<Rightarrow> js_string \<times> js_string" where
  "tag_name [] = ([], [])"
| "tag_name (c # s) =
     (if c = CHR ''/'' \<or> c = CHR ''>'' \<or> 0 < ws_length js_whitespace (c # s) then ([], c # s)
      else case tag_name s of (name, rest) \<Rightarrow> (c # name, rest))"

definition svg_root :: "js_string \<Rightarrow> bool" where
  "svg_root s =
     (case tag_name s of (name, rest) \<Rightarrow>
        name \<noteq> [] \<and> last (split_on (CHR '':'') name) = ''svg'' \<and> findTagEnd None rest)"

lemma afterMarker_length: "afterMarker marker s = Some r \<Longrightarrow> length r \<le> length s"
  by (induction s) (auto split: if_splits)

lemma afterDoctype_length: "afterDoctype d q s = Some r \<Longrightarrow> length r < length s"
  by (induction s arbitrary: d q) (fastforce split: if_splits option.splits)+

text \<open>One prolog construct after its opening \<open><\<close>, or the root element.\<close>

definition svg_construct :: "js_string \<Rightarrow> js_string option + bool" where
  "svg_construct s =
     (if starts_with ''!--'' s then Inl (afterMarker ''-->'' (drop 3 s))
      else if starts_with ''?'' s then Inl (afterMarker ''?>'' (drop 1 s))
      else if starts_with ''![CDATA['' s then Inl (afterMarker '']]>'' (drop 8 s))
      else if to_lower (take 8 s) = ''!doctype'' then Inl (afterDoctype 0 None (drop 8 s))
      else if starts_with ''/'' s \<or> starts_with ''!'' s then Inr False
      else Inr (svg_root s))"

lemma svg_construct_length: "svg_construct s = Inl (Some r) \<Longrightarrow> length r \<le> length s"
proof -
  assume a: "svg_construct s = Inl (Some r)"
  have d: "afterDoctype 0 None (drop 8 s) = Some r \<Longrightarrow> length r \<le> length s"
    using afterDoctype_length [of 0 None "drop 8 s" r] by simp
  have m: "afterMarker marker (drop n s) = Some r \<Longrightarrow> length r \<le> length s" for marker n
    using afterMarker_length [of marker "drop n s" r] by simp
  show ?thesis using a d m by (auto simp: svg_construct_def split: if_splits)
qed

lemma takeWhile_drop_length: "dropWhile P s = c # r \<Longrightarrow> length r < length s"
  by (metis length_Cons length_dropWhile_le less_eq_Suc_le)

function svg_scan :: "js_string \<Rightarrow> bool" where
  "svg_scan text =
     (case dropWhile (\<lambda>c. c \<noteq> CHR ''<'') text of
        [] \<Rightarrow> False
      | c # s \<Rightarrow>
          if js_trim (takeWhile (\<lambda>c. c \<noteq> CHR ''<'') text) \<noteq> [] then False
          else (case svg_construct s of
              Inr b \<Rightarrow> b
            | Inl None \<Rightarrow> False
            | Inl (Some r) \<Rightarrow> svg_scan r))"
  by pat_completeness auto
termination
  by (relation "measure length") (auto dest!: takeWhile_drop_length svg_construct_length)

declare svg_scan.simps [simp del]

definition validSvg :: "byte list \<Rightarrow> bool" where
  "validSvg content \<longleftrightarrow> utf8_valid content \<and> svg_scan (decode_text content)"

definition validJson :: "byte list \<Rightarrow> bool" where
  "validJson content \<longleftrightarrow> utf8_valid content \<and> json_parses (decode_text content)"

fun avif_brand :: "byte list \<Rightarrow> bool" where
  "avif_brand (a # b # c # d # bs) \<longleftrightarrow>
     text_of [a, b, c, d] = ''avif'' \<or> text_of [a, b, c, d] = ''avis'' \<or> avif_brand bs"
| "avif_brand bs \<longleftrightarrow> False"

definition ascii_at :: "nat \<Rightarrow> js_string \<Rightarrow> byte list \<Rightarrow> bool" where
  "ascii_at i w bytes \<longleftrightarrow> text_of (slice i (i + length w) bytes) = w"

definition validPrefix :: "ValidationKind \<Rightarrow> byte list \<Rightarrow> bool" where
  "validPrefix kind bytes = (case kind of
       Kind_png \<Rightarrow> take 8 bytes = [0x89, 0x50, 0x4e, 0x47, 0x0d, 0x0a, 0x1a, 0x0a]
     | Kind_jpeg \<Rightarrow> take 3 bytes = [0xff, 0xd8, 0xff]
     | Kind_gif \<Rightarrow> ascii_at 0 ''GIF87a'' bytes \<or> ascii_at 0 ''GIF89a'' bytes
     | Kind_webp \<Rightarrow> ascii_at 0 ''RIFF'' bytes \<and> ascii_at 8 ''WEBP'' bytes
     | Kind_avif \<Rightarrow>
         length bytes \<ge> 16 \<and> ascii_at 4 ''ftyp'' bytes \<and>
         (ascii_at 8 ''avif'' bytes \<or> ascii_at 8 ''avis'' bytes \<or> avif_brand (drop 16 bytes))
     | Kind_ico \<Rightarrow> take 4 bytes = [0, 0, 1, 0]
     | Kind_woff \<Rightarrow> ascii_at 0 ''wOFF'' bytes
     | Kind_woff2 \<Rightarrow> ascii_at 0 ''wOF2'' bytes
     | _ \<Rightarrow> False)"

text \<open>The state a validator's closure keeps: the decoder, the prefix, or the chunks so far.\<close>

datatype validator =
    V_text utf8_state
  | V_prefix ValidationKind "byte list"
  | V_whole ValidationKind "byte list list"

definition createContentValidator :: "ValidationKind \<Rightarrow> validator" where
  "createContentValidator kind =
     (if kind = Kind_text then V_text utf8_start
      else if kind \<noteq> Kind_json \<and> kind \<noteq> Kind_svg then V_prefix kind []
      else V_whole kind [])"

fun validator_push :: "validator \<Rightarrow> byte list \<Rightarrow> bool \<Rightarrow> bool \<times> validator" where
  "validator_push (V_text s) chunk final =
     (let s' = utf8_run chunk s
      in (if final then utf8_complete s' else s' \<noteq> Utf8_failed, V_text s'))"
| "validator_push (V_prefix kind prefix) chunk final =
     (let prefix' = (if length prefix < 64 then prefix @ take (64 - length prefix) chunk else prefix)
      in (\<not> final \<or> validPrefix kind prefix', V_prefix kind prefix'))"
| "validator_push (V_whole kind chunks) chunk final =
     (let chunks' = chunks @ [chunk]
      in (if \<not> final then True
          else if kind = Kind_json then validJson (concat chunks') else validSvg (concat chunks'),
          V_whole kind chunks'))"

subsection \<open>The content pass\<close>

datatype unzip_event =
    File_found js_string
  | File_data nat bool "byte list" bool

record content_file =
  cf_path :: js_string
  cf_size :: int
  cf_kind :: "ValidationKind option"
  cf_validator :: "validator option"

text \<open>\<open>None\<close> is a stream whose data is dropped.\<close>

record content_state =
  cst_files :: "content_file option list"
  cst_terminal :: "ValidationReport option"
  cst_expanded :: int
  cst_observed :: int

definition open_file :: "(js_string \<times> js_string) list \<Rightarrow> js_string \<Rightarrow> content_file option" where
  "open_file effectivePaths name =
     (case (case safePath name of None \<Rightarrow> None | Some p \<Rightarrow> map_of effectivePaths p) of
        None \<Rightarrow> None
      | Some path \<Rightarrow>
          if path = [] then None
          else Some \<lparr>cf_path = path, cf_size = 0, cf_kind = validationKind path,
                     cf_validator = map_option createContentValidator (validationKind path)\<rparr>)"

definition push_validator :: "content_file \<Rightarrow> byte list \<Rightarrow> bool \<Rightarrow> bool \<times> content_file" where
  "push_validator f chunk final =
     (case cf_validator f of
        None \<Rightarrow> (True, f)
      | Some v \<Rightarrow> (case validator_push v chunk final of (ok, v') \<Rightarrow> (ok, f\<lparr>cf_validator := Some v'\<rparr>)))"

definition on_data ::
  "UploadPolicy \<Rightarrow> ValidationNotice list \<Rightarrow> nat \<Rightarrow> content_file \<Rightarrow> byte list \<Rightarrow> bool
    \<Rightarrow> content_state \<Rightarrow> content_state" where
  "on_data policy warnings i f chunk final s =
     (let n = int (length chunk);
          consumed = min n (min (max 0 (up_maxFileBytes policy - cf_size f) + 1)
                                (max 0 (up_maxExpandedBytes policy - cst_expanded s) + 1));
          f1 = f\<lparr>cf_size := cf_size f + n\<rparr>;
          s = s\<lparr>cst_observed := cst_observed s + consumed, cst_expanded := cst_expanded s + n,
                cst_files := (cst_files s)[i := Some f1]\<rparr>;
          here = no_details\<lparr>vd_path := Some (cf_path f)\<rparr>
      in if cf_size f1 > up_maxFileBytes policy then
           s\<lparr>cst_terminal := Some (failure ''single_file_too_large''
               (here\<lparr>vd_actualBytes := Some (cf_size f1), vd_limitBytes := Some (up_maxFileBytes policy)\<rparr>) warnings)\<rparr>
         else if cst_expanded s > up_maxExpandedBytes policy then
           s\<lparr>cst_terminal := Some (failure ''expanded_size_exceeded''
               (here\<lparr>vd_actualBytes := Some (cst_expanded s), vd_limitBytes := Some (up_maxExpandedBytes policy)\<rparr>) warnings)\<rparr>
         else case push_validator f1 chunk final of
             (ok, f2) \<Rightarrow>
               s\<lparr>cst_files := (cst_files s)[i := Some f2],
                 cst_terminal := (if ok then None else Some (failure ''invalid_file_content''
                   (here\<lparr>vd_validationKind := map_option kind_name (cf_kind f)\<rparr>) warnings))\<rparr>)"

definition content_event ::
  "UploadPolicy \<Rightarrow> (js_string \<times> js_string) list \<Rightarrow> ValidationNotice list \<Rightarrow> unzip_event
    \<Rightarrow> content_state \<Rightarrow> content_state" where
  "content_event policy effectivePaths warnings ev s = (case ev of
       File_found name \<Rightarrow> s\<lparr>cst_files := cst_files s @ [open_file effectivePaths name]\<rparr>
     | File_data i err chunk final \<Rightarrow>
         (if length (cst_files s) \<le> i then s
          else case cst_files s ! i of
            None \<Rightarrow> s
          | Some f \<Rightarrow>
              if cst_terminal s \<noteq> None then s
              else if err then s\<lparr>cst_terminal := Some (failure ''invalid_zip'' no_details warnings)\<rparr>
              else on_data policy warnings i f chunk final s))"

text \<open>The pushed chunks: the events of each, and whether the push threw.\<close>

fun content_pushes ::
  "UploadPolicy \<Rightarrow> (js_string \<times> js_string) list \<Rightarrow> ValidationNotice list
    \<Rightarrow> (unzip_event list \<times> bool) list \<Rightarrow> content_state \<Rightarrow> content_state" where
  "content_pushes policy paths warnings [] s = s"
| "content_pushes policy paths warnings ((evs, threw) # ps) s =
     (if cst_terminal s \<noteq> None then s
      else
        let s = fold (content_event policy paths warnings) evs s
        in if threw then
             s\<lparr>cst_terminal := (case cst_terminal s of
                 None \<Rightarrow> Some (failure ''invalid_zip'' no_details warnings) | Some t \<Rightarrow> Some t)\<rparr>
           else content_pushes policy paths warnings ps s)"

definition content_start :: content_state where
  "content_start = \<lparr>cst_files = [], cst_terminal = None, cst_expanded = 0, cst_observed = 0\<rparr>"

definition validateZipContents ::
  "UploadPolicy \<Rightarrow> (js_string \<times> js_string) list \<Rightarrow> ValidationNotice list
    \<Rightarrow> (unzip_event list \<times> bool) list \<Rightarrow> ValidationReport" where
  "validateZipContents policy paths warnings pushes =
     (case cst_terminal (content_pushes policy paths warnings pushes content_start) of
        None \<Rightarrow> success warnings | Some t \<Rightarrow> t)"

subsection \<open>The whole preflight\<close>

record zip_file =
  zf_name :: js_string
  zf_originalSize :: "int option"

record zip_scan =
  zs_entries :: "ArchiveEntry list"
  zs_seen :: "js_string list"
  zs_terminal :: "ValidationReport option"

definition scan_file :: "zip_file \<Rightarrow> zip_scan \<Rightarrow> zip_scan" where
  "scan_file file s =
     (case safePath (zf_name file) of
        None \<Rightarrow> s\<lparr>zs_terminal := Some (failure ''unsafe_archive_path'' no_details [])\<rparr>
      | Some path \<Rightarrow>
          if path \<in> set (zs_seen s)
            then s\<lparr>zs_terminal := Some (failure ''duplicate_archive_path'' (no_details\<lparr>vd_path := Some path\<rparr>) [])\<rparr>
          else s\<lparr>zs_seen := zs_seen s @ [path],
                 zs_entries := zs_entries s @
                   [\<lparr>ae_path = path, ae_sizeBytes = (case zf_originalSize file of None \<Rightarrow> 0 | Some n \<Rightarrow> n),
                     ae_directory = ends_with ''/'' (zf_name file)\<rparr>]\<rparr>)"

fun scan_pushes :: "(zip_file list \<times> bool) list \<Rightarrow> zip_scan \<Rightarrow> zip_scan" where
  "scan_pushes [] s = s"
| "scan_pushes ((files, threw) # ps) s =
     (if zs_terminal s \<noteq> None then s
      else
        let s = fold scan_file files s
        in if threw then s\<lparr>zs_terminal := Some (failure ''invalid_zip'' no_details [])\<rparr>
           else scan_pushes ps s)"

definition scanZipEntries ::
  "byte list \<Rightarrow> (zip_file list \<times> bool) list \<Rightarrow> js_string + (ValidationReport + ArchiveEntry list)" where
  "scanZipEntries bytes pushes =
     bindR (unsupportedUnixEntry bytes) (\<lambda>unsupported.
     case unsupported of
       Some path \<Rightarrow>
         if path \<noteq> [] then Inr (Inl (failure ''unsupported_file_type'' (no_details\<lparr>vd_path := Some path\<rparr>) []))
         else Inr (case zs_terminal (scan_pushes pushes \<lparr>zs_entries = [], zs_seen = [], zs_terminal = None\<rparr>) of
             Some t \<Rightarrow> Inl t
           | None \<Rightarrow> Inr (zs_entries (scan_pushes pushes \<lparr>zs_entries = [], zs_seen = [], zs_terminal = None\<rparr>)))
     | None \<Rightarrow>
         Inr (case zs_terminal (scan_pushes pushes \<lparr>zs_entries = [], zs_seen = [], zs_terminal = None\<rparr>) of
             Some t \<Rightarrow> Inl t
           | None \<Rightarrow> Inr (zs_entries (scan_pushes pushes \<lparr>zs_entries = [], zs_seen = [], zs_terminal = None\<rparr>))))"

definition preflightArchive ::
  "(js_string \<Rightarrow> js_string \<Rightarrow> int) \<Rightarrow> (zip_file list \<times> bool) list \<Rightarrow> (unzip_event list \<times> bool) list
    \<Rightarrow> byte list \<Rightarrow> UploadPolicy \<Rightarrow> js_string + ValidationReport" where
  "preflightArchive collate scan_events data_events bytes policy =
     (if int (length bytes) > up_maxArchiveBytes policy
        then Inr (preflightEntries collate [] policy (Some (int (length bytes))))
      else if take 4 bytes \<noteq> [80, 75, 3, 4] \<and> take 4 bytes \<noteq> [80, 75, 5, 6]
        then Inr (failure ''invalid_zip'' no_details [])
      else bindR (scanZipEntries bytes scan_events) (\<lambda>scanned.
        case scanned of
          Inl report \<Rightarrow> Inr report
        | Inr entries \<Rightarrow>
            let structureReport = preflightEntries collate entries policy (Some (int (length bytes)))
            in if vr_primaryIssue structureReport \<noteq> None then Inr structureReport
               else Inr (validateZipContents policy (effectivePathMap entries)
                           (vr_warnings structureReport) data_events)))"

subsection \<open>The central directory\<close>

text \<open>The offsets of the next \<open>n\<close> records, and the offset after them.\<close>

fun record_offsets :: "byte list \<Rightarrow> nat \<Rightarrow> nat \<Rightarrow> nat list" where
  "record_offsets bytes 0 offset = []"
| "record_offsets bytes (Suc n) offset = offset # record_offsets bytes n (record_end bytes offset)"

definition records_end :: "byte list \<Rightarrow> nat \<Rightarrow> nat \<Rightarrow> nat" where
  "records_end bytes n offset = ((record_end bytes) ^^ n) offset"

definition regular_record :: "byte list \<Rightarrow> nat \<Rightarrow> nat \<Rightarrow> bool" where
  "regular_record bytes centralEnd offset \<longleftrightarrow>
     offset + 46 \<le> centralEnd \<and> readU32 bytes offset = 0x02014b50
     \<and> record_end bytes offset \<le> centralEnd \<and> \<not> special_file bytes offset"

lemma central_loop_None:
  "central_loop bytes e n offset = Inr None \<longleftrightarrow>
     list_all (regular_record bytes e) (record_offsets bytes n offset) \<and> records_end bytes n offset = e"
proof (induction n arbitrary: offset)
  case (Suc n)
  show ?case
    using Suc.IH [of "record_end bytes offset"]
    by (auto simp: regular_record_def records_end_def funpow_Suc_right simp del: funpow.simps)
qed (simp add: records_end_def)

subsection \<open>Validators and chunks\<close>

text \<open>The verdict on a file delivered in chunks, the last of them final.\<close>

fun push_all :: "validator \<Rightarrow> byte list list \<Rightarrow> bool" where
  "push_all v [] = True"
| "push_all v [c] = fst (validator_push v c True)"
| "push_all v (c # d # cs) =
     (case validator_push v c False of (ok, v') \<Rightarrow> ok \<and> push_all v' (d # cs))"

definition content_ok :: "ValidationKind \<Rightarrow> byte list \<Rightarrow> bool" where
  "content_ok kind content =
     (if kind = Kind_text then utf8_valid content
      else if kind = Kind_json then validJson content
      else if kind = Kind_svg then validSvg content
      else validPrefix kind (take 64 content))"

lemma push_all_text:
  "chunks \<noteq> [] \<Longrightarrow> s \<noteq> Utf8_failed \<Longrightarrow>
     push_all (V_text s) chunks \<longleftrightarrow> utf8_complete (utf8_run (concat chunks) s)"
proof (induction chunks arbitrary: s)
  case (Cons c cs)
  show ?case
  proof (cases cs)
    case Nil
    then show ?thesis by (simp add: Let_def)
  next
    case (Cons d ds)
    show ?thesis
    proof (cases "utf8_run c s = Utf8_failed")
      case True
      then show ?thesis using Cons by (simp add: Let_def utf8_run_append utf8_complete_def)
    next
      case False
      then show ?thesis using Cons Cons.IH [of "utf8_run c s"] by (simp add: Let_def utf8_run_append)
    qed
  qed
qed simp

lemma push_all_prefix:
  "chunks \<noteq> [] \<Longrightarrow> length p \<le> 64 \<Longrightarrow>
     push_all (V_prefix kind p) chunks \<longleftrightarrow> validPrefix kind (take 64 (p @ concat chunks))"
proof (induction chunks arbitrary: p)
  case (Cons c cs)
  let ?p = "if length p < 64 then p @ take (64 - length p) c else p"
  have len: "length ?p \<le> 64" using Cons.prems by auto
  have p: "?p = take 64 (p @ c)" using Cons.prems by auto
  show ?case
  proof (cases cs)
    case Nil
    then show ?thesis using p by (simp add: Let_def)
  next
    case (Cons d ds)
    have "take 64 (?p @ concat cs) = take 64 (p @ concat (c # cs))"
      unfolding p by (simp add: min_def)
    then show ?thesis using Cons.IH [OF _ len] Cons by (simp add: Let_def)
  qed
qed simp

lemma push_all_whole:
  "chunks \<noteq> [] \<Longrightarrow>
     push_all (V_whole kind acc) chunks \<longleftrightarrow>
       (if kind = Kind_json then validJson (concat (acc @ chunks)) else validSvg (concat (acc @ chunks)))"
proof (induction chunks arbitrary: acc)
  case (Cons c cs)
  then show ?case by (cases cs) (simp_all add: Let_def)
qed simp

text \<open>
  C29: a validator's verdict does not depend on the chunking. However the bytes of a file are
  split into chunks, the pushes all succeed exactly when the joined content is valid for
  its kind: well-formed UTF-8, a JSON text, an SVG document, or the magic prefix of the
  format within the first 64 bytes.
\<close>

theorem validator_verdict_is_chunk_independent:
  assumes "chunks \<noteq> []"
  shows "push_all (createContentValidator kind) chunks \<longleftrightarrow> content_ok kind (concat chunks)"
  using assms push_all_text [of chunks utf8_start] push_all_prefix [of chunks "[]" kind] push_all_whole [of chunks kind "[]"]
  by (auto simp: createContentValidator_def content_ok_def utf8_valid_def)

subsection \<open>Bounds of the content pass\<close>

text \<open>A terminal report always carries an issue.\<close>

definition reported :: "ValidationReport option \<Rightarrow> bool" where
  "reported t \<longleftrightarrow> (case t of None \<Rightarrow> True | Some r \<Rightarrow> vr_primaryIssue r \<noteq> None)"

lemma reported_simps [simp]:
  "reported None"
  "reported (Some r) \<longleftrightarrow> vr_primaryIssue r \<noteq> None"
  by (simp_all add: reported_def)

definition file_sizes :: "content_file option list \<Rightarrow> int" where
  "file_sizes fs = sum_list (map (\<lambda>f. case f of None \<Rightarrow> 0 | Some f \<Rightarrow> cf_size f) fs)"

definition content_bounded :: "UploadPolicy \<Rightarrow> content_state \<Rightarrow> bool" where
  "content_bounded policy s \<longleftrightarrow>
     cst_observed s \<le> cst_expanded s \<and> cst_observed s \<le> up_maxExpandedBytes policy + 1
     \<and> cst_expanded s = file_sizes (cst_files s)
     \<and> reported (cst_terminal s)
     \<and> (cst_terminal s = None \<longrightarrow> cst_expanded s \<le> up_maxExpandedBytes policy
          \<and> list_all (\<lambda>f. case f of None \<Rightarrow> True | Some f \<Rightarrow> cf_size f \<le> up_maxFileBytes policy) (cst_files s))"

lemma file_sizes_append [simp]: "file_sizes (fs @ gs) = file_sizes fs + file_sizes gs"
  by (simp add: file_sizes_def)

lemma file_sizes_update:
  "i < length fs \<Longrightarrow> fs ! i = Some f \<Longrightarrow> file_sizes (fs[i := Some g]) = file_sizes fs - cf_size f + cf_size g"
proof (induction fs arbitrary: i)
  case (Cons x fs)
  then show ?case by (cases i) (simp_all add: file_sizes_def)
qed simp

lemma push_validator_size: "push_validator f c b = (ok, g) \<Longrightarrow> cf_size g = cf_size f"
  by (auto simp: push_validator_def split: option.splits prod.splits)

lemma list_all_update: "list_all P xs \<Longrightarrow> P y \<Longrightarrow> list_all P (xs[i := y])"
  by (auto simp: list_all_iff dest: set_update_subset_insert [THEN subsetD])

lemma on_data_bounded:
  assumes s: "content_bounded policy s" "cst_terminal s = None"
    and i: "i < length (cst_files s)" "cst_files s ! i = Some f" and lim: "0 \<le> up_maxExpandedBytes policy"
  shows "content_bounded policy (on_data policy w i f chunk final s)"
proof -
  let ?n = "int (length chunk)"
  let ?f1 = "f\<lparr>cf_size := cf_size f + ?n\<rparr>"
  let ?consumed = "min ?n (min (max 0 (up_maxFileBytes policy - cf_size f) + 1)
      (max 0 (up_maxExpandedBytes policy - cst_expanded s) + 1))"
  have base: "cst_observed s \<le> cst_expanded s" "cst_expanded s \<le> up_maxExpandedBytes policy"
    "cst_expanded s = file_sizes (cst_files s)"
    "list_all (\<lambda>f. case f of None \<Rightarrow> True | Some f \<Rightarrow> cf_size f \<le> up_maxFileBytes policy) (cst_files s)"
    using s by (simp_all add: content_bounded_def)
  have obs: "cst_observed s + ?consumed \<le> cst_expanded s + ?n"
    "cst_observed s + ?consumed \<le> up_maxExpandedBytes policy + 1"
    using base(1,2) by linarith+
  obtain ok f2 where v: "push_validator ?f1 chunk final = (ok, f2)" by fastforce
  have size2: "cf_size f2 = cf_size f + ?n" using push_validator_size [OF v] by simp
  have sums: "file_sizes ((cst_files s)[i := Some g]) = cst_expanded s + ?n" if "cf_size g = cf_size f + ?n" for g
    using file_sizes_update [OF i, of g] that base(3) by simp
  show ?thesis
    unfolding on_data_def Let_def using obs sums size2
    by (auto simp: v content_bounded_def intro!: list_all_update base(4))
qed

lemma content_bounded_terminal:
  "content_bounded policy s \<Longrightarrow> vr_primaryIssue t \<noteq> None \<Longrightarrow> content_bounded policy (s\<lparr>cst_terminal := Some t\<rparr>)"
  by (simp add: content_bounded_def)

lemma content_event_bounded:
  assumes "content_bounded policy s" and "0 \<le> up_maxExpandedBytes policy" and "0 \<le> up_maxFileBytes policy"
  shows "content_bounded policy (content_event policy paths w ev s)"
proof (cases ev)
  case (File_found name)
  have "cf_size f = 0" if "open_file paths name = Some f" for f
    using that by (auto simp: open_file_def split: option.splits if_splits)
  with File_found assms show ?thesis
    by (auto simp: content_event_def content_bounded_def file_sizes_def split: option.splits)
next
  case (File_data i err chunk final)
  then show ?thesis
    using assms(1) on_data_bounded [OF assms(1) _ _ _ assms(2), of i]
    by (auto simp: content_event_def intro: content_bounded_terminal split: option.splits)
qed

lemma content_events_bounded:
  assumes "content_bounded policy s" and "0 \<le> up_maxExpandedBytes policy" and "0 \<le> up_maxFileBytes policy"
  shows "content_bounded policy (fold (content_event policy paths w) evs s)"
  using assms(1) by (induction evs arbitrary: s) (simp_all add: content_event_bounded assms(2,3))

lemma content_pushes_bounded:
  assumes "content_bounded policy s" and "0 \<le> up_maxExpandedBytes policy" and "0 \<le> up_maxFileBytes policy"
  shows "content_bounded policy (content_pushes policy paths w ps s)"
  using assms(1)
proof (induction ps arbitrary: s)
  case (Cons p ps)
  obtain evs threw where p: "p = (evs, threw)" by fastforce
  have b: "content_bounded policy (fold (content_event policy paths w) evs s)"
    by (rule content_events_bounded [OF Cons.prems assms(2,3)])
  have "content_bounded policy ((fold (content_event policy paths w) evs s)\<lparr>cst_terminal :=
      (case cst_terminal (fold (content_event policy paths w) evs s) of
         None \<Rightarrow> Some (failure ''invalid_zip'' no_details w) | Some t \<Rightarrow> Some t)\<rparr>)"
    using b by (auto simp: content_bounded_def split: option.splits)
  then show ?case
    using Cons.IH [OF b] Cons.prems by (simp add: p Let_def)
qed simp

text \<open>
  The content pass cannot be made to expand more than the policy allows. Whatever files
  and data the inflater reports, the bytes counted as observed never exceed
  \<open>maxExpandedBytes\<close> by more than one, and a pass without a terminal issue expanded at most
  \<open>maxExpandedBytes\<close> in total, the sum of its files' sizes, none of them above
  \<open>maxFileBytes\<close>.
\<close>

theorem content_pass_is_bounded:
  assumes "0 \<le> up_maxExpandedBytes policy" and "0 \<le> up_maxFileBytes policy"
  shows "cst_observed (content_pushes policy paths w ps content_start) \<le> up_maxExpandedBytes policy + 1
    \<and> (vr_primaryIssue (validateZipContents policy paths w ps) = None \<longrightarrow>
        file_sizes (cst_files (content_pushes policy paths w ps content_start)) \<le> up_maxExpandedBytes policy
        \<and> list_all (\<lambda>f. case f of None \<Rightarrow> True | Some f \<Rightarrow> cf_size f \<le> up_maxFileBytes policy)
            (cst_files (content_pushes policy paths w ps content_start)))"
proof -
  have "content_bounded policy content_start"
    using assms by (simp add: content_bounded_def content_start_def file_sizes_def)
  from content_pushes_bounded [OF this assms] have b: "content_bounded policy (content_pushes policy paths w ps content_start)" .
  moreover have "cst_terminal (content_pushes policy paths w ps content_start) = None"
    if "vr_primaryIssue (validateZipContents policy paths w ps) = None"
    using that b by (auto simp: validateZipContents_def content_bounded_def split: option.splits)
  ultimately show ?thesis by (auto simp: content_bounded_def)
qed

lemma scan_file_reported: "reported (zs_terminal s) \<Longrightarrow> reported (zs_terminal (scan_file f s))"
  by (auto simp: scan_file_def split: option.splits)

lemma scan_files_reported: "reported (zs_terminal s) \<Longrightarrow> reported (zs_terminal (fold scan_file fs s))"
  by (induction fs arbitrary: s) (simp_all add: scan_file_reported)

lemma scan_pushes_reported: "reported (zs_terminal s) \<Longrightarrow> reported (zs_terminal (scan_pushes ps s))"
proof (induction ps arbitrary: s)
  case (Cons p ps)
  obtain files threw where p: "p = (files, threw)" by fastforce
  show ?case using Cons.IH scan_files_reported [OF Cons.prems] Cons.prems by (simp add: p Let_def)
qed simp

lemma scanZipEntries_Inl: "scanZipEntries bytes ps = Inr (Inl r) \<Longrightarrow> vr_primaryIssue r \<noteq> None"
  using scan_pushes_reported [of "\<lparr>zs_entries = [], zs_seen = [], zs_terminal = None\<rparr>" ps]
  by (auto simp: scanZipEntries_def bindR_eq_Inr split: option.splits if_splits)

lemma central_loop_Some:
  "central_loop bytes e n offset = Inr (Some name) \<Longrightarrow>
     list_ex (\<lambda>o'. special_file bytes o' \<and>
       name = decode_lossy (slice (o' + 46) (o' + 46 + unat (readU16 bytes (o' + 28))) bytes))
     (record_offsets bytes n offset)"
  by (induction n arbitrary: offset) (auto split: if_splits)

text \<open>
  What acceptance says about links and special files. When \<open>preflightArchive\<close> accepts,
  the archive is within its size limit and its central directory was found; either the
  records it announces lie end to end between the announced offset and end, each with the
  record signature, and none of them is a Unix entry that is neither a regular file nor a
  directory; or one of them is such an entry whose name decodes to the empty string, which
  the check takes for the absence of a finding.
\<close>

theorem accepted_archive_central_directory:
  assumes "preflightArchive collate scans datas bytes policy = Inr report" and "vr_primaryIssue report = None"
  shows "\<exists>d. findEndOfCentralDirectory bytes = Some d
    \<and> int (length bytes) \<le> up_maxArchiveBytes policy
    \<and> (let n = unat (readU16 bytes (d + 10)); first = unat (readU32 bytes (d + 16));
           stop = first + unat (readU32 bytes (d + 12))
       in stop \<le> d
          \<and> (list_all (regular_record bytes stop) (record_offsets bytes n first) \<and> records_end bytes n first = stop
             \<or> list_ex (\<lambda>r. special_file bytes r \<and>
                 decode_lossy (slice (r + 46) (r + 46 + unat (readU16 bytes (r + 28))) bytes) = [])
                 (record_offsets bytes n first)))"
proof -
  have big: "int (length bytes) \<le> up_maxArchiveBytes policy"
    using assms by (auto simp: preflightArchive_def preflightEntries_def split: if_splits)
  have sig: "take 4 bytes = [80, 75, 3, 4] \<or> take 4 bytes = [80, 75, 5, 6]"
    using assms big by (auto simp: preflightArchive_def split: if_splits)
  have "\<exists>entries. scanZipEntries bytes scans = Inr (Inr entries)"
  proof (cases "scanZipEntries bytes scans")
    case (Inl e)
    then show ?thesis using assms(1) big sig by (auto simp: preflightArchive_def)
  next
    case (Inr scanned)
    then show ?thesis using assms big sig scanZipEntries_Inl [of bytes scans report]
      by (cases scanned) (auto simp: preflightArchive_def)
  qed
  then obtain entries where scan: "scanZipEntries bytes scans = Inr (Inr entries)" by blast
  obtain u where u1: "unsupportedUnixEntry bytes = Inr u"
    using scan by (cases "unsupportedUnixEntry bytes") (simp_all add: scanZipEntries_def)
  moreover have "u = None \<or> u = Some []"
    using scan u1 by (cases u) (auto simp: scanZipEntries_def split: if_splits)
  ultimately have u: "unsupportedUnixEntry bytes = Inr u" "u = None \<or> u = Some []" by simp_all
  then obtain d where d: "findEndOfCentralDirectory bytes = Some d"
    by (auto simp: unsupportedUnixEntry_def split: option.splits)
  let ?n = "unat (readU16 bytes (d + 10))" and ?first = "unat (readU32 bytes (d + 16))"
  let ?stop = "?first + unat (readU32 bytes (d + 12))"
  have loop: "?stop \<le> d" "central_loop bytes ?stop ?n ?first = Inr u"
    using u(1) d by (auto simp: unsupportedUnixEntry_def Let_def split: if_splits)
  then have "list_all (regular_record bytes ?stop) (record_offsets bytes ?n ?first) \<and> records_end bytes ?n ?first = ?stop
      \<or> list_ex (\<lambda>r. special_file bytes r \<and>
          decode_lossy (slice (r + 46) (r + 46 + unat (readU16 bytes (r + 28))) bytes) = [])
        (record_offsets bytes ?n ?first)"
    using u(2) central_loop_None central_loop_Some by (fastforce simp: list_ex_iff)
  then show ?thesis using d big loop(1) by (auto simp: Let_def)
qed

subsection \<open>Witnesses\<close>

definition example_upload_policy :: UploadPolicy where
  "example_upload_policy =
     \<lparr>up_maxArchiveBytes = 1000, up_maxExpandedBytes = 100, up_maxFileCount = 3, up_maxFileBytes = 50,
      up_enabledExtensions = [''.html'', ''.css'']\<rparr>"

definition by_length :: "js_string \<Rightarrow> js_string \<Rightarrow> int" where
  "by_length a b = int (length a) - int (length b)"

text \<open>
  An archive whose only central record is a symbolic link (mode \<open>0xA1FF\<close>) without a name:
  the local signature, the record, the end of the central directory.
\<close>

definition example_link_archive :: "byte list" where
  "example_link_archive =
     [0x50, 0x4b, 3, 4]
     @ [0x50, 0x4b, 1, 2, 20, 3] @ replicate 32 0 @ [0, 0, 0xff, 0xa1] @ replicate 4 0
     @ [0x50, 0x4b, 5, 6, 0, 0, 0, 0, 1, 0, 1, 0, 46, 0, 0, 0, 4, 0, 0, 0, 0, 0]"

definition example_scan :: "(zip_file list \<times> bool) list" where
  "example_scan = [([\<lparr>zf_name = ''index.html'', zf_originalSize = Some 2\<rparr>], False)]"

definition example_data :: "(unzip_event list \<times> bool) list" where
  "example_data = [([File_found ''index.html'', File_data 0 False [104, 105] True], False)]"

lemma example_archive_accepted:
  "preflightArchive by_length example_scan example_data example_link_archive example_upload_policy = Inr (success [])"
  by code_simp

text \<open>
  The record of a link with an empty name is accepted: \<open>unsupportedUnixEntry\<close> returns the
  empty name, and \<open>scanZipEntries\<close> tests it for truth.
\<close>

theorem unnamed_link_is_accepted:
  "special_file example_link_archive 4 \<and>
   preflightArchive by_length example_scan example_data example_link_archive example_upload_policy = Inr (success [])"
proof
  show "special_file example_link_archive 4" by code_simp
qed (rule example_archive_accepted)

theorem accepted_archive_central_directory_witness:
  "findEndOfCentralDirectory example_link_archive \<noteq> None"
  using accepted_archive_central_directory [OF example_archive_accepted] by auto

theorem content_pass_is_bounded_witness:
  "cst_observed (content_pushes example_upload_policy [(''index.html'', ''index.html'')] [] example_data content_start) \<le> 101"
  using content_pass_is_bounded [of example_upload_policy "[(''index.html'', ''index.html'')]" "[]" example_data]
  by (simp add: example_upload_policy_def)

theorem validator_verdict_is_chunk_independent_witness:
  "push_all (createContentValidator Kind_text) [[0xC3], [0xA9, 104]] \<longleftrightarrow> content_ok Kind_text [0xC3, 0xA9, 104]"
  using validator_verdict_is_chunk_independent [of "[[0xC3], [0xA9, 104]]" Kind_text] by simp

end
