(* ===== verification/Multipart_Upload.thy ===== *)
theory Multipart_Upload
  imports Js_Strings
begin

text \<open>
  The streaming multipart upload, \<open>api/src/http/multipart-upload.ts\<close>. The parser library
  (busboy), the request stream and the consumer of the file are outside; what they do is a
  sequence of events, and the closure variables of \<open>parseArtifactMultipartUpload\<close> are the
  state the handlers step. Promises settle once. The lemmas show when an upload completes,
  that its first failure is the one every party sees, and what is settled when.
\<close>

datatype MultipartUploadErrorCode =
    Invalid_content_type | Invalid_boundary | Invalid_limit | Missing_name | Missing_file
  | Duplicate_name | Duplicate_entry | Duplicate_file | Unknown_part | Invalid_name_encoding
  | Name_too_large | Invalid_file_type | Archive_too_large | Too_many_parts
  | Invalid_part_headers | Stream_interrupted | Consumer_aborted

subsection \<open>The boundary\<close>

definition line_terminators :: "js_string list" where
  "line_terminators = [[CHR 0x0A], [CHR 0x0D], [CHR 0xE2, CHR 0x80, CHR 0xA8], [CHR 0xE2, CHR 0x80, CHR 0xA9]]"

fun has_line_terminator :: "js_string \<Rightarrow> bool" where
  "has_line_terminator [] = False"
| "has_line_terminator (c # s) =
     (list_ex (\<lambda>w. starts_with w (c # s)) line_terminators \<or> has_line_terminator s)"

text \<open>\<open>/^boundary=(.*)$/i\<close>\<close>

definition boundary_value :: "js_string \<Rightarrow> js_string option" where
  "boundary_value segment =
     (if to_lower (take 9 segment) = ''boundary='' \<and> \<not> has_line_terminator (drop 9 segment)
      then Some (drop 9 segment) else None)"

definition alphanumeric :: "char \<Rightarrow> bool" where
  "alphanumeric c \<longleftrightarrow>
     48 \<le> byte_of c \<and> byte_of c \<le> 57 \<or> 65 \<le> byte_of c \<and> byte_of c \<le> 90
     \<or> 97 \<le> byte_of c \<and> byte_of c \<le> 122"

definition boundary_char :: "char \<Rightarrow> bool" where
  "boundary_char c \<longleftrightarrow> alphanumeric c \<or> c = CHR 0x27 \<or> c \<in> set ''()+_,./:=?-''"

definition multipartBoundary :: "js_string option \<Rightarrow> MultipartUploadErrorCode + js_string" where
  "multipartBoundary contentType =
     (case contentType of
        None \<Rightarrow> Inl Invalid_content_type
      | Some value \<Rightarrow>
          (case map js_trim (split_on (CHR '';'') value) of
             [] \<Rightarrow> Inl Invalid_content_type
           | media # segments \<Rightarrow>
               if to_lower media \<noteq> ''multipart/form-data'' then Inl Invalid_content_type
               else (case List.map_filter boundary_value segments of
                   [encoded] \<Rightarrow>
                     let boundary =
                       (if starts_with [CHR 0x22] encoded \<and> ends_with [CHR 0x22] encoded
                        then drop 1 (butlast encoded) else encoded)
                     in if 1 \<le> length boundary \<and> length boundary \<le> 70 \<and> list_all boundary_char boundary
                        then Inr boundary else Inl Invalid_boundary
                 | _ \<Rightarrow> Inl Invalid_boundary)))"

subsection \<open>State\<close>

datatype 'a promise = P_pending | P_resolved 'a | P_rejected MultipartUploadErrorCode

definition resolve_promise :: "'a \<Rightarrow> 'a promise \<Rightarrow> 'a promise" where
  "resolve_promise v p = (case p of P_pending \<Rightarrow> P_resolved v | _ \<Rightarrow> p)"

definition reject_promise :: "MultipartUploadErrorCode \<Rightarrow> 'a promise \<Rightarrow> 'a promise" where
  "reject_promise e p = (case p of P_pending \<Rightarrow> P_rejected e | _ \<Rightarrow> p)"

text \<open>A file stream is named by a number; it is destroyed with or without an error.\<close>

datatype stream_status = Stream_open | Stream_destroyed "MultipartUploadErrorCode option"

record upload_state =
  us_name :: "js_string promise"
  us_entry :: "js_string option promise"
  us_file :: "nat promise"
  us_completed :: "unit promise"
  us_terminalError :: "MultipartUploadErrorCode option"
  us_nameSeen :: bool
  us_entrySeen :: bool
  us_fileSeen :: bool
  us_fileStream :: "(nat \<times> stream_status) option"
  us_fileConsumed :: bool
  us_parserDestroyed :: bool
  us_readerCancelled :: "MultipartUploadErrorCode option"

definition upload_start :: upload_state where
  "upload_start =
     \<lparr>us_name = P_pending, us_entry = P_pending, us_file = P_pending, us_completed = P_pending,
      us_terminalError = None, us_nameSeen = False, us_entrySeen = False, us_fileSeen = False,
      us_fileStream = None, us_fileConsumed = False, us_parserDestroyed = False,
      us_readerCancelled = None\<rparr>"

definition fail :: "MultipartUploadErrorCode \<Rightarrow> bool \<Rightarrow> upload_state \<Rightarrow> upload_state" where
  "fail error destroyFileWithError s =
     (if us_terminalError s \<noteq> None then s
      else s\<lparr>us_terminalError := Some error,
             us_name := reject_promise error (us_name s),
             us_entry := reject_promise error (us_entry s),
             us_file := reject_promise error (us_file s),
             us_completed := reject_promise error (us_completed s),
             us_fileStream := (case us_fileStream s of
                 Some (i, Stream_open) \<Rightarrow>
                   Some (i, Stream_destroyed (if destroyFileWithError then Some error else None))
               | other \<Rightarrow> other),
             us_parserDestroyed := True,
             us_readerCancelled := Some error\<rparr>)"

subsection \<open>Handlers\<close>

text \<open>The replacement character that a value badly encoded in UTF-8 decodes to.\<close>

fun includes_replacement :: "js_string \<Rightarrow> bool" where
  "includes_replacement [] = False"
| "includes_replacement (c # s) =
     (starts_with [CHR 0xEF, CHR 0xBF, CHR 0xBD] (c # s) \<or> includes_replacement s)"

record field_event =
  fe_name :: js_string
  fe_value :: js_string
  fe_nameTruncated :: bool
  fe_valueTruncated :: bool
  fe_mimeType :: js_string

definition on_field :: "bool \<Rightarrow> field_event \<Rightarrow> upload_state \<Rightarrow> upload_state" where
  "on_field requireName f s =
     (if fe_name f = ''entry'' then
        (if us_entrySeen s then fail Duplicate_entry True s
         else
           let s = s\<lparr>us_entrySeen := True\<rparr> in
           if fe_nameTruncated f \<or> fe_valueTruncated f \<or> fe_mimeType f \<noteq> ''text/plain''
               \<or> includes_replacement (fe_value f)
             then fail Invalid_name_encoding True s
           else s\<lparr>us_entry := resolve_promise (Some (fe_value f)) (us_entry s)\<rparr>)
      else if \<not> requireName then fail Unknown_part True s
      else if fe_name f \<noteq> ''name'' then fail Unknown_part True s
      else if us_nameSeen s then fail Duplicate_name True s
      else
        let s = s\<lparr>us_nameSeen := True\<rparr> in
        if fe_nameTruncated f \<or> fe_valueTruncated f then fail Name_too_large True s
        else if fe_mimeType f \<noteq> ''text/plain'' \<or> includes_replacement (fe_value f)
          then fail Invalid_name_encoding True s
        else s\<lparr>us_name := resolve_promise (fe_value f) (us_name s)\<rparr>)"

record file_event =
  fl_name :: js_string
  fl_stream :: nat
  fl_filename :: js_string
  fl_mimeType :: js_string

definition on_file :: "file_event \<Rightarrow> upload_state \<Rightarrow> upload_state" where
  "on_file f s =
     (let s = s\<lparr>us_fileStream := Some (fl_stream f, Stream_open)\<rparr> in
      if fl_name f \<noteq> ''file'' then fail Unknown_part True s
      else if us_fileSeen s then fail Duplicate_file True s
      else
        let s = s\<lparr>us_fileSeen := True\<rparr> in
        if fl_mimeType f \<noteq> ''application/zip'' \<or> \<not> ends_with ''.zip'' (to_lower (fl_filename f))
          then fail Invalid_file_type True s
        else s\<lparr>us_file := resolve_promise (fl_stream f) (us_file s)\<rparr>)"

definition on_finish :: "bool \<Rightarrow> upload_state \<Rightarrow> upload_state" where
  "on_finish requireName s =
     (if us_terminalError s \<noteq> None then s
      else if requireName \<and> \<not> us_nameSeen s then fail Missing_name True s
      else if \<not> us_fileSeen s then fail Missing_file True s
      else
        let s = (if us_entrySeen s then s else s\<lparr>us_entry := resolve_promise None (us_entry s)\<rparr>);
            s = (if requireName then s else s\<lparr>us_name := resolve_promise [] (us_name s)\<rparr>)
        in s\<lparr>us_completed := resolve_promise () (us_completed s)\<rparr>)"

text \<open>An error is one of the upload's own, or foreign.\<close>

datatype any_error = Upload_error MultipartUploadErrorCode | Foreign_error

definition asUploadError :: "any_error \<Rightarrow> MultipartUploadErrorCode" where
  "asUploadError e = (case e of Upload_error c \<Rightarrow> c | Foreign_error \<Rightarrow> Invalid_part_headers)"

definition interrupted :: "any_error \<Rightarrow> MultipartUploadErrorCode" where
  "interrupted e = (case e of Upload_error c \<Rightarrow> c | Foreign_error \<Rightarrow> Stream_interrupted)"

datatype upload_event =
    Ev_field field_event
  | Ev_file file_event
  | Ev_stream_error any_error
  | Ev_stream_limit
  | Ev_fields_limit
  | Ev_files_limit
  | Ev_parts_limit
  | Ev_parser_error any_error
  | Ev_finish
  | Ev_body_missing
  | Ev_chunk_written
  | Ev_read_ended
  | Ev_pump_error any_error
  | Ev_consumer_begins
  | Ev_consumer_at_end
  | Ev_consumer_error
  | Ev_consumer_stops
  | Ev_abort

text \<open>
  One handler. The pump writes chunks and ends the parser without touching the state; the
  consumer of the file gives up by an error, or by stopping early.
\<close>

definition upload_step :: "bool \<Rightarrow> upload_event \<Rightarrow> upload_state \<Rightarrow> upload_state" where
  "upload_step requireName ev s = (case ev of
       Ev_field f \<Rightarrow> on_field requireName f s
     | Ev_file f \<Rightarrow> on_file f s
     | Ev_stream_error e \<Rightarrow> (if us_terminalError s = None then fail (asUploadError e) True s else s)
     | Ev_stream_limit \<Rightarrow> fail Archive_too_large True s
     | Ev_fields_limit \<Rightarrow> fail (if us_nameSeen s then Duplicate_name else Unknown_part) True s
     | Ev_files_limit \<Rightarrow> fail (if us_fileSeen s then Duplicate_file else Unknown_part) True s
     | Ev_parts_limit \<Rightarrow> fail Too_many_parts True s
     | Ev_parser_error e \<Rightarrow> fail (asUploadError e) True s
     | Ev_finish \<Rightarrow> on_finish requireName s
     | Ev_body_missing \<Rightarrow> fail Stream_interrupted True s
     | Ev_chunk_written \<Rightarrow> s
     | Ev_read_ended \<Rightarrow> s
     | Ev_pump_error e \<Rightarrow> (if us_terminalError s = None then fail (interrupted e) True s else s)
     | Ev_consumer_begins \<Rightarrow> s\<lparr>us_fileConsumed := True\<rparr>
     | Ev_consumer_at_end \<Rightarrow> s
     | Ev_consumer_error \<Rightarrow> fail Stream_interrupted True s
     | Ev_consumer_stops \<Rightarrow> fail Consumer_aborted False s
     | Ev_abort \<Rightarrow> fail Consumer_aborted False s)"

text \<open>What the consumer's step throws to it.\<close>

definition consumer_throws :: "upload_event \<Rightarrow> upload_state \<Rightarrow> MultipartUploadErrorCode option" where
  "consumer_throws ev s = (case ev of
       Ev_consumer_begins \<Rightarrow> (if us_fileConsumed s then Some Consumer_aborted else None)
     | Ev_consumer_at_end \<Rightarrow> us_terminalError s
     | Ev_consumer_error \<Rightarrow> Some (case us_terminalError s of None \<Rightarrow> Stream_interrupted | Some e \<Rightarrow> e)
     | _ \<Rightarrow> None)"

definition run_upload :: "bool \<Rightarrow> upload_event list \<Rightarrow> upload_state \<Rightarrow> upload_state" where
  "run_upload requireName evs s = fold (upload_step requireName) evs s"

text \<open>The entry point: the limit and the boundary are checked before anything starts.\<close>

definition parseArtifactMultipartUpload ::
  "js_string option \<Rightarrow> int \<Rightarrow> bool option \<Rightarrow> upload_event list \<Rightarrow> MultipartUploadErrorCode + upload_state" where
  "parseArtifactMultipartUpload contentType maxArchiveBytes requireName evs =
     bindR (guardR (maxArchiveBytes \<le> 9007199254740991 \<and> 0 < maxArchiveBytes) Invalid_limit) (\<lambda>_.
     bindR (multipartBoundary contentType) (\<lambda>boundary.
     Inr (run_upload (case requireName of None \<Rightarrow> True | Some b \<Rightarrow> b) evs upload_start)))"

subsection \<open>Promises settle once\<close>

definition settled :: "'a promise \<Rightarrow> bool" where
  "settled p \<longleftrightarrow> p \<noteq> P_pending"

lemma promise_simps [simp]:
  "resolve_promise v P_pending = P_resolved v"
  "reject_promise e P_pending = P_rejected e"
  "settled p \<Longrightarrow> resolve_promise v p = p"
  "settled p \<Longrightarrow> reject_promise e p = p"
  "settled (resolve_promise v p)" "settled (reject_promise e p)"
  by (cases p; simp add: settled_def resolve_promise_def reject_promise_def)+

text \<open>The promises and the terminal error of a failed upload.\<close>

definition failed_with :: "MultipartUploadErrorCode \<Rightarrow> upload_state \<Rightarrow> bool" where
  "failed_with e s \<longleftrightarrow> us_terminalError s = Some e
     \<and> settled (us_name s) \<and> settled (us_entry s) \<and> settled (us_file s) \<and> settled (us_completed s)
     \<and> us_parserDestroyed s \<and> us_readerCancelled s = Some e"

definition rejections_by :: "MultipartUploadErrorCode \<Rightarrow> upload_state \<Rightarrow> bool" where
  "rejections_by e s \<longleftrightarrow>
     (\<forall>e'. us_name s = P_rejected e' \<longrightarrow> e' = e) \<and> (\<forall>e'. us_entry s = P_rejected e' \<longrightarrow> e' = e)
     \<and> (\<forall>e'. us_file s = P_rejected e' \<longrightarrow> e' = e) \<and> (\<forall>e'. us_completed s = P_rejected e' \<longrightarrow> e' = e)"

definition not_rejected :: "upload_state \<Rightarrow> bool" where
  "not_rejected s \<longleftrightarrow> (\<forall>e. us_name s \<noteq> P_rejected e \<and> us_entry s \<noteq> P_rejected e
     \<and> us_file s \<noteq> P_rejected e \<and> us_completed s \<noteq> P_rejected e)"

text \<open>Either nothing failed yet and nothing is rejected, or one error failed everything.\<close>

definition upload_consistent :: "upload_state \<Rightarrow> bool" where
  "upload_consistent s \<longleftrightarrow>
     (case us_terminalError s of None \<Rightarrow> not_rejected s | Some e \<Rightarrow> failed_with e s \<and> rejections_by e s)"

definition promises :: "upload_state \<Rightarrow> js_string promise \<times> js_string option promise \<times> nat promise \<times> unit promise" where
  "promises s = (us_name s, us_entry s, us_file s, us_completed s)"

lemma reject_rejected: "reject_promise e p = P_rejected e' \<Longrightarrow> p = P_rejected e' \<or> e' = e"
  by (cases p) (simp_all add: reject_promise_def)

lemma resolve_rejected [simp]: "resolve_promise v p = P_rejected e \<longleftrightarrow> p = P_rejected e"
  by (cases p) (simp_all add: resolve_promise_def)

lemma fail_consistent: "upload_consistent s \<Longrightarrow> upload_consistent (fail e b s)"
  by (auto simp: fail_def upload_consistent_def failed_with_def rejections_by_def not_rejected_def
      dest!: reject_rejected split: option.splits)

lemma consistent_flags [simp]:
  "upload_consistent (s\<lparr>us_entrySeen := x\<rparr>) = upload_consistent s"
  "upload_consistent (s\<lparr>us_nameSeen := x\<rparr>) = upload_consistent s"
  "upload_consistent (s\<lparr>us_fileSeen := x\<rparr>) = upload_consistent s"
  "upload_consistent (s\<lparr>us_fileStream := y\<rparr>) = upload_consistent s"
  "upload_consistent (s\<lparr>us_fileConsumed := x\<rparr>) = upload_consistent s"
  by (cases "us_terminalError s";
      simp add: upload_consistent_def failed_with_def rejections_by_def not_rejected_def)+

lemma resolve_consistent:
  "upload_consistent s \<Longrightarrow> upload_consistent (s\<lparr>us_name := resolve_promise v (us_name s)\<rparr>)"
  "upload_consistent s \<Longrightarrow> upload_consistent (s\<lparr>us_entry := resolve_promise w (us_entry s)\<rparr>)"
  "upload_consistent s \<Longrightarrow> upload_consistent (s\<lparr>us_file := resolve_promise i (us_file s)\<rparr>)"
  "upload_consistent s \<Longrightarrow> upload_consistent (s\<lparr>us_completed := resolve_promise () (us_completed s)\<rparr>)"
  by (auto simp: upload_consistent_def failed_with_def rejections_by_def not_rejected_def split: option.splits)

lemma upload_step_consistent: "upload_consistent s \<Longrightarrow> upload_consistent (upload_step req ev s)"
proof -
  assume s: "upload_consistent s"
  have r: "upload_consistent t \<Longrightarrow> upload_consistent (t\<lparr>us_name := resolve_promise v (us_name t)\<rparr>)" for t v
    by (rule resolve_consistent)
  have "upload_consistent (on_field req f s)" for f
    using fail_consistent [of "s\<lparr>us_entrySeen := True\<rparr>"] fail_consistent [of "s\<lparr>us_nameSeen := True\<rparr>"]
      resolve_consistent(2) [of "s\<lparr>us_entrySeen := True\<rparr>"] resolve_consistent(1) [of "s\<lparr>us_nameSeen := True\<rparr>"]
    by (simp add: on_field_def Let_def fail_consistent s)
  moreover have "upload_consistent (on_file f s)" for f
    using resolve_consistent(3) [of "s\<lparr>us_fileStream := Some (fl_stream f, Stream_open), us_fileSeen := True\<rparr>"]
    by (simp add: on_file_def Let_def fail_consistent s)
  moreover have "upload_consistent (on_finish req s)"
  proof (cases "us_terminalError s")
    case None
    with s have "not_rejected s" by (simp add: upload_consistent_def)
    with None show ?thesis
      by (simp add: on_finish_def Let_def fail_consistent s) (auto simp: upload_consistent_def not_rejected_def)
  qed (simp add: on_finish_def s)
  ultimately show ?thesis
    using s by (cases ev) (simp_all add: upload_step_def fail_consistent)
qed

lemma run_upload_consistent: "upload_consistent s \<Longrightarrow> upload_consistent (run_upload req evs s)"
  by (induction evs arbitrary: s) (simp_all add: run_upload_def upload_step_consistent)

lemma upload_start_consistent: "upload_consistent upload_start"
  by (simp add: upload_consistent_def upload_start_def not_rejected_def)

lemma fail_failed: "failed_with e s \<Longrightarrow> fail e' b s = s"
  by (simp add: fail_def failed_with_def)

lemma failed_step:
  assumes "failed_with e s"
  shows "failed_with e (upload_step req ev s) \<and> promises (upload_step req ev s) = promises s"
proof -
  have flags: "failed_with e (s\<lparr>us_entrySeen := x\<rparr>)" "failed_with e (s\<lparr>us_nameSeen := x\<rparr>)"
    "failed_with e (s\<lparr>us_fileStream := y\<rparr>)" "failed_with e (s\<lparr>us_fileStream := y, us_fileSeen := x\<rparr>)" for x y
    using assms by (simp_all add: failed_with_def)
  show ?thesis
    using assms
    by (cases ev)
      (auto simp: upload_step_def on_field_def on_file_def on_finish_def Let_def fail_failed [OF assms]
        fail_failed [OF flags(1)] fail_failed [OF flags(2)] fail_failed [OF flags(3)] fail_failed [OF flags(4)]
        failed_with_def promises_def)
qed

lemma failed_run:
  "failed_with e s \<Longrightarrow> failed_with e (run_upload req evs s) \<and> promises (run_upload req evs s) = promises s"
proof (induction evs arbitrary: s)
  case (Cons ev evs)
  from failed_step [OF Cons.prems, of req ev] Cons.IH show ?case by (simp add: run_upload_def)
qed (simp add: run_upload_def)

text \<open>
  C21: the first failure is the one everybody sees. Once an upload has failed with an error,
  the name, the entry, the file and the completion are all settled, whichever of them were
  rejected carry exactly that error, the parser is destroyed and the request cancelled; and
  no later event of the parser, the request or the consumer changes any of this.
\<close>

theorem first_failure_is_final:
  assumes "us_terminalError (run_upload req evs upload_start) = Some e"
  shows "failed_with e (run_upload req evs upload_start) \<and> rejections_by e (run_upload req evs upload_start)
    \<and> failed_with e (run_upload req (evs @ later) upload_start)
    \<and> promises (run_upload req (evs @ later) upload_start) = promises (run_upload req evs upload_start)"
proof -
  have "failed_with e (run_upload req evs upload_start) \<and> rejections_by e (run_upload req evs upload_start)"
    using run_upload_consistent [OF upload_start_consistent, of req evs] assms by (simp add: upload_consistent_def)
  then show ?thesis
    using failed_run [of e "run_upload req evs upload_start" req later] by (simp add: run_upload_def)
qed

subsection \<open>When an upload completes\<close>

definition field_events :: "upload_event list \<Rightarrow> field_event list" where
  "field_events evs = List.map_filter (\<lambda>ev. case ev of Ev_field f \<Rightarrow> Some f | _ \<Rightarrow> None) evs"

definition field_values :: "js_string \<Rightarrow> upload_event list \<Rightarrow> js_string list" where
  "field_values n evs = map fe_value (filter (\<lambda>f. fe_name f = n) (field_events evs))"

definition file_streams :: "upload_event list \<Rightarrow> nat list" where
  "file_streams evs = List.map_filter (\<lambda>ev. case ev of Ev_file f \<Rightarrow> Some (fl_stream f) | _ \<Rightarrow> None) evs"

definition good_event :: "bool \<Rightarrow> upload_event \<Rightarrow> bool" where
  "good_event requireName ev = (case ev of
       Ev_field f \<Rightarrow>
         (fe_name f = ''entry'' \<or> requireName \<and> fe_name f = ''name'')
         \<and> \<not> fe_nameTruncated f \<and> \<not> fe_valueTruncated f \<and> fe_mimeType f = ''text/plain''
         \<and> \<not> includes_replacement (fe_value f)
     | Ev_file f \<Rightarrow>
         fl_name f = ''file'' \<and> fl_mimeType f = ''application/zip'' \<and> ends_with ''.zip'' (to_lower (fl_filename f))
     | Ev_chunk_written \<Rightarrow> True
     | Ev_read_ended \<Rightarrow> True
     | Ev_consumer_begins \<Rightarrow> True
     | Ev_consumer_at_end \<Rightarrow> True
     | _ \<Rightarrow> False)"

definition upload_ok :: "bool \<Rightarrow> upload_event list \<Rightarrow> bool" where
  "upload_ok requireName evs \<longleftrightarrow>
     list_all (good_event requireName) evs \<and> length (field_values ''entry'' evs) \<le> 1
     \<and> length (field_values ''name'' evs) \<le> 1 \<and> length (file_streams evs) \<le> 1"

definition resolved_first :: "'a list \<Rightarrow> ('a \<Rightarrow> 'b) \<Rightarrow> 'b promise" where
  "resolved_first vs f = (case vs of [] \<Rightarrow> P_pending | v # _ \<Rightarrow> P_resolved (f v))"

text \<open>The state after events none of which is wrong.\<close>

definition upload_progress :: "upload_event list \<Rightarrow> upload_state \<Rightarrow> bool" where
  "upload_progress evs s \<longleftrightarrow> us_terminalError s = None
     \<and> us_nameSeen s = (field_values ''name'' evs \<noteq> []) \<and> us_entrySeen s = (field_values ''entry'' evs \<noteq> [])
     \<and> us_fileSeen s = (file_streams evs \<noteq> [])
     \<and> us_name s = resolved_first (field_values ''name'' evs) id
     \<and> us_entry s = resolved_first (field_values ''entry'' evs) Some
     \<and> us_file s = resolved_first (file_streams evs) id \<and> us_completed s = P_pending"

lemma events_snoc [simp]:
  "field_values n [] = []" "file_streams [] = []"
  "field_values n (evs @ [ev]) = field_values n evs
     @ (case ev of Ev_field f \<Rightarrow> if fe_name f = n then [fe_value f] else [] | _ \<Rightarrow> [])"
  "file_streams (evs @ [ev]) = file_streams evs @ (case ev of Ev_file f \<Rightarrow> [fl_stream f] | _ \<Rightarrow> [])"
  by (simp_all add: field_values_def field_events_def file_streams_def map_filter_def split: upload_event.splits)

lemma upload_ok_snoc:
  "upload_ok req (evs @ [ev]) \<longleftrightarrow> upload_ok req evs \<and> good_event req ev
     \<and> (case ev of
          Ev_field f \<Rightarrow> field_values (fe_name f) evs = []
        | Ev_file f \<Rightarrow> file_streams evs = []
        | _ \<Rightarrow> True)"
  by (cases ev) (auto simp: upload_ok_def good_event_def le_Suc_eq)

lemma fail_terminal [simp]:
  "us_terminalError (fail e b s) \<noteq> None" "\<exists>e'. us_terminalError (fail e b s) = Some e'"
  by (simp_all add: fail_def)

lemma step_progress:
  assumes p: "upload_progress evs s"
    and ok: "good_event req ev" "case ev of
          Ev_field f \<Rightarrow> field_values (fe_name f) evs = []
        | Ev_file f \<Rightarrow> file_streams evs = []
        | _ \<Rightarrow> True"
  shows "upload_progress (evs @ [ev]) (upload_step req ev s)"
proof (cases ev)
  case (Ev_field f)
  with ok have g: "fe_name f = ''entry'' \<or> req \<and> fe_name f = ''name''" "\<not> fe_nameTruncated f"
    "\<not> fe_valueTruncated f" "fe_mimeType f = ''text/plain''" "\<not> includes_replacement (fe_value f)"
    "field_values (fe_name f) evs = []"
    by (simp_all add: good_event_def)
  show ?thesis
  proof (cases "fe_name f = ''entry''")
    case True
    with g p show ?thesis
      by (simp add: Ev_field upload_step_def on_field_def upload_progress_def Let_def resolved_first_def)
  next
    case False
    with g p show ?thesis
      by (auto simp: Ev_field upload_step_def on_field_def upload_progress_def Let_def resolved_first_def)
  qed
next
  case (Ev_file f)
  with ok p show ?thesis
    by (simp add: good_event_def upload_step_def on_file_def upload_progress_def Let_def resolved_first_def)
qed (use ok p in \<open>simp_all add: good_event_def upload_step_def upload_progress_def\<close>)

lemma step_wrong:
  assumes p: "upload_progress evs s" and fin: "ev \<noteq> Ev_finish"
    and wrong: "\<not> (good_event req ev \<and> (case ev of
          Ev_field f \<Rightarrow> field_values (fe_name f) evs = []
        | Ev_file f \<Rightarrow> file_streams evs = []
        | _ \<Rightarrow> True))"
  shows "us_terminalError (upload_step req ev s) \<noteq> None"
proof (cases ev)
  case (Ev_field f)
  from p have seen: "us_nameSeen s = (field_values ''name'' evs \<noteq> [])"
    "us_entrySeen s = (field_values ''entry'' evs \<noteq> [])"
    by (simp_all add: upload_progress_def)
  consider "fe_name f = ''entry''" | "fe_name f = ''name''" "req" | "fe_name f \<noteq> ''entry''" "\<not> req"
    | "fe_name f \<noteq> ''entry''" "fe_name f \<noteq> ''name''" by blast
  then show ?thesis
    using wrong
    by cases (simp_all add: Ev_field good_event_def upload_step_def on_field_def seen Let_def, blast+)
next
  case (Ev_file f)
  with wrong p show ?thesis
    by (auto simp: good_event_def upload_step_def on_file_def upload_progress_def Let_def)
qed (use wrong p fin in \<open>auto simp: good_event_def upload_step_def upload_progress_def\<close>)

lemma run_upload_snoc: "run_upload req (evs @ [ev]) s = upload_step req ev (run_upload req evs s)"
  by (simp add: run_upload_def)

lemma run_upload_progress:
  assumes "Ev_finish \<notin> set evs"
  shows "if upload_ok req evs then upload_progress evs (run_upload req evs upload_start)
    else us_terminalError (run_upload req evs upload_start) \<noteq> None"
  using assms
proof (induction evs rule: rev_induct)
  case Nil
  then show ?case by (simp add: upload_ok_def upload_progress_def run_upload_def upload_start_def resolved_first_def)
next
  case (snoc ev evs)
  then have IH: "if upload_ok req evs then upload_progress evs (run_upload req evs upload_start)
    else us_terminalError (run_upload req evs upload_start) \<noteq> None" and fin: "ev \<noteq> Ev_finish" by auto
  show ?case
  proof (cases "upload_ok req evs")
    case True
    with IH have p: "upload_progress evs (run_upload req evs upload_start)" by simp
    show ?thesis
      using step_progress [OF p] step_wrong [OF p fin] True unfolding run_upload_snoc upload_ok_snoc by auto
  next
    case False
    then obtain e where "us_terminalError (run_upload req evs upload_start) = Some e" using IH by auto
    then have "failed_with e (run_upload req evs upload_start)"
      using run_upload_consistent [OF upload_start_consistent, of req evs] by (simp add: upload_consistent_def)
    from failed_step [OF this, of req ev] False show ?thesis
      unfolding run_upload_snoc upload_ok_snoc by (auto simp: failed_with_def)
  qed
qed

lemma not_completed:
  "Ev_finish \<notin> set evs \<Longrightarrow> us_completed (run_upload req evs upload_start) \<noteq> P_resolved ()"
proof (induction evs rule: rev_induct)
  case (snoc ev evs)
  have "us_completed s \<noteq> P_resolved () \<Longrightarrow> us_completed (fail e b s) \<noteq> P_resolved ()" for e b s
    by (cases "us_completed s") (simp_all add: fail_def reject_promise_def)
  then show ?case
    using snoc unfolding run_upload_snoc
    by (cases ev) (auto simp: upload_step_def on_field_def on_file_def Let_def)
qed (simp add: run_upload_def upload_start_def)

lemma upload_ok_no_name: "upload_ok False evs \<Longrightarrow> field_values ''name'' evs = []"
proof (induction evs rule: rev_induct)
  case (snoc ev evs)
  then show ?case by (cases ev) (auto simp: upload_ok_snoc good_event_def)
qed simp

text \<open>
  C20: when an upload completes. If the parser finishes after events without an earlier
  finish, the completion resolves exactly when every event was right (only known fields,
  each text, untruncated and well encoded; only a ZIP file part named \<open>file\<close>; no limit, no
  error, no abort), no part was repeated, the file was there and so was the name where one
  is required; and then the name, the entry and the file are the values of those parts.
\<close>

theorem upload_completes_iff:
  assumes "Ev_finish \<notin> set evs"
  shows "(us_completed (run_upload req (evs @ [Ev_finish]) upload_start) = P_resolved () \<longleftrightarrow>
      upload_ok req evs \<and> file_streams evs \<noteq> [] \<and> (req \<longrightarrow> field_values ''name'' evs \<noteq> []))
    \<and> (us_completed (run_upload req (evs @ [Ev_finish]) upload_start) = P_resolved () \<longrightarrow>
      us_name (run_upload req (evs @ [Ev_finish]) upload_start)
        = P_resolved (case field_values ''name'' evs of [] \<Rightarrow> [] | v # _ \<Rightarrow> v)
      \<and> us_entry (run_upload req (evs @ [Ev_finish]) upload_start)
        = P_resolved (case field_values ''entry'' evs of [] \<Rightarrow> None | v # _ \<Rightarrow> Some v)
      \<and> us_file (run_upload req (evs @ [Ev_finish]) upload_start) = P_resolved (hd (file_streams evs)))"
proof (cases "upload_ok req evs")
  case False
  then obtain e where "us_terminalError (run_upload req evs upload_start) = Some e"
    using run_upload_progress [OF assms, of req] by auto
  then have "us_completed (on_finish req (run_upload req evs upload_start)) \<noteq> P_resolved ()"
    using not_completed [OF assms, of req] by (simp add: on_finish_def)
  with False show ?thesis by (simp add: run_upload_snoc upload_step_def)
next
  case True
  then have p: "upload_progress evs (run_upload req evs upload_start)"
    using run_upload_progress [OF assms, of req] by simp
  show ?thesis
  proof (cases "file_streams evs \<noteq> [] \<and> (req \<longrightarrow> field_values ''name'' evs \<noteq> [])")
    case False
    with p show ?thesis
      by (auto simp: run_upload_snoc upload_step_def on_finish_def upload_progress_def fail_def)
  next
    case ok: True
    have noname: "\<not> req \<Longrightarrow> field_values ''name'' evs = []"
      using True upload_ok_no_name by (cases req) simp_all
    show ?thesis
      using p ok True noname
      by (cases req) (auto simp: run_upload_snoc upload_step_def on_finish_def upload_progress_def Let_def
          resolved_first_def split: list.splits)
  qed
qed

subsection \<open>Examples\<close>

definition example_name :: upload_event where
  "example_name = Ev_field \<lparr>fe_name = ''name'', fe_value = ''Demo'', fe_nameTruncated = False,
     fe_valueTruncated = False, fe_mimeType = ''text/plain''\<rparr>"

definition example_zip :: upload_event where
  "example_zip = Ev_file \<lparr>fl_name = ''file'', fl_stream = 1, fl_filename = ''site.ZIP'',
     fl_mimeType = ''application/zip''\<rparr>"

lemmas run_example = example_name_def example_zip_def run_upload_def upload_step_def on_field_def on_file_def
  on_finish_def fail_def upload_start_def resolve_promise_def reject_promise_def ends_with_def

lemma first_failure_is_final_witness:
  "us_terminalError (run_upload True [example_name, example_name] upload_start) = Some Duplicate_name
   \<and> us_file (run_upload True ([example_name, example_name] @ [example_zip]) upload_start)
     = P_rejected Duplicate_name"
proof -
  have e: "us_terminalError (run_upload True [example_name, example_name] upload_start) = Some Duplicate_name"
    "us_file (run_upload True [example_name, example_name] upload_start) = P_rejected Duplicate_name"
    by (simp_all add: run_example)
  show ?thesis
    using first_failure_is_final [OF e(1), of "[example_zip]"] e by (simp add: promises_def)
qed

lemma upload_completes_iff_witness:
  "us_completed (run_upload True ([example_name, example_zip] @ [Ev_finish]) upload_start) = P_resolved ()
   \<and> us_name (run_upload True ([example_name, example_zip] @ [Ev_finish]) upload_start) = P_resolved ''Demo''"
proof -
  have fin: "Ev_finish \<notin> set [example_name, example_zip]" by (simp add: example_name_def example_zip_def)
  have vals: "field_values ''name'' [example_name, example_zip] = [''Demo'']"
    "field_values ''entry'' [example_name, example_zip] = []" "file_streams [example_name, example_zip] = [1]"
    by (simp_all add: field_values_def field_events_def file_streams_def map_filter_def example_name_def
        example_zip_def)
  have "list_all (good_event True) [example_name, example_zip]"
    by (simp add: good_event_def example_name_def example_zip_def) code_simp
  then have "upload_ok True [example_name, example_zip]" by (simp add: upload_ok_def vals)
  then show ?thesis using upload_completes_iff [OF fin, of True] vals by simp
qed

end
