(* ===== verification/Object_Storage.thy ===== *)
theory Object_Storage
  imports Gallery_Domain Text_Decoding "HOL-Library.AList" "HOL-Library.List_Lexorder"
begin

text \<open>
  Object storage. The interface of \<open>api/src/storage/object-storage.ts\<close> is the locale
  \<open>object_storage\<close>: its laws are what the services rely on, and the lemmas of the locale
  (a sweep through the pages of a listing sees every object once, a cleanup prefix stays
  below its root) hold for every provider. \<open>api/src/storage/in-memory-object-storage.ts\<close> is
  the provider it is interpreted on. The digest is a parameter \<open>sha256\<close>.
\<close>

record ObjectBody =
  ob_chunks :: "byte list list"
  ob_error :: "js_string option"

record ObjectWrite =
  ow_key :: js_string
  ow_body :: ObjectBody
  ow_contentType :: "js_string option"

record RawZipWriteResult =
  rz_key :: js_string
  rz_sizeBytes :: nat
  rz_sha256 :: js_string

record StoredObjectResult =
  so_key :: js_string
  so_sizeBytes :: nat

record ObjectByteRange =
  br_offset :: int
  br_length :: int

record CommittedObject =
  co_body :: ObjectBody
  co_sizeBytes :: "nat option"
  co_contentType :: "js_string option"
  co_range :: "ObjectByteRange option"

record StoredObjectSummary =
  ss_key :: js_string
  ss_lastModified :: time

record ObjectListInput =
  ol_prefix :: js_string
  ol_limit :: nat
  ol_cursor :: "js_string option"

record ObjectListResult =
  or_objects :: "StoredObjectSummary list"
  or_nextCursor :: "js_string option"

datatype storage_error =
    Body_failed js_string
  | Invalid_byte_range
  | Invalid_cleanup_prefix js_string
  | Object_not_found js_string

text \<open>Integers are those of JavaScript; a range outside the safe ones is refused.\<close>

definition safe_integer :: "int \<Rightarrow> bool" where
  "safe_integer n \<longleftrightarrow> -9007199254740991 \<le> n \<and> n \<le> 9007199254740991"

definition validateObjectReadOptions :: "ObjectByteRange option \<Rightarrow> storage_error + unit" where
  "validateObjectReadOptions requested =
     (case requested of
        None \<Rightarrow> Inr ()
      | Some r \<Rightarrow>
          guardR (safe_integer (br_offset r) \<and> 0 \<le> br_offset r \<and> safe_integer (br_length r) \<and> 0 < br_length r)
            Invalid_byte_range)"

subsection \<open>The order of keys\<close>

text \<open>
  Strings are compared by UTF-16 code units. In UTF-8 that is the order of the bytes, except
  that the code points beyond U+FFFF (lead bytes F0 to F4), whose first unit is a surrogate,
  come before U+E000 to U+FFFF (lead bytes EE and EF).
\<close>

definition utf16_weight :: "char \<Rightarrow> nat" where
  "utf16_weight c = (if byte_of c = 0xEE \<or> byte_of c = 0xEF then byte_of c + 256 else byte_of c)"

definition utf16_key :: "js_string \<Rightarrow> nat list" where
  "utf16_key s = map utf16_weight s"

lemma byte_of_not_large: "256 \<le> n \<Longrightarrow> byte_of c \<noteq> n"
  using nat_of_char_less_256 [of c] by linarith

lemma utf16_key_inject [simp]: "utf16_key s = utf16_key t \<longleftrightarrow> s = t"
proof
  have "inj utf16_weight"
  proof (rule injI)
    fix c d assume "utf16_weight c = utf16_weight d"
    then show "c = d"
      by (auto simp: utf16_weight_def byte_of_not_large split: if_splits)
  qed
  then show "s = t" if "utf16_key s = utf16_key t"
    using that by (simp add: utf16_key_def inj_map_eq_map)
qed simp

text \<open>The keys with a prefix after a cursor, in order; an empty cursor counts as none.\<close>

definition after_cursor :: "js_string option \<Rightarrow> js_string \<Rightarrow> bool" where
  "after_cursor cursor key =
     (case cursor of None \<Rightarrow> True | Some c \<Rightarrow> c = [] \<or> utf16_key c < utf16_key key)"

definition page_keys :: "js_string list \<Rightarrow> nat \<Rightarrow> js_string list" where
  "page_keys keys limit = take limit keys"

definition page_cursor :: "js_string list \<Rightarrow> nat \<Rightarrow> js_string option" where
  "page_cursor keys limit =
     (if limit < length keys \<and> page_keys keys limit \<noteq> [] \<and> last (page_keys keys limit) \<noteq> []
      then Some (last (page_keys keys limit)) else None)"

definition listed_keys :: "js_string list \<Rightarrow> ObjectListInput \<Rightarrow> js_string list" where
  "listed_keys keys i =
     sort_key utf16_key (filter (\<lambda>k. starts_with (ol_prefix i) k \<and> after_cursor (ol_cursor i) k) keys)"

subsection \<open>The provider in memory\<close>

record MemoryObject =
  mo_bytes :: "byte list"
  mo_contentType :: "js_string option"
  mo_lastModified :: time

text \<open>A JavaScript \<open>Map\<close>: entries in the order of insertion.\<close>

type_synonym memory_objects = "(js_string \<times> MemoryObject) list"

definition collect_body :: "ObjectBody \<Rightarrow> storage_error + byte list" where
  "collect_body body =
     (case ob_error body of None \<Rightarrow> Inr (concat (ob_chunks body)) | Some e \<Rightarrow> Inl (Body_failed e))"

definition truthy :: "js_string option \<Rightarrow> js_string option" where
  "truthy s = (case s of Some (c # cs) \<Rightarrow> Some (c # cs) | _ \<Rightarrow> None)"

definition assertCleanupPrefix :: "js_string \<Rightarrow> js_string \<Rightarrow> storage_error + unit" where
  "assertCleanupPrefix root prefix =
     guardR (starts_with (root @ ''/'') prefix \<and> ends_with ''/'' prefix \<and> prefix \<noteq> root @ ''/'')
       (Invalid_cleanup_prefix root)"

definition store_object ::
  "time \<Rightarrow> ObjectWrite \<Rightarrow> byte list \<Rightarrow> memory_objects \<Rightarrow> memory_objects" where
  "store_object now i bytes objects =
     AList.update (ow_key i)
       \<lparr>mo_bytes = bytes, mo_contentType = truthy (ow_contentType i), mo_lastModified = now\<rparr> objects"

definition writeRawZip ::
  "(byte list \<Rightarrow> js_string) \<Rightarrow> time \<Rightarrow> ObjectWrite \<Rightarrow> memory_objects
    \<Rightarrow> memory_objects \<times> (storage_error + RawZipWriteResult)" where
  "writeRawZip sha256 now i objects =
     (case collect_body (ow_body i) of
        Inl e \<Rightarrow> (objects, Inl e)
      | Inr bytes \<Rightarrow> (store_object now i bytes objects,
          Inr \<lparr>rz_key = ow_key i, rz_sizeBytes = length bytes, rz_sha256 = sha256 bytes\<rparr>))"

definition writeStagingObject ::
  "time \<Rightarrow> ObjectWrite \<Rightarrow> memory_objects \<Rightarrow> memory_objects \<times> (storage_error + StoredObjectResult)" where
  "writeStagingObject now i objects =
     (case collect_body (ow_body i) of
        Inl e \<Rightarrow> (objects, Inl e)
      | Inr bytes \<Rightarrow> (store_object now i bytes objects,
          Inr \<lparr>so_key = ow_key i, so_sizeBytes = length bytes\<rparr>))"

text \<open>The provider in memory ignores a requested range.\<close>

definition readCommittedObject :: "js_string \<Rightarrow> memory_objects \<Rightarrow> storage_error + CommittedObject" where
  "readCommittedObject key objects =
     (case map_of objects key of
        None \<Rightarrow> Inl (Object_not_found key)
      | Some obj \<Rightarrow> Inr
          \<lparr>co_body = \<lparr>ob_chunks = [mo_bytes obj], ob_error = None\<rparr>,
           co_sizeBytes = Some (length (mo_bytes obj)),
           co_contentType = truthy (mo_contentType obj), co_range = None\<rparr>)"

definition summary_of :: "memory_objects \<Rightarrow> js_string \<Rightarrow> StoredObjectSummary" where
  "summary_of objects key =
     \<lparr>ss_key = key,
      ss_lastModified = (case map_of objects key of None \<Rightarrow> 0 | Some obj \<Rightarrow> mo_lastModified obj)\<rparr>"

definition listObjects :: "ObjectListInput \<Rightarrow> memory_objects \<Rightarrow> ObjectListResult" where
  "listObjects i objects =
     (let keys = listed_keys (map fst objects) i
      in \<lparr>or_objects = map (summary_of objects) (page_keys keys (ol_limit i)),
          or_nextCursor = page_cursor keys (ol_limit i)\<rparr>)"

definition deleteObject :: "js_string \<Rightarrow> memory_objects \<Rightarrow> memory_objects" where
  "deleteObject key objects = AList.delete key objects"

definition removePrefix :: "js_string \<Rightarrow> memory_objects \<Rightarrow> memory_objects \<times> nat" where
  "removePrefix prefix objects =
     (filter (\<lambda>o'. \<not> starts_with prefix (fst o')) objects,
      length (filter (\<lambda>o'. starts_with prefix (fst o')) objects))"

definition remove_below ::
  "js_string \<Rightarrow> js_string \<Rightarrow> memory_objects \<Rightarrow> memory_objects \<times> (storage_error + nat)" where
  "remove_below root prefix objects =
     (case assertCleanupPrefix root prefix of
        Inl e \<Rightarrow> (objects, Inl e)
      | Inr _ \<Rightarrow> map_prod id Inr (removePrefix prefix objects))"

definition removeStagingPrefix :: "js_string \<Rightarrow> memory_objects \<Rightarrow> memory_objects \<times> (storage_error + nat)" where
  "removeStagingPrefix = remove_below ''staging''"

definition removeContentBundlePrefix ::
  "js_string \<Rightarrow> memory_objects \<Rightarrow> memory_objects \<times> (storage_error + nat)" where
  "removeContentBundlePrefix = remove_below ''content-bundles''"
subsection \<open>The interface\<close>

text \<open>
  \<open>stored\<close> is what a client observes of the storage. The law of \<open>list_page\<close> is stated for
  the keys in any order; the empty key, whose cursor counts as none, is excluded.
\<close>

definition stored_by :: "time \<Rightarrow> ObjectWrite \<Rightarrow> byte list \<Rightarrow> MemoryObject" where
  "stored_by now i bytes =
     \<lparr>mo_bytes = bytes, mo_contentType = truthy (ow_contentType i), mo_lastModified = now\<rparr>"

locale object_storage =
  fixes inv :: "'s \<Rightarrow> bool"
    and stored :: "'s \<Rightarrow> js_string \<Rightarrow> MemoryObject option"
    and write_staging :: "time \<Rightarrow> ObjectWrite \<Rightarrow> 's \<Rightarrow> 's \<times> (storage_error + StoredObjectResult)"
    and read_object :: "js_string \<Rightarrow> 's \<Rightarrow> storage_error + CommittedObject"
    and list_page :: "ObjectListInput \<Rightarrow> 's \<Rightarrow> ObjectListResult"
    and delete_object :: "js_string \<Rightarrow> 's \<Rightarrow> 's"
    and remove_prefix :: "js_string \<Rightarrow> js_string \<Rightarrow> 's \<Rightarrow> 's \<times> (storage_error + nat)"
  assumes write_inv: "inv s \<Longrightarrow> inv (fst (write_staging now i s))"
    and delete_inv: "inv s \<Longrightarrow> inv (delete_object key s)"
    and remove_inv: "inv s \<Longrightarrow> inv (fst (remove_prefix root p s))"
    and write_ok: "collect_body (ow_body i) = Inr bytes \<Longrightarrow>
      stored (fst (write_staging now i s)) = (stored s)(ow_key i \<mapsto> stored_by now i bytes)
      \<and> snd (write_staging now i s) = Inr \<lparr>so_key = ow_key i, so_sizeBytes = length bytes\<rparr>"
    and write_failed: "collect_body (ow_body i) = Inl e \<Longrightarrow> write_staging now i s = (s, Inl e)"
    and read_ok: "stored s key = Some m \<Longrightarrow>
      \<exists>c. read_object key s = Inr c \<and> collect_body (co_body c) = Inr (mo_bytes m)"
    and read_missing: "stored s key = None \<Longrightarrow> read_object key s = Inl (Object_not_found key)"
    and list_law: "inv s \<Longrightarrow> set keys = dom (stored s) \<Longrightarrow> distinct keys \<Longrightarrow> [] \<notin> set keys \<Longrightarrow>
      map ss_key (or_objects (list_page l s)) = page_keys (listed_keys keys l) (ol_limit l)
      \<and> or_nextCursor (list_page l s) = page_cursor (listed_keys keys l) (ol_limit l)"
    and delete_law: "stored (delete_object key s) = (stored s)(key := None)"
    and remove_ok: "assertCleanupPrefix root p = Inr () \<Longrightarrow>
      stored (fst (remove_prefix root p s)) = (\<lambda>k. if starts_with p k then None else stored s k)"
    and remove_refused: "assertCleanupPrefix root p = Inl e \<Longrightarrow> remove_prefix root p s = (s, Inl e)"
begin

text \<open>What was written is what is read, until the key is written, deleted or swept.\<close>

lemma read_back:
  assumes "collect_body (ow_body i) = Inr bytes"
  shows "\<exists>c. read_object (ow_key i) (fst (write_staging now i s)) = Inr c \<and> collect_body (co_body c) = Inr bytes"
  using write_ok [OF assms, of now s] read_ok [of "fst (write_staging now i s)" "ow_key i"]
  by (simp add: stored_by_def)

lemma write_frame: "key \<noteq> ow_key i \<Longrightarrow> stored (fst (write_staging now i s)) key = stored s key"
  by (cases "collect_body (ow_body i)") (auto simp: write_ok write_failed)

lemma read_deleted: "read_object key (delete_object key s) = Inl (Object_not_found key)"
  by (rule read_missing) (simp add: delete_law)

text \<open>A cleanup can only remove what lies strictly below its root.\<close>

lemma remove_stays_below:
  assumes "\<not> starts_with (root @ ''/'') key"
  shows "stored (fst (remove_prefix root p s)) key = stored s key"
proof (cases "assertCleanupPrefix root p")
  case (Inl e)
  then show ?thesis by (simp add: remove_refused)
next
  case (Inr u)
  then have "starts_with (root @ ''/'') p" by (simp add: assertCleanupPrefix_def split: if_splits)
  then have "\<not> starts_with p key" using assms by (auto simp: starts_with_iff)
  then show ?thesis using Inr by (simp add: remove_ok)
qed

end

subsection \<open>Sweeping through the pages\<close>

text \<open>The loop of a client that follows \<open>nextCursor\<close>: the pages it gets, if it ever ends.\<close>

partial_function (option) sweep ::
  "(ObjectListInput \<Rightarrow> ObjectListResult) \<Rightarrow> ObjectListInput \<Rightarrow> ObjectListResult list option" where
  "sweep page i =
     (case or_nextCursor (page i) of
        None \<Rightarrow> Some [page i]
      | Some c \<Rightarrow> Option.bind (sweep page (i\<lparr>ol_cursor := Some c\<rparr>)) (\<lambda>rs. Some (page i # rs)))"

definition swept_keys :: "ObjectListResult list \<Rightarrow> js_string list" where
  "swept_keys rs = concat (map (\<lambda>r. map ss_key (or_objects r)) rs)"

definition all_listed :: "js_string list \<Rightarrow> js_string \<Rightarrow> js_string list" where
  "all_listed keys p = sort_key utf16_key (filter (starts_with p) keys)"

lemma all_listed_simps [simp]:
  "set (all_listed keys p) = {k \<in> set keys. starts_with p k}"
  "distinct (all_listed keys p) = distinct (filter (starts_with p) keys)"
  by (auto simp: all_listed_def)

lemma listed_keys_all:
  "listed_keys keys i = filter (after_cursor (ol_cursor i)) (all_listed keys (ol_prefix i))"
  by (simp add: listed_keys_def all_listed_def filter_sort [symmetric] conj_commute)

lemma all_listed_increasing:
  assumes "distinct keys"
  shows "sorted_wrt (\<lambda>a b. utf16_key a < utf16_key b) (all_listed keys p)"
proof -
  have "sorted (map utf16_key (all_listed keys p))" "distinct (map utf16_key (all_listed keys p))"
    using assms by (simp_all add: all_listed_def distinct_map inj_on_def)
  then have "sorted_wrt (<) (map utf16_key (all_listed keys p))" by (simp add: strict_sorted_iff)
  then show ?thesis by (simp add: sorted_wrt_map)
qed

lemma filter_after_last:
  assumes "sorted_wrt (\<lambda>a b. utf16_key a < utf16_key b) (xs @ ys)" and "xs \<noteq> []" and "last xs \<noteq> []"
  shows "filter (after_cursor (Some (last xs))) (xs @ ys) = ys"
proof -
  have "\<not> utf16_key (last xs) < utf16_key x" if "x \<in> set xs" for x
  proof -
    from \<open>xs \<noteq> []\<close> obtain zs z where xs: "xs = zs @ [z]" by (metis rev_exhaust)
    with that assms(1) show ?thesis by (auto simp: sorted_wrt_append)
  qed
  moreover have "utf16_key (last xs) < utf16_key y" if "y \<in> set ys" for y
    using assms(1,2) that by (simp add: sorted_wrt_append)
  ultimately show ?thesis using assms(3) by (simp add: after_cursor_def filter_empty_conv cong: filter_cong)
qed

context object_storage
begin

lemma page_split:
  assumes "inv s" "set keys = dom (stored s)" "distinct keys" "[] \<notin> set keys" "0 < ol_limit i"
    and "listed_keys keys i = T"
  shows "map ss_key (or_objects (list_page i s)) = take (ol_limit i) T"
    and "or_nextCursor (list_page i s) = (if ol_limit i < length T then Some (last (take (ol_limit i) T)) else None)"
proof -
  have "[] \<notin> set (take (ol_limit i) T)"
    using assms(4,6) by (auto simp: listed_keys_def dest: in_set_takeD)
  then have "take (ol_limit i) T \<noteq> [] \<longrightarrow> last (take (ol_limit i) T) \<noteq> []" by (metis last_in_set)
  then show "map ss_key (or_objects (list_page i s)) = take (ol_limit i) T"
    "or_nextCursor (list_page i s) = (if ol_limit i < length T then Some (last (take (ol_limit i) T)) else None)"
    using list_law [OF assms(1-4), of i] assms(5,6) by (auto simp: page_keys_def page_cursor_def)
qed

text \<open>From any point of a sweep it ends, and takes a full page for every \<open>ol_limit\<close> keys but the last ones.\<close>

lemma sweep_from:
  assumes "inv s" "set keys = dom (stored s)" "distinct keys" "[] \<notin> set keys"
  shows "all_listed keys (ol_prefix i) = seen @ T \<Longrightarrow> 0 < ol_limit i
    \<Longrightarrow> ol_cursor i = (if seen = [] then None else Some (last seen))
    \<Longrightarrow> \<exists>rs. sweep (\<lambda>i. list_page i s) i = Some rs \<and> swept_keys rs = T
      \<and> length rs = max 1 ((length T + ol_limit i - 1) div ol_limit i)
      \<and> (\<forall>r \<in> set (butlast rs). length (or_objects r) = ol_limit i) \<and> (\<forall>r \<in> set rs. length (or_objects r) \<le> ol_limit i)"
proof (induction "length T" arbitrary: seen T i rule: less_induct)
  case less
  let ?n = "ol_limit i" and ?p = "take (ol_limit i) T"
  have inc: "sorted_wrt (\<lambda>a b. utf16_key a < utf16_key b) (seen @ T)"
    using all_listed_increasing [OF assms(3), of "ol_prefix i"] less.prems(1) by simp
  have "set (seen @ T) \<subseteq> set keys" using less.prems(1) by (metis all_listed_simps(1) mem_Collect_eq subsetI)
  then have "seen \<noteq> [] \<Longrightarrow> last seen \<noteq> []" using assms(4) by (metis last_in_set le_sup_iff set_append subsetD)
  then have T: "listed_keys keys i = T"
    using filter_after_last [OF inc] less.prems(1,3)
    by (cases "seen = []") (simp_all add: listed_keys_all after_cursor_def)
  note page = page_split [OF assms less.prems(2) T]
  have size: "length (or_objects (list_page i s)) = length ?p" by (simp only: page(1) [symmetric] length_map)
  show ?case
  proof (cases "?n < length T")
    case False
    then have "length T + ?n - 1 < 2 * ?n" using less.prems(2) by simp
    then have "(length T + ?n - 1) div ?n < 2" using less.prems(2) by (simp add: div_less_iff_less_mult)
    then have "max 1 ((length T + ?n - 1) div ?n) = 1" by simp
    moreover have "sweep (\<lambda>i. list_page i s) i = Some [list_page i s]"
      using page(2) False by (subst sweep.simps) simp
    ultimately show ?thesis using page(1) size False by (simp add: swept_keys_def)
  next
    case True
    let ?i = "i\<lparr>ol_cursor := Some (last ?p)\<rparr>"
    have "?p \<noteq> []" using less.prems(2) True by auto
    then have "\<exists>rs. sweep (\<lambda>i. list_page i s) ?i = Some rs \<and> swept_keys rs = drop ?n T
        \<and> length rs = max 1 ((length (drop ?n T) + ol_limit ?i - 1) div ol_limit ?i)
        \<and> (\<forall>r \<in> set (butlast rs). length (or_objects r) = ol_limit ?i) \<and> (\<forall>r \<in> set rs. length (or_objects r) \<le> ol_limit ?i)"
      using less.prems True by (intro less.hyps [where seen = "seen @ ?p"]) auto
    then obtain rs where rest: "sweep (\<lambda>i. list_page i s) ?i = Some rs" "swept_keys rs = drop ?n T"
        "length rs = max 1 ((length T - ?n + ?n - 1) div ?n)"
        "\<forall>r \<in> set (butlast rs). length (or_objects r) = ?n" "\<forall>r \<in> set rs. length (or_objects r) \<le> ?n"
      by auto
    have run: "sweep (\<lambda>i. list_page i s) i = Some (list_page i s # rs)"
      using page(2) True rest(1) by (subst sweep.simps) simp
    have "length T + ?n - 1 = length T - 1 + ?n" using True by simp
    then have "(length T + ?n - 1) div ?n = (length T - 1 + ?n) div ?n" by (rule arg_cong)
    also have "\<dots> = Suc ((length T - 1) div ?n)" using less.prems(2) by (subst div_add_self2) simp_all
    finally have pages: "(length T + ?n - 1) div ?n = Suc ((length T - 1) div ?n)" .
    have more: "1 \<le> (length T - 1) div ?n" using True less.prems(2) by (simp add: less_eq_div_iff_mult_less_eq)
    moreover have "length T - ?n + ?n - 1 = length T - 1" using True by simp
    ultimately have "length rs = (length T - 1) div ?n" using rest(3) by simp
    then have count: "length (list_page i s # rs) = max 1 ((length T + ?n - 1) div ?n)" using pages by simp
    have "rs \<noteq> []" using \<open>length rs = (length T - 1) div ?n\<close> more by (cases rs) simp_all
    have full: "length (or_objects (list_page i s)) = ?n" using size True by simp
    have "swept_keys (list_page i s # rs) = ?p @ drop ?n T"
      using rest(2) by (simp only: swept_keys_def list.map concat.simps page(1))
    then have "swept_keys (list_page i s # rs) = T" by (simp only: append_take_drop_id)
    moreover have "\<forall>r \<in> set (butlast (list_page i s # rs)). length (or_objects r) = ?n"
      using rest(4) full \<open>rs \<noteq> []\<close> by simp
    moreover have "\<forall>r \<in> set (list_page i s # rs). length (or_objects r) \<le> ?n" using rest(5) full by simp
    ultimately show ?thesis using run count by (intro exI [of _ "list_page i s # rs"] conjI)
  qed
qed

lemma sweep_sees_everything:
  assumes "inv s" "set keys = dom (stored s)" "distinct keys" "[] \<notin> set keys" "0 < limit"
  shows "\<exists>rs. sweep (\<lambda>i. list_page i s) \<lparr>ol_prefix = p, ol_limit = limit, ol_cursor = None\<rparr> = Some rs
    \<and> swept_keys rs = all_listed keys p
    \<and> length rs = max 1 ((length (all_listed keys p) + limit - 1) div limit)
    \<and> (\<forall>r \<in> set (butlast rs). length (or_objects r) = limit) \<and> (\<forall>r \<in> set rs. length (or_objects r) \<le> limit)"
  using sweep_from [where seen = "[]" and i = "\<lparr>ol_prefix = p, ol_limit = limit, ol_cursor = None\<rparr>", OF assms(1-4)] assms(5)
  by simp

end

subsection \<open>The provider in memory keeps the contract\<close>

lemma all_listed_cong:
  assumes "distinct keys" "distinct keys'" "set keys = set keys'"
  shows "all_listed keys p = all_listed keys' p"
proof -
  have "map utf16_key (all_listed keys p) = map utf16_key (all_listed keys' p)"
    using assms
    by (intro sorted_distinct_set_unique) (auto simp: all_listed_def distinct_map inj_on_def)
  then show ?thesis by (simp add: inj_map_eq_map inj_def)
qed

lemma map_of_filter_keys: "map_of (filter (\<lambda>e. P (fst e)) al) k = (if P k then map_of al k else None)"
  by (induction al) auto

interpretation memory: object_storage
  "\<lambda>objects. distinct (map fst objects)" map_of writeStagingObject readCommittedObject listObjects
  deleteObject remove_below
proof unfold_locales
  fix objects :: memory_objects and now :: time and i :: ObjectWrite and key root p :: js_string
  assume d: "distinct (map fst objects)"
  show "distinct (map fst (fst (writeStagingObject now i objects)))"
    using d by (cases "collect_body (ow_body i)") (simp_all add: writeStagingObject_def store_object_def distinct_update)
  show "distinct (map fst (deleteObject key objects))"
    using d by (simp add: deleteObject_def distinct_delete)
  show "distinct (map fst (fst (remove_below root p objects)))"
    using d by (simp add: remove_below_def removePrefix_def distinct_map_filter split: sum.splits)
next
  fix i now s key and bytes :: "byte list" and m :: MemoryObject and e :: storage_error
  show "collect_body (ow_body i) = Inr bytes \<Longrightarrow>
      map_of (fst (writeStagingObject now i s)) = (map_of s)(ow_key i \<mapsto> stored_by now i bytes)
      \<and> snd (writeStagingObject now i s) = Inr \<lparr>so_key = ow_key i, so_sizeBytes = length bytes\<rparr>"
    by (simp add: writeStagingObject_def store_object_def stored_by_def update_conv')
  show "collect_body (ow_body i) = Inl e \<Longrightarrow> writeStagingObject now i s = (s, Inl e)"
    by (simp add: writeStagingObject_def)
  show "map_of s key = Some m \<Longrightarrow>
      \<exists>c. readCommittedObject key s = Inr c \<and> collect_body (co_body c) = Inr (mo_bytes m)"
    by (simp add: readCommittedObject_def collect_body_def)
  show "map_of s key = None \<Longrightarrow> readCommittedObject key s = Inl (Object_not_found key)"
    by (simp add: readCommittedObject_def)
  show "map_of (deleteObject key s) = (map_of s)(key := None)"
    by (simp add: deleteObject_def delete_conv')
next
  fix s :: memory_objects and keys :: "js_string list" and l :: ObjectListInput
  assume "distinct (map fst s)" "set keys = dom (map_of s)" "distinct keys"
  then have "listed_keys (map fst s) l = listed_keys keys l"
    using all_listed_cong [of "map fst s" keys] by (simp add: listed_keys_all dom_map_of_conv_image_fst)
  then show "map ss_key (or_objects (listObjects l s)) = page_keys (listed_keys keys l) (ol_limit l)
      \<and> or_nextCursor (listObjects l s) = page_cursor (listed_keys keys l) (ol_limit l)"
    by (simp add: listObjects_def Let_def summary_of_def comp_def)
next
  fix root p and s :: memory_objects and e
  show "assertCleanupPrefix root p = Inr () \<Longrightarrow>
      map_of (fst (remove_below root p s)) = (\<lambda>k. if starts_with p k then None else map_of s k)"
    by (rule ext)
      (simp add: remove_below_def removePrefix_def map_of_filter_keys [where P = "\<lambda>k. \<not> starts_with p k"])
  show "assertCleanupPrefix root p = Inl e \<Longrightarrow> remove_below root p s = (s, Inl e)"
    by (simp add: remove_below_def)
qed

text \<open>
  C35: a sweep of the object listing ends and is complete. Following \<open>nextCursor\<close> from the
  start, with any positive page size, ends; it visits every stored key with the prefix, each
  exactly once and in the order of the keys. Every page but the last one is full, and with \<open>n\<close>
  keys to visit there are \<open>n\<close> divided by the page size, rounded up, pages, or one empty page when
  there is no key: no further page is asked for after the last key.
\<close>

theorem listing_sweep_is_complete:
  assumes "distinct (map fst objects)" and "[] \<notin> set (map fst objects)" and "0 < limit"
  shows "\<exists>rs. sweep (\<lambda>i. listObjects i objects) \<lparr>ol_prefix = p, ol_limit = limit, ol_cursor = None\<rparr> = Some rs
    \<and> set (swept_keys rs) = {k \<in> fst ` set objects. starts_with p k} \<and> distinct (swept_keys rs)
    \<and> sorted (map utf16_key (swept_keys rs))
    \<and> length rs = max 1 ((card {k \<in> fst ` set objects. starts_with p k} + limit - 1) div limit)
    \<and> (\<forall>r \<in> set (butlast rs). length (or_objects r) = limit) \<and> (\<forall>r \<in> set rs. length (or_objects r) \<le> limit)"
proof -
  let ?keys = "all_listed (map fst objects) p"
  obtain rs where rs: "sweep (\<lambda>i. listObjects i objects) \<lparr>ol_prefix = p, ol_limit = limit, ol_cursor = None\<rparr> = Some rs"
    "swept_keys rs = ?keys" "length rs = max 1 ((length ?keys + limit - 1) div limit)"
    "\<forall>r \<in> set (butlast rs). length (or_objects r) = limit" "\<forall>r \<in> set rs. length (or_objects r) \<le> limit"
    using memory.sweep_sees_everything [OF assms(1) _ assms, of p] by (auto simp: dom_map_of_conv_image_fst)
  have keys: "set ?keys = {k \<in> fst ` set objects. starts_with p k}" "distinct ?keys" "sorted (map utf16_key ?keys)"
    using assms(1) by (auto simp: all_listed_def)
  then have "length ?keys = card {k \<in> fst ` set objects. starts_with p k}" by (metis distinct_card)
  with rs keys show ?thesis by (intro exI [of _ rs]) simp
qed

text \<open>
  Cleanup stays below its root. A staging cleanup either refuses its prefix and changes
  nothing, or removes exactly the objects with the prefix and counts them; in both cases
  every object outside \<open>staging/\<close> (raw uploads, content bundles) is kept, and dually for
  \<open>content-bundles/\<close>.
\<close>

theorem cleanup_stays_below_root:
  assumes "distinct (map fst objects)"
  shows "(\<forall>key. \<not> starts_with ''staging/'' key \<longrightarrow>
            map_of (fst (removeStagingPrefix p objects)) key = map_of objects key)
    \<and> (\<forall>key. \<not> starts_with ''content-bundles/'' key \<longrightarrow>
            map_of (fst (removeContentBundlePrefix p objects)) key = map_of objects key)
    \<and> (\<forall>n. snd (removeStagingPrefix p objects) = Inr n \<longrightarrow>
            n = card {key \<in> fst ` set objects. starts_with p key}
            \<and> (\<forall>key. starts_with p key \<longrightarrow> map_of (fst (removeStagingPrefix p objects)) key = None))
    \<and> (\<forall>e. snd (removeStagingPrefix p objects) = Inl e \<longrightarrow> fst (removeStagingPrefix p objects) = objects)"
proof (intro conjI allI impI)
  fix key
  show "map_of (fst (removeStagingPrefix p objects)) key = map_of objects key" if "\<not> starts_with ''staging/'' key"
    unfolding removeStagingPrefix_def by (rule memory.remove_stays_below) (use that in simp)
  show "map_of (fst (removeContentBundlePrefix p objects)) key = map_of objects key"
    if "\<not> starts_with ''content-bundles/'' key"
    unfolding removeContentBundlePrefix_def by (rule memory.remove_stays_below) (use that in simp)
next
  fix n key assume n: "snd (removeStagingPrefix p objects) = Inr n"
  then have ok: "assertCleanupPrefix ''staging'' p = Inr ()"
    by (cases "assertCleanupPrefix ''staging'' p") (simp_all add: removeStagingPrefix_def remove_below_def)
  have "distinct (map fst (filter (\<lambda>e. starts_with p (fst e)) objects))"
    using assms by (rule distinct_map_filter)
  then have "card (fst ` set (filter (\<lambda>e. starts_with p (fst e)) objects))
      = length (filter (\<lambda>e. starts_with p (fst e)) objects)"
    by (metis distinct_card length_map set_map)
  moreover have "fst ` set (filter (\<lambda>e. starts_with p (fst e)) objects) = {key \<in> fst ` set objects. starts_with p key}"
    by auto
  ultimately show "n = card {key \<in> fst ` set objects. starts_with p key}"
    using n ok by (simp add: removeStagingPrefix_def remove_below_def removePrefix_def)
  show "starts_with p key \<Longrightarrow> map_of (fst (removeStagingPrefix p objects)) key = None"
    unfolding removeStagingPrefix_def by (simp add: memory.remove_ok [OF ok])
next
  fix e assume "snd (removeStagingPrefix p objects) = Inl e"
  then show "fst (removeStagingPrefix p objects) = objects"
    by (cases "assertCleanupPrefix ''staging'' p") (simp_all add: removeStagingPrefix_def remove_below_def)
qed

subsection \<open>Examples\<close>

definition example_objects :: memory_objects where
  "example_objects =
     [(''staging/a/x'', \<lparr>mo_bytes = [1], mo_contentType = None, mo_lastModified = 5\<rparr>),
      (''raw/1'', \<lparr>mo_bytes = [], mo_contentType = None, mo_lastModified = 6\<rparr>),
      (''staging/a/w'', \<lparr>mo_bytes = [2, 3], mo_contentType = None, mo_lastModified = 7\<rparr>)]"

lemma listing_sweep_is_complete_witness:
  "\<exists>rs. sweep (\<lambda>i. listObjects i example_objects) \<lparr>ol_prefix = ''staging/'', ol_limit = 1, ol_cursor = None\<rparr> = Some rs
    \<and> length rs = 2 \<and> set (swept_keys rs) = {''staging/a/x'', ''staging/a/w''}"
proof -
  have "distinct (map fst example_objects)" "[] \<notin> set (map fst example_objects)" "(0::nat) < 1"
    by (simp_all add: example_objects_def)
  note sweep = listing_sweep_is_complete [OF this, of "''staging/''"]
  have "{k \<in> fst ` set example_objects. starts_with ''staging/'' k}
      = set (filter (starts_with ''staging/'') (map fst example_objects))"
    by auto
  also have "filter (starts_with ''staging/'') (map fst example_objects) = [''staging/a/x'', ''staging/a/w'']"
    by (simp add: example_objects_def)
  finally have keys: "{k \<in> fst ` set example_objects. starts_with ''staging/'' k} = {''staging/a/x'', ''staging/a/w''}" by simp
  have "card {''staging/a/x'', ''staging/a/w''} = 2" by simp
  then have "max 1 ((card {''staging/a/x'', ''staging/a/w''} + 1 - 1) div 1) = 2" by (simp only:) simp
  with sweep [unfolded keys] show ?thesis by (elim exE conjE) (intro exI conjI, assumption, simp only:, assumption)
qed

lemma cleanup_stays_below_root_witness:
  "snd (removeStagingPrefix ''staging/a/'' example_objects) = Inr 2
   \<and> map_of (fst (removeStagingPrefix ''staging/a/'' example_objects)) ''raw/1'' \<noteq> None
   \<and> map_of (fst (removeStagingPrefix ''staging/a/'' example_objects)) ''staging/a/x'' = None"
proof -
  have d: "distinct (map fst example_objects)" by (simp add: example_objects_def)
  have n: "snd (removeStagingPrefix ''staging/a/'' example_objects) = Inr 2"
    by (simp add: removeStagingPrefix_def remove_below_def assertCleanupPrefix_def removePrefix_def
        example_objects_def ends_with_def)
  have raw: "map_of example_objects ''raw/1'' \<noteq> None" "\<not> starts_with ''staging/'' ''raw/1''"
    "starts_with ''staging/a/'' ''staging/a/x''"
    by (simp_all add: example_objects_def)
  note cleanup = cleanup_stays_below_root [OF d, of "''staging/a/''"]
  note outside = cleanup [THEN conjunct1, rule_format, OF raw(2)]
    and inside = cleanup [THEN conjunct2, THEN conjunct2, THEN conjunct1, rule_format, OF n]
  show ?thesis using n outside raw(1) inside [THEN conjunct2, rule_format, OF raw(3)] by metis
qed

end
