(* ===== verification/Upload_Input.thy ===== *)
theory Upload_Input
  imports Object_Storage
begin

text \<open>
  What an upload request is reduced to before it is stored:
  \<open>api/src/application/artifacts/artifact-upload-input.ts\<close> and \<open>raw-fingerprint.ts\<close>. The
  digest and the keyed digest are parameters. The lemmas show what an accepted entry path
  looks like, when a body is too large, and that a fingerprint is bound to its owner.
\<close>

subsection \<open>The requested entry\<close>

datatype entry_error = Requested_entry_invalid

definition normalizeRequestedEntry :: "js_string option \<Rightarrow> entry_error + js_string option" where
  "normalizeRequestedEntry value =
     (case value of
        None \<Rightarrow> Inr None
      | Some v \<Rightarrow>
          let entry = js_trim v in
          if entry = [] \<or> starts_with ''/'' entry \<or> includes_char (CHR 0x5C) entry
             \<or> list_ex (\<lambda>part. part = [] \<or> part = ''..'') (split_on (CHR ''/'') entry)
          then Inl Requested_entry_invalid else Inr (Some entry))"

text \<open>
  An accepted entry path is relative and canonical. It has no surrounding white space,
  no backslash, and its slash-separated parts are neither empty nor \<open>..\<close>, so it cannot leave
  the archive; normalising it again gives it back; and a path is refused only if it is not so.
\<close>

theorem requested_entry_canonical:
  "normalizeRequestedEntry (Some v) =
     (if js_trim v \<noteq> [] \<and> hd (js_trim v) \<noteq> CHR ''/'' \<and> CHR 0x5C \<notin> set (js_trim v)
         \<and> [] \<notin> set (split_on (CHR ''/'') (js_trim v)) \<and> ''..'' \<notin> set (split_on (CHR ''/'') (js_trim v))
      then Inr (Some (js_trim v)) else Inl Requested_entry_invalid)
   \<and> (\<forall>e. normalizeRequestedEntry (Some v) = Inr (Some e) \<longrightarrow> normalizeRequestedEntry (Some e) = Inr (Some e))"
proof -
  have "starts_with ''/'' t \<longleftrightarrow> t \<noteq> [] \<and> hd t = CHR ''/''" for t by (cases t) auto
  then show ?thesis
    by (auto simp: normalizeRequestedEntry_def Let_def includes_char_def list_ex_iff split: if_splits)
qed

subsection \<open>The body\<close>

datatype hash_error = Too_large | Source_failed js_string

fun hash_chunks :: "int \<Rightarrow> nat \<Rightarrow> byte list \<Rightarrow> byte list list \<Rightarrow> js_string option
    \<Rightarrow> hash_error + nat \<times> byte list" where
  "hash_chunks maxBytes sizeBytes hashed [] error =
     (case error of None \<Rightarrow> Inr (sizeBytes, hashed) | Some e \<Rightarrow> Inl (Source_failed e))"
| "hash_chunks maxBytes sizeBytes hashed (chunk # chunks) error =
     (if maxBytes < int (sizeBytes + length chunk) then Inl Too_large
      else hash_chunks maxBytes (sizeBytes + length chunk) (hashed @ chunk) chunks error)"

definition hashUploadBody ::
  "(byte list \<Rightarrow> js_string) \<Rightarrow> ObjectBody \<Rightarrow> int \<Rightarrow> hash_error + nat \<times> js_string" where
  "hashUploadBody sha256 body maxBytes =
     (case hash_chunks maxBytes 0 [] (ob_chunks body) (ob_error body) of
        Inl e \<Rightarrow> Inl e
      | Inr (sizeBytes, hashed) \<Rightarrow> Inr (sizeBytes, sha256 hashed))"

lemma hash_chunks_eq:
  "hash_chunks maxBytes n hashed chunks error =
     (if chunks \<noteq> [] \<and> maxBytes < int (n + length (concat chunks)) then Inl Too_large
      else case error of None \<Rightarrow> Inr (n + length (concat chunks), hashed @ concat chunks)
        | Some e \<Rightarrow> Inl (Source_failed e))"
  by (induction chunks arbitrary: n hashed) (auto split: option.splits)

text \<open>
  An upload body is refused exactly when it is too large, however it is chunked. The
  result is the number of its bytes and the digest of their concatenation; a failing source
  is reported unless the limit was passed before; and a result is what storing the body in
  the object storage would store and report.
\<close>

theorem hashUploadBody_exact:
  "hashUploadBody sha256 body maxBytes =
     (if ob_chunks body \<noteq> [] \<and> maxBytes < int (length (concat (ob_chunks body))) then Inl Too_large
      else case collect_body body of
          Inl _ \<Rightarrow> Inl (Source_failed (the (ob_error body)))
        | Inr bytes \<Rightarrow> Inr (length bytes, sha256 bytes))
   \<and> (\<forall>now key n d objects. hashUploadBody sha256 body maxBytes = Inr (n, d) \<longrightarrow>
        snd (writeRawZip sha256 now \<lparr>ow_key = key, ow_body = body, ow_contentType = None\<rparr> objects)
          = Inr \<lparr>rz_key = key, rz_sizeBytes = n, rz_sha256 = d\<rparr>)"
  by (auto simp: hashUploadBody_def hash_chunks_eq collect_body_def writeRawZip_def split: option.splits)

text \<open>\<open>discardUncommittedRawObject\<close>: a failing deletion is ignored.\<close>

definition discardUncommittedRawObject :: "('s \<Rightarrow> 's \<times> ('e + unit)) \<Rightarrow> 's \<Rightarrow> 's \<times> unit" where
  "discardUncommittedRawObject delete_key s =
     (case delete_key s of (s', Inl _) \<Rightarrow> (s', ()) | (s', Inr u) \<Rightarrow> (s', u))"

subsection \<open>Fingerprints\<close>

record FingerprintKey =
  fk_revision :: js_string
  fk_secret :: js_string

record RawFingerprintCandidate =
  rf_keyRevision :: js_string
  rf_fingerprint :: js_string

record fingerprint_keys =
  fp_keys :: "FingerprintKey list"
  fp_purpose :: js_string

datatype fingerprint_error = Revisions_equal | Digest_not_hexadecimal

definition newRawFingerprintCandidates ::
  "FingerprintKey \<Rightarrow> FingerprintKey option \<Rightarrow> js_string option \<Rightarrow> fingerprint_error + fingerprint_keys" where
  "newRawFingerprintCandidates current previous purpose =
     (if map_option fk_revision previous = Some (fk_revision current) then Inl Revisions_equal
      else Inr \<lparr>fp_keys = current # (case previous of None \<Rightarrow> [] | Some k \<Rightarrow> [k]),
                fp_purpose = (case purpose of None \<Rightarrow> ''shareslices:raw-upload-fingerprint:v1'' | Some p \<Rightarrow> p)\<rparr>)"

definition lower_hex :: "char \<Rightarrow> bool" where
  "lower_hex c \<longleftrightarrow> 48 \<le> byte_of c \<and> byte_of c \<le> 57 \<or> 97 \<le> byte_of c \<and> byte_of c \<le> 102"

definition sha256_hex :: "js_string \<Rightarrow> bool" where
  "sha256_hex s \<longleftrightarrow> length s = 64 \<and> list_all lower_hex s"

definition fingerprint_message :: "js_string \<Rightarrow> js_string \<Rightarrow> js_string \<Rightarrow> js_string" where
  "fingerprint_message purpose ownerUserId rawSha256 =
     purpose @ [CHR 0x00] @ ownerUserId @ [CHR 0x00] @ rawSha256"

definition create_candidates ::
  "(js_string \<Rightarrow> js_string \<Rightarrow> js_string) \<Rightarrow> js_string \<Rightarrow> js_string \<Rightarrow> fingerprint_keys
    \<Rightarrow> fingerprint_error + RawFingerprintCandidate list" where
  "create_candidates hmac ownerUserId rawSha256 ks =
     (if \<not> sha256_hex rawSha256 then Inl Digest_not_hexadecimal
      else Inr (map (\<lambda>key. \<lparr>rf_keyRevision = fk_revision key,
                 rf_fingerprint = hmac (fk_secret key) (fingerprint_message (fp_purpose ks) ownerUserId rawSha256)\<rparr>)
             (fp_keys ks)))"

lemma fingerprint_message_inject:
  assumes "sha256_hex d" "sha256_hex d'" "fingerprint_message p u d = fingerprint_message p u' d'"
  shows "u = u' \<and> d = d'"
  using assms by (simp add: fingerprint_message_def sha256_hex_def)
text \<open>
  A fingerprint is bound to its owner. With a keyed digest without collisions under each
  secret, two candidates made by the same configured keys agree in key revision and
  fingerprint only if they were made for the same owner and the same archive digest: the
  separators cannot be confused with the data, and no two keys share a revision.
\<close>

theorem fingerprint_bound_to_owner:
  assumes "newRawFingerprintCandidates current previous purpose = Inr ks"
    and "\<And>secret. inj (hmac secret)"
    and "create_candidates hmac u d ks = Inr cs" "create_candidates hmac u' d' ks = Inr cs'"
    and "c \<in> set cs" "c' \<in> set cs'"
    and "rf_keyRevision c = rf_keyRevision c'" "rf_fingerprint c = rf_fingerprint c'"
  shows "u = u' \<and> d = d'"
proof -
  have hex: "sha256_hex d" "sha256_hex d'" using assms(3,4) by (auto simp: create_candidates_def split: if_splits)
  obtain k k' where k: "k \<in> set (fp_keys ks)" "k' \<in> set (fp_keys ks)"
    "rf_keyRevision c = fk_revision k" "rf_keyRevision c' = fk_revision k'"
    "rf_fingerprint c = hmac (fk_secret k) (fingerprint_message (fp_purpose ks) u d)"
    "rf_fingerprint c' = hmac (fk_secret k') (fingerprint_message (fp_purpose ks) u' d')"
    using assms(3-6) hex by (auto simp: create_candidates_def)
  have "k = k'"
    using assms(1,7) k(1-4) by (auto simp: newRawFingerprintCandidates_def split: if_splits option.splits)
  then have "fingerprint_message (fp_purpose ks) u d = fingerprint_message (fp_purpose ks) u' d'"
    using assms(2) assms(8) k(5,6) by (simp add: inj_eq)
  then show ?thesis by (rule fingerprint_message_inject [OF hex])
qed

subsection \<open>Examples\<close>

definition example_keys :: fingerprint_keys where
  "example_keys = \<lparr>fp_keys = [\<lparr>fk_revision = ''2'', fk_secret = ''s''\<rparr>, \<lparr>fk_revision = ''1'', fk_secret = ''t''\<rparr>],
     fp_purpose = ''shareslices:raw-upload-fingerprint:v1''\<rparr>"

definition example_digest :: js_string where
  "example_digest = replicate 64 CHR ''a''"

definition example_candidates :: "RawFingerprintCandidate list" where
  "example_candidates = map (\<lambda>k. \<lparr>rf_keyRevision = fk_revision k,
     rf_fingerprint = fk_secret k @ fingerprint_message (fp_purpose example_keys) ''u1'' example_digest\<rparr>)
     (fp_keys example_keys)"

lemma fingerprint_bound_to_owner_witness:
  "newRawFingerprintCandidates \<lparr>fk_revision = ''2'', fk_secret = ''s''\<rparr>
     (Some \<lparr>fk_revision = ''1'', fk_secret = ''t''\<rparr>) None = Inr example_keys
   \<and> create_candidates (@) ''u1'' example_digest example_keys = Inr example_candidates
   \<and> example_candidates \<noteq> [] \<and> ''u1'' = ''u1'' \<and> example_digest = example_digest"
proof -
  have new: "newRawFingerprintCandidates \<lparr>fk_revision = ''2'', fk_secret = ''s''\<rparr>
     (Some \<lparr>fk_revision = ''1'', fk_secret = ''t''\<rparr>) None = Inr example_keys"
    by (simp add: newRawFingerprintCandidates_def example_keys_def)
  have inj: "inj ((@) s)" for s :: js_string by (simp add: inj_def)
  have made: "create_candidates (@) ''u1'' example_digest example_keys = Inr example_candidates"
    by (simp add: create_candidates_def example_candidates_def sha256_hex_def example_digest_def lower_hex_def
        list_all_iff)
  have mem: "hd example_candidates \<in> set example_candidates"
    by (simp add: example_candidates_def example_keys_def)
  have "''u1'' = ''u1'' \<and> example_digest = example_digest"
    by (rule fingerprint_bound_to_owner [OF new inj made made mem mem refl refl])
  then show ?thesis using new made mem by auto
qed

end
