(* ===== verification/Job_Wakes.thy ===== *)
theory Job_Wakes
  imports Json Gallery_Domain
begin

text \<open>
  The messages that wake a job on the hosted deployment,
  \<open>api/src/cloudflare/job-wake.ts\<close>: creation, and the validation of a received one. Dates
  and random ids are parameters. The lemmas show that validation accepts exactly the
  messages creation makes from well-formed parts.
\<close>

datatype CloudflareJobWakeLane =
    Authentication_email | Reconciliation | Artifact_processing | Thumbnail
  | Bundle_alias | Gallery_safety | Gallery_cover | Gallery_copy

definition cloudflareJobWakeLanes :: "(js_string \<times> CloudflareJobWakeLane) list" where
  "cloudflareJobWakeLanes =
     [(''authentication-email'', Authentication_email), (''reconciliation'', Reconciliation),
      (''artifact-processing'', Artifact_processing), (''thumbnail'', Thumbnail),
      (''bundle-alias'', Bundle_alias), (''gallery-safety'', Gallery_safety),
      (''gallery-cover'', Gallery_cover), (''gallery-copy'', Gallery_copy)]"

definition lane_name :: "CloudflareJobWakeLane \<Rightarrow> js_string" where
  "lane_name lane = (case lane of
       Authentication_email \<Rightarrow> ''authentication-email'' | Reconciliation \<Rightarrow> ''reconciliation''
     | Artifact_processing \<Rightarrow> ''artifact-processing'' | Thumbnail \<Rightarrow> ''thumbnail''
     | Bundle_alias \<Rightarrow> ''bundle-alias'' | Gallery_safety \<Rightarrow> ''gallery-safety''
     | Gallery_cover \<Rightarrow> ''gallery-cover'' | Gallery_copy \<Rightarrow> ''gallery-copy'')"

record CloudflareJobWake =
  wk_wakeId :: js_string
  wk_lane :: CloudflareJobWakeLane
  wk_durableJobId :: "js_string option"
  wk_createdAt :: js_string

text \<open>The object as the queue carries it; the version is the constant 1.\<close>

definition wake_object :: "CloudflareJobWake \<Rightarrow> json" where
  "wake_object w =
     JObj ([(''version'', JNum 1), (''wakeId'', JStr (wk_wakeId w)), (''lane'', JStr (lane_name (wk_lane w)))]
       @ (case wk_durableJobId w of None \<Rightarrow> [] | Some j \<Rightarrow> [(''durableJobId'', JStr j)])
       @ [(''createdAt'', JStr (wk_createdAt w))])"

text \<open>\<open>/^[0-9a-f]{8}-[0-9a-f]{4}-[1-8][0-9a-f]{3}-[89ab][0-9a-f]{3}-[0-9a-f]{12}$/i\<close>\<close>

definition hex_char :: "char \<Rightarrow> bool" where
  "hex_char c \<longleftrightarrow> 48 \<le> byte_of c \<and> byte_of c \<le> 57 \<or> 97 \<le> byte_of c \<and> byte_of c \<le> 102
     \<or> 65 \<le> byte_of c \<and> byte_of c \<le> 70"

definition uuid_pattern :: "(char \<Rightarrow> bool) list" where
  "uuid_pattern =
     replicate 8 hex_char @ [\<lambda>c. c = CHR ''-''] @ replicate 4 hex_char @ [\<lambda>c. c = CHR ''-'']
     @ [\<lambda>c. 49 \<le> byte_of c \<and> byte_of c \<le> 56] @ replicate 3 hex_char @ [\<lambda>c. c = CHR ''-'']
     @ [\<lambda>c. c \<in> set ''89abAB''] @ replicate 3 hex_char @ [\<lambda>c. c = CHR ''-''] @ replicate 12 hex_char"

definition uuid :: "js_string \<Rightarrow> bool" where
  "uuid s \<longleftrightarrow> list_all2 (\<lambda>p c. p c) uuid_pattern s"

record wake_input =
  wi_lane :: CloudflareJobWakeLane
  wi_durableJobId :: "js_string option"
  wi_wakeId :: "js_string option"
  wi_now :: "time option"

definition createCloudflareJobWake ::
  "(time \<Rightarrow> js_string) \<Rightarrow> time \<Rightarrow> js_string \<Rightarrow> wake_input \<Rightarrow> CloudflareJobWake" where
  "createCloudflareJobWake iso_of clock random i =
     \<lparr>wk_wakeId = (case wi_wakeId i of None \<Rightarrow> random | Some w \<Rightarrow> w),
      wk_lane = wi_lane i,
      wk_durableJobId = (case wi_durableJobId i of Some (c # cs) \<Rightarrow> Some (c # cs) | _ \<Rightarrow> None),
      wk_createdAt = iso_of (case wi_now i of None \<Rightarrow> clock | Some t \<Rightarrow> t)\<rparr>"

datatype wake_error = Invalid_job_wake

definition allowed_keys :: "js_string list" where
  "allowed_keys = [''version'', ''wakeId'', ''lane'', ''durableJobId'', ''createdAt'']"

definition is_string :: "json option \<Rightarrow> (js_string \<Rightarrow> bool) \<Rightarrow> bool" where
  "is_string v p = (case v of Some (JStr s) \<Rightarrow> p s | _ \<Rightarrow> False)"

definition string_of :: "json option \<Rightarrow> js_string" where
  "string_of v = (case v of Some (JStr s) \<Rightarrow> s | _ \<Rightarrow> [])"

text \<open>
  \<open>normal_date\<close> is the string that the date of a string formats to, absent for an invalid date.
\<close>

definition parseCloudflareJobWake ::
  "(js_string \<Rightarrow> js_string option) \<Rightarrow> json \<Rightarrow> wake_error + CloudflareJobWake" where
  "parseCloudflareJobWake normal_date message =
     (case message of
        JObj kvs \<Rightarrow>
          let get = map_of kvs in
          bindR (guardR (list_all (\<lambda>kv. fst kv \<in> set allowed_keys) kvs) Invalid_job_wake) (\<lambda>_.
          bindR (guardR (get ''version'' = Some (JNum 1) \<and> is_string (get ''wakeId'') uuid) Invalid_job_wake) (\<lambda>_.
          bindR (guardR (is_string (get ''lane'') (\<lambda>l. l \<in> fst ` set cloudflareJobWakeLanes)) Invalid_job_wake) (\<lambda>_.
          bindR (guardR (get ''durableJobId'' = None
              \<or> is_string (get ''durableJobId'') (\<lambda>j. j \<noteq> [] \<and> js_length j \<le> 128)) Invalid_job_wake) (\<lambda>_.
          bindR (guardR (is_string (get ''createdAt'') (\<lambda>d. normal_date d = Some d)) Invalid_job_wake) (\<lambda>_.
          Inr \<lparr>wk_wakeId = string_of (get ''wakeId''),
               wk_lane = the (map_of cloudflareJobWakeLanes (string_of (get ''lane''))),
               wk_durableJobId = map_option (\<lambda>j. string_of (Some j)) (get ''durableJobId''),
               wk_createdAt = string_of (get ''createdAt'')\<rparr>)))))
      | _ \<Rightarrow> Inl Invalid_job_wake)"

lemma is_string_iff: "is_string v p \<longleftrightarrow> (\<exists>s. v = Some (JStr s) \<and> p s)"
  by (simp add: is_string_def split: option.splits json.splits)

subsection \<open>Round trip\<close>

definition wake_ok :: "(js_string \<Rightarrow> js_string option) \<Rightarrow> CloudflareJobWake \<Rightarrow> bool" where
  "wake_ok normal_date w \<longleftrightarrow> uuid (wk_wakeId w) \<and> normal_date (wk_createdAt w) = Some (wk_createdAt w)
     \<and> (case wk_durableJobId w of None \<Rightarrow> True | Some j \<Rightarrow> j \<noteq> [] \<and> js_length j \<le> 128)"

lemma lane_names:
  "lane_name lane \<in> fst ` set cloudflareJobWakeLanes"
  "map_of cloudflareJobWakeLanes (lane_name lane) = Some lane"
  by (cases lane; simp add: lane_name_def cloudflareJobWakeLanes_def)+

lemma lane_of_name:
  "map_of cloudflareJobWakeLanes n = Some lane \<Longrightarrow> lane_name lane = n"
  by (auto simp: cloudflareJobWakeLanes_def lane_name_def split: if_splits)

lemma wake_object_get:
  assumes "wake_object w = JObj kvs"
  shows "map_of kvs ''version'' = Some (JNum 1)" "map_of kvs ''wakeId'' = Some (JStr (wk_wakeId w))"
    "map_of kvs ''lane'' = Some (JStr (lane_name (wk_lane w)))"
    "map_of kvs ''durableJobId'' = map_option JStr (wk_durableJobId w)"
    "map_of kvs ''createdAt'' = Some (JStr (wk_createdAt w))"
    "list_all (\<lambda>kv. fst kv \<in> set allowed_keys) kvs"
  using assms by (cases "wk_durableJobId w"; auto simp: wake_object_def allowed_keys_def)+

lemma parse_wake_object:
  "parseCloudflareJobWake normal_date (wake_object w) = (if wake_ok normal_date w then Inr w else Inl Invalid_job_wake)"
proof -
  obtain kvs where f: "wake_object w = JObj kvs" by (simp add: wake_object_def)
  note get = wake_object_get [OF f]
  show ?thesis
    by (cases "wk_durableJobId w")
      (auto simp: f parseCloudflareJobWake_def Let_def get is_string_def string_of_def lane_names wake_ok_def
        guardR_def)
qed

text \<open>
  Wake messages round-trip. A created message is accepted, and read back as it was
  created, exactly if its id is a UUID, its date formats to itself and its job id has at most
  128 UTF-16 units; and whatever is accepted is a well-formed message with a known lane, whose
  own object form is accepted again with the same content.
\<close>

theorem job_wake_roundtrip:
  "(let w = createCloudflareJobWake iso_of clock random i
    in parseCloudflareJobWake normal_date (wake_object w)
       = (if uuid (wk_wakeId w) \<and> normal_date (wk_createdAt w) = Some (wk_createdAt w)
             \<and> (case wi_durableJobId i of None \<Rightarrow> True | Some j \<Rightarrow> js_length j \<le> 128)
          then Inr w else Inl Invalid_job_wake))
   \<and> (\<forall>message w. parseCloudflareJobWake normal_date message = Inr w \<longrightarrow>
        wake_ok normal_date w \<and> parseCloudflareJobWake normal_date (wake_object w) = Inr w)"
proof -
  have "wake_ok normal_date w \<and> parseCloudflareJobWake normal_date (wake_object w) = Inr w"
    if accepted: "parseCloudflareJobWake normal_date message = Inr w" for message w
  proof -
    obtain kvs where m: "message = JObj kvs"
      using accepted by (cases message) (simp_all add: parseCloudflareJobWake_def)
    have "wake_ok normal_date w"
      using accepted unfolding m parseCloudflareJobWake_def json.case Let_def
      by (elim bindR_guardE) (auto simp: is_string_iff string_of_def wake_ok_def)
    then show ?thesis by (simp add: parse_wake_object)
  qed
  then show ?thesis
    by (auto simp: Let_def parse_wake_object wake_ok_def createCloudflareJobWake_def split: option.splits list.splits)
qed

subsection \<open>Examples\<close>

definition example_wake_input :: wake_input where
  "example_wake_input = \<lparr>wi_lane = Thumbnail, wi_durableJobId = Some ''job_1'',
     wi_wakeId = Some ''01234567-89ab-4def-8123-456789abcdef'', wi_now = Some 5\<rparr>"

lemma job_wake_roundtrip_witness:
  "parseCloudflareJobWake Some (wake_object (createCloudflareJobWake (\<lambda>_. ''t'') 0 [] example_wake_input))
   = Inr (createCloudflareJobWake (\<lambda>_. ''t'') 0 [] example_wake_input)"
proof -
  have "uuid ''01234567-89ab-4def-8123-456789abcdef''"
    by (simp add: uuid_def uuid_pattern_def hex_char_def numeral_eq_Suc)
  then show ?thesis
    using job_wake_roundtrip [of "\<lambda>_. ''t''" 0 "[]" example_wake_input Some]
    by (simp add: Let_def createCloudflareJobWake_def example_wake_input_def utf16_units_def)
qed

end
