(* ===== verification/Container_Slots.thy ===== *)
theory Container_Slots
  imports Job_Wakes Text_Decoding
begin

text \<open>
  Handing a wake to a container, \<open>api/src/cloudflare/container-slot-controller.ts\<close>. The slot
  of a job is its FNV-1a hash over the configured slots, in 32-bit arithmetic. The
  authorization, the container, the record of the handoff, \<open>JSON.parse\<close> and \<open>Number\<close> are
  parameters; a handoff returns the calls it made, in order. The lemmas show that a job
  keeps its slot, that a slot is always available, and when a handoff is recorded.
\<close>

datatype CloudflareContainerLane = Lane_artifact_processing | Lane_thumbnail

record ContainerSlotBindings =
  sb_TRUSTED_PROCESSING_STABLE_SLOTS :: js_string
  sb_THUMBNAIL_STABLE_SLOTS :: js_string
  sb_TRUSTED_PROCESSING_MAXIMUM_WALL_TIME_SECONDS :: js_string
  sb_THUMBNAIL_MAXIMUM_WALL_TIME_SECONDS :: js_string
  sb_CONTAINER_RELEASE_ID :: js_string
  sb_CONTAINER_CONTRACT_REVISION :: js_string

record ContainerHandoff =
  ch_wakeId :: js_string
  ch_durableJobId :: js_string
  ch_lane :: CloudflareContainerLane
  ch_slot :: js_string
  ch_releaseId :: js_string
  ch_contractRevision :: js_string
  ch_handedOffAt :: js_string

datatype handoff_error =
    Invalid_cloudflare_binding js_string
  | Container_wake_lane_unsupported
  | Container_stable_slot_unavailable
  | Container_controller_handoff_failed
  | Call_failed js_string

unbundle bit_operations_syntax

subsection \<open>Configuration\<close>

text \<open>
  \<open>number_of\<close> is the integer \<open>Number\<close> reads from a string, absent for \<open>NaN\<close>, infinities and
  fractions.
\<close>

definition parsePositiveInteger ::
  "(js_string \<Rightarrow> int option) \<Rightarrow> js_string \<Rightarrow> js_string \<Rightarrow> handoff_error + int" where
  "parsePositiveInteger number_of binding value =
     (case number_of value of
        Some n \<Rightarrow> if n \<le> 9007199254740991 \<and> 0 < n then Inr n else Inl (Invalid_cloudflare_binding binding)
      | None \<Rightarrow> Inl (Invalid_cloudflare_binding binding))"

definition slot_char :: "char \<Rightarrow> bool" where
  "slot_char c \<longleftrightarrow> 97 \<le> byte_of c \<and> byte_of c \<le> 122 \<or> 48 \<le> byte_of c \<and> byte_of c \<le> 57"

text \<open>\<open>/^[a-z0-9][a-z0-9-]{0,127}$/\<close>\<close>

definition slot_name :: "js_string \<Rightarrow> bool" where
  "slot_name s \<longleftrightarrow>
     (case s of
        [] \<Rightarrow> False
      | c # cs \<Rightarrow> slot_char c \<and> length cs \<le> 127 \<and> list_all (\<lambda>c. slot_char c \<or> c = CHR ''-'') cs)"

fun string_items :: "json list \<Rightarrow> js_string list option" where
  "string_items [] = Some []"
| "string_items (JStr s # js) = map_option ((#) s) (string_items js)"
| "string_items (_ # js) = None"

definition parseStableSlots ::
  "(js_string \<Rightarrow> json option) \<Rightarrow> js_string \<Rightarrow> js_string \<Rightarrow> handoff_error + js_string list" where
  "parseStableSlots json_parse binding value =
     (case json_parse value of
        Some (JArr items) \<Rightarrow>
          (case string_items items of
             Some slots \<Rightarrow>
               if slots \<noteq> [] \<and> distinct slots \<and> list_all slot_name slots then Inr slots
               else Inl (Invalid_cloudflare_binding binding)
           | None \<Rightarrow> Inl (Invalid_cloudflare_binding binding))
      | _ \<Rightarrow> Inl (Invalid_cloudflare_binding binding))"

subsection \<open>The slot of a job\<close>

text \<open>
  \<open>hash ^= byte\<close> and \<open>Math.imul\<close> act on 32-bit integers; only the bits matter until the final
  \<open>>>> 0\<close> reads them as unsigned.
\<close>

definition fnv_step :: "char \<Rightarrow> 32 word \<Rightarrow> 32 word" where
  "fnv_step c hash = (hash XOR word_of_nat (byte_of c)) * 16777619"

definition fnv_hash :: "js_string \<Rightarrow> 32 word" where
  "fnv_hash value = fold fnv_step value 2166136261"

definition stableIndex :: "js_string \<Rightarrow> nat \<Rightarrow> nat" where
  "stableIndex value size' = unat (fnv_hash value) mod size'"

record lane_configuration =
  lc_lane :: CloudflareContainerLane
  lc_slots :: "js_string list"
  lc_maximumWallTimeSeconds :: int

definition laneConfiguration ::
  "(js_string \<Rightarrow> json option) \<Rightarrow> (js_string \<Rightarrow> int option) \<Rightarrow> ContainerSlotBindings
    \<Rightarrow> CloudflareContainerLane \<Rightarrow> handoff_error + lane_configuration" where
  "laneConfiguration json_parse number_of b lane = (case lane of
       Lane_artifact_processing \<Rightarrow>
         bindR (parseStableSlots json_parse ''trusted_processing_stable_slots''
                  (sb_TRUSTED_PROCESSING_STABLE_SLOTS b)) (\<lambda>slots.
         bindR (parsePositiveInteger number_of ''trusted_processing_maximum_wall_time_seconds''
                  (sb_TRUSTED_PROCESSING_MAXIMUM_WALL_TIME_SECONDS b)) (\<lambda>seconds.
         Inr \<lparr>lc_lane = lane, lc_slots = slots, lc_maximumWallTimeSeconds = seconds\<rparr>))
     | Lane_thumbnail \<Rightarrow>
         bindR (parseStableSlots json_parse ''thumbnail_stable_slots'' (sb_THUMBNAIL_STABLE_SLOTS b)) (\<lambda>slots.
         bindR (parsePositiveInteger number_of ''thumbnail_maximum_wall_time_seconds''
                  (sb_THUMBNAIL_MAXIMUM_WALL_TIME_SECONDS b)) (\<lambda>seconds.
         Inr \<lparr>lc_lane = lane, lc_slots = slots, lc_maximumWallTimeSeconds = seconds\<rparr>)))"

subsection \<open>The handoff\<close>

datatype handoff_call =
    Call_authorize CloudflareJobWake
  | Call_container CloudflareContainerLane js_string json
  | Call_record ContainerHandoff

record handoff_world =
  hw_authorizeWake :: "CloudflareJobWake \<Rightarrow> handoff_error + js_string option"
  hw_fetch :: "js_string \<Rightarrow> json \<Rightarrow> handoff_error + bool"
  hw_recordHandoff :: "ContainerHandoff \<Rightarrow> handoff_error + unit"

definition container_lane :: "CloudflareJobWakeLane \<Rightarrow> CloudflareContainerLane option" where
  "container_lane lane = (case lane of
       Artifact_processing \<Rightarrow> Some Lane_artifact_processing
     | Thumbnail \<Rightarrow> Some Lane_thumbnail
     | _ \<Rightarrow> None)"

definition container_lane_name :: "CloudflareContainerLane \<Rightarrow> js_string" where
  "container_lane_name lane = (case lane of
       Lane_artifact_processing \<Rightarrow> ''artifact-processing'' | Lane_thumbnail \<Rightarrow> ''thumbnail'')"

definition wake_body ::
  "ContainerSlotBindings \<Rightarrow> CloudflareJobWake \<Rightarrow> js_string \<Rightarrow> lane_configuration \<Rightarrow> js_string \<Rightarrow> js_string option \<Rightarrow> json" where
  "wake_body b wake job conf slot grant =
     JObj ([(''version'', JNum 1), (''wakeId'', JStr (wk_wakeId wake)), (''durableJobId'', JStr job),
            (''lane'', JStr (container_lane_name (lc_lane conf))), (''slot'', JStr slot),
            (''releaseId'', JStr (sb_CONTAINER_RELEASE_ID b)),
            (''contractRevision'', JStr (sb_CONTAINER_CONTRACT_REVISION b)),
            (''maximumWallTimeSeconds'', JNum (lc_maximumWallTimeSeconds conf))]
       @ (case grant of Some (c # cs) \<Rightarrow> [(''bootstrapGrant'', JStr (c # cs))] | _ \<Rightarrow> []))"

definition handoff_of ::
  "ContainerSlotBindings \<Rightarrow> CloudflareJobWake \<Rightarrow> js_string \<Rightarrow> lane_configuration \<Rightarrow> js_string \<Rightarrow> js_string \<Rightarrow> ContainerHandoff" where
  "handoff_of b wake job conf slot at =
     \<lparr>ch_wakeId = wk_wakeId wake, ch_durableJobId = job, ch_lane = lc_lane conf, ch_slot = slot,
      ch_releaseId = sb_CONTAINER_RELEASE_ID b, ch_contractRevision = sb_CONTAINER_CONTRACT_REVISION b,
      ch_handedOffAt = at\<rparr>"

definition handoffContainerWake ::
  "(js_string \<Rightarrow> json option) \<Rightarrow> (js_string \<Rightarrow> int option) \<Rightarrow> handoff_world \<Rightarrow> ContainerSlotBindings
    \<Rightarrow> CloudflareJobWake \<Rightarrow> js_string \<Rightarrow> handoff_call list \<times> (handoff_error + ContainerHandoff)" where
  "handoffContainerWake json_parse number_of world b wake now =
     (case (container_lane (wk_lane wake), wk_durableJobId wake) of
        (Some lane, Some (j # js)) \<Rightarrow>
          let job = j # js; called = [Call_authorize wake] in
          (case hw_authorizeWake world wake of
             Inl e \<Rightarrow> (called, Inl e)
           | Inr grant \<Rightarrow>
               (case laneConfiguration json_parse number_of b lane of
                  Inl e \<Rightarrow> (called, Inl e)
                | Inr conf \<Rightarrow>
                    let index = stableIndex job (length (lc_slots conf)) in
                    if length (lc_slots conf) \<le> index \<or> lc_slots conf ! index = [] then
                      (called, Inl Container_stable_slot_unavailable)
                    else
                      let slot = lc_slots conf ! index;
                          body = wake_body b wake job conf slot grant;
                          called = called @ [Call_container lane slot body] in
                      (case hw_fetch world slot body of
                         Inl e \<Rightarrow> (called, Inl e)
                       | Inr ok \<Rightarrow>
                           if \<not> ok then (called, Inl Container_controller_handoff_failed)
                           else
                             let handoff = handoff_of b wake job conf slot now;
                                 called = called @ [Call_record handoff] in
                             (case hw_recordHandoff world handoff of
                                Inl e \<Rightarrow> (called, Inl e)
                              | Inr _ \<Rightarrow> (called, Inr handoff)))))
      | _ \<Rightarrow> ([], Inl Container_wake_lane_unsupported))"

subsection \<open>Slots\<close>

lemma stableIndex_less: "0 < n \<Longrightarrow> stableIndex value n < n"
  by (simp add: stableIndex_def)

lemma parseStableSlots_ok:
  "parseStableSlots json_parse binding value = Inr slots \<Longrightarrow>
    slots \<noteq> [] \<and> distinct slots \<and> list_all slot_name slots"
  by (auto simp: parseStableSlots_def split: option.splits json.splits if_splits)

lemma laneConfiguration_ok:
  "laneConfiguration json_parse number_of b lane = Inr conf \<Longrightarrow>
    lc_lane conf = lane \<and> lc_slots conf \<noteq> [] \<and> distinct (lc_slots conf) \<and> list_all slot_name (lc_slots conf)
    \<and> 0 < lc_maximumWallTimeSeconds conf"
  by (auto simp: laneConfiguration_def bindR_eq_Inr parsePositiveInteger_def dest!: parseStableSlots_ok
      split: CloudflareContainerLane.splits option.splits if_splits)

definition slot_of :: "lane_configuration \<Rightarrow> js_string \<Rightarrow> js_string" where
  "slot_of conf job = lc_slots conf ! stableIndex job (length (lc_slots conf))"

lemma slot_of_ok:
  assumes "laneConfiguration json_parse number_of b lane = Inr conf"
  shows "slot_of conf job \<in> set (lc_slots conf)" "slot_of conf job \<noteq> []"
    "stableIndex job (length (lc_slots conf)) < length (lc_slots conf)"
proof -
  note ok = laneConfiguration_ok [OF assms]
  then show less: "stableIndex job (length (lc_slots conf)) < length (lc_slots conf)"
    by (intro stableIndex_less) simp
  then show mem: "slot_of conf job \<in> set (lc_slots conf)" by (simp add: slot_of_def)
  then have "slot_name (slot_of conf job)" using ok by (simp add: list_all_iff)
  then show "slot_of conf job \<noteq> []" by (auto simp: slot_name_def)
qed
lemma handoff_cases:
  assumes "handoffContainerWake json_parse number_of world b wake now = (calls, r)"
  obtains
    (unsupported) "calls = []" "r = Inl Container_wake_lane_unsupported"
  | (unauthorized) e where "calls = [Call_authorize wake]" "r = Inl e" "hw_authorizeWake world wake = Inl e"
  | (misconfigured) lane e where "calls = [Call_authorize wake]" "r = Inl e"
      "laneConfiguration json_parse number_of b lane = Inl e"
  | (called) lane job grant conf where
      "container_lane (wk_lane wake) = Some lane" "wk_durableJobId wake = Some job" "job \<noteq> []"
      "hw_authorizeWake world wake = Inr grant" "laneConfiguration json_parse number_of b lane = Inr conf"
      "(calls, r) =
         (let slot = slot_of conf job; body = wake_body b wake job conf slot grant;
              called = [Call_authorize wake, Call_container lane slot body];
              handoff = handoff_of b wake job conf slot now
          in case hw_fetch world slot body of
             Inl e \<Rightarrow> (called, Inl e)
           | Inr ok \<Rightarrow>
               if \<not> ok then (called, Inl Container_controller_handoff_failed)
               else (case hw_recordHandoff world handoff of
                   Inl e \<Rightarrow> (called @ [Call_record handoff], Inl e)
                 | Inr _ \<Rightarrow> (called @ [Call_record handoff], Inr handoff)))"
proof (cases "container_lane (wk_lane wake)")
  case None
  with assms unsupported show thesis by (simp add: handoffContainerWake_def)
next
  case (Some lane)
  note lane = Some
  show thesis
  proof (cases "wk_durableJobId wake = None \<or> wk_durableJobId wake = Some []")
    case True
    with assms lane unsupported show thesis by (auto simp: handoffContainerWake_def)
  next
    case False
    then obtain j js where job: "wk_durableJobId wake = Some (j # js)" by (cases "wk_durableJobId wake") (auto simp: neq_Nil_conv)
    show thesis
    proof (cases "hw_authorizeWake world wake")
      case (Inl e)
      show thesis
        by (rule unauthorized [OF _ _ Inl]) (use assms lane job Inl in \<open>simp_all add: handoffContainerWake_def Let_def\<close>)
    next
      case (Inr grant)
      note grant = Inr
      show thesis
      proof (cases "laneConfiguration json_parse number_of b lane")
        case (Inl e)
        show thesis
          by (rule misconfigured [OF _ _ Inl])
            (use assms lane job grant Inl in \<open>simp_all add: handoffContainerWake_def Let_def\<close>)
      next
        case (Inr conf)
        note slot = slot_of_ok [OF Inr, of "j # js"]
        show thesis
          using assms lane job grant Inr slot(2,3) unfolding handoffContainerWake_def Let_def slot_of_def
          by (intro called [OF lane job _ grant Inr])
            (simp_all add: Let_def slot_of_def cong: sum.case_cong if_cong)
      qed
    qed
  qed
qed

text \<open>
  A handoff is recorded only after the container accepted it. Whenever a record is
  written, the calls were exactly: the authorization, which granted; the container, on the
  slot and lane of the record and with the record's ids in the body, which accepted; and the
  record, last. Nothing is recorded otherwise, and a returned handoff is the recorded one.
\<close>

theorem handoff_recorded_after_acceptance:
  assumes "handoffContainerWake json_parse number_of world b wake now = (calls, r)"
  shows "(\<exists>h. Call_record h \<in> set calls
           \<and> (\<exists>grant conf job. hw_authorizeWake world wake = Inr grant \<and> wk_durableJobId wake = Some job
                \<and> laneConfiguration json_parse number_of b (ch_lane h) = Inr conf
                \<and> h = handoff_of b wake job conf (slot_of conf job) now
                \<and> hw_fetch world (ch_slot h) (wake_body b wake job conf (ch_slot h) grant) = Inr True
                \<and> calls = [Call_authorize wake,
                     Call_container (ch_lane h) (ch_slot h) (wake_body b wake job conf (ch_slot h) grant), Call_record h]
                \<and> r = map_sum id (\<lambda>_. h) (hw_recordHandoff world h)))
    \<or> (\<forall>h. Call_record h \<notin> set calls) \<and> (\<exists>e. r = Inl e)"
  using assms
proof (cases rule: handoff_cases)
  case (called lane job grant conf)
  note ok = laneConfiguration_ok [OF called(5)]
  let ?slot = "slot_of conf job"
  let ?h = "handoff_of b wake job conf ?slot now"
  show ?thesis
  proof (cases "hw_fetch world ?slot (wake_body b wake job conf ?slot grant) = Inr True")
    case True
    with called(6) have "calls = [Call_authorize wake,
        Call_container lane ?slot (wake_body b wake job conf ?slot grant), Call_record ?h]"
      "r = map_sum id (\<lambda>_. ?h) (hw_recordHandoff world ?h)"
      by (auto simp: Let_def split: sum.splits)
    then show ?thesis
      using called(2,4,5) ok True by (intro disjI1 exI [of _ ?h]) (auto simp: handoff_of_def)
  next
    case False
    with called(6) have "calls = [Call_authorize wake, Call_container lane ?slot (wake_body b wake job conf ?slot grant)]"
      "\<exists>e. r = Inl e"
      by (auto simp: Let_def split: sum.splits if_splits)
    then show ?thesis by simp
  qed
qed auto

text \<open>
  Every wake of a job goes to the same container. Two handoffs that return, for the same
  lane, job and bindings but any wake ids, times and worlds, name the same slot, which is one
  of the configured ones.
\<close>

theorem job_keeps_its_slot:
  assumes "handoffContainerWake json_parse number_of world b wake now = (calls, Inr h)"
    and "handoffContainerWake json_parse number_of world' b wake' now' = (calls', Inr h')"
    and "wk_lane wake = wk_lane wake'" "wk_durableJobId wake = wk_durableJobId wake'"
  shows "ch_slot h = ch_slot h' \<and> ch_lane h = ch_lane h'
    \<and> (\<exists>conf. laneConfiguration json_parse number_of b (ch_lane h) = Inr conf \<and> ch_slot h \<in> set (lc_slots conf))"
proof -
  have run: "\<exists>lane job conf. container_lane (wk_lane w) = Some lane \<and> wk_durableJobId w = Some job
      \<and> laneConfiguration json_parse number_of b lane = Inr conf \<and> ch_slot g = slot_of conf job \<and> ch_lane g = lane"
    if r: "handoffContainerWake json_parse number_of wld b w n = (cs, Inr g)" for wld w n cs g
    using r
  proof (cases rule: handoff_cases)
    case (called lane job grant conf)
    then have "g = handoff_of b w job conf (slot_of conf job) n"
      by (auto simp: Let_def split: sum.splits if_splits)
    then show ?thesis using called(1,2,5) laneConfiguration_ok [OF called(5)] by (simp add: handoff_of_def)
  qed simp_all
  from run [OF assms(1)] run [OF assms(2)] assms(3,4) show ?thesis
    using slot_of_ok(1) by fastforce
qed

subsection \<open>Examples\<close>

definition example_bindings :: ContainerSlotBindings where
  "example_bindings =
     \<lparr>sb_TRUSTED_PROCESSING_STABLE_SLOTS = ''slots'', sb_THUMBNAIL_STABLE_SLOTS = ''slots'',
      sb_TRUSTED_PROCESSING_MAXIMUM_WALL_TIME_SECONDS = ''60'', sb_THUMBNAIL_MAXIMUM_WALL_TIME_SECONDS = ''60'',
      sb_CONTAINER_RELEASE_ID = ''r1'', sb_CONTAINER_CONTRACT_REVISION = ''c1''\<rparr>"

definition example_wake :: CloudflareJobWake where
  "example_wake = \<lparr>wk_wakeId = ''w'', wk_lane = Thumbnail, wk_durableJobId = Some ''j'', wk_createdAt = ''t''\<rparr>"

definition example_world :: handoff_world where
  "example_world = \<lparr>hw_authorizeWake = \<lambda>_. Inr None, hw_fetch = \<lambda>_ _. Inr True, hw_recordHandoff = \<lambda>_. Inr ()\<rparr>"

definition example_json_parse :: "js_string \<Rightarrow> json option" where
  "example_json_parse s = (if s = ''slots'' then Some (JArr [JStr ''a'', JStr ''b'']) else None)"

definition example_number_of :: "js_string \<Rightarrow> int option" where
  "example_number_of s = (if s = ''60'' then Some 60 else None)"

lemma example_configuration:
  "laneConfiguration example_json_parse example_number_of example_bindings Lane_thumbnail
   = Inr \<lparr>lc_lane = Lane_thumbnail, lc_slots = [''a'', ''b''], lc_maximumWallTimeSeconds = 60\<rparr>"
  by (simp add: laneConfiguration_def example_bindings_def parseStableSlots_def parsePositiveInteger_def
      example_json_parse_def example_number_of_def slot_name_def slot_char_def)

lemma example_index: "stableIndex ''j'' (Suc (Suc 0)) = 1"
proof -
  have "stableIndex ''j'' 2 = 1" by (simp add: stableIndex_def fnv_hash_def fnv_step_def)
  then show ?thesis by (simp only: numeral_2_eq_2)
qed

lemma example_handoff:
  "handoffContainerWake example_json_parse example_number_of example_world example_bindings example_wake ''now''
   = (fst (handoffContainerWake example_json_parse example_number_of example_world example_bindings example_wake ''now''),
      Inr (handoff_of example_bindings example_wake ''j''
        \<lparr>lc_lane = Lane_thumbnail, lc_slots = [''a'', ''b''], lc_maximumWallTimeSeconds = 60\<rparr> ''b'' ''now''))"
  by (simp add: handoffContainerWake_def example_wake_def container_lane_def example_world_def
      example_configuration example_index Let_def)

lemma handoff_recorded_after_acceptance_witness:
  "\<exists>h. Call_record h \<in> set (fst (handoffContainerWake example_json_parse example_number_of example_world
      example_bindings example_wake ''now'')) \<and> ch_slot h = ''b''"
  using handoff_recorded_after_acceptance [OF example_handoff]
  by (auto simp: example_configuration handoff_of_def slot_of_def example_index example_wake_def example_world_def)

lemma job_keeps_its_slot_witness:
  "\<exists>conf. laneConfiguration example_json_parse example_number_of example_bindings Lane_thumbnail = Inr conf
    \<and> ''b'' \<in> set (lc_slots conf)"
  using job_keeps_its_slot [OF example_handoff example_handoff refl refl] by (simp add: handoff_of_def)

end
