(* ===== verification/Node_Buffers.thy ===== *)
theory Node_Buffers
  imports Text_Decoding
begin

text \<open>
  The buffers of the runtime, as far as the services use them: a text as its UTF-8 bytes,
  bytes read as UTF-8 text, and the \<open>base64url\<close> encoding (no padding). The decoder ignores
  every character outside the two base64 alphabets, as the runtime's does. Both encodings are
  shown to be undone by their decoders.
\<close>

subsection \<open>UTF-8\<close>

definition utf8_bytes :: "js_string \<Rightarrow> byte list" where
  "utf8_bytes s = map (\<lambda>c. word_of_nat (byte_of c)) s"

text \<open>\<open>buffer.toString("utf8")\<close>: broken sequences become U+FFFD, a byte order mark stays.\<close>

definition utf8_text :: "byte list \<Rightarrow> js_string" where
  "utf8_text bs = lossy_from bs (utf8_start, [])"

text \<open>The byte lists that stand for a text: those that are well-formed UTF-8.\<close>

definition well_formed :: "js_string \<Rightarrow> bool" where
  "well_formed s \<longleftrightarrow> utf8_valid (utf8_bytes s)"

lemma unat_byte_of_char: "unat (word_of_nat (byte_of c) :: byte) = byte_of c"
  by (simp add: unat_of_nat take_bit_eq_mod)

lemma text_of_utf8_bytes [simp]: "text_of (utf8_bytes s) = s"
  by (induction s) (simp_all add: utf8_bytes_def text_of_def unat_byte_of_char)

lemma utf8_bytes_append [simp]: "utf8_bytes (s @ t) = utf8_bytes s @ utf8_bytes t"
  by (simp add: utf8_bytes_def)

lemma length_utf8_bytes [simp]: "length (utf8_bytes s) = length s"
  by (simp add: utf8_bytes_def)

lemma utf8_bytes_Nil_iff [simp]: "utf8_bytes s = [] \<longleftrightarrow> s = []"
  by (simp add: utf8_bytes_def)

lemma utf8_bytes_inject [simp]: "utf8_bytes s = utf8_bytes t \<longleftrightarrow> s = t"
  by (metis text_of_utf8_bytes)

lemma utf8_run_Cons: "utf8_run (b # bs) s = utf8_run bs (utf8_step b s)"
  by (simp add: utf8_run_def)

lemma utf8_complete_failed [simp]: "\<not> utf8_complete Utf8_failed"
  by (simp add: utf8_complete_def)

lemma utf8_complete_need [simp]: "utf8_complete (Utf8_need n lo hi) \<longleftrightarrow> n = 0"
  by (simp add: utf8_complete_def)

lemma lossy_from_valid:
  "utf8_complete (utf8_run bs (Utf8_need n lo hi)) \<Longrightarrow> (n = 0 \<longleftrightarrow> pend = [])
    \<Longrightarrow> lossy_from bs (Utf8_need n lo hi, pend) = text_of (pend @ bs)"
proof (induction bs arbitrary: n lo hi pend)
  case Nil
  then show ?case by simp
next
  case (Cons b bs)
  show ?case
  proof (cases "n = 0")
    case True
    obtain m l h where lead: "utf8_lead (unat b) = Utf8_need m l h"
      using Cons.prems(1) True by (cases "utf8_lead (unat b)") (auto simp: utf8_run_Cons)
    have run: "utf8_complete (utf8_run bs (Utf8_need m l h))"
      using Cons.prems(1) True lead by (simp add: utf8_run_Cons)
    have "m = 0 \<Longrightarrow> Utf8_need m l h = utf8_start"
      using lead by (auto simp: utf8_lead_def split: if_splits)
    then show ?thesis
      using Cons.IH [OF run, of "if m = 0 then [] else [b]"] Cons.prems(2) True lead
      by (auto simp: lossy_step_def lossy_lead_def)
  next
    case False
    have mid: "lo \<le> unat b \<and> unat b \<le> hi"
      using Cons.prems(1) False by (auto simp: utf8_run_Cons split: if_splits)
    have run: "utf8_complete (utf8_run bs (Utf8_need (n - 1) 128 191))"
      using Cons.prems(1) False mid by (simp add: utf8_run_Cons)
    show ?thesis
      using Cons.IH [OF run, of "if n = 1 then [] else pend @ [b]"] False mid
      by (auto simp: lossy_step_def)
  qed
qed

lemma utf8_text_valid: "utf8_valid bs \<Longrightarrow> utf8_text bs = text_of bs"
  using lossy_from_valid [of bs 0 128 191 "[]"] by (simp add: utf8_text_def utf8_valid_def)

lemma utf8_round_trip [simp]: "well_formed s \<Longrightarrow> utf8_text (utf8_bytes s) = s"
  by (simp add: utf8_text_valid well_formed_def)

lemma utf8_run_ascii: "ascii s \<Longrightarrow> utf8_run (utf8_bytes s) utf8_start = utf8_start"
  by (induction s) (simp_all add: utf8_run_Cons utf8_bytes_def ascii_def unat_byte_of_char utf8_lead_def)

lemma ascii_well_formed: "ascii s \<Longrightarrow> well_formed s"
  by (simp add: well_formed_def utf8_valid_def utf8_run_ascii)

lemma utf8_run_cases: "utf8_valid bs \<Longrightarrow> \<exists>lo hi. utf8_run bs utf8_start = Utf8_need 0 lo hi"
  by (auto simp: utf8_valid_def utf8_complete_def split: utf8_state.splits)

lemma utf8_run_need0: "utf8_complete (utf8_run bs (Utf8_need 0 lo hi)) = utf8_complete (utf8_run bs utf8_start)"
  by (cases bs) (simp_all add: utf8_run_Cons)

lemma well_formed_append: "well_formed s \<Longrightarrow> well_formed t \<Longrightarrow> well_formed (s @ t)"
proof -
  assume st: "well_formed s" "well_formed t"
  obtain lo hi where "utf8_run (utf8_bytes s) utf8_start = Utf8_need 0 lo hi"
    using utf8_run_cases st(1) unfolding well_formed_def by blast
  then show "well_formed (s @ t)"
    using st(2) utf8_run_need0 [of "utf8_bytes t" lo hi] by (simp add: well_formed_def utf8_valid_def utf8_run_append)
qed

subsection \<open>base64url\<close>

definition b64_char :: "nat \<Rightarrow> char" where
  "b64_char n =
     (if n < 26 then char_of (65 + n) else if n < 52 then char_of (71 + n)
      else if n < 62 then char_of (n - 4) else if n = 62 then CHR ''-'' else CHR ''_'')"

definition b64_value :: "char \<Rightarrow> nat option" where
  "b64_value c =
     (let n = byte_of c in
      if 65 \<le> n \<and> n \<le> 90 then Some (n - 65)
      else if 97 \<le> n \<and> n \<le> 122 then Some (n - 71)
      else if 48 \<le> n \<and> n \<le> 57 then Some (n + 4)
      else if c = CHR ''-'' \<or> c = CHR ''+'' then Some 62
      else if c = CHR ''_'' \<or> c = CHR ''/'' then Some 63 else None)"

fun sextets :: "nat list \<Rightarrow> nat list" where
  "sextets [] = []"
| "sextets [a] = [a div 4, a mod 4 * 16]"
| "sextets [a, b] = [a div 4, a mod 4 * 16 + b div 16, b mod 16 * 4]"
| "sextets (a # b # c # bs) = [a div 4, a mod 4 * 16 + b div 16, b mod 16 * 4 + c div 64, c mod 64] @ sextets bs"

fun octets :: "nat list \<Rightarrow> nat list" where
  "octets [] = []"
| "octets [p] = []"
| "octets [p, q] = [p * 4 + q div 16]"
| "octets [p, q, r] = [p * 4 + q div 16, q mod 16 * 16 + r div 4]"
| "octets (p # q # r # s # ss) = [p * 4 + q div 16, q mod 16 * 16 + r div 4, r mod 4 * 64 + s] @ octets ss"

definition base64url :: "byte list \<Rightarrow> js_string" where
  "base64url bs = map b64_char (sextets (map unat bs))"

definition from_base64url :: "js_string \<Rightarrow> byte list" where
  "from_base64url s = map word_of_nat (octets (List.map_filter b64_value s))"

lemma b64_value_char: "n < 64 \<Longrightarrow> b64_value (b64_char n) = Some n"
  by (auto simp: b64_char_def b64_value_def Let_def)

lemma sextets_small: "\<forall>a \<in> set as. a < 256 \<Longrightarrow> \<forall>s \<in> set (sextets as). s < 64"
  by (induction as rule: sextets.induct) auto

lemma octets_sextets: "\<forall>a \<in> set as. a < 256 \<Longrightarrow> octets (sextets as) = as"
  by (induction as rule: sextets.induct) auto

lemma map_filter_b64: "\<forall>s \<in> set ss. s < 64 \<Longrightarrow> List.map_filter b64_value (map b64_char ss) = ss"
  by (induction ss) (simp_all add: map_filter_simps b64_value_char)

lemma base64url_round_trip [simp]: "from_base64url (base64url bs) = bs"
proof -
  have small: "\<forall>a \<in> set (map unat bs). a < 256"
    using unsigned_less [where 'a = nat and 'b = 8] by auto
  then have "octets (List.map_filter b64_value (map b64_char (sextets (map unat bs)))) = map unat bs"
    using octets_sextets map_filter_b64 sextets_small by metis
  then show ?thesis by (simp add: from_base64url_def base64url_def comp_def)
qed

lemma base64url_inject [simp]: "base64url a = base64url b \<longleftrightarrow> a = b"
  by (metis base64url_round_trip)

end
