(* ===== verification/Artifact_Tables.thy ===== *)
theory Artifact_Tables
  imports Gallery_Tables Json
begin

text \<open>
  The tables of the artifact services, \<open>api/src/db/schema.ts\<close>, with all their columns, and
  the check constraints and unique indexes as conditions on rows and tables. A statement
  checks its table after the change and raises the violated constraint. Foreign keys are not
  modelled: the services insert rows under parents they have just inserted or read. Text
  columns with a fixed set of values are datatypes, so their value checks hold by typing.
\<close>

subsection \<open>Rows\<close>

record ArtifactRecord =
  art_id :: js_string
  art_ownerUserId :: js_string
  art_name :: js_string
  art_createdAt :: time
  art_updatedAt :: time

record deletion_cleanup_row =
  del_artifactId :: js_string
  del_ownerUserId :: js_string
  del_objectKeys :: "js_string list"
  del_stagingPrefixes :: "js_string list"
  del_createdAt :: time
  del_leaseOwner :: "js_string option"
  del_leaseExpiresAt :: "time option"
  del_attemptCount :: int
  del_nextAttemptAt :: "time option"
  del_lastErrorCode :: "js_string option"

datatype share_link_status = Link_active | Link_retired

record share_link_row =
  link_id :: js_string
  link_artifactId :: js_string
  link_slug :: js_string
  link_status :: share_link_status
  link_createdAt :: time
  link_retiredAt :: "time option"

record format_snapshot =
  fmt_extension :: js_string
  fmt_contentType :: js_string
  fmt_validationKind :: js_string

record UploadPolicySnapshot =
  pol_revision :: js_string
  pol_archiveSizeBytes :: int
  pol_expandedSizeBytes :: int
  pol_fileCount :: int
  pol_singleFileSizeBytes :: int
  pol_formats :: "format_snapshot list"

record upload_policy_row =
  up_id :: js_string
  up_revision :: js_string
  up_active :: bool
  up_archiveSizeBytes :: int
  up_expandedSizeBytes :: int
  up_fileCount :: int
  up_singleFileSizeBytes :: int
  up_createdAt :: time

record policy_format_row =
  pf_policyId :: js_string
  pf_extension :: js_string
  pf_contentType :: js_string
  pf_validationKind :: js_string

datatype session_state = Session_accepted | Session_processing | Session_committed | Session_failed

record upload_session_row =
  sess_id :: js_string
  sess_artifactId :: js_string
  sess_ownerUserId :: js_string
  sess_policy :: UploadPolicySnapshot
  sess_rawObjectKey :: js_string
  sess_rawSizeBytes :: int
  sess_requestedEntry :: "js_string option"
  sess_state :: session_state
  sess_failureReasonCode :: "js_string option"
  sess_failureSummary :: "js_string option"
  sess_validationReport :: "json option"
  sess_retryable :: bool
  sess_supersededAt :: "time option"
  sess_createdAt :: time
  sess_updatedAt :: time

record fingerprint_candidate_row =
  cand_uploadSessionId :: js_string
  cand_ownerUserId :: js_string
  cand_fingerprintKeyRevision :: js_string
  cand_reuseFingerprint :: js_string
  cand_requestedEntryKey :: js_string
  cand_policyRevision :: js_string
  cand_processingRevision :: js_string
  cand_contentIdentityRevision :: js_string
  cand_createdAt :: time

datatype job_state = Queued | Running | Completed | Failed

record processing_job_row =
  job_id :: js_string
  job_uploadSessionId :: js_string
  job_state :: job_state
  job_availableAt :: time
  job_leaseOwner :: "js_string option"
  job_leaseExpiresAt :: "time option"
  job_heartbeatAt :: "time option"
  job_attemptCount :: int
  job_maxAttempts :: int
  job_createdAt :: time
  job_updatedAt :: time

text \<open>
  The only state of a version is \<open>ready\<close>. A version copied on the server has no upload
  session (migration 0022).
\<close>

record artifact_version_row =
  ver_id :: js_string
  ver_artifactId :: js_string
  ver_ownerUserId :: "js_string option"
  ver_contentBundleId :: "js_string option"
  ver_rendererRevision :: "js_string option"
  ver_uploadSessionId :: "js_string option"
  ver_versionNumber :: int
  ver_createdAt :: time
  ver_readyAt :: time

datatype thumbnail_state =
  Thumbnail_queued | Thumbnail_running | Thumbnail_completed | Thumbnail_failed | Thumbnail_cancelled

record thumbnail_job_row =
  tj_id :: js_string
  tj_bundleId :: js_string
  tj_ownerUserId :: js_string
  tj_rendererRevision :: js_string
  tj_state :: thumbnail_state
  tj_availableAt :: time
  tj_leaseOwner :: "js_string option"
  tj_leaseExpiresAt :: "time option"
  tj_heartbeatAt :: "time option"
  tj_attemptCount :: int
  tj_maxAttempts :: int
  tj_failureReasonCode :: "js_string option"
  tj_createdAt :: time
  tj_updatedAt :: time

datatype expiration_kind = Permanent | Duration | Exact

datatype end_reason = Unpublished | Superseded

record PublicationRecord =
  pub_id :: js_string
  pub_artifactId :: js_string
  pub_versionId :: js_string
  pub_publishedByUserId :: js_string
  pub_expirationKind :: expiration_kind
  pub_durationSeconds :: "int option"
  pub_expiresAt :: "time option"
  pub_createdAt :: time
  pub_endedAt :: "time option"
  pub_endReason :: "end_reason option"

datatype idempotent_operation =
  Create_artifact | Replace_upload | Retry_upload | Upload_version | Publish_operation

record EncryptedIdempotencyEvidence =
  ev_keyRevision :: js_string
  ev_ciphertext :: js_string

record completion =
  cpl_evidence :: EncryptedIdempotencyEvidence
  cpl_responseStatus :: int
  cpl_responseBody :: json
  cpl_completedAt :: time

text \<open>
  The completion columns of an idempotency record are null together while it is pending and
  set together once it is completed, as \<open>artifact_idempotency_record_completion_check\<close>
  demands; so they are one optional value, and the state is whether it is there.
\<close>

record idempotency_row =
  idem_id :: js_string
  idem_ownerUserId :: js_string
  idem_operation :: idempotent_operation
  idem_targetResourceId :: "js_string option"
  idem_key :: js_string
  idem_completion :: "completion option"
  idem_createdAt :: time

record artifact_db =
  stored_artifacts :: "ArtifactRecord list"
  deletion_cleanups :: "deletion_cleanup_row list"
  share_links :: "share_link_row list"
  upload_policies :: "upload_policy_row list"
  policy_formats :: "policy_format_row list"
  upload_sessions :: "upload_session_row list"
  fingerprint_candidates :: "fingerprint_candidate_row list"
  processing_jobs :: "processing_job_row list"
  artifact_versions :: "artifact_version_row list"
  thumbnail_jobs :: "thumbnail_job_row list"
  publications :: "PublicationRecord list"
  idempotency_records :: "idempotency_row list"

subsection \<open>Constraints\<close>

text \<open>
  \<open>name = trim(name) and length(name) between 1 and 120\<close>: PostgreSQL trims blanks and counts
  code points, that is the bytes that do not continue a UTF-8 sequence.
\<close>

definition code_points :: "js_string \<Rightarrow> nat" where
  "code_points s = length (filter (\<lambda>c. byte_of c < 128 \<or> 192 \<le> byte_of c) s)"

definition blank_trimmed :: "js_string \<Rightarrow> bool" where
  "blank_trimmed s \<longleftrightarrow> \<not> starts_with '' '' s \<and> \<not> ends_with '' '' s"

definition artifact_row_ok :: "ArtifactRecord \<Rightarrow> bool" where
  "artifact_row_ok r \<longleftrightarrow> blank_trimmed (art_name r) \<and> 1 \<le> code_points (art_name r) \<and> code_points (art_name r) \<le> 120"

definition deletion_cleanup_row_ok :: "deletion_cleanup_row \<Rightarrow> bool" where
  "deletion_cleanup_row_ok r \<longleftrightarrow>
     0 \<le> del_attemptCount r \<and> (del_leaseOwner r = None \<longleftrightarrow> del_leaseExpiresAt r = None)"

definition share_link_row_ok :: "share_link_row \<Rightarrow> bool" where
  "share_link_row_ok r \<longleftrightarrow> link_status r \<noteq> Link_retired \<or> link_retiredAt r \<noteq> None"

definition policy_snapshot_ok :: "UploadPolicySnapshot \<Rightarrow> bool" where
  "policy_snapshot_ok p \<longleftrightarrow>
     0 < pol_archiveSizeBytes p \<and> 0 < pol_expandedSizeBytes p \<and> 0 < pol_fileCount p \<and> 0 < pol_singleFileSizeBytes p"

text \<open>\<open>!~ '(^/|(^|/)\.\.(/|$))'\<close>: not absolute and without a part \<open>..\<close>.\<close>

definition contained_path :: "js_string \<Rightarrow> bool" where
  "contained_path e \<longleftrightarrow> \<not> (starts_with ''/'' e \<or> ''..'' \<in> set (split_on (CHR ''/'') e))"

definition upload_policy_row_ok :: "upload_policy_row \<Rightarrow> bool" where
  "upload_policy_row_ok r \<longleftrightarrow>
     0 < up_archiveSizeBytes r \<and> 0 < up_expandedSizeBytes r \<and> 0 < up_fileCount r \<and> 0 < up_singleFileSizeBytes r"

definition upload_policies_unique :: "upload_policy_row list \<Rightarrow> bool" where
  "upload_policies_unique t \<longleftrightarrow>
     unique_on (\<lambda>_. True) up_id t \<and> unique_on (\<lambda>_. True) up_revision t \<and> unique_on up_active up_active t"

definition policy_format_row_ok :: "policy_format_row \<Rightarrow> bool" where
  "policy_format_row_ok r \<longleftrightarrow>
     (case pf_extension r of
        [] \<Rightarrow> False
      | c # e \<Rightarrow> c = CHR ''.'' \<and> e \<noteq> []
          \<and> list_all (\<lambda>d. 48 \<le> byte_of d \<and> byte_of d \<le> 57 \<or> 97 \<le> byte_of d \<and> byte_of d \<le> 122) e)"

definition policy_formats_unique :: "policy_format_row list \<Rightarrow> bool" where
  "policy_formats_unique t \<longleftrightarrow> unique_on (\<lambda>_. True) (\<lambda>r. (pf_policyId r, pf_extension r)) t"

text \<open>The checks on the entry and on the report are those of migrations 0003 and 0006.\<close>

definition upload_session_row_ok :: "upload_session_row \<Rightarrow> bool" where
  "upload_session_row_ok r \<longleftrightarrow>
     policy_snapshot_ok (sess_policy r)
     \<and> 0 \<le> sess_rawSizeBytes r \<and> sess_rawSizeBytes r \<le> pol_archiveSizeBytes (sess_policy r)
     \<and> (sess_state r = Session_failed
         \<or> sess_failureReasonCode r = None \<and> sess_failureSummary r = None \<and> \<not> sess_retryable r)
     \<and> (\<not> sess_retryable r \<or> sess_state r = Session_failed)
     \<and> (case sess_requestedEntry r of None \<Rightarrow> True | Some e \<Rightarrow> e \<noteq> [] \<and> contained_path e \<and> CHR 0x5C \<notin> set e)
     \<and> (case sess_validationReport r of None \<Rightarrow> True | Some j \<Rightarrow> is_JObj j)"

definition current_session :: "upload_session_row \<Rightarrow> bool" where
  "current_session r \<longleftrightarrow> sess_supersededAt r = None \<and> sess_state r \<noteq> Session_committed"

definition upload_sessions_unique :: "upload_session_row list \<Rightarrow> bool" where
  "upload_sessions_unique t \<longleftrightarrow>
     unique_on (\<lambda>_. True) sess_id t \<and> unique_on current_session sess_artifactId t"

text \<open>\<open>~ '^[0-9a-f]{64}$'\<close>.\<close>

definition hex64 :: "js_string \<Rightarrow> bool" where
  "hex64 s \<longleftrightarrow> length s = 64
     \<and> list_all (\<lambda>c. 48 \<le> byte_of c \<and> byte_of c \<le> 57 \<or> 97 \<le> byte_of c \<and> byte_of c \<le> 102) s"

definition fingerprint_candidate_row_ok :: "fingerprint_candidate_row \<Rightarrow> bool" where
  "fingerprint_candidate_row_ok r \<longleftrightarrow>
     hex64 (cand_reuseFingerprint r)
     \<and> (cand_requestedEntryKey r = [] \<or> contained_path (cand_requestedEntryKey r))"

definition fingerprint_candidates_unique :: "fingerprint_candidate_row list \<Rightarrow> bool" where
  "fingerprint_candidates_unique t \<longleftrightarrow>
     unique_on (\<lambda>_. True) (\<lambda>r. (cand_uploadSessionId r, cand_fingerprintKeyRevision r)) t"

definition processing_job_row_ok :: "processing_job_row \<Rightarrow> bool" where
  "processing_job_row_ok r \<longleftrightarrow>
     0 \<le> job_attemptCount r \<and> 0 < job_maxAttempts r
     \<and> (job_state r = Running \<longleftrightarrow> job_leaseOwner r \<noteq> None \<and> job_leaseExpiresAt r \<noteq> None)"

definition artifact_version_row_ok :: "artifact_version_row \<Rightarrow> bool" where
  "artifact_version_row_ok r \<longleftrightarrow>
     (ver_ownerUserId r = None \<and> ver_contentBundleId r = None \<and> ver_rendererRevision r = None
      \<or> ver_ownerUserId r \<noteq> None \<and> ver_contentBundleId r \<noteq> None
        \<and> ver_rendererRevision r \<noteq> None \<and> ver_rendererRevision r \<noteq> Some [])
     \<and> 0 < ver_versionNumber r"

definition artifact_versions_unique :: "artifact_version_row list \<Rightarrow> bool" where
  "artifact_versions_unique t \<longleftrightarrow>
     unique_on (\<lambda>_. True) ver_id t \<and> unique_on (\<lambda>r. ver_uploadSessionId r \<noteq> None) ver_uploadSessionId t
     \<and> unique_on (\<lambda>_. True) (\<lambda>r. (ver_artifactId r, ver_versionNumber r)) t"

definition thumbnail_job_row_ok :: "thumbnail_job_row \<Rightarrow> bool" where
  "thumbnail_job_row_ok r \<longleftrightarrow>
     tj_rendererRevision r \<noteq> [] \<and> 0 \<le> tj_attemptCount r \<and> tj_maxAttempts r = 3
     \<and> (tj_state r = Thumbnail_running \<longleftrightarrow> tj_leaseOwner r \<noteq> None \<and> tj_leaseExpiresAt r \<noteq> None)"

definition thumbnail_jobs_unique :: "thumbnail_job_row list \<Rightarrow> bool" where
  "thumbnail_jobs_unique t \<longleftrightarrow>
     unique_on (\<lambda>_. True) tj_id t \<and> unique_on (\<lambda>_. True) (\<lambda>r. (tj_bundleId r, tj_rendererRevision r)) t"

definition publication_row_ok :: "PublicationRecord \<Rightarrow> bool" where
  "publication_row_ok r \<longleftrightarrow>
     (case pub_expirationKind r of
        Permanent \<Rightarrow> pub_durationSeconds r = None \<and> pub_expiresAt r = None
      | Duration \<Rightarrow> (case pub_durationSeconds r of None \<Rightarrow> False | Some d \<Rightarrow> 0 < d) \<and> pub_expiresAt r \<noteq> None
      | Exact \<Rightarrow> pub_durationSeconds r = None \<and> pub_expiresAt r \<noteq> None)
     \<and> (pub_endedAt r = None \<longleftrightarrow> pub_endReason r = None)"

definition publications_unique :: "PublicationRecord list \<Rightarrow> bool" where
  "publications_unique t \<longleftrightarrow>
     unique_on (\<lambda>_. True) pub_id t \<and> unique_on (\<lambda>r. pub_endedAt r = None) pub_artifactId t"

text \<open>The scope of an idempotency key; nulls count as equal.\<close>

type_synonym idempotency_scope = "js_string \<times> idempotent_operation \<times> js_string option \<times> js_string"

definition scope_of :: "idempotency_row \<Rightarrow> idempotency_scope" where
  "scope_of r = (idem_ownerUserId r, idem_operation r, idem_targetResourceId r, idem_key r)"

definition idempotency_records_unique :: "idempotency_row list \<Rightarrow> bool" where
  "idempotency_records_unique t \<longleftrightarrow> unique_on (\<lambda>_. True) idem_id t \<and> unique_on (\<lambda>_. True) scope_of t"

subsection \<open>Statements\<close>

definition insert_artifact :: "ArtifactRecord \<Rightarrow> 'x artifact_db_scheme \<Rightarrow> tx_error + 'x artifact_db_scheme" where
  "insert_artifact r db =
     (if \<not> artifact_row_ok r then Inl (Check_violation ''artifact_name_check'')
      else if \<not> unique_on (\<lambda>_. True) art_id (stored_artifacts db @ [r]) then Inl (Unique_violation ''artifact_pkey'')
      else Inr (db\<lparr>stored_artifacts := stored_artifacts db @ [r]\<rparr>))"

definition check_upload_sessions :: "upload_session_row list \<Rightarrow> tx_error + upload_session_row list" where
  "check_upload_sessions t =
     (if \<not> list_all upload_session_row_ok t then Inl (Check_violation ''artifact_upload_session'')
      else if \<not> upload_sessions_unique t then Inl (Unique_violation ''artifact_upload_session_current_idx'')
      else Inr t)"

definition insert_upload_session ::
  "upload_session_row \<Rightarrow> 'x artifact_db_scheme \<Rightarrow> tx_error + 'x artifact_db_scheme" where
  "insert_upload_session r db =
     bindR (check_upload_sessions (upload_sessions db @ [r])) (\<lambda>t. Inr (db\<lparr>upload_sessions := t\<rparr>))"

text \<open>\<open>update ... returning id\<close>: how many rows were selected.\<close>

definition update_upload_sessions ::
  "(upload_session_row \<Rightarrow> bool) \<Rightarrow> (upload_session_row \<Rightarrow> upload_session_row) \<Rightarrow> 'x artifact_db_scheme
    \<Rightarrow> tx_error + nat \<times> 'x artifact_db_scheme" where
  "update_upload_sessions p f db =
     bindR (check_upload_sessions (update_where p f (upload_sessions db)))
       (\<lambda>t. Inr (length (filter p (upload_sessions db)), db\<lparr>upload_sessions := t\<rparr>))"

definition insert_fingerprint_candidates ::
  "fingerprint_candidate_row list \<Rightarrow> 'x artifact_db_scheme \<Rightarrow> tx_error + 'x artifact_db_scheme" where
  "insert_fingerprint_candidates rs db =
     (if \<not> list_all fingerprint_candidate_row_ok rs
        then Inl (Check_violation ''artifact_upload_raw_fingerprint_candidate'')
      else if \<not> fingerprint_candidates_unique (fingerprint_candidates db @ rs)
        then Inl (Unique_violation ''artifact_upload_raw_fingerprint_candidate_pkey'')
      else Inr (db\<lparr>fingerprint_candidates := fingerprint_candidates db @ rs\<rparr>))"

definition insert_processing_job ::
  "processing_job_row \<Rightarrow> 'x artifact_db_scheme \<Rightarrow> tx_error + 'x artifact_db_scheme" where
  "insert_processing_job r db =
     (if \<not> processing_job_row_ok r then Inl (Check_violation ''artifact_processing_job'')
      else if \<not> unique_on (\<lambda>_. True) job_id (processing_jobs db @ [r])
        then Inl (Unique_violation ''artifact_processing_job_pkey'')
      else Inr (db\<lparr>processing_jobs := processing_jobs db @ [r]\<rparr>))"

text \<open>All constraints of the artifact tables, which every committed state satisfies.\<close>

definition artifact_db_ok :: "'x artifact_db_scheme \<Rightarrow> bool" where
  "artifact_db_ok db \<longleftrightarrow>
     list_all artifact_row_ok (stored_artifacts db) \<and> unique_on (\<lambda>_. True) art_id (stored_artifacts db)
     \<and> list_all upload_session_row_ok (upload_sessions db) \<and> upload_sessions_unique (upload_sessions db)
     \<and> list_all fingerprint_candidate_row_ok (fingerprint_candidates db)
     \<and> fingerprint_candidates_unique (fingerprint_candidates db)
     \<and> list_all upload_policy_row_ok (upload_policies db) \<and> upload_policies_unique (upload_policies db)
     \<and> list_all policy_format_row_ok (policy_formats db) \<and> policy_formats_unique (policy_formats db)
     \<and> list_all artifact_version_row_ok (artifact_versions db) \<and> artifact_versions_unique (artifact_versions db)
     \<and> list_all thumbnail_job_row_ok (thumbnail_jobs db) \<and> thumbnail_jobs_unique (thumbnail_jobs db)
     \<and> list_all publication_row_ok (publications db) \<and> publications_unique (publications db)
     \<and> list_all deletion_cleanup_row_ok (deletion_cleanups db) \<and> list_all share_link_row_ok (share_links db)
     \<and> list_all processing_job_row_ok (processing_jobs db) \<and> unique_on (\<lambda>_. True) job_id (processing_jobs db)
     \<and> idempotency_records_unique (idempotency_records db)"

lemma insert_artifact_Inr:
  "insert_artifact r db = Inr db' \<longleftrightarrow> artifact_row_ok r \<and> unique_on (\<lambda>_. True) art_id (stored_artifacts db @ [r])
    \<and> db' = db\<lparr>stored_artifacts := stored_artifacts db @ [r]\<rparr>"
  by (auto simp: insert_artifact_def)

lemma check_upload_sessions_Inr [simp]:
  "check_upload_sessions t = Inr t' \<longleftrightarrow> t' = t \<and> list_all upload_session_row_ok t \<and> upload_sessions_unique t"
  by (auto simp: check_upload_sessions_def)

lemma insert_upload_session_Inr:
  "insert_upload_session r db = Inr db' \<longleftrightarrow>
    list_all upload_session_row_ok (upload_sessions db @ [r]) \<and> upload_sessions_unique (upload_sessions db @ [r])
    \<and> db' = db\<lparr>upload_sessions := upload_sessions db @ [r]\<rparr>"
  by (auto simp: insert_upload_session_def bindR_eq_Inr)

lemma update_upload_sessions_Inr:
  "update_upload_sessions p f db = Inr (n, db') \<longleftrightarrow>
    list_all upload_session_row_ok (update_where p f (upload_sessions db))
    \<and> upload_sessions_unique (update_where p f (upload_sessions db))
    \<and> n = length (filter p (upload_sessions db)) \<and> db' = db\<lparr>upload_sessions := update_where p f (upload_sessions db)\<rparr>"
  by (auto simp: update_upload_sessions_def bindR_eq_Inr)

lemma insert_fingerprint_candidates_Inr:
  "insert_fingerprint_candidates rs db = Inr db' \<longleftrightarrow>
    list_all fingerprint_candidate_row_ok rs \<and> fingerprint_candidates_unique (fingerprint_candidates db @ rs)
    \<and> db' = db\<lparr>fingerprint_candidates := fingerprint_candidates db @ rs\<rparr>"
  by (auto simp: insert_fingerprint_candidates_def)

lemma insert_processing_job_Inr:
  "insert_processing_job r db = Inr db' \<longleftrightarrow>
    processing_job_row_ok r \<and> unique_on (\<lambda>_. True) job_id (processing_jobs db @ [r])
    \<and> db' = db\<lparr>processing_jobs := processing_jobs db @ [r]\<rparr>"
  by (auto simp: insert_processing_job_def)

lemmas artifact_statements_Inr = insert_artifact_Inr insert_upload_session_Inr update_upload_sessions_Inr
  insert_fingerprint_candidates_Inr insert_processing_job_Inr

text \<open>A name that JavaScript trims and measures passes the check of the database.\<close>

lemma code_points_js_length: "code_points s \<le> js_length s" "0 < js_length s \<Longrightarrow> 0 < code_points s"
  by (induction s) (auto simp: code_points_def utf16_units_def)

lemma js_trim_blank_trimmed: "blank_trimmed (js_trim s)"
  unfolding blank_trimmed_def
  using js_trim_no_space [of "'' ''" s] by (simp add: js_whitespace_def)

definition empty_artifact_db :: artifact_db where
  "empty_artifact_db = \<lparr>stored_artifacts = [], deletion_cleanups = [], share_links = [], upload_policies = [],
     policy_formats = [], upload_sessions = [],
     fingerprint_candidates = [], processing_jobs = [], artifact_versions = [], thumbnail_jobs = [], publications = [],
     idempotency_records = []\<rparr>"

end
