(* ===== verification/Idempotency_Evidence.thy ===== *)
theory Idempotency_Evidence
  imports Node_Buffers Artifact_Tables
begin

text \<open>
  The cipher for the request hashes of idempotency records,
  \<open>api/src/db/idempotency-evidence.ts\<close>. SHA-256 and AES-256-GCM are parameters: \<open>sha256\<close> on
  bytes, \<open>seal key nonce aad plain = (ciphertext, tag)\<close> and \<open>unseal\<close>, which returns the
  plain bytes or nothing when the tag does not fit. The random nonce is an argument. The
  lemmas show that evidence can be read back, also after the key was rotated once.
\<close>

record EvidenceKey =
  ek_revision :: js_string
  ek_secret :: js_string

record evidence_cipher =
  ec_current :: EvidenceKey
  ec_keys :: "(js_string \<times> byte list) list"

datatype evidence_error =
    Key_revisions_equal
  | Unknown_key_revision js_string
  | Malformed_evidence
  | Authentication_failed

type_synonym digest = "byte list \<Rightarrow> byte list"
type_synonym sealing = "byte list \<Rightarrow> byte list \<Rightarrow> byte list \<Rightarrow> byte list \<Rightarrow> byte list \<times> byte list"
type_synonym unsealing = "byte list \<Rightarrow> byte list \<Rightarrow> byte list \<Rightarrow> byte list \<Rightarrow> byte list \<Rightarrow> byte list option"

definition NONCE_BYTES :: nat where
  "NONCE_BYTES = 12"

definition TAG_BYTES :: nat where
  "TAG_BYTES = 16"

definition PURPOSE :: "byte list" where
  "PURPOSE = utf8_bytes ''shareslices:artifact-idempotency-evidence:v1''"

definition keyBytes :: "digest \<Rightarrow> js_string \<Rightarrow> byte list" where
  "keyBytes sha256 secret = sha256 (PURPOSE @ [0] @ utf8_bytes secret)"

definition additionalData :: "js_string \<Rightarrow> byte list" where
  "additionalData revision = PURPOSE @ [0] @ utf8_bytes revision"

definition newIdempotencyEvidenceCipher ::
  "digest \<Rightarrow> EvidenceKey \<Rightarrow> EvidenceKey option \<Rightarrow> evidence_error + evidence_cipher" where
  "newIdempotencyEvidenceCipher sha256 current previous =
     (if map_option ek_revision previous = Some (ek_revision current) then Inl Key_revisions_equal
      else Inr \<lparr>ec_current = current,
        ec_keys = (ek_revision current, keyBytes sha256 (ek_secret current))
          # (case previous of None \<Rightarrow> [] | Some k \<Rightarrow> [(ek_revision k, keyBytes sha256 (ek_secret k))])\<rparr>)"

definition encrypt :: "sealing \<Rightarrow> byte list \<Rightarrow> evidence_cipher \<Rightarrow> js_string \<Rightarrow> EncryptedIdempotencyEvidence" where
  "encrypt seal nonce c evidence =
     (let revision = ek_revision (ec_current c);
          (encrypted, tag) = seal (the (map_of (ec_keys c) revision)) nonce (additionalData revision) (utf8_bytes evidence)
      in \<lparr>ev_keyRevision = revision, ev_ciphertext = base64url (nonce @ tag @ encrypted)\<rparr>)"

definition decrypt :: "unsealing \<Rightarrow> evidence_cipher \<Rightarrow> EncryptedIdempotencyEvidence \<Rightarrow> evidence_error + js_string" where
  "decrypt unseal c envelope =
     bindR (fromOption (Unknown_key_revision (ev_keyRevision envelope)) (map_of (ec_keys c) (ev_keyRevision envelope)))
     (\<lambda>key. let payload = from_base64url (ev_ciphertext envelope) in
       if length payload \<le> NONCE_BYTES + TAG_BYTES then Inl Malformed_evidence
       else
         let nonce = take NONCE_BYTES payload;
             tag = take TAG_BYTES (drop NONCE_BYTES payload);
             encrypted = drop (NONCE_BYTES + TAG_BYTES) payload
         in bindR (fromOption Authentication_failed
                    (unseal key nonce (additionalData (ev_keyRevision envelope)) encrypted tag))
              (\<lambda>plain. Inr (utf8_text plain)))"

definition reencrypt ::
  "sealing \<Rightarrow> unsealing \<Rightarrow> byte list \<Rightarrow> evidence_cipher \<Rightarrow> EncryptedIdempotencyEvidence
    \<Rightarrow> evidence_error + EncryptedIdempotencyEvidence" where
  "reencrypt seal unseal nonce c envelope =
     bindR (decrypt unseal c envelope) (\<lambda>evidence. Inr (encrypt seal nonce c evidence))"

definition currentRevision :: "evidence_cipher \<Rightarrow> js_string" where
  "currentRevision c = ek_revision (ec_current c)"

subsection \<open>Reading evidence back\<close>

lemma ev_keyRevision_encrypt [simp]: "ev_keyRevision (encrypt seal nonce c e) = currentRevision c"
  by (simp add: encrypt_def currentRevision_def case_prod_unfold Let_def)

text \<open>
  What the other components rely on: a cipher that knows the sealing key of the current
  revision of another one reads what that one wrote.
\<close>

lemma decrypt_encrypt:
  assumes laws: "\<And>key nonce aad plain. unseal key nonce aad (fst (seal key nonce aad plain)) (snd (seal key nonce aad plain)) = Some plain"
      "\<And>key nonce aad plain. length (fst (seal key nonce aad plain)) = length plain"
      "\<And>key nonce aad plain. length (snd (seal key nonce aad plain)) = TAG_BYTES"
    and nonce: "length nonce = NONCE_BYTES"
    and key: "map_of (ec_keys c') (currentRevision c) = Some (the (map_of (ec_keys c) (currentRevision c)))"
    and wf: "well_formed evidence"
  shows "decrypt unseal c' (encrypt seal nonce c evidence) =
    (if evidence = [] then Inl Malformed_evidence else Inr evidence)"
proof -
  obtain enc tag where s: "seal (the (map_of (ec_keys c) (currentRevision c))) nonce
      (additionalData (currentRevision c)) (utf8_bytes evidence) = (enc, tag)"
    by fastforce
  have env: "encrypt seal nonce c evidence =
      \<lparr>ev_keyRevision = currentRevision c, ev_ciphertext = base64url (nonce @ tag @ enc)\<rparr>"
    using s by (simp add: encrypt_def currentRevision_def)
  have len: "length enc = length evidence" "length tag = TAG_BYTES"
    using laws(2,3) s by (metis fst_conv length_utf8_bytes, metis snd_conv)
  have un: "unseal (the (map_of (ec_keys c) (currentRevision c))) nonce
      (additionalData (currentRevision c)) enc tag = Some (utf8_bytes evidence)"
    using laws(1) s by (metis fst_conv snd_conv)
  show ?thesis
    using len un wf nonce by (auto simp: decrypt_def env key Let_def)
qed

text \<open>The keys a constructed cipher knows.\<close>

lemma new_cipher_keys:
  assumes "newIdempotencyEvidenceCipher sha256 current previous = Inr c"
  shows "currentRevision c = ek_revision current"
    "map_of (ec_keys c) (ek_revision current) = Some (keyBytes sha256 (ek_secret current))"
    "previous = Some k \<Longrightarrow> map_of (ec_keys c) (ek_revision k) = Some (keyBytes sha256 (ek_secret k))"
  using assms by (auto simp: newIdempotencyEvidenceCipher_def currentRevision_def split: if_splits)

text \<open>
  Evidence survives a key rotation. For an authenticated encryption whose opening undoes
  its sealing, a non-empty evidence encrypted under one key is read back by every cipher that
  has this key as its current or as its previous one; the cipher that has it as its previous
  one re-encrypts it under its own current key, and the result again reads back as the
  evidence, also by a cipher that has dropped the old key.
\<close>

theorem evidence_survives_rotation:
  assumes laws: "\<And>key nonce aad plain. unseal key nonce aad (fst (seal key nonce aad plain)) (snd (seal key nonce aad plain)) = Some plain"
      "\<And>key nonce aad plain. length (fst (seal key nonce aad plain)) = length plain"
      "\<And>key nonce aad plain. length (snd (seal key nonce aad plain)) = TAG_BYTES"
    and nonces: "length n1 = NONCE_BYTES" "length n2 = NONCE_BYTES"
    and made: "newIdempotencyEvidenceCipher sha256 old any = Inr c1"
      "newIdempotencyEvidenceCipher sha256 current (Some old) = Inr c2"
      "newIdempotencyEvidenceCipher sha256 current None = Inr c3"
    and evidence: "well_formed evidence" "evidence \<noteq> []"
  shows "decrypt unseal c1 (encrypt seal n1 c1 evidence) = Inr evidence
    \<and> decrypt unseal c2 (encrypt seal n1 c1 evidence) = Inr evidence
    \<and> reencrypt seal unseal n2 c2 (encrypt seal n1 c1 evidence) = Inr (encrypt seal n2 c2 evidence)
    \<and> ev_keyRevision (encrypt seal n2 c2 evidence) = ek_revision current
    \<and> decrypt unseal c3 (encrypt seal n2 c2 evidence) = Inr evidence"
proof -
  note keys1 = new_cipher_keys [OF made(1)] and keys2 = new_cipher_keys [OF made(2)]
    and keys3 = new_cipher_keys [OF made(3)]
  note read = decrypt_encrypt [where unseal = unseal and seal = seal, OF laws]
  have "decrypt unseal c1 (encrypt seal n1 c1 evidence) = Inr evidence"
    using read [OF nonces(1), of c1 c1 evidence] keys1 evidence by simp
  moreover have old: "decrypt unseal c2 (encrypt seal n1 c1 evidence) = Inr evidence"
    using read [OF nonces(1), of c2 c1 evidence] keys1 keys2(3) [OF refl] evidence by simp
  moreover have "decrypt unseal c3 (encrypt seal n2 c2 evidence) = Inr evidence"
    using read [OF nonces(2), of c3 c2 evidence] keys2(1,2) keys3 evidence by simp
  ultimately show ?thesis using keys2(1) by (simp add: reencrypt_def)
qed

subsection \<open>Examples\<close>

text \<open>A sealing for the witnesses: the identity with an empty-looking tag of the right length.\<close>

definition example_seal :: sealing where
  "example_seal key nonce aad plain = (plain, replicate TAG_BYTES 0)"

definition example_unseal :: unsealing where
  "example_unseal key nonce aad encrypted tag = (if tag = replicate TAG_BYTES 0 then Some encrypted else None)"

definition example_old_key :: EvidenceKey where
  "example_old_key = \<lparr>ek_revision = ''1'', ek_secret = ''s''\<rparr>"

definition example_new_key :: EvidenceKey where
  "example_new_key = \<lparr>ek_revision = ''2'', ek_secret = ''t''\<rparr>"

definition example_cipher :: "EvidenceKey \<Rightarrow> EvidenceKey option \<Rightarrow> evidence_cipher" where
  "example_cipher k p = (case newIdempotencyEvidenceCipher (take 32) k p of Inr c \<Rightarrow> c)"

lemma example_seal_laws:
  "example_unseal key nonce aad (fst (example_seal key nonce aad plain)) (snd (example_seal key nonce aad plain)) = Some plain"
  "length (fst (example_seal key nonce aad plain)) = length plain"
  "length (snd (example_seal key nonce aad plain)) = TAG_BYTES"
  by (simp_all add: example_seal_def example_unseal_def)

lemma evidence_survives_rotation_witness:
  "reencrypt example_seal example_unseal (replicate 12 7) (example_cipher example_new_key (Some example_old_key))
     (encrypt example_seal (replicate 12 3) (example_cipher example_old_key None) ''abc'')
   = Inr (encrypt example_seal (replicate 12 7) (example_cipher example_new_key (Some example_old_key)) ''abc'')"
proof -
  have made: "newIdempotencyEvidenceCipher (take 32) example_old_key None = Inr (example_cipher example_old_key None)"
    "newIdempotencyEvidenceCipher (take 32) example_new_key (Some example_old_key)
      = Inr (example_cipher example_new_key (Some example_old_key))"
    "newIdempotencyEvidenceCipher (take 32) example_new_key None = Inr (example_cipher example_new_key None)"
    by (simp_all add: example_cipher_def newIdempotencyEvidenceCipher_def example_old_key_def example_new_key_def)
  have "well_formed ''abc''" by (rule ascii_well_formed) (simp add: ascii_def)
  then show ?thesis
    using evidence_survives_rotation [where seal = example_seal and unseal = example_unseal, OF example_seal_laws
        _ _ made, of "replicate 12 3" "replicate 12 7" "''abc''"]
    by (simp add: NONCE_BYTES_def)
qed

end
