(* ===== verification/Idempotency_Store.thy ===== *)
theory Idempotency_Store
  imports Idempotency_Evidence Object_Storage
begin

text \<open>
  The idempotency records, \<open>idempotency\<close> in \<open>createArtifactRepositories\<close> of
  \<open>api/src/db/artifact-repositories.ts\<close>: a key is claimed, the claim is released or completed
  with the response, and the evidence of completed records is re-encrypted after a key
  rotation. The abstract specification is a map from scopes to claims and answers; every
  operation refines it. The contract the services use is the locale \<open>idempotency_store\<close>.
\<close>

datatype repository_error = Database tx_error | Evidence evidence_error | Repository js_string

datatype idempotency_state = Idem_pending | Idem_completed

record IdempotencyRecord =
  ir_id :: js_string
  ir_ownerUserId :: js_string
  ir_operation :: idempotent_operation
  ir_targetResourceId :: "js_string option"
  ir_key :: js_string
  ir_requestHash :: "js_string option"
  ir_state :: idempotency_state
  ir_responseStatus :: "int option"
  ir_responseBody :: "json option"

record ClaimIdempotencyInput =
  cl_id :: js_string
  cl_ownerUserId :: js_string
  cl_operation :: idempotent_operation
  cl_targetResourceId :: "js_string option"
  cl_key :: js_string
  cl_provisionalRequestHash :: js_string

datatype idempotency_claim = Acquired IdempotencyRecord | Existing IdempotencyRecord

subsection \<open>Operations\<close>

text \<open>An empty ciphertext or revision counts as missing evidence.\<close>

definition requestHash_of :: "unsealing \<Rightarrow> evidence_cipher \<Rightarrow> completion option \<Rightarrow> repository_error + js_string option" where
  "requestHash_of unseal c k =
     (case k of
        None \<Rightarrow> Inr None
      | Some k \<Rightarrow>
          if ev_ciphertext (cpl_evidence k) = [] \<or> ev_keyRevision (cpl_evidence k) = [] then Inr None
          else case decrypt unseal c (cpl_evidence k) of Inl e \<Rightarrow> Inl (Evidence e) | Inr h \<Rightarrow> Inr (Some h))"

definition idempotencyRecord ::
  "unsealing \<Rightarrow> evidence_cipher \<Rightarrow> idempotency_row \<Rightarrow> repository_error + IdempotencyRecord" where
  "idempotencyRecord unseal c row =
     bindR (requestHash_of unseal c (idem_completion row)) (\<lambda>h. Inr
       \<lparr>ir_id = idem_id row, ir_ownerUserId = idem_ownerUserId row, ir_operation = idem_operation row,
        ir_targetResourceId = idem_targetResourceId row, ir_key = idem_key row, ir_requestHash = h,
        ir_state = (if idem_completion row = None then Idem_pending else Idem_completed),
        ir_responseStatus = map_option cpl_responseStatus (idem_completion row),
        ir_responseBody = map_option cpl_responseBody (idem_completion row)\<rparr>)"

definition findIdempotency ::
  "unsealing \<Rightarrow> evidence_cipher \<Rightarrow> idempotency_scope \<Rightarrow> 'x artifact_db_scheme
    \<Rightarrow> repository_error + IdempotencyRecord option" where
  "findIdempotency unseal c scope db =
     (case row_where (\<lambda>r. scope_of r = scope) (idempotency_records db) of
        None \<Rightarrow> Inr None
      | Some row \<Rightarrow> bindR (idempotencyRecord unseal c row) (\<lambda>r. Inr (Some r)))"

definition claim_scope :: "ClaimIdempotencyInput \<Rightarrow> idempotency_scope" where
  "claim_scope i = (cl_ownerUserId i, cl_operation i, cl_targetResourceId i, cl_key i)"

definition claim_row :: "time \<Rightarrow> ClaimIdempotencyInput \<Rightarrow> idempotency_row" where
  "claim_row now i =
     \<lparr>idem_id = cl_id i, idem_ownerUserId = cl_ownerUserId i, idem_operation = cl_operation i,
      idem_targetResourceId = cl_targetResourceId i, idem_key = cl_key i, idem_completion = None,
      idem_createdAt = now\<rparr>"

text \<open>\<open>insert ... on conflict do nothing returning\<close>: whether the row was inserted.\<close>

definition insert_idempotency_do_nothing ::
  "idempotency_row \<Rightarrow> 'x artifact_db_scheme \<Rightarrow> bool \<times> 'x artifact_db_scheme" where
  "insert_idempotency_do_nothing row db =
     (if idempotency_records_unique (idempotency_records db @ [row])
      then (True, db\<lparr>idempotency_records := idempotency_records db @ [row]\<rparr>) else (False, db))"

definition claimPending ::
  "unsealing \<Rightarrow> evidence_cipher \<Rightarrow> time \<Rightarrow> ClaimIdempotencyInput \<Rightarrow> 'x artifact_db_scheme
    \<Rightarrow> 'x artifact_db_scheme \<times> (repository_error + idempotency_claim)" where
  "claimPending unseal c now input db =
     (let row = claim_row now input in
      case insert_idempotency_do_nothing row db of
        (True, db') \<Rightarrow> (db', bindR (idempotencyRecord unseal c row) (\<lambda>r. Inr (Acquired r)))
      | (False, db') \<Rightarrow> (db', bindR (findIdempotency unseal c (claim_scope input) db') (\<lambda>existing.
          case existing of
            None \<Rightarrow> Inl (Repository ''Idempotency claim conflicted without an existing record.'')
          | Some r \<Rightarrow> Inr (Existing r))))"

definition pending_with_id :: "js_string \<Rightarrow> idempotency_row \<Rightarrow> bool" where
  "pending_with_id i row \<longleftrightarrow> idem_id row = i \<and> idem_completion row = None"

definition releasePending :: "js_string \<Rightarrow> 'x artifact_db_scheme \<Rightarrow> 'x artifact_db_scheme" where
  "releasePending i db = db\<lparr>idempotency_records := filter (\<lambda>row. \<not> pending_with_id i row) (idempotency_records db)\<rparr>"

text \<open>
  The last statement of every commit: the pending record takes the response, or the
  transaction is rolled back with \<open>pendingError\<close>.
\<close>

definition completion_of ::
  "sealing \<Rightarrow> byte list \<Rightarrow> evidence_cipher \<Rightarrow> time \<Rightarrow> js_string \<Rightarrow> int \<Rightarrow> json \<Rightarrow> completion" where
  "completion_of seal nonce c now requestHash responseStatus responseBody =
     \<lparr>cpl_evidence = encrypt seal nonce c requestHash, cpl_responseStatus = responseStatus,
      cpl_responseBody = responseBody, cpl_completedAt = now\<rparr>"

definition complete_pending ::
  "js_string \<Rightarrow> js_string \<Rightarrow> completion \<Rightarrow> 'x artifact_db_scheme \<Rightarrow> repository_error + 'x artifact_db_scheme" where
  "complete_pending pendingError i k db =
     (if length (filter (pending_with_id i) (idempotency_records db)) \<noteq> 1 then Inl (Repository pendingError)
      else Inr (db\<lparr>idempotency_records :=
             update_where (pending_with_id i) (\<lambda>row. row\<lparr>idem_completion := Some k\<rparr>) (idempotency_records db)\<rparr>))"

text \<open>
  \<open>reencryptPrevious\<close>: up to \<open>limit\<close> completed rows under another key revision, less those other
  transactions hold locked (\<open>skip locked\<close>); \<open>nonce n\<close> is the nonce of the n-th encryption.
\<close>

definition outdated :: "evidence_cipher \<Rightarrow> idempotency_row \<Rightarrow> bool" where
  "outdated c row \<longleftrightarrow>
     (case idem_completion row of None \<Rightarrow> False | Some k \<Rightarrow> ev_keyRevision (cpl_evidence k) \<noteq> currentRevision c)"

fun reencrypt_rows ::
  "sealing \<Rightarrow> unsealing \<Rightarrow> (nat \<Rightarrow> byte list) \<Rightarrow> evidence_cipher \<Rightarrow> idempotency_row list \<Rightarrow> 'x artifact_db_scheme
    \<Rightarrow> repository_error + 'x artifact_db_scheme" where
  "reencrypt_rows seal unseal nonce c [] db = Inr db"
| "reencrypt_rows seal unseal nonce c (row # rows) db =
     (case idem_completion row of
        None \<Rightarrow> Inl (Repository ''Completed idempotency record has no encrypted evidence.'')
      | Some k \<Rightarrow>
          if ev_ciphertext (cpl_evidence k) = [] \<or> ev_keyRevision (cpl_evidence k) = []
          then Inl (Repository ''Completed idempotency record has no encrypted evidence.'')
          else case reencrypt seal unseal (nonce (length rows)) c (cpl_evidence k) of
              Inl e \<Rightarrow> Inl (Evidence e)
            | Inr encrypted \<Rightarrow> reencrypt_rows seal unseal nonce c rows
                (db\<lparr>idempotency_records :=
                   update_where (\<lambda>r. idem_id r = idem_id row)
                     (\<lambda>r. r\<lparr>idem_completion := map_option (\<lambda>k. k\<lparr>cpl_evidence := encrypted\<rparr>) (idem_completion r)\<rparr>)
                     (idempotency_records db)\<rparr>))"

definition reencryptPrevious ::
  "sealing \<Rightarrow> unsealing \<Rightarrow> (nat \<Rightarrow> byte list) \<Rightarrow> evidence_cipher \<Rightarrow> (idempotency_row \<Rightarrow> bool) \<Rightarrow> int
    \<Rightarrow> 'x artifact_db_scheme \<Rightarrow> 'x artifact_db_scheme \<times> (repository_error + nat)" where
  "reencryptPrevious seal unseal nonce c locked limit db =
     (if \<not> safe_integer limit \<or> limit \<le> 0
      then (db, Inl (Repository ''Idempotency evidence re-encryption limit must be positive.''))
      else run_tx (\<lambda>db.
          let rows = take (nat limit) (filter (\<lambda>row. outdated c row \<and> \<not> locked row) (idempotency_records db)) in
          bindR (reencrypt_rows seal unseal nonce c rows db) (\<lambda>db'. Inr (db', length rows))) db)"
subsection \<open>The contract of the store\<close>

text \<open>
  What the services rely on: the entry of a scope is the claiming id with, once completed, its
  completion. A claim takes a free scope; a release frees a claimed one; a completion needs a
  claimed one.
\<close>

locale idempotency_store =
  fixes entry :: "'s \<Rightarrow> idempotency_scope \<Rightarrow> (js_string \<times> completion option) option"
    and valid :: "'s \<Rightarrow> bool"
    and claim :: "js_string \<Rightarrow> idempotency_scope \<Rightarrow> 's \<Rightarrow> bool \<times> 's"
    and complete :: "js_string \<Rightarrow> completion \<Rightarrow> 's \<Rightarrow> 's option"
    and release :: "js_string \<Rightarrow> 's \<Rightarrow> 's"
  assumes entry_id: "valid s \<Longrightarrow> entry s sc = Some (i, x) \<Longrightarrow> entry s sc' = Some (i, y) \<Longrightarrow> sc' = sc"
    and claim_entry: "valid s \<Longrightarrow> \<forall>sc x. entry s sc \<noteq> Some (i, x) \<Longrightarrow> claim i sc s = (acquired, s') \<Longrightarrow>
      valid s' \<and> acquired = (entry s sc = None)
      \<and> entry s' = (if acquired then (entry s)(sc \<mapsto> (i, None)) else entry s)"
    and complete_entry: "valid s \<Longrightarrow> complete i k s = Some s' \<Longrightarrow>
      valid s' \<and> entry s' = (\<lambda>sc. if entry s sc = Some (i, None) then Some (i, Some k) else entry s sc)"
    and complete_claimed: "valid s \<Longrightarrow> complete i k s \<noteq> None \<longleftrightarrow> (\<exists>sc. entry s sc = Some (i, None))"
    and release_entry: "valid s \<Longrightarrow>
      valid (release i s) \<and> entry (release i s) = (\<lambda>sc. if entry s sc = Some (i, None) then None else entry s sc)"
begin

lemma claimed_once:
  assumes "valid s" "\<forall>sc x. entry s sc \<noteq> Some (i, x)" "claim i sc s = (True, s')"
    and "\<forall>sc x. entry s' sc \<noteq> Some (j, x)"
  shows "entry s' sc = Some (i, None) \<and> (\<forall>a s''. claim j sc s' = (a, s'') \<longrightarrow> \<not> a \<and> entry s'' = entry s')"
proof -
  have s': "valid s'" "entry s' = (entry s)(sc \<mapsto> (i, None))"
    using claim_entry [OF assms(1-3)] by simp_all
  have "\<not> a \<and> entry s'' = entry s'" if "claim j sc s' = (a, s'')" for a s''
    using claim_entry [OF s'(1) assms(4) that] s'(2) by (auto split: if_splits)
  moreover have "entry s' sc = Some (i, None)" using s'(2) by simp
  ultimately show ?thesis by blast
qed

lemma release_undoes_claim:
  assumes "valid s" "\<forall>sc x. entry s sc \<noteq> Some (i, x)" "claim i sc s = (True, s')"
  shows "valid (release i s') \<and> entry (release i s') = entry s"
proof -
  have s': "valid s'" "entry s sc = None" "entry s' = (entry s)(sc \<mapsto> (i, None))"
    using claim_entry [OF assms] by simp_all
  show ?thesis using release_entry [OF s'(1), of i] s'(2,3) assms(2) by (auto simp: fun_eq_iff)
qed

lemma completed_claim_answers:
  assumes "valid s" "\<forall>sc x. entry s sc \<noteq> Some (i, x)" "claim i sc s = (True, s')"
  obtains s'' where "complete i k s' = Some s''" "valid s''" "entry s'' = (entry s)(sc \<mapsto> (i, Some k))"
proof -
  have s': "valid s'" "entry s' = (entry s)(sc \<mapsto> (i, None))"
    using claim_entry [OF assms] by simp_all
  then have "entry s' sc = Some (i, None)" by simp
  then have "complete i k s' \<noteq> None" using complete_claimed [OF s'(1)] by blast
  then obtain s'' where c: "complete i k s' = Some s''" by blast
  have "entry s'' = (entry s)(sc \<mapsto> (i, Some k))"
    using complete_entry [OF s'(1) c] s'(2) assms(2) by (auto simp: fun_eq_iff)
  then show ?thesis using that c complete_entry [OF s'(1) c] by blast
qed

end

subsection \<open>The table provides it\<close>

definition entry_of_row :: "idempotency_row \<Rightarrow> js_string \<times> completion option" where
  "entry_of_row row = (idem_id row, idem_completion row)"

definition entry_at :: "'x artifact_db_scheme \<Rightarrow> idempotency_scope \<Rightarrow> (js_string \<times> completion option) option" where
  "entry_at db sc = map_option entry_of_row (row_where (\<lambda>r. scope_of r = sc) (idempotency_records db))"

definition claims_valid :: "'x artifact_db_scheme \<Rightarrow> bool" where
  "claims_valid db \<longleftrightarrow> idempotency_records_unique (idempotency_records db)"

definition row_for :: "time \<Rightarrow> js_string \<Rightarrow> idempotency_scope \<Rightarrow> idempotency_row" where
  "row_for now i sc = (case sc of (u, operation, target, key) \<Rightarrow>
     claim_row now \<lparr>cl_id = i, cl_ownerUserId = u, cl_operation = operation, cl_targetResourceId = target, cl_key = key,
       cl_provisionalRequestHash = []\<rparr>)"

definition table_complete :: "js_string \<Rightarrow> completion \<Rightarrow> 'x artifact_db_scheme \<Rightarrow> 'x artifact_db_scheme option" where
  "table_complete i k db = (case complete_pending [] i k db of Inl _ \<Rightarrow> None | Inr db' \<Rightarrow> Some db')"

lemma scope_of_claim_row [simp]: "scope_of (claim_row now i) = claim_scope i"
  by (simp add: scope_of_def claim_row_def claim_scope_def)

lemma claim_row_simps [simp]: "idem_id (claim_row now i) = cl_id i" "idem_completion (claim_row now i) = None"
  by (simp_all add: claim_row_def)

lemma row_for_simps [simp]:
  "scope_of (row_for now i sc) = sc" "idem_id (row_for now i sc) = i" "idem_completion (row_for now i sc) = None"
  by (cases sc, simp add: row_for_def claim_scope_def)+

lemma option_eqI:
  assumes "\<And>i x. a = Some (i, x) \<longleftrightarrow> b = Some (i, x)"
  shows "a = b"
proof (cases a)
  case None
  with assms show ?thesis by (metis not_Some_eq surj_pair)
next
  case (Some p)
  then show ?thesis using assms [of "fst p" "snd p"] by simp
qed

lemma entry_at_Some:
  assumes "claims_valid db"
  shows "entry_at db sc = Some (i, x) \<longleftrightarrow>
    (\<exists>r \<in> set (idempotency_records db). scope_of r = sc \<and> idem_id r = i \<and> idem_completion r = x)"
proof -
  have dist: "distinct (map scope_of (idempotency_records db))"
    using assms by (simp add: claims_valid_def idempotency_records_unique_def unique_on_def)
  show ?thesis
  proof
    assume "entry_at db sc = Some (i, x)"
    then obtain r where "row_where (\<lambda>r. scope_of r = sc) (idempotency_records db) = Some r" "entry_of_row r = (i, x)"
      by (auto simp: entry_at_def)
    then show "\<exists>r \<in> set (idempotency_records db). scope_of r = sc \<and> idem_id r = i \<and> idem_completion r = x"
      using row_where_Some [of "\<lambda>r. scope_of r = sc"] by (auto simp: entry_of_row_def)
  next
    assume "\<exists>r \<in> set (idempotency_records db). scope_of r = sc \<and> idem_id r = i \<and> idem_completion r = x"
    then obtain r where "r \<in> set (idempotency_records db)" "scope_of r = sc" "entry_of_row r = (i, x)"
      by (auto simp: entry_of_row_def)
    then show "entry_at db sc = Some (i, x)"
      using row_where_unique [OF dist] by (simp add: entry_at_def)
  qed
qed

lemma claims_valid_ids:
  assumes "claims_valid db" "r \<in> set (idempotency_records db)" "q \<in> set (idempotency_records db)" "idem_id r = idem_id q"
  shows "r = q"
  using assms unique_onD [of "\<lambda>_. True" idem_id] by (auto simp: claims_valid_def idempotency_records_unique_def)

lemma entry_at_None:
  "entry_at db sc = None \<longleftrightarrow> (\<forall>r \<in> set (idempotency_records db). scope_of r \<noteq> sc)"
  by (simp add: entry_at_def row_where_None)

lemma insert_do_nothing_entry:
  assumes "claims_valid db" "\<forall>sc x. entry_at db sc \<noteq> Some (idem_id row, x)" "idem_completion row = None"
    and "insert_idempotency_do_nothing row db = (acquired, db')"
  shows "claims_valid db' \<and> acquired = (entry_at db (scope_of row) = None)
    \<and> entry_at db' = (if acquired then (entry_at db)(scope_of row \<mapsto> (idem_id row, None)) else entry_at db)"
proof -
  let ?t = "idempotency_records db"
  have fresh: "idem_id r \<noteq> idem_id row" if "r \<in> set ?t" for r
    using assms(2) that entry_at_Some [OF assms(1)] by metis
  then have free: "idempotency_records_unique (?t @ [row]) \<longleftrightarrow> entry_at db (scope_of row) = None"
    using assms(1) by (auto simp: idempotency_records_unique_def unique_on_append1 claims_valid_def entry_at_None)
  have view: "entry_at (db\<lparr>idempotency_records := ?t @ [row]\<rparr>) = (entry_at db)(scope_of row \<mapsto> (idem_id row, None))"
    if "entry_at db (scope_of row) = None"
  proof (rule ext)
    fix c show "entry_at (db\<lparr>idempotency_records := ?t @ [row]\<rparr>) c = ((entry_at db)(scope_of row \<mapsto> (idem_id row, None))) c"
      using that assms(3)
      by (cases "row_where (\<lambda>r. scope_of r = c) ?t")
        (auto simp: entry_at_def row_where_append entry_of_row_def)
  qed
  show ?thesis
    using assms(1,4) free view
    by (auto simp: insert_idempotency_do_nothing_def claims_valid_def split: if_splits)
qed

lemma unique_on_filter: "unique_on (\<lambda>_. True) k t \<Longrightarrow> unique_on (\<lambda>_. True) k (filter P t)"
  by (simp add: unique_on_def distinct_map_filter)

lemma release_entry_at:
  assumes "claims_valid db"
  shows "claims_valid (releasePending i db)
    \<and> entry_at (releasePending i db) = (\<lambda>sc. if entry_at db sc = Some (i, None) then None else entry_at db sc)"
proof -
  have v: "claims_valid (releasePending i db)"
    using assms by (simp add: releasePending_def claims_valid_def idempotency_records_unique_def unique_on_filter)
  have "entry_at (releasePending i db) sc = Some (j, x) \<longleftrightarrow>
      (if entry_at db sc = Some (i, None) then None else entry_at db sc) = Some (j, x)" for sc j x
  proof -
    have "entry_at (releasePending i db) sc = Some (j, x) \<longleftrightarrow>
        (\<exists>r \<in> set (idempotency_records db). scope_of r = sc \<and> idem_id r = j \<and> idem_completion r = x
          \<and> \<not> pending_with_id i r)"
      unfolding entry_at_Some [OF v] by (auto simp: releasePending_def)
    also have "\<dots> \<longleftrightarrow> entry_at db sc = Some (j, x) \<and> \<not> (j = i \<and> x = None)"
      unfolding entry_at_Some [OF assms] by (auto simp: pending_with_id_def)
    finally show ?thesis by auto
  qed
  then have "entry_at (releasePending i db) = (\<lambda>sc. if entry_at db sc = Some (i, None) then None else entry_at db sc)"
    by (rule ext [OF option_eqI])
  with v show ?thesis by blast
qed
lemma pending_row_unique:
  assumes "claims_valid db"
  shows "length (filter (pending_with_id i) (idempotency_records db)) = (if \<exists>sc. entry_at db sc = Some (i, None) then 1 else 0)"
proof -
  let ?t = "idempotency_records db"
  have dist: "distinct (map idem_id (filter (pending_with_id i) ?t))"
    using assms by (simp add: claims_valid_def idempotency_records_unique_def unique_on_def distinct_map_filter)
  have le: "length (filter (pending_with_id i) ?t) \<le> 1"
  proof (rule ccontr)
    assume "\<not> ?thesis"
    then obtain a b l where two: "filter (pending_with_id i) ?t = a # b # l"
      by (cases "filter (pending_with_id i) ?t" rule: remdups_adj.cases) auto
    then have "set (a # b # l) = {r \<in> set ?t. pending_with_id i r}" by (metis set_filter)
    then have "pending_with_id i a" "pending_with_id i b" by auto
    then show False using dist two by (simp add: pending_with_id_def)
  qed
  have "(\<exists>sc. entry_at db sc = Some (i, None)) \<longleftrightarrow> (\<exists>r \<in> set ?t. pending_with_id i r)"
    unfolding entry_at_Some [OF assms] pending_with_id_def by blast
  also have "\<dots> \<longleftrightarrow> filter (pending_with_id i) ?t \<noteq> []" by (auto simp: filter_empty_conv)
  finally show ?thesis using le by (cases "filter (pending_with_id i) ?t") auto
qed

lemma update_records_entry:
  assumes "claims_valid db" and "\<And>r. p r \<Longrightarrow> idem_id (f r) = idem_id r \<and> scope_of (f r) = scope_of r"
  shows "claims_valid (db\<lparr>idempotency_records := update_where p f (idempotency_records db)\<rparr>)"
    "entry_at (db\<lparr>idempotency_records := update_where p f (idempotency_records db)\<rparr>) sc
      = map_option (\<lambda>r. entry_of_row (if p r then f r else r)) (row_where (\<lambda>r. scope_of r = sc) (idempotency_records db))"
proof -
  show "claims_valid (db\<lparr>idempotency_records := update_where p f (idempotency_records db)\<rparr>)"
    using assms by (simp add: claims_valid_def idempotency_records_unique_def unique_on_def map_update_where_same)
  have "row_where (\<lambda>r. scope_of r = sc) (update_where p f t)
      = map_option (\<lambda>r. if p r then f r else r) (row_where (\<lambda>r. scope_of r = sc) t)" for t
    by (induction t) (auto simp: assms(2))
  then show "entry_at (db\<lparr>idempotency_records := update_where p f (idempotency_records db)\<rparr>) sc
      = map_option (\<lambda>r. entry_of_row (if p r then f r else r)) (row_where (\<lambda>r. scope_of r = sc) (idempotency_records db))"
    by (simp add: entry_at_def option.map_comp comp_def)
qed

lemma complete_entry_at:
  assumes "claims_valid db" "complete_pending e i k db = Inr db'"
  shows "claims_valid db'
    \<and> entry_at db' = (\<lambda>sc. if entry_at db sc = Some (i, None) then Some (i, Some k) else entry_at db sc)"
proof -
  let ?f = "\<lambda>row :: idempotency_row. row\<lparr>idem_completion := Some k\<rparr>"
  have db': "db' = db\<lparr>idempotency_records := update_where (pending_with_id i) ?f (idempotency_records db)\<rparr>"
    using assms(2) by (simp add: complete_pending_def split: if_splits)
  have same: "idem_id (?f r) = idem_id r \<and> scope_of (?f r) = scope_of r" for r by (simp add: scope_of_def)
  have "entry_at db' sc = (if entry_at db sc = Some (i, None) then Some (i, Some k) else entry_at db sc)" for sc
    unfolding db' update_records_entry(2) [OF assms(1) same]
    by (cases "row_where (\<lambda>r. scope_of r = sc) (idempotency_records db)")
      (auto simp: entry_at_def entry_of_row_def pending_with_id_def)
  then show ?thesis using update_records_entry(1) [OF assms(1) same] db' by auto
qed

lemma complete_pending_defined:
  "claims_valid db \<Longrightarrow> isOk (complete_pending e i k db) \<longleftrightarrow> (\<exists>sc. entry_at db sc = Some (i, None))"
  using pending_row_unique [of db i] by (simp add: complete_pending_def)

interpretation idem: idempotency_store entry_at claims_valid
  "\<lambda>i sc. insert_idempotency_do_nothing (row_for now i sc)" table_complete releasePending
proof unfold_locales
  fix db :: "'x artifact_db_scheme" and sc sc' i x y
  assume v: "claims_valid db" and "entry_at db sc = Some (i, x)" "entry_at db sc' = Some (i, y)"
  then show "sc' = sc" using claims_valid_ids [OF v] unfolding entry_at_Some [OF v] by metis
next
  fix db db' :: "'x artifact_db_scheme" and sc i acquired
  assume "claims_valid db" "\<forall>sc x. entry_at db sc \<noteq> Some (i, x)"
    "insert_idempotency_do_nothing (row_for now i sc) db = (acquired, db')"
  then show "claims_valid db' \<and> acquired = (entry_at db sc = None)
      \<and> entry_at db' = (if acquired then (entry_at db)(sc \<mapsto> (i, None)) else entry_at db)"
    using insert_do_nothing_entry [of db "row_for now i sc" acquired db'] by simp
next
  fix db db' :: "'x artifact_db_scheme" and i k
  assume "claims_valid db" "table_complete i k db = Some db'"
  then show "claims_valid db' \<and> entry_at db' = (\<lambda>sc. if entry_at db sc = Some (i, None) then Some (i, Some k) else entry_at db sc)"
    using complete_entry_at [of db "[]" i k db'] by (simp add: table_complete_def split: sum.splits)
next
  fix db :: "'x artifact_db_scheme" and i k
  assume "claims_valid db"
  then show "table_complete i k db \<noteq> None \<longleftrightarrow> (\<exists>sc. entry_at db sc = Some (i, None))"
    using complete_pending_defined [of db "[]" i k] by (auto simp: table_complete_def isOk_def split: sum.splits)
next
  fix db :: "'x artifact_db_scheme" and i
  assume "claims_valid db"
  then show "claims_valid (releasePending i db)
    \<and> entry_at (releasePending i db) = (\<lambda>sc. if entry_at db sc = Some (i, None) then None else entry_at db sc)"
    by (rule release_entry_at)
qed
subsection \<open>Refinement\<close>

text \<open>
  The specification of the store: a map from scopes to claims and answers, in which the
  request hash is in clear. Re-encryption does not change it.
\<close>

datatype idempotency_entry = Claimed js_string | Answered js_string "js_string option" int json

type_synonym idempotency_spec = "idempotency_scope \<Rightarrow> idempotency_entry option"

datatype idempotency_op =
    Op_claim ClaimIdempotencyInput
  | Op_complete js_string js_string int json
  | Op_release js_string
  | Op_reencrypt int

datatype idempotency_reply = Reply_acquired | Reply_existing idempotency_entry | Reply_done | Reply_error

definition spec_step :: "idempotency_op \<Rightarrow> idempotency_spec \<Rightarrow> idempotency_spec \<times> idempotency_reply" where
  "spec_step operation m =
     (case operation of
        Op_claim i \<Rightarrow>
          (case m (claim_scope i) of
             None \<Rightarrow> (m(claim_scope i \<mapsto> Claimed (cl_id i)), Reply_acquired)
           | Some e \<Rightarrow> (m, Reply_existing e))
      | Op_complete i h status body \<Rightarrow>
          if Some (Claimed i) \<in> range m
          then (\<lambda>sc. if m sc = Some (Claimed i) then Some (Answered i (Some h) status body) else m sc, Reply_done)
          else (m, Reply_error)
      | Op_release i \<Rightarrow> (\<lambda>sc. if m sc = Some (Claimed i) then None else m sc, Reply_done)
      | Op_reencrypt _ \<Rightarrow> (m, Reply_done))"

text \<open>The operations of the code as steps of one system.\<close>

definition entry_of_record :: "IdempotencyRecord \<Rightarrow> idempotency_entry" where
  "entry_of_record r = (case (ir_state r, ir_responseStatus r, ir_responseBody r) of
     (Idem_completed, Some status, Some body) \<Rightarrow> Answered (ir_id r) (ir_requestHash r) status body
   | _ \<Rightarrow> Claimed (ir_id r))"

definition store_step ::
  "sealing \<Rightarrow> unsealing \<Rightarrow> evidence_cipher \<Rightarrow> (nat \<Rightarrow> byte list) \<Rightarrow> (idempotency_row \<Rightarrow> bool) \<Rightarrow> time
    \<Rightarrow> idempotency_op \<Rightarrow> 'x artifact_db_scheme \<Rightarrow> 'x artifact_db_scheme \<times> idempotency_reply" where
  "store_step seal unseal c nonce locked now operation db =
     (case operation of
        Op_claim i \<Rightarrow>
          (case claimPending unseal c now i db of
             (db', Inl _) \<Rightarrow> (db', Reply_error)
           | (db', Inr (Acquired _)) \<Rightarrow> (db', Reply_acquired)
           | (db', Inr (Existing r)) \<Rightarrow> (db', Reply_existing (entry_of_record r)))
      | Op_complete i h status body \<Rightarrow>
          (case complete_pending [] i (completion_of seal (nonce 0) c now h status body) db of
             Inl _ \<Rightarrow> (db, Reply_error) | Inr db' \<Rightarrow> (db', Reply_done))
      | Op_release i \<Rightarrow> (releasePending i db, Reply_done)
      | Op_reencrypt limit \<Rightarrow>
          (case reencryptPrevious seal unseal nonce c locked limit db of
             (db', Inl _) \<Rightarrow> (db', Reply_error) | (db', Inr _) \<Rightarrow> (db', Reply_done)))"

text \<open>The abstraction of a table, and the tables whose evidence the cipher can read.\<close>

definition spec_entry :: "unsealing \<Rightarrow> evidence_cipher \<Rightarrow> js_string \<times> completion option \<Rightarrow> idempotency_entry" where
  "spec_entry unseal c e = (case snd e of
     None \<Rightarrow> Claimed (fst e)
   | Some k \<Rightarrow> Answered (fst e) (case requestHash_of unseal c (Some k) of Inl _ \<Rightarrow> None | Inr h \<Rightarrow> h)
       (cpl_responseStatus k) (cpl_responseBody k))"

definition abstract_store :: "unsealing \<Rightarrow> evidence_cipher \<Rightarrow> 'x artifact_db_scheme \<Rightarrow> idempotency_spec" where
  "abstract_store unseal c db sc = map_option (spec_entry unseal c) (entry_at db sc)"

definition readable_row :: "unsealing \<Rightarrow> evidence_cipher \<Rightarrow> idempotency_row \<Rightarrow> bool" where
  "readable_row unseal c row \<longleftrightarrow>
     (case idem_completion row of
        None \<Rightarrow> True
      | Some k \<Rightarrow> (case requestHash_of unseal c (Some k) of Inr (Some h) \<Rightarrow> well_formed h \<and> h \<noteq> [] | _ \<Rightarrow> False))"

definition readable :: "unsealing \<Rightarrow> evidence_cipher \<Rightarrow> 'x artifact_db_scheme \<Rightarrow> bool" where
  "readable unseal c db \<longleftrightarrow> claims_valid db \<and> list_all (readable_row unseal c) (idempotency_records db)"

lemma spec_entry_Claimed [simp]: "spec_entry unseal c e = Claimed i \<longleftrightarrow> e = (i, None)"
  by (cases e) (auto simp: spec_entry_def split: option.splits)

lemma abstract_Claimed [simp]: "abstract_store unseal c db sc = Some (Claimed i) \<longleftrightarrow> entry_at db sc = Some (i, None)"
  by (auto simp: abstract_store_def)

lemma readable_row_hash:
  assumes "readable_row unseal c row" "idem_completion row = Some k"
  obtains h where "requestHash_of unseal c (Some k) = Inr (Some h)" "well_formed h" "h \<noteq> []"
    "decrypt unseal c (cpl_evidence k) = Inr h" "ev_ciphertext (cpl_evidence k) \<noteq> []" "ev_keyRevision (cpl_evidence k) \<noteq> []"
  using assms by (auto simp: readable_row_def requestHash_of_def split: sum.splits option.splits if_splits)

lemma find_readable:
  assumes "list_all (readable_row unseal c) (idempotency_records db)"
  shows "\<exists>r. findIdempotency unseal c sc db = Inr r \<and> map_option entry_of_record r = abstract_store unseal c db sc"
proof (cases "row_where (\<lambda>r. scope_of r = sc) (idempotency_records db)")
  case None
  then show ?thesis by (simp add: findIdempotency_def abstract_store_def entry_at_def)
next
  case (Some row)
  then have "readable_row unseal c row" using assms row_where_Some by (fastforce simp: list_all_iff)
  then show ?thesis
    using Some by (cases "idem_completion row")
      (auto simp: findIdempotency_def abstract_store_def entry_at_def idempotencyRecord_def entry_of_row_def
        spec_entry_def entry_of_record_def requestHash_of_def elim!: readable_row_hash)
qed

text \<open>A cipher in use: it holds the key of its current revision, which has a name.\<close>

definition cipher_ok :: "evidence_cipher \<Rightarrow> bool" where
  "cipher_ok c \<longleftrightarrow> map_of (ec_keys c) (currentRevision c) \<noteq> None \<and> currentRevision c \<noteq> []"

lemma decrypt_nonempty: "decrypt unseal c e = Inr h \<Longrightarrow> ev_ciphertext e \<noteq> []"
  by (auto simp: decrypt_def bindR_eq_Inr from_base64url_def map_filter_simps Let_def split: if_splits)

definition rewrite_evidence :: "js_string \<Rightarrow> EncryptedIdempotencyEvidence \<Rightarrow> 'x artifact_db_scheme \<Rightarrow> 'x artifact_db_scheme" where
  "rewrite_evidence i encrypted db = db\<lparr>idempotency_records :=
     update_where (\<lambda>r. idem_id r = i)
       (\<lambda>r. r\<lparr>idem_completion := map_option (\<lambda>k. k\<lparr>cpl_evidence := encrypted\<rparr>) (idem_completion r)\<rparr>)
       (idempotency_records db)\<rparr>"

lemma rewrite_evidence_readable:
  assumes db: "readable unseal c db" and row: "row \<in> set (idempotency_records db)" "idem_completion row = Some k"
    and same: "requestHash_of unseal c (Some (k\<lparr>cpl_evidence := e\<rparr>)) = requestHash_of unseal c (Some k)"
  shows "readable unseal c (rewrite_evidence (idem_id row) e db)
    \<and> abstract_store unseal c (rewrite_evidence (idem_id row) e db) = abstract_store unseal c db"
proof -
  let ?p = "\<lambda>r. idem_id r = idem_id row"
  let ?f = "\<lambda>r :: idempotency_row. r\<lparr>idem_completion := map_option (\<lambda>k. k\<lparr>cpl_evidence := e\<rparr>) (idem_completion r)\<rparr>"
  have v: "claims_valid db" using db by (simp add: readable_def)
  have ids: "r = row" if "r \<in> set (idempotency_records db)" "?p r" for r
    using claims_valid_ids [OF v that(1) row(1) that(2)] .
  have keep: "idem_id (?f r) = idem_id r \<and> scope_of (?f r) = scope_of r" for r by (simp add: scope_of_def)
  have "list_all (readable_row unseal c) (update_where ?p ?f (idempotency_records db))"
  proof (rule list_all_update_where)
    fix r assume r: "r \<in> set (idempotency_records db)"
    show "readable_row unseal c (if ?p r then ?f r else r)"
      using db r ids [OF r] row(2) same by (auto simp: readable_def list_all_iff readable_row_def)
  qed
  moreover have "abstract_store unseal c (rewrite_evidence (idem_id row) e db) sc = abstract_store unseal c db sc" for sc
  proof (cases "row_where (\<lambda>r. scope_of r = sc) (idempotency_records db)")
    case (Some r)
    then have r: "r \<in> set (idempotency_records db)" using row_where_Some by fast
    have "spec_entry unseal c (entry_of_row (?f row)) = spec_entry unseal c (entry_of_row row)"
      using row(2) same by (simp add: spec_entry_def entry_of_row_def)
    then have "spec_entry unseal c (entry_of_row (if ?p r then ?f r else r)) = spec_entry unseal c (entry_of_row r)"
      using ids [OF r] by (cases "?p r") simp_all
    then show ?thesis
      unfolding abstract_store_def rewrite_evidence_def update_records_entry(2) [OF v keep]
      using Some by (simp add: entry_at_def)
  next
    case None
    then show ?thesis
      unfolding abstract_store_def rewrite_evidence_def update_records_entry(2) [OF v keep]
      by (simp add: entry_at_def)
  qed
  ultimately show ?thesis
    using update_records_entry(1) [OF v keep] by (auto simp: readable_def rewrite_evidence_def)
qed

text \<open>The laws of the authenticated encryption, for the lemmas that follow.\<close>

definition sealing_laws :: "sealing \<Rightarrow> unsealing \<Rightarrow> bool" where
  "sealing_laws seal unseal \<longleftrightarrow>
     (\<forall>key nonce aad plain. unseal key nonce aad (fst (seal key nonce aad plain)) (snd (seal key nonce aad plain)) = Some plain
       \<and> length (fst (seal key nonce aad plain)) = length plain
       \<and> length (snd (seal key nonce aad plain)) = TAG_BYTES)"

lemma encrypted_hash:
  assumes "sealing_laws seal unseal" "cipher_ok c" "length nonce = NONCE_BYTES" "well_formed h" "h \<noteq> []"
    and "cpl_evidence k = encrypt seal nonce c h"
  shows "requestHash_of unseal c (Some k) = Inr (Some h)"
proof -
  have "decrypt unseal c (cpl_evidence k) = Inr h"
    using decrypt_encrypt [of unseal seal nonce c c h] assms by (auto simp: sealing_laws_def cipher_ok_def)
  then show ?thesis
    using decrypt_nonempty [of unseal c "cpl_evidence k" h] assms(2,6) by (simp add: requestHash_of_def cipher_ok_def)
qed

lemma reencrypt_rows_invisible:
  assumes laws: "sealing_laws seal unseal" "cipher_ok c" "\<And>n. length (nonce n) = NONCE_BYTES"
  shows "readable unseal c db \<Longrightarrow> set rows \<subseteq> set (idempotency_records db) \<Longrightarrow> distinct (map idem_id rows)
    \<Longrightarrow> list_all (outdated c) rows
    \<Longrightarrow> \<exists>db'. reencrypt_rows seal unseal nonce c rows db = Inr db' \<and> readable unseal c db'
      \<and> abstract_store unseal c db' = abstract_store unseal c db"
proof (induction rows arbitrary: db)
  case (Cons row rows)
  obtain k where k: "idem_completion row = Some k" using Cons.prems(4) by (auto simp: outdated_def split: option.splits)
  have row: "row \<in> set (idempotency_records db)" "readable_row unseal c row"
    using Cons.prems(1,2) by (auto simp: readable_def list_all_iff)
  obtain h where h: "requestHash_of unseal c (Some k) = Inr (Some h)" "well_formed h" "h \<noteq> []"
    "decrypt unseal c (cpl_evidence k) = Inr h" "ev_ciphertext (cpl_evidence k) \<noteq> []" "ev_keyRevision (cpl_evidence k) \<noteq> []"
    using readable_row_hash [OF row(2) k] by metis
  let ?e = "encrypt seal (nonce (length rows)) c h"
  let ?db = "rewrite_evidence (idem_id row) ?e db"
  have "requestHash_of unseal c (Some (k\<lparr>cpl_evidence := ?e\<rparr>)) = requestHash_of unseal c (Some k)"
    using encrypted_hash [OF laws h(2,3)] h(1) by simp
  then have step: "readable unseal c ?db" "abstract_store unseal c ?db = abstract_store unseal c db"
    using rewrite_evidence_readable [OF Cons.prems(1) row(1) k] by blast+
  have "set rows \<subseteq> set (idempotency_records ?db)"
  proof
    fix r assume r: "r \<in> set rows"
    then have "idem_id r \<noteq> idem_id row" "r \<in> set (idempotency_records db)" using Cons.prems(2,3) by (auto simp: image_iff)
    then show "r \<in> set (idempotency_records ?db)" by (force simp: rewrite_evidence_def in_update_where)
  qed
  then show ?case
    using Cons.IH [OF step(1)] Cons.prems(3,4) step(2) k h
    by (simp add: reencrypt_def rewrite_evidence_def)
qed simp

lemma reencryptPrevious_invisible:
  assumes "sealing_laws seal unseal" "cipher_ok c" "\<And>n. length (nonce n) = NONCE_BYTES"
    and "readable unseal c db" "0 < limit" "safe_integer limit"
  shows "\<exists>db' n. reencryptPrevious seal unseal nonce c locked limit db = (db', Inr n) \<and> readable unseal c db'
      \<and> abstract_store unseal c db' = abstract_store unseal c db"
proof -
  let ?rows = "take (nat limit) (filter (\<lambda>row. outdated c row \<and> \<not> locked row) (idempotency_records db))"
  have "distinct (map idem_id (idempotency_records db))"
    using assms(4) by (simp add: readable_def claims_valid_def idempotency_records_unique_def unique_on_def)
  then have "distinct (map idem_id ?rows)" by (simp add: distinct_map_filter take_map [symmetric] distinct_take)
  moreover have "set ?rows \<subseteq> set (idempotency_records db)" using set_take_subset by fastforce
  moreover have "list_all (outdated c) ?rows" using set_take_subset by (fastforce simp: list_all_iff)
  ultimately have "\<exists>db'. reencrypt_rows seal unseal nonce c ?rows db = Inr db' \<and> readable unseal c db'
      \<and> abstract_store unseal c db' = abstract_store unseal c db"
    by (intro reencrypt_rows_invisible [OF assms(1-4)])
  then show ?thesis using assms(5,6) by (auto simp: reencryptPrevious_def run_tx_def)
qed
definition op_ok :: "idempotency_op \<Rightarrow> 'x artifact_db_scheme \<Rightarrow> bool" where
  "op_ok operation db \<longleftrightarrow>
     (case operation of
        Op_claim i \<Rightarrow> cl_id i \<notin> idem_id ` set (idempotency_records db)
      | Op_complete i h status body \<Rightarrow> well_formed h \<and> h \<noteq> []
      | Op_release i \<Rightarrow> True
      | Op_reencrypt limit \<Rightarrow> 0 < limit \<and> safe_integer limit)"

lemma fresh_entry:
  "claims_valid db \<Longrightarrow> i \<notin> idem_id ` set (idempotency_records db) \<longleftrightarrow> (\<forall>sc x. entry_at db sc \<noteq> Some (i, x))"
  unfolding entry_at_Some by fastforce

lemma claim_refines:
  assumes db: "readable unseal c db" and fresh: "cl_id i \<notin> idem_id ` set (idempotency_records db)"
  shows "readable unseal c (fst (store_step seal unseal c nonce locked now (Op_claim i) db))
    \<and> abstract_store unseal c (fst (store_step seal unseal c nonce locked now (Op_claim i) db))
      = fst (spec_step (Op_claim i) (abstract_store unseal c db))
    \<and> snd (store_step seal unseal c nonce locked now (Op_claim i) db)
      = snd (spec_step (Op_claim i) (abstract_store unseal c db))"
proof -
  have v: "claims_valid db" and rows: "list_all (readable_row unseal c) (idempotency_records db)"
    using db by (simp_all add: readable_def)
  obtain acquired db' where ins: "insert_idempotency_do_nothing (claim_row now i) db = (acquired, db')" by fastforce
  have spec: "claims_valid db'" "acquired = (entry_at db (claim_scope i) = None)"
    "entry_at db' = (if acquired then (entry_at db)(claim_scope i \<mapsto> (cl_id i, None)) else entry_at db)"
    using insert_do_nothing_entry [OF v _ _ ins] fresh fresh_entry [OF v] by simp_all
  have recs: "idempotency_records db' = idempotency_records db @ (if acquired then [claim_row now i] else [])"
    "\<not> acquired \<Longrightarrow> db' = db"
    using ins by (auto simp: insert_idempotency_do_nothing_def split: if_splits)
  show ?thesis
  proof (cases acquired)
    case True
    have free: "abstract_store unseal c db (claim_scope i) = None" using True spec(2) by (simp add: abstract_store_def)
    have "store_step seal unseal c nonce locked now (Op_claim i) db = (db', Reply_acquired)"
      using True ins by (simp add: store_step_def claimPending_def idempotencyRecord_def requestHash_of_def Let_def)
    moreover have "readable unseal c db'" using True spec(1) recs rows by (simp add: readable_def readable_row_def)
    moreover have "abstract_store unseal c db' = (abstract_store unseal c db)(claim_scope i \<mapsto> Claimed (cl_id i))"
      by (rule ext) (use True spec(3) in \<open>simp add: abstract_store_def spec_entry_def\<close>)
    ultimately show ?thesis using free by (simp add: spec_step_def)
  next
    case False
    obtain r where f: "findIdempotency unseal c (claim_scope i) db = Inr r"
      "map_option entry_of_record r = abstract_store unseal c db (claim_scope i)"
      using find_readable [OF rows] by blast
    have "abstract_store unseal c db (claim_scope i) \<noteq> None" using False spec(2) by (simp add: abstract_store_def)
    then obtain q where "r = Some q" "abstract_store unseal c db (claim_scope i) = Some (entry_of_record q)"
      using f(2) by (cases r) auto
    then show ?thesis
      using False recs ins f(1) db by (simp add: store_step_def spec_step_def claimPending_def)
  qed
qed

lemma in_range_iff: "x \<in> range m \<longleftrightarrow> (\<exists>a. m a = x)"
  by blast

lemma complete_refines:
  assumes laws: "sealing_laws seal unseal" "cipher_ok c" "length (nonce 0) = NONCE_BYTES"
    and db: "readable unseal c db" and h: "well_formed h" "h \<noteq> []"
  shows "readable unseal c (fst (store_step seal unseal c nonce locked now (Op_complete i h status body) db))
    \<and> abstract_store unseal c (fst (store_step seal unseal c nonce locked now (Op_complete i h status body) db))
      = fst (spec_step (Op_complete i h status body) (abstract_store unseal c db))
    \<and> snd (store_step seal unseal c nonce locked now (Op_complete i h status body) db)
      = snd (spec_step (Op_complete i h status body) (abstract_store unseal c db))"
proof -
  have v: "claims_valid db" and rows: "list_all (readable_row unseal c) (idempotency_records db)"
    using db by (simp_all add: readable_def)
  let ?k = "completion_of seal (nonce 0) c now h status body"
  have hash: "requestHash_of unseal c (Some ?k) = Inr (Some h)"
    by (rule encrypted_hash [OF laws h]) (simp add: completion_of_def)
  have claimed: "Some (Claimed i) \<in> range (abstract_store unseal c db) \<longleftrightarrow> (\<exists>sc. entry_at db sc = Some (i, None))"
    unfolding in_range_iff abstract_Claimed ..
  show ?thesis
  proof (cases "complete_pending [] i ?k db")
    case (Inl e)
    then have "\<not> (\<exists>sc. entry_at db sc = Some (i, None))"
      using complete_pending_defined [OF v, of "[]" i ?k] by simp
    then have "Some (Claimed i) \<notin> range (abstract_store unseal c db)" using claimed by blast
    then show ?thesis using Inl db by (simp add: store_step_def spec_step_def)
  next
    case (Inr db')
    have e: "claims_valid db'" "entry_at db' = (\<lambda>sc. if entry_at db sc = Some (i, None) then Some (i, Some ?k) else entry_at db sc)"
      using complete_entry_at [OF v Inr] by simp_all
    have "list_all (readable_row unseal c) (update_where (pending_with_id i) (\<lambda>row. row\<lparr>idem_completion := Some ?k\<rparr>) (idempotency_records db))"
      using rows hash h by (intro list_all_update_where) (simp add: readable_row_def list_all_iff)
    then have "list_all (readable_row unseal c) (idempotency_records db')"
      using Inr by (auto simp: complete_pending_def split: if_splits)
    moreover have "Some (Claimed i) \<in> range (abstract_store unseal c db)"
      using claimed complete_pending_defined [OF v, of "[]" i ?k] Inr by simp
    moreover have "abstract_store unseal c db' sc = (if abstract_store unseal c db sc = Some (Claimed i)
        then Some (Answered i (Some h) status body) else abstract_store unseal c db sc)" for sc
    proof -
      have "spec_entry unseal c (i, Some ?k) = Answered i (Some h) status body"
        using hash by (simp add: spec_entry_def completion_of_def)
      then show ?thesis unfolding abstract_Claimed by (simp add: abstract_store_def e(2))
    qed
    ultimately show ?thesis
      using Inr e(1) by (auto simp: store_step_def spec_step_def readable_def fun_eq_iff)
  qed
qed

lemma release_refines:
  assumes "readable unseal c db"
  shows "readable unseal c (releasePending i db)
    \<and> abstract_store unseal c (releasePending i db) = fst (spec_step (Op_release i) (abstract_store unseal c db))"
proof -
  have v: "claims_valid db" using assms by (simp add: readable_def)
  have e: "claims_valid (releasePending i db)"
    "entry_at (releasePending i db) = (\<lambda>sc. if entry_at db sc = Some (i, None) then None else entry_at db sc)"
    using release_entry_at [OF v] by simp_all
  have "list_all (readable_row unseal c) (idempotency_records (releasePending i db))"
    using assms by (auto simp: readable_def releasePending_def list_all_iff)
  moreover have "abstract_store unseal c (releasePending i db) sc = (if abstract_store unseal c db sc = Some (Claimed i)
      then None else abstract_store unseal c db sc)" for sc
    unfolding abstract_Claimed by (simp add: abstract_store_def e(2))
  ultimately show ?thesis using e(1) by (auto simp: readable_def spec_step_def fun_eq_iff)
qed

text \<open>
  C5: the idempotency table implements its specification. On a table whose evidence the
  cipher can read, claiming, completing, releasing and re-encrypting take the same step and
  give the same reply as the map from scopes to claims and answers, and leave a table whose
  evidence the cipher can read; re-encryption is invisible, whichever rows it skips. Needed
  are an authenticated encryption whose opening undoes its sealing, nonces of the right
  length, a claim under a new id, and a non-empty request hash.
\<close>

theorem store_refines_spec:
  assumes "sealing_laws seal unseal" "cipher_ok c" "\<And>n. length (nonce n) = NONCE_BYTES"
    and "readable unseal c db" "op_ok operation db"
    and "store_step seal unseal c nonce locked now operation db = (db', reply)"
    and "spec_step operation (abstract_store unseal c db) = (m', reply')"
  shows "readable unseal c db' \<and> abstract_store unseal c db' = m' \<and> reply = reply'"
proof -
  have "readable unseal c (fst (store_step seal unseal c nonce locked now operation db))
    \<and> abstract_store unseal c (fst (store_step seal unseal c nonce locked now operation db))
      = fst (spec_step operation (abstract_store unseal c db))
    \<and> snd (store_step seal unseal c nonce locked now operation db) = snd (spec_step operation (abstract_store unseal c db))"
  proof (cases operation)
    case (Op_claim i)
    then show ?thesis using claim_refines assms(4,5) by (simp add: op_ok_def)
  next
    case (Op_complete i h status body)
    then show ?thesis using complete_refines [OF assms(1-4)] assms(5) by (simp add: op_ok_def)
  next
    case (Op_release i)
    then show ?thesis using release_refines [OF assms(4)] by (simp add: store_step_def) (simp add: spec_step_def)
  next
    case (Op_reencrypt limit)
    then have "0 < limit" "safe_integer limit" using assms(5) by (simp_all add: op_ok_def)
    then obtain db'' n where "reencryptPrevious seal unseal nonce c locked limit db = (db'', Inr n)"
        "readable unseal c db''" "abstract_store unseal c db'' = abstract_store unseal c db"
      using reencryptPrevious_invisible [where nonce = nonce, OF assms(1-4)] by blast
    then show ?thesis using Op_reencrypt by (simp add: store_step_def spec_step_def)
  qed
  then show ?thesis using assms(6,7) by simp
qed
subsection \<open>Examples\<close>

definition example_claim :: ClaimIdempotencyInput where
  "example_claim = \<lparr>cl_id = ''idem_1'', cl_ownerUserId = ''u1'', cl_operation = Create_artifact,
     cl_targetResourceId = None, cl_key = ''k'', cl_provisionalRequestHash = ''abc''\<rparr>"

definition claimed_db :: artifact_db where
  "claimed_db = empty_artifact_db\<lparr>idempotency_records := [claim_row 0 example_claim]\<rparr>"

lemma example_laws:
  "sealing_laws example_seal example_unseal" "cipher_ok (example_cipher example_new_key None)"
  "length (replicate 12 0) = NONCE_BYTES" "well_formed ''abc''"
  by (simp_all add: sealing_laws_def example_seal_laws cipher_ok_def example_cipher_def example_new_key_def
      newIdempotencyEvidenceCipher_def currentRevision_def NONCE_BYTES_def ascii_well_formed ascii_def)

lemma store_refines_spec_witness:
  "readable example_unseal (example_cipher example_new_key None)
     (fst (store_step example_seal example_unseal (example_cipher example_new_key None) (\<lambda>_. replicate 12 0) (\<lambda>_. False) 1
       (Op_complete ''idem_1'' ''abc'' 202 (JObj [])) claimed_db))
   \<and> snd (store_step example_seal example_unseal (example_cipher example_new_key None) (\<lambda>_. replicate 12 0) (\<lambda>_. False) 1
       (Op_complete ''idem_1'' ''abc'' 202 (JObj [])) claimed_db) = Reply_done"
proof -
  have db: "readable example_unseal (example_cipher example_new_key None) claimed_db"
    by (simp add: readable_def claims_valid_def claimed_db_def empty_artifact_db_def idempotency_records_unique_def
        unique_on_def readable_row_def)
  have "op_ok (Op_complete ''idem_1'' ''abc'' 202 (JObj [])) claimed_db"
    using example_laws(4) by (simp add: op_ok_def)
  note refined = store_refines_spec [OF example_laws(1,2) _ db this prod.collapse [symmetric] prod.collapse [symmetric],
      where nonce = "\<lambda>_. replicate 12 0" and locked = "\<lambda>_. False" and now = 1]
  have "Some (Claimed ''idem_1'') \<in> range (abstract_store example_unseal (example_cipher example_new_key None) claimed_db)"
    unfolding in_range_iff abstract_Claimed
    by (intro exI [of _ "claim_scope example_claim"])
      (simp add: entry_at_def claimed_db_def empty_artifact_db_def entry_of_row_def example_claim_def)
  then have "snd (spec_step (Op_complete ''idem_1'' ''abc'' 202 (JObj []))
      (abstract_store example_unseal (example_cipher example_new_key None) claimed_db)) = Reply_done"
    by (simp add: spec_step_def)
  then show ?thesis using refined example_laws(3) by simp
qed

end
