(* ===== verification/Artifact_Queries.thy ===== *)
theory Artifact_Queries
  imports Idempotency_Store "HOL-Library.Product_Lexorder"
begin

text \<open>
  The read side of \<open>createArtifactRepositories\<close> in \<open>api/src/db/artifact-repositories.ts\<close> and
  the record types of \<open>api/src/application/artifacts/repositories.ts\<close>, with the schema a
  stored validation report is checked against. Rows with equal sort columns come in table
  order, which the code leaves open. The collation of the database is a parameter
  \<open>collate\<close>. A query that fails to decode a row throws.
\<close>

subsection \<open>Records\<close>

record ArtifactListCursor =
  lc_updatedAt :: time
  lc_artifactId :: js_string

datatype publication_filter = Filter_published | Filter_unpublished

datatype processing_state = State_accepted | State_processing | State_ready | State_failed

record ArtifactListQuery =
  lq_ownerUserId :: js_string
  lq_publication :: "publication_filter option"
  lq_processing :: "processing_state option"
  lq_cursor :: "ArtifactListCursor option"
  lq_limit :: nat

record ShareLinkRecord =
  sl_id :: js_string
  sl_artifactId :: js_string
  sl_slug :: js_string
  sl_status :: share_link_status
  sl_retiredAt :: "time option"

record UploadSessionRecord =
  us_id :: js_string
  us_artifactId :: js_string
  us_state :: session_state
  us_retryable :: bool
  us_rawObjectKey :: js_string
  us_failureReasonCode :: "js_string option"
  us_failureSummary :: "js_string option"
  us_validationReport :: "json option"
  us_supersededAt :: "time option"

record ProcessingJobRecord =
  pj_id :: js_string
  pj_uploadSessionId :: js_string
  pj_state :: job_state
  pj_attemptCount :: int
  pj_maxAttempts :: int

datatype thumbnail_view = Thumb_pending | Thumb_ready | Thumb_failed

record VersionRecord =
  rv_id :: js_string
  rv_artifactId :: js_string
  rv_uploadSessionId :: "js_string option"
  rv_versionNumber :: int
  rv_thumbnailState :: "thumbnail_view option"

subsection \<open>Stored validation reports\<close>

text \<open>A JSON object with known members of the given kinds; the flag marks optional members.\<close>

definition strict_object :: "(js_string \<times> bool \<times> (json \<Rightarrow> bool)) list \<Rightarrow> json \<Rightarrow> bool" where
  "strict_object members j =
     (case j of
        JObj kvs \<Rightarrow>
          list_all (\<lambda>(k, v). case map_of members k of None \<Rightarrow> False | Some (optional, p) \<Rightarrow> p v) kvs
          \<and> list_all (\<lambda>(k, optional, p). optional \<or> k \<in> fst ` set kvs) members
      | _ \<Rightarrow> False)"

definition nonEmptyString :: "json \<Rightarrow> bool" where
  "nonEmptyString j = (case j of JStr s \<Rightarrow> s \<noteq> [] | _ \<Rightarrow> False)"

definition nullable :: "(json \<Rightarrow> bool) \<Rightarrow> json \<Rightarrow> bool" where
  "nullable p j = (case j of JNull \<Rightarrow> True | _ \<Rightarrow> p j)"

definition json_array :: "(json \<Rightarrow> bool) \<Rightarrow> json \<Rightarrow> bool" where
  "json_array p j = (case j of JArr xs \<Rightarrow> list_all p xs | _ \<Rightarrow> False)"

definition short_array :: "(json \<Rightarrow> bool) \<Rightarrow> json \<Rightarrow> bool" where
  "short_array p j = (case j of JArr xs \<Rightarrow> list_all p xs \<and> length xs \<le> 20 | _ \<Rightarrow> False)"

definition digit_char :: "char \<Rightarrow> bool" where
  "digit_char c \<longleftrightarrow> 48 \<le> byte_of c \<and> byte_of c \<le> 57"

definition exactNonNegativeInteger :: "json \<Rightarrow> bool" where
  "exactNonNegativeInteger j =
     (case j of
        JNum n \<Rightarrow> 0 \<le> n \<and> safe_integer n
      | JStr s \<Rightarrow> s = ''0'' \<or> s \<noteq> [] \<and> hd s \<noteq> CHR ''0'' \<and> list_all digit_char s
      | _ \<Rightarrow> False)"

definition validationDetailsSchema :: "json \<Rightarrow> bool" where
  "validationDetailsSchema = strict_object
     [(''path'', True, nonEmptyString), (''paths'', True, json_array nonEmptyString),
      (''candidates'', True, json_array nonEmptyString), (''extension'', True, nonEmptyString),
      (''validationKind'', True, nonEmptyString), (''actualBytes'', True, exactNonNegativeInteger),
      (''limitBytes'', True, exactNonNegativeInteger), (''actualCount'', True, exactNonNegativeInteger),
      (''limitCount'', True, exactNonNegativeInteger), (''ignoredCount'', True, exactNonNegativeInteger),
      (''directory'', True, nonEmptyString), (''entryFile'', True, nonEmptyString)]"

definition lower_letter :: "char \<Rightarrow> bool" where
  "lower_letter c \<longleftrightarrow> 97 \<le> byte_of c \<and> byte_of c \<le> 122"

definition code_string :: "json \<Rightarrow> bool" where
  "code_string j =
     (case j of
        JStr (c # s) \<Rightarrow> lower_letter c \<and> list_all (\<lambda>d. lower_letter d \<or> digit_char d \<or> d = CHR ''_'') s
      | _ \<Rightarrow> False)"

definition validationNoticeSchema :: "json \<Rightarrow> bool" where
  "validationNoticeSchema = strict_object
     [(''code'', False, code_string), (''message'', False, nonEmptyString),
      (''action'', False, nullable nonEmptyString), (''details'', False, validationDetailsSchema)]"

definition json_member :: "js_string \<Rightarrow> json \<Rightarrow> json option" where
  "json_member k j = (case j of JObj kvs \<Rightarrow> map_of kvs k | _ \<Rightarrow> None)"

definition elements :: "json option \<Rightarrow> json list" where
  "elements j = (case j of Some (JArr xs) \<Rightarrow> xs | _ \<Rightarrow> [])"

definition validationReportSchema :: "json \<Rightarrow> bool" where
  "validationReportSchema j \<longleftrightarrow>
     strict_object
       [(''primaryIssue'', False, nullable validationNoticeSchema), (''issues'', False, short_array validationNoticeSchema),
        (''warnings'', False, short_array validationNoticeSchema)] j
     \<and> (if json_member ''primaryIssue'' j = Some JNull then 0 else 1) + length (elements (json_member ''issues'' j)) \<le> 20"

definition parseValidationReport :: "json option \<Rightarrow> repository_error + json option" where
  "parseValidationReport value =
     (case value of
        None \<Rightarrow> Inr None
      | Some j \<Rightarrow>
          if validationReportSchema j then Inr (Some j)
          else Inl (Repository ''Database contains an inconsistent Artifact validation report.''))"

subsection \<open>Decoding of rows\<close>

definition shareLinkRecord :: "share_link_row \<Rightarrow> ShareLinkRecord" where
  "shareLinkRecord r =
     \<lparr>sl_id = link_id r, sl_artifactId = link_artifactId r, sl_slug = link_slug r, sl_status = link_status r,
      sl_retiredAt = link_retiredAt r\<rparr>"

definition uploadSessionRecord :: "upload_session_row \<Rightarrow> repository_error + UploadSessionRecord" where
  "uploadSessionRecord r =
     bindR (parseValidationReport (sess_validationReport r)) (\<lambda>report. Inr
       \<lparr>us_id = sess_id r, us_artifactId = sess_artifactId r, us_state = sess_state r, us_retryable = sess_retryable r,
        us_rawObjectKey = sess_rawObjectKey r, us_failureReasonCode = sess_failureReasonCode r,
        us_failureSummary = sess_failureSummary r, us_validationReport = report, us_supersededAt = sess_supersededAt r\<rparr>)"

definition processingJobRecord :: "processing_job_row \<Rightarrow> ProcessingJobRecord" where
  "processingJobRecord r =
     \<lparr>pj_id = job_id r, pj_uploadSessionId = job_uploadSessionId r, pj_state = job_state r,
      pj_attemptCount = job_attemptCount r, pj_maxAttempts = job_maxAttempts r\<rparr>"

definition versionRecord :: "artifact_version_row \<Rightarrow> VersionRecord" where
  "versionRecord r =
     \<lparr>rv_id = ver_id r, rv_artifactId = ver_artifactId r, rv_uploadSessionId = ver_uploadSessionId r,
      rv_versionNumber = ver_versionNumber r, rv_thumbnailState = None\<rparr>"

definition versionWithThumbnail :: "artifact_version_row \<Rightarrow> thumbnail_state option \<Rightarrow> VersionRecord" where
  "versionWithThumbnail r thumbnailJobState = (versionRecord r)
     \<lparr>rv_thumbnailState := Some (if thumbnailJobState = Some Thumbnail_completed then Thumb_ready
        else if thumbnailJobState = Some Thumbnail_failed then Thumb_failed else Thumb_pending)\<rparr>"

text \<open>\<open>order by k desc\<close>, and the first row of every key in order.\<close>

definition order_desc :: "('r \<Rightarrow> 'k :: linorder) \<Rightarrow> 'r list \<Rightarrow> 'r list" where
  "order_desc k t = rev (sort_key k (rev t))"

fun first_per :: "('r \<Rightarrow> 'k) \<Rightarrow> 'r list \<Rightarrow> 'r list" where
  "first_per k [] = []"
| "first_per k (r # t) = r # first_per k (filter (\<lambda>q. k q \<noteq> k r) t)"

definition first_row :: "'r list \<Rightarrow> 'r option" where
  "first_row t = (case t of [] \<Rightarrow> None | r # _ \<Rightarrow> Some r)"

fun mapR :: "('a \<Rightarrow> 'e + 'b) \<Rightarrow> 'a list \<Rightarrow> 'e + 'b list" where
  "mapR f [] = Inr []"
| "mapR f (x # xs) = bindR (f x) (\<lambda>y. bindR (mapR f xs) (\<lambda>ys. Inr (y # ys)))"

definition mapR_option :: "('a \<Rightarrow> 'e + 'b) \<Rightarrow> 'a option \<Rightarrow> 'e + 'b option" where
  "mapR_option f x = (case x of None \<Rightarrow> Inr None | Some y \<Rightarrow> bindR (f y) (\<lambda>z. Inr (Some z)))"
subsection \<open>Policies and artifacts\<close>

definition getActive :: "'x artifact_db_scheme \<Rightarrow> UploadPolicySnapshot option" where
  "getActive db = map_option (\<lambda>policy.
     \<lparr>pol_revision = up_revision policy, pol_archiveSizeBytes = up_archiveSizeBytes policy,
      pol_expandedSizeBytes = up_expandedSizeBytes policy, pol_fileCount = up_fileCount policy,
      pol_singleFileSizeBytes = up_singleFileSizeBytes policy,
      pol_formats = map (\<lambda>f. \<lparr>fmt_extension = pf_extension f, fmt_contentType = pf_contentType f,
          fmt_validationKind = pf_validationKind f\<rparr>)
        (filter (\<lambda>f. pf_policyId f = up_id policy) (policy_formats db))\<rparr>)
     (row_where up_active (upload_policies db))"

definition listOwned :: "js_string \<Rightarrow> 'x artifact_db_scheme \<Rightarrow> ArtifactRecord list" where
  "listOwned ownerUserId db =
     order_desc art_updatedAt (filter (\<lambda>r. art_ownerUserId r = ownerUserId) (stored_artifacts db))"

definition hasReadyVersion :: "js_string \<Rightarrow> 'x artifact_db_scheme \<Rightarrow> bool" where
  "hasReadyVersion artifactId db = exists_where (\<lambda>v. ver_artifactId v = artifactId) (artifact_versions db)"

definition currentSessionWithState :: "session_state \<Rightarrow> js_string \<Rightarrow> 'x artifact_db_scheme \<Rightarrow> bool" where
  "currentSessionWithState st artifactId db =
     exists_where (\<lambda>s. sess_artifactId s = artifactId \<and> sess_supersededAt s = None \<and> sess_state s = st) (upload_sessions db)"

definition publicationExists :: "js_string \<Rightarrow> 'x artifact_db_scheme \<Rightarrow> bool" where
  "publicationExists artifactId db =
     exists_where (\<lambda>p. pub_artifactId p = artifactId \<and> pub_endedAt p = None) (publications db)"

definition awaits_cleanup :: "js_string \<Rightarrow> 'x artifact_db_scheme \<Rightarrow> bool" where
  "awaits_cleanup artifactId db = exists_where (\<lambda>c. del_artifactId c = artifactId) (deletion_cleanups db)"

definition processingCondition :: "processing_state option \<Rightarrow> js_string \<Rightarrow> 'x artifact_db_scheme \<Rightarrow> bool" where
  "processingCondition processing a db =
     (case processing of
        None \<Rightarrow> True
      | Some State_ready \<Rightarrow> hasReadyVersion a db
      | Some State_accepted \<Rightarrow> \<not> hasReadyVersion a db \<and> currentSessionWithState Session_accepted a db
      | Some State_processing \<Rightarrow> \<not> hasReadyVersion a db \<and> currentSessionWithState Session_processing a db
      | Some State_failed \<Rightarrow> \<not> hasReadyVersion a db \<and> currentSessionWithState Session_failed a db)"

definition publicationCondition :: "publication_filter option \<Rightarrow> js_string \<Rightarrow> 'x artifact_db_scheme \<Rightarrow> bool" where
  "publicationCondition publication a db =
     (case publication of
        None \<Rightarrow> True
      | Some Filter_published \<Rightarrow> publicationExists a db
      | Some Filter_unpublished \<Rightarrow> \<not> publicationExists a db)"

definition page_key :: "(js_string \<Rightarrow> nat list) \<Rightarrow> ArtifactRecord \<Rightarrow> time \<times> nat list" where
  "page_key collate r = (art_updatedAt r, collate (art_id r))"

definition cursorCondition :: "(js_string \<Rightarrow> nat list) \<Rightarrow> ArtifactListCursor option \<Rightarrow> ArtifactRecord \<Rightarrow> bool" where
  "cursorCondition collate cursor r =
     (case cursor of
        None \<Rightarrow> True
      | Some c \<Rightarrow> art_updatedAt r < lc_updatedAt c
          \<or> art_updatedAt r = lc_updatedAt c \<and> collate (art_id r) < collate (lc_artifactId c))"

definition list_condition :: "ArtifactListQuery \<Rightarrow> 'x artifact_db_scheme \<Rightarrow> ArtifactRecord \<Rightarrow> bool" where
  "list_condition input db r \<longleftrightarrow>
     art_ownerUserId r = lq_ownerUserId input
     \<and> publicationCondition (lq_publication input) (art_id r) db
     \<and> processingCondition (lq_processing input) (art_id r) db
     \<and> \<not> awaits_cleanup (art_id r) db"

definition listOwnedPage ::
  "(js_string \<Rightarrow> nat list) \<Rightarrow> ArtifactListQuery \<Rightarrow> 'x artifact_db_scheme \<Rightarrow> ArtifactRecord list" where
  "listOwnedPage collate input db =
     take (lq_limit input) (order_desc (page_key collate)
       (filter (\<lambda>r. list_condition input db r \<and> cursorCondition collate (lq_cursor input) r) (stored_artifacts db)))"

definition findOwnedArtifact :: "js_string \<Rightarrow> js_string \<Rightarrow> 'x artifact_db_scheme \<Rightarrow> ArtifactRecord option" where
  "findOwnedArtifact ownerUserId artifactId db =
     row_where (\<lambda>r. art_ownerUserId r = ownerUserId \<and> art_id r = artifactId \<and> \<not> awaits_cleanup (art_id r) db)
       (stored_artifacts db)"

definition updateName ::
  "time \<Rightarrow> js_string \<Rightarrow> js_string \<Rightarrow> js_string \<Rightarrow> 'x artifact_db_scheme
    \<Rightarrow> 'x artifact_db_scheme \<times> (repository_error + ArtifactRecord option)" where
  "updateName now ownerUserId artifactId name db =
     (let p = (\<lambda>r. art_ownerUserId r = ownerUserId \<and> art_id r = artifactId);
          t = update_where p (\<lambda>r. r\<lparr>art_name := name, art_updatedAt := now\<rparr>) (stored_artifacts db) in
      if \<not> list_all artifact_row_ok t then (db, Inl (Database (Check_violation ''artifact_name_check'')))
      else (db\<lparr>stored_artifacts := t\<rparr>, Inr (row_where p t)))"

subsection \<open>Links, sessions, jobs, versions and publications\<close>

definition findActiveByArtifact :: "js_string \<Rightarrow> 'x artifact_db_scheme \<Rightarrow> ShareLinkRecord option" where
  "findActiveByArtifact artifactId db =
     map_option shareLinkRecord (row_where (\<lambda>l. link_artifactId l = artifactId \<and> link_status l = Link_active) (share_links db))"

definition findActiveByArtifacts :: "js_string list \<Rightarrow> 'x artifact_db_scheme \<Rightarrow> ShareLinkRecord list" where
  "findActiveByArtifacts artifactIds db =
     map shareLinkRecord (filter (\<lambda>l. link_artifactId l \<in> set artifactIds \<and> link_status l = Link_active) (share_links db))"

definition findBySlug :: "js_string \<Rightarrow> 'x artifact_db_scheme \<Rightarrow> ShareLinkRecord option" where
  "findBySlug slug db = map_option shareLinkRecord (row_where (\<lambda>l. link_slug l = slug) (share_links db))"

definition findOwnedSession ::
  "js_string \<Rightarrow> js_string \<Rightarrow> 'x artifact_db_scheme \<Rightarrow> repository_error + UploadSessionRecord option" where
  "findOwnedSession ownerUserId uploadSessionId db =
     mapR_option uploadSessionRecord
       (row_where (\<lambda>s. sess_id s = uploadSessionId
            \<and> exists_where (\<lambda>a. art_id a = sess_artifactId s \<and> art_ownerUserId a = ownerUserId) (stored_artifacts db))
          (upload_sessions db))"

definition unsuperseded :: "(js_string \<Rightarrow> bool) \<Rightarrow> 'x artifact_db_scheme \<Rightarrow> upload_session_row list" where
  "unsuperseded artifacts db =
     order_desc sess_createdAt
       (filter (\<lambda>s. artifacts (sess_artifactId s) \<and> sess_supersededAt s = None) (upload_sessions db))"

definition findCurrent :: "js_string \<Rightarrow> 'x artifact_db_scheme \<Rightarrow> repository_error + UploadSessionRecord option" where
  "findCurrent artifactId db =
     mapR_option uploadSessionRecord (first_row (unsuperseded (\<lambda>a. a = artifactId) db))"

definition findCurrentByArtifacts ::
  "js_string list \<Rightarrow> 'x artifact_db_scheme \<Rightarrow> repository_error + UploadSessionRecord list" where
  "findCurrentByArtifacts artifactIds db =
     mapR uploadSessionRecord (first_per sess_artifactId (unsuperseded (\<lambda>a. a \<in> set artifactIds) db))"

definition findByUploadSession :: "js_string \<Rightarrow> 'x artifact_db_scheme \<Rightarrow> ProcessingJobRecord option" where
  "findByUploadSession uploadSessionId db =
     map_option processingJobRecord
       (first_row (order_desc job_createdAt (filter (\<lambda>j. job_uploadSessionId j = uploadSessionId) (processing_jobs db))))"

definition owned_by :: "js_string \<Rightarrow> 'x artifact_db_scheme \<Rightarrow> artifact_version_row \<Rightarrow> bool" where
  "owned_by ownerUserId db v =
     exists_where (\<lambda>a. art_id a = ver_artifactId v \<and> art_ownerUserId a = ownerUserId) (stored_artifacts db)"

definition listReadyOwned :: "js_string \<Rightarrow> js_string \<Rightarrow> 'x artifact_db_scheme \<Rightarrow> VersionRecord list" where
  "listReadyOwned ownerUserId artifactId db =
     map versionRecord (order_desc ver_versionNumber
       (filter (\<lambda>v. ver_artifactId v = artifactId \<and> owned_by ownerUserId db v) (artifact_versions db)))"

definition findReadyOwned :: "js_string \<Rightarrow> js_string \<Rightarrow> 'x artifact_db_scheme \<Rightarrow> VersionRecord option" where
  "findReadyOwned ownerUserId versionId db =
     map_option versionRecord (row_where (\<lambda>v. ver_id v = versionId \<and> owned_by ownerUserId db v) (artifact_versions db))"

text \<open>The left join with the thumbnail jobs; a null column joins with nothing.\<close>

definition thumbnailJobState :: "'x artifact_db_scheme \<Rightarrow> artifact_version_row \<Rightarrow> thumbnail_state option" where
  "thumbnailJobState db v = map_option tj_state
     (row_where (\<lambda>j. ver_contentBundleId v = Some (tj_bundleId j) \<and> ver_rendererRevision v = Some (tj_rendererRevision j))
        (thumbnail_jobs db))"

definition findReadyByArtifact :: "js_string \<Rightarrow> 'x artifact_db_scheme \<Rightarrow> VersionRecord option" where
  "findReadyByArtifact artifactId db =
     map_option (\<lambda>v. versionWithThumbnail v (thumbnailJobState db v))
       (first_row (order_desc ver_versionNumber (filter (\<lambda>v. ver_artifactId v = artifactId) (artifact_versions db))))"

definition findReadyByArtifacts :: "js_string list \<Rightarrow> 'x artifact_db_scheme \<Rightarrow> VersionRecord list" where
  "findReadyByArtifacts artifactIds db =
     map (\<lambda>v. versionWithThumbnail v (thumbnailJobState db v))
       (first_per ver_artifactId
         (order_desc ver_versionNumber (filter (\<lambda>v. ver_artifactId v \<in> set artifactIds) (artifact_versions db))))"

definition findLatest :: "js_string \<Rightarrow> 'x artifact_db_scheme \<Rightarrow> PublicationRecord option" where
  "findLatest artifactId db =
     first_row (order_desc pub_createdAt (filter (\<lambda>p. pub_artifactId p = artifactId) (publications db)))"

definition findLatestByArtifacts :: "js_string list \<Rightarrow> 'x artifact_db_scheme \<Rightarrow> PublicationRecord list" where
  "findLatestByArtifacts artifactIds db =
     first_per pub_artifactId
       (order_desc pub_createdAt (filter (\<lambda>p. pub_artifactId p \<in> set artifactIds) (publications db)))"

definition findRestrictedByArtifacts :: "js_string list \<Rightarrow> 'x gallery_db_scheme \<Rightarrow> js_string list" where
  "findRestrictedByArtifacts artifactIds db =
     js_unique (map gb_artifact_id
       (filter (\<lambda>b. gb_active b \<and> gb_artifact_id b \<in> set artifactIds)
          (public_sharing_restrictions db @ artifact_takedowns db)))"

end
