(* ===== verification/Artifact_Commits.thy ===== *)
theory Artifact_Commits
  imports Artifact_Queries Upload_Input
begin

text \<open>
  The write transactions of \<open>createArtifactRepositories\<close>,
  \<open>api/src/db/artifact-repositories.ts\<close>: an accepted upload (of a new artifact, of a
  replacement, of a version) and a manual retry, each with the completion of its idempotency
  record. \<open>now\<close> is the clock, \<open>nonce\<close> the random bytes of the evidence. A transaction commits
  everything or nothing, and keeps every constraint of the tables.
\<close>

record CompleteIdempotencyInput =
  ci_idempotencyRecordId :: js_string
  ci_requestHash :: js_string
  ci_responseStatus :: int
  ci_responseBody :: json

record CommitVersionUploadInput = CompleteIdempotencyInput +
  cv_artifactId :: js_string
  cv_ownerUserId :: js_string
  cv_uploadSessionId :: js_string
  cv_policy :: UploadPolicySnapshot
  cv_rawObjectKey :: js_string
  cv_rawFingerprintCandidates :: "RawFingerprintCandidate list"
  cv_processingRevision :: js_string
  cv_contentIdentityRevision :: js_string
  cv_rawSizeBytes :: int
  cv_requestedEntry :: "js_string option"
  cv_processingJobId :: js_string
  cv_maxAttempts :: int

record CommitAcceptedArtifactInput = CommitVersionUploadInput +
  ca_name :: js_string

record CommitReplacementInput = CommitVersionUploadInput +
  cr_previousUploadSessionId :: js_string

record QueueManualRetryInput = CompleteIdempotencyInput +
  qr_uploadSessionId :: js_string
  qr_processingJobId :: js_string
  qr_maxAttempts :: int

type_synonym evidence_sealing = "sealing \<times> byte list \<times> evidence_cipher"

text \<open>A schema error inside a transaction.\<close>

definition db_result :: "tx_error + 'a \<Rightarrow> repository_error + 'a" where
  "db_result r = (case r of Inl e \<Rightarrow> Inl (Database e) | Inr x \<Rightarrow> Inr x)"

lemma db_result_eq [simp]:
  "db_result r = Inr x \<longleftrightarrow> r = Inr x"
  "db_result r = Inl e \<longleftrightarrow> (\<exists>d. r = Inl d \<and> e = Database d)"
  by (auto simp: db_result_def split: sum.splits)

subsection \<open>Rows and statements\<close>

definition candidate_rows ::
  "time \<Rightarrow> 'b CommitVersionUploadInput_scheme \<Rightarrow> fingerprint_candidate_row list" where
  "candidate_rows now i = map (\<lambda>candidate.
     \<lparr>cand_uploadSessionId = cv_uploadSessionId i, cand_ownerUserId = cv_ownerUserId i,
      cand_fingerprintKeyRevision = rf_keyRevision candidate, cand_reuseFingerprint = rf_fingerprint candidate,
      cand_requestedEntryKey = (case cv_requestedEntry i of None \<Rightarrow> [] | Some e \<Rightarrow> e),
      cand_policyRevision = pol_revision (cv_policy i), cand_processingRevision = cv_processingRevision i,
      cand_contentIdentityRevision = cv_contentIdentityRevision i, cand_createdAt = now\<rparr>)
     (cv_rawFingerprintCandidates i)"

definition insertRawFingerprintCandidates ::
  "time \<Rightarrow> 'b CommitVersionUploadInput_scheme \<Rightarrow> 'x artifact_db_scheme \<Rightarrow> repository_error + 'x artifact_db_scheme" where
  "insertRawFingerprintCandidates now i db =
     (if cv_rawFingerprintCandidates i = []
      then Inl (Repository ''Accepted Upload must include a raw fingerprint candidate.'')
      else db_result (insert_fingerprint_candidates (candidate_rows now i) db))"

definition session_row :: "time \<Rightarrow> 'b CommitVersionUploadInput_scheme \<Rightarrow> upload_session_row" where
  "session_row now i =
     \<lparr>sess_id = cv_uploadSessionId i, sess_artifactId = cv_artifactId i, sess_ownerUserId = cv_ownerUserId i,
      sess_policy = cv_policy i, sess_rawObjectKey = cv_rawObjectKey i, sess_rawSizeBytes = cv_rawSizeBytes i,
      sess_requestedEntry = cv_requestedEntry i, sess_state = Session_accepted, sess_failureReasonCode = None,
      sess_failureSummary = None, sess_validationReport = None, sess_retryable = False, sess_supersededAt = None,
      sess_createdAt = now, sess_updatedAt = now\<rparr>"

definition job_row :: "time \<Rightarrow> js_string \<Rightarrow> js_string \<Rightarrow> int \<Rightarrow> processing_job_row" where
  "job_row now jobId uploadSessionId maxAttempts =
     \<lparr>job_id = jobId, job_uploadSessionId = uploadSessionId, job_state = Queued, job_availableAt = now,
      job_leaseOwner = None, job_leaseExpiresAt = None, job_heartbeatAt = None, job_attemptCount = 0,
      job_maxAttempts = maxAttempts, job_createdAt = now, job_updatedAt = now\<rparr>"

definition complete_idempotency ::
  "evidence_sealing \<Rightarrow> time \<Rightarrow> js_string \<Rightarrow> 'b CompleteIdempotencyInput_scheme \<Rightarrow> 'x artifact_db_scheme
    \<Rightarrow> repository_error + 'x artifact_db_scheme" where
  "complete_idempotency ev now pendingError i db = (case ev of (seal, nonce, c) \<Rightarrow>
     complete_pending pendingError (ci_idempotencyRecordId i)
       (completion_of seal nonce c now (ci_requestHash i) (ci_responseStatus i) (ci_responseBody i)) db)"

definition commitAcceptedUpload ::
  "evidence_sealing \<Rightarrow> time \<Rightarrow> js_string \<Rightarrow> 'b CommitVersionUploadInput_scheme \<Rightarrow> 'x artifact_db_scheme
    \<Rightarrow> repository_error + 'x artifact_db_scheme" where
  "commitAcceptedUpload ev now pendingError i db =
     bindR (db_result (insert_upload_session (session_row now i) db)) (\<lambda>db.
     bindR (insertRawFingerprintCandidates now i db) (\<lambda>db.
     bindR (db_result (insert_processing_job
              (job_row now (cv_processingJobId i) (cv_uploadSessionId i) (cv_maxAttempts i)) db)) (\<lambda>db.
     complete_idempotency ev now pendingError i db)))"

subsection \<open>Transactions\<close>

definition artifact_row :: "time \<Rightarrow> CommitAcceptedArtifactInput \<Rightarrow> ArtifactRecord" where
  "artifact_row now i =
     \<lparr>art_id = cv_artifactId i, art_ownerUserId = cv_ownerUserId i, art_name = ca_name i, art_createdAt = now,
      art_updatedAt = now\<rparr>"

definition commitAccepted ::
  "evidence_sealing \<Rightarrow> time \<Rightarrow> CommitAcceptedArtifactInput \<Rightarrow> 'x artifact_db_scheme
    \<Rightarrow> 'x artifact_db_scheme \<times> (repository_error + unit)" where
  "commitAccepted ev now i = run_tx (\<lambda>db.
     bindR (db_result (insert_artifact (artifact_row now i) db)) (\<lambda>db.
     bindR (commitAcceptedUpload ev now ''Pending idempotency record was not completed.'' i db) (\<lambda>db.
     Inr (db, ()))))"

definition retry_eligible :: "js_string \<Rightarrow> upload_session_row \<Rightarrow> bool" where
  "retry_eligible i s \<longleftrightarrow> sess_id s = i \<and> sess_state s = Session_failed \<and> sess_retryable s \<and> sess_supersededAt s = None"

definition accept_again :: "time \<Rightarrow> upload_session_row \<Rightarrow> upload_session_row" where
  "accept_again now s = s\<lparr>sess_state := Session_accepted, sess_retryable := False, sess_failureReasonCode := None,
     sess_failureSummary := None, sess_validationReport := None, sess_updatedAt := now\<rparr>"

definition queueManualRetry ::
  "evidence_sealing \<Rightarrow> time \<Rightarrow> QueueManualRetryInput \<Rightarrow> 'x artifact_db_scheme
    \<Rightarrow> 'x artifact_db_scheme \<times> (repository_error + unit)" where
  "queueManualRetry ev now i = run_tx (\<lambda>db.
     bindR (db_result (update_upload_sessions (retry_eligible (qr_uploadSessionId i)) (accept_again now) db)) (\<lambda>(n, db).
     bindR (guardR (n = 1) (Repository ''Upload session is not eligible for manual Retry.'')) (\<lambda>_.
     bindR (db_result (insert_processing_job
              (job_row now (qr_processingJobId i) (qr_uploadSessionId i) (qr_maxAttempts i)) db)) (\<lambda>db.
     bindR (complete_idempotency ev now ''Pending Retry idempotency record was not completed.'' i db) (\<lambda>db.
     Inr (db, ()))))))"

definition replace_eligible :: "js_string \<Rightarrow> js_string \<Rightarrow> upload_session_row \<Rightarrow> bool" where
  "replace_eligible i a s \<longleftrightarrow> sess_id s = i \<and> sess_artifactId s = a \<and> sess_state s = Session_failed
     \<and> \<not> sess_retryable s \<and> sess_supersededAt s = None"

definition supersede :: "time \<Rightarrow> upload_session_row \<Rightarrow> upload_session_row" where
  "supersede now s = s\<lparr>sess_supersededAt := Some now, sess_updatedAt := now\<rparr>"

definition commitReplacement ::
  "evidence_sealing \<Rightarrow> time \<Rightarrow> CommitReplacementInput \<Rightarrow> 'x artifact_db_scheme
    \<Rightarrow> 'x artifact_db_scheme \<times> (repository_error + unit)" where
  "commitReplacement ev now i = run_tx (\<lambda>db.
     bindR (db_result (update_upload_sessions (replace_eligible (cr_previousUploadSessionId i) (cv_artifactId i))
              (supersede now) db)) (\<lambda>(n, db).
     bindR (guardR (n = 1) (Repository ''Upload session is not eligible for Replace file.'')) (\<lambda>_.
     bindR (commitAcceptedUpload ev now ''Pending Replace idempotency record was not completed.'' i db) (\<lambda>db.
     Inr (db, ())))))"

definition commitVersionUpload ::
  "evidence_sealing \<Rightarrow> time \<Rightarrow> CommitVersionUploadInput \<Rightarrow> 'x artifact_db_scheme
    \<Rightarrow> 'x artifact_db_scheme \<times> (repository_error + unit)" where
  "commitVersionUpload ev now i = run_tx (\<lambda>db.
     bindR (commitAcceptedUpload ev now ''Pending Version Upload idempotency record was not completed.'' i db) (\<lambda>db.
     Inr (db, ())))"
subsection \<open>What a commit does\<close>

lemma complete_pending_Inr:
  "complete_pending e i k db = Inr db' \<longleftrightarrow>
    length (filter (pending_with_id i) (idempotency_records db)) = 1
    \<and> db' = db\<lparr>idempotency_records :=
        update_where (pending_with_id i) (\<lambda>row. row\<lparr>idem_completion := Some k\<rparr>) (idempotency_records db)\<rparr>"
  by (auto simp: complete_pending_def)

definition completion_for :: "evidence_sealing \<Rightarrow> time \<Rightarrow> 'b CompleteIdempotencyInput_scheme \<Rightarrow> completion" where
  "completion_for ev now i = (case ev of (seal, nonce, c) \<Rightarrow>
     completion_of seal nonce c now (ci_requestHash i) (ci_responseStatus i) (ci_responseBody i))"

definition completed_records ::
  "evidence_sealing \<Rightarrow> time \<Rightarrow> 'b CompleteIdempotencyInput_scheme \<Rightarrow> idempotency_row list \<Rightarrow> idempotency_row list" where
  "completed_records ev now i t =
     update_where (pending_with_id (ci_idempotencyRecordId i)) (\<lambda>row. row\<lparr>idem_completion := Some (completion_for ev now i)\<rparr>) t"

definition claim_is_pending :: "js_string \<Rightarrow> 'x artifact_db_scheme \<Rightarrow> bool" where
  "claim_is_pending i db \<longleftrightarrow> length (filter (pending_with_id i) (idempotency_records db)) = 1"

lemma complete_idempotency_Inr:
  "complete_idempotency ev now e i db = Inr db' \<longleftrightarrow>
    claim_is_pending (ci_idempotencyRecordId i) db
    \<and> db' = db\<lparr>idempotency_records := completed_records ev now i (idempotency_records db)\<rparr>"
  by (auto simp: complete_idempotency_def complete_pending_Inr claim_is_pending_def completed_records_def
      completion_for_def split: prod.splits)

text \<open>The rows an accepted upload adds, and when they are admissible.\<close>

definition with_accepted ::
  "evidence_sealing \<Rightarrow> time \<Rightarrow> 'b CommitVersionUploadInput_scheme \<Rightarrow> 'x artifact_db_scheme \<Rightarrow> 'x artifact_db_scheme" where
  "with_accepted ev now i db = db
     \<lparr>upload_sessions := upload_sessions db @ [session_row now i],
      fingerprint_candidates := fingerprint_candidates db @ candidate_rows now i,
      processing_jobs := processing_jobs db @ [job_row now (cv_processingJobId i) (cv_uploadSessionId i) (cv_maxAttempts i)],
      idempotency_records := completed_records ev now i (idempotency_records db)\<rparr>"

definition accepted_admissible ::
  "time \<Rightarrow> 'b CommitVersionUploadInput_scheme \<Rightarrow> 'x artifact_db_scheme \<Rightarrow> bool" where
  "accepted_admissible now i db \<longleftrightarrow>
     list_all upload_session_row_ok (upload_sessions db @ [session_row now i])
     \<and> upload_sessions_unique (upload_sessions db @ [session_row now i])
     \<and> cv_rawFingerprintCandidates i \<noteq> [] \<and> list_all fingerprint_candidate_row_ok (candidate_rows now i)
     \<and> fingerprint_candidates_unique (fingerprint_candidates db @ candidate_rows now i)
     \<and> 0 < cv_maxAttempts i \<and> (\<forall>j \<in> set (processing_jobs db). job_id j \<noteq> cv_processingJobId i)
     \<and> unique_on (\<lambda>_. True) job_id (processing_jobs db)
     \<and> claim_is_pending (ci_idempotencyRecordId i) db"

lemma job_row_ok [simp]: "processing_job_row_ok (job_row now j u m) \<longleftrightarrow> 0 < m"
  by (simp add: processing_job_row_ok_def job_row_def)

lemma job_id_job_row [simp]: "job_id (job_row now j u m) = j"
  by (simp add: job_row_def)

lemma commitAcceptedUpload_Inr:
  "commitAcceptedUpload ev now e i db = Inr db' \<longleftrightarrow> accepted_admissible now i db \<and> db' = with_accepted ev now i db"
  by (auto simp: commitAcceptedUpload_def bindR_eq_Inr artifact_statements_Inr insertRawFingerprintCandidates_def
      complete_idempotency_Inr accepted_admissible_def with_accepted_def claim_is_pending_def unique_on_append1)

lemma commitAccepted_Inr:
  "commitAccepted ev now i db = (db', Inr u) \<longleftrightarrow>
    artifact_row_ok (artifact_row now i) \<and> unique_on (\<lambda>_. True) art_id (stored_artifacts db @ [artifact_row now i])
    \<and> accepted_admissible now i db
    \<and> db' = with_accepted ev now i (db\<lparr>stored_artifacts := stored_artifacts db @ [artifact_row now i]\<rparr>)"
  by (auto simp: commitAccepted_def run_tx_eq_Inr bindR_eq_Inr artifact_statements_Inr commitAcceptedUpload_Inr
      accepted_admissible_def claim_is_pending_def)

lemma commitVersionUpload_Inr:
  "commitVersionUpload ev now i db = (db', Inr u) \<longleftrightarrow> accepted_admissible now i db \<and> db' = with_accepted ev now i db"
  by (auto simp: commitVersionUpload_def run_tx_eq_Inr bindR_eq_Inr commitAcceptedUpload_Inr)

definition with_sessions ::
  "(upload_session_row \<Rightarrow> bool) \<Rightarrow> (upload_session_row \<Rightarrow> upload_session_row) \<Rightarrow> 'x artifact_db_scheme \<Rightarrow> 'x artifact_db_scheme" where
  "with_sessions p f db = db\<lparr>upload_sessions := update_where p f (upload_sessions db)\<rparr>"

definition sessions_admissible ::
  "(upload_session_row \<Rightarrow> bool) \<Rightarrow> (upload_session_row \<Rightarrow> upload_session_row) \<Rightarrow> 'x artifact_db_scheme \<Rightarrow> bool" where
  "sessions_admissible p f db \<longleftrightarrow>
     list_all upload_session_row_ok (update_where p f (upload_sessions db))
     \<and> upload_sessions_unique (update_where p f (upload_sessions db)) \<and> length (filter p (upload_sessions db)) = 1"

lemma commitReplacement_Inr:
  "commitReplacement ev now i db = (db', Inr u) \<longleftrightarrow>
    (let p = replace_eligible (cr_previousUploadSessionId i) (cv_artifactId i) in
     sessions_admissible p (supersede now) db \<and> accepted_admissible now i (with_sessions p (supersede now) db)
     \<and> db' = with_accepted ev now i (with_sessions p (supersede now) db))"
  by (auto simp: commitReplacement_def run_tx_eq_Inr bindR_eq_Inr update_upload_sessions_Inr commitAcceptedUpload_Inr
      sessions_admissible_def with_sessions_def Let_def)

definition with_retried :: "evidence_sealing \<Rightarrow> time \<Rightarrow> QueueManualRetryInput \<Rightarrow> 'x artifact_db_scheme \<Rightarrow> 'x artifact_db_scheme" where
  "with_retried ev now i db =
     (with_sessions (retry_eligible (qr_uploadSessionId i)) (accept_again now) db)
       \<lparr>processing_jobs := processing_jobs db @ [job_row now (qr_processingJobId i) (qr_uploadSessionId i) (qr_maxAttempts i)],
        idempotency_records := completed_records ev now i (idempotency_records db)\<rparr>"

lemma queueManualRetry_Inr:
  "queueManualRetry ev now i db = (db', Inr u) \<longleftrightarrow>
    sessions_admissible (retry_eligible (qr_uploadSessionId i)) (accept_again now) db
    \<and> 0 < qr_maxAttempts i \<and> (\<forall>j \<in> set (processing_jobs db). job_id j \<noteq> qr_processingJobId i)
    \<and> unique_on (\<lambda>_. True) job_id (processing_jobs db) \<and> claim_is_pending (ci_idempotencyRecordId i) db
    \<and> db' = with_retried ev now i db"
  by (auto simp: queueManualRetry_def run_tx_eq_Inr bindR_eq_Inr artifact_statements_Inr complete_idempotency_Inr
      sessions_admissible_def with_sessions_def with_retried_def claim_is_pending_def unique_on_append1)

lemma commit_Inl:
  "commitAccepted ev now ia db = (db', Inl e) \<Longrightarrow> db' = db"
  "queueManualRetry ev now iq db = (db', Inl e) \<Longrightarrow> db' = db"
  "commitReplacement ev now ir db = (db', Inl e) \<Longrightarrow> db' = db"
  "commitVersionUpload ev now iv db = (db', Inl e) \<Longrightarrow> db' = db"
  by (simp_all add: commitAccepted_def queueManualRetry_def commitReplacement_def commitVersionUpload_def run_tx_eq_Inl)

subsection \<open>The constraints are kept\<close>

lemma tx_keeps:
  assumes "P db" and "\<And>db' e. tx = (db', Inl e) \<Longrightarrow> db' = db" and "\<And>db' u. tx = (db', Inr u) \<Longrightarrow> P db'"
  shows "P (fst tx)"
proof (cases tx)
  case (Pair db' r)
  then show ?thesis using assms by (cases r) auto
qed

lemma records_unique_update:
  assumes "idempotency_records_unique t" "\<And>r. p r \<Longrightarrow> idem_id (f r) = idem_id r \<and> scope_of (f r) = scope_of r"
  shows "idempotency_records_unique (update_where p f t)"
  using assms by (simp add: idempotency_records_unique_def unique_on_def map_update_where_same)

lemma completed_records_unique:
  "idempotency_records_unique t \<Longrightarrow> idempotency_records_unique (completed_records ev now i t)"
  unfolding completed_records_def by (rule records_unique_update) (simp_all add: scope_of_def)

lemma with_accepted_ok:
  assumes "artifact_db_ok db" "accepted_admissible now i db"
  shows "artifact_db_ok (with_accepted ev now i db)"
  using assms by (simp add: artifact_db_ok_def accepted_admissible_def with_accepted_def unique_on_append1
      completed_records_unique)

lemma with_artifact_ok:
  "artifact_db_ok db \<Longrightarrow> artifact_row_ok r \<Longrightarrow> unique_on (\<lambda>_. True) art_id (stored_artifacts db @ [r])
    \<Longrightarrow> artifact_db_ok (db\<lparr>stored_artifacts := stored_artifacts db @ [r]\<rparr>)"
  by (simp add: artifact_db_ok_def)

lemma accepted_admissible_artifacts [simp]:
  "accepted_admissible now i (db\<lparr>stored_artifacts := t\<rparr>) = accepted_admissible now i db"
  by (simp add: accepted_admissible_def claim_is_pending_def)

lemma with_sessions_ok:
  "artifact_db_ok db \<Longrightarrow> sessions_admissible p f db \<Longrightarrow> artifact_db_ok (with_sessions p f db)"
  by (simp add: artifact_db_ok_def sessions_admissible_def with_sessions_def)

lemma with_retried_ok:
  assumes "artifact_db_ok db" "sessions_admissible (retry_eligible (qr_uploadSessionId i)) (accept_again now) db"
    "0 < qr_maxAttempts i" "\<forall>j \<in> set (processing_jobs db). job_id j \<noteq> qr_processingJobId i"
  shows "artifact_db_ok (with_retried ev now i db)"
  using with_sessions_ok [OF assms(1,2)] assms(1,3,4)
  by (simp add: artifact_db_ok_def with_retried_def with_sessions_def unique_on_append1 completed_records_unique)

subsection \<open>Entries after a claim and after a commit\<close>

lemma entry_at_cong: "idempotency_records db = idempotency_records db' \<Longrightarrow> entry_at db sc = entry_at db' sc"
  by (simp add: entry_at_def)

lemma claims_valid_cong: "idempotency_records db = idempotency_records db' \<Longrightarrow> claims_valid db = claims_valid db'"
  by (simp add: claims_valid_def)

lemma entry_at_records [simp]:
  "entry_at (with_accepted ev now i db) = entry_at (db\<lparr>idempotency_records := completed_records ev now i (idempotency_records db)\<rparr>)"
  "entry_at (with_retried ev now j db) = entry_at (db\<lparr>idempotency_records := completed_records ev now j (idempotency_records db)\<rparr>)"
  "entry_at (with_sessions p f db) = entry_at db"
  by (rule ext, simp add: entry_at_def with_accepted_def with_retried_def with_sessions_def)+

lemma pending_claim:
  assumes "claims_valid db" "entry_at db sc = Some (i, None)"
  shows "claim_is_pending i db"
  unfolding claim_is_pending_def
  using pending_row_unique [OF assms(1), of i] exI [where P = "\<lambda>sc. entry_at db sc = _", OF assms(2)]
  by (simp only: simp_thms if_True)

lemma completed_entry:
  assumes "claims_valid db" "entry_at db sc = Some (ci_idempotencyRecordId i, None)"
  shows "entry_at (db\<lparr>idempotency_records := completed_records ev now i (idempotency_records db)\<rparr>) sc
      = Some (ci_idempotencyRecordId i, Some (completion_for ev now i))"
    and "claims_valid (db\<lparr>idempotency_records := completed_records ev now i (idempotency_records db)\<rparr>)"
proof -
  have "length (filter (pending_with_id (ci_idempotencyRecordId i)) (idempotency_records db)) = 1"
    using pending_claim [OF assms] by (simp add: claim_is_pending_def)
  then have "complete_pending [] (ci_idempotencyRecordId i) (completion_for ev now i) db
      = Inr (db\<lparr>idempotency_records := completed_records ev now i (idempotency_records db)\<rparr>)"
    by (simp add: complete_pending_Inr completed_records_def)
  from complete_entry_at [OF assms(1) this] assms(2) show
    "entry_at (db\<lparr>idempotency_records := completed_records ev now i (idempotency_records db)\<rparr>) sc
      = Some (ci_idempotencyRecordId i, Some (completion_for ev now i))"
    "claims_valid (db\<lparr>idempotency_records := completed_records ev now i (idempotency_records db)\<rparr>)"
    by simp_all
qed

lemma claims_valid_records [simp]:
  "claims_valid (with_accepted ev now i db) = claims_valid (db\<lparr>idempotency_records := completed_records ev now i (idempotency_records db)\<rparr>)"
  "claims_valid (with_retried ev now j db) = claims_valid (db\<lparr>idempotency_records := completed_records ev now j (idempotency_records db)\<rparr>)"
  "claims_valid (with_sessions p f db) = claims_valid db"
  by (simp_all add: claims_valid_def with_accepted_def with_retried_def with_sessions_def)

text \<open>The stored completion of a key answers every later claim of it.\<close>

lemma claim_answered:
  assumes "claims_valid db" "cl_id i \<notin> idem_id ` set (idempotency_records db)"
    and "entry_at db (claim_scope i) = Some (j, Some k)" "requestHash_of unseal c (Some k) = Inr (Some h)"
  obtains r where "claimPending unseal c now i db = (db, Inr (Existing r))" "ir_state r = Idem_completed"
    "ir_requestHash r = Some h" "ir_responseBody r = Some (cpl_responseBody k)"
proof -
  obtain acquired db' where ins: "insert_idempotency_do_nothing (claim_row now i) db = (acquired, db')" by fastforce
  have "\<not> acquired"
    using insert_do_nothing_entry [OF assms(1) _ _ ins] assms(2,3) fresh_entry [OF assms(1)] by simp
  then have db': "db' = db" using ins by (auto simp: insert_idempotency_do_nothing_def split: if_splits)
  obtain row where row: "row_where (\<lambda>r. scope_of r = claim_scope i) (idempotency_records db) = Some row"
    "idem_completion row = Some k"
    using assms(3) by (auto simp: entry_at_def entry_of_row_def)
  show ?thesis
    using that ins db' \<open>\<not> acquired\<close> row assms(4)
    by (simp add: claimPending_def findIdempotency_def idempotencyRecord_def)
qed

lemma claim_pending_elsewhere:
  assumes "claims_valid db" "cl_id i \<notin> idem_id ` set (idempotency_records db)"
    and "entry_at db (claim_scope i) = Some (j, None)"
  obtains r where "claimPending unseal c now i db = (db, Inr (Existing r))" "ir_state r = Idem_pending"
proof -
  obtain acquired db' where ins: "insert_idempotency_do_nothing (claim_row now i) db = (acquired, db')" by fastforce
  have "\<not> acquired"
    using insert_do_nothing_entry [OF assms(1) _ _ ins] assms(2,3) fresh_entry [OF assms(1)] by simp
  then have db': "db' = db" using ins by (auto simp: insert_idempotency_do_nothing_def split: if_splits)
  obtain row where row: "row_where (\<lambda>r. scope_of r = claim_scope i) (idempotency_records db) = Some row"
    "idem_completion row = None"
    using assms(3) by (auto simp: entry_at_def entry_of_row_def)
  show ?thesis
    using that ins db' \<open>\<not> acquired\<close> row
    by (simp add: claimPending_def findIdempotency_def idempotencyRecord_def requestHash_of_def)
qed

lemma claim_free:
  assumes "claims_valid db" "cl_id i \<notin> idem_id ` set (idempotency_records db)" "entry_at db (claim_scope i) = None"
  obtains r where
    "claimPending unseal c now i db = (db\<lparr>idempotency_records := idempotency_records db @ [claim_row now i]\<rparr>, Inr (Acquired r))"
    "ir_id r = cl_id i"
    "claims_valid (db\<lparr>idempotency_records := idempotency_records db @ [claim_row now i]\<rparr>)"
    "entry_at (db\<lparr>idempotency_records := idempotency_records db @ [claim_row now i]\<rparr>) (claim_scope i) = Some (cl_id i, None)"
proof -
  obtain acquired db' where ins: "insert_idempotency_do_nothing (claim_row now i) db = (acquired, db')" by fastforce
  have spec: "claims_valid db'" "acquired" "entry_at db' (claim_scope i) = Some (cl_id i, None)"
    using insert_do_nothing_entry [OF assms(1) _ _ ins] assms(2,3) fresh_entry [OF assms(1)] by simp_all
  then have "db' = db\<lparr>idempotency_records := idempotency_records db @ [claim_row now i]\<rparr>"
    using ins by (auto simp: insert_idempotency_do_nothing_def split: if_splits)
  then show ?thesis
    using that spec ins by (simp add: claimPending_def idempotencyRecord_def requestHash_of_def Let_def)
qed
subsection \<open>Examples\<close>

definition example_commit :: CommitVersionUploadInput where
  "example_commit = \<lparr>ci_idempotencyRecordId = ''idem_1'', ci_requestHash = ''abc'', ci_responseStatus = 202,
     ci_responseBody = JObj [], cv_artifactId = ''artifact_1'', cv_ownerUserId = ''u1'', cv_uploadSessionId = ''upload_1'',
     cv_policy = \<lparr>pol_revision = ''1'', pol_archiveSizeBytes = 10, pol_expandedSizeBytes = 100, pol_fileCount = 5,
       pol_singleFileSizeBytes = 50, pol_formats = []\<rparr>,
     cv_rawObjectKey = ''raw/artifact_1/upload_1.zip'',
     cv_rawFingerprintCandidates = [\<lparr>rf_keyRevision = ''1'', rf_fingerprint = replicate 64 CHR ''c''\<rparr>],
     cv_processingRevision = ''p1'', cv_contentIdentityRevision = ''c1'', cv_rawSizeBytes = 3,
     cv_requestedEntry = None, cv_processingJobId = ''job_1'', cv_maxAttempts = 3\<rparr>"

definition example_evidence :: evidence_sealing where
  "example_evidence = (example_seal, replicate 12 0, example_cipher example_new_key None)"

lemma claimed_db_ok: "artifact_db_ok claimed_db"
  by (simp add: artifact_db_ok_def claimed_db_def empty_artifact_db_def unique_on_def upload_sessions_unique_def
      fingerprint_candidates_unique_def upload_policies_unique_def policy_formats_unique_def artifact_versions_unique_def
      thumbnail_jobs_unique_def publications_unique_def idempotency_records_unique_def)

lemma example_commit_done:
  "commitVersionUpload example_evidence 5 example_commit claimed_db = (with_accepted example_evidence 5 example_commit claimed_db, Inr ())"
  by (subst commitVersionUpload_Inr)
    (simp add: accepted_admissible_def claimed_db_def empty_artifact_db_def example_commit_def session_row_def candidate_rows_def
      upload_session_row_ok_def policy_snapshot_ok_def upload_sessions_unique_def unique_on_def fingerprint_candidate_row_ok_def
      hex64_def list_all_iff fingerprint_candidates_unique_def claim_is_pending_def pending_with_id_def example_claim_def)


end
