(* ===== verification/Artifact_Intake.thy ===== *)
theory Artifact_Intake
  imports Artifact_Commits
begin

text \<open>
  The creation of an artifact from an upload,
  \<open>api/src/application/artifacts/artifact-intake.ts\<close>, over the repositories and a storage
  given by its two operations. A promise handed in is the value it settles to; which of
  several rejections of \<open>Promise.all\<close> comes first is the parameter \<open>pick\<close>; random ids, the
  clock and the digests are parameters. The result also tells whether the promise of the
  requested entry was ever awaited: a rejected promise nobody awaits is an unhandled
  rejection, which ends the process of the runtime.
\<close>

subsection \<open>What the services share\<close>

datatype 'c service_error =
    Refused 'c
  | Storage_failed storage_error
  | Repository_failed repository_error
  | Fingerprints_failed fingerprint_error
  | Request_failed js_string
  | Unexpected js_string

record 's raw_storage =
  st_writeRawZip :: "ObjectWrite \<Rightarrow> 's \<Rightarrow> 's \<times> (storage_error + RawZipWriteResult)"
  st_deleteObject :: "js_string \<Rightarrow> 's \<Rightarrow> 's \<times> (storage_error + unit)"

text \<open>The options of a service and the parameters of the model.\<close>

record 's service_options =
  so_storage :: "'s raw_storage"
  so_maxProcessingAttempts :: int
  so_rawFingerprints :: fingerprint_keys
  so_processingRevision :: js_string
  so_contentIdentityRevision :: js_string
  so_sha256 :: "byte list \<Rightarrow> js_string"
  so_hmac :: "js_string \<Rightarrow> js_string \<Rightarrow> js_string"
  so_evidence :: evidence_sealing
  so_unseal :: unsealing
  so_now :: time

record random_ids =
  rid_record :: js_string
  rid_artifact :: js_string
  rid_upload :: js_string
  rid_job :: js_string

definition new_recordId :: "random_ids \<Rightarrow> js_string" where
  "new_recordId ids = ''idem_'' @ rid_record ids"

definition new_artifactId :: "random_ids \<Rightarrow> js_string" where
  "new_artifactId ids = ''artifact_'' @ rid_artifact ids"

definition new_uploadSessionId :: "random_ids \<Rightarrow> js_string" where
  "new_uploadSessionId ids = ''upload_'' @ rid_upload ids"

definition new_jobId :: "random_ids \<Rightarrow> js_string" where
  "new_jobId ids = ''job_'' @ rid_job ids"

definition text_hash :: "'s service_options \<Rightarrow> js_string \<Rightarrow> js_string" where
  "text_hash opt value = so_sha256 opt (utf8_bytes value)"

definition evidence_cipher_of :: "'s service_options \<Rightarrow> evidence_cipher" where
  "evidence_cipher_of opt = snd (snd (so_evidence opt))"

definition claim_in ::
  "'s service_options \<Rightarrow> ClaimIdempotencyInput \<Rightarrow> 'x artifact_db_scheme
    \<Rightarrow> 'x artifact_db_scheme \<times> (repository_error + idempotency_claim)" where
  "claim_in opt = claimPending (so_unseal opt) (evidence_cipher_of opt) (so_now opt)"

definition releasing :: "js_string \<Rightarrow> 'x artifact_db_scheme \<times> 's \<Rightarrow> 'x artifact_db_scheme \<times> 's" where
  "releasing i s = (releasePending i (fst s), snd s)"

definition discarding ::
  "'s service_options \<Rightarrow> js_string \<Rightarrow> 'x artifact_db_scheme \<times> 's \<Rightarrow> 'x artifact_db_scheme \<times> 's" where
  "discarding opt key s = (fst s, fst (discardUncommittedRawObject (st_deleteObject (so_storage opt) key) (snd s)))"

definition hash_body ::
  "'s service_options \<Rightarrow> 'c \<Rightarrow> ObjectBody \<Rightarrow> int \<Rightarrow> 'c service_error + nat \<times> js_string" where
  "hash_body opt tooLarge body maxBytes =
     (case hashUploadBody (so_sha256 opt) body maxBytes of
        Inl Too_large \<Rightarrow> Inl (Refused tooLarge)
      | Inl (Source_failed e) \<Rightarrow> Inl (Request_failed e)
      | Inr r \<Rightarrow> Inr r)"

definition entry_of :: "'c \<Rightarrow> js_string + js_string option \<Rightarrow> 'c service_error + js_string option" where
  "entry_of invalid requestedEntry =
     (case requestedEntry of
        Inl e \<Rightarrow> Inl (Request_failed e)
      | Inr value \<Rightarrow> (case normalizeRequestedEntry value of
            Inl Requested_entry_invalid \<Rightarrow> Inl (Refused invalid) | Inr e \<Rightarrow> Inr e))"

text \<open>\<open>Promise.all\<close> on values of three types: all values, or one of the rejections.\<close>

definition all_three ::
  "('e list \<Rightarrow> 'e) \<Rightarrow> 'e + 'a \<Rightarrow> 'e + 'b \<Rightarrow> 'e + 'c \<Rightarrow> 'e + 'a \<times> 'b \<times> 'c" where
  "all_three pick a b c =
     (case (a, b, c) of
        (Inr x, Inr y, Inr z) \<Rightarrow> Inr (x, y, z)
      | _ \<Rightarrow> Inl (pick ((case a of Inl e \<Rightarrow> [e] | _ \<Rightarrow> []) @ (case b of Inl e \<Rightarrow> [e] | _ \<Rightarrow> [])
               @ (case c of Inl e \<Rightarrow> [e] | _ \<Rightarrow> []))))"

definition accepted_response :: "js_string \<Rightarrow> js_string \<Rightarrow> json" where
  "accepted_response artifactId uploadSessionId =
     JObj [(''artifactId'', JStr artifactId), (''uploadSessionId'', JStr uploadSessionId), (''processingState'', JStr ''accepted'')]"

definition completedResponse :: "json option \<Rightarrow> 'c service_error + json" where
  "completedResponse value =
     (case value of None \<Rightarrow> Inl (Unexpected ''Completed idempotency record has no response body.'') | Some v \<Rightarrow> Inr v)"

definition key_invalid :: "js_string \<Rightarrow> bool" where
  "key_invalid key \<longleftrightarrow> js_length (js_trim key) < 1 \<or> 255 < js_length key"

definition raw_key :: "js_string \<Rightarrow> js_string \<Rightarrow> js_string" where
  "raw_key artifactId uploadSessionId = ''raw/'' @ artifactId @ ''/'' @ uploadSessionId @ ''.zip''"

subsection \<open>Creation\<close>

datatype ArtifactIntakeErrorCode =
    Invalid_artifact_name
  | Invalid_requested_entry
  | Invalid_idempotency_key
  | Operation_in_progress
  | Idempotency_conflict
  | Archive_too_large

datatype input_name = Name_now js_string | Name_later "js_string + js_string"

record CreateArtifactInput =
  cai_ownerUserId :: js_string
  cai_idempotencyKey :: js_string
  cai_name :: input_name
  cai_requestedEntry :: "js_string + js_string option"
  cai_body :: ObjectBody
  cai_policy :: UploadPolicySnapshot
  cai_completed :: "js_string + unit"

definition artifactName :: "js_string \<Rightarrow> ArtifactIntakeErrorCode service_error + js_string" where
  "artifactName value =
     (let name = js_trim value in
      if js_length name < 1 \<or> 120 < js_length name then Inl (Refused Invalid_artifact_name) else Inr name)"

definition inputHash :: "'s service_options \<Rightarrow> js_string \<Rightarrow> js_string \<Rightarrow> js_string option \<Rightarrow> js_string" where
  "inputHash opt name zipSha256 requestedEntry =
     text_hash opt (stringify (JArr [JStr name, JStr zipSha256, json_option JStr requestedEntry]))"

definition name_promise :: "input_name \<Rightarrow> ArtifactIntakeErrorCode service_error + js_string" where
  "name_promise n =
     (case n of
        Name_now s \<Rightarrow> artifactName s
      | Name_later (Inl e) \<Rightarrow> Inl (Request_failed e)
      | Name_later (Inr s) \<Rightarrow> artifactName s)"

definition create_claim :: "'s service_options \<Rightarrow> random_ids \<Rightarrow> CreateArtifactInput \<Rightarrow> ClaimIdempotencyInput" where
  "create_claim opt ids input =
     \<lparr>cl_id = new_recordId ids, cl_ownerUserId = cai_ownerUserId input, cl_operation = Create_artifact,
      cl_targetResourceId = None, cl_key = cai_idempotencyKey input,
      cl_provisionalRequestHash = text_hash opt (case cai_name input of
          Name_now s \<Rightarrow> (case artifactName s of Inr n \<Rightarrow> n | Inl _ \<Rightarrow> ''pending_name'')
        | Name_later _ \<Rightarrow> ''pending_name'')\<rparr>"

text \<open>A key that was claimed before: the stored answer, if the input is the same.\<close>

definition create_replay ::
  "'s service_options \<Rightarrow> (ArtifactIntakeErrorCode service_error list \<Rightarrow> ArtifactIntakeErrorCode service_error)
    \<Rightarrow> CreateArtifactInput \<Rightarrow> IdempotencyRecord \<Rightarrow> ArtifactIntakeErrorCode service_error + json" where
  "create_replay opt pick input r =
     bindR (all_three pick (name_promise (cai_name input))
              (hash_body opt Archive_too_large (cai_body input) (pol_archiveSizeBytes (cai_policy input)))
              (entry_of Invalid_requested_entry (cai_requestedEntry input))) (\<lambda>(name, replay, requestedEntry).
     bindR (case cai_completed input of Inl e \<Rightarrow> Inl (Request_failed e) | Inr u \<Rightarrow> Inr u) (\<lambda>_.
     if ir_requestHash r \<noteq> Some (inputHash opt name (snd replay) requestedEntry)
     then Inl (Refused Idempotency_conflict) else completedResponse (ir_responseBody r)))"

definition accepted_input ::
  "'s service_options \<Rightarrow> random_ids \<Rightarrow> CreateArtifactInput \<Rightarrow> js_string \<Rightarrow> js_string \<Rightarrow> RawZipWriteResult
    \<Rightarrow> js_string option \<Rightarrow> RawFingerprintCandidate list \<Rightarrow> CommitAcceptedArtifactInput" where
  "accepted_input opt ids input claimId name raw requestedEntry candidates =
     (let artifactId = new_artifactId ids; uploadSessionId = new_uploadSessionId ids in
     \<lparr>ci_idempotencyRecordId = claimId, ci_requestHash = inputHash opt name (rz_sha256 raw) requestedEntry,
      ci_responseStatus = 202, ci_responseBody = accepted_response artifactId uploadSessionId,
      cv_artifactId = artifactId, cv_ownerUserId = cai_ownerUserId input, cv_uploadSessionId = uploadSessionId,
      cv_policy = cai_policy input, cv_rawObjectKey = raw_key artifactId uploadSessionId,
      cv_rawFingerprintCandidates = candidates, cv_processingRevision = so_processingRevision opt,
      cv_contentIdentityRevision = so_contentIdentityRevision opt, cv_rawSizeBytes = int (rz_sizeBytes raw),
      cv_requestedEntry = requestedEntry, cv_processingJobId = new_jobId ids,
      cv_maxAttempts = so_maxProcessingAttempts opt, ca_name = name\<rparr>)"

text \<open>The commit, the digest check of the fingerprints included in its \<open>try\<close>.\<close>

definition create_commit ::
  "'s service_options \<Rightarrow> random_ids \<Rightarrow> CreateArtifactInput \<Rightarrow> js_string \<Rightarrow> js_string \<Rightarrow> RawZipWriteResult
    \<Rightarrow> js_string option \<Rightarrow> 'x artifact_db_scheme \<times> 's
    \<Rightarrow> ('x artifact_db_scheme \<times> 's) \<times> (ArtifactIntakeErrorCode service_error + json)" where
  "create_commit opt ids input claimId name raw requestedEntry s =
     (let artifactId = new_artifactId ids; uploadSessionId = new_uploadSessionId ids;
          undo = (\<lambda>s. releasing claimId (discarding opt (raw_key artifactId uploadSessionId) s)) in
      case create_candidates (so_hmac opt) (cai_ownerUserId input) (rz_sha256 raw) (so_rawFingerprints opt) of
        Inl e \<Rightarrow> (undo s, Inl (Fingerprints_failed e))
      | Inr candidates \<Rightarrow>
          (case commitAccepted (so_evidence opt) (so_now opt)
                  (accepted_input opt ids input claimId name raw requestedEntry candidates) (fst s) of
             (db, Inl e) \<Rightarrow> (undo (db, snd s), Inl (Repository_failed e))
           | (db, Inr _) \<Rightarrow> ((db, snd s), Inr (accepted_response artifactId uploadSessionId))))"

text \<open>
  \<open>Promise.allSettled\<close> over the name, the write and the entry, and the checks after it in
  the order of the code.
\<close>

definition create_upload ::
  "'s service_options \<Rightarrow> random_ids \<Rightarrow> CreateArtifactInput \<Rightarrow> js_string \<Rightarrow> 'x artifact_db_scheme \<times> 's
    \<Rightarrow> ('x artifact_db_scheme \<times> 's) \<times> (ArtifactIntakeErrorCode service_error + json)" where
  "create_upload opt ids input claimId s =
     (let key = raw_key (new_artifactId ids) (new_uploadSessionId ids);
          (objects, rawResult) = st_writeRawZip (so_storage opt)
            \<lparr>ow_key = key, ow_body = cai_body input, ow_contentType = Some ''application/zip''\<rparr> (snd s);
          s = (fst s, objects) in
      case name_promise (cai_name input) of
        Inl e \<Rightarrow>
          (releasing claimId (case rawResult of Inr _ \<Rightarrow> discarding opt key s | Inl _ \<Rightarrow> s), Inl e)
      | Inr name \<Rightarrow>
      case rawResult of
        Inl e \<Rightarrow> (releasing claimId s, Inl (Storage_failed e))
      | Inr raw \<Rightarrow>
      case entry_of Invalid_requested_entry (cai_requestedEntry input) of
        Inl e \<Rightarrow> (releasing claimId (discarding opt key s), Inl e)
      | Inr requestedEntry \<Rightarrow>
      case cai_completed input of
        Inl e \<Rightarrow> (releasing claimId (discarding opt key s), Inl (Request_failed e))
      | Inr _ \<Rightarrow>
      if pol_archiveSizeBytes (cai_policy input) < int (rz_sizeBytes raw)
      then (releasing claimId (discarding opt key s), Inl (Refused Archive_too_large))
      else create_commit opt ids input claimId name raw requestedEntry s)"

text \<open>
  \<open>create\<close>. The flag is whether the entry promise is awaited on the path taken.
\<close>

definition create_artifact ::
  "'s service_options \<Rightarrow> (ArtifactIntakeErrorCode service_error list \<Rightarrow> ArtifactIntakeErrorCode service_error)
    \<Rightarrow> random_ids \<Rightarrow> CreateArtifactInput \<Rightarrow> 'x artifact_db_scheme \<times> 's
    \<Rightarrow> ('x artifact_db_scheme \<times> 's) \<times> (ArtifactIntakeErrorCode service_error + json) \<times> bool" where
  "create_artifact opt pick ids input s =
     (case (case cai_name input of Name_now n \<Rightarrow> bindR (artifactName n) (\<lambda>_. Inr ()) | Name_later _ \<Rightarrow> Inr ()) of
        Inl e \<Rightarrow> (s, Inl e, True)
      | Inr _ \<Rightarrow>
      if key_invalid (cai_idempotencyKey input) then (s, Inl (Refused Invalid_idempotency_key), False)
      else
      case claim_in opt (create_claim opt ids input) (fst s) of
        (db, Inl e) \<Rightarrow> ((db, snd s), Inl (Repository_failed e), False)
      | (db, Inr (Existing r)) \<Rightarrow>
          if ir_state r = Idem_pending then ((db, snd s), Inl (Refused Operation_in_progress), False)
          else ((db, snd s), create_replay opt pick input r, True)
      | (db, Inr (Acquired r)) \<Rightarrow>
          (case create_upload opt ids input (ir_id r) (db, snd s) of (s', result) \<Rightarrow> (s', result, True)))"
subsection \<open>Claims taken and given back\<close>

lemma claim_in_cases:
  assumes "claim_in opt i db = (db', r)"
  obtains (acquired) q where "r = Inr (Acquired q)" "ir_id q = cl_id i"
      "db' = db\<lparr>idempotency_records := idempotency_records db @ [claim_row (so_now opt) i]\<rparr>"
      "idempotency_records_unique (idempotency_records db @ [claim_row (so_now opt) i])"
  | (other) "db' = db" "\<And>q. r \<noteq> Inr (Acquired q)"
      "\<not> idempotency_records_unique (idempotency_records db @ [claim_row (so_now opt) i])"
  using assms
  by (cases "idempotency_records_unique (idempotency_records db @ [claim_row (so_now opt) i])")
    (auto simp: claim_in_def claimPending_def insert_idempotency_do_nothing_def idempotencyRecord_def requestHash_of_def
      Let_def bindR_eq_Inr split: option.splits)

lemma release_own_claim:
  assumes "idem_id row = i" "idem_completion row = None" "i \<notin> idem_id ` set (idempotency_records db)"
  shows "releasePending i (db\<lparr>idempotency_records := idempotency_records db @ [row]\<rparr>) = db"
proof -
  have "filter (\<lambda>r. \<not> pending_with_id i r) (idempotency_records db) = idempotency_records db"
    using assms(3) by (auto simp: pending_with_id_def filter_id_conv)
  then show ?thesis using assms(1,2) by (simp add: releasePending_def pending_with_id_def)
qed

subsection \<open>The storage in memory\<close>

definition memory_storage :: "(byte list \<Rightarrow> js_string) \<Rightarrow> time \<Rightarrow> memory_objects raw_storage" where
  "memory_storage sha256 now =
     \<lparr>st_writeRawZip = writeRawZip sha256 now, st_deleteObject = (\<lambda>key s. (deleteObject key s, Inr ()))\<rparr>"

lemma delete_stored:
  assumes "key \<notin> fst ` set objects"
  shows "deleteObject key (store_object now \<lparr>ow_key = key, ow_body = b, ow_contentType = t\<rparr> bytes objects) = objects"
proof -
  have "AList.delete k (AList.update k v al) = al" if "k \<notin> fst ` set al" for k :: js_string and v :: MemoryObject and al
    using that by (induction al) auto
  then show ?thesis using assms by (simp add: deleteObject_def store_object_def)
qed

lemma memory_write:
  "st_writeRawZip (memory_storage sha256 now) i objects =
    (case collect_body (ow_body i) of
       Inl e \<Rightarrow> (objects, Inl e)
     | Inr bytes \<Rightarrow> (store_object now i bytes objects,
         Inr \<lparr>rz_key = ow_key i, rz_sizeBytes = length bytes, rz_sha256 = sha256 bytes\<rparr>))"
  by (simp add: memory_storage_def writeRawZip_def)

lemma discarding_memory:
  assumes "so_storage opt = memory_storage sha256 now"
  shows "discarding opt key (db, objects) = (db, deleteObject key objects)"
  by (simp add: discarding_def discardUncommittedRawObject_def assms memory_storage_def)

subsection \<open>All or nothing\<close>

lemma create_commit_failed:
  assumes "create_commit opt ids input claimId name raw e s = (s', Inl err)"
  shows "s' = releasing claimId (discarding opt (raw_key (new_artifactId ids) (new_uploadSessionId ids)) s)"
  using assms
  by (cases s) (auto simp: create_commit_def Let_def dest!: commit_Inl(1) split: sum.splits prod.splits)

lemma create_upload_failed:
  assumes "so_storage opt = memory_storage (so_sha256 opt) (so_now opt)"
    and "raw_key (new_artifactId ids) (new_uploadSessionId ids) \<notin> fst ` set objects"
    and "create_upload opt ids input claimId (db, objects) = (s', Inl e)"
  shows "s' = (releasePending claimId db, objects)"
  using assms(3) delete_stored [OF assms(2)]
  by (auto simp: create_upload_def Let_def assms(1) memory_write discarding_memory [OF assms(1)] releasing_def
      dest!: create_commit_failed split: sum.splits if_splits)

text \<open>
  C9: creating an artifact is all or nothing. Whatever fails, the name, the entry, the body,
  its size, the request, the fingerprints or the commit, the tables and the storage are as
  they were before: no claim stays pending, no object stays behind, no row is written. Needed
  are new random ids and the storage that can delete what it has stored.
\<close>

theorem create_all_or_nothing:
  assumes "so_storage opt = memory_storage (so_sha256 opt) (so_now opt)"
    and "raw_key (new_artifactId ids) (new_uploadSessionId ids) \<notin> fst ` set objects"
    and "new_recordId ids \<notin> idem_id ` set (idempotency_records db)"
    and "create_artifact opt pick ids input (db, objects) = (s', Inl e, awaited)"
  shows "s' = (db, objects)"
proof -
  obtain db' r where claim: "claim_in opt (create_claim opt ids input) db = (db', r)" by fastforce
  show ?thesis
    using claim
  proof (cases rule: claim_in_cases)
    case (acquired q)
    have id: "ir_id q = new_recordId ids" using acquired(2) by (simp add: create_claim_def)
    have "releasePending (ir_id q) db' = db"
      unfolding acquired(3) using assms(3) by (intro release_own_claim) (simp_all add: id create_claim_def)
    then show ?thesis
      using assms(4) claim acquired(1)
      by (auto simp: create_artifact_def dest!: create_upload_failed [OF assms(1,2)] split: sum.splits if_splits prod.splits)
  next
    case other
    then show ?thesis
      using assms(4) claim by (auto simp: create_artifact_def split: sum.splits if_splits idempotency_claim.splits)
  qed
qed
subsection \<open>A valid upload is accepted\<close>

text \<open>The ids drawn for a request are new; by the foreign keys no row refers to them.\<close>

definition fresh_ids :: "random_ids \<Rightarrow> 'x artifact_db_scheme \<Rightarrow> bool" where
  "fresh_ids ids db \<longleftrightarrow>
     new_recordId ids \<notin> idem_id ` set (idempotency_records db)
     \<and> (\<forall>a \<in> set (stored_artifacts db). art_id a \<noteq> new_artifactId ids)
     \<and> (\<forall>s \<in> set (upload_sessions db). sess_id s \<noteq> new_uploadSessionId ids \<and> sess_artifactId s \<noteq> new_artifactId ids)
     \<and> (\<forall>c \<in> set (fingerprint_candidates db). cand_uploadSessionId c \<noteq> new_uploadSessionId ids)
     \<and> (\<forall>j \<in> set (processing_jobs db). job_id j \<noteq> new_jobId ids)"

lemma artifactName_row_ok:
  assumes "artifactName v = Inr name"
  shows "blank_trimmed name \<and> 1 \<le> code_points name \<and> code_points name \<le> 120"
  using assms code_points_js_length [of name] js_trim_blank_trimmed [of v]
  by (auto simp: artifactName_def Let_def split: if_splits)

lemma name_promise_row_ok:
  "name_promise n = Inr name \<Longrightarrow> blank_trimmed name \<and> 1 \<le> code_points name \<and> code_points name \<le> 120"
  using artifactName_row_ok by (auto simp: name_promise_def split: input_name.splits sum.splits)

text \<open>An entry that was accepted satisfies the checks of the tables.\<close>

lemma entry_of_contained:
  assumes "entry_of invalid requestedEntry = Inr (Some e)"
  shows "e \<noteq> [] \<and> contained_path e \<and> CHR 0x5C \<notin> set e"
proof -
  obtain v where "normalizeRequestedEntry (Some v) = Inr (Some e)"
    using assms by (auto simp: entry_of_def normalizeRequestedEntry_def split: sum.splits option.splits entry_error.splits)
  then show ?thesis
    by (auto simp: normalizeRequestedEntry_def Let_def contained_path_def includes_char_def list_ex_iff split: if_splits)
qed

lemma candidates_admissible:
  assumes "fingerprint_candidates_unique (fingerprint_candidates db)"
    and "\<forall>c \<in> set (fingerprint_candidates db). cand_uploadSessionId c \<noteq> cv_uploadSessionId i"
    and "distinct (map rf_keyRevision (cv_rawFingerprintCandidates i))"
  shows "fingerprint_candidates_unique (fingerprint_candidates db @ candidate_rows now i)"
  using assms
  by (auto simp: fingerprint_candidates_unique_def unique_on_def candidate_rows_def comp_def distinct_map inj_on_def)

text \<open>The candidates of a request: made by configured keys, as lower-case digests.\<close>

definition good_candidates :: "RawFingerprintCandidate list \<Rightarrow> bool" where
  "good_candidates cs \<longleftrightarrow>
     cs \<noteq> [] \<and> distinct (map rf_keyRevision cs) \<and> list_all (\<lambda>c. hex64 (rf_fingerprint c)) cs"

lemma upload_admissible:
  assumes "artifact_db_ok db" and "policy_snapshot_ok (cv_policy i)"
    and "0 \<le> cv_rawSizeBytes i" "cv_rawSizeBytes i \<le> pol_archiveSizeBytes (cv_policy i)"
    and "\<And>e. cv_requestedEntry i = Some e \<Longrightarrow> e \<noteq> [] \<and> contained_path e \<and> CHR 0x5C \<notin> set e"
  shows "upload_session_row_ok (session_row now i)"
  using assms(2-5) by (auto simp: upload_session_row_ok_def session_row_def split: option.splits)

lemma candidate_rows_ok:
  assumes "good_candidates (cv_rawFingerprintCandidates i)" and "\<And>e. cv_requestedEntry i = Some e \<Longrightarrow> contained_path e"
  shows "list_all fingerprint_candidate_row_ok (candidate_rows now i)"
  using assms
  by (auto simp: good_candidates_def candidate_rows_def list_all_iff fingerprint_candidate_row_ok_def split: option.splits)
definition creation_input ::
  "'s service_options \<Rightarrow> random_ids \<Rightarrow> CreateArtifactInput \<Rightarrow> js_string \<Rightarrow> js_string option \<Rightarrow> byte list
    \<Rightarrow> RawFingerprintCandidate list \<Rightarrow> CommitAcceptedArtifactInput" where
  "creation_input opt ids input name entry bytes cs =
     accepted_input opt ids input (new_recordId ids) name
       \<lparr>rz_key = raw_key (new_artifactId ids) (new_uploadSessionId ids), rz_sizeBytes = length bytes, rz_sha256 = so_sha256 opt bytes\<rparr>
       entry cs"

lemma creation_input_simps [simp]:
  "ci_idempotencyRecordId (creation_input opt ids input name entry bytes cs) = new_recordId ids"
  "cv_artifactId (creation_input opt ids input name entry bytes cs) = new_artifactId ids"
  "cv_uploadSessionId (creation_input opt ids input name entry bytes cs) = new_uploadSessionId ids"
  "cv_policy (creation_input opt ids input name entry bytes cs) = cai_policy input"
  "cv_rawSizeBytes (creation_input opt ids input name entry bytes cs) = int (length bytes)"
  "cv_requestedEntry (creation_input opt ids input name entry bytes cs) = entry"
  "cv_rawFingerprintCandidates (creation_input opt ids input name entry bytes cs) = cs"
  "cv_processingJobId (creation_input opt ids input name entry bytes cs) = new_jobId ids"
  "cv_maxAttempts (creation_input opt ids input name entry bytes cs) = so_maxProcessingAttempts opt"
  "ca_name (creation_input opt ids input name entry bytes cs) = name"
  "ci_requestHash (creation_input opt ids input name entry bytes cs) = inputHash opt name (so_sha256 opt bytes) entry"
  "ci_responseBody (creation_input opt ids input name entry bytes cs)
    = accepted_response (new_artifactId ids) (new_uploadSessionId ids)"
  by (simp_all add: creation_input_def accepted_input_def Let_def)

lemma creation_admissible:
  assumes "artifact_db_ok db" "fresh_ids ids db" "claim_is_pending (new_recordId ids) db1"
    and "upload_sessions db1 = upload_sessions db" "fingerprint_candidates db1 = fingerprint_candidates db"
      "processing_jobs db1 = processing_jobs db"
    and "policy_snapshot_ok (cai_policy input)" "int (length bytes) \<le> pol_archiveSizeBytes (cai_policy input)"
    and "good_candidates cs" "0 < so_maxProcessingAttempts opt"
    and "\<And>e. entry = Some e \<Longrightarrow> e \<noteq> [] \<and> contained_path e \<and> CHR 0x5C \<notin> set e"
  shows "accepted_admissible now (creation_input opt ids input name entry bytes cs) db1"
proof -
  let ?i = "creation_input opt ids input name entry bytes cs"
  have "upload_session_row_ok (session_row now ?i)"
    using assms(1,7,8,11) by (intro upload_admissible) simp_all
  moreover have "upload_sessions_unique (upload_sessions db @ [session_row now ?i])"
    using assms(1,2) by (auto simp: artifact_db_ok_def upload_sessions_unique_def unique_on_append1 session_row_def fresh_ids_def)
  moreover have "list_all fingerprint_candidate_row_ok (candidate_rows now ?i)"
    using assms(9,11) by (intro candidate_rows_ok) simp_all
  moreover have "fingerprint_candidates_unique (fingerprint_candidates db @ candidate_rows now ?i)"
    using assms(1,2,9) by (intro candidates_admissible) (simp_all add: artifact_db_ok_def fresh_ids_def good_candidates_def)
  ultimately show ?thesis
    using assms by (simp add: accepted_admissible_def artifact_db_ok_def fresh_ids_def good_candidates_def)
qed

lemma valid_upload_result:
  assumes "so_storage opt = memory_storage (so_sha256 opt) (so_now opt)"
    and "artifact_db_ok db" "fresh_ids ids db"
    and "\<not> key_invalid (cai_idempotencyKey input)" "entry_at db (claim_scope (create_claim opt ids input)) = None"
    and "name_promise (cai_name input) = Inr name"
    and "entry_of Invalid_requested_entry (cai_requestedEntry input) = Inr entry" "cai_completed input = Inr ()"
    and "collect_body (cai_body input) = Inr bytes" "int (length bytes) \<le> pol_archiveSizeBytes (cai_policy input)"
    and "policy_snapshot_ok (cai_policy input)" "0 < so_maxProcessingAttempts opt"
    and "create_candidates (so_hmac opt) (cai_ownerUserId input) (so_sha256 opt bytes) (so_rawFingerprints opt) = Inr cs"
    and "good_candidates cs"
  shows "create_artifact opt pick ids input (db, objects) =
    ((with_accepted (so_evidence opt) (so_now opt) (creation_input opt ids input name entry bytes cs)
        (db\<lparr>idempotency_records := idempotency_records db @ [claim_row (so_now opt) (create_claim opt ids input)],
            stored_artifacts := stored_artifacts db @ [artifact_row (so_now opt) (creation_input opt ids input name entry bytes cs)]\<rparr>),
      store_object (so_now opt) \<lparr>ow_key = raw_key (new_artifactId ids) (new_uploadSessionId ids), ow_body = cai_body input,
        ow_contentType = Some ''application/zip''\<rparr> bytes objects),
     Inr (accepted_response (new_artifactId ids) (new_uploadSessionId ids)), True)"
proof -
  let ?i = "creation_input opt ids input name entry bytes cs"
  let ?db1 = "db\<lparr>idempotency_records := idempotency_records db @ [claim_row (so_now opt) (create_claim opt ids input)]\<rparr>"
  have valid: "claims_valid db" using assms(2) by (simp add: artifact_db_ok_def claims_valid_def)
  have fresh: "cl_id (create_claim opt ids input) \<notin> idem_id ` set (idempotency_records db)"
    using assms(3) by (simp add: create_claim_def fresh_ids_def)
  obtain q where q: "claim_in opt (create_claim opt ids input) db = (?db1, Inr (Acquired q))" "ir_id q = new_recordId ids"
    "claims_valid ?db1" "entry_at ?db1 (claim_scope (create_claim opt ids input)) = Some (new_recordId ids, None)"
    using claim_free [OF valid fresh assms(5)] by (metis claim_in_def create_claim_def ClaimIdempotencyInput.select_convs(1))
  have "accepted_admissible (so_now opt) ?i ?db1"
    by (rule creation_admissible [OF assms(2,3) pending_claim [OF q(3,4)]])
      (use assms entry_of_contained [of Invalid_requested_entry "cai_requestedEntry input"] in simp_all)
  moreover have "artifact_row_ok (artifact_row (so_now opt) ?i)"
    using name_promise_row_ok [OF assms(6)] by (simp add: artifact_row_ok_def artifact_row_def)
  moreover have "unique_on (\<lambda>_. True) art_id (stored_artifacts db @ [artifact_row (so_now opt) ?i])"
    using assms(2,3) by (auto simp: artifact_db_ok_def unique_on_append1 artifact_row_def fresh_ids_def)
  ultimately have "commitAccepted (so_evidence opt) (so_now opt) ?i ?db1 =
      (with_accepted (so_evidence opt) (so_now opt) ?i
        (?db1\<lparr>stored_artifacts := stored_artifacts db @ [artifact_row (so_now opt) ?i]\<rparr>), Inr ())"
    by (subst commitAccepted_Inr) simp
  moreover have "(case cai_name input of Name_now n \<Rightarrow> bindR (artifactName n) (\<lambda>_. Inr ()) | Name_later _ \<Rightarrow> Inr ()) = Inr ()"
    using assms(6) by (auto simp: name_promise_def split: input_name.splits)
  ultimately show ?thesis
    using assms(4,6-10,13) q(1,2)
    by (simp add: create_artifact_def create_upload_def assms(1) memory_write create_commit_def Let_def
        creation_input_def [symmetric])
qed

text \<open>
  C13: a valid upload is accepted. With a usable key nobody has claimed, a valid name and
  entry, a body within the limit of a valid policy, fingerprints made of digests, and new
  ids, the creation succeeds: it answers with the new ids, stores the archive under its key,
  and adds exactly one artifact, one accepted session, its fingerprint candidates, one queued
  job and the completed idempotency record.
\<close>

theorem valid_upload_is_accepted:
  assumes "so_storage opt = memory_storage (so_sha256 opt) (so_now opt)"
    and "artifact_db_ok db" "fresh_ids ids db"
    and "\<not> key_invalid (cai_idempotencyKey input)" "entry_at db (claim_scope (create_claim opt ids input)) = None"
    and "name_promise (cai_name input) = Inr name"
    and "entry_of Invalid_requested_entry (cai_requestedEntry input) = Inr entry" "cai_completed input = Inr ()"
    and "collect_body (cai_body input) = Inr bytes" "int (length bytes) \<le> pol_archiveSizeBytes (cai_policy input)"
    and "policy_snapshot_ok (cai_policy input)" "0 < so_maxProcessingAttempts opt"
    and "create_candidates (so_hmac opt) (cai_ownerUserId input) (so_sha256 opt bytes) (so_rawFingerprints opt) = Inr cs"
    and "good_candidates cs"
  shows "create_artifact opt pick ids input (db, objects) =
    ((with_accepted (so_evidence opt) (so_now opt) (creation_input opt ids input name entry bytes cs)
        (db\<lparr>idempotency_records := idempotency_records db @ [claim_row (so_now opt) (create_claim opt ids input)],
            stored_artifacts := stored_artifacts db @ [artifact_row (so_now opt) (creation_input opt ids input name entry bytes cs)]\<rparr>),
      store_object (so_now opt) \<lparr>ow_key = raw_key (new_artifactId ids) (new_uploadSessionId ids), ow_body = cai_body input,
        ow_contentType = Some ''application/zip''\<rparr> bytes objects),
     Inr (accepted_response (new_artifactId ids) (new_uploadSessionId ids)), True)"
  using assms by (rule valid_upload_result)
subsection \<open>Replays\<close>

lemma key_of_claim: "claim_scope (create_claim opt ids input) = (cai_ownerUserId input, Create_artifact, None, cai_idempotencyKey input)"
  by (simp add: claim_scope_def create_claim_def)

text \<open>What a creation that took the key has done to the records.\<close>

lemma created_records:
  assumes "so_storage opt = memory_storage (so_sha256 opt) (so_now opt)"
    and "claims_valid db" "new_recordId ids \<notin> idem_id ` set (idempotency_records db)"
    and "entry_at db (claim_scope (create_claim opt ids input)) = None"
    and "create_artifact opt pick ids input (db, objects) = ((db', objects'), Inr response, awaited)"
  obtains name bytes entry cs where
    "name_promise (cai_name input) = Inr name" "collect_body (cai_body input) = Inr bytes"
    "entry_of Invalid_requested_entry (cai_requestedEntry input) = Inr entry"
    "int (length bytes) \<le> pol_archiveSizeBytes (cai_policy input)"
    "claims_valid db'" "new_recordId ids \<in> idem_id ` set (idempotency_records db')"
    "entry_at db' (claim_scope (create_claim opt ids input)) = Some (new_recordId ids,
       Some (completion_for (so_evidence opt) (so_now opt) (creation_input opt ids input name entry bytes cs)))"
    "response = accepted_response (new_artifactId ids) (new_uploadSessionId ids)"
proof -
  let ?sc = "claim_scope (create_claim opt ids input)"
  let ?db1 = "db\<lparr>idempotency_records := idempotency_records db @ [claim_row (so_now opt) (create_claim opt ids input)]\<rparr>"
  have fresh: "cl_id (create_claim opt ids input) \<notin> idem_id ` set (idempotency_records db)"
    using assms(3) by (simp add: create_claim_def)
  obtain q where q: "claim_in opt (create_claim opt ids input) db = (?db1, Inr (Acquired q))" "ir_id q = new_recordId ids"
    "claims_valid ?db1" "entry_at ?db1 ?sc = Some (new_recordId ids, None)"
    using claim_free [OF assms(2) fresh assms(4)] by (metis claim_in_def create_claim_def ClaimIdempotencyInput.select_convs(1))
  have up: "create_upload opt ids input (new_recordId ids) (?db1, objects) = ((db', objects'), Inr response)"
    using assms(5) q(1,2) by (auto simp: create_artifact_def split: sum.splits if_splits prod.splits)
  obtain name bytes entry cs where parts: "name_promise (cai_name input) = Inr name"
    "collect_body (cai_body input) = Inr bytes"
    "entry_of Invalid_requested_entry (cai_requestedEntry input) = Inr entry"
    "int (length bytes) \<le> pol_archiveSizeBytes (cai_policy input)"
    "response = accepted_response (new_artifactId ids) (new_uploadSessionId ids)"
    and commit: "commitAccepted (so_evidence opt) (so_now opt) (creation_input opt ids input name entry bytes cs) ?db1 = (db', Inr ())"
    using up
    by (auto simp: create_upload_def assms(1) memory_write create_commit_def Let_def creation_input_def
        split: sum.splits if_splits prod.splits)
  let ?i = "creation_input opt ids input name entry bytes cs"
  let ?db2 = "?db1\<lparr>stored_artifacts := stored_artifacts db @ [artifact_row (so_now opt) ?i]\<rparr>"
  have db': "db' = with_accepted (so_evidence opt) (so_now opt) ?i ?db2"
    using commit by (simp add: commitAccepted_Inr)
  have "claims_valid ?db2" "entry_at ?db2 ?sc = Some (ci_idempotencyRecordId ?i, None)"
    using q(3,4) by (simp_all add: claims_valid_def entry_at_def)
  from completed_entry [OF this, of "so_evidence opt" "so_now opt"]
  have e: "entry_at db' ?sc = Some (new_recordId ids, Some (completion_for (so_evidence opt) (so_now opt) ?i))" "claims_valid db'"
    unfolding db' by simp_all
  then have "new_recordId ids \<in> idem_id ` set (idempotency_records db')"
    using fresh_entry [OF e(2)] by blast
  with that parts e show ?thesis by blast
qed

text \<open>
  C3: a key answers its own request again and no other. After a creation that took a free
  key, every later valid request of the owner under that key, whatever its new ids, changes
  nothing: it gets the first response when its name, archive and entry have the same request
  hash, and the conflict otherwise. Needed are an authenticated encryption whose opening
  undoes its sealing and digests in hexadecimal.
\<close>

theorem creation_is_idempotent:
  assumes "so_storage opt = memory_storage (so_sha256 opt) (so_now opt)"
    and "so_evidence opt = (seal, nonce, c)" "sealing_laws seal (so_unseal opt)" "cipher_ok c" "length nonce = NONCE_BYTES"
    and "\<And>b. sha256_hex (so_sha256 opt b)"
    and "claims_valid db" "new_recordId ids \<notin> idem_id ` set (idempotency_records db)"
    and "entry_at db (claim_scope (create_claim opt ids input)) = None"
    and "create_artifact opt pick ids input (db, objects) = ((db', objects'), Inr response, awaited)"
    and "cai_ownerUserId again = cai_ownerUserId input" "cai_idempotencyKey again = cai_idempotencyKey input"
    and "name_promise (cai_name again) = Inr name2"
    and "entry_of Invalid_requested_entry (cai_requestedEntry again) = Inr entry2" "cai_completed again = Inr ()"
    and "collect_body (cai_body again) = Inr bytes2" "int (length bytes2) \<le> pol_archiveSizeBytes (cai_policy again)"
    and "new_recordId ids2 \<notin> idem_id ` set (idempotency_records db')"
    and "name_promise (cai_name input) = Inr name1" "collect_body (cai_body input) = Inr bytes1"
    and "entry_of Invalid_requested_entry (cai_requestedEntry input) = Inr entry1"
  shows "create_artifact opt pick2 ids2 again (db', objects') =
    ((db', objects'),
     (if inputHash opt name2 (so_sha256 opt bytes2) entry2 = inputHash opt name1 (so_sha256 opt bytes1) entry1
      then Inr response else Inl (Refused Idempotency_conflict)), True)"
proof -
  obtain name bytes entry cs where e: "name_promise (cai_name input) = Inr name" "collect_body (cai_body input) = Inr bytes"
    "entry_of Invalid_requested_entry (cai_requestedEntry input) = Inr entry" "claims_valid db'"
    "entry_at db' (claim_scope (create_claim opt ids input)) = Some (new_recordId ids,
       Some (completion_for (so_evidence opt) (so_now opt) (creation_input opt ids input name entry bytes cs)))"
    "response = accepted_response (new_artifactId ids) (new_uploadSessionId ids)"
    using created_records [OF assms(1,7-10)] by metis
  let ?i = "creation_input opt ids input name entry bytes cs"
  let ?k = "completion_for (so_evidence opt) (so_now opt) ?i"
  let ?h = "inputHash opt name (so_sha256 opt bytes) entry"
  have "sha256_hex ?h" using assms(6) by (simp add: inputHash_def text_hash_def)
  then have "ascii ?h" "?h \<noteq> []" by (auto simp: sha256_hex_def lower_hex_def list_all_iff ascii_def)
  then have hash: "requestHash_of (so_unseal opt) c (Some ?k) = Inr (Some ?h)"
    by (intro encrypted_hash [OF assms(3,4,5)]) (simp_all add: ascii_well_formed completion_for_def assms(2) completion_of_def)
  have scope: "claim_scope (create_claim opt ids2 again) = claim_scope (create_claim opt ids input)"
    by (simp add: key_of_claim assms(11,12))
  have "cl_id (create_claim opt ids2 again) \<notin> idem_id ` set (idempotency_records db')"
    using assms(18) by (simp add: create_claim_def)
  then obtain r where r: "claim_in opt (create_claim opt ids2 again) db' = (db', Inr (Existing r))"
    "ir_state r = Idem_completed" "ir_requestHash r = Some ?h" "ir_responseBody r = Some response"
    using claim_answered [OF e(4) _ _ hash, of "create_claim opt ids2 again" "new_recordId ids"] e(5,6) scope assms(2)
    by (auto simp: claim_in_def evidence_cipher_of_def completion_for_def completion_of_def)
  have key: "\<not> key_invalid (cai_idempotencyKey again)"
    using assms(10,12) by (auto simp: create_artifact_def split: sum.splits if_splits)
  have name: "(case cai_name again of Name_now n \<Rightarrow> bindR (artifactName n) (\<lambda>_. Inr ()) | Name_later _ \<Rightarrow> Inr ()) = Inr ()"
    using assms(13) by (auto simp: name_promise_def split: input_name.splits)
  have "hash_body opt Archive_too_large (cai_body again) (pol_archiveSizeBytes (cai_policy again))
      = Inr (length bytes2, so_sha256 opt bytes2)"
    using assms(16,17) by (auto simp: hash_body_def hashUploadBody_def hash_chunks_eq collect_body_def split: option.splits)
  moreover have "name = name1" "bytes = bytes1" "entry = entry1" using assms(19-21) e(1-3) by simp_all
  ultimately show ?thesis
    using r key name assms(13-15)
    by (auto simp: create_artifact_def create_replay_def all_three_def completedResponse_def)
qed

subsection \<open>The entry promise\<close>

text \<open>
  A request that is refused because its key is in progress never awaits the promise of
  its entry. The code attaches handlers to that promise only after the claim, so when the
  route then aborts the upload, the promise is rejected with nobody listening, an unhandled
  rejection. A request that gets past the claim does await it.
\<close>

theorem entry_promise_left_unawaited:
  assumes "claims_valid db" "new_recordId ids \<notin> idem_id ` set (idempotency_records db)"
    and "\<not> key_invalid (cai_idempotencyKey input)" "name_promise (cai_name input) = Inr name"
    and "entry_at db (claim_scope (create_claim opt ids input)) = Some (j, None)"
  shows "create_artifact opt pick ids input (db, objects) = ((db, objects), Inl (Refused Operation_in_progress), False)"
proof -
  have "cl_id (create_claim opt ids input) \<notin> idem_id ` set (idempotency_records db)"
    using assms(2) by (simp add: create_claim_def)
  then obtain r where "claim_in opt (create_claim opt ids input) db = (db, Inr (Existing r))" "ir_state r = Idem_pending"
    using claim_pending_elsewhere [OF assms(1) _ assms(5)] by (metis claim_in_def)
  moreover have "(case cai_name input of Name_now n \<Rightarrow> bindR (artifactName n) (\<lambda>_. Inr ()) | Name_later _ \<Rightarrow> Inr ()) = Inr ()"
    using assms(4) by (auto simp: name_promise_def split: input_name.splits)
  ultimately show ?thesis using assms(3) by (simp add: create_artifact_def)
qed

subsection \<open>Examples\<close>

definition example_sha256 :: "byte list \<Rightarrow> js_string" where
  "example_sha256 bytes = replicate 64 (if 98 \<in> set bytes then CHR ''b'' else CHR ''a'')"

definition example_options :: "memory_objects service_options" where
  "example_options = \<lparr>so_storage = memory_storage example_sha256 5, so_maxProcessingAttempts = 3,
     so_rawFingerprints = example_keys, so_processingRevision = ''p1'', so_contentIdentityRevision = ''c1'',
     so_sha256 = example_sha256, so_hmac = (\<lambda>secret message. replicate 64 CHR ''c''),
     so_evidence = (example_seal, replicate 12 0, example_cipher example_new_key None), so_unseal = example_unseal,
     so_now = 5\<rparr>"

definition example_ids :: "js_string \<Rightarrow> random_ids" where
  "example_ids i = \<lparr>rid_record = i, rid_artifact = i, rid_upload = i, rid_job = i\<rparr>"

definition example_policy :: UploadPolicySnapshot where
  "example_policy = \<lparr>pol_revision = ''1'', pol_archiveSizeBytes = 10, pol_expandedSizeBytes = 100, pol_fileCount = 5,
     pol_singleFileSizeBytes = 50, pol_formats = []\<rparr>"

definition example_creation :: CreateArtifactInput where
  "example_creation = \<lparr>cai_ownerUserId = ''u1'', cai_idempotencyKey = ''key'', cai_name = Name_now '' Demo'',
     cai_requestedEntry = Inr (Some ''a/index.html''), cai_body = \<lparr>ob_chunks = [[1, 2], [3]], ob_error = None\<rparr>,
     cai_policy = example_policy, cai_completed = Inr ()\<rparr>"

lemma example_parts:
  "name_promise (cai_name example_creation) = Inr ''Demo''"
  "entry_of Invalid_requested_entry (cai_requestedEntry example_creation) = Inr (Some ''a/index.html'')"
  "\<not> key_invalid (cai_idempotencyKey example_creation)"
  by code_simp+
lemma example_storage: "so_storage example_options = memory_storage (so_sha256 example_options) (so_now example_options)"
  by (simp add: example_options_def)

lemma example_sealing:
  "so_evidence example_options = (example_seal, replicate 12 0, example_cipher example_new_key None)"
  "sealing_laws example_seal (so_unseal example_options)"
  "sha256_hex (so_sha256 example_options b)"
  using example_laws(1)
  by (simp_all add: example_options_def example_sha256_def sha256_hex_def lower_hex_def list_all_iff)

lemma empty_db_ok:
  "artifact_db_ok empty_artifact_db" "claims_valid empty_artifact_db" "fresh_ids ids empty_artifact_db"
  "entry_at empty_artifact_db sc = None" "idempotency_records empty_artifact_db = []"
  by (simp_all add: artifact_db_ok_def claims_valid_def empty_artifact_db_def unique_on_def upload_sessions_unique_def
      fingerprint_candidates_unique_def upload_policies_unique_def policy_formats_unique_def artifact_versions_unique_def
      thumbnail_jobs_unique_def publications_unique_def idempotency_records_unique_def fresh_ids_def entry_at_def)

definition example_created_candidates :: "RawFingerprintCandidate list" where
  "example_created_candidates = map (\<lambda>k. \<lparr>rf_keyRevision = fk_revision k, rf_fingerprint = replicate 64 CHR ''c''\<rparr>) (fp_keys example_keys)"

lemma example_candidates_made:
  "create_candidates (so_hmac example_options) u (so_sha256 example_options b) (so_rawFingerprints example_options)
    = Inr example_created_candidates"
  "good_candidates example_created_candidates"
  using example_sealing(3) [of b]
  by (simp_all add: create_candidates_def example_created_candidates_def example_options_def good_candidates_def
      example_keys_def hex64_def list_all_iff)

lemmas example_creation_fields = example_creation_def example_policy_def collect_body_def policy_snapshot_ok_def

lemma example_upload:
  "collect_body (cai_body example_creation) = Inr [1, 2, 3]" "cai_completed example_creation = Inr ()"
  "int (length [1, 2, 3 :: byte]) \<le> pol_archiveSizeBytes (cai_policy example_creation)"
  "policy_snapshot_ok (cai_policy example_creation)" "0 < so_maxProcessingAttempts example_options"
  by (simp_all add: example_creation_fields example_options_def)

definition example_run where
  "example_run i input s = create_artifact example_options hd (example_ids i) input s"

lemma example_created:
  obtains s' where "example_run ''1'' example_creation (empty_artifact_db, []) =
    (s', Inr (accepted_response ''artifact_1'' ''upload_1''), True)"
    "idem_id ` set (idempotency_records (fst s')) = {''idem_1''}"
proof -
  have ids: "new_artifactId (example_ids ''1'') = ''artifact_1''" "new_uploadSessionId (example_ids ''1'') = ''upload_1''"
    "new_recordId (example_ids ''1'') = ''idem_1''"
    by (simp_all add: new_artifactId_def new_uploadSessionId_def new_recordId_def example_ids_def)
  note result = valid_upload_result [OF example_storage empty_db_ok(1,3) example_parts(3) empty_db_ok(4) example_parts(1,2)
      example_upload(2,1,3,4,5) example_candidates_made, of hd "example_ids ''1''" "[]"]
  show ?thesis
    by (rule that, unfold example_run_def result ids, rule refl)
      (simp add: with_accepted_def empty_artifact_db_def completed_records_def create_claim_def ids)
qed

lemma create_all_or_nothing_witness:
  "example_run ''1'' (example_creation\<lparr>cai_completed := Inl ''aborted''\<rparr>) (empty_artifact_db, [])
    = ((empty_artifact_db, []), Inl (Request_failed ''aborted''), True)"
proof -
  let ?input = "example_creation\<lparr>cai_completed := Inl ''aborted''\<rparr>"
  have "snd (example_run ''1'' ?input (empty_artifact_db, [])) = (Inl (Request_failed ''aborted''), True)"
    using example_parts
    by (simp add: example_run_def create_artifact_def claim_in_def claimPending_def insert_idempotency_do_nothing_def
        empty_db_ok(5) idempotency_records_unique_def unique_on_def idempotencyRecord_def requestHash_of_def
        create_upload_def example_storage memory_write Let_def example_creation_def name_promise_def collect_body_def)
  moreover from this have "fst (example_run ''1'' ?input (empty_artifact_db, [])) = (empty_artifact_db, [])"
    by (intro create_all_or_nothing [OF example_storage, of "example_ids ''1''" "[]" empty_artifact_db hd ?input])
      (simp_all add: example_run_def prod_eq_iff empty_db_ok(5))
  ultimately show ?thesis by (simp add: prod_eq_iff)
qed

lemma valid_upload_is_accepted_witness:
  "snd (example_run ''1'' example_creation (empty_artifact_db, [])) =
    (Inr (accepted_response ''artifact_1'' ''upload_1''), True)"
  using valid_upload_is_accepted [OF example_storage empty_db_ok(1,3) example_parts(3) empty_db_ok(4) example_parts(1,2)
      example_upload(2,1,3,4,5) example_candidates_made, of hd "example_ids ''1''" "[]"]
  by (simp add: example_run_def new_artifactId_def new_uploadSessionId_def example_ids_def)

lemma creation_is_idempotent_witness:
  "snd (example_run ''2'' example_creation (fst (example_run ''1'' example_creation (empty_artifact_db, []))))
    = (Inr (accepted_response ''artifact_1'' ''upload_1''), True)
   \<and> snd (example_run ''2'' (example_creation\<lparr>cai_body := \<lparr>ob_chunks = [[98, 8]], ob_error = None\<rparr>\<rparr>)
      (fst (example_run ''1'' example_creation (empty_artifact_db, [])))) = (Inl (Refused Idempotency_conflict), True)"
proof -
  obtain db' objects' where run: "create_artifact example_options hd (example_ids ''1'') example_creation (empty_artifact_db, []) =
      ((db', objects'), Inr (accepted_response ''artifact_1'' ''upload_1''), True)"
    and rec: "idem_id ` set (idempotency_records db') = {''idem_1''}"
    using example_created by (metis example_run_def prod.collapse)
  have "new_recordId (example_ids ''2'') \<notin> idem_id ` set (idempotency_records db')"
    by (simp add: rec new_recordId_def example_ids_def)
  note again = creation_is_idempotent [OF example_storage example_sealing(1,2) example_laws(2,3) example_sealing(3) empty_db_ok(2)
      _ empty_db_ok(4) run _ _ _ _ _ _ _ this example_parts(1) example_upload(1) example_parts(2),
      where ?pick2.0 = hd and ?name2.0 = "''Demo''" and ?entry2.0 = "Some ''a/index.html''"]
  have "snd (example_run ''2'' example_creation (db', objects')) = (Inr (accepted_response ''artifact_1'' ''upload_1''), True)"
    using again [of example_creation "[1, 2, 3]"] example_parts(1,2) example_upload
    by (simp add: empty_db_ok(5) example_run_def)
  moreover have "inputHash example_options ''Demo'' (so_sha256 example_options [98, 8]) (Some ''a/index.html'')
      \<noteq> inputHash example_options ''Demo'' (so_sha256 example_options [1, 2, 3]) (Some ''a/index.html'')"
    by code_simp
  then have "snd (example_run ''2'' (example_creation\<lparr>cai_body := \<lparr>ob_chunks = [[98, 8]], ob_error = None\<rparr>\<rparr>) (db', objects'))
      = (Inl (Refused Idempotency_conflict), True)"
    using again [of "example_creation\<lparr>cai_body := \<lparr>ob_chunks = [[98, 8]], ob_error = None\<rparr>\<rparr>" "[98, 8]"]
      example_parts(1,2) example_upload
    by (simp add: empty_db_ok(5) example_run_def collect_body_def)
  ultimately show ?thesis using run by (simp add: example_run_def)
qed

lemma claimed_example:
  "claims_valid claimed_db" "entry_at claimed_db (''u1'', Create_artifact, None, ''k'') = Some (''idem_1'', None)"
  "new_recordId (example_ids ''2'') \<notin> idem_id ` set (idempotency_records claimed_db)"
  by (simp_all add: claims_valid_def claimed_db_def empty_artifact_db_def idempotency_records_unique_def unique_on_def entry_at_def
      entry_of_row_def claim_scope_def example_claim_def new_recordId_def example_ids_def)

lemma entry_promise_left_unawaited_witness:
  "create_artifact example_options hd (example_ids ''2'') (example_creation\<lparr>cai_idempotencyKey := ''k''\<rparr>) (claimed_db, [])
    = ((claimed_db, []), Inl (Refused Operation_in_progress), False)"
proof -
  have "\<not> key_invalid ''k''" by code_simp
  then show ?thesis
    using claimed_example example_parts(1)
    by (intro entry_promise_left_unawaited [where name = "''Demo''" and j = "''idem_1''"])
      (simp_all add: key_of_claim, simp_all add: example_creation_def)
qed

end
