(* ===== verification/Artifact_Recovery.thy ===== *)
theory Artifact_Recovery
  imports Artifact_Intake
begin

text \<open>
  Manual retry and replacement of an upload,
  \<open>api/src/application/artifacts/artifact-recovery.ts\<close>. The conventions are those of the
  creation of an artifact; the flag of \<open>replace_upload\<close> is again whether the promise of the
  requested entry is awaited.
\<close>

datatype ArtifactRecoveryErrorCode =
    Artifact_not_found
  | Upload_session_not_found
  | Invalid_artifact_state
  | Recovery_invalid_idempotency_key
  | Recovery_operation_in_progress
  | Recovery_idempotency_conflict
  | Recovery_invalid_requested_entry
  | Recovery_archive_too_large

record RetryInput =
  ri_ownerUserId :: js_string
  ri_uploadSessionId :: js_string
  ri_idempotencyKey :: js_string

record ReplaceInput =
  rp_ownerUserId :: js_string
  rp_artifactId :: js_string
  rp_idempotencyKey :: js_string
  rp_body :: ObjectBody
  rp_policy :: UploadPolicySnapshot
  rp_requestedEntry :: "js_string + js_string option"
  rp_completed :: "js_string + unit"

subsection \<open>Retry\<close>

definition retry_hash :: "'s service_options \<Rightarrow> js_string \<Rightarrow> js_string" where
  "retry_hash opt uploadSessionId = text_hash opt (''retry:'' @ uploadSessionId)"

definition retry_claim :: "'s service_options \<Rightarrow> random_ids \<Rightarrow> RetryInput \<Rightarrow> ClaimIdempotencyInput" where
  "retry_claim opt ids input =
     \<lparr>cl_id = new_recordId ids, cl_ownerUserId = ri_ownerUserId input, cl_operation = Retry_upload,
      cl_targetResourceId = Some (ri_uploadSessionId input), cl_key = ri_idempotencyKey input,
      cl_provisionalRequestHash = retry_hash opt (ri_uploadSessionId input)\<rparr>"

definition retryable_session :: "UploadSessionRecord \<Rightarrow> bool" where
  "retryable_session s \<longleftrightarrow> us_state s = Session_failed \<and> us_retryable s \<and> us_supersededAt s = None"

definition retry_input ::
  "'s service_options \<Rightarrow> random_ids \<Rightarrow> RetryInput \<Rightarrow> UploadSessionRecord \<Rightarrow> js_string \<Rightarrow> QueueManualRetryInput" where
  "retry_input opt ids input session claimId =
     \<lparr>ci_idempotencyRecordId = claimId, ci_requestHash = retry_hash opt (ri_uploadSessionId input),
      ci_responseStatus = 202, ci_responseBody = accepted_response (us_artifactId session) (us_id session),
      qr_uploadSessionId = us_id session, qr_processingJobId = new_jobId ids,
      qr_maxAttempts = so_maxProcessingAttempts opt\<rparr>"

definition retry ::
  "'s service_options \<Rightarrow> random_ids \<Rightarrow> RetryInput \<Rightarrow> 'x artifact_db_scheme
    \<Rightarrow> 'x artifact_db_scheme \<times> (ArtifactRecoveryErrorCode service_error + json)" where
  "retry opt ids input db =
     (if key_invalid (ri_idempotencyKey input) then (db, Inl (Refused Recovery_invalid_idempotency_key))
      else
      case findOwnedSession (ri_ownerUserId input) (ri_uploadSessionId input) db of
        Inl e \<Rightarrow> (db, Inl (Repository_failed e))
      | Inr None \<Rightarrow> (db, Inl (Refused Upload_session_not_found))
      | Inr (Some session) \<Rightarrow>
      if \<not> retryable_session session then (db, Inl (Refused Invalid_artifact_state))
      else
      case claim_in opt (retry_claim opt ids input) db of
        (db, Inl e) \<Rightarrow> (db, Inl (Repository_failed e))
      | (db, Inr (Existing r)) \<Rightarrow>
          (db, if ir_state r = Idem_pending then Inl (Refused Recovery_operation_in_progress)
               else if ir_requestHash r \<noteq> Some (retry_hash opt (ri_uploadSessionId input))
               then Inl (Refused Recovery_idempotency_conflict)
               else completedResponse (ir_responseBody r))
      | (db, Inr (Acquired r)) \<Rightarrow>
          (case queueManualRetry (so_evidence opt) (so_now opt) (retry_input opt ids input session (ir_id r)) db of
             (db, Inl e) \<Rightarrow> (releasePending (ir_id r) db, Inl (Repository_failed e))
           | (db, Inr _) \<Rightarrow> (db, Inr (accepted_response (us_artifactId session) (us_id session)))))"

subsection \<open>Replacement\<close>

text \<open>What the current session and the versions say about the request.\<close>

definition replacesFailedInput :: "UploadSessionRecord option \<Rightarrow> bool" where
  "replacesFailedInput current =
     (case current of None \<Rightarrow> False
      | Some s \<Rightarrow> us_state s = Session_failed \<and> \<not> us_retryable s \<and> us_supersededAt s = None)"

definition createsVersion :: "UploadSessionRecord option \<Rightarrow> bool \<Rightarrow> bool" where
  "createsVersion current ready \<longleftrightarrow> ready \<and> \<not> replacesFailedInput current"

definition acceptsNewUpload :: "UploadSessionRecord option \<Rightarrow> bool \<Rightarrow> bool" where
  "acceptsNewUpload current ready \<longleftrightarrow>
     (case current of None \<Rightarrow> False
      | Some s \<Rightarrow> replacesFailedInput current \<or> createsVersion current ready \<and> us_state s = Session_committed)"

definition requestPrefix :: "bool \<Rightarrow> js_string \<Rightarrow> js_string" where
  "requestPrefix version artifactId = (if version then ''version'' else ''replace'') @ '':'' @ artifactId"

definition replace_hash :: "'s service_options \<Rightarrow> bool \<Rightarrow> js_string \<Rightarrow> js_string \<Rightarrow> js_string option \<Rightarrow> js_string" where
  "replace_hash opt version artifactId sha256 entry =
     text_hash opt (requestPrefix version artifactId @ '':'' @ sha256 @ '':'' @ (case entry of None \<Rightarrow> [] | Some e \<Rightarrow> e))"

definition replace_claim ::
  "'s service_options \<Rightarrow> random_ids \<Rightarrow> bool \<Rightarrow> ReplaceInput \<Rightarrow> ClaimIdempotencyInput" where
  "replace_claim opt ids version input =
     \<lparr>cl_id = new_recordId ids, cl_ownerUserId = rp_ownerUserId input,
      cl_operation = (if version then Upload_version else Replace_upload),
      cl_targetResourceId = Some (rp_artifactId input), cl_key = rp_idempotencyKey input,
      cl_provisionalRequestHash = text_hash opt (requestPrefix version (rp_artifactId input))\<rparr>"

definition replace_replay ::
  "'s service_options \<Rightarrow> (ArtifactRecoveryErrorCode service_error list \<Rightarrow> ArtifactRecoveryErrorCode service_error)
    \<Rightarrow> bool \<Rightarrow> ReplaceInput \<Rightarrow> IdempotencyRecord \<Rightarrow> ArtifactRecoveryErrorCode service_error + json" where
  "replace_replay opt pick version input r =
     bindR (all_three pick
              (hash_body opt Recovery_archive_too_large (rp_body input) (pol_archiveSizeBytes (rp_policy input)))
              (case rp_completed input of Inl e \<Rightarrow> Inl (Request_failed e) | Inr u \<Rightarrow> Inr u)
              (entry_of Recovery_invalid_requested_entry (rp_requestedEntry input))) (\<lambda>(replay, _, replayEntry).
     if ir_requestHash r \<noteq> Some (replace_hash opt version (rp_artifactId input) (snd replay) replayEntry)
     then Inl (Refused Recovery_idempotency_conflict) else completedResponse (ir_responseBody r))"

definition version_input ::
  "'s service_options \<Rightarrow> random_ids \<Rightarrow> bool \<Rightarrow> ReplaceInput \<Rightarrow> js_string \<Rightarrow> RawZipWriteResult \<Rightarrow> js_string option
    \<Rightarrow> RawFingerprintCandidate list \<Rightarrow> CommitVersionUploadInput" where
  "version_input opt ids version input claimId raw entry candidates =
     \<lparr>ci_idempotencyRecordId = claimId, ci_requestHash = replace_hash opt version (rp_artifactId input) (rz_sha256 raw) entry,
      ci_responseStatus = 202, ci_responseBody = accepted_response (rp_artifactId input) (new_uploadSessionId ids),
      cv_artifactId = rp_artifactId input, cv_ownerUserId = rp_ownerUserId input, cv_uploadSessionId = new_uploadSessionId ids,
      cv_policy = rp_policy input, cv_rawObjectKey = raw_key (rp_artifactId input) (new_uploadSessionId ids),
      cv_rawFingerprintCandidates = candidates, cv_processingRevision = so_processingRevision opt,
      cv_contentIdentityRevision = so_contentIdentityRevision opt, cv_rawSizeBytes = int (rz_sizeBytes raw),
      cv_requestedEntry = entry, cv_processingJobId = new_jobId ids, cv_maxAttempts = so_maxProcessingAttempts opt\<rparr>"

definition replacement_input :: "CommitVersionUploadInput \<Rightarrow> js_string \<Rightarrow> CommitReplacementInput" where
  "replacement_input i previous = CommitVersionUploadInput.extend i \<lparr>cr_previousUploadSessionId = previous\<rparr>"

text \<open>The commit with its \<open>catch\<close>.\<close>

definition replace_commit ::
  "'s service_options \<Rightarrow> random_ids \<Rightarrow> bool \<Rightarrow> js_string \<Rightarrow> ReplaceInput \<Rightarrow> js_string \<Rightarrow> RawZipWriteResult \<Rightarrow> js_string option
    \<Rightarrow> 'x artifact_db_scheme \<times> 's
    \<Rightarrow> ('x artifact_db_scheme \<times> 's) \<times> (ArtifactRecoveryErrorCode service_error + json)" where
  "replace_commit opt ids version previous input claimId raw entry s =
     (let undo = (\<lambda>s. releasing claimId (discarding opt (raw_key (rp_artifactId input) (new_uploadSessionId ids)) s)) in
      case create_candidates (so_hmac opt) (rp_ownerUserId input) (rz_sha256 raw) (so_rawFingerprints opt) of
        Inl e \<Rightarrow> (undo s, Inl (Fingerprints_failed e))
      | Inr candidates \<Rightarrow>
          (let i = version_input opt ids version input claimId raw entry candidates in
           case (if version then commitVersionUpload (so_evidence opt) (so_now opt) i (fst s)
                 else commitReplacement (so_evidence opt) (so_now opt) (replacement_input i previous) (fst s)) of
             (db, Inl e) \<Rightarrow> (undo (db, snd s), Inl (Repository_failed e))
           | (db, Inr _) \<Rightarrow> ((db, snd s), Inr (accepted_response (rp_artifactId input) (new_uploadSessionId ids)))))"

definition replace_write ::
  "'s service_options \<Rightarrow> random_ids \<Rightarrow> bool \<Rightarrow> js_string \<Rightarrow> ReplaceInput \<Rightarrow> js_string \<Rightarrow> 'x artifact_db_scheme \<times> 's
    \<Rightarrow> ('x artifact_db_scheme \<times> 's) \<times> (ArtifactRecoveryErrorCode service_error + json)" where
  "replace_write opt ids version previous input claimId s =
     (let key = raw_key (rp_artifactId input) (new_uploadSessionId ids);
          (objects, rawResult) = st_writeRawZip (so_storage opt)
            \<lparr>ow_key = key, ow_body = rp_body input, ow_contentType = Some ''application/zip''\<rparr> (snd s);
          s = (fst s, objects) in
      case rawResult of
        Inl e \<Rightarrow> (releasing claimId s, Inl (Storage_failed e))
      | Inr raw \<Rightarrow>
      case rp_completed input of
        Inl e \<Rightarrow> (releasing claimId (discarding opt key s), Inl (Request_failed e))
      | Inr _ \<Rightarrow>
      case entry_of Recovery_invalid_requested_entry (rp_requestedEntry input) of
        Inl e \<Rightarrow> (releasing claimId (discarding opt key s), Inl e)
      | Inr entry \<Rightarrow>
      if pol_archiveSizeBytes (rp_policy input) < int (rz_sizeBytes raw)
      then (releasing claimId (discarding opt key s), Inl (Refused Recovery_archive_too_large))
      else replace_commit opt ids version previous input claimId raw entry s)"

definition replace_upload ::
  "'s service_options \<Rightarrow> (ArtifactRecoveryErrorCode service_error list \<Rightarrow> ArtifactRecoveryErrorCode service_error)
    \<Rightarrow> random_ids \<Rightarrow> ReplaceInput \<Rightarrow> 'x artifact_db_scheme \<times> 's
    \<Rightarrow> ('x artifact_db_scheme \<times> 's) \<times> (ArtifactRecoveryErrorCode service_error + json) \<times> bool" where
  "replace_upload opt pick ids input s =
     (if key_invalid (rp_idempotencyKey input) then (s, Inl (Refused Recovery_invalid_idempotency_key), True)
      else
      case findOwnedArtifact (rp_ownerUserId input) (rp_artifactId input) (fst s) of
        None \<Rightarrow> (s, Inl (Refused Artifact_not_found), True)
      | Some _ \<Rightarrow>
      case findCurrent (rp_artifactId input) (fst s) of
        Inl e \<Rightarrow> (s, Inl (Repository_failed e), True)
      | Inr current \<Rightarrow>
      let ready = hasReadyVersion (rp_artifactId input) (fst s); version = createsVersion current ready in
      case claim_in opt (replace_claim opt ids version input) (fst s) of
        (db, Inl e) \<Rightarrow> ((db, snd s), Inl (Repository_failed e), False)
      | (db, Inr (Existing r)) \<Rightarrow>
          if ir_state r = Idem_pending then ((db, snd s), Inl (Refused Recovery_operation_in_progress), False)
          else ((db, snd s), replace_replay opt pick version input r, True)
      | (db, Inr (Acquired r)) \<Rightarrow>
          if \<not> acceptsNewUpload current ready
          then (releasing (ir_id r) (db, snd s), Inl (Refused Invalid_artifact_state), False)
          else (case replace_write opt ids version (case current of None \<Rightarrow> [] | Some c \<Rightarrow> us_id c) input (ir_id r) (db, snd s) of
                  (s', result) \<Rightarrow> (s', result, True)))"
subsection \<open>All or nothing\<close>

lemma release_claimed:
  assumes "claim_in opt i db = (db', r)" "cl_id i \<notin> idem_id ` set (idempotency_records db)"
  shows "(case r of Inr (Acquired q) \<Rightarrow> releasePending (ir_id q) db' | _ \<Rightarrow> db') = db"
  using assms(1)
proof (cases rule: claim_in_cases)
  case (acquired q)
  then show ?thesis using release_own_claim [of "claim_row (so_now opt) i" "cl_id i" db] assms(2) by simp
next
  case other
  then show ?thesis by (auto split: sum.splits idempotency_claim.splits)
qed

lemma replace_commit_failed:
  assumes "replace_commit opt ids version previous input claimId raw e s = (s', Inl err)"
  shows "s' = releasing claimId (discarding opt (raw_key (rp_artifactId input) (new_uploadSessionId ids)) s)"
  using assms
  by (cases s) (auto simp: replace_commit_def Let_def dest!: commit_Inl(3,4) split: sum.splits prod.splits if_splits)

lemma replace_write_failed:
  assumes "so_storage opt = memory_storage (so_sha256 opt) (so_now opt)"
    and "raw_key (rp_artifactId input) (new_uploadSessionId ids) \<notin> fst ` set objects"
    and "replace_write opt ids version previous input claimId (db, objects) = (s', Inl e)"
  shows "s' = (releasePending claimId db, objects)"
  using assms(3) delete_stored [OF assms(2)]
  by (auto simp: replace_write_def Let_def assms(1) memory_write discarding_memory [OF assms(1)] releasing_def
      dest!: replace_commit_failed split: sum.splits if_splits)

text \<open>
  C30: a retry or a replacement that does not succeed changes nothing: whatever it is refused
  for and wherever it fails, the tables and the storage are as before, and no claim stays
  pending.
\<close>

theorem recovery_all_or_nothing:
  assumes "so_storage opt = memory_storage (so_sha256 opt) (so_now opt)"
    and "new_recordId ids \<notin> idem_id ` set (idempotency_records db)"
    and "raw_key (rp_artifactId input) (new_uploadSessionId ids) \<notin> fst ` set objects"
    and "retry opt ids again db = (db1, result)" "replace_upload opt pick ids input (db, objects) = (s2, result2, awaited)"
  shows "(db1 = db \<or> isOk result) \<and> (s2 = (db, objects) \<or> isOk result2)"
proof
  have "cl_id (retry_claim opt ids again) \<notin> idem_id ` set (idempotency_records db)"
    using assms(2) by (simp add: retry_claim_def)
  then have claim: "claim_in opt (retry_claim opt ids again) db = (db', r) \<Longrightarrow>
      (case r of Inr (Acquired q) \<Rightarrow> releasePending (ir_id q) db' | _ \<Rightarrow> db') = db" for db' r
    by (rule release_claimed [rotated])
  show "db1 = db \<or> isOk result"
    using assms(4) by (auto simp: retry_def dest!: commit_Inl(2) claim
        split: if_splits sum.splits option.splits prod.splits idempotency_claim.splits)
next
  have "cl_id (replace_claim opt ids version input) \<notin> idem_id ` set (idempotency_records db)" for version
    using assms(2) by (simp add: replace_claim_def)
  then have claim: "claim_in opt (replace_claim opt ids version input) db = (db', r) \<Longrightarrow>
      (case r of Inr (Acquired q) \<Rightarrow> releasePending (ir_id q) db' | _ \<Rightarrow> db') = db" for db' r version
    by (rule release_claimed [rotated])
  show "s2 = (db, objects) \<or> isOk result2"
  proof (cases result2)
    case (Inl e)
    then show ?thesis
      using assms(5) by (auto simp: replace_upload_def Let_def releasing_def dest!: replace_write_failed [OF assms(1,3)] claim
          split: if_splits sum.splits option.splits prod.splits idempotency_claim.splits)
  qed simp
qed

subsection \<open>Refusals\<close>

lemma row_where_update:
  "(\<And>r. p r \<Longrightarrow> P (f r) = P r) \<Longrightarrow>
    row_where P (update_where p f t) = map_option (\<lambda>r. if p r then f r else r) (row_where P t)"
  by (induction t) auto

text \<open>After a retry the session is found accepted.\<close>

lemma retried_session_accepted:
  assumes "findOwnedSession u i db = Inr (Some s)" "retryable_session s" "stored_artifacts db' = stored_artifacts db"
    and "upload_sessions db' = update_where (retry_eligible i) (accept_again now) (upload_sessions db)"
  obtains s' where "findOwnedSession u i db' = Inr (Some s')" "us_state s' = Session_accepted"
proof -
  let ?P = "\<lambda>s. sess_id s = i
      \<and> exists_where (\<lambda>a. art_id a = sess_artifactId s \<and> art_ownerUserId a = u) (stored_artifacts db)"
  obtain row where row: "row_where ?P (upload_sessions db) = Some row" "uploadSessionRecord row = Inr s"
    using assms(1) by (auto simp: findOwnedSession_def mapR_option_def bindR_eq_Inr split: option.splits)
  then have "retry_eligible i row"
    using assms(2) row_where_Some [OF row(1)]
    by (auto simp: retryable_session_def uploadSessionRecord_def bindR_eq_Inr retry_eligible_def)
  moreover have "row_where ?P (upload_sessions db') = map_option (\<lambda>r. if retry_eligible i r then accept_again now r else r)
      (row_where ?P (upload_sessions db))"
    unfolding assms(4) by (rule row_where_update) (simp add: accept_again_def)
  ultimately have "row_where ?P (upload_sessions db') = Some (accept_again now row)" using row(1) by simp
  then show ?thesis
    using that
    by (simp add: findOwnedSession_def mapR_option_def uploadSessionRecord_def accept_again_def parseValidationReport_def
        assms(3))
qed

lemma findOwnedSession_id:
  "findOwnedSession u i db = Inr (Some s) \<Longrightarrow> us_id s = i"
  by (auto simp: findOwnedSession_def mapR_option_def uploadSessionRecord_def bindR_eq_Inr split: option.splits
      dest!: row_where_Some)

text \<open>
  A retry does not answer its own replay. Once a retry has been accepted under a new key,
  its session is accepted again, so the same request with the same key is refused for the
  state of the session before the key is looked at; the documentation has Retry idempotent
  by user, operation, target and key.
\<close>

theorem retry_replay_is_refused:
  assumes "new_recordId ids \<notin> idem_id ` set (idempotency_records db)" "claims_valid db"
    and "entry_at db (claim_scope (retry_claim opt ids input)) = None"
    and "retry opt ids input db = (db', Inr response)"
  shows "retry opt ids2 input db' = (db', Inl (Refused Invalid_artifact_state))"
proof -
  let ?db1 = "db\<lparr>idempotency_records := idempotency_records db @ [claim_row (so_now opt) (retry_claim opt ids input)]\<rparr>"
  have fresh: "cl_id (retry_claim opt ids input) \<notin> idem_id ` set (idempotency_records db)"
    using assms(1) by (simp add: retry_claim_def)
  obtain q where q: "claim_in opt (retry_claim opt ids input) db = (?db1, Inr (Acquired q))"
    using claim_free [OF assms(2) fresh assms(3)] by (metis claim_in_def)
  obtain s where s: "\<not> key_invalid (ri_idempotencyKey input)" "retryable_session s"
    "findOwnedSession (ri_ownerUserId input) (ri_uploadSessionId input) db = Inr (Some s)"
    and queued: "queueManualRetry (so_evidence opt) (so_now opt) (retry_input opt ids input s (ir_id q)) ?db1 = (db', Inr ())"
    using assms(4) q by (auto simp: retry_def split: if_splits sum.splits option.splits prod.splits)
  have "db' = with_retried (so_evidence opt) (so_now opt) (retry_input opt ids input s (ir_id q)) ?db1"
    using queued by (simp add: queueManualRetry_Inr)
  then have "stored_artifacts db' = stored_artifacts db"
    "upload_sessions db' = update_where (retry_eligible (ri_uploadSessionId input)) (accept_again (so_now opt)) (upload_sessions db)"
    using findOwnedSession_id [OF s(3)] by (simp_all add: with_retried_def with_sessions_def retry_input_def)
  then obtain s' where "findOwnedSession (ri_ownerUserId input) (ri_uploadSessionId input) db' = Inr (Some s')"
      "us_state s' = Session_accepted"
    using retried_session_accepted [OF s(3,2)] by metis
  then show ?thesis using s(1) by (simp add: retry_def retryable_session_def)
qed

text \<open>
  An artifact without an upload session, such as a server-side copy, never takes a new
  version. Although it has a ready version, every valid upload under a new key is refused for
  its state, and the promise of the entry is left unawaited; the specification of copies lets
  the copier upload a later version.
\<close>

theorem copied_artifact_refuses_versions:
  assumes "\<And>s. s \<in> set (upload_sessions db) \<Longrightarrow> sess_artifactId s \<noteq> rp_artifactId input"
    and "findOwnedArtifact (rp_ownerUserId input) (rp_artifactId input) db = Some a" "hasReadyVersion (rp_artifactId input) db"
    and "\<not> key_invalid (rp_idempotencyKey input)" "claims_valid db" "new_recordId ids \<notin> idem_id ` set (idempotency_records db)"
    and "entry_at db (claim_scope (replace_claim opt ids True input)) = None"
  shows "replace_upload opt pick ids input (db, objects) = ((db, objects), Inl (Refused Invalid_artifact_state), False)"
proof -
  have "filter (\<lambda>s. sess_artifactId s = rp_artifactId input \<and> sess_supersededAt s = None) (upload_sessions db) = []"
    using assms(1) by (auto simp: filter_empty_conv)
  then have none: "findCurrent (rp_artifactId input) db = Inr None"
    by (simp add: findCurrent_def unsuperseded_def order_desc_def first_row_def mapR_option_def)
  have fresh: "cl_id (replace_claim opt ids True input) \<notin> idem_id ` set (idempotency_records db)"
    using assms(6) by (simp add: replace_claim_def)
  obtain r where r: "claim_in opt (replace_claim opt ids True input) db =
      (db\<lparr>idempotency_records := idempotency_records db @ [claim_row (so_now opt) (replace_claim opt ids True input)]\<rparr>, Inr (Acquired r))"
    using claim_free [OF assms(5) fresh assms(7)] by (metis claim_in_def)
  then show ?thesis
    using assms(2-4) none release_claimed [OF r fresh]
    by (simp add: replace_upload_def createsVersion_def replacesFailedInput_def acceptsNewUpload_def releasing_def Let_def)
qed
subsection \<open>Examples\<close>

definition example_artifact :: ArtifactRecord where
  "example_artifact = \<lparr>art_id = ''artifact_1'', art_ownerUserId = ''u1'', art_name = ''Demo'', art_createdAt = 0, art_updatedAt = 0\<rparr>"

definition example_failed_session :: upload_session_row where
  "example_failed_session = (session_row 0 example_commit)\<lparr>sess_state := Session_failed, sess_retryable := True\<rparr>"

definition failed_db :: artifact_db where
  "failed_db = empty_artifact_db\<lparr>stored_artifacts := [example_artifact], upload_sessions := [example_failed_session]\<rparr>"

definition copied_db :: artifact_db where
  "copied_db = empty_artifact_db\<lparr>stored_artifacts := [example_artifact],
     artifact_versions := [\<lparr>ver_id = ''version_1'', ver_artifactId = ''artifact_1'', ver_ownerUserId = Some ''u1'',
       ver_contentBundleId = Some ''b'', ver_rendererRevision = Some ''r'', ver_uploadSessionId = None,
       ver_versionNumber = 1, ver_createdAt = 0, ver_readyAt = 0\<rparr>]\<rparr>"

definition example_retry :: RetryInput where
  "example_retry = \<lparr>ri_ownerUserId = ''u1'', ri_uploadSessionId = ''upload_1'', ri_idempotencyKey = ''k''\<rparr>"

definition example_replace :: ReplaceInput where
  "example_replace = \<lparr>rp_ownerUserId = ''u1'', rp_artifactId = ''artifact_1'', rp_idempotencyKey = ''k'',
     rp_body = \<lparr>ob_chunks = [[1]], ob_error = None\<rparr>, rp_policy = example_policy, rp_requestedEntry = Inr None,
     rp_completed = Inr ()\<rparr>"

lemma example_db_records:
  "idempotency_records failed_db = []" "idempotency_records copied_db = []"
  "claims_valid failed_db" "claims_valid copied_db" "entry_at failed_db sc = None" "entry_at copied_db sc = None"
  by (simp_all add: failed_db_def copied_db_def empty_artifact_db_def claims_valid_def idempotency_records_unique_def
      unique_on_def entry_at_def)

lemma example_key: "\<not> key_invalid ''k''"
  by code_simp

definition example_session :: UploadSessionRecord where
  "example_session = \<lparr>us_id = ''upload_1'', us_artifactId = ''artifact_1'', us_state = Session_failed, us_retryable = True,
     us_rawObjectKey = ''raw/artifact_1/upload_1.zip'', us_failureReasonCode = None, us_failureSummary = None,
     us_validationReport = None, us_supersededAt = None\<rparr>"

lemma example_session_simps:
  "us_id example_session = ''upload_1''" "us_artifactId example_session = ''artifact_1''" "retryable_session example_session"
  by (simp_all add: example_session_def retryable_session_def)

lemma example_retry_simps:
  "ri_ownerUserId example_retry = ''u1''" "ri_uploadSessionId example_retry = ''upload_1''" "ri_idempotencyKey example_retry = ''k''"
  by (simp_all add: example_retry_def)

lemma example_session_found: "findOwnedSession ''u1'' ''upload_1'' failed_db = Inr (Some example_session)"
  by (simp add: findOwnedSession_def failed_db_def empty_artifact_db_def example_failed_session_def session_row_def
      example_commit_def exists_where_def example_artifact_def mapR_option_def uploadSessionRecord_def parseValidationReport_def
      example_session_def)

lemma example_retry_claimed:
  obtains q where "claim_in opt (retry_claim opt (example_ids ''1'') example_retry) failed_db =
    (failed_db\<lparr>idempotency_records := [claim_row (so_now opt) (retry_claim opt (example_ids ''1'') example_retry)]\<rparr>, Inr (Acquired q))"
    "ir_id q = ''idem_1''"
  using claim_free [OF example_db_records(3), of "retry_claim opt (example_ids ''1'') example_retry"] example_db_records(1,5)
  by (metis claim_in_def retry_claim_def ClaimIdempotencyInput.select_convs(1) new_recordId_def example_ids_def random_ids.select_convs(1)
      append_Nil image_empty empty_iff list.set(1) append_Cons)

lemma example_retried_sessions:
  "update_where (retry_eligible ''upload_1'') (accept_again 5) (upload_sessions failed_db) = [session_row 0 example_commit\<lparr>sess_updatedAt := 5\<rparr>]"
  "length (filter (retry_eligible ''upload_1'') (upload_sessions failed_db)) = 1"
  "upload_session_row_ok (session_row 0 example_commit\<lparr>sess_updatedAt := 5\<rparr>)"
  by (simp_all add: failed_db_def empty_artifact_db_def example_failed_session_def retry_eligible_def accept_again_def
      session_row_def example_commit_def upload_session_row_ok_def policy_snapshot_ok_def)

lemma example_retry_step:
  fixes opt :: "memory_objects service_options"
  defines "db1 \<equiv> failed_db\<lparr>idempotency_records := [claim_row (so_now opt) (retry_claim opt (example_ids ''1'') example_retry)]\<rparr>"
  shows "retry opt (example_ids ''1'') example_retry failed_db =
    (case queueManualRetry (so_evidence opt) (so_now opt) (retry_input opt (example_ids ''1'') example_retry example_session ''idem_1'') db1 of
       (db, Inl e) \<Rightarrow> (releasePending ''idem_1'' db, Inl (Repository_failed e))
     | (db, Inr _) \<Rightarrow> (db, Inr (accepted_response ''artifact_1'' ''upload_1'')))"
  by (rule example_retry_claimed [of opt])
    (simp add: retry_def example_retry_simps example_key example_session_found example_session_simps db1_def)

lemma example_retry_run:
  "snd (retry example_options (example_ids ''1'') example_retry failed_db) = Inr (accepted_response ''artifact_1'' ''upload_1'')"
  "snd (retry (example_options\<lparr>so_maxProcessingAttempts := 0\<rparr>) (example_ids ''1'') example_retry failed_db)
    = Inl (Repository_failed (Database (Check_violation ''artifact_processing_job'')))"
proof -
  have input: "qr_uploadSessionId (retry_input opt ids i example_session j) = ''upload_1''"
    "ci_idempotencyRecordId (retry_input opt ids i example_session j) = j"
    "qr_maxAttempts (retry_input opt ids i example_session j) = so_maxProcessingAttempts opt"
    for opt :: "memory_objects service_options" and ids i j
    by (simp_all add: retry_input_def example_session_simps)
  have db: "processing_jobs failed_db = []" "unique_on (\<lambda>_. True) job_id []" "upload_sessions_unique [r]" for r
    by (simp_all add: failed_db_def empty_artifact_db_def unique_on_def upload_sessions_unique_def)
  let ?db1 = "failed_db\<lparr>idempotency_records := [claim_row (so_now example_options) (retry_claim example_options (example_ids ''1'') example_retry)]\<rparr>"
  let ?i = "retry_input example_options (example_ids ''1'') example_retry example_session ''idem_1''"
  have "queueManualRetry (so_evidence example_options) (so_now example_options) ?i ?db1
    = (with_retried (so_evidence example_options) (so_now example_options) ?i ?db1, Inr ())"
    by (subst queueManualRetry_Inr)
      (simp add: input db sessions_admissible_def example_retried_sessions example_options_def claim_is_pending_def pending_with_id_def
        retry_claim_def new_recordId_def example_ids_def)
  then show "snd (retry example_options (example_ids ''1'') example_retry failed_db) = Inr (accepted_response ''artifact_1'' ''upload_1'')"
    by (simp add: example_retry_step)
  let ?opt = "example_options\<lparr>so_maxProcessingAttempts := 0\<rparr>"
  have failed: "queueManualRetry (so_evidence ?opt) (so_now ?opt) (retry_input ?opt (example_ids ''1'') example_retry example_session ''idem_1'')
      (failed_db\<lparr>idempotency_records := t\<rparr>)
    = (failed_db\<lparr>idempotency_records := t\<rparr>, Inl (Database (Check_violation ''artifact_processing_job'')))" for t
    by (simp add: queueManualRetry_def run_tx_def input db update_upload_sessions_def check_upload_sessions_def
        example_retried_sessions example_options_def db_result_def insert_processing_job_def)
  show "snd (retry ?opt (example_ids ''1'') example_retry failed_db)
    = Inl (Repository_failed (Database (Check_violation ''artifact_processing_job'')))"
    unfolding example_retry_step failed by simp
qed

lemma retry_replay_is_refused_witness:
  "snd (retry example_options (example_ids ''2'') example_retry (fst (retry example_options (example_ids ''1'') example_retry failed_db)))
    = Inl (Refused Invalid_artifact_state)"
proof -
  have "retry example_options (example_ids ''1'') example_retry failed_db
      = (fst (retry example_options (example_ids ''1'') example_retry failed_db), Inr (accepted_response ''artifact_1'' ''upload_1''))"
    using example_retry_run(1) by (simp add: prod_eq_iff)
  from retry_replay_is_refused [OF _ example_db_records(3,5) this, of "example_ids ''2''"] show ?thesis
    by (simp add: example_db_records(1))
qed

lemma recovery_all_or_nothing_witness:
  "fst (retry (example_options\<lparr>so_maxProcessingAttempts := 0\<rparr>) (example_ids ''1'') example_retry failed_db) = failed_db"
  using recovery_all_or_nothing [OF _ _ _ prod.collapse [symmetric], where opt = "example_options\<lparr>so_maxProcessingAttempts := 0\<rparr>"
      and ids = "example_ids ''1''" and db = failed_db and input = example_replace and objects = "[]" and again = example_retry
      and pick = hd]
    example_retry_run(2) example_storage
  by (cases "replace_upload (example_options\<lparr>so_maxProcessingAttempts := 0\<rparr>) hd (example_ids ''1'') example_replace (failed_db, [])")
    (simp add: example_db_records(1))

lemma copied_artifact_refuses_versions_witness:
  "replace_upload example_options hd (example_ids ''1'') example_replace (copied_db, []) =
    ((copied_db, []), Inl (Refused Invalid_artifact_state), False)"
  by (rule copied_artifact_refuses_versions [where a = example_artifact])
    (use example_key example_db_records in
      \<open>simp_all add: example_replace_def copied_db_def findOwnedArtifact_def awaits_cleanup_def exists_where_def hasReadyVersion_def
        empty_artifact_db_def example_artifact_def\<close>)

end
