(* ===== verification/Content_Tables.thy ===== *)
theory Content_Tables
  imports Artifact_Queries
begin

text \<open>
  The tables around the artifact tables: content bundles with their assets, manifests,
  aliases and cleanups (\<open>api/src/db/schema.ts\<close>), the processing attempts, and the holds of
  the Gallery on the content of an artifact (migrations 0015 and 0016). A column that no
  modelled statement reads or writes is left out. \<open>content_db\<close> is the whole database of the
  artifact services: the artifact tables, these tables, and the Gallery tables as one value.
\<close>

datatype attempt_state = Attempt_running | Attempt_succeeded | Attempt_failed

datatype object_cleanup_state = Objects_pending | Objects_eligible | Objects_cleaned

record attempt_row =
  att_id :: js_string
  att_ownerUserId :: js_string
  att_jobId :: js_string
  att_attemptNumber :: int
  att_state :: attempt_state
  att_stagingPrefix :: js_string
  att_objectPrefix :: "js_string option"
  att_writeDeadlineAt :: "time option"
  att_cleanupState :: object_cleanup_state
  att_cleanupEligibleAt :: "time option"
  att_cleanedAt :: "time option"
  att_cleanupLeaseOwner :: "js_string option"
  att_cleanupLeaseExpiresAt :: "time option"
  att_cleanupAttemptCount :: int
  att_cleanupNextAttemptAt :: time
  att_cleanupLastErrorCode :: "js_string option"
  att_reasonCode :: "js_string option"
  att_startedAt :: time
  att_finishedAt :: "time option"

datatype bundle_integrity = Bundle_healthy | Bundle_suspect | Bundle_corrupt

datatype bundle_lifecycle = Bundle_creating | Bundle_ready | Bundle_deleting

record content_bundle_row =
  cb_id :: js_string
  cb_ownerUserId :: js_string
  cb_contentIdentityRevision :: js_string
  cb_lifecycleState :: bundle_lifecycle
  cb_integrityState :: bundle_integrity
  cb_creatorAttemptId :: "js_string option"
  cb_creatorLeaseExpiresAt :: "time option"
  cb_winningAttemptId :: "js_string option"
  cb_readyAt :: "time option"
  cb_deletingAt :: "time option"
  cb_createdAt :: time
  cb_updatedAt :: time

record asset_row =
  asset_bundleId :: js_string
  asset_ownerUserId :: js_string
  asset_path :: js_string
  asset_objectKey :: js_string
  asset_sizeBytes :: int
  asset_contentType :: js_string
  asset_sha256 :: "js_string option"

record bundle_manifest_row =
  man_bundleId :: js_string
  man_ownerUserId :: js_string
  man_entryPath :: js_string
  man_objectKey :: js_string
  man_fileCount :: int
  man_totalSizeBytes :: int
  man_createdAt :: time

text \<open>A row of either fingerprint alias table.\<close>

record alias_row =
  alias_id :: js_string
  alias_bundleId :: js_string
  alias_retiredAt :: "time option"

datatype cleanup_state = Cleanup_pending | Cleanup_running | Cleanup_completed

record bundle_cleanup_row =
  bc_bundleId :: js_string
  bc_ownerUserId :: js_string
  bc_objectPrefixes :: "js_string list"
  bc_state :: cleanup_state
  bc_quiesceAfter :: time
  bc_leaseOwner :: "js_string option"
  bc_leaseExpiresAt :: "time option"
  bc_attemptCount :: int
  bc_nextAttemptAt :: time
  bc_lastErrorCode :: "js_string option"
  bc_createdAt :: time
  bc_completedAt :: "time option"

datatype thumbnail_attempt_state =
  Capture_running | Capture_succeeded | Capture_failed | Capture_cancelled

record thumbnail_attempt_row =
  ta_id :: js_string
  ta_jobId :: js_string
  ta_attemptNumber :: int
  ta_objectKey :: js_string
  ta_state :: thumbnail_attempt_state
  ta_leaseExpiresAt :: time
  ta_writeDeadlineAt :: time
  ta_cleanupState :: object_cleanup_state
  ta_cleanupEligibleAt :: "time option"
  ta_cleanedAt :: "time option"
  ta_cleanupLeaseOwner :: "js_string option"
  ta_cleanupLeaseExpiresAt :: "time option"
  ta_cleanupAttemptCount :: int
  ta_cleanupNextAttemptAt :: time
  ta_cleanupLastErrorCode :: "js_string option"
  ta_createdAt :: time
  ta_finishedAt :: "time option"

record thumbnail_row =
  th_bundleId :: js_string
  th_ownerUserId :: js_string
  th_rendererRevision :: js_string
  th_winningAttemptId :: js_string
  th_objectKey :: js_string

record hold_row =
  hold_caseId :: js_string
  hold_releasedAt :: "time option"

record source_retention_row =
  ret_sourceVersionId :: js_string
  ret_releasedAt :: "time option"

record lease_row =
  lease_versionId :: js_string
  lease_active :: bool
  lease_expiresAt :: time

record provenance_row =
  prov_artifactId :: js_string
  prov_immediateVersionId :: js_string
  prov_rootVersionId :: js_string

record content_db = artifact_db +
  processing_attempts :: "attempt_row list"
  content_bundles :: "content_bundle_row list"
  bundle_assets :: "asset_row list"
  bundle_manifests :: "bundle_manifest_row list"
  bundle_aliases :: "alias_row list"
  raw_aliases :: "alias_row list"
  bundle_cleanups :: "bundle_cleanup_row list"
  thumbnail_attempts :: "thumbnail_attempt_row list"
  thumbnails :: "thumbnail_row list"
  gallery :: gallery_db
  evidence_holds :: "hold_row list"
  source_retentions :: "source_retention_row list"
  source_leases :: "lease_row list"
  provenances :: "provenance_row list"
  restricted_artifacts :: "js_string list"
  restricted_versions :: "js_string list"

text \<open>
  \<open>restricted_artifacts\<close> and \<open>restricted_versions\<close> are the ids the other Gallery tables
  reference with \<open>on delete restrict\<close>: owner operations, review bases, safety jobs, copy jobs,
  covers and credentials, and the revisions, proposals and acceptances of listings.
\<close>

subsection \<open>Constraints\<close>

definition share_links_unique :: "share_link_row list \<Rightarrow> bool" where
  "share_links_unique t \<longleftrightarrow>
     unique_on (\<lambda>_. True) link_id t \<and> unique_on (\<lambda>_. True) link_slug t
     \<and> unique_on (\<lambda>r. link_status r = Link_active) link_artifactId t"

definition content_bundle_row_ok :: "content_bundle_row \<Rightarrow> bool" where
  "content_bundle_row_ok r \<longleftrightarrow>
     (case cb_lifecycleState r of
        Bundle_creating \<Rightarrow> cb_creatorAttemptId r \<noteq> None \<and> cb_creatorLeaseExpiresAt r \<noteq> None
          \<and> cb_winningAttemptId r = None \<and> cb_readyAt r = None \<and> cb_deletingAt r = None
      | Bundle_ready \<Rightarrow> cb_readyAt r \<noteq> None \<and> cb_deletingAt r = None
      | Bundle_deleting \<Rightarrow> cb_deletingAt r \<noteq> None)"

definition bundles_unique :: "content_bundle_row list \<Rightarrow> bool" where
  "bundles_unique t \<longleftrightarrow>
     unique_on (\<lambda>_. True) cb_id t \<and> unique_on (\<lambda>r. cb_creatorAttemptId r \<noteq> None) cb_creatorAttemptId t"

definition object_cleanup_ok :: "object_cleanup_state \<Rightarrow> time option \<Rightarrow> time option \<Rightarrow> bool" where
  "object_cleanup_ok state eligibleAt cleanedAt \<longleftrightarrow>
     (case state of
        Objects_pending \<Rightarrow> eligibleAt = None \<and> cleanedAt = None
      | Objects_eligible \<Rightarrow> eligibleAt \<noteq> None \<and> cleanedAt = None
      | Objects_cleaned \<Rightarrow> eligibleAt \<noteq> None \<and> cleanedAt \<noteq> None)"

definition attempt_row_ok :: "attempt_row \<Rightarrow> bool" where
  "attempt_row_ok r \<longleftrightarrow>
     0 < att_attemptNumber r
     \<and> object_cleanup_ok (att_cleanupState r) (att_cleanupEligibleAt r) (att_cleanedAt r)
     \<and> 0 \<le> att_cleanupAttemptCount r
     \<and> (att_state r = Attempt_running \<longleftrightarrow> att_finishedAt r = None)"

definition attempts_unique :: "attempt_row list \<Rightarrow> bool" where
  "attempts_unique t \<longleftrightarrow>
     unique_on (\<lambda>_. True) att_id t \<and> unique_on (\<lambda>_. True) (\<lambda>r. (att_jobId r, att_attemptNumber r)) t"

definition bundle_cleanup_row_ok :: "bundle_cleanup_row \<Rightarrow> bool" where
  "bundle_cleanup_row_ok r \<longleftrightarrow>
     0 \<le> bc_attemptCount r
     \<and> (bc_state r = Cleanup_running \<longleftrightarrow> bc_leaseOwner r \<noteq> None \<and> bc_leaseExpiresAt r \<noteq> None)
     \<and> (bc_state r = Cleanup_completed \<longleftrightarrow> bc_completedAt r \<noteq> None)"

definition bundle_cleanups_unique :: "bundle_cleanup_row list \<Rightarrow> bool" where
  "bundle_cleanups_unique t \<longleftrightarrow> unique_on (\<lambda>_. True) bc_bundleId t"

definition thumbnail_attempt_row_ok :: "thumbnail_attempt_row \<Rightarrow> bool" where
  "thumbnail_attempt_row_ok r \<longleftrightarrow>
     0 < ta_attemptNumber r
     \<and> (ta_state r = Capture_running \<longleftrightarrow> ta_finishedAt r = None)
     \<and> object_cleanup_ok (ta_cleanupState r) (ta_cleanupEligibleAt r) (ta_cleanedAt r)
     \<and> 0 \<le> ta_cleanupAttemptCount r"

definition thumbnail_attempts_unique :: "thumbnail_attempt_row list \<Rightarrow> bool" where
  "thumbnail_attempts_unique t \<longleftrightarrow>
     unique_on (\<lambda>_. True) ta_id t \<and> unique_on (\<lambda>_. True) (\<lambda>r. (ta_jobId r, ta_attemptNumber r)) t
     \<and> unique_on (\<lambda>_. True) ta_objectKey t"

subsection \<open>Statements\<close>

definition check_share_links :: "share_link_row list \<Rightarrow> tx_error + share_link_row list" where
  "check_share_links t =
     (if \<not> list_all share_link_row_ok t then Inl (Check_violation ''artifact_share_link_retired_at_check'')
      else if \<not> share_links_unique t then Inl (Unique_violation ''artifact_share_link_one_active_idx'')
      else Inr t)"

definition write_share_links ::
  "(share_link_row list \<Rightarrow> share_link_row list) \<Rightarrow> 'x artifact_db_scheme \<Rightarrow> tx_error + 'x artifact_db_scheme" where
  "write_share_links f db =
     bindR (check_share_links (f (share_links db))) (\<lambda>t. Inr (db\<lparr>share_links := t\<rparr>))"

definition check_publications :: "PublicationRecord list \<Rightarrow> tx_error + PublicationRecord list" where
  "check_publications t =
     (if \<not> list_all publication_row_ok t then Inl (Check_violation ''artifact_publication_expiration_policy_check'')
      else if \<not> publications_unique t then Inl (Unique_violation ''artifact_publication_one_current_idx'')
      else Inr t)"

definition write_publications ::
  "(PublicationRecord list \<Rightarrow> PublicationRecord list) \<Rightarrow> 'x artifact_db_scheme \<Rightarrow> tx_error + 'x artifact_db_scheme" where
  "write_publications f db =
     bindR (check_publications (f (publications db))) (\<lambda>t. Inr (db\<lparr>publications := t\<rparr>))"

lemma check_share_links_Inr [simp]:
  "check_share_links t = Inr t' \<longleftrightarrow> t' = t \<and> list_all share_link_row_ok t \<and> share_links_unique t"
  by (auto simp: check_share_links_def)

lemma check_publications_Inr [simp]:
  "check_publications t = Inr t' \<longleftrightarrow> t' = t \<and> list_all publication_row_ok t \<and> publications_unique t"
  by (auto simp: check_publications_def)

lemma write_share_links_Inr:
  "write_share_links f db = Inr db' \<longleftrightarrow>
     list_all share_link_row_ok (f (share_links db)) \<and> share_links_unique (f (share_links db))
     \<and> db' = db\<lparr>share_links := f (share_links db)\<rparr>"
  by (auto simp: write_share_links_def bindR_eq_Inr)

lemma write_publications_Inr:
  "write_publications f db = Inr db' \<longleftrightarrow>
     list_all publication_row_ok (f (publications db)) \<and> publications_unique (f (publications db))
     \<and> db' = db\<lparr>publications := f (publications db)\<rparr>"
  by (auto simp: write_publications_def bindR_eq_Inr)

text \<open>The constraints of the links and publications.\<close>

definition sharing_ok :: "'x artifact_db_scheme \<Rightarrow> bool" where
  "sharing_ok db \<longleftrightarrow>
     list_all share_link_row_ok (share_links db) \<and> share_links_unique (share_links db)
     \<and> list_all publication_row_ok (publications db) \<and> publications_unique (publications db)"

definition empty_gallery :: gallery_db where
  "empty_gallery = \<lparr>listings = [], proposals = [], revisions = [], acceptances = [], lifecycle_events = [],
     tombstones = [], profiles = [], public_sharing_restrictions = [], artifact_takedowns = [], appeals = [],
     decisions = [], cases = [], account_closures = []\<rparr>"

definition empty_content_db :: content_db where
  "empty_content_db = artifact_db.extend empty_artifact_db
     \<lparr>processing_attempts = [], content_bundles = [], bundle_assets = [], bundle_manifests = [],
      bundle_aliases = [], raw_aliases = [], bundle_cleanups = [], thumbnail_attempts = [],
      thumbnails = [], gallery = empty_gallery, evidence_holds = [],
      source_retentions = [], source_leases = [], provenances = [], restricted_artifacts = [],
      restricted_versions = []\<rparr>"

end
