(* ===== verification/Js_Dates.thy ===== *)
theory Js_Dates
  imports Json
begin

text \<open>
  The dates of ECMAScript as the services use them: a time value in milliseconds since 1970,
  \<open>toISOString\<close>, and the reading of such a text. The calendar follows the standard
  (\<open>DayFromYear\<close>, \<open>YearFromTime\<close>); a time value lies within 100 million days of 1970. The lemmas
  show that the text of a date is read back as that date, so that different dates have
  different texts.
\<close>

definition valid_time :: "int \<Rightarrow> bool" where
  "valid_time t \<longleftrightarrow> \<bar>t\<bar> \<le> 8640000000000000"

definition ms_per_day :: int where
  "ms_per_day = 86400000"

subsection \<open>The calendar\<close>

definition day_from_year :: "int \<Rightarrow> int" where
  "day_from_year y = 365 * (y - 1970) + (y - 1969) div 4 - (y - 1901) div 100 + (y - 1601) div 400"

text \<open>The year of a day: an estimate by the mean length of a year, off by at most one.\<close>

definition year_from_day :: "int \<Rightarrow> int" where
  "year_from_day d =
     (let y = 1970 + 400 * d div 146097 in
      if d < day_from_year y then y - 1 else if day_from_year (y + 1) \<le> d then y + 1 else y)"

definition month_lengths :: "int \<Rightarrow> int list" where
  "month_lengths y =
     [31, if day_from_year (y + 1) - day_from_year y = 366 then 29 else 28, 31, 30, 31, 30, 31, 31, 30, 31, 30, 31]"

text \<open>The month and the day of the month, both from zero, of the n-th day of a year.\<close>

fun month_and_day :: "int \<Rightarrow> int list \<Rightarrow> nat \<times> int" where
  "month_and_day n [] = (0, n)"
| "month_and_day n (l # ls) =
     (if n < l then (0, n) else case month_and_day (n - l) ls of (m, d) \<Rightarrow> (Suc m, d))"

definition day_of_date :: "int \<Rightarrow> nat \<Rightarrow> int \<Rightarrow> int" where
  "day_of_date y m d = day_from_year y + sum_list (take m (month_lengths y)) + d"

subsection \<open>Digits\<close>

fun digits :: "nat \<Rightarrow> nat \<Rightarrow> js_string" where
  "digits 0 n = []"
| "digits (Suc w) n = digits w (n div 10) @ [char_of (48 + n mod 10)]"

definition digits_value :: "js_string \<Rightarrow> nat" where
  "digits_value s = foldl (\<lambda>a c. 10 * a + (of_char c - 48)) 0 s"

subsection \<open>Texts\<close>

definition iso_year :: "int \<Rightarrow> js_string" where
  "iso_year y =
     (if 0 \<le> y \<and> y \<le> 9999 then digits 4 (nat y)
      else (if y < 0 then CHR ''-'' else CHR ''+'') # digits 6 (nat \<bar>y\<bar>))"

definition iso_of :: "int \<Rightarrow> js_string" where
  "iso_of t =
     (let d = t div ms_per_day; ms = nat (t mod ms_per_day); y = year_from_day d;
          (m, k) = month_and_day (d - day_from_year y) (month_lengths y) in
      iso_year y @ ''-'' @ digits 2 (Suc m) @ ''-'' @ digits 2 (nat k + 1)
        @ ''T'' @ digits 2 (ms div 3600000) @ '':'' @ digits 2 (ms div 60000 mod 60)
        @ '':'' @ digits 2 (ms div 1000 mod 60) @ ''.'' @ digits 3 (ms mod 1000) @ ''Z'')"

text \<open>The fields of a text that \<open>toISOString\<close> could have written, and its time value.\<close>

definition read_year :: "js_string \<Rightarrow> int \<times> js_string" where
  "read_year s =
     (case s of
        [] \<Rightarrow> (0, [])
      | c # r \<Rightarrow>
          if c = CHR ''-'' then (- int (digits_value (take 6 r)), drop 6 r)
          else if c = CHR ''+'' then (int (digits_value (take 6 r)), drop 6 r)
          else (int (digits_value (take 4 s)), drop 4 s))"

definition read_time :: "js_string \<Rightarrow> int" where
  "read_time s =
     (let (y, r) = read_year s; at = (\<lambda>i n. digits_value (take n (drop i r))) in
      day_of_date y (at 1 2 - 1) (int (at 4 2) - 1) * ms_per_day
        + int (at 7 2 * 3600000 + at 10 2 * 60000 + at 13 2 * 1000 + at 16 3))"

definition date_of_iso :: "js_string \<Rightarrow> int option" where
  "date_of_iso s = (let t = read_time s in if valid_time t \<and> iso_of t = s then Some t else None)"

subsection \<open>The calendar is right\<close>

lemma div_bounds: "0 < k \<Longrightarrow> k * (a div k) \<le> a" "0 < k \<Longrightarrow> a < k * (a div k) + k" for a k :: int
  using pos_mod_sign [of k a] pos_mod_bound [of k a] mult_div_mod_eq [of k a] by linarith+

lemma day_from_year_bounds:
  "146097 * (y - 1970) - 506 \<le> 400 * day_from_year y"
  "400 * day_from_year y \<le> 146097 * (y - 1970) + 589"
proof -
  have lower: "146097 * (y - 1970) - 506 \<le> 400 * (365 * (y - 1970) + a - b + c)"
    and upper: "400 * (365 * (y - 1970) + a - b + c) \<le> 146097 * (y - 1970) + 589"
    if "4 * a \<le> y - 1969" "y - 1969 < 4 * a + 4" "100 * b \<le> y - 1901" "y - 1901 < 100 * b + 100"
      "400 * c \<le> y - 1601" "y - 1601 < 400 * c + 400" for a b c :: int
    using that by simp_all
  show "146097 * (y - 1970) - 506 \<le> 400 * day_from_year y"
    unfolding day_from_year_def by (rule lower) (rule div_bounds, simp)+
  show "400 * day_from_year y \<le> 146097 * (y - 1970) + 589"
    unfolding day_from_year_def by (rule upper) (rule div_bounds, simp)+
qed

lemma div_next: "0 < k \<Longrightarrow> (a + 1) div k = a div k + (if k dvd a + 1 then 1 else 0)" for a k :: int
proof -
  assume k: "0 < k"
  have a: "a + 1 = k * (a div k) + (a mod k + 1)" by simp
  have r: "0 \<le> a mod k" "a mod k < k" using k by simp_all
  show ?thesis
  proof (cases "a mod k + 1 = k")
    case True
    then have "a + 1 = k * (a div k + 1)" using a by (simp add: algebra_simps)
    then show ?thesis using k by simp
  next
    case False
    then have "(a + 1) div k = a div k" using a r False by (intro int_div_pos_eq [of _ k _ "a mod k + 1"]) linarith+
    moreover have "\<not> k dvd a + 1"
    proof
      assume "k dvd a + 1"
      then have "k dvd a mod k + 1"
        using a dvd_add_right_iff [of k "k * (a div k)" "a mod k + 1"] by (metis dvd_triv_left)
      with r False show False using zdvd_imp_le [of k "a mod k + 1"] by simp
    qed
    ultimately show ?thesis by simp
  qed
qed

lemma year_from_day:
  "day_from_year (year_from_day d) \<le> d" "d < day_from_year (year_from_day d + 1)"
proof -
  define q where "q = 400 * d div 146097"
  have "146097 * q \<le> 400 * d" "400 * d < 146097 * q + 146097"
    unfolding q_def by (rule div_bounds, simp)+
  then have "day_from_year (1970 + q - 1) \<le> d" "d < day_from_year (1970 + q + 2)"
    using day_from_year_bounds [of "1970 + q - 1"] day_from_year_bounds [of "1970 + q + 2"] by simp_all
  then show "day_from_year (year_from_day d) \<le> d" "d < day_from_year (year_from_day d + 1)"
    by (auto simp: year_from_day_def Let_def q_def algebra_simps)
qed

lemma year_length: "day_from_year (y + 1) - day_from_year y = 365 \<or> day_from_year (y + 1) - day_from_year y = 366"
proof -
  have "y + 1 - 1969 = y - 1969 + 1" "y + 1 - 1901 = y - 1901 + 1" "y + 1 - 1601 = y - 1601 + 1" by simp_all
  then have "day_from_year (y + 1) - day_from_year y = 365 + (if 4 dvd y - 1968 then 1 else 0)
      - (if 100 dvd y - 1900 then 1 else 0) + (if 400 dvd y - 1600 then 1 else 0)"
    unfolding day_from_year_def by (simp only: div_next) simp
  moreover have "100 dvd y - 1900 \<Longrightarrow> 4 dvd y - 1968" "400 dvd y - 1600 \<Longrightarrow> 100 dvd y - 1900"
    by presburger+
  ultimately show ?thesis by auto
qed

lemma sum_month_lengths: "sum_list (month_lengths y) = day_from_year (y + 1) - day_from_year y"
  using year_length [of y] by (auto simp: month_lengths_def)

lemma month_and_day:
  assumes "0 \<le> n" "n < sum_list ls" "month_and_day n ls = (m, k)"
  shows "m < length ls \<and> 0 \<le> k \<and> k < ls ! m \<and> sum_list (take m ls) + k = n"
  using assms
proof (induction ls arbitrary: n m k)
  case (Cons l ls)
  show ?case
  proof (cases "n < l")
    case False
    obtain m' k' where r: "month_and_day (n - l) ls = (m', k')" by fastforce
    with Cons.IH [of "n - l" m' k'] Cons.prems False show ?thesis by auto
  qed (use Cons.prems in auto)
qed simp

lemma month_lengths_bounds: "m < length (month_lengths y) \<Longrightarrow> month_lengths y ! m \<le> 31"
  by (auto simp: month_lengths_def nth_Cons' split: if_splits)

lemma date_of_day:
  assumes "month_and_day (d - day_from_year (year_from_day d)) (month_lengths (year_from_day d)) = (m, k)"
  shows "day_of_date (year_from_day d) m k = d" and "m < 12" and "0 \<le> k" and "k < 31"
proof -
  let ?y = "year_from_day d"
  have "m < length (month_lengths ?y) \<and> 0 \<le> k \<and> k < month_lengths ?y ! m
      \<and> sum_list (take m (month_lengths ?y)) + k = d - day_from_year ?y"
    using year_from_day [of d] by (intro month_and_day assms) (simp_all add: sum_month_lengths)
  then show "day_of_date (year_from_day d) m k = d" and "m < 12" and "0 \<le> k" and "k < 31"
    using month_lengths_bounds [of m ?y] by (simp_all add: day_of_date_def) (simp add: month_lengths_def)
qed

subsection \<open>Texts are read back\<close>

lemma length_digits [simp]: "length (digits w n) = w"
  by (induction w arbitrary: n) simp_all

lemma digits_value_snoc: "digits_value (s @ [c]) = 10 * digits_value s + (of_char c - 48)"
  by (simp add: digits_value_def)

lemma digits_value_digits [simp]: "digits_value (digits w n) = n mod 10 ^ w"
proof (induction w arbitrary: n)
  case (Suc w)
  have "of_char (char_of (48 + n mod 10)) = 48 + n mod 10" by simp
  with Suc show ?case by (simp add: digits_value_snoc mod_mult2_eq)
qed (simp add: digits_value_def)

lemma digit_not_sign: "c \<in> set (digits w n) \<Longrightarrow> c \<noteq> CHR ''-'' \<and> c \<noteq> CHR ''+''"
proof (induction w arbitrary: n)
  case (Suc w)
  have "of_char (char_of (48 + n mod 10) :: char) = 48 + n mod 10" by simp
  then have "char_of (48 + n mod 10) \<noteq> CHR ''-''" "char_of (48 + n mod 10) \<noteq> CHR ''+''" by fastforce+
  with Suc show ?case by auto
qed simp

lemma read_iso_year: "\<bar>y\<bar> < 1000000 \<Longrightarrow> read_year (iso_year y @ r) = (y, r)"
proof (cases "0 \<le> y \<and> y \<le> 9999")
  case True
  obtain c cs where c: "digits 4 (nat y) = c # cs" using length_digits [of 4 "nat y"] by (cases "digits 4 (nat y)") auto
  then have "c \<noteq> CHR ''-''" "c \<noteq> CHR ''+''" using digit_not_sign [of c 4 "nat y"] by auto
  moreover have "take 4 (digits 4 (nat y) @ r) = digits 4 (nat y)" "drop 4 (digits 4 (nat y) @ r) = r" by simp_all
  moreover have "digits_value (digits 4 (nat y)) = nat y" using True by (simp add: nat_less_iff)
  ultimately show ?thesis using True by (simp add: read_year_def iso_year_def c)
next
  case False
  assume "\<bar>y\<bar> < 1000000"
  moreover have "digits_value (digits 6 (nat \<bar>y\<bar>)) = nat \<bar>y\<bar> mod 1000000" by simp
  ultimately show ?thesis using False by (auto simp: read_year_def iso_year_def)
qed

lemma year_small:
  assumes "valid_time t"
  shows "\<bar>year_from_day (t div ms_per_day)\<bar> < 1000000"
proof -
  define d where "d = t div ms_per_day"
  have "ms_per_day * d \<le> t" "t < ms_per_day * d + ms_per_day"
    unfolding d_def by (rule div_bounds, simp add: ms_per_day_def)+
  then have "- 100000001 \<le> d" "d \<le> 100000001"
    using assms by (auto simp: valid_time_def ms_per_day_def)
  with year_from_day [of d] day_from_year_bounds [of "year_from_day d"] day_from_year_bounds [of "year_from_day d + 1"]
  show ?thesis unfolding d_def [symmetric] abs_less_iff by simp
qed

lemma clock_fields:
  assumes "n < 86400000"
  shows "n div 3600000 mod 100 * 3600000 + n div 60000 mod 60 mod 100 * 60000
     + n div 1000 mod 60 mod 100 * 1000 + n mod 1000 mod 1000 = (n :: nat)"
proof -
  have d: "n div 60000 = n div 1000 div 60" "n div 3600000 = n div 1000 div 60 div 60"
    by (simp_all add: div_mult2_eq [symmetric])
  have "n div 3600000 < 24" using assms by (simp add: less_mult_imp_div_less)
  then have h: "n div 1000 div 60 div 60 mod 100 = n div 1000 div 60 div 60" unfolding d by simp
  have m: "n div 1000 div 60 mod 60 mod 100 = n div 1000 div 60 mod 60" "n div 1000 mod 60 mod 100 = n div 1000 mod 60"
    by (simp_all add: mod_less)
  have "n div 1000 div 60 mod 60 + 60 * (n div 1000 div 60 div 60) = n div 1000 div 60"
    "n div 1000 mod 60 + 60 * (n div 1000 div 60) = n div 1000" "n mod 1000 + 1000 * (n div 1000) = n"
    by (rule mod_mult_div_eq)+
  then show ?thesis unfolding d h m mod_mod_trivial by linarith
qed

lemma read_iso:
  assumes "valid_time t"
  shows "read_time (iso_of t) = t"
proof -
  let ?d = "t div ms_per_day" and ?n = "nat (t mod ms_per_day)"
  let ?y = "year_from_day ?d"
  obtain m k where mk: "month_and_day (?d - day_from_year ?y) (month_lengths ?y) = (m, k)" by fastforce
  note date = date_of_day [OF mk]
  have n: "?n < 86400000" "int ?n = t mod ms_per_day" by (simp_all add: ms_per_day_def)
  have "iso_of t = iso_year ?y @ ''-'' @ digits 2 (Suc m) @ ''-'' @ digits 2 (nat k + 1)
        @ ''T'' @ digits 2 (?n div 3600000) @ '':'' @ digits 2 (?n div 60000 mod 60)
        @ '':'' @ digits 2 (?n div 1000 mod 60) @ ''.'' @ digits 3 (?n mod 1000) @ ''Z''"
    by (simp add: iso_of_def mk Let_def)
  then have "read_time (iso_of t) = day_of_date ?y (Suc m mod 100 - 1) (int ((nat k + 1) mod 100) - 1) * ms_per_day
      + int (?n div 3600000 mod 100 * 3600000 + ?n div 60000 mod 60 mod 100 * 60000
         + ?n div 1000 mod 60 mod 100 * 1000 + ?n mod 1000 mod 1000)"
    using read_iso_year [OF year_small [OF assms]] by (simp add: read_time_def)
  also have "\<dots> = day_of_date ?y m k * ms_per_day + int ?n"
    unfolding clock_fields [OF n(1)] using date(2-4) by simp
  also have "\<dots> = t"
    unfolding date(1) n(2) by simp
  finally show ?thesis .
qed

text \<open>A date is read back from its text, and two dates with the same text are the same.\<close>

lemma date_of_iso_of: "valid_time t \<Longrightarrow> date_of_iso (iso_of t) = Some t"
  by (simp add: date_of_iso_def read_iso)

lemma date_of_iso_Some: "date_of_iso s = Some t \<longleftrightarrow> valid_time t \<and> iso_of t = s"
  by (auto simp: date_of_iso_def Let_def read_iso)

lemma iso_of_inject: "valid_time t \<Longrightarrow> valid_time u \<Longrightarrow> iso_of t = iso_of u \<longleftrightarrow> t = u"
  by (metis date_of_iso_of option.inject)

end
