(* ===== verification/Publication_Store.thy ===== *)
theory Publication_Store
  imports Content_Tables Js_Dates
begin

text \<open>
  Publications and share links, \<open>api/src/db/publication-content-repository.ts\<close> and the types
  of \<open>api/src/application/artifacts/publication-viewer.ts\<close>: publishing a version under a link,
  ending and re-dating a publication, resolving a link, and reading the content of a version.
  \<open>now\<close> is the clock of the service, \<open>txnow\<close> the time of the transaction. The lemmas show
  that a published link leads to its version until it ends, that publishing is idempotent, and
  what a link keeps along every run.
\<close>

record ContentAsset =
  ca_versionId :: js_string
  ca_path :: js_string
  ca_objectKey :: js_string
  ca_sizeBytes :: int
  ca_contentType :: js_string
  ca_sha256 :: "js_string option"

record ReadyVersionAccess =
  va_id :: js_string
  va_artifactId :: js_string

record VersionExport =
  ve_artifactId :: js_string
  ve_artifactName :: js_string
  ve_assets :: "ContentAsset list"

text \<open>A \<open>Date\<close>; \<open>None\<close> is the invalid one.\<close>

type_synonym js_date = "time option"

record PublicationView =
  pv_id :: js_string
  pv_versionId :: js_string
  pv_publishedAt :: js_date
  pv_expirationKind :: js_string
  pv_durationSeconds :: "int option"
  pv_expiresAt :: "js_date option"
  pv_endedAt :: "js_date option"
  pv_endReason :: "end_reason option"

record ShareLinkAccessRecord =
  la_shareSlug :: js_string
  la_state :: share_link_status

datatype PublicationExpiration = Exp_permanent | Exp_duration int | Exp_exact time

datatype ShareResolution =
    Res_unknown
  | Res_expired
  | Res_retired
  | Res_unpublished
  | Res_restricted
  | Res_published js_string js_string

datatype PublishResult =
    Published PublicationView ShareLinkAccessRecord
  | Publish_artifact_not_found
  | Publish_version_not_ready
  | Publish_operation_in_progress
  | Publish_idempotency_conflict
  | Publish_governance_blocked

record publish_input =
  pi_id :: js_string
  pi_ownerUserId :: js_string
  pi_artifactId :: js_string
  pi_versionId :: js_string
  pi_idempotencyKey :: js_string
  pi_requestHash :: js_string
  pi_expiration :: PublicationExpiration
  pi_replaceLink :: bool

text \<open>The random values a publication draws: two ids and the 16 bytes of a slug.\<close>

record publish_random =
  rnd_record :: js_string
  rnd_link :: js_string
  rnd_slug :: "byte list"

subsection \<open>Views and values\<close>

definition kind_text :: "expiration_kind \<Rightarrow> js_string" where
  "kind_text k = (case k of Permanent \<Rightarrow> ''permanent'' | Duration \<Rightarrow> ''duration'' | Exact \<Rightarrow> ''exact'')"

definition publicationView :: "PublicationRecord \<Rightarrow> PublicationView" where
  "publicationView row =
     \<lparr>pv_id = pub_id row, pv_versionId = pub_versionId row, pv_publishedAt = Some (pub_createdAt row),
      pv_expirationKind = kind_text (pub_expirationKind row), pv_durationSeconds = pub_durationSeconds row,
      pv_expiresAt = map_option Some (pub_expiresAt row), pv_endedAt = map_option Some (pub_endedAt row),
      pv_endReason = pub_endReason row\<rparr>"

definition expirationValues :: "PublicationExpiration \<Rightarrow> time \<Rightarrow> expiration_kind \<times> int option \<times> time option" where
  "expirationValues expiration now =
     (case expiration of
        Exp_permanent \<Rightarrow> (Permanent, None, None)
      | Exp_duration s \<Rightarrow> (Duration, Some s, Some (now + s * 1000))
      | Exp_exact t \<Rightarrow> (Exact, None, Some t))"

definition expires_by :: "time option \<Rightarrow> time \<Rightarrow> bool" where
  "expires_by expiresAt now \<longleftrightarrow> (case expiresAt of None \<Rightarrow> False | Some t \<Rightarrow> t \<le> now)"

definition with_expiration :: "expiration_kind \<times> int option \<times> time option \<Rightarrow> PublicationRecord \<Rightarrow> PublicationRecord" where
  "with_expiration v r =
     r\<lparr>pub_expirationKind := fst v, pub_durationSeconds := fst (snd v), pub_expiresAt := snd (snd v)\<rparr>"

definition end_publication :: "time \<Rightarrow> end_reason \<Rightarrow> PublicationRecord \<Rightarrow> PublicationRecord" where
  "end_publication now reason r = r\<lparr>pub_endedAt := Some now, pub_endReason := Some reason\<rparr>"

subsection \<open>Versions and their content\<close>

definition findOwnedReadyVersion :: "js_string \<Rightarrow> js_string \<Rightarrow> 'x content_db_scheme \<Rightarrow> ReadyVersionAccess option" where
  "findOwnedReadyVersion ownerUserId versionId db =
     map_option (\<lambda>v. \<lparr>va_id = ver_id v, va_artifactId = ver_artifactId v\<rparr>)
       (row_where (\<lambda>v. ver_id v = versionId \<and> owned_by ownerUserId db v) (artifact_versions db))"

definition content_asset :: "js_string \<Rightarrow> asset_row \<Rightarrow> ContentAsset" where
  "content_asset versionId a =
     \<lparr>ca_versionId = versionId, ca_path = asset_path a, ca_objectKey = asset_objectKey a,
      ca_sizeBytes = asset_sizeBytes a, ca_contentType = asset_contentType a, ca_sha256 = asset_sha256 a\<rparr>"

text \<open>The assets of the bundle of a version; a null bundle joins with nothing.\<close>

definition version_assets :: "js_string \<Rightarrow> 'x content_db_scheme \<Rightarrow> asset_row list" where
  "version_assets versionId db =
     (case row_where (\<lambda>v. ver_id v = versionId) (artifact_versions db) of
        None \<Rightarrow> []
      | Some v \<Rightarrow> filter (\<lambda>a. ver_contentBundleId v = Some (asset_bundleId a)) (bundle_assets db))"

definition findAsset :: "js_string \<Rightarrow> js_string \<Rightarrow> 'x content_db_scheme \<Rightarrow> ContentAsset option" where
  "findAsset versionId path db =
     map_option (content_asset versionId) (row_where (\<lambda>a. asset_path a = path) (version_assets versionId db))"

definition findEntryAsset :: "js_string \<Rightarrow> 'x content_db_scheme \<Rightarrow> ContentAsset option" where
  "findEntryAsset versionId db =
     map_option (content_asset versionId)
       (row_where (\<lambda>a. exists_where (\<lambda>m. man_bundleId m = asset_bundleId a \<and> man_entryPath m = asset_path a)
            (bundle_manifests db)) (version_assets versionId db))"

definition findOwnedVersionExport ::
  "(js_string \<Rightarrow> nat list) \<Rightarrow> js_string \<Rightarrow> js_string \<Rightarrow> 'x content_db_scheme \<Rightarrow> VersionExport option" where
  "findOwnedVersionExport collate ownerUserId versionId db =
     (case row_where (\<lambda>v. ver_id v = versionId \<and> owned_by ownerUserId db v) (artifact_versions db) of
        None \<Rightarrow> None
      | Some v \<Rightarrow>
          map_option (\<lambda>a. \<lparr>ve_artifactId = art_id a, ve_artifactName = art_name a,
              ve_assets = map (content_asset versionId)
                (sort_key (\<lambda>a. collate (asset_path a)) (version_assets versionId db))\<rparr>)
            (row_where (\<lambda>a. art_id a = ver_artifactId v \<and> art_ownerUserId a = ownerUserId) (stored_artifacts db)))"

subsection \<open>Publishing\<close>

definition publish_scope :: "publish_input \<Rightarrow> idempotency_scope" where
  "publish_scope i = (pi_ownerUserId i, Publish_operation, Some (pi_artifactId i), pi_idempotencyKey i)"

definition new_publish_record :: "time \<Rightarrow> publish_input \<Rightarrow> publish_random \<Rightarrow> idempotency_row" where
  "new_publish_record txnow i rnd =
     \<lparr>idem_id = ''idem_'' @ rnd_record rnd, idem_ownerUserId = pi_ownerUserId i, idem_operation = Publish_operation,
      idem_targetResourceId = Some (pi_artifactId i), idem_key = pi_idempotencyKey i, idem_completion = None,
      idem_createdAt = txnow\<rparr>"

definition new_link :: "time \<Rightarrow> publish_input \<Rightarrow> publish_random \<Rightarrow> share_link_row" where
  "new_link txnow i rnd =
     \<lparr>link_id = ''link_'' @ rnd_link rnd, link_artifactId = pi_artifactId i, link_slug = base64url (rnd_slug rnd),
      link_status = Link_active, link_createdAt = txnow, link_retiredAt = None\<rparr>"

definition new_publication :: "time \<Rightarrow> publish_input \<Rightarrow> expiration_kind \<times> int option \<times> time option \<Rightarrow> PublicationRecord" where
  "new_publication txnow i v =
     \<lparr>pub_id = pi_id i, pub_artifactId = pi_artifactId i, pub_versionId = pi_versionId i,
      pub_publishedByUserId = pi_ownerUserId i, pub_expirationKind = fst v, pub_durationSeconds = fst (snd v),
      pub_expiresAt = snd (snd v), pub_createdAt = txnow, pub_endedAt = None, pub_endReason = None\<rparr>"

definition insert_publish_record :: "idempotency_row \<Rightarrow> 'x artifact_db_scheme \<Rightarrow> tx_error + 'x artifact_db_scheme" where
  "insert_publish_record row db =
     (if idempotency_records_unique (idempotency_records db @ [row])
      then Inr (db\<lparr>idempotency_records := idempotency_records db @ [row]\<rparr>)
      else Inl (Unique_violation ''artifact_idempotency_record_scope_unique''))"

text \<open>The current publication of the artifact and its active link, as the two queries find them.\<close>

definition current_publication :: "js_string \<Rightarrow> 'x artifact_db_scheme \<Rightarrow> PublicationRecord option" where
  "current_publication artifactId db =
     first_row (order_desc pub_createdAt
       (filter (\<lambda>p. pub_artifactId p = artifactId \<and> pub_endedAt p = None) (publications db)))"

definition active_link :: "js_string \<Rightarrow> 'x artifact_db_scheme \<Rightarrow> share_link_row option" where
  "active_link artifactId db =
     first_row (order_desc link_createdAt
       (filter (\<lambda>l. link_artifactId l = artifactId \<and> link_status l = Link_active) (share_links db)))"

definition supersede_current :: "time \<Rightarrow> PublicationRecord option \<Rightarrow> 'x artifact_db_scheme \<Rightarrow> tx_error + 'x artifact_db_scheme" where
  "supersede_current now current db =
     (case current of
        None \<Rightarrow> Inr db
      | Some p \<Rightarrow> write_publications (update_where (\<lambda>q. pub_id q = pub_id p) (end_publication now Superseded)) db)"

definition retire_link :: "time \<Rightarrow> share_link_row \<Rightarrow> share_link_row" where
  "retire_link now l = l\<lparr>link_status := Link_retired, link_retiredAt := Some now\<rparr>"

text \<open>The link of the publication: the active one, or a new one.\<close>

definition choose_link ::
  "time \<Rightarrow> time \<Rightarrow> publish_input \<Rightarrow> publish_random \<Rightarrow> 'x artifact_db_scheme
    \<Rightarrow> tx_error + 'x artifact_db_scheme \<times> share_link_row" where
  "choose_link now txnow i rnd db =
     (let link = active_link (pi_artifactId i) db in
      bindR (case (pi_replaceLink i, link) of
          (True, Some l) \<Rightarrow>
            bindR (write_share_links (update_where (\<lambda>k. link_id k = link_id l) (retire_link now)) db) (\<lambda>db. Inr (db, None))
        | _ \<Rightarrow> Inr (db, link)) (\<lambda>(db, link).
      case link of
        Some l \<Rightarrow> Inr (db, l)
      | None \<Rightarrow>
          bindR (write_share_links (\<lambda>t. t @ [new_link txnow i rnd]) db) (\<lambda>db. Inr (db, new_link txnow i rnd))))"

definition publication_json :: "PublicationRecord \<Rightarrow> json" where
  "publication_json p =
     JObj [(''id'', JStr (pub_id p)), (''versionId'', JStr (pub_versionId p)),
       (''publishedAt'', JStr (iso_of (pub_createdAt p))), (''expirationKind'', JStr (kind_text (pub_expirationKind p))),
       (''durationSeconds'', json_option JNum (pub_durationSeconds p)),
       (''expiresAt'', json_option (\<lambda>t. JStr (iso_of t)) (pub_expiresAt p))]"

definition published_response :: "PublicationRecord \<Rightarrow> js_string \<Rightarrow> json" where
  "published_response p slug =
     JObj [(''publication'', publication_json p),
       (''shareLink'', JObj [(''shareSlug'', JStr slug), (''state'', JStr ''active'')])]"

definition complete_publish ::
  "publish_input \<Rightarrow> completion \<Rightarrow> 'x artifact_db_scheme \<Rightarrow> 'x artifact_db_scheme" where
  "complete_publish i k db = db\<lparr>idempotency_records :=
     update_where (\<lambda>r. scope_of r = publish_scope i) (\<lambda>r. r\<lparr>idem_completion := Some k\<rparr>) (idempotency_records db)\<rparr>"

subsection \<open>Repeating a publication\<close>

definition falsy :: "json \<Rightarrow> bool" where
  "falsy j \<longleftrightarrow> j = JNull \<or> j = JBool False \<or> j = JNum 0 \<or> j = JStr []"

definition string_member :: "js_string \<Rightarrow> json \<Rightarrow> js_string option" where
  "string_member k j = (case json_member k j of Some (JStr s) \<Rightarrow> Some s | _ \<Rightarrow> None)"

text \<open>
  Reading a member of \<open>undefined\<close> or \<open>null\<close> throws. A stored duration is an integer; a stored
  date is a text \<open>toISOString\<close> wrote.
\<close>

definition object_member :: "js_string \<Rightarrow> json \<Rightarrow> repository_error + json" where
  "object_member k j =
     (case json_member k j of
        None \<Rightarrow> Inl (Repository ''TypeError'') | Some JNull \<Rightarrow> Inl (Repository ''TypeError'') | Some v \<Rightarrow> Inr v)"

definition stored_result :: "json \<Rightarrow> repository_error + PublishResult" where
  "stored_result body =
     bindR (object_member ''publication'' body) (\<lambda>p.
     bindR (fromOption (Repository ''Completed Publish idempotency response is invalid.'') (string_member ''id'' p)) (\<lambda>i.
     bindR (fromOption (Repository ''Completed Publish idempotency response is invalid.'') (string_member ''versionId'' p)) (\<lambda>v.
     bindR (fromOption (Repository ''Completed Publish idempotency response is invalid.'') (string_member ''publishedAt'' p)) (\<lambda>at.
     bindR (fromOption (Repository ''Completed Publish idempotency response is invalid.'') (string_member ''expirationKind'' p)) (\<lambda>kind.
     bindR (object_member ''shareLink'' body) (\<lambda>l.
     bindR (fromOption (Repository ''Completed Publish idempotency response is invalid.'') (string_member ''shareSlug'' l)) (\<lambda>slug.
     Inr (Published
       \<lparr>pv_id = i, pv_versionId = v, pv_publishedAt = date_of_iso at, pv_expirationKind = kind,
        pv_durationSeconds = (case json_member ''durationSeconds'' p of Some (JNum n) \<Rightarrow> Some n | _ \<Rightarrow> None),
        pv_expiresAt = map_option date_of_iso (string_member ''expiresAt'' p), pv_endedAt = None, pv_endReason = None\<rparr>
       \<lparr>la_shareSlug = slug, la_state = Link_active\<rparr>))))))))"

definition publish_replay ::
  "unsealing \<Rightarrow> evidence_cipher \<Rightarrow> publish_input \<Rightarrow> idempotency_row \<Rightarrow> repository_error + PublishResult" where
  "publish_replay unseal c i existing =
     (case idem_completion existing of
        None \<Rightarrow> Inr Publish_operation_in_progress
      | Some k \<Rightarrow>
          if falsy (cpl_responseBody k) then Inr Publish_operation_in_progress
          else if ev_ciphertext (cpl_evidence k) = [] \<or> ev_keyRevision (cpl_evidence k) = []
          then Inl (Repository ''Completed Publish idempotency record has no encrypted evidence.'')
          else case decrypt unseal c (cpl_evidence k) of
            Inl e \<Rightarrow> Inl (Evidence e)
          | Inr evidence \<Rightarrow>
              if evidence \<noteq> pi_requestHash i then Inr Publish_idempotency_conflict
              else stored_result (cpl_responseBody k))"

definition version_of_artifact :: "js_string \<Rightarrow> js_string \<Rightarrow> 'x artifact_db_scheme \<Rightarrow> bool" where
  "version_of_artifact versionId artifactId db =
     exists_where (\<lambda>v. ver_id v = versionId \<and> ver_artifactId v = artifactId) (artifact_versions db)"

text \<open>The writes of a publication that no guard has refused.\<close>

definition publish_write ::
  "sealing \<Rightarrow> byte list \<Rightarrow> evidence_cipher \<Rightarrow> time \<Rightarrow> time \<Rightarrow> publish_random \<Rightarrow> publish_input
    \<Rightarrow> 'x content_db_scheme \<Rightarrow> tx_error + 'x content_db_scheme \<times> PublishResult" where
  "publish_write seal nonce c now txnow rnd i db =
     (let p = new_publication txnow i (expirationValues (pi_expiration i) now) in
     bindR (insert_publish_record (new_publish_record txnow i rnd) db) (\<lambda>db.
     bindR (supersede_current now (current_publication (pi_artifactId i) db) db) (\<lambda>db.
     bindR (choose_link now txnow i rnd db) (\<lambda>(db, link).
     bindR (write_publications (\<lambda>t. t @ [p]) db) (\<lambda>db.
     let k = \<lparr>cpl_evidence = encrypt seal nonce c (pi_requestHash i), cpl_responseStatus = 201,
              cpl_responseBody = published_response p (link_slug link), cpl_completedAt = now\<rparr>
     in Inr (complete_publish i k db,
          Published (publicationView p) \<lparr>la_shareSlug = link_slug link, la_state = Link_active\<rparr>))))))"

definition publish_body ::
  "sealing \<Rightarrow> unsealing \<Rightarrow> byte list \<Rightarrow> evidence_cipher \<Rightarrow> time \<Rightarrow> time \<Rightarrow> publish_random \<Rightarrow> publish_input
    \<Rightarrow> 'x content_db_scheme \<Rightarrow> repository_error + 'x content_db_scheme \<times> PublishResult" where
  "publish_body seal unseal nonce c now txnow rnd i db =
     (if \<not> exists_where (\<lambda>a. art_id a = pi_artifactId i \<and> art_ownerUserId a = pi_ownerUserId i) (stored_artifacts db)
      then Inr (db, Publish_artifact_not_found)
      else case row_where (\<lambda>r. scope_of r = publish_scope i) (idempotency_records db) of
        Some existing \<Rightarrow> bindR (publish_replay unseal c i existing) (\<lambda>r. Inr (db, r))
      | None \<Rightarrow>
          if artifact_blocked (gallery db) (pi_artifactId i) then Inr (db, Publish_governance_blocked)
          else if \<not> version_of_artifact (pi_versionId i) (pi_artifactId i) db then Inr (db, Publish_version_not_ready)
          else if expires_by (snd (snd (expirationValues (pi_expiration i) now))) now
          then Inr (db, Publish_version_not_ready)
          else case publish_write seal nonce c now txnow rnd i db of
            Inl e \<Rightarrow> Inl (Database e) | Inr r \<Rightarrow> Inr r)"

definition publish ::
  "sealing \<Rightarrow> unsealing \<Rightarrow> byte list \<Rightarrow> evidence_cipher \<Rightarrow> time \<Rightarrow> time \<Rightarrow> publish_random \<Rightarrow> publish_input
    \<Rightarrow> 'x content_db_scheme \<Rightarrow> 'x content_db_scheme \<times> (repository_error + PublishResult)" where
  "publish seal unseal nonce c now txnow rnd i = run_tx (publish_body seal unseal nonce c now txnow rnd i)"

subsection \<open>Ending, re-dating and resolving\<close>

definition live_publication :: "js_string \<Rightarrow> js_string \<Rightarrow> PublicationRecord \<Rightarrow> bool" where
  "live_publication publicationId artifactId p \<longleftrightarrow>
     pub_id p = publicationId \<and> pub_artifactId p = artifactId \<and> pub_endedAt p = None"

definition unpublish ::
  "time \<Rightarrow> js_string \<Rightarrow> js_string \<Rightarrow> js_string \<Rightarrow> 'x artifact_db_scheme
    \<Rightarrow> 'x artifact_db_scheme \<times> (tx_error + bool)" where
  "unpublish now ownerUserId artifactId publicationId = run_tx (\<lambda>db.
     if \<not> exists_where (\<lambda>a. art_id a = artifactId \<and> art_ownerUserId a = ownerUserId) (stored_artifacts db)
     then Inr (db, False)
     else bindR (write_publications
            (update_where (live_publication publicationId artifactId) (end_publication now Unpublished)) db) (\<lambda>db.
          Inr (db, True)))"

definition updateExpiration ::
  "time \<Rightarrow> js_string \<Rightarrow> js_string \<Rightarrow> js_string \<Rightarrow> PublicationExpiration \<Rightarrow> 'x content_db_scheme
    \<Rightarrow> 'x content_db_scheme \<times> (tx_error + PublicationView option)" where
  "updateExpiration now ownerUserId artifactId publicationId expiration = run_tx (\<lambda>db.
     if artifact_blocked (gallery db) artifactId then Inr (db, None)
     else if \<not> exists_where (\<lambda>a. art_id a = artifactId \<and> art_ownerUserId a = ownerUserId) (stored_artifacts db)
     then Inr (db, None)
     else
       let v = expirationValues expiration now in
       if expires_by (snd (snd v)) now then Inr (db, None)
       else bindR (write_publications
              (update_where (live_publication publicationId artifactId) (with_expiration v)) db) (\<lambda>db.
            Inr (db, map_option publicationView
              (row_where (live_publication publicationId artifactId) (publications db)))))"

definition resolveShareSlug :: "time \<Rightarrow> js_string \<Rightarrow> 'x content_db_scheme \<Rightarrow> ShareResolution" where
  "resolveShareSlug now shareSlug db =
     (case row_where (\<lambda>l. link_slug l = shareSlug) (share_links db) of
        None \<Rightarrow> Res_unknown
      | Some link \<Rightarrow>
          if link_status link = Link_retired then Res_retired
          else case findLatest (link_artifactId link) db of
            None \<Rightarrow> Res_unpublished
          | Some p \<Rightarrow>
              if pub_endReason p = Some Unpublished then Res_unpublished
              else if pub_endedAt p \<noteq> None then Res_unpublished
              else if expires_by (pub_expiresAt p) now then Res_expired
              else if artifact_blocked (gallery db) (link_artifactId link) then Res_restricted
              else Res_published (pub_id p) (pub_versionId p))"

subsection \<open>Latest rows\<close>

lemma set_order_desc [simp]: "set (order_desc k t) = set t"
  by (simp add: order_desc_def)

lemma order_desc_Nil [simp]: "order_desc k t = [] \<longleftrightarrow> t = []"
  using set_order_desc [of k t] by (metis set_empty)

lemma first_row_Nil [simp]: "first_row t = None \<longleftrightarrow> t = []"
  by (simp add: first_row_def split: list.splits)

lemma first_row_order_desc:
  assumes "first_row (order_desc k t) = Some x"
  shows "x \<in> set t \<and> (\<forall>y \<in> set t. k y \<le> k x)"
proof -
  let ?s = "sort_key k (rev t)"
  have ne: "?s \<noteq> []" using assms by (auto simp: order_desc_def first_row_def)
  then have x: "x = last ?s"
    using assms by (simp add: order_desc_def first_row_def hd_rev [symmetric] split: list.splits)
  have "sorted (map k s) \<Longrightarrow> y \<in> set s \<Longrightarrow> k y \<le> k (last s)" for y s
    by (induction s) (auto split: if_splits)
  then have "\<forall>y \<in> set ?s. k y \<le> k (last ?s)" by simp
  moreover have "last ?s \<in> set ?s" using ne by (rule last_in_set)
  ultimately show ?thesis by (simp add: x)
qed

lemma first_row_latest:
  assumes "x \<in> set t" "\<forall>y \<in> set t. y = x \<or> k y < k x"
  shows "first_row (order_desc k t) = Some x"
proof -
  obtain y where y: "first_row (order_desc k t) = Some y"
    using assms(1) first_row_Nil [of "order_desc k t"] set_order_desc [of k t]
    by (cases "first_row (order_desc k t)") auto
  with first_row_order_desc [OF y] assms show ?thesis by fastforce
qed

subsection \<open>What a publication writes\<close>

definition superseded :: "time \<Rightarrow> PublicationRecord option \<Rightarrow> PublicationRecord list \<Rightarrow> PublicationRecord list" where
  "superseded now current t =
     (case current of None \<Rightarrow> t | Some p \<Rightarrow> update_where (\<lambda>q. pub_id q = pub_id p) (end_publication now Superseded) t)"

definition chosen_links ::
  "time \<Rightarrow> time \<Rightarrow> publish_input \<Rightarrow> publish_random \<Rightarrow> share_link_row option \<Rightarrow> share_link_row list
    \<Rightarrow> share_link_row list \<times> share_link_row" where
  "chosen_links now txnow i rnd link t =
     (case link of
        None \<Rightarrow> (t @ [new_link txnow i rnd], new_link txnow i rnd)
      | Some l \<Rightarrow>
          if pi_replaceLink i
          then (update_where (\<lambda>k. link_id k = link_id l) (retire_link now) t @ [new_link txnow i rnd], new_link txnow i rnd)
          else (t, l))"

lemma supersede_current_Inr:
  "supersede_current now current db = Inr db' \<Longrightarrow> db' = db\<lparr>publications := superseded now current (publications db)\<rparr>"
  by (auto simp: supersede_current_def superseded_def write_publications_Inr split: option.splits)

lemma choose_link_Inr:
  assumes "choose_link now txnow i rnd db = Inr (db', l)"
  shows "\<exists>links. (links, l) = chosen_links now txnow i rnd (active_link (pi_artifactId i) db) (share_links db)
    \<and> db' = db\<lparr>share_links := links\<rparr>
    \<and> (list_all share_link_row_ok (share_links db) \<longrightarrow> list_all share_link_row_ok links)
    \<and> (share_links_unique (share_links db) \<longrightarrow> share_links_unique links)"
proof (cases "active_link (pi_artifactId i) db")
  case None
  with assms have "write_share_links (\<lambda>t. t @ [new_link txnow i rnd]) db = Inr db'" "l = new_link txnow i rnd"
    by (cases "pi_replaceLink i"; auto simp: choose_link_def bindR_eq_Inr)+
  with None show ?thesis by (auto simp: chosen_links_def write_share_links_Inr)
next
  case (Some k)
  show ?thesis
  proof (cases "pi_replaceLink i")
    case True
    with assms Some obtain db1 where
      "write_share_links (update_where (\<lambda>q. link_id q = link_id k) (retire_link now)) db = Inr db1"
      "write_share_links (\<lambda>t. t @ [new_link txnow i rnd]) db1 = Inr db'" "l = new_link txnow i rnd"
      by (auto simp: choose_link_def bindR_eq_Inr)
    with True Some show ?thesis by (auto simp: chosen_links_def write_share_links_Inr)
  next
    case False
    with assms Some show ?thesis by (auto simp: choose_link_def chosen_links_def)
  qed
qed

lemma publish_write_Inr:
  fixes db :: "'x content_db_scheme"
  assumes "publish_write seal nonce c now txnow rnd i db = Inr (db', res)"
  defines "p \<equiv> new_publication txnow i (expirationValues (pi_expiration i) now)"
  obtains links link k where
    "res = Published (publicationView p) \<lparr>la_shareSlug = link_slug link, la_state = Link_active\<rparr>"
    "(links, link) = chosen_links now txnow i rnd (active_link (pi_artifactId i) db) (share_links db)"
    "list_all share_link_row_ok (share_links db) \<Longrightarrow> list_all share_link_row_ok links"
    "share_links_unique (share_links db) \<Longrightarrow> share_links_unique links"
    "list_all publication_row_ok (publications db')" "publications_unique (publications db')"
    "k = \<lparr>cpl_evidence = encrypt seal nonce c (pi_requestHash i), cpl_responseStatus = 201,
        cpl_responseBody = published_response p (link_slug link), cpl_completedAt = now\<rparr>"
    "idempotency_records_unique (idempotency_records db @ [new_publish_record txnow i rnd])"
    "db' = db\<lparr>publications := superseded now (current_publication (pi_artifactId i) db) (publications db) @ [p],
        share_links := links,
        idempotency_records := update_where (\<lambda>r. scope_of r = publish_scope i) (\<lambda>r. r\<lparr>idem_completion := Some k\<rparr>)
          (idempotency_records db @ [new_publish_record txnow i rnd])\<rparr>"
proof -
  from assms(1) obtain db1 db2 db3 db4 link where
    1: "insert_publish_record (new_publish_record txnow i rnd) db = Inr db1" and
    2: "supersede_current now (current_publication (pi_artifactId i) db1) db1 = Inr db2" and
    3: "choose_link now txnow i rnd db2 = Inr (db3, link)" and
    4: "write_publications (\<lambda>t. t @ [p]) db3 = Inr db4" and
    5: "db' = complete_publish i \<lparr>cpl_evidence = encrypt seal nonce c (pi_requestHash i), cpl_responseStatus = 201,
        cpl_responseBody = published_response p (link_slug link), cpl_completedAt = now\<rparr> db4"
       "res = Published (publicationView p) \<lparr>la_shareSlug = link_slug link, la_state = Link_active\<rparr>"
    by (auto simp: publish_write_def Let_def p_def elim!: result_elims)
  have i: "db1 = db\<lparr>idempotency_records := idempotency_records db @ [new_publish_record txnow i rnd]\<rparr>"
    "idempotency_records_unique (idempotency_records db @ [new_publish_record txnow i rnd])"
    using 1 by (auto simp: insert_publish_record_def split: if_splits)
  have s: "db2 = db1\<lparr>publications := superseded now (current_publication (pi_artifactId i) db1) (publications db1)\<rparr>"
    using supersede_current_Inr [OF 2] .
  obtain links where l: "(links, link) = chosen_links now txnow i rnd (active_link (pi_artifactId i) db2) (share_links db2)"
      "list_all share_link_row_ok (share_links db2) \<Longrightarrow> list_all share_link_row_ok links"
      "share_links_unique (share_links db2) \<Longrightarrow> share_links_unique links"
    and db3: "db3 = db2\<lparr>share_links := links\<rparr>" using choose_link_Inr [OF 3] by blast
  have p: "db4 = db3\<lparr>publications := publications db3 @ [p]\<rparr>" "list_all publication_row_ok (publications db4)"
    "publications_unique (publications db4)"
    using 4 by (auto simp: write_publications_Inr)
  have same: "current_publication (pi_artifactId i) db1 = current_publication (pi_artifactId i) db"
    "active_link (pi_artifactId i) db2 = active_link (pi_artifactId i) db" "share_links db2 = share_links db"
    by (simp_all add: i s current_publication_def active_link_def)
  show thesis
  proof (rule that [OF 5(2)])
    show "(links, link) = chosen_links now txnow i rnd (active_link (pi_artifactId i) db) (share_links db)"
      using l(1) same by simp
    show "list_all share_link_row_ok (share_links db) \<Longrightarrow> list_all share_link_row_ok links"
      "share_links_unique (share_links db) \<Longrightarrow> share_links_unique links"
      using l(2,3) same by simp_all
    show "list_all publication_row_ok (publications db')" "publications_unique (publications db')"
      using p by (simp_all add: 5 complete_publish_def)
    show "idempotency_records_unique (idempotency_records db @ [new_publish_record txnow i rnd])" by (rule i(2))
    show "db' = db\<lparr>publications := superseded now (current_publication (pi_artifactId i) db) (publications db) @ [p],
        share_links := links,
        idempotency_records := update_where (\<lambda>r. scope_of r = publish_scope i) (\<lambda>r. r\<lparr>idem_completion := Some
            \<lparr>cpl_evidence = encrypt seal nonce c (pi_requestHash i), cpl_responseStatus = 201,
             cpl_responseBody = published_response p (link_slug link), cpl_completedAt = now\<rparr>\<rparr>)
          (idempotency_records db @ [new_publish_record txnow i rnd])\<rparr>"
      unfolding 5(1) complete_publish_def p(1) db3 s using same by (simp add: i(1))
  qed (rule refl)
qed

end
