(* ===== verification/Publication_Laws.thy ===== *)
theory Publication_Laws
  imports Publication_Store Idempotency_Store
begin

text \<open>
  What the publication store of \<open>Publication_Store\<close> promises: a link answered by a first
  publication resolves to the published version; repeating a publication under its key
  returns the same answer and writes nothing; a publication whose transaction started before
  an earlier publication of the artifact is hidden behind it; and over any run of the
  store's operations the constraints hold and a retired link stays retired.
\<close>

subsection \<open>A published link leads to its version\<close>

lemma active_link_Some:
  "active_link a db = Some l \<Longrightarrow> l \<in> set (share_links db) \<and> link_artifactId l = a \<and> link_status l = Link_active"
  unfolding active_link_def by (drule first_row_order_desc) simp

lemma active_link_None:
  "active_link a db = None \<longleftrightarrow> (\<forall>l \<in> set (share_links db). link_artifactId l = a \<longrightarrow> link_status l \<noteq> Link_active)"
  by (auto simp: active_link_def filter_empty_conv)

lemma share_links_slug:
  "share_links_unique t \<Longrightarrow> l \<in> set t \<Longrightarrow> row_where (\<lambda>k. link_slug k = link_slug l) t = Some l"
  by (rule row_where_unique) (simp_all add: share_links_unique_def unique_on_def)

lemma share_links_id:
  "share_links_unique t \<Longrightarrow> l \<in> set t \<Longrightarrow> k \<in> set t \<Longrightarrow> link_id k = link_id l \<Longrightarrow> k = l"
  unfolding share_links_unique_def by (blast dest: unique_onD)

lemma share_links_active:
  "share_links_unique t \<Longrightarrow> l \<in> set t \<Longrightarrow> k \<in> set t \<Longrightarrow> link_status l = Link_active \<Longrightarrow> link_status k = Link_active
    \<Longrightarrow> link_artifactId k = link_artifactId l \<Longrightarrow> k = l"
  unfolding share_links_unique_def by (blast dest: unique_onD)

lemma retire_link_simps [simp]:
  "link_id (retire_link now l) = link_id l" "link_slug (retire_link now l) = link_slug l"
  "link_artifactId (retire_link now l) = link_artifactId l" "link_status (retire_link now l) = Link_retired"
  by (simp_all add: retire_link_def)

lemma new_link_simps [simp]:
  "link_artifactId (new_link txnow i rnd) = pi_artifactId i" "link_status (new_link txnow i rnd) = Link_active"
  by (simp_all add: new_link_def)

text \<open>What becomes of the links of the artifact.\<close>

lemma chosen_links:
  assumes u: "share_links_unique (share_links db)"
    and c: "(links, link) = chosen_links now txnow i rnd (active_link (pi_artifactId i) db) (share_links db)"
  shows "link \<in> set links \<and> link_artifactId link = pi_artifactId i \<and> link_status link = Link_active"
    and "l \<in> set (share_links db) \<Longrightarrow> link_artifactId l = pi_artifactId i \<Longrightarrow> link_slug l \<noteq> link_slug link \<Longrightarrow>
      \<exists>k \<in> set links. link_slug k = link_slug l \<and> link_status k = Link_retired"
    and "l \<in> set (share_links db) \<Longrightarrow> link_artifactId l \<noteq> pi_artifactId i \<or> link_status l = Link_retired \<Longrightarrow> l \<in> set links"
proof -
  show "link \<in> set links \<and> link_artifactId link = pi_artifactId i \<and> link_status link = Link_active"
    using c active_link_Some [of "pi_artifactId i" db] by (auto simp: chosen_links_def split: option.splits if_splits)
  have retired: "link_status k \<noteq> Link_active \<longleftrightarrow> link_status k = Link_retired" for k by (cases "link_status k") simp_all
  show "\<exists>k \<in> set links. link_slug k = link_slug l \<and> link_status k = Link_retired"
    if l: "l \<in> set (share_links db)" "link_artifactId l = pi_artifactId i" "link_slug l \<noteq> link_slug link"
  proof (cases "active_link (pi_artifactId i) db")
    case None
    then have "link_status l = Link_retired" using l active_link_None [of "pi_artifactId i" db] retired by blast
    moreover have "l \<in> set links" using None c l by (simp add: chosen_links_def)
    ultimately show ?thesis by blast
  next
    case (Some k)
    note k = active_link_Some [OF Some]
    show ?thesis
    proof (cases "link_status l = Link_active")
      case True
      then have "l = k" using share_links_active [OF u, of k l] k l by simp
      then have "retire_link now l \<in> set links"
        using Some c l by (auto simp: chosen_links_def set_update_where split: if_splits)
      then show ?thesis by (intro bexI [of _ "retire_link now l"]) simp_all
    next
      case False
      then have "l \<noteq> k" using k by auto
      then have "link_id l \<noteq> link_id k" using share_links_id [OF u, of k l] k l by blast
      then have "l \<in> set links"
        using Some c l by (auto simp: chosen_links_def set_update_where image_iff split: if_splits)
      with False retired show ?thesis by blast
    qed
  qed
  show "l \<in> set links"
    if l: "l \<in> set (share_links db)" "link_artifactId l \<noteq> pi_artifactId i \<or> link_status l = Link_retired"
  proof (cases "active_link (pi_artifactId i) db")
    case None
    then show ?thesis using c l by (simp add: chosen_links_def)
  next
    case (Some k)
    note k = active_link_Some [OF Some]
    have "link_id l \<noteq> link_id k" using share_links_id [OF u, of k l] k l by auto
    then show ?thesis
      using Some c l by (auto simp: chosen_links_def set_update_where image_iff split: if_splits)
  qed
qed

lemma superseded_rows:
  "q \<in> set (superseded now cur t) \<Longrightarrow>
     \<exists>r \<in> set t. pub_id q = pub_id r \<and> pub_artifactId q = pub_artifactId r \<and> pub_createdAt q = pub_createdAt r"
proof -
  assume "q \<in> set (superseded now cur t)"
  then obtain r where "r \<in> set t" "q = r \<or> q = end_publication now Superseded r"
    by (auto simp: superseded_def set_update_where split: option.splits if_splits)
  then show ?thesis by (intro bexI [of _ r]) (auto simp: end_publication_def)
qed

lemma superseded_keeps:
  "r \<in> set t \<Longrightarrow> \<exists>q \<in> set (superseded now cur t).
     pub_id q = pub_id r \<and> pub_artifactId q = pub_artifactId r \<and> pub_createdAt q = pub_createdAt r"
proof (cases cur)
  case (Some p)
  assume "r \<in> set t"
  then show ?thesis
    by (intro bexI [of _ "if pub_id r = pub_id p then end_publication now Superseded r else r"])
      (auto simp: superseded_def set_update_where Some end_publication_def)
qed (auto simp: superseded_def)

lemma resolve_retired:
  "share_links_unique (share_links db) \<Longrightarrow> l \<in> set (share_links db) \<Longrightarrow> link_status l = Link_retired \<Longrightarrow>
     resolveShareSlug t (link_slug l) db = Res_retired"
  by (simp add: resolveShareSlug_def share_links_slug)

text \<open>A publication under a key that was not used before.\<close>

lemma publish_fresh:
  assumes "publish seal unseal nonce c now txnow rnd i db = (db', Inr (Published pub link))"
    and "row_where (\<lambda>r. scope_of r = publish_scope i) (idempotency_records db) = None"
  shows "publish_write seal nonce c now txnow rnd i db = Inr (db', Published pub link)"
    and "\<not> artifact_blocked (gallery db) (pi_artifactId i)"
    and "version_of_artifact (pi_versionId i) (pi_artifactId i) db"
    and "exists_where (\<lambda>a. art_id a = pi_artifactId i \<and> art_ownerUserId a = pi_ownerUserId i) (stored_artifacts db)"
    and "\<not> expires_by (snd (snd (expirationValues (pi_expiration i) now))) now"
  using assms by (auto simp: publish_def run_tx_eq_Inr publish_body_def split: if_splits sum.splits)

text \<open>What a publication under a fresh key leaves behind.\<close>

lemma publish_done:
  fixes db :: "'x content_db_scheme"
  assumes "publish seal unseal nonce c now txnow rnd i db = (db', Inr (Published pub link))"
    and "row_where (\<lambda>r. scope_of r = publish_scope i) (idempotency_records db) = None"
    and "share_links_unique (share_links db)"
  defines "p \<equiv> new_publication txnow i (expirationValues (pi_expiration i) now)"
  obtains links row k where
    "pub = publicationView p" "link = \<lparr>la_shareSlug = link_slug row, la_state = Link_active\<rparr>"
    "(links, row) = chosen_links now txnow i rnd (active_link (pi_artifactId i) db) (share_links db)"
    "share_links_unique links"
    "k = \<lparr>cpl_evidence = encrypt seal nonce c (pi_requestHash i), cpl_responseStatus = 201,
        cpl_responseBody = published_response p (link_slug row), cpl_completedAt = now\<rparr>"
    "db' = db\<lparr>publications := superseded now (current_publication (pi_artifactId i) db) (publications db) @ [p],
        share_links := links,
        idempotency_records := update_where (\<lambda>r. scope_of r = publish_scope i) (\<lambda>r. r\<lparr>idem_completion := Some k\<rparr>)
          (idempotency_records db @ [new_publish_record txnow i rnd])\<rparr>"
  by (rule publish_write_Inr [OF publish_fresh(1) [OF assms(1,2)], folded p_def])
    (rule that, simp_all add: assms(3))



lemma superseded_ended:
  assumes "publications_unique (publications db)" "x \<in> set (superseded now (current_publication a db) (publications db))"
    "pub_artifactId x = a"
  shows "pub_endedAt x \<noteq> None"
proof
  assume live: "pub_endedAt x = None"
  have "current_publication a db \<noteq> None \<or> x \<notin> set (publications db)"
    using assms(3) live by (auto simp: current_publication_def filter_empty_conv)
  then show False
  proof (cases "current_publication a db")
    case None
    then show ?thesis using assms(2) \<open>current_publication a db \<noteq> None \<or> x \<notin> set (publications db)\<close>
      by (simp add: superseded_def)
  next
    case (Some p)
    then have p: "p \<in> set (publications db)" "pub_artifactId p = a" "pub_endedAt p = None"
      by (auto simp: current_publication_def dest!: first_row_order_desc)
    have x: "x \<in> set (publications db)" "pub_id x \<noteq> pub_id p"
      using assms(2) live Some by (auto simp: superseded_def set_update_where end_publication_def split: if_splits)
    have "x = p"
      using assms(1,3) p x(1) live unfolding publications_unique_def by (blast dest: unique_onD)
    with x show False by simp
  qed
qed

text \<open>
  A publication overtaken while it waited is never served. The transaction of a publication
  takes the creation time of its row from its own start, and may then wait for the row of the
  artifact. When a publication that started later has committed meanwhile, the new row is older
  than the superseded one, and the link resolves to nothing although the publication is current.
\<close>

theorem overtaken_publication_is_hidden:
  fixes db :: "'x content_db_scheme"
  assumes "publish seal unseal nonce c now txnow rnd i db = (db', Inr (Published pub link))"
    and "row_where (\<lambda>r. scope_of r = publish_scope i) (idempotency_records db) = None"
    and "share_links_unique (share_links db)" "publications_unique (publications db)"
    and "q \<in> set (publications db)" "pub_artifactId q = pi_artifactId i" "txnow < pub_createdAt q"
  shows "resolveShareSlug t (la_shareSlug link) db' = Res_unpublished
    \<and> (\<exists>p \<in> set (publications db'). pub_id p = pi_id i \<and> pub_artifactId p = pi_artifactId i \<and> pub_endedAt p = None)"
proof -
  let ?p = "new_publication txnow i (expirationValues (pi_expiration i) now)"
  let ?old = "superseded now (current_publication (pi_artifactId i) db) (publications db)"
  note fresh = publish_fresh [OF assms(1,2)]
  obtain links row k where link: "pub = publicationView ?p" "link = \<lparr>la_shareSlug = link_slug row, la_state = Link_active\<rparr>"
    and w: "(links, row) = chosen_links now txnow i rnd (active_link (pi_artifactId i) db) (share_links db)"
      "share_links_unique links"
    and k: "k = \<lparr>cpl_evidence = encrypt seal nonce c (pi_requestHash i), cpl_responseStatus = 201,
        cpl_responseBody = published_response ?p (link_slug row), cpl_completedAt = now\<rparr>"
    and db': "db' = db\<lparr>publications := superseded now (current_publication (pi_artifactId i) db) (publications db) @ [?p],
        share_links := links,
        idempotency_records := update_where (\<lambda>r. scope_of r = publish_scope i) (\<lambda>r. r\<lparr>idem_completion := Some k\<rparr>)
          (idempotency_records db @ [new_publish_record txnow i rnd])\<rparr>"
    by (rule publish_done [OF assms(1,2,3)])
  have pubs: "publications db' = ?old @ [?p]" by (simp add: db')
  obtain q' where q': "q' \<in> set ?old" "pub_artifactId q' = pi_artifactId i" "txnow < pub_createdAt q'"
    using superseded_keeps [OF assms(5)] assms(6,7) by metis
  obtain x where x: "findLatest (pi_artifactId i) db' = Some x"
    using q' unfolding findLatest_def pubs
    by (cases "first_row (order_desc pub_createdAt (filter (\<lambda>p. pub_artifactId p = pi_artifactId i) (?old @ [?p])))")
      (auto simp: filter_empty_conv)
  from x have mem: "x \<in> set ?old \<union> {?p}" "pub_artifactId x = pi_artifactId i" "txnow < pub_createdAt x"
    using q' first_row_order_desc [OF x [unfolded findLatest_def pubs]]
    by (auto intro: less_le_trans split: if_splits)
  then have "x \<in> set ?old" by (auto simp: new_publication_def)
  then have "pub_endedAt x \<noteq> None" using superseded_ended [OF assms(4)] mem(2) by blast
  moreover have "row_where (\<lambda>l. link_slug l = link_slug row) (share_links db') = Some row"
    using share_links_slug [OF w(2)] chosen_links(1) [OF assms(3) w(1)] by (simp add: db')
  ultimately have "resolveShareSlug t (link_slug row) db' = Res_unpublished"
    using x chosen_links(1) [OF assms(3) w(1)] by (simp add: resolveShareSlug_def)
  moreover have "?p \<in> set (publications db')" by (simp add: pubs)
  then have "\<exists>p \<in> set (publications db'). pub_id p = pi_id i \<and> pub_artifactId p = pi_artifactId i \<and> pub_endedAt p = None"
    by (rule rev_bexI) (simp add: new_publication_def)
  ultimately show ?thesis using link by simp
qed


subsection \<open>Repeating a publication\<close>

text \<open>The answer kept in an idempotency record reads back as the answer that was given.\<close>

lemma stored_result_published:
  assumes "valid_time (pub_createdAt p)" "\<And>t. pub_expiresAt p = Some t \<Longrightarrow> valid_time t"
    and "pub_endedAt p = None" "pub_endReason p = None"
  shows "stored_result (published_response p slug)
    = Inr (Published (publicationView p) \<lparr>la_shareSlug = slug, la_state = Link_active\<rparr>)"
  using assms date_of_iso_of
  by (simp add: stored_result_def published_response_def publication_json_def object_member_def string_member_def
      json_member_def publicationView_def json_option_def split: option.splits)

text \<open>
  Once a publication was answered, repeating it under its key returns the same answer at any
  time, whatever id it draws, and writes nothing; using the key for another request is a
  conflict and writes nothing either.
\<close>

lemma publish_replayed:
  fixes db :: "'x content_db_scheme"
  assumes "publish seal unseal nonce c now txnow rnd i db = (db', Inr (Published pub link))"
    and "row_where (\<lambda>r. scope_of r = publish_scope i) (idempotency_records db) = None"
    and "share_links_unique (share_links db)"
    and "sealing_laws seal unseal" "cipher_ok c" "length nonce = NONCE_BYTES"
    and "well_formed (pi_requestHash i)" "pi_requestHash i \<noteq> []"
    and "valid_time txnow" "\<And>t. snd (snd (expirationValues (pi_expiration i) now)) = Some t \<Longrightarrow> valid_time t"
    and "publish_scope j = publish_scope i"
  shows "publish seal unseal nonce' c now' txnow' rnd' j db' = (db', Inr
    (if pi_requestHash j = pi_requestHash i then Published pub link else Publish_idempotency_conflict))"
proof -
  let ?p = "new_publication txnow i (expirationValues (pi_expiration i) now)"
  note fresh = publish_fresh [OF assms(1,2)]
  obtain links row k where link: "pub = publicationView ?p" "link = \<lparr>la_shareSlug = link_slug row, la_state = Link_active\<rparr>"
    and w: "(links, row) = chosen_links now txnow i rnd (active_link (pi_artifactId i) db) (share_links db)"
      "share_links_unique links"
    and k: "k = \<lparr>cpl_evidence = encrypt seal nonce c (pi_requestHash i), cpl_responseStatus = 201,
        cpl_responseBody = published_response ?p (link_slug row), cpl_completedAt = now\<rparr>"
    and db': "db' = db\<lparr>publications := superseded now (current_publication (pi_artifactId i) db) (publications db) @ [?p],
        share_links := links,
        idempotency_records := update_where (\<lambda>r. scope_of r = publish_scope i) (\<lambda>r. r\<lparr>idem_completion := Some k\<rparr>)
          (idempotency_records db @ [new_publish_record txnow i rnd])\<rparr>"
    by (rule publish_done [OF assms(1,2,3)])
  have scope: "scope_of (new_publish_record txnow i rnd) = publish_scope i"
    by (simp add: scope_of_def new_publish_record_def publish_scope_def)
  have "scope_of (r\<lparr>idem_completion := Some k\<rparr>) = scope_of r" for r by (simp add: scope_of_def)
  then have "row_where (\<lambda>r. scope_of r = publish_scope i) (idempotency_records db')
      = map_option (\<lambda>r. r\<lparr>idem_completion := Some k\<rparr>)
          (row_where (\<lambda>r. scope_of r = publish_scope i) (idempotency_records db @ [new_publish_record txnow i rnd]))"
    unfolding db' by (simp add: row_where_update_same)
  then have "row_where (\<lambda>r. scope_of r = publish_scope i) (idempotency_records db')
      = Some ((new_publish_record txnow i rnd)\<lparr>idem_completion := Some k\<rparr>)"
    using assms(2) scope by (simp add: row_where_append)
  moreover have "requestHash_of unseal c (Some k) = Inr (Some (pi_requestHash i))"
    using encrypted_hash [OF assms(4,5,6,7,8), of k] by (simp add: k)
  then have "decrypt unseal c (cpl_evidence k) = Inr (pi_requestHash i)"
      "ev_ciphertext (cpl_evidence k) \<noteq> []" "ev_keyRevision (cpl_evidence k) \<noteq> []"
    by (auto simp: requestHash_of_def split: if_splits sum.splits)
  moreover have "\<not> falsy (cpl_responseBody k)" by (simp add: k falsy_def published_response_def)
  moreover have "stored_result (cpl_responseBody k) = Inr (Published pub link)"
    using stored_result_published [of ?p "link_slug row"] assms(9,10) link by (simp add: k new_publication_def)
  moreover have "exists_where (\<lambda>a. art_id a = pi_artifactId j \<and> art_ownerUserId a = pi_ownerUserId j) (stored_artifacts db')"
    using fresh(4) assms(11) by (simp add: db' publish_scope_def)
  ultimately show ?thesis
    by (simp add: publish_def publish_body_def publish_replay_def assms(11))
qed

subsection \<open>Runs of the store\<close>

inductive sharing_step :: "content_db \<Rightarrow> content_db \<Rightarrow> bool" where
  Step_publish: "publish seal unseal nonce c now txnow rnd i db = (db', res) \<Longrightarrow> sharing_step db db'"
| Step_unpublish: "unpublish now ownerUserId artifactId publicationId db = (db', ended) \<Longrightarrow> sharing_step db db'"
| Step_expiration: "updateExpiration now ownerUserId artifactId publicationId expiration db = (db', view)
    \<Longrightarrow> sharing_step db db'"

inductive_cases sharing_step_elim [consumes 1, case_names publish unpublish expiration]: "sharing_step db db'"

lemma publish_changes:
  assumes "publish seal unseal nonce c now txnow rnd i db = (db', res)" "db' \<noteq> db"
  obtains pub link where "publish seal unseal nonce c now txnow rnd i db = (db', Inr (Published pub link))"
    "row_where (\<lambda>r. scope_of r = publish_scope i) (idempotency_records db) = None"
proof (cases "publish_write seal nonce c now txnow rnd i db")
  case (Inr w)
  obtain db1 r where w: "w = (db1, r)" by (cases w)
  then obtain pub link where r: "r = Published pub link" using publish_write_Inr [of seal nonce c now txnow rnd i db db1 r] Inr by metis
  show thesis
    by (rule that [of pub link])
      (use assms Inr w r in \<open>auto simp: publish_def publish_body_def run_tx_def bindR_eq_Inr split: if_splits sum.splits option.splits\<close>)
qed (use assms in \<open>auto simp: publish_def publish_body_def run_tx_def bindR_eq_Inr split: if_splits sum.splits option.splits\<close>)

text \<open>How a link may change: it keeps its slug and its artifact, and a retired one is final.\<close>

definition link_kept :: "share_link_row \<Rightarrow> share_link_row \<Rightarrow> bool" where
  "link_kept l l' \<longleftrightarrow> link_slug l' = link_slug l \<and> link_artifactId l' = link_artifactId l
     \<and> (link_status l = Link_retired \<longrightarrow> l' = l)"

definition links_kept :: "share_link_row list \<Rightarrow> share_link_row list \<Rightarrow> bool" where
  "links_kept t t' \<longleftrightarrow> (\<forall>l \<in> set t. \<exists>l' \<in> set t'. link_kept l l')"

lemma links_kept_refl [simp]: "links_kept t t"
  by (auto simp: links_kept_def link_kept_def)

lemma links_kept_trans [trans]: "links_kept t u \<Longrightarrow> links_kept u v \<Longrightarrow> links_kept t v"
  unfolding links_kept_def link_kept_def by metis

lemma links_kept_append: "links_kept t u \<Longrightarrow> links_kept t (u @ v)"
  by (fastforce simp: links_kept_def)

lemma chosen_links_kept:
  assumes "share_links_unique (share_links db)"
    and "(links, row) = chosen_links now txnow i rnd (active_link a db) (share_links db)"
  shows "links_kept (share_links db) links"
proof (cases "active_link a db")
  case None
  then show ?thesis using assms(2) by (simp add: chosen_links_def links_kept_append)
next
  case (Some k)
  note k = active_link_Some [OF Some]
  let ?f = "\<lambda>l. if link_id l = link_id k then retire_link now l else l"
  have "links_kept (share_links db) (update_where (\<lambda>l. link_id l = link_id k) (retire_link now) (share_links db))"
    unfolding links_kept_def set_update_where
  proof (intro ballI bexI)
    fix l assume l: "l \<in> set (share_links db)"
    show "?f l \<in> ?f ` set (share_links db)" using l by (rule imageI)
    show "link_kept l (?f l)" using share_links_id [OF assms(1), of k l] k l by (auto simp: link_kept_def)
  qed
  then show ?thesis using assms(2) Some by (auto simp: chosen_links_def links_kept_append split: if_splits)
qed

lemma sharing_step_keeps:
  assumes "sharing_step db db'" "sharing_ok db"
  shows "sharing_ok db' \<and> links_kept (share_links db) (share_links db')"
  using assms(1)
proof (cases rule: sharing_step_elim)
  case (publish seal unseal nonce c now txnow rnd i res)
  show ?thesis
  proof (cases "db' = db")
    case False
    from publish_changes [OF publish False] obtain pub link where
      new: "publish seal unseal nonce c now txnow rnd i db = (db', Inr (Published pub link))"
        "row_where (\<lambda>r. scope_of r = publish_scope i) (idempotency_records db) = None" .
    obtain links row k where
      "(links, row) = chosen_links now txnow i rnd (active_link (pi_artifactId i) db) (share_links db)"
      "list_all share_link_row_ok (share_links db) \<Longrightarrow> list_all share_link_row_ok links"
      "share_links_unique (share_links db) \<Longrightarrow> share_links_unique links"
      "list_all publication_row_ok (publications db')" "publications_unique (publications db')"
      "share_links db' = links"
      by (rule publish_write_Inr [OF publish_fresh(1) [OF new]]) (rule that, simp_all)
    then show ?thesis using assms(2) chosen_links_kept by (auto simp: sharing_ok_def)
  qed (use assms in simp)
next
  case (unpublish now ownerUserId artifactId publicationId ended)
  then show ?thesis using assms(2)
    by (auto simp: unpublish_def run_tx_def bindR_eq_Inr write_publications_Inr sharing_ok_def split: if_splits sum.splits)
next
  case (expiration now ownerUserId artifactId publicationId e view)
  then show ?thesis using assms(2)
    by (auto simp: updateExpiration_def run_tx_def bindR_eq_Inr write_publications_Inr sharing_ok_def Let_def split: if_splits sum.splits)
qed

text \<open>
  C16: links are stable. Over any run of publications, ends and changes of expiration the
  constraints of links and publications hold, a slug never moves to another artifact, and a
  link that was retired stays retired and answers so.
\<close>

theorem retired_links_stay_retired:
  assumes "sharing_step\<^sup>*\<^sup>* db db'" "sharing_ok db"
  shows "sharing_ok db'
    \<and> (\<forall>l \<in> set (share_links db). \<exists>l' \<in> set (share_links db'). link_kept l l')
    \<and> (\<forall>l \<in> set (share_links db). link_status l = Link_retired \<longrightarrow> resolveShareSlug t (link_slug l) db' = Res_retired)"
proof -
  have kept: "sharing_ok db' \<and> links_kept (share_links db) (share_links db')"
    using assms
  proof (induction rule: rtranclp_induct)
    case (step db1 db2)
    then show ?case using sharing_step_keeps [of db1 db2] links_kept_trans by blast
  qed simp
  moreover have "resolveShareSlug t (link_slug l) db' = Res_retired"
    if "l \<in> set (share_links db)" "link_status l = Link_retired" for l
    using that kept resolve_retired [of db' l] by (auto simp: links_kept_def link_kept_def sharing_ok_def)
  ultimately show ?thesis by (auto simp: links_kept_def)
qed

subsection \<open>Witnesses\<close>

definition example_publish :: publish_input where
  "example_publish = \<lparr>pi_id = ''pub_1'', pi_ownerUserId = ''u1'', pi_artifactId = ''artifact_1'', pi_versionId = ''version_1'',
     pi_idempotencyKey = ''k'', pi_requestHash = ''abc'', pi_expiration = Exp_duration 60, pi_replaceLink = False\<rparr>"

definition example_draw :: publish_random where
  "example_draw = \<lparr>rnd_record = ''1'', rnd_link = ''1'', rnd_slug = replicate 16 0\<rparr>"

text \<open>An artifact with one version and the given publications, and one retired link.\<close>

definition shared_db :: "PublicationRecord list \<Rightarrow> content_db" where
  "shared_db ps = empty_content_db
     \<lparr>stored_artifacts := [\<lparr>art_id = ''artifact_1'', art_ownerUserId = ''u1'', art_name = ''A'', art_createdAt = 0, art_updatedAt = 0\<rparr>],
      artifact_versions := [\<lparr>ver_id = ''version_1'', ver_artifactId = ''artifact_1'', ver_ownerUserId = Some ''u1'',
        ver_contentBundleId = Some ''bundle_1'', ver_rendererRevision = Some ''r'', ver_uploadSessionId = None,
        ver_versionNumber = 1, ver_createdAt = 0, ver_readyAt = 0\<rparr>],
      publications := ps,
      share_links := [\<lparr>link_id = ''link_0'', link_artifactId = ''artifact_1'', link_slug = base64url (replicate 16 1), link_status = Link_retired,
        link_createdAt = 0, link_retiredAt = Some 1\<rparr>]\<rparr>"

definition example_old_publication :: PublicationRecord where
  "example_old_publication = \<lparr>pub_id = ''pub_0'', pub_artifactId = ''artifact_1'', pub_versionId = ''version_1'',
     pub_publishedByUserId = ''u1'', pub_expirationKind = Permanent, pub_durationSeconds = None, pub_expiresAt = None,
     pub_createdAt = 6, pub_endedAt = None, pub_endReason = None\<rparr>"

abbreviation publish_example :: "time \<Rightarrow> publish_input \<Rightarrow> content_db \<Rightarrow> content_db \<times> (repository_error + PublishResult)" where
  "publish_example txnow \<equiv>
     publish example_seal example_unseal (replicate 12 0) (example_cipher example_new_key None) 7 txnow example_draw"

lemma shared_db_facts:
  "idempotency_records (shared_db ps) = []" "share_links_unique (share_links (shared_db ps))"
  "publications (shared_db ps) = ps" "sharing_ok (shared_db [])" "publications_unique [example_old_publication]"
  by (simp_all add: shared_db_def empty_content_db_def empty_artifact_db_def artifact_db.defs share_links_unique_def unique_on_def
      sharing_ok_def share_link_row_ok_def publications_unique_def)

lemma example_published:
  assumes "ps = [] \<or> ps = [example_old_publication]"
  shows "\<exists>db' pub link. publish_example txnow example_publish (shared_db ps) = (db', Inr (Published pub link))"
  using assms
  by (auto simp: publish_def run_tx_def publish_body_def publish_write_def Let_def example_publish_def shared_db_def
      empty_content_db_def empty_artifact_db_def artifact_db.defs empty_gallery_def artifact_blocked_def exists_where_def
      version_of_artifact_def expirationValues_def expires_by_def insert_publish_record_def idempotency_records_unique_def unique_on_def
      supersede_current_def current_publication_def choose_link_def active_link_def first_row_def order_desc_def example_old_publication_def
      write_publications_def check_publications_def publication_row_ok_def publications_unique_def new_publication_def
      end_publication_def write_share_links_def check_share_links_def share_link_row_ok_def share_links_unique_def new_link_def example_draw_def
      bindR_def)


lemma overtaken_publication_is_hidden_witness:
  "\<exists>db' pub link. publish_example 5 example_publish (shared_db [example_old_publication]) = (db', Inr (Published pub link))
    \<and> resolveShareSlug 8 (la_shareSlug link) db' = Res_unpublished"
proof -
  obtain db' pub link where
    p: "publish_example 5 example_publish (shared_db [example_old_publication]) = (db', Inr (Published pub link))"
    using example_published [of "[example_old_publication]"] by blast
  have "resolveShareSlug 8 (la_shareSlug link) db' = Res_unpublished"
    using overtaken_publication_is_hidden [OF p, of example_old_publication 8]
    by (simp add: shared_db_facts) (simp add: example_old_publication_def example_publish_def)
  then show ?thesis using p by blast
qed

lemma retired_links_stay_retired_witness:
  "resolveShareSlug 3 (base64url (replicate 16 1)) (fst (publish_example 5 example_publish (shared_db []))) = Res_retired"
proof -
  have "sharing_step (shared_db []) (fst (publish_example 5 example_publish (shared_db [])))"
    by (rule Step_publish [OF prod.collapse [symmetric]])
  then have "sharing_step\<^sup>*\<^sup>* (shared_db []) (fst (publish_example 5 example_publish (shared_db [])))" ..
  from retired_links_stay_retired [OF this, of 3] show ?thesis
    by (simp add: shared_db_facts) (simp add: shared_db_def)
qed

end
