(* ===== verification/Json_Parse.thy ===== *)
theory Json_Parse
  imports Json Text_Decoding "HOL-Library.AList"
begin

text \<open>
  \<open>JSON.parse\<close>: the value of a JSON text. The fuel of the parser is the depth of its
  recursion; twice the length of the text is enough. A number that is not an integer of at
  most 2^53 - 1 keeps its text; a repeated key keeps its last value. The lemmas show that
  \<open>JSON.parse\<close> reads back what \<open>JSON.stringify\<close> writes.
\<close>

definition json_trim :: "js_string \<Rightarrow> js_string" where
  "json_trim s = dropWhile json_space s"

subsection \<open>Strings\<close>

definition hex_digit_value :: "char \<Rightarrow> nat" where
  "hex_digit_value c =
     (let n = byte_of c in if n \<le> 57 then n - 48 else if n \<le> 70 then n - 55 else n - 87)"

definition hex4 :: "js_string \<Rightarrow> (nat \<times> js_string) option" where
  "hex4 s =
     (if 4 \<le> length s \<and> list_all json_hex (take 4 s)
      then Some (foldl (\<lambda>a c. 16 * a + hex_digit_value c) 0 (take 4 s), drop 4 s) else None)"

text \<open>The UTF-8 text of a code point; a lone surrogate has three bytes, too.\<close>

definition code_point_text :: "nat \<Rightarrow> js_string" where
  "code_point_text n =
     (if n < 128 then [char_of n]
      else if n < 2048 then [char_of (192 + n div 64), char_of (128 + n mod 64)]
      else if n < 65536 then
        [char_of (224 + n div 4096), char_of (128 + n div 64 mod 64), char_of (128 + n mod 64)]
      else [char_of (240 + n div 262144), char_of (128 + n div 4096 mod 64),
            char_of (128 + n div 64 mod 64), char_of (128 + n mod 64)])"

text \<open>What follows \<open>\\u\<close>: one code unit, or a surrogate pair in two escapes.\<close>

definition unicode_escape :: "js_string \<Rightarrow> (js_string \<times> js_string) option" where
  "unicode_escape s =
     (case hex4 s of
        None \<Rightarrow> None
      | Some (u, r) \<Rightarrow>
          (case (if 55296 \<le> u \<and> u \<le> 56319 \<and> take 2 r = [CHR 0x5C, CHR ''u''] then hex4 (drop 2 r) else None) of
             Some (v, r') \<Rightarrow>
               if 56320 \<le> v \<and> v \<le> 57343
               then Some (code_point_text (65536 + (u - 55296) * 1024 + (v - 56320)), r')
               else Some (code_point_text u, r)
           | None \<Rightarrow> Some (code_point_text u, r)))"

text \<open>The next character of a string, without its end.\<close>

definition string_char :: "js_string \<Rightarrow> (js_string \<times> js_string) option" where
  "string_char s =
     (case s of
        [] \<Rightarrow> None
      | c # r \<Rightarrow>
          if byte_of c < 32 \<or> c = CHR 0x22 then None
          else if c \<noteq> CHR 0x5C then Some ([c], r)
          else case r of
            [] \<Rightarrow> None
          | d # r \<Rightarrow>
              if d = CHR 0x22 \<or> d = CHR 0x5C \<or> d = CHR ''/'' then Some ([d], r)
              else if d = CHR ''b'' then Some ([CHR 0x08], r)
              else if d = CHR ''t'' then Some ([CHR 0x09], r)
              else if d = CHR ''n'' then Some ([CHR 0x0A], r)
              else if d = CHR ''f'' then Some ([CHR 0x0C], r)
              else if d = CHR ''r'' then Some ([CHR 0x0D], r)
              else if d = CHR ''u'' then unicode_escape r
              else None)"

text \<open>The string up to its closing quote; the fuel is at least the length of the text.\<close>

fun parse_string :: "nat \<Rightarrow> js_string \<Rightarrow> (js_string \<times> js_string) option" where
  "parse_string 0 s = None"
| "parse_string (Suc n) s =
     (if s \<noteq> [] \<and> hd s = CHR 0x22 then Some ([], tl s)
      else case string_char s of
        None \<Rightarrow> None
      | Some (w, r) \<Rightarrow>
          (case parse_string n r of None \<Rightarrow> None | Some (ws, r') \<Rightarrow> Some (w @ ws, r')))"

subsection \<open>Numbers\<close>

definition digit_run :: "js_string \<Rightarrow> js_string \<times> js_string" where
  "digit_run s = (takeWhile json_digit s, dropWhile json_digit s)"

definition nat_of_digits :: "js_string \<Rightarrow> nat" where
  "nat_of_digits s = foldl (\<lambda>a c. 10 * a + (byte_of c - 48)) 0 s"

text \<open>Whether a fraction or an exponent follows, and its text.\<close>

definition fraction_part :: "js_string \<Rightarrow> (js_string \<times> js_string) option" where
  "fraction_part s =
     (case s of
        [] \<Rightarrow> Some ([], s)
      | c # r \<Rightarrow>
          if c \<noteq> CHR ''.'' then Some ([], s)
          else case digit_run r of (ds, r') \<Rightarrow> if ds = [] then None else Some (c # ds, r'))"

definition exponent_part :: "js_string \<Rightarrow> (js_string \<times> js_string) option" where
  "exponent_part s =
     (case s of
        [] \<Rightarrow> Some ([], s)
      | c # r \<Rightarrow>
          if c \<noteq> CHR ''e'' \<and> c \<noteq> CHR ''E'' then Some ([], s)
          else
            let (sign, r) = (case r of [] \<Rightarrow> ([], r)
                | d # r' \<Rightarrow> if d = CHR ''+'' \<or> d = CHR ''-'' then ([d], r') else ([], r))
            in case digit_run r of (ds, r') \<Rightarrow> if ds = [] then None else Some (c # sign @ ds, r'))"

text \<open>
  The value of a number: the digits of its integer part and its fraction, scaled by its
  exponent, when that is an integer the format holds exactly.
\<close>

definition exponent_value :: "js_string \<Rightarrow> int" where
  "exponent_value e =
     (case e of
        [] \<Rightarrow> 0
      | _ # r \<Rightarrow>
          (case r of
             [] \<Rightarrow> 0
           | d # ds \<Rightarrow>
               if d = CHR ''-'' then - int (nat_of_digits ds)
               else if d = CHR ''+'' then int (nat_of_digits ds) else int (nat_of_digits r)))"

definition number_value :: "bool \<Rightarrow> js_string \<Rightarrow> js_string \<Rightarrow> js_string \<Rightarrow> json" where
  "number_value negative ds f e =
     (let digits = int (nat_of_digits (ds @ tl f));
          scale = exponent_value e - int (length (tl f));
          text = (if negative then ''-'' else []) @ ds @ f @ e;
          scaled = (if digits = 0 then Some 0
             else if 20 < scale then None
             else if 0 \<le> scale then Some (digits * 10 ^ nat scale)
             else if int (length ds + length f) < - scale then None
             else if digits mod 10 ^ nat (- scale) = 0 then Some (digits div 10 ^ nat (- scale)) else None)
      in case scaled of
           Some n \<Rightarrow> if n \<le> 9007199254740991 then JNum (if negative then - n else n) else JReal text
         | None \<Rightarrow> JReal text)"

definition parse_magnitude :: "bool \<Rightarrow> js_string \<Rightarrow> (json \<times> js_string) option" where
  "parse_magnitude negative s =
     (case digit_run s of (ds, r) \<Rightarrow>
        if ds = [] then None
        else
          let (ds, r) = (if hd ds = CHR ''0'' then ([hd ds], tl s) else (ds, r)) in
          case fraction_part r of
            None \<Rightarrow> None
          | Some (f, r) \<Rightarrow>
              (case exponent_part r of
                 None \<Rightarrow> None
               | Some (e, r) \<Rightarrow> Some (number_value negative ds f e, r)))"

definition parse_number :: "js_string \<Rightarrow> (json \<times> js_string) option" where
  "parse_number s =
     (if s \<noteq> [] \<and> hd s = CHR ''-'' then parse_magnitude True (tl s) else parse_magnitude False s)"

subsection \<open>Values\<close>

definition parse_literal :: "js_string \<Rightarrow> (json \<times> js_string) option" where
  "parse_literal s =
     (if starts_with ''true'' s then Some (JBool True, drop 4 s)
      else if starts_with ''false'' s then Some (JBool False, drop 5 s)
      else if starts_with ''null'' s then Some (JNull, drop 4 s)
      else parse_number s)"

text \<open>The members of an object, a repeated key at its first place with its last value.\<close>

definition object_of :: "(js_string \<times> json) list \<Rightarrow> json" where
  "object_of kvs = JObj (fold (\<lambda>(k, v). AList.update k v) kvs [])"

fun parse_value :: "nat \<Rightarrow> js_string \<Rightarrow> (json \<times> js_string) option"
  and parse_elements :: "nat \<Rightarrow> js_string \<Rightarrow> (json list \<times> js_string) option"
  and parse_members :: "nat \<Rightarrow> js_string \<Rightarrow> ((js_string \<times> json) list \<times> js_string) option" where
  "parse_value 0 s = None"
| "parse_value (Suc n) s =
     (case json_trim s of
        [] \<Rightarrow> None
      | c # r \<Rightarrow>
          if c = CHR 0x22 then map_option (\<lambda>(w, r). (JStr w, r)) (parse_string (Suc (length r)) r)
          else if c = CHR ''['' then
            (case json_trim r of
               [] \<Rightarrow> None
             | d # t \<Rightarrow> if d = CHR '']'' then Some (JArr [], t)
                 else map_option (\<lambda>(vs, r). (JArr vs, r)) (parse_elements n r))
          else if c = CHR ''{'' then
            (case json_trim r of
               [] \<Rightarrow> None
             | d # t \<Rightarrow> if d = CHR ''}'' then Some (JObj [], t)
                 else map_option (\<lambda>(kvs, r). (object_of kvs, r)) (parse_members n r))
          else parse_literal (c # r))"
| "parse_elements 0 s = None"
| "parse_elements (Suc n) s =
     (case parse_value n s of
        None \<Rightarrow> None
      | Some (v, r) \<Rightarrow>
          (case json_trim r of
             [] \<Rightarrow> None
           | c # r \<Rightarrow>
               if c = CHR '']'' then Some ([v], r)
               else if c = CHR '','' then map_option (\<lambda>(vs, r). (v # vs, r)) (parse_elements n r)
               else None))"
| "parse_members 0 s = None"
| "parse_members (Suc n) s =
     (case json_trim s of
        [] \<Rightarrow> None
      | q # r \<Rightarrow>
          if q \<noteq> CHR 0x22 then None
          else case parse_string (Suc (length r)) r of
            None \<Rightarrow> None
          | Some (k, r) \<Rightarrow>
              (case json_trim r of
                 [] \<Rightarrow> None
               | c # r \<Rightarrow>
                   if c \<noteq> CHR '':'' then None
                   else case parse_value n r of
                     None \<Rightarrow> None
                   | Some (v, r) \<Rightarrow>
                       (case json_trim r of
                          [] \<Rightarrow> None
                        | c # r \<Rightarrow>
                            if c = CHR ''}'' then Some ([(k, v)], r)
                            else if c = CHR '','' then map_option (\<lambda>(kvs, r). ((k, v) # kvs, r)) (parse_members n r)
                            else None)))"

definition json_parse :: "js_string \<Rightarrow> json option" where
  "json_parse s =
     (case parse_value (2 * length s + 2) s of
        None \<Rightarrow> None
      | Some (v, r) \<Rightarrow> if json_trim r = [] then Some v else None)"

subsection \<open>Reading back what was written\<close>

lemma hex_digit_simps [simp]:
  "n < 16 \<Longrightarrow> json_hex (hex_digit n)" "n < 16 \<Longrightarrow> hex_digit_value (hex_digit n) = n"
  by (auto simp: json_hex_def json_digit_def hex_digit_def hex_digit_value_def Let_def)

lemma hex4_control:
  assumes "n < 32"
  shows "hex4 (CHR ''0'' # CHR ''0'' # hex_digit (n div 16) # hex_digit (n mod 16) # r) = Some (n, r)"
proof -
  have "n div 16 < 16" using assms by simp
  moreover have "json_hex CHR ''0''" "hex_digit_value CHR ''0'' = 0"
    by code_simp+
  ultimately show ?thesis by (simp add: hex4_def)
qed

lemma string_char_escape: "string_char (json_escape c @ r) = Some ([c], r)"
proof (cases "byte_of c < 32")
  case True
  have "unicode_escape (CHR ''0'' # CHR ''0'' # hex_digit (byte_of c div 16) # hex_digit (byte_of c mod 16) # r)
      = Some ([c], r)"
    using True unfolding unicode_escape_def hex4_control [OF True] by (simp add: code_point_text_def)
  then show ?thesis
    using True by (auto simp: json_escape_def string_char_def Let_def)
next
  case False
  then show ?thesis by (auto simp: json_escape_def string_char_def Let_def)
qed

lemma json_escape_not_quote: "hd (json_escape c @ r) \<noteq> CHR 0x22" "json_escape c \<noteq> []"
  by (auto simp: json_escape_def Let_def)

lemma parse_string_quoted:
  "length (concat (map json_escape s)) < n \<Longrightarrow>
     parse_string n (concat (map json_escape s) @ CHR 0x22 # r) = Some (s, r)"
proof (induction s arbitrary: n)
  case Nil
  then show ?case by (cases n) simp_all
next
  case (Cons c s)
  then obtain m where n: "n = Suc m" by (cases n) simp_all
  have "1 \<le> length (json_escape c)" using json_escape_not_quote(2) [of c] by (cases "json_escape c") simp_all
  then have "length (concat (map json_escape s)) < m" using Cons.prems n by simp
  from Cons.IH [OF this] show ?case
    using json_escape_not_quote [of c] by (simp add: n string_char_escape)
qed

lemma object_of_distinct: "distinct (map fst kvs) \<Longrightarrow> object_of kvs = JObj kvs"
proof -
  have "distinct (map fst (acc @ kvs)) \<Longrightarrow> fold (\<lambda>(k, v). AList.update k v) kvs acc = acc @ kvs" for acc
  proof (induction kvs arbitrary: acc)
    case (Cons kv kvs)
    have "fst kv \<notin> fst ` set acc" using Cons.prems by auto
    then have "AList.update (fst kv) (snd kv) acc = acc @ [kv]"
      by (induction acc) (auto simp: case_prod_unfold)
    with Cons.IH [of "acc @ [kv]"] Cons.prems show ?case by (simp add: case_prod_unfold)
  qed simp
  from this [of "[]"] show "distinct (map fst kvs) \<Longrightarrow> object_of kvs = JObj kvs"
    by (simp add: object_of_def)
qed

text \<open>What a number may be followed by.\<close>

definition ends_number :: "js_string \<Rightarrow> bool" where
  "ends_number r \<longleftrightarrow>
     (case r of [] \<Rightarrow> True | c # _ \<Rightarrow> \<not> json_digit c \<and> c \<noteq> CHR ''.'' \<and> c \<noteq> CHR ''e'' \<and> c \<noteq> CHR ''E'')"

lemma byte_of_digit [simp]: "n < 10 \<Longrightarrow> byte_of (char_of (48 + n)) = 48 + n"
  by (simp add:)

lemma char_of_zero [simp]: "char_of (48 :: nat) = CHR ''0''"
  by code_simp

lemma decimal_digits:
  "list_all json_digit (decimal n)" "decimal n \<noteq> []" "nat_of_digits (decimal n) = n"
  "hd (decimal n) = CHR ''0'' \<longleftrightarrow> n = 0"
proof (induction n rule: decimal.induct)
  case (1 n)
  have last: "json_digit (char_of (48 + k))" if "k < 10" for k :: nat
    using that by (simp add: json_digit_def)
  have zero: "n < 10 \<Longrightarrow> char_of (48 + n) = CHR ''0'' \<longleftrightarrow> n = 0"
  proof
    assume "n < 10" "char_of (48 + n) = CHR ''0''"
    with byte_of_digit [of n] show "n = 0" by simp
  qed simp
  { case 1 show ?case using "1.IH" last by (subst decimal.simps) auto }
  { case 2 show ?case by (subst decimal.simps) simp }
  { case 3 show ?case using "1.IH" by (subst decimal.simps) (auto simp: nat_of_digits_def) }
  { case 4 show ?case using "1.IH" zero by (subst decimal.simps) (auto simp: hd_append) }
qed

lemma digit_run_decimal: "ends_number r \<Longrightarrow> digit_run (decimal n @ r) = (decimal n, r)"
proof -
  assume r: "ends_number r"
  have "takeWhile json_digit r = []" "dropWhile json_digit r = r"
    using r by (cases r; simp add: ends_number_def)+
  moreover have "\<forall>c \<in> set (decimal n). json_digit c"
    using decimal_digits(1) [of n] by (simp add: list_all_iff)
  ultimately show ?thesis
    by (simp add: digit_run_def takeWhile_append2 dropWhile_append2)
qed

lemma number_tail:
  assumes "ends_number r"
  shows "fraction_part r = Some ([], r)" "exponent_part r = Some ([], r)"
  using assms by (cases r; simp add: fraction_part_def exponent_part_def ends_number_def)+

lemma parse_decimal:
  assumes r: "ends_number r" and i: "\<bar>i\<bar> \<le> 9007199254740991"
  shows "parse_number (decimal_int i @ r) = Some (JNum i, r)"
proof -
  define n where "n = nat \<bar>i\<bar>"
  obtain c cs where c: "decimal n = c # cs" using decimal_digits(2) [of n] by (cases "decimal n") auto
  have digit: "json_digit c" and zero: "c = CHR ''0'' \<longleftrightarrow> n = 0"
    using decimal_digits(1,4) [of n] by (simp_all add: c)
  then have c_sign: "c \<noteq> CHR ''-''" by (auto simp: json_digit_def)
  have n0: "n = 0 \<Longrightarrow> decimal n = ''0''" by (subst decimal.simps) simp
  have lead: "(if hd (decimal n) = CHR ''0'' then ([hd (decimal n)], tl (decimal n @ r)) else (decimal n, r)) = (decimal n, r)"
    using zero n0 c by (cases "n = 0") auto
  have "exponent_value [] = 0" by (simp add: exponent_value_def)
  then have num: "number_value b (decimal n) [] [] = JNum (if b then - int n else int n)" for b
    using i by (simp add: number_value_def decimal_digits n_def Let_def)
  have body: "parse_magnitude b (decimal n @ r) = Some (JNum (if b then - int n else int n), r)" for b
    unfolding parse_magnitude_def digit_run_decimal [OF r] prod.case lead
    by (simp add: decimal_digits number_tail [OF r] num)
  show ?thesis
  proof (cases "i < 0")
    case True
    then have "decimal_int i = CHR ''-'' # decimal n" "i = - int n" by (simp_all add: decimal_int_def n_def)
    with body [of True] show ?thesis by (simp add: parse_number_def)
  next
    case False
    then have "decimal_int i = decimal n" "i = int n" by (simp_all add: decimal_int_def n_def)
    with body [of False] c_sign show ?thesis by (simp add: parse_number_def c)
  qed
qed

text \<open>The values that \<open>JSON.stringify\<close> writes exactly.\<close>

fun json_plain :: "json \<Rightarrow> bool" where
  "json_plain JNull = True"
| "json_plain (JBool b) = True"
| "json_plain (JNum i) = (\<bar>i\<bar> \<le> 9007199254740991)"
| "json_plain (JReal s) = False"
| "json_plain (JStr s) = True"
| "json_plain (JArr xs) = list_all json_plain xs"
| "json_plain (JObj kvs) = (distinct (map fst kvs) \<and> list_all (\<lambda>(k, v). json_plain v) kvs)"

lemma stringify_first:
  assumes "json_plain v"
  obtains c s where "stringify v = c # s" "\<not> json_space c" "c \<noteq> CHR '']''"
proof (cases v)
  case (JNum i)
  obtain c s where c: "decimal (nat \<bar>i\<bar>) = c # s" using decimal_digits(2) [of "nat \<bar>i\<bar>"] by (cases "decimal (nat \<bar>i\<bar>)") auto
  moreover have "json_digit c" using decimal_digits(1) [of "nat \<bar>i\<bar>"] by (simp add: c)
  then have "\<not> json_space c" "c \<noteq> CHR '']''" by (auto simp: json_digit_def json_space_def)
  ultimately show thesis
    using that [of "CHR ''-''" "c # s"] that [of c s] JNum
    by (cases "i < 0") (simp_all add: decimal_int_def json_space_def)
next
  case (JBool b)
  then show thesis using that by (cases b) (simp_all add: json_space_def)
qed (use assms that in \<open>simp_all add: json_space_def json_quote_def\<close>)

lemma json_trim_stringify: "json_plain v \<Longrightarrow> json_trim (stringify v @ r) = stringify v @ r"
  by (erule stringify_first) (simp add: json_trim_def)

lemma json_trim_char: "\<not> json_space c \<Longrightarrow> json_trim (c # r) = c # r"
  by (simp add: json_trim_def)

lemma parse_literals:
  "parse_literal (''true'' @ r) = Some (JBool True, r)"
  "parse_literal (''false'' @ r) = Some (JBool False, r)"
  "parse_literal (''null'' @ r) = Some (JNull, r)"
  by (simp_all add: parse_literal_def)

lemma comma_separated_Cons:
  "comma_separated (w # ws) = (if ws = [] then w else w @ CHR '','' # comma_separated ws)"
  by (cases ws) (simp_all add: comma_separated_def)

definition reads_back :: "json \<Rightarrow> bool" where
  "reads_back v \<longleftrightarrow>
     (\<forall>n r. ends_number r \<longrightarrow> 2 * length (stringify v) \<le> n \<longrightarrow> parse_value n (stringify v @ r) = Some (v, r))"

lemma reads_backD:
  "reads_back v \<Longrightarrow> ends_number r \<Longrightarrow> 2 * length (stringify v) \<le> n \<Longrightarrow> parse_value n (stringify v @ r) = Some (v, r)"
  unfolding reads_back_def by blast

lemma parse_elements_stringify:
  assumes "\<forall>v \<in> set vs. reads_back v" "vs \<noteq> []"
    "2 * length (comma_separated (map stringify vs)) + 1 \<le> n"
  shows "parse_elements n (comma_separated (map stringify vs) @ CHR '']'' # r) = Some (vs, r)"
  using assms
proof (induction vs arbitrary: n)
  case (Cons v vs)
  then obtain m where n: "n = Suc m" by (cases n) simp_all
  have v: "parse_value m (stringify v @ s) = Some (v, s)" if "ends_number s" for s
    using Cons.prems that by (simp add: reads_back_def n comma_separated_Cons split: if_splits)
  show ?case
  proof (cases "vs = []")
    case True
    then show ?thesis
      by (simp add: n v comma_separated_Cons ends_number_def json_digit_def json_trim_char json_space_def)
  next
    case False
    then have "parse_elements m (comma_separated (map stringify vs) @ CHR '']'' # r) = Some (vs, r)"
      using Cons.prems by (intro Cons.IH) (simp_all add: n comma_separated_Cons)
    with False show ?thesis
      by (simp add: n v comma_separated_Cons ends_number_def json_digit_def json_trim_char json_space_def)
  qed
qed simp

lemma parse_members_stringify:
  assumes "\<forall>(k, v) \<in> set kvs. reads_back v" "kvs \<noteq> []"
    "2 * length (comma_separated (map (\<lambda>(k, v). json_quote k @ CHR '':'' # stringify v) kvs)) + 1 \<le> n"
  shows "parse_members n (comma_separated (map (\<lambda>(k, v). json_quote k @ CHR '':'' # stringify v) kvs) @ CHR ''}'' # r)
    = Some (kvs, r)"
  using assms
proof (induction kvs arbitrary: n)
  case (Cons kv kvs)
  then obtain m where n: "n = Suc m" by (cases n) simp_all
  obtain k v where kv: "kv = (k, v)" by fastforce
  have v: "parse_value m (stringify v @ s) = Some (v, s)" if "ends_number s" for s
    using Cons.prems that by (simp add: kv reads_back_def n comma_separated_Cons split: if_splits)
  have k: "parse_string (Suc (length (concat (map json_escape k) @ CHR 0x22 # s))) (concat (map json_escape k) @ CHR 0x22 # s) = Some (k, s)" for s
    by (rule parse_string_quoted) simp
  show ?case
  proof (cases "kvs = []")
    case True
    then show ?thesis
      using k [of "CHR '':'' # stringify v @ CHR ''}'' # r"]
      by (simp add: n kv v comma_separated_Cons json_quote_def ends_number_def json_digit_def json_trim_char
          json_space_def del: parse_string.simps)
  next
    case False
    let ?rest = "comma_separated (map (\<lambda>(k, v). json_quote k @ CHR '':'' # stringify v) kvs) @ CHR ''}'' # r"
    have "parse_members m ?rest = Some (kvs, r)"
      using Cons.prems False by (intro Cons.IH) (simp_all add: n kv comma_separated_Cons)
    with False show ?thesis
      using k [of "CHR '':'' # stringify v @ CHR '','' # ?rest"]
      by (simp add: n kv v comma_separated_Cons json_quote_def ends_number_def json_digit_def json_trim_char
          json_space_def del: parse_string.simps)
  qed
qed simp

text \<open>\<open>JSON.parse(JSON.stringify(v))\<close> is \<open>v\<close>.\<close>

lemma reads_back: "json_plain v \<Longrightarrow> reads_back v"
proof (induction v)
  case (JStr s)
  show ?case
    unfolding reads_back_def
  proof (intro allI impI)
    fix n r assume "2 * length (stringify (JStr s)) \<le> n"
    then obtain m where n: "n = Suc m" by (cases n) (simp_all add: json_quote_def)
    have "parse_string (Suc (length (concat (map json_escape s) @ CHR 0x22 # r))) (concat (map json_escape s) @ CHR 0x22 # r) = Some (s, r)"
      by (rule parse_string_quoted) simp
    then show "parse_value n (stringify (JStr s) @ r) = Some (JStr s, r)"
      by (simp add: n json_quote_def json_trim_char json_space_def del: parse_string.simps)
  qed
next
  case (JArr xs)
  show ?case
    unfolding reads_back_def
  proof (intro allI impI)
    fix n r assume le: "2 * length (stringify (JArr xs)) \<le> n"
    then obtain m where n: "n = Suc m" by (cases n) simp_all
    show "parse_value n (stringify (JArr xs) @ r) = Some (JArr xs, r)"
    proof (cases "xs = []")
      case True
      then show ?thesis by (simp add: n comma_separated_def json_trim_char json_space_def)
    next
      case False
      then obtain x ys where xs: "xs = x # ys" by (cases xs) auto
      have el: "parse_elements m (comma_separated (map stringify xs) @ CHR '']'' # r) = Some (xs, r)"
        using JArr False le by (intro parse_elements_stringify) (auto simp: n list_all_iff)
      obtain c s where c: "stringify x = c # s" "\<not> json_space c" "c \<noteq> CHR '']''"
        using stringify_first [of x] JArr.prems by (auto simp: xs)
      then obtain t where t: "comma_separated (map stringify xs) = c # t"
        by (cases "ys = []") (simp_all add: xs comma_separated_Cons)
      with el c show ?thesis by (simp add: n json_trim_char json_space_def)
    qed
  qed
next
  case (JObj kvs)
  show ?case
    unfolding reads_back_def
  proof (intro allI impI)
    let ?text = "comma_separated (map (\<lambda>(k, v). json_quote k @ CHR '':'' # stringify v) kvs)"
    fix n r assume le: "2 * length (stringify (JObj kvs)) \<le> n"
    then obtain m where n: "n = Suc m" by (cases n) simp_all
    show "parse_value n (stringify (JObj kvs) @ r) = Some (JObj kvs, r)"
    proof (cases "kvs = []")
      case True
      then show ?thesis by (simp add: n comma_separated_def json_trim_char json_space_def)
    next
      case False
      then obtain k v ys where kvs: "kvs = (k, v) # ys" by (cases kvs) auto
      have "\<forall>(k, v) \<in> set kvs. reads_back v"
        using JObj by (fastforce simp: list_all_iff)
      then have el: "parse_members m (?text @ CHR ''}'' # r) = Some (kvs, r)"
        using False le by (intro parse_members_stringify) (simp_all add: n)
      obtain t where t: "?text = CHR 0x22 # t"
        by (cases "ys = []") (simp_all add: kvs comma_separated_Cons json_quote_def)
      from el JObj.prems show ?thesis
        by (simp add: n t object_of_distinct json_trim_char json_space_def)
    qed
  qed
next
  case (JNum i)
  show ?case
    unfolding reads_back_def
  proof (intro allI impI)
    fix n r assume r: "ends_number r" and le: "2 * length (stringify (JNum i)) \<le> n"
    obtain c s where c: "stringify (JNum i) = c # s" "\<not> json_space c"
      using stringify_first [OF JNum.prems] by blast
    then obtain m where n: "n = Suc m" using le by (cases n) auto
    have "c \<noteq> CHR 0x22 \<and> c \<noteq> CHR ''['' \<and> c \<noteq> CHR ''{'' \<and> \<not> starts_with ''true'' (c # s @ r)
        \<and> \<not> starts_with ''false'' (c # s @ r) \<and> \<not> starts_with ''null'' (c # s @ r)"
    proof -
      have "c = CHR ''-'' \<or> json_digit c"
        using c(1) decimal_digits(1,2) [of "nat \<bar>i\<bar>"]
        by (cases "decimal (nat \<bar>i\<bar>)") (auto simp: decimal_int_def split: if_splits)
      then show ?thesis by (auto simp: json_digit_def starts_with_def)
    qed
    with c parse_decimal [OF r, of i] JNum.prems
    show "parse_value n (stringify (JNum i) @ r) = Some (JNum i, r)"
      by (simp add: n json_trim_char parse_literal_def)
  qed
next
  case (JBool b)
  show ?case
    unfolding reads_back_def
  proof (intro allI impI)
    fix n r assume "2 * length (stringify (JBool b)) \<le> n"
    then obtain m where "n = Suc m" by (cases n) (simp_all split: if_splits)
    then show "parse_value n (stringify (JBool b) @ r) = Some (JBool b, r)"
      by (cases b) (simp_all add: json_trim_char json_space_def parse_literals [simplified])
  qed
next
  case JNull
  show ?case
    unfolding reads_back_def
  proof (intro allI impI)
    fix n r assume "2 * length (stringify JNull) \<le> n"
    then obtain m where "n = Suc m" by (cases n) simp_all
    then show "parse_value n (stringify JNull @ r) = Some (JNull, r)"
      by (simp add: json_trim_char json_space_def parse_literals [simplified])
  qed
qed simp

lemma json_parse_stringify: "json_plain v \<Longrightarrow> json_parse (stringify v) = Some v"
proof -
  assume "json_plain v"
  then have "parse_value (2 * length (stringify v) + 2) (stringify v @ []) = Some (v, [])"
    using reads_back [of v] by (intro reads_backD) (simp_all add: ends_number_def)
  then show ?thesis by (simp add: json_parse_def json_trim_def)
qed

end
