(* ===== verification/Publication_Viewer.thy ===== *)
theory Publication_Viewer
  imports Publication_Laws Json_Parse
begin

text \<open>
  The viewer service of \<open>api/src/application/artifacts/publication-viewer.ts\<close> over the
  publication store: the canonical form of a requested path, the hash a publication is
  recognised by, and the operations of the service with their errors. \<open>URL\<close> is the standard
  one: a base64url slug needs no escaping, so the link of a slug is the serialised origin of
  the viewer followed by its path. The digest is a parameter.
\<close>

datatype PublicationViewerErrorCode =
    Viewer_artifact_not_found
  | Viewer_version_not_found
  | Viewer_version_not_ready
  | Viewer_asset_not_found
  | Viewer_operation_in_progress
  | Viewer_idempotency_conflict
  | Viewer_invalid_request
  | Viewer_invalid_expiration
  | Viewer_governance_blocked

datatype viewer_error = Viewer_refused PublicationViewerErrorCode | Viewer_failed repository_error

record link_choice =
  lc_replace :: bool
  lc_confirmRetire :: bool

record ShareLinkView =
  sl_url :: js_string
  sl_state :: share_link_status

record publish_request =
  pr_ownerUserId :: js_string
  pr_artifactId :: js_string
  pr_versionId :: js_string
  pr_idempotencyKey :: js_string
  pr_expiration :: PublicationExpiration
  pr_link :: link_choice

datatype ViewerResolution = Viewer_state ShareResolution | Viewer_asset ContentAsset js_string

subsection \<open>Requested paths\<close>

text \<open>
  \<open>decodeURIComponent\<close>: every \<open>%\<close> begins an escape of two hexadecimal digits, and the decoded
  bytes must be UTF-8. (In a well-formed text an escaped byte can complete no unescaped
  sequence, so the whole may be checked at once.)
\<close>

fun percent_decode :: "js_string \<Rightarrow> js_string option" where
  "percent_decode [] = Some []"
| "percent_decode (c # s) =
     (if c \<noteq> CHR ''%'' then map_option (Cons c) (percent_decode s)
      else case s of
        h # l # t \<Rightarrow>
          if json_hex h \<and> json_hex l
          then map_option (Cons (char_of (16 * hex_digit_value h + hex_digit_value l))) (percent_decode t)
          else None
      | _ \<Rightarrow> None)"

definition decodeURIComponent :: "js_string \<Rightarrow> js_string option" where
  "decodeURIComponent s =
     (case percent_decode s of None \<Rightarrow> None | Some t \<Rightarrow> if well_formed t then Some t else None)"

definition normalizeContentPath :: "js_string \<Rightarrow> js_string option" where
  "normalizeContentPath rawPath =
     (case decodeURIComponent rawPath of
        None \<Rightarrow> None
      | Some path \<Rightarrow>
          if path = [] \<or> starts_with ''/'' path \<or> ends_with ''/'' path
            \<or> includes_char (CHR 0x5C) path \<or> includes_char (CHR 0x00) path then None
          else
            let segments = split_on (CHR ''/'') path in
            if list_ex (\<lambda>segment. segment = [] \<or> segment = ''.'' \<or> segment = ''..'') segments then None
            else Some (join_with (CHR ''/'') segments))"

subsection \<open>The request hash\<close>

definition expiration_json :: "PublicationExpiration \<Rightarrow> json" where
  "expiration_json e =
     (case e of
        Exp_permanent \<Rightarrow> JObj [(''kind'', JStr ''permanent'')]
      | Exp_duration s \<Rightarrow> JObj [(''kind'', JStr ''duration''), (''durationSeconds'', JNum s)]
      | Exp_exact t \<Rightarrow> JObj [(''kind'', JStr ''exact''), (''expiresAt'', JStr (iso_of t))])"

definition link_json :: "link_choice \<Rightarrow> json" where
  "link_json l =
     JObj [(''mode'', JStr (if lc_replace l then ''replace'' else ''reuse'')), (''confirmRetire'', JBool (lc_confirmRetire l))]"

definition publish_message :: "js_string \<Rightarrow> js_string \<Rightarrow> PublicationExpiration \<Rightarrow> link_choice \<Rightarrow> json" where
  "publish_message artifactId versionId expiration link =
     JObj [(''artifactId'', JStr artifactId), (''versionId'', JStr versionId),
       (''expiration'', expiration_json expiration), (''link'', link_json link)]"

definition publishRequestHash ::
  "(js_string \<Rightarrow> js_string) \<Rightarrow> js_string \<Rightarrow> js_string \<Rightarrow> PublicationExpiration \<Rightarrow> link_choice \<Rightarrow> js_string" where
  "publishRequestHash sha256 artifactId versionId expiration link =
     sha256 (stringify (publish_message artifactId versionId expiration link))"

subsection \<open>The service\<close>

text \<open>The asset a path of a version names: the entry for the empty path.\<close>

definition find_content :: "js_string \<Rightarrow> js_string \<Rightarrow> 'x content_db_scheme \<Rightarrow> viewer_error + ContentAsset" where
  "find_content versionId rawPath db =
     (let path = (if rawPath = [] then None else normalizeContentPath rawPath) in
      if rawPath \<noteq> [] \<and> path = None then Inl (Viewer_refused Viewer_asset_not_found)
      else fromOption (Viewer_refused Viewer_asset_not_found)
        (case path of Some p \<Rightarrow> findAsset versionId p db | None \<Rightarrow> findEntryAsset versionId db))"

definition preview :: "js_string \<Rightarrow> js_string \<Rightarrow> js_string \<Rightarrow> 'x content_db_scheme \<Rightarrow> viewer_error + ContentAsset" where
  "preview ownerUserId versionId rawPath db =
     (case findOwnedReadyVersion ownerUserId versionId db of
        None \<Rightarrow> Inl (Viewer_refused Viewer_version_not_found)
      | Some version \<Rightarrow> find_content (va_id version) rawPath db)"

definition exportVersion ::
  "(js_string \<Rightarrow> nat list) \<Rightarrow> js_string \<Rightarrow> js_string \<Rightarrow> js_string option \<Rightarrow> 'x content_db_scheme
    \<Rightarrow> viewer_error + VersionExport" where
  "exportVersion collate ownerUserId versionId artifactId db =
     (case findOwnedVersionExport collate ownerUserId versionId db of
        None \<Rightarrow> Inl (Viewer_refused Viewer_version_not_found)
      | Some exported \<Rightarrow>
          if artifactId \<noteq> None \<and> artifactId \<noteq> Some (ve_artifactId exported)
          then Inl (Viewer_refused Viewer_version_not_found) else Inr exported)"

definition share_url :: "js_string \<Rightarrow> js_string \<Rightarrow> js_string" where
  "share_url viewerOrigin shareSlug = viewerOrigin @ ''/a/'' @ shareSlug @ ''/''"

definition publish_refusal :: "PublishResult \<Rightarrow> PublicationViewerErrorCode" where
  "publish_refusal r =
     (case r of
        Publish_artifact_not_found \<Rightarrow> Viewer_artifact_not_found
      | Publish_version_not_ready \<Rightarrow> Viewer_version_not_ready
      | Publish_operation_in_progress \<Rightarrow> Viewer_operation_in_progress
      | Publish_idempotency_conflict \<Rightarrow> Viewer_idempotency_conflict
      | _ \<Rightarrow> Viewer_governance_blocked)"

text \<open>The checks before the store is asked: \<open>t\<close> is the time they read.\<close>

definition publish_checks :: "time \<Rightarrow> publish_request \<Rightarrow> PublicationViewerErrorCode option" where
  "publish_checks t r =
     (if lc_replace (pr_link r) \<and> \<not> lc_confirmRetire (pr_link r) then Some Viewer_invalid_request
      else case pr_expiration r of
        Exp_permanent \<Rightarrow> None
      | Exp_duration s \<Rightarrow> if s \<le> 0 then Some Viewer_invalid_expiration else None
      | Exp_exact e \<Rightarrow> if e \<le> t then Some Viewer_invalid_expiration else None)"

definition store_input :: "(js_string \<Rightarrow> js_string) \<Rightarrow> js_string \<Rightarrow> publish_request \<Rightarrow> publish_input" where
  "store_input sha256 uuid r =
     \<lparr>pi_id = ''pub_'' @ uuid, pi_ownerUserId = pr_ownerUserId r, pi_artifactId = pr_artifactId r,
      pi_versionId = pr_versionId r, pi_idempotencyKey = pr_idempotencyKey r,
      pi_requestHash = publishRequestHash sha256 (pr_artifactId r) (pr_versionId r) (pr_expiration r) (pr_link r),
      pi_expiration = pr_expiration r, pi_replaceLink = lc_replace (pr_link r)\<rparr>"

definition service_publish ::
  "sealing \<Rightarrow> unsealing \<Rightarrow> byte list \<Rightarrow> evidence_cipher \<Rightarrow> (js_string \<Rightarrow> js_string) \<Rightarrow> js_string \<Rightarrow> time \<Rightarrow> time \<Rightarrow> time
    \<Rightarrow> js_string \<Rightarrow> publish_random \<Rightarrow> publish_request \<Rightarrow> 'x content_db_scheme
    \<Rightarrow> 'x content_db_scheme \<times> (viewer_error + PublicationView \<times> ShareLinkView)" where
  "service_publish seal unseal nonce c sha256 viewerOrigin t now txnow uuid rnd r db =
     (case publish_checks t r of
        Some e \<Rightarrow> (db, Inl (Viewer_refused e))
      | None \<Rightarrow>
          case publish seal unseal nonce c now txnow rnd (store_input sha256 uuid r) db of
            (db', Inl e) \<Rightarrow> (db', Inl (Viewer_failed e))
          | (db', Inr (Published publication link)) \<Rightarrow>
              (db', Inr (publication, \<lparr>sl_url = share_url viewerOrigin (la_shareSlug link), sl_state = la_state link\<rparr>))
          | (db', Inr result) \<Rightarrow> (db', Inl (Viewer_refused (publish_refusal result))))"

definition service_updateExpiration ::
  "time \<Rightarrow> time \<Rightarrow> js_string \<Rightarrow> js_string \<Rightarrow> js_string \<Rightarrow> PublicationExpiration \<Rightarrow> 'x content_db_scheme
    \<Rightarrow> 'x content_db_scheme \<times> (viewer_error + PublicationView)" where
  "service_updateExpiration t now ownerUserId artifactId publicationId expiration db =
     (if (case expiration of Exp_exact e \<Rightarrow> e \<le> t | _ \<Rightarrow> False)
      then (db, Inl (Viewer_refused Viewer_invalid_expiration))
      else case updateExpiration now ownerUserId artifactId publicationId expiration db of
        (db', Inl e) \<Rightarrow> (db', Inl (Viewer_failed (Database e)))
      | (db', Inr None) \<Rightarrow> (db', Inl (Viewer_refused Viewer_artifact_not_found))
      | (db', Inr (Some p)) \<Rightarrow> (db', Inr p))"

definition service_unpublish ::
  "time \<Rightarrow> js_string \<Rightarrow> js_string \<Rightarrow> js_string \<Rightarrow> 'x artifact_db_scheme
    \<Rightarrow> 'x artifact_db_scheme \<times> (viewer_error + unit)" where
  "service_unpublish now ownerUserId artifactId publicationId db =
     (case unpublish now ownerUserId artifactId publicationId db of
        (db', Inl e) \<Rightarrow> (db', Inl (Viewer_failed (Database e)))
      | (db', Inr False) \<Rightarrow> (db', Inl (Viewer_refused Viewer_artifact_not_found))
      | (db', Inr True) \<Rightarrow> (db', Inr ()))"

definition resolveViewer ::
  "time \<Rightarrow> js_string \<Rightarrow> js_string \<Rightarrow> 'x content_db_scheme \<Rightarrow> viewer_error + ViewerResolution" where
  "resolveViewer now shareSlug rawPath db =
     (case resolveShareSlug now shareSlug db of
        Res_published publicationId versionId \<Rightarrow>
          bindR (find_content versionId rawPath db) (\<lambda>asset. Inr (Viewer_asset asset publicationId))
      | state \<Rightarrow> Inr (Viewer_state state))"

subsection \<open>Canonical paths\<close>

definition canonical_path :: "js_string \<Rightarrow> bool" where
  "canonical_path p \<longleftrightarrow>
     CHR 0x5C \<notin> set p \<and> CHR 0x00 \<notin> set p
     \<and> (\<forall>w \<in> set (split_on (CHR ''/'') p). w \<noteq> [] \<and> w \<noteq> ''.'' \<and> w \<noteq> ''..'')"

lemma slash_at_an_end:
  "starts_with ''/'' p \<Longrightarrow> [] \<in> set (split_on (CHR ''/'') p)"
  "ends_with ''/'' p \<Longrightarrow> [] \<in> set (split_on (CHR ''/'') p)"
proof -
  have "\<exists>w ws. split_on (CHR ''/'') (t @ ''/'') = w # ws @ [[]]" for t
    by (induction t) (auto intro: exI [of _ "[]"] exI [of _ "_ # _"])
  then have "[] \<in> set (split_on (CHR ''/'') (t @ ''/''))" for t
    by (metis append_is_Nil_conv in_set_conv_decomp list.set_intros(2) append_Cons)
  then show "ends_with ''/'' p \<Longrightarrow> [] \<in> set (split_on (CHR ''/'') p)" by (auto simp: ends_with_iff)
qed (auto simp: starts_with_iff)

lemma normalizeContentPath_iff:
  "normalizeContentPath raw = Some p \<longleftrightarrow> decodeURIComponent raw = Some p \<and> canonical_path p"
  using slash_at_an_end [of p]
  by (auto simp: normalizeContentPath_def canonical_path_def Let_def list_ex_iff includes_char_def split: option.splits if_splits)

text \<open>Any percent-encoding of a path that keeps the slashes: the characters \<open>keep\<close> allows stay.\<close>

definition encode_char :: "(char \<Rightarrow> bool) \<Rightarrow> char \<Rightarrow> js_string" where
  "encode_char keep c =
     (if keep c \<and> c \<noteq> CHR ''%'' then [c] else [CHR ''%'', hex_digit (byte_of c div 16), hex_digit (byte_of c mod 16)])"

definition percent_encode :: "(char \<Rightarrow> bool) \<Rightarrow> js_string \<Rightarrow> js_string" where
  "percent_encode keep s = concat (map (encode_char keep) s)"

lemma hex_digit_decoded: "n < 16 \<Longrightarrow> json_hex (hex_digit n) \<and> hex_digit_value (hex_digit n) = n"
  by (auto simp: hex_digit_def hex_digit_value_def json_hex_def json_digit_def Let_def)

lemma percent_decode_encode: "percent_decode (percent_encode keep s) = Some s"
proof (induction s)
  case (Cons c s)
  have "json_hex (hex_digit (byte_of c div 16))" "json_hex (hex_digit (byte_of c mod 16))"
    "16 * hex_digit_value (hex_digit (byte_of c div 16)) + hex_digit_value (hex_digit (byte_of c mod 16)) = byte_of c"
    using hex_digit_decoded [of "byte_of c div 16"] hex_digit_decoded [of "byte_of c mod 16"] of_char_mod_256 [of c]
    by (simp_all add: less_mult_imp_div_less)
  with Cons show ?case by (simp add: percent_encode_def encode_char_def)
qed (simp add: percent_encode_def)

text \<open>
  C38: requested paths are canonical. A requested path is accepted exactly when it decodes, once,
  to a text without backslash and null whose slash-separated parts are neither empty nor dots;
  the path looked up is that text. Conversely every canonical path can be requested, however
  it is percent-encoded.
\<close>

theorem content_path_canonical:
  "(normalizeContentPath raw = Some p \<longleftrightarrow> decodeURIComponent raw = Some p \<and> canonical_path p)
   \<and> (canonical_path q \<longrightarrow> well_formed q \<longrightarrow> normalizeContentPath (percent_encode keep q) = Some q)"
  by (simp add: normalizeContentPath_iff decodeURIComponent_def percent_decode_encode)

subsection \<open>What a link serves\<close>

lemma find_content_Inr:
  assumes "find_content versionId raw db = Inr a"
  shows "\<exists>v b. v \<in> set (artifact_versions db) \<and> ver_id v = versionId \<and> b \<in> set (bundle_assets db)
    \<and> ver_contentBundleId v = Some (asset_bundleId b) \<and> a = content_asset versionId b
    \<and> (if raw = [] then exists_where (\<lambda>m. man_bundleId m = asset_bundleId b \<and> man_entryPath m = asset_path b) (bundle_manifests db)
       else decodeURIComponent raw = Some (asset_path b) \<and> canonical_path (asset_path b))"
proof -
  have in_version: "\<exists>v. v \<in> set (artifact_versions db) \<and> ver_id v = versionId \<and> b \<in> set (bundle_assets db)
      \<and> ver_contentBundleId v = Some (asset_bundleId b)" if "b \<in> set (version_assets versionId db)" for b
    using that by (cases "row_where (\<lambda>v. ver_id v = versionId) (artifact_versions db)")
        (auto simp: version_assets_def dest!: row_where_Some)
  show ?thesis
  proof (cases "raw = []")
    case True
    then obtain b where b: "b \<in> set (version_assets versionId db)" "a = content_asset versionId b"
      "exists_where (\<lambda>m. man_bundleId m = asset_bundleId b \<and> man_entryPath m = asset_path b) (bundle_manifests db)"
      using assms by (auto simp: find_content_def findEntryAsset_def fromOption_def split: option.splits dest!: row_where_Some)
    with in_version [OF b(1)] True show ?thesis by auto
  next
    case False
    then obtain p b where b: "normalizeContentPath raw = Some p" "b \<in> set (version_assets versionId db)"
      "a = content_asset versionId b" "asset_path b = p"
      using assms by (auto simp: find_content_def findAsset_def Let_def fromOption_def split: option.splits if_splits dest!: row_where_Some)
    with in_version [OF b(2)] False show ?thesis by (auto simp: normalizeContentPath_iff)
  qed
qed

lemma resolveShareSlug_published:
  "resolveShareSlug now slug db = Res_published pid vid \<Longrightarrow>
     \<exists>l p. l \<in> set (share_links db) \<and> link_slug l = slug \<and> link_status l = Link_active
       \<and> findLatest (link_artifactId l) db = Some p \<and> pub_endedAt p = None \<and> \<not> expires_by (pub_expiresAt p) now
       \<and> \<not> artifact_blocked (gallery db) (link_artifactId l) \<and> pub_id p = pid \<and> pub_versionId p = vid"
proof -
  assume r: "resolveShareSlug now slug db = Res_published pid vid"
  then obtain l where l: "row_where (\<lambda>l. link_slug l = slug) (share_links db) = Some l" "link_status l \<noteq> Link_retired"
    by (auto simp: resolveShareSlug_def split: option.splits if_splits)
  with r obtain p where p: "findLatest (link_artifactId l) db = Some p"
    by (auto simp: resolveShareSlug_def split: option.splits)
  from l(2) have "link_status l = Link_active" by (cases "link_status l") simp_all
  with r l p row_where_Some [OF l(1)] show ?thesis by (auto simp: resolveShareSlug_def split: if_splits)
qed

text \<open>
  C2: a link serves only what its artifact has published. Whatever asset a request for a link
  gets, the link is active; the latest publication of its artifact is current, not expired and
  not restricted; the asset belongs to the content of exactly the published version; and it is
  the entry file, or the file at the canonical path that was requested.
\<close>

theorem viewer_serves_published_content:
  assumes "resolveViewer now slug raw db = Inr (Viewer_asset a pid)"
  shows "\<exists>l p v b. l \<in> set (share_links db) \<and> link_slug l = slug \<and> link_status l = Link_active
    \<and> findLatest (link_artifactId l) db = Some p \<and> pub_id p = pid \<and> pub_endedAt p = None
    \<and> \<not> expires_by (pub_expiresAt p) now \<and> \<not> artifact_blocked (gallery db) (link_artifactId l)
    \<and> v \<in> set (artifact_versions db) \<and> ver_id v = pub_versionId p
    \<and> b \<in> set (bundle_assets db) \<and> ver_contentBundleId v = Some (asset_bundleId b) \<and> a = content_asset (pub_versionId p) b
    \<and> (if raw = [] then exists_where (\<lambda>m. man_bundleId m = asset_bundleId b \<and> man_entryPath m = asset_path b) (bundle_manifests db)
       else decodeURIComponent raw = Some (asset_path b) \<and> canonical_path (asset_path b))"
proof -
  obtain vid where r: "resolveShareSlug now slug db = Res_published pid vid" "find_content vid raw db = Inr a"
    using assms by (auto simp: resolveViewer_def bindR_eq_Inr split: ShareResolution.splits)
  from resolveShareSlug_published [OF r(1)] find_content_Inr [OF r(2)] show ?thesis by blast
qed

subsection \<open>The request behind a hash\<close>

definition expiration_ok :: "PublicationExpiration \<Rightarrow> bool" where
  "expiration_ok e \<longleftrightarrow>
     (case e of Exp_permanent \<Rightarrow> True | Exp_duration s \<Rightarrow> \<bar>s\<bar> \<le> 9007199254740991 | Exp_exact t \<Rightarrow> valid_time t)"

lemma publish_message_plain: "expiration_ok e \<Longrightarrow> json_plain (publish_message a v e l)"
  by (cases e) (simp_all add: publish_message_def expiration_json_def link_json_def expiration_ok_def)

lemma expiration_json_inject:
  "expiration_ok e \<Longrightarrow> expiration_ok f \<Longrightarrow> expiration_json e = expiration_json f \<longleftrightarrow> e = f"
  by (cases e; cases f) (simp_all add: expiration_json_def expiration_ok_def iso_of_inject)

lemma publish_message_inject:
  assumes "expiration_ok e" "expiration_ok f"
  shows "stringify (publish_message a v e l) = stringify (publish_message b w f k) \<longleftrightarrow> a = b \<and> v = w \<and> e = f \<and> l = k"
proof
  assume "stringify (publish_message a v e l) = stringify (publish_message b w f k)"
  then have "publish_message a v e l = publish_message b w f k"
    using json_parse_stringify [OF publish_message_plain [OF assms(1)], of a v l]
      json_parse_stringify [OF publish_message_plain [OF assms(2)], of b w k] by (metis option.inject)
  then show "a = b \<and> v = w \<and> e = f \<and> l = k"
    using expiration_json_inject [OF assms]
    by (cases l; cases k) (auto simp: publish_message_def link_json_def split: if_splits)
qed simp

text \<open>
  C15: a repeated publication request. After a first success, the same request answers with the
  same publication and link and writes nothing, as long as its own checks pass: a request with
  an exact expiration is refused once that time is reached, although its key was answered. A
  different request under the key is a conflict, provided the digests of the two differ.
\<close>

theorem service_publish_replayed:
  fixes db :: "'x content_db_scheme"
  assumes "service_publish seal unseal nonce c sha256 viewerOrigin t now txnow uuid rnd r db = (db', Inr answer)"
    and "row_where (\<lambda>k. scope_of k = publish_scope (store_input sha256 uuid r)) (idempotency_records db) = None"
    and "share_links_unique (share_links db)"
    and "sealing_laws seal unseal" "cipher_ok c" "length nonce = NONCE_BYTES"
    and "\<And>m. ascii (sha256 m) \<and> sha256 m \<noteq> []"
    and "valid_time txnow" "\<And>x. snd (snd (expirationValues (pr_expiration r) now)) = Some x \<Longrightarrow> valid_time x"
    and "expiration_ok (pr_expiration r)" "expiration_ok (pr_expiration q)"
    and "pr_ownerUserId q = pr_ownerUserId r" "pr_artifactId q = pr_artifactId r" "pr_idempotencyKey q = pr_idempotencyKey r"
    and "sha256 (stringify (publish_message (pr_artifactId q) (pr_versionId q) (pr_expiration q) (pr_link q)))
         = sha256 (stringify (publish_message (pr_artifactId r) (pr_versionId r) (pr_expiration r) (pr_link r)))
      \<Longrightarrow> stringify (publish_message (pr_artifactId q) (pr_versionId q) (pr_expiration q) (pr_link q))
         = stringify (publish_message (pr_artifactId r) (pr_versionId r) (pr_expiration r) (pr_link r))"
  shows "service_publish seal unseal nonce' c sha256 viewerOrigin t' now' txnow' uuid' rnd' q db' = (db',
    case publish_checks t' q of
      Some e \<Rightarrow> Inl (Viewer_refused e)
    | None \<Rightarrow> if q = r then Inr answer else Inl (Viewer_refused Viewer_idempotency_conflict))"
proof (cases "publish_checks t' q")
  case None
  obtain pub link where
    first: "publish seal unseal nonce c now txnow rnd (store_input sha256 uuid r) db = (db', Inr (Published pub link))"
    and answer: "answer = (pub, \<lparr>sl_url = share_url viewerOrigin (la_shareSlug link), sl_state = la_state link\<rparr>)"
    using assms(1) by (auto simp: service_publish_def split: option.splits prod.splits sum.splits PublishResult.splits)
  have "publish seal unseal nonce' c now' txnow' rnd' (store_input sha256 uuid' q) db' = (db', Inr
    (if pi_requestHash (store_input sha256 uuid' q) = pi_requestHash (store_input sha256 uuid r)
     then Published pub link else Publish_idempotency_conflict))"
    by (rule publish_replayed [OF first assms(2,3,4,5,6)])
      (use assms(7-9,12-14) in \<open>auto simp: store_input_def publishRequestHash_def publish_scope_def ascii_well_formed\<close>)
  moreover have "pi_requestHash (store_input sha256 uuid' q) = pi_requestHash (store_input sha256 uuid r) \<longleftrightarrow> q = r"
  proof
    assume "pi_requestHash (store_input sha256 uuid' q) = pi_requestHash (store_input sha256 uuid r)"
    then have "pr_versionId q = pr_versionId r \<and> pr_expiration q = pr_expiration r \<and> pr_link q = pr_link r"
      using assms(15) unfolding publish_message_inject [OF assms(11,10)]
      by (simp add: store_input_def publishRequestHash_def)
    then show "q = r" using assms(12,13,14) by (intro publish_request.equality) simp_all
  qed (simp add: store_input_def)
  ultimately show ?thesis using None answer by (simp add: service_publish_def publish_refusal_def)
qed (simp add: service_publish_def)

subsection \<open>Witnesses\<close>

lemma example_path: "canonical_path ''c/b.css''" "ascii ''c/b.css''" "decodeURIComponent ''c%2Fb.css'' = Some ''c/b.css''"
proof -
  show a: "ascii ''c/b.css''" by (simp add: ascii_def)
  show "canonical_path ''c/b.css''" by (simp add: canonical_path_def)
  have "char_of (47 :: nat) = CHR ''/''" by code_simp
  then have "percent_decode ''c%2Fb.css'' = Some ''c/b.css''"
    by (simp add: json_hex_def json_digit_def hex_digit_value_def Let_def)
  then show "decodeURIComponent ''c%2Fb.css'' = Some ''c/b.css''"
    using a by (simp add: decodeURIComponent_def ascii_well_formed)
qed

lemma content_path_canonical_witness:
  "normalizeContentPath (percent_encode (\<lambda>c. c = CHR ''c'') ''c/b.css'') = Some ''c/b.css''"
  using content_path_canonical [of "[]" "[]" "''c/b.css''" "\<lambda>c. c = CHR ''c''"] example_path ascii_well_formed by blast

definition example_asset :: asset_row where
  "example_asset = \<lparr>asset_bundleId = ''bundle_1'', asset_ownerUserId = ''u1'', asset_path = ''c/b.css'', asset_objectKey = ''o'', asset_sizeBytes = 4,
     asset_contentType = ''text/css'', asset_sha256 = None\<rparr>"

definition viewed_db :: content_db where
  "viewed_db = (shared_db [example_old_publication])
     \<lparr>bundle_assets := [example_asset],
      share_links := [\<lparr>link_id = ''link_1'', link_artifactId = ''artifact_1'', link_slug = ''s'', link_status = Link_active,
        link_createdAt = 0, link_retiredAt = None\<rparr>]\<rparr>"

lemma viewed_db_served:
  "resolveViewer 8 ''s'' ''c%2Fb.css'' viewed_db = Inr (Viewer_asset (content_asset ''version_1'' example_asset) ''pub_0'')"
proof -
  have "normalizeContentPath ''c%2Fb.css'' = Some ''c/b.css''" using example_path by (simp add: normalizeContentPath_iff)
  moreover have "findAsset ''version_1'' ''c/b.css'' viewed_db = Some (content_asset ''version_1'' example_asset)"
    by (simp add: findAsset_def version_assets_def viewed_db_def shared_db_def example_asset_def)
  moreover have "resolveShareSlug 8 ''s'' viewed_db = Res_published ''pub_0'' ''version_1''"
    by (simp add: resolveShareSlug_def viewed_db_def shared_db_def findLatest_def first_row_def order_desc_def
        example_old_publication_def expires_by_def artifact_blocked_def exists_where_def empty_content_db_def empty_gallery_def
        artifact_db.defs)
  ultimately show ?thesis by (simp add: resolveViewer_def find_content_def fromOption_def)
qed

lemma viewer_serves_published_content_witness:
  "\<exists>b \<in> set (bundle_assets viewed_db). asset_path b = ''c/b.css'' \<and> canonical_path (asset_path b)"
  using viewer_serves_published_content [OF viewed_db_served] example_path(3) by auto

definition example_request :: publish_request where
  "example_request = \<lparr>pr_ownerUserId = ''u1'', pr_artifactId = ''artifact_1'', pr_versionId = ''version_1'',
     pr_idempotencyKey = ''k'', pr_expiration = Exp_permanent, pr_link = \<lparr>lc_replace = False, lc_confirmRetire = False\<rparr>\<rparr>"

abbreviation serve_example :: "time \<Rightarrow> js_string \<Rightarrow> publish_request \<Rightarrow> content_db
    \<Rightarrow> content_db \<times> (viewer_error + PublicationView \<times> ShareLinkView)" where
  "serve_example t uuid \<equiv> service_publish example_seal example_unseal (replicate 12 0) (example_cipher example_new_key None)
     (\<lambda>m. ''h'' @ filter (\<lambda>c. byte_of c < 128) m) ''https://v'' t t t uuid example_draw"

lemma example_serviced: "\<exists>db' answer. serve_example 5 ''1'' example_request (shared_db []) = (db', Inr answer)"
proof -
  have "\<exists>db' pub link. publish example_seal example_unseal (replicate 12 0) (example_cipher example_new_key None) 5 5 example_draw
      (store_input (\<lambda>m. ''h'' @ filter (\<lambda>c. byte_of c < 128) m) ''1'' example_request) (shared_db []) = (db', Inr (Published pub link))"
    by (auto simp: publish_def run_tx_def publish_body_def publish_write_def Let_def example_request_def store_input_def shared_db_def
      empty_content_db_def empty_artifact_db_def artifact_db.defs empty_gallery_def artifact_blocked_def exists_where_def
      version_of_artifact_def expirationValues_def expires_by_def insert_publish_record_def idempotency_records_unique_def unique_on_def
      supersede_current_def current_publication_def choose_link_def active_link_def first_row_def order_desc_def
      write_publications_def check_publications_def publication_row_ok_def publications_unique_def new_publication_def
      write_share_links_def check_share_links_def share_link_row_ok_def share_links_unique_def new_link_def example_draw_def
      bindR_def)
  then show ?thesis
    by (auto simp: service_publish_def publish_checks_def) (auto simp: example_request_def)
qed

lemma service_publish_replayed_witness:
  "\<exists>db' answer. serve_example 5 ''1'' example_request (shared_db []) = (db', Inr answer)
    \<and> serve_example 9 ''2'' example_request db' = (db', Inr answer)"
proof -
  obtain db' answer where first: "serve_example 5 ''1'' example_request (shared_db []) = (db', Inr answer)"
    using example_serviced by blast
  have "serve_example 9 ''2'' example_request db' = (db',
      case publish_checks 9 example_request of
        Some e \<Rightarrow> Inl (Viewer_refused e)
      | None \<Rightarrow> if example_request = example_request then Inr answer else Inl (Viewer_refused Viewer_idempotency_conflict))"
    by (rule service_publish_replayed [OF first])
      (use example_laws in \<open>auto simp: shared_db_facts example_request_def expirationValues_def valid_time_def expiration_ok_def ascii_def\<close>)
  then show ?thesis using first by (simp add: publish_checks_def) (simp add: example_request_def)
qed

end
