(* ===== verification/Artifact_Deletion.thy ===== *)
theory Artifact_Deletion
  imports Publication_Viewer Source_Closure
begin

text \<open>
  The permanent deletion of an artifact: \<open>deleteOwned\<close> and \<open>completeDeletion\<close> of
  \<open>api/src/db/artifact-repositories.ts\<close>, and the completion of a deletion by the
  reconciliation, \<open>completeArtifactDeletionCleanup\<close> of \<open>api/src/db/reconciliation-repository.ts\<close>.
  One transaction withdraws the listings of the artifact, records the objects to remove,
  hands bundles nobody else uses to the bundle cleanup, and removes the rows; holds of the
  Gallery on the content postpone the removal, and a listing keeps the identity of the
  artifact. \<open>txnow\<close> is the start of the transaction, \<open>now\<close> the clock of the process. The loop
  over the bundles takes them in the order of the table instead of the order of their ids,
  which only the locks see; \<open>'infinity'\<close> is \<open>None\<close>.

  The foreign keys with \<open>on delete restrict\<close> are part of the deletes: a referenced row makes
  the statement fail. A delete of the artifact cascades to its links, sessions, candidates,
  jobs and attempts. Thumbnail attempts and capture grants are not modelled.
\<close>

record ArtifactDeletionRecord =
  dr_objectKeys :: "js_string list"
  dr_stagingPrefixes :: "js_string list"

datatype ArtifactDeletionResult =
  Deletion_cleanup ArtifactDeletionRecord | Deletion_not_found | Deletion_invalid_state

subsection \<open>The Gallery side\<close>

definition closes_with_artifact :: "js_string \<Rightarrow> listing_row \<Rightarrow> bool" where
  "closes_with_artifact a l \<longleftrightarrow>
     gl_artifact_id l = a \<and>
     (open_listing l \<or> gl_lifecycle_state l = Removed \<and> gl_closure_reason l = Some Administrator_removal)"

definition artifact_deleted_event :: "listing_row \<Rightarrow> event_row" where
  "artifact_deleted_event l =
     \<lparr>ge_listing_id = gl_id l, ge_from_lifecycle_state = Some (gl_lifecycle_state l),
      ge_to_lifecycle_state = Withdrawn, ge_closure_reason = Some Artifact_deleted,
      ge_base_listing_revision = Some (gl_listing_revision l),
      ge_committed_listing_revision = gl_listing_revision l + 1,
      ge_actor_kind = Actor_system, ge_actor_id = None\<rparr>"

definition withdraw_for_artifact :: "time \<Rightarrow> listing_row \<Rightarrow> listing_row" where
  "withdraw_for_artifact txnow l =
     l\<lparr>gl_lifecycle_state := Withdrawn, gl_closure_reason := Some Artifact_deleted,
       gl_listing_revision := gl_listing_revision l + 1, gl_closed_at := Some txnow, gl_updated_at := txnow\<rparr>"

definition listing_of_artifact :: "'x gallery_db_scheme \<Rightarrow> js_string \<Rightarrow> js_string \<Rightarrow> bool" where
  "listing_of_artifact g a x \<longleftrightarrow> exists_where (\<lambda>l. gl_id l = x \<and> gl_artifact_id l = a) (listings g)"

definition decision_on_artifact :: "'x gallery_db_scheme \<Rightarrow> js_string \<Rightarrow> js_string \<Rightarrow> bool" where
  "decision_on_artifact g a d \<longleftrightarrow>
     exists_where (\<lambda>dec. gd_id dec = d \<and>
       exists_where (\<lambda>c. gcase_id c = gd_case_id dec \<and>
         (case gcase_listing_id c of None \<Rightarrow> False | Some x \<Rightarrow> listing_of_artifact g a x)) (cases g))
       (decisions g)"

definition withdrawn_with_artifact :: "js_string \<Rightarrow> listing_row \<Rightarrow> bool" where
  "withdrawn_with_artifact a l \<longleftrightarrow>
     gl_artifact_id l = a \<and> gl_lifecycle_state l = Withdrawn \<and> gl_closure_reason l = Some Artifact_deleted"

definition artifact_tombstone :: "time \<Rightarrow> listing_row \<Rightarrow> tombstone_row" where
  "artifact_tombstone txnow l =
     \<lparr>gt_listing_id = gl_id l, gt_opaque_slug = gl_opaque_slug l,
      gt_was_ever_public = (gl_current_revision_id l \<noteq> None),
      gt_terminal_lifecycle_state = Withdrawn, gt_closure_reason = Artifact_deleted,
      gt_source_deleted_at = Some txnow, gt_permanently_non_restorable_at = Some txnow\<rparr>"

definition close_artifact_listings :: "time \<Rightarrow> js_string \<Rightarrow> gallery_db \<Rightarrow> tx_error + gallery_db" where
  "close_artifact_listings txnow a g =
     (let g = g\<lparr>lifecycle_events := lifecycle_events g
            @ map artifact_deleted_event (filter (closes_with_artifact a) (listings g))\<rparr>
      in bindR (update_listings (closes_with_artifact a) (withdraw_for_artifact txnow) g) (\<lambda>g.
         bindR (update_proposals (\<lambda>p. open_proposal p \<and> listing_of_artifact g a (gp_listing_id p))
                 (\<lambda>p. p\<lparr>gp_state := Closed, gp_closed_at := Some txnow\<rparr>) g) (\<lambda>g.
         let g = g\<lparr>appeals := update_where
               (\<lambda>r. gap_state r = Appeal_state_pending \<and> decision_on_artifact g a (gap_decision_id r))
               (\<lambda>r. r\<lparr>gap_state := Appeal_state_moot, gap_resolved_at := Some txnow\<rparr>) (appeals g)\<rparr>
         in insert_tombstones_do_update
              (map (artifact_tombstone txnow) (filter (withdrawn_with_artifact a) (listings g))) g)))"

subsection \<open>What holds and references the content\<close>

definition listed_artifact :: "js_string \<Rightarrow> 'x content_db_scheme \<Rightarrow> bool" where
  "listed_artifact a db \<longleftrightarrow> exists_where (\<lambda>l. gl_artifact_id l = a) (listings (gallery db))"

definition active_hold :: "time \<Rightarrow> js_string \<Rightarrow> 'x content_db_scheme \<Rightarrow> bool" where
  "active_hold txnow a db \<longleftrightarrow>
     exists_where (\<lambda>h. hold_releasedAt h = None \<and>
       exists_where (\<lambda>c. gcase_id c = hold_caseId h \<and> gcase_artifact_id c = Some a) (cases (gallery db))) (evidence_holds db)
     \<or> exists_where (\<lambda>r. ret_releasedAt r = None \<and> version_of_artifact (ret_sourceVersionId r) a db) (source_retentions db)
     \<or> exists_where (\<lambda>l. lease_active l \<and> txnow < lease_expiresAt l \<and> version_of_artifact (lease_versionId l) a db) (source_leases db)"

definition session_of_artifact :: "js_string \<Rightarrow> 'x artifact_db_scheme \<Rightarrow> js_string \<Rightarrow> bool" where
  "session_of_artifact a db s \<longleftrightarrow> exists_where (\<lambda>r. sess_id r = s \<and> sess_artifactId r = a) (upload_sessions db)"

definition job_of_artifact :: "js_string \<Rightarrow> 'x artifact_db_scheme \<Rightarrow> js_string \<Rightarrow> bool" where
  "job_of_artifact a db j \<longleftrightarrow>
     exists_where (\<lambda>r. job_id r = j \<and> session_of_artifact a db (job_uploadSessionId r)) (processing_jobs db)"

definition attempt_of_artifact :: "js_string \<Rightarrow> 'x content_db_scheme \<Rightarrow> js_string \<Rightarrow> bool" where
  "attempt_of_artifact a db t \<longleftrightarrow>
     exists_where (\<lambda>r. att_id r = t \<and> job_of_artifact a db (att_jobId r)) (processing_attempts db)"

definition bundle_of_artifact :: "js_string \<Rightarrow> 'x artifact_db_scheme \<Rightarrow> js_string \<Rightarrow> bool" where
  "bundle_of_artifact a db b \<longleftrightarrow>
     exists_where (\<lambda>v. ver_artifactId v = a \<and> ver_contentBundleId v = Some b) (artifact_versions db)"

definition used_elsewhere :: "js_string \<Rightarrow> 'x artifact_db_scheme \<Rightarrow> js_string \<Rightarrow> bool" where
  "used_elsewhere a db b \<longleftrightarrow>
     exists_where (\<lambda>v. ver_artifactId v \<noteq> a \<and> ver_contentBundleId v = Some b) (artifact_versions db)"

definition made_by :: "(js_string \<Rightarrow> bool) \<Rightarrow> js_string option \<Rightarrow> bool" where
  "made_by P t \<longleftrightarrow> (case t of None \<Rightarrow> False | Some x \<Rightarrow> P x)"

subsection \<open>Statements\<close>

definition check_bundles :: "content_bundle_row list \<Rightarrow> tx_error + content_bundle_row list" where
  "check_bundles t =
     (if \<not> list_all content_bundle_row_ok t then Inl (Check_violation ''content_bundle_lifecycle_check'')
      else if \<not> bundles_unique t then Inl (Unique_violation ''content_bundle_creator_attempt_id_unique'')
      else Inr t)"

definition update_bundles ::
  "(content_bundle_row \<Rightarrow> bool) \<Rightarrow> (content_bundle_row \<Rightarrow> content_bundle_row) \<Rightarrow> 'x content_db_scheme
    \<Rightarrow> tx_error + 'x content_db_scheme" where
  "update_bundles p f db =
     bindR (check_bundles (update_where p f (content_bundles db))) (\<lambda>t. Inr (db\<lparr>content_bundles := t\<rparr>))"

definition update_versions ::
  "(artifact_version_row \<Rightarrow> bool) \<Rightarrow> (artifact_version_row \<Rightarrow> artifact_version_row) \<Rightarrow> 'x artifact_db_scheme
    \<Rightarrow> tx_error + 'x artifact_db_scheme" where
  "update_versions p f db =
     (let t = update_where p f (artifact_versions db) in
      if list_all artifact_version_row_ok t then Inr (db\<lparr>artifact_versions := t\<rparr>)
      else Inl (Check_violation ''artifact_version_content_bundle_reference_check''))"

definition insert_deletion_cleanup ::
  "time \<Rightarrow> js_string \<Rightarrow> js_string \<Rightarrow> ArtifactDeletionRecord \<Rightarrow> 'x artifact_db_scheme \<Rightarrow> tx_error + 'x artifact_db_scheme" where
  "insert_deletion_cleanup txnow a owner r db =
     (if awaits_cleanup a db then Inl (Unique_violation ''artifact_deletion_cleanup_pkey'')
      else Inr (db\<lparr>deletion_cleanups := deletion_cleanups db @
        [\<lparr>del_artifactId = a, del_ownerUserId = owner, del_objectKeys = dr_objectKeys r,
          del_stagingPrefixes = dr_stagingPrefixes r, del_createdAt = txnow, del_leaseOwner = None,
          del_leaseExpiresAt = None, del_attemptCount = 0, del_nextAttemptAt = Some txnow, del_lastErrorCode = None\<rparr>]\<rparr>))"

definition version_restricted :: "'x content_db_scheme \<Rightarrow> js_string \<Rightarrow> bool" where
  "version_restricted db v \<longleftrightarrow>
     exists_where (\<lambda>r. ret_sourceVersionId r = v) (source_retentions db)
     \<or> exists_where (\<lambda>r. lease_versionId r = v) (source_leases db)
     \<or> exists_where (\<lambda>r. prov_immediateVersionId r = v \<or> prov_rootVersionId r = v) (provenances db)
     \<or> exists_where (\<lambda>r. gr_version_id r = v) (revisions (gallery db))
     \<or> exists_where (\<lambda>r. gp_version_id r = v) (proposals (gallery db))
     \<or> exists_where (\<lambda>r. ga_version_id r = Some v) (acceptances (gallery db))
     \<or> v \<in> set (restricted_versions db)"

definition delete_versions :: "js_string \<Rightarrow> 'x content_db_scheme \<Rightarrow> tx_error + 'x content_db_scheme" where
  "delete_versions a db =
     (if exists_where (\<lambda>v. ver_artifactId v = a \<and> version_restricted db (ver_id v)) (artifact_versions db)
      then Inl (Foreign_key_violation ''artifact_version'')
      else Inr (db\<lparr>artifact_versions := filter (\<lambda>v. ver_artifactId v \<noteq> a) (artifact_versions db)\<rparr>))"

definition artifact_restricted :: "'x content_db_scheme \<Rightarrow> js_string \<Rightarrow> bool" where
  "artifact_restricted db a \<longleftrightarrow>
     exists_where (\<lambda>r. prov_artifactId r = a) (provenances db)
     \<or> listed_artifact a db
     \<or> exists_where (\<lambda>c. gcase_artifact_id c = Some a) (cases (gallery db))
     \<or> exists_where (\<lambda>b. gb_artifact_id b = a) (public_sharing_restrictions (gallery db))
     \<or> exists_where (\<lambda>b. gb_artifact_id b = a) (artifact_takedowns (gallery db))
     \<or> a \<in> set (restricted_artifacts db)"

text \<open>
  The delete of the artifact row with its cascade; the attempts that would go with it must
  not be named by a bundle, nor its sessions by a version that stays.
\<close>

definition delete_artifact :: "js_string \<Rightarrow> 'x content_db_scheme \<Rightarrow> tx_error + 'x content_db_scheme" where
  "delete_artifact a db =
     (if artifact_restricted db a then Inl (Foreign_key_violation ''artifact'')
      else if exists_where (\<lambda>b. made_by (attempt_of_artifact a db) (cb_creatorAttemptId b)
            \<or> made_by (attempt_of_artifact a db) (cb_winningAttemptId b)) (content_bundles db)
        then Inl (Foreign_key_violation ''artifact_processing_attempt'')
      else if exists_where (\<lambda>v. made_by (session_of_artifact a db) (ver_uploadSessionId v)) (artifact_versions db)
        then Inl (Foreign_key_violation ''artifact_upload_session'')
      else Inr (db\<lparr>stored_artifacts := filter (\<lambda>r. art_id r \<noteq> a) (stored_artifacts db),
        share_links := filter (\<lambda>l. link_artifactId l \<noteq> a) (share_links db),
        upload_sessions := filter (\<lambda>r. sess_artifactId r \<noteq> a) (upload_sessions db),
        fingerprint_candidates := filter (\<lambda>r. \<not> session_of_artifact a db (cand_uploadSessionId r)) (fingerprint_candidates db),
        processing_jobs := filter (\<lambda>r. \<not> session_of_artifact a db (job_uploadSessionId r)) (processing_jobs db),
        processing_attempts := filter (\<lambda>r. \<not> job_of_artifact a db (att_jobId r)) (processing_attempts db)\<rparr>))"

subsection \<open>Handing a bundle over\<close>

definition attempt_named :: "content_bundle_row \<Rightarrow> attempt_row \<Rightarrow> bool" where
  "attempt_named b t \<longleftrightarrow> cb_creatorAttemptId b = Some (att_id t) \<or> cb_winningAttemptId b = Some (att_id t)"

definition bundle_prefixes :: "content_bundle_row \<Rightarrow> 'x content_db_scheme \<Rightarrow> js_string list" where
  "bundle_prefixes b db =
     (''content-bundles/'' @ cb_id b @ ''/'') #
       js_unique (List.map_filter att_objectPrefix (filter (attempt_named b) (processing_attempts db)))"

definition minute :: time where
  "minute = 60000"

definition quiesce_after :: "time \<Rightarrow> content_bundle_row \<Rightarrow> 'x content_db_scheme \<Rightarrow> time" where
  "quiesce_after txnow b db =
     foldr max (map (\<lambda>t. t + minute)
       (List.map_filter att_writeDeadlineAt (filter (attempt_named b) (processing_attempts db)))) (txnow + minute)"

definition retire_alias :: "time \<Rightarrow> (js_string \<Rightarrow> bool) \<Rightarrow> alias_row list \<Rightarrow> alias_row list" where
  "retire_alias t P = update_where (\<lambda>r. P (alias_bundleId r) \<and> alias_retiredAt r = None) (\<lambda>r. r\<lparr>alias_retiredAt := Some t\<rparr>)"

definition cancel_thumbnails :: "time \<Rightarrow> (js_string \<Rightarrow> bool) \<Rightarrow> thumbnail_job_row list \<Rightarrow> thumbnail_job_row list" where
  "cancel_thumbnails txnow P =
     update_where (\<lambda>r. P (tj_bundleId r) \<and> (tj_state r = Thumbnail_queued \<or> tj_state r = Thumbnail_running))
       (\<lambda>r. r\<lparr>tj_state := Thumbnail_cancelled, tj_leaseOwner := None, tj_leaseExpiresAt := None,
         tj_heartbeatAt := None, tj_updatedAt := txnow\<rparr>)"

definition insert_bundle_cleanup :: "bundle_cleanup_row \<Rightarrow> bundle_cleanup_row list \<Rightarrow> bundle_cleanup_row list" where
  "insert_bundle_cleanup r t = (if exists_where (\<lambda>q. bc_bundleId q = bc_bundleId r) t then t else t @ [r])"

definition bundle_cleanup :: "time \<Rightarrow> content_bundle_row \<Rightarrow> 'x content_db_scheme \<Rightarrow> bundle_cleanup_row" where
  "bundle_cleanup txnow b db =
     \<lparr>bc_bundleId = cb_id b, bc_ownerUserId = cb_ownerUserId b, bc_objectPrefixes = bundle_prefixes b db,
      bc_state = Cleanup_pending, bc_quiesceAfter = quiesce_after txnow b db, bc_leaseOwner = None,
      bc_leaseExpiresAt = None, bc_attemptCount = 0, bc_nextAttemptAt = txnow, bc_lastErrorCode = None,
      bc_createdAt = txnow, bc_completedAt = None\<rparr>"

definition deleting_bundle :: "time \<Rightarrow> content_bundle_row \<Rightarrow> content_bundle_row" where
  "deleting_bundle now b =
     b\<lparr>cb_lifecycleState := Bundle_deleting, cb_creatorAttemptId := None, cb_winningAttemptId := None,
       cb_deletingAt := Some now, cb_updatedAt := now\<rparr>"

definition detach_attempts :: "(js_string \<Rightarrow> bool) \<Rightarrow> time \<Rightarrow> content_bundle_row \<Rightarrow> content_bundle_row" where
  "detach_attempts P txnow b =
     b\<lparr>cb_creatorAttemptId := (if made_by P (cb_creatorAttemptId b) then None else cb_creatorAttemptId b),
       cb_winningAttemptId := (if made_by P (cb_winningAttemptId b) then None else cb_winningAttemptId b),
       cb_updatedAt := txnow\<rparr>"

text \<open>A bundle another artifact uses only loses its attempts; any other goes to the cleanup.\<close>

definition release_bundle ::
  "time \<Rightarrow> time \<Rightarrow> js_string \<Rightarrow> content_bundle_row \<Rightarrow> 'x content_db_scheme \<Rightarrow> tx_error + 'x content_db_scheme" where
  "release_bundle now txnow a b db =
     (if used_elsewhere a db (cb_id b) then
        update_bundles (\<lambda>r. cb_id r = cb_id b \<and> (made_by (attempt_of_artifact a db) (cb_creatorAttemptId r)
            \<or> made_by (attempt_of_artifact a db) (cb_winningAttemptId r)))
          (detach_attempts (attempt_of_artifact a db) txnow) db
      else
        let c = bundle_cleanup txnow b db in
        update_bundles (\<lambda>r. cb_id r = cb_id b) (deleting_bundle now)
          (db\<lparr>bundle_aliases := retire_alias now (\<lambda>x. x = cb_id b) (bundle_aliases db),
              raw_aliases := retire_alias now (\<lambda>x. x = cb_id b) (raw_aliases db),
              thumbnail_jobs := cancel_thumbnails txnow (\<lambda>x. x = cb_id b) (thumbnail_jobs db),
              bundle_cleanups := insert_bundle_cleanup c (bundle_cleanups db)\<rparr>))"

fun release_bundles ::
  "time \<Rightarrow> time \<Rightarrow> js_string \<Rightarrow> content_bundle_row list \<Rightarrow> 'x content_db_scheme \<Rightarrow> tx_error + 'x content_db_scheme" where
  "release_bundles now txnow a [] db = Inr db"
| "release_bundles now txnow a (b # bs) db =
     bindR (release_bundle now txnow a b db) (release_bundles now txnow a bs)"

subsection \<open>Deleting an artifact\<close>

definition deletion_record :: "js_string \<Rightarrow> 'x content_db_scheme \<Rightarrow> ArtifactDeletionRecord" where
  "deletion_record a db =
     \<lparr>dr_objectKeys = js_unique (map sess_rawObjectKey (filter (\<lambda>s. sess_artifactId s = a) (upload_sessions db))),
      dr_stagingPrefixes = js_unique (map att_stagingPrefix
        (filter (\<lambda>t. job_of_artifact a db (att_jobId t)) (processing_attempts db)))\<rparr>"

definition active_upload :: "js_string \<Rightarrow> 'x artifact_db_scheme \<Rightarrow> bool" where
  "active_upload a db \<longleftrightarrow>
     exists_where (\<lambda>s. sess_artifactId s = a \<and> (sess_state s = Session_accepted \<or> sess_state s = Session_processing))
       (upload_sessions db)"

definition anonymous_version :: "artifact_version_row \<Rightarrow> artifact_version_row" where
  "anonymous_version v = v\<lparr>ver_ownerUserId := None, ver_contentBundleId := None, ver_rendererRevision := None\<rparr>"

definition remove_sharing :: "js_string \<Rightarrow> 'x artifact_db_scheme \<Rightarrow> 'x artifact_db_scheme" where
  "remove_sharing a db =
     db\<lparr>publications := filter (\<lambda>p. pub_artifactId p \<noteq> a) (publications db),
        share_links := filter (\<lambda>l. link_artifactId l \<noteq> a) (share_links db)\<rparr>"

text \<open>What becomes of an artifact nothing holds: a listing keeps its rows, without content.\<close>

definition remove_rows :: "js_string \<Rightarrow> bool \<Rightarrow> 'x content_db_scheme \<Rightarrow> tx_error + 'x content_db_scheme" where
  "remove_rows a listed db =
     (if listed then
        bindR (update_versions (\<lambda>v. ver_artifactId v = a) anonymous_version db) (\<lambda>db. Inr (remove_sharing a db))
      else
        bindR (delete_versions a (db\<lparr>publications := filter (\<lambda>p. pub_artifactId p \<noteq> a) (publications db)\<rparr>)) (\<lambda>db.
        delete_artifact a
          (db\<lparr>idempotency_records := filter (\<lambda>r. idem_targetResourceId r \<noteq> Some a) (idempotency_records db)\<rparr>)))"

definition delete_owned_body ::
  "time \<Rightarrow> time \<Rightarrow> js_string \<Rightarrow> js_string \<Rightarrow> content_db \<Rightarrow> tx_error + content_db \<times> ArtifactDeletionResult" where
  "delete_owned_body now txnow owner a db =
     (if \<not> exists_where (\<lambda>r. art_id r = a \<and> art_ownerUserId r = owner) (stored_artifacts db)
      then case row_where (\<lambda>c. del_artifactId c = a \<and> del_ownerUserId c = owner) (deletion_cleanups db) of
          None \<Rightarrow> Inr (db, Deletion_not_found)
        | Some c \<Rightarrow> Inr (db, Deletion_cleanup
            \<lparr>dr_objectKeys = del_objectKeys c, dr_stagingPrefixes = del_stagingPrefixes c\<rparr>)
      else if active_upload a db then Inr (db, Deletion_invalid_state)
      else
        let listed = listed_artifact a db; held = active_hold txnow a db in
        bindR (close_artifact_listings txnow a (gallery db)) (\<lambda>g.
        let db = db\<lparr>gallery := g\<rparr>;
            bundles = filter (\<lambda>b. bundle_of_artifact a db (cb_id b)) (content_bundles db);
            record = deletion_record a db in
        bindR (insert_deletion_cleanup txnow a owner record db) (\<lambda>db.
        if held then Inr (db, Deletion_cleanup record)
        else
          bindR (release_bundles now txnow a bundles db) (\<lambda>db.
          bindR (remove_rows a listed db) (\<lambda>db.
          Inr (db, Deletion_cleanup record))))))"

definition deleteOwned ::
  "time \<Rightarrow> time \<Rightarrow> js_string \<Rightarrow> js_string \<Rightarrow> content_db \<Rightarrow> content_db \<times> (tx_error + ArtifactDeletionResult)" where
  "deleteOwned now txnow owner a = run_tx (delete_owned_body now txnow owner a)"

subsection \<open>Completing a deletion\<close>

definition retain_tombstone :: "(deletion_cleanup_row \<Rightarrow> bool) \<Rightarrow> 'x artifact_db_scheme \<Rightarrow> 'x artifact_db_scheme" where
  "retain_tombstone P db =
     db\<lparr>deletion_cleanups := update_where P
       (\<lambda>c. c\<lparr>del_leaseOwner := None, del_leaseExpiresAt := None, del_nextAttemptAt := None,
         del_lastErrorCode := Some ''gallery_tombstone_retained''\<rparr>) (deletion_cleanups db)\<rparr>"

definition completeDeletion :: "time \<Rightarrow> js_string \<Rightarrow> js_string \<Rightarrow> content_db \<Rightarrow> content_db" where
  "completeDeletion txnow owner a db =
     (let mine = (\<lambda>c. del_artifactId c = a \<and> del_ownerUserId c = owner) in
      if active_hold txnow a db then db
      else if listed_artifact a db then retain_tombstone mine db
      else db\<lparr>deletion_cleanups := filter (\<lambda>c. \<not> mine c) (deletion_cleanups db)\<rparr>)"

text \<open>
  The completion by the reconciliation, which holds the lease \<open>token\<close> on the cleanup. Of the
  bundles of the artifact, those no other artifact uses go to the cleanup. The prefixes of the
  attempts are aggregated without an order; here they are in the order of the table.
\<close>

definition completeArtifactDeletionCleanup ::
  "time \<Rightarrow> js_string \<Rightarrow> js_string \<Rightarrow> content_db \<Rightarrow> content_db \<times> (tx_error + unit)" where
  "completeArtifactDeletionCleanup txnow a token = run_tx (\<lambda>db.
     let leased = (\<lambda>c. del_artifactId c = a \<and> del_leaseOwner c = Some token) in
     if \<not> listed_artifact a db
     then Inr (db\<lparr>deletion_cleanups := filter (\<lambda>c. \<not> leased c) (deletion_cleanups db)\<rparr>, ())
     else if \<not> exists_where leased (deletion_cleanups db) then Inr (db, ())
     else
       let own = bundle_of_artifact a db;
           freed = (\<lambda>b. own (cb_id b) \<and> \<not> used_elsewhere a db (cb_id b)) in
       bindR (update_bundles freed (deleting_bundle txnow)
         (db\<lparr>bundle_cleanups := fold (\<lambda>b. insert_bundle_cleanup (bundle_cleanup txnow b db))
               (filter freed (content_bundles db)) (bundle_cleanups db),
             bundle_aliases := retire_alias txnow own (bundle_aliases db),
             raw_aliases := retire_alias txnow own (raw_aliases db),
             thumbnail_jobs := cancel_thumbnails txnow own (thumbnail_jobs db)\<rparr>)) (\<lambda>db.
       bindR (update_versions (\<lambda>v. ver_artifactId v = a) (\<lambda>v. v\<lparr>ver_contentBundleId := None\<rparr>) db) (\<lambda>db.
       Inr (retain_tombstone leased (remove_sharing a db), ()))))"

subsection \<open>What the statements leave\<close>

lemma check_bundles_Inr [simp]:
  "check_bundles t = Inr t' \<longleftrightarrow> t' = t \<and> list_all content_bundle_row_ok t \<and> bundles_unique t"
  by (auto simp: check_bundles_def)

lemma update_bundles_Inr:
  "update_bundles p f db = Inr db' \<longleftrightarrow>
     list_all content_bundle_row_ok (update_where p f (content_bundles db)) \<and> bundles_unique (update_where p f (content_bundles db))
     \<and> db' = db\<lparr>content_bundles := update_where p f (content_bundles db)\<rparr>"
  by (auto simp: update_bundles_def bindR_eq_Inr)

lemma update_versions_Inr:
  "update_versions p f db = Inr db' \<longleftrightarrow>
     list_all artifact_version_row_ok (update_where p f (artifact_versions db))
     \<and> db' = db\<lparr>artifact_versions := update_where p f (artifact_versions db)\<rparr>"
  by (auto simp: update_versions_def Let_def)

text \<open>The row of a bundle of the artifact after the loop.\<close>

definition released_bundle :: "time \<Rightarrow> time \<Rightarrow> js_string \<Rightarrow> 'x content_db_scheme \<Rightarrow> content_bundle_row \<Rightarrow> content_bundle_row" where
  "released_bundle now txnow a db r =
     (if used_elsewhere a db (cb_id r)
      then if made_by (attempt_of_artifact a db) (cb_creatorAttemptId r) \<or> made_by (attempt_of_artifact a db) (cb_winningAttemptId r)
        then detach_attempts (attempt_of_artifact a db) txnow r else r
      else deleting_bundle now r)"

lemma made_by_None [simp]: "\<not> made_by P None"
  by (simp add: made_by_def)

lemma bundle_row_simps [simp]:
  "cb_id (deleting_bundle now b) = cb_id b" "cb_lifecycleState (deleting_bundle now b) = Bundle_deleting"
  "cb_creatorAttemptId (deleting_bundle now b) = None" "cb_winningAttemptId (deleting_bundle now b) = None"
  "deleting_bundle now (deleting_bundle now b) = deleting_bundle now b"
  "cb_id (detach_attempts P t b) = cb_id b" "cb_lifecycleState (detach_attempts P t b) = cb_lifecycleState b"
  "\<not> made_by P (cb_creatorAttemptId (detach_attempts P t b))" "\<not> made_by P (cb_winningAttemptId (detach_attempts P t b))"
  by (simp_all add: deleting_bundle_def detach_attempts_def)

lemma released_bundle_simps [simp]:
  "cb_id (released_bundle now txnow a db r) = cb_id r"
  "released_bundle now txnow a db (released_bundle now txnow a db r) = released_bundle now txnow a db r"
  "\<not> made_by (attempt_of_artifact a db) (cb_creatorAttemptId (released_bundle now txnow a db r))"
  "\<not> made_by (attempt_of_artifact a db) (cb_winningAttemptId (released_bundle now txnow a db r))"
  by (auto simp: released_bundle_def)

lemma used_elsewhere_released [simp]:
  "cb_lifecycleState (released_bundle now txnow a db r) =
     (if used_elsewhere a db (cb_id r) then cb_lifecycleState r else Bundle_deleting)"
  by (simp add: released_bundle_def)

lemma release_bundle_Inr:
  assumes "release_bundle now txnow a b db = Inr db'"
  obtains al ra tj cl where "db' = db\<lparr>bundle_aliases := al, raw_aliases := ra, thumbnail_jobs := tj, bundle_cleanups := cl,
      content_bundles := update_where (\<lambda>r. cb_id r = cb_id b) (released_bundle now txnow a db) (content_bundles db)\<rparr>"
    "set (bundle_cleanups db) \<subseteq> set cl"
    "\<not> used_elsewhere a db (cb_id b) \<Longrightarrow> \<exists>c \<in> set cl. bc_bundleId c = cb_id b"
proof (cases "used_elsewhere a db (cb_id b)")
  case True
  have "update_where (\<lambda>r. cb_id r = cb_id b \<and> (made_by (attempt_of_artifact a db) (cb_creatorAttemptId r)
            \<or> made_by (attempt_of_artifact a db) (cb_winningAttemptId r)))
          (detach_attempts (attempt_of_artifact a db) txnow) (content_bundles db)
      = update_where (\<lambda>r. cb_id r = cb_id b) (released_bundle now txnow a db) (content_bundles db)"
    using True by (auto simp: update_where_def released_bundle_def)
  with assms True show thesis
    by (intro that [of "bundle_cleanups db" "thumbnail_jobs db" "raw_aliases db" "bundle_aliases db"])
      (auto simp: release_bundle_def update_bundles_Inr)
next
  case False
  have "update_where (\<lambda>r. cb_id r = cb_id b) (deleting_bundle now) (content_bundles db)
      = update_where (\<lambda>r. cb_id r = cb_id b) (released_bundle now txnow a db) (content_bundles db)"
    using False by (auto simp: update_where_def released_bundle_def)
  moreover have "\<exists>c \<in> set (insert_bundle_cleanup (bundle_cleanup txnow b db) (bundle_cleanups db)). bc_bundleId c = cb_id b"
    by (auto simp: insert_bundle_cleanup_def bundle_cleanup_def exists_where_iff)
  moreover have "set (bundle_cleanups db) \<subseteq> set (insert_bundle_cleanup (bundle_cleanup txnow b db) (bundle_cleanups db))"
    by (auto simp: insert_bundle_cleanup_def)
  ultimately show thesis using assms False
    by (intro that) (simp_all add: release_bundle_def update_bundles_Inr Let_def)
qed

lemma release_bundles_Inr:
  assumes "release_bundles now txnow a bs db = Inr db'"
  shows "\<exists>al ra tj cl. db' = db\<lparr>bundle_aliases := al, raw_aliases := ra, thumbnail_jobs := tj, bundle_cleanups := cl,
      content_bundles := update_where (\<lambda>r. cb_id r \<in> cb_id ` set bs) (released_bundle now txnow a db) (content_bundles db)\<rparr>
    \<and> set (bundle_cleanups db) \<subseteq> set cl
    \<and> (\<forall>b \<in> set bs. \<not> used_elsewhere a db (cb_id b) \<longrightarrow> (\<exists>c \<in> set cl. bc_bundleId c = cb_id b))"
  using assms
proof (induction bs arbitrary: db)
  case Nil
  then show ?case by (intro exI [of _ "bundle_aliases db"] exI [of _ "raw_aliases db"] exI [of _ "thumbnail_jobs db"]
      exI [of _ "bundle_cleanups db"]) (simp add: update_where_def)
next
  case (Cons b bs)
  then obtain db1 where step: "release_bundle now txnow a b db = Inr db1" and rest: "release_bundles now txnow a bs db1 = Inr db'"
    by (auto simp: bindR_eq_Inr)
  obtain al ra tj cl where
    db1: "db1 = db\<lparr>bundle_aliases := al, raw_aliases := ra, thumbnail_jobs := tj, bundle_cleanups := cl,
      content_bundles := update_where (\<lambda>r. cb_id r = cb_id b) (released_bundle now txnow a db) (content_bundles db)\<rparr>"
    and cl: "set (bundle_cleanups db) \<subseteq> set cl" "\<not> used_elsewhere a db (cb_id b) \<Longrightarrow> \<exists>c \<in> set cl. bc_bundleId c = cb_id b"
    by (rule release_bundle_Inr [OF step]) (rule that)
  have tables: "artifact_versions db1 = artifact_versions db" "processing_attempts db1 = processing_attempts db"
      "processing_jobs db1 = processing_jobs db" "upload_sessions db1 = upload_sessions db"
    by (simp_all add: db1)
  have "used_elsewhere a db1 = used_elsewhere a db"
    by (rule ext) (simp add: used_elsewhere_def tables)
  moreover have "attempt_of_artifact a db1 = attempt_of_artifact a db"
    by (rule ext) (simp add: attempt_of_artifact_def job_of_artifact_def session_of_artifact_def tables)
  ultimately have same: "used_elsewhere a db1 = used_elsewhere a db" "released_bundle now txnow a db1 = released_bundle now txnow a db"
    by (simp, intro ext) (simp add: released_bundle_def)
  have twice: "update_where (\<lambda>r. cb_id r \<in> cb_id ` set bs) (released_bundle now txnow a db)
      (update_where (\<lambda>r. cb_id r = cb_id b) (released_bundle now txnow a db) t)
    = update_where (\<lambda>r. cb_id r \<in> cb_id ` set (b # bs)) (released_bundle now txnow a db) t" for t
    by (induction t) auto
  from Cons.IH [OF rest] obtain al' ra' tj' cl' where
    "db' = db1\<lparr>bundle_aliases := al', raw_aliases := ra', thumbnail_jobs := tj', bundle_cleanups := cl',
      content_bundles := update_where (\<lambda>r. cb_id r \<in> cb_id ` set bs) (released_bundle now txnow a db1) (content_bundles db1)\<rparr>"
    "set (bundle_cleanups db1) \<subseteq> set cl'"
    "\<forall>b \<in> set bs. \<not> used_elsewhere a db1 (cb_id b) \<longrightarrow> (\<exists>c \<in> set cl'. bc_bundleId c = cb_id b)" by blast
  note IH = this [unfolded same]
  have "db' = db\<lparr>bundle_aliases := al', raw_aliases := ra', thumbnail_jobs := tj', bundle_cleanups := cl',
      content_bundles := update_where (\<lambda>r. cb_id r \<in> cb_id ` set (b # bs)) (released_bundle now txnow a db) (content_bundles db)\<rparr>"
    unfolding IH(1) twice [symmetric] by (simp add: db1)
  moreover have "set (bundle_cleanups db) \<subseteq> set cl'" using IH(2) cl(1) by (simp add: db1)
  moreover have "\<forall>c \<in> set (b # bs). \<not> used_elsewhere a db (cb_id c) \<longrightarrow> (\<exists>d \<in> set cl'. bc_bundleId d = cb_id c)"
    using IH(2,3) cl(2) by (auto simp: db1)
  ultimately show ?case by blast
qed

lemma close_artifact_listings_keeps_ids:
  assumes "close_artifact_listings txnow a g = Inr g'"
  shows "map (\<lambda>l. (gl_id l, gl_artifact_id l)) (listings g') = map (\<lambda>l. (gl_id l, gl_artifact_id l)) (listings g)"
    and "cases g' = cases g" "revisions g' = revisions g" "acceptances g' = acceptances g"
    and "public_sharing_restrictions g' = public_sharing_restrictions g" "artifact_takedowns g' = artifact_takedowns g"
proof -
  obtain g1 g2 where 1: "update_listings (closes_with_artifact a) (withdraw_for_artifact txnow)
      (g\<lparr>lifecycle_events := lifecycle_events g @ map artifact_deleted_event (filter (closes_with_artifact a) (listings g))\<rparr>) = Inr g1"
    and 2: "update_proposals (\<lambda>p. open_proposal p \<and> listing_of_artifact g1 a (gp_listing_id p))
      (\<lambda>p. p\<lparr>gp_state := Closed, gp_closed_at := Some txnow\<rparr>) g1 = Inr g2"
    and 3: "insert_tombstones_do_update (map (artifact_tombstone txnow) (filter (withdrawn_with_artifact a) (listings g2)))
      (g2\<lparr>appeals := update_where (\<lambda>r. gap_state r = Appeal_state_pending \<and> decision_on_artifact g2 a (gap_decision_id r))
        (\<lambda>r. r\<lparr>gap_state := Appeal_state_moot, gap_resolved_at := Some txnow\<rparr>) (appeals g2)\<rparr>) = Inr g'"
    using assms by (auto simp: close_artifact_listings_def Let_def bindR_eq_Inr)
  have g1: "listings g1 = update_where (closes_with_artifact a) (withdraw_for_artifact txnow) (listings g)"
    "cases g1 = cases g" "revisions g1 = revisions g" "acceptances g1 = acceptances g"
    "public_sharing_restrictions g1 = public_sharing_restrictions g" "artifact_takedowns g1 = artifact_takedowns g"
    using 1 by (simp_all add: update_listings_Inr)
  have g2: "listings g2 = listings g1" "cases g2 = cases g1" "revisions g2 = revisions g1" "acceptances g2 = acceptances g1"
    "public_sharing_restrictions g2 = public_sharing_restrictions g1" "artifact_takedowns g2 = artifact_takedowns g1"
    using 2 by (simp_all add: update_proposals_Inr)
  note g' = insert_tombstones_effect [OF 3]
  show "map (\<lambda>l. (gl_id l, gl_artifact_id l)) (listings g') = map (\<lambda>l. (gl_id l, gl_artifact_id l)) (listings g)"
    using g' g2 g1 by (simp add: map_update_where_same withdraw_for_artifact_def)
  show "cases g' = cases g" "revisions g' = revisions g" "acceptances g' = acceptances g"
    "public_sharing_restrictions g' = public_sharing_restrictions g" "artifact_takedowns g' = artifact_takedowns g"
    using g' g2 g1 by simp_all
qed

text \<open>The state between the statements of a deletion nothing holds.\<close>

definition cleanup_row :: "time \<Rightarrow> js_string \<Rightarrow> js_string \<Rightarrow> ArtifactDeletionRecord \<Rightarrow> deletion_cleanup_row" where
  "cleanup_row txnow a owner r =
     \<lparr>del_artifactId = a, del_ownerUserId = owner, del_objectKeys = dr_objectKeys r,
      del_stagingPrefixes = dr_stagingPrefixes r, del_createdAt = txnow, del_leaseOwner = None,
      del_leaseExpiresAt = None, del_attemptCount = 0, del_nextAttemptAt = Some txnow, del_lastErrorCode = None\<rparr>"

definition owns :: "js_string \<Rightarrow> js_string \<Rightarrow> 'x artifact_db_scheme \<Rightarrow> bool" where
  "owns owner a db \<longleftrightarrow> exists_where (\<lambda>r. art_id r = a \<and> art_ownerUserId r = owner) (stored_artifacts db)"

lemma insert_deletion_cleanup_Inr:
  "insert_deletion_cleanup txnow a owner r db = Inr db' \<longleftrightarrow>
     \<not> awaits_cleanup a db \<and> db' = db\<lparr>deletion_cleanups := deletion_cleanups db @ [cleanup_row txnow a owner r]\<rparr>"
  by (auto simp: insert_deletion_cleanup_def cleanup_row_def)

lemma delete_owned_steps:
  assumes "deleteOwned now txnow owner a db = (db', Inr (Deletion_cleanup r))" "owns owner a db"
  obtains g where "close_artifact_listings txnow a (gallery db) = Inr g" "r = deletion_record a db"
    "\<not> active_upload a db" "\<not> awaits_cleanup a db"
    "active_hold txnow a db \<Longrightarrow>
       db' = db\<lparr>gallery := g, deletion_cleanups := deletion_cleanups db @ [cleanup_row txnow a owner r]\<rparr>"
    "\<not> active_hold txnow a db \<Longrightarrow> \<exists>db2. release_bundles now txnow a
        (filter (\<lambda>b. bundle_of_artifact a db (cb_id b)) (content_bundles db))
        (db\<lparr>gallery := g, deletion_cleanups := deletion_cleanups db @ [cleanup_row txnow a owner r]\<rparr>) = Inr db2
      \<and> remove_rows a (listed_artifact a db) db2 = Inr db'"
proof -
  have same: "deletion_record a (db\<lparr>gallery := g\<rparr>) = deletion_record a db"
    "awaits_cleanup a (db\<lparr>gallery := g\<rparr>) = awaits_cleanup a db"
    "bundle_of_artifact a (db\<lparr>gallery := g\<rparr>) = bundle_of_artifact a db" for g
    by (auto simp: deletion_record_def job_of_artifact_def session_of_artifact_def awaits_cleanup_def bundle_of_artifact_def fun_eq_iff)
  from assms obtain g where g: "close_artifact_listings txnow a (gallery db) = Inr g" and u: "\<not> active_upload a db"
    and rest: "(bindR (insert_deletion_cleanup txnow a owner (deletion_record a db) (db\<lparr>gallery := g\<rparr>)) (\<lambda>db1.
        if active_hold txnow a db then Inr (db1, Deletion_cleanup (deletion_record a db))
        else bindR (release_bundles now txnow a (filter (\<lambda>b. bundle_of_artifact a db (cb_id b)) (content_bundles db)) db1) (\<lambda>db2.
          bindR (remove_rows a (listed_artifact a db) db2) (\<lambda>db3.
          Inr (db3, Deletion_cleanup (deletion_record a db)))))) = Inr (db', Deletion_cleanup r)"
    by (auto simp: deleteOwned_def run_tx_eq_Inr delete_owned_body_def owns_def Let_def same bindR_eq_Inr split: if_splits)
  show thesis
  proof (rule that [OF g _ u])
    show r: "r = deletion_record a db"
      using rest by (auto simp: bindR_eq_Inr split: if_splits)
    show "\<not> awaits_cleanup a db"
      using rest by (auto simp: bindR_eq_Inr insert_deletion_cleanup_Inr same)
    show "db' = db\<lparr>gallery := g, deletion_cleanups := deletion_cleanups db @ [cleanup_row txnow a owner r]\<rparr>"
      if "active_hold txnow a db"
      using rest that r by (simp add: bindR_eq_Inr insert_deletion_cleanup_Inr)
    show "\<exists>db2. release_bundles now txnow a
        (filter (\<lambda>b. bundle_of_artifact a db (cb_id b)) (content_bundles db))
        (db\<lparr>gallery := g, deletion_cleanups := deletion_cleanups db @ [cleanup_row txnow a owner r]\<rparr>) = Inr db2
      \<and> remove_rows a (listed_artifact a db) db2 = Inr db'"
      if "\<not> active_hold txnow a db"
      using rest that r by (simp add: bindR_eq_Inr insert_deletion_cleanup_Inr)
  qed
qed

subsection \<open>A deleted artifact is gone\<close>

lemma released_state:
  assumes "release_bundles now txnow a bs db = Inr db'"
  shows "artifact_versions db' = artifact_versions db" "stored_artifacts db' = stored_artifacts db"
    "publications db' = publications db" "share_links db' = share_links db" "upload_sessions db' = upload_sessions db"
    "processing_jobs db' = processing_jobs db" "processing_attempts db' = processing_attempts db"
    "deletion_cleanups db' = deletion_cleanups db" "gallery db' = gallery db" "provenances db' = provenances db"
    "content_bundles db' = update_where (\<lambda>r. cb_id r \<in> cb_id ` set bs) (released_bundle now txnow a db) (content_bundles db)"
    "\<forall>b \<in> set bs. \<not> used_elsewhere a db (cb_id b) \<longrightarrow> (\<exists>c \<in> set (bundle_cleanups db'). bc_bundleId c = cb_id b)"
  using release_bundles_Inr [OF assms] by auto

lemma delete_artifact_Inr:
  "delete_artifact a db = Inr db' \<Longrightarrow>
     stored_artifacts db' = filter (\<lambda>r. art_id r \<noteq> a) (stored_artifacts db)
     \<and> share_links db' = filter (\<lambda>l. link_artifactId l \<noteq> a) (share_links db)
     \<and> upload_sessions db' = filter (\<lambda>r. sess_artifactId r \<noteq> a) (upload_sessions db)
     \<and> artifact_versions db' = artifact_versions db \<and> publications db' = publications db
     \<and> deletion_cleanups db' = deletion_cleanups db \<and> content_bundles db' = content_bundles db
     \<and> bundle_cleanups db' = bundle_cleanups db \<and> gallery db' = gallery db"
  by (auto simp: delete_artifact_def split: if_splits)

lemma delete_versions_Inr:
  "delete_versions a db = Inr db' \<Longrightarrow> db' = db\<lparr>artifact_versions := filter (\<lambda>v. ver_artifactId v \<noteq> a) (artifact_versions db)\<rparr>"
  by (auto simp: delete_versions_def split: if_splits)

lemma remove_rows_unlisted:
  assumes "remove_rows a False db = Inr db'"
  shows "stored_artifacts db' = filter (\<lambda>r. art_id r \<noteq> a) (stored_artifacts db)"
    "share_links db' = filter (\<lambda>l. link_artifactId l \<noteq> a) (share_links db)"
    "upload_sessions db' = filter (\<lambda>r. sess_artifactId r \<noteq> a) (upload_sessions db)"
    "artifact_versions db' = filter (\<lambda>v. ver_artifactId v \<noteq> a) (artifact_versions db)"
    "publications db' = filter (\<lambda>p. pub_artifactId p \<noteq> a) (publications db)"
    "deletion_cleanups db' = deletion_cleanups db" "content_bundles db' = content_bundles db"
    "bundle_cleanups db' = bundle_cleanups db"
proof -
  obtain db1 where 1: "delete_versions a (db\<lparr>publications := filter (\<lambda>p. pub_artifactId p \<noteq> a) (publications db)\<rparr>) = Inr db1"
    and 2: "delete_artifact a (db1\<lparr>idempotency_records :=
      filter (\<lambda>r. idem_targetResourceId r \<noteq> Some a) (idempotency_records db1)\<rparr>) = Inr db'"
    using assms by (auto simp: remove_rows_def bindR_eq_Inr)
  from delete_versions_Inr [OF 1] delete_artifact_Inr [OF 2]
  show "stored_artifacts db' = filter (\<lambda>r. art_id r \<noteq> a) (stored_artifacts db)"
    "share_links db' = filter (\<lambda>l. link_artifactId l \<noteq> a) (share_links db)"
    "upload_sessions db' = filter (\<lambda>r. sess_artifactId r \<noteq> a) (upload_sessions db)"
    "artifact_versions db' = filter (\<lambda>v. ver_artifactId v \<noteq> a) (artifact_versions db)"
    "publications db' = filter (\<lambda>p. pub_artifactId p \<noteq> a) (publications db)"
    "deletion_cleanups db' = deletion_cleanups db" "content_bundles db' = content_bundles db"
    "bundle_cleanups db' = bundle_cleanups db"
    by simp_all
qed

lemma update_where_none: "(\<And>r. r \<in> set t \<Longrightarrow> \<not> p r) \<Longrightarrow> update_where p f t = t"
  by (simp add: update_where_def map_idI)

lemma close_unlisted:
  assumes "close_artifact_listings txnow a g = Inr g'" "\<not> exists_where (\<lambda>l. gl_artifact_id l = a) (listings g)"
  shows "g' = g"
proof -
  have none: "gl_artifact_id l \<noteq> a" if "l \<in> set (listings g)" for l using assms(2) that by (auto simp: exists_where_iff)
  have closes: "filter (closes_with_artifact a) (listings g) = []" "filter (withdrawn_with_artifact a) (listings g) = []"
    using none by (auto simp: filter_empty_conv closes_with_artifact_def withdrawn_with_artifact_def)
  have listings: "update_where (closes_with_artifact a) f (listings g) = listings g" for f
    by (rule update_where_none) (use none in \<open>auto simp: closes_with_artifact_def\<close>)
  have away: "\<not> listing_of_artifact g a x" for x using none by (auto simp: listing_of_artifact_def exists_where_iff)
  then have "\<not> decision_on_artifact g a d" for d
    by (auto simp: decision_on_artifact_def exists_where_iff split: option.splits)
  with away assms(1) show ?thesis
    by (simp add: close_artifact_listings_def Let_def bindR_eq_Inr update_listings_Inr update_proposals_Inr listings closes
        update_where_none)
qed

lemma remove_rows_frame:
  assumes "remove_rows a False db = Inr db'"
  shows "db' = db\<lparr>publications := filter (\<lambda>p. pub_artifactId p \<noteq> a) (publications db),
    artifact_versions := filter (\<lambda>v. ver_artifactId v \<noteq> a) (artifact_versions db),
    idempotency_records := filter (\<lambda>r. idem_targetResourceId r \<noteq> Some a) (idempotency_records db),
    stored_artifacts := filter (\<lambda>r. art_id r \<noteq> a) (stored_artifacts db),
    share_links := filter (\<lambda>l. link_artifactId l \<noteq> a) (share_links db),
    upload_sessions := filter (\<lambda>r. sess_artifactId r \<noteq> a) (upload_sessions db),
    fingerprint_candidates := filter (\<lambda>r. \<not> session_of_artifact a db (cand_uploadSessionId r)) (fingerprint_candidates db),
    processing_jobs := filter (\<lambda>r. \<not> session_of_artifact a db (job_uploadSessionId r)) (processing_jobs db),
    processing_attempts := filter (\<lambda>r. \<not> job_of_artifact a db (att_jobId r)) (processing_attempts db)\<rparr>"
proof -
  obtain db1 where 1: "delete_versions a (db\<lparr>publications := filter (\<lambda>p. pub_artifactId p \<noteq> a) (publications db)\<rparr>) = Inr db1"
    and 2: "delete_artifact a (db1\<lparr>idempotency_records :=
      filter (\<lambda>r. idem_targetResourceId r \<noteq> Some a) (idempotency_records db1)\<rparr>) = Inr db'"
    using assms by (auto simp: remove_rows_def bindR_eq_Inr)
  note db1 = delete_versions_Inr [OF 1]
  have same: "session_of_artifact a (db1\<lparr>idempotency_records := t\<rparr>) = session_of_artifact a db"
    "job_of_artifact a (db1\<lparr>idempotency_records := t\<rparr>) = job_of_artifact a db" for t
    by (intro ext; simp add: db1 session_of_artifact_def job_of_artifact_def)+
  show ?thesis using 2 unfolding delete_artifact_def same by (simp add: db1 split: if_splits)
qed

text \<open>The cleanups of the bundles that are handed over: one for each that has none.\<close>

definition fresh_cleanups ::
  "time \<Rightarrow> content_db \<Rightarrow> (js_string \<Rightarrow> bool) \<Rightarrow> content_bundle_row list \<Rightarrow> bundle_cleanup_row list \<Rightarrow> bool" where
  "fresh_cleanups txnow db P bs cs \<longleftrightarrow> distinct (map bc_bundleId cs)
     \<and> bc_bundleId ` set cs = {x. P x \<and> \<not> exists_where (\<lambda>c. bc_bundleId c = x) (bundle_cleanups db)}
     \<and> (\<forall>c \<in> set cs. \<exists>b \<in> set bs. c = bundle_cleanup txnow b db)"

definition handed_over :: "js_string \<Rightarrow> content_db \<Rightarrow> content_bundle_row list \<Rightarrow> js_string \<Rightarrow> bool" where
  "handed_over a db bs x \<longleftrightarrow> x \<in> cb_id ` set bs \<and> \<not> used_elsewhere a db x"

lemma retire_alias_twice: "retire_alias t P (retire_alias t Q l) = retire_alias t (\<lambda>x. Q x \<or> P x) l"
  by (induction l) (auto simp: retire_alias_def)

lemma cancel_thumbnails_twice: "cancel_thumbnails t P (cancel_thumbnails t Q l) = cancel_thumbnails t (\<lambda>x. Q x \<or> P x) l"
  by (induction l) (auto simp: cancel_thumbnails_def)

lemma nothing_retired [simp]: "retire_alias t (\<lambda>x. False) l = l" "cancel_thumbnails t (\<lambda>x. False) js = js"
  by (simp_all add: retire_alias_def cancel_thumbnails_def update_where_none)

lemma release_bundle_tables:
  assumes "release_bundle now txnow a b db = Inr db'"
  shows "\<exists>cs. db' = db\<lparr>bundle_aliases := retire_alias now (handed_over a db [b]) (bundle_aliases db),
      raw_aliases := retire_alias now (handed_over a db [b]) (raw_aliases db),
      thumbnail_jobs := cancel_thumbnails txnow (handed_over a db [b]) (thumbnail_jobs db),
      bundle_cleanups := bundle_cleanups db @ cs,
      content_bundles := update_where (\<lambda>r. cb_id r \<in> cb_id ` set [b]) (released_bundle now txnow a db) (content_bundles db)\<rparr>
    \<and> fresh_cleanups txnow db (handed_over a db [b]) [b] cs"
proof (cases "used_elsewhere a db (cb_id b)")
  case True
  have "update_where (\<lambda>r. cb_id r = cb_id b \<and> (made_by (attempt_of_artifact a db) (cb_creatorAttemptId r)
            \<or> made_by (attempt_of_artifact a db) (cb_winningAttemptId r)))
          (detach_attempts (attempt_of_artifact a db) txnow) (content_bundles db)
      = update_where (\<lambda>r. cb_id r = cb_id b) (released_bundle now txnow a db) (content_bundles db)"
    using True by (auto simp: update_where_def released_bundle_def)
  moreover have "handed_over a db [b] = (\<lambda>x. False)" using True by (auto simp: handed_over_def)
  ultimately show ?thesis using assms True
    by (intro exI [of _ "[]"]) (simp add: release_bundle_def update_bundles_Inr fresh_cleanups_def)
next
  case False
  have bundles: "update_where (\<lambda>r. cb_id r = cb_id b) (deleting_bundle now) (content_bundles db)
      = update_where (\<lambda>r. cb_id r = cb_id b) (released_bundle now txnow a db) (content_bundles db)"
    using False by (auto simp: update_where_def released_bundle_def)
  have over: "handed_over a db [b] = (\<lambda>x. x = cb_id b)" using False by (auto simp: handed_over_def)
  let ?cs = "if exists_where (\<lambda>q. bc_bundleId q = cb_id b) (bundle_cleanups db) then [] else [bundle_cleanup txnow b db]"
  have id: "bc_bundleId (bundle_cleanup txnow b db) = cb_id b" by (simp add: bundle_cleanup_def)
  have "insert_bundle_cleanup (bundle_cleanup txnow b db) (bundle_cleanups db) = bundle_cleanups db @ ?cs"
    by (simp add: insert_bundle_cleanup_def id)
  moreover have "fresh_cleanups txnow db (\<lambda>x. x = cb_id b) [b] ?cs" by (auto simp: fresh_cleanups_def id)
  ultimately show ?thesis using assms False bundles
    by (intro exI [of _ ?cs]) (simp add: release_bundle_def update_bundles_Inr Let_def over)
qed

lemma release_bundles_tables:
  assumes "release_bundles now txnow a bs db = Inr db'"
  shows "\<exists>cs. db' = db\<lparr>bundle_aliases := retire_alias now (handed_over a db bs) (bundle_aliases db),
      raw_aliases := retire_alias now (handed_over a db bs) (raw_aliases db),
      thumbnail_jobs := cancel_thumbnails txnow (handed_over a db bs) (thumbnail_jobs db),
      bundle_cleanups := bundle_cleanups db @ cs,
      content_bundles := update_where (\<lambda>r. cb_id r \<in> cb_id ` set bs) (released_bundle now txnow a db) (content_bundles db)\<rparr>
    \<and> fresh_cleanups txnow db (handed_over a db bs) bs cs"
  using assms
proof (induction bs arbitrary: db)
  case Nil
  have "handed_over a db [] = (\<lambda>x. False)" by (auto simp: handed_over_def)
  with Nil show ?case by (intro exI [of _ "[]"]) (simp add: update_where_none fresh_cleanups_def)
next
  case (Cons b bs)
  then obtain db1 where step: "release_bundle now txnow a b db = Inr db1" and rest: "release_bundles now txnow a bs db1 = Inr db'"
    by (auto simp: bindR_eq_Inr)
  from release_bundle_tables [OF step] obtain cs where
    db1: "db1 = db\<lparr>bundle_aliases := retire_alias now (handed_over a db [b]) (bundle_aliases db),
      raw_aliases := retire_alias now (handed_over a db [b]) (raw_aliases db),
      thumbnail_jobs := cancel_thumbnails txnow (handed_over a db [b]) (thumbnail_jobs db),
      bundle_cleanups := bundle_cleanups db @ cs,
      content_bundles := update_where (\<lambda>r. cb_id r \<in> cb_id ` set [b]) (released_bundle now txnow a db) (content_bundles db)\<rparr>"
    and cs: "fresh_cleanups txnow db (handed_over a db [b]) [b] cs" by blast
  have tables: "artifact_versions db1 = artifact_versions db" "processing_attempts db1 = processing_attempts db"
      "processing_jobs db1 = processing_jobs db" "upload_sessions db1 = upload_sessions db"
    by (simp_all add: db1)
  have used: "used_elsewhere a db1 = used_elsewhere a db" by (rule ext) (simp add: used_elsewhere_def tables)
  have made: "attempt_of_artifact a db1 = attempt_of_artifact a db"
    by (rule ext) (simp add: attempt_of_artifact_def job_of_artifact_def session_of_artifact_def tables)
  have released: "released_bundle now txnow a db1 = released_bundle now txnow a db"
    by (rule ext) (simp add: released_bundle_def used made)
  have over: "handed_over a db1 bs = handed_over a db bs" by (rule ext) (simp add: handed_over_def used)
  have both: "(\<lambda>x. handed_over a db [b] x \<or> handed_over a db bs x) = handed_over a db (b # bs)"
    by (rule ext) (auto simp: handed_over_def)
  have row: "bundle_cleanup txnow c db1 = bundle_cleanup txnow c db" for c
    by (simp add: bundle_cleanup_def bundle_prefixes_def quiesce_after_def tables)
  have twice: "update_where (\<lambda>r. cb_id r \<in> cb_id ` set bs) (released_bundle now txnow a db)
      (update_where (\<lambda>r. cb_id r \<in> cb_id ` set [b]) (released_bundle now txnow a db) t)
    = update_where (\<lambda>r. cb_id r \<in> cb_id ` set (b # bs)) (released_bundle now txnow a db) t" for t
    by (induction t) auto
  from Cons.IH [OF rest] obtain ds where
    db': "db' = db1\<lparr>bundle_aliases := retire_alias now (handed_over a db bs) (bundle_aliases db1),
      raw_aliases := retire_alias now (handed_over a db bs) (raw_aliases db1),
      thumbnail_jobs := cancel_thumbnails txnow (handed_over a db bs) (thumbnail_jobs db1),
      bundle_cleanups := bundle_cleanups db1 @ ds,
      content_bundles := update_where (\<lambda>r. cb_id r \<in> cb_id ` set bs) (released_bundle now txnow a db) (content_bundles db1)\<rparr>"
    and ds: "fresh_cleanups txnow db1 (handed_over a db bs) bs ds"
    unfolding over released by blast
  have fields: "bundle_aliases db1 = retire_alias now (handed_over a db [b]) (bundle_aliases db)"
    "raw_aliases db1 = retire_alias now (handed_over a db [b]) (raw_aliases db)"
    "thumbnail_jobs db1 = cancel_thumbnails txnow (handed_over a db [b]) (thumbnail_jobs db)"
    "bundle_cleanups db1 = bundle_cleanups db @ cs"
    "content_bundles db1 = update_where (\<lambda>r. cb_id r \<in> cb_id ` set [b]) (released_bundle now txnow a db) (content_bundles db)"
    unfolding db1 by simp_all
  from db1 obtain v w x y z where abs: "db1 = db\<lparr>bundle_aliases := v, raw_aliases := w, thumbnail_jobs := x,
      bundle_cleanups := y, content_bundles := z\<rparr>" by blast
  have "db' = db\<lparr>bundle_aliases := retire_alias now (handed_over a db (b # bs)) (bundle_aliases db),
      raw_aliases := retire_alias now (handed_over a db (b # bs)) (raw_aliases db),
      thumbnail_jobs := cancel_thumbnails txnow (handed_over a db (b # bs)) (thumbnail_jobs db),
      bundle_cleanups := bundle_cleanups db @ (cs @ ds),
      content_bundles := update_where (\<lambda>r. cb_id r \<in> cb_id ` set (b # bs)) (released_bundle now txnow a db) (content_bundles db)\<rparr>"
    unfolding db' fields retire_alias_twice cancel_thumbnails_twice both twice append_assoc [symmetric] by (simp only: abs) simp
  moreover have "fresh_cleanups txnow db (handed_over a db (b # bs)) (b # bs) (cs @ ds)"
  proof -
    let ?id = "\<lambda>cs. bc_bundleId ` set cs"
    have taken: "exists_where (\<lambda>c. bc_bundleId c = x) t \<longleftrightarrow> x \<in> ?id t" for x t by (auto simp: exists_where_iff)
    note cs = cs [unfolded fresh_cleanups_def taken] and ds = ds [unfolded fresh_cleanups_def taken fields(4) row]
    have ids: "?id (bundle_cleanups db @ cs) = ?id (bundle_cleanups db) \<union> ?id cs" by auto
    have cs_ids: "x \<in> ?id cs \<longleftrightarrow> handed_over a db [b] x \<and> x \<notin> ?id (bundle_cleanups db)" for x
      using cs by blast
    have ds_ids: "x \<in> ?id ds \<longleftrightarrow> handed_over a db bs x \<and> x \<notin> ?id (bundle_cleanups db) \<and> x \<notin> ?id cs" for x
      using ds unfolding ids by blast
    have "handed_over a db (b # bs) x \<longleftrightarrow> handed_over a db [b] x \<or> handed_over a db bs x" for x
      by (auto simp: handed_over_def)
    then have "x \<in> ?id (cs @ ds) \<longleftrightarrow> handed_over a db (b # bs) x \<and> x \<notin> ?id (bundle_cleanups db)" for x
      unfolding set_append image_Un Un_iff ds_ids cs_ids by blast
    then have "?id (cs @ ds) = {x. handed_over a db (b # bs) x \<and> x \<notin> ?id (bundle_cleanups db)}" by blast
    moreover have "?id cs \<inter> ?id ds = {}" using ds_ids by blast
    then have "distinct (map bc_bundleId (cs @ ds))" using cs ds by simp
    moreover have "\<forall>c \<in> set (cs @ ds). \<exists>q \<in> set (b # bs). c = bundle_cleanup txnow q db" using cs ds by auto
    ultimately show ?thesis unfolding fresh_cleanups_def taken by blast
  qed
  ultimately show ?case by blast
qed

lemma foldr_max_bounds:
  fixes n :: "'a :: linorder"
  shows "n \<le> foldr max xs n" "x \<in> set xs \<Longrightarrow> x \<le> foldr max xs n"
  by (induction xs) (auto simp: le_max_iff_disj)

lemma set_map_filter_Some: "set (List.map_filter f xs) = {y. \<exists>x \<in> set xs. f x = Some y}"
  by (induction xs) (auto simp: map_filter_simps split: option.splits)

lemma bundle_cleanup_facts:
  assumes "c = bundle_cleanup txnow b db"
  shows "bc_bundleId c = cb_id b" "bc_ownerUserId c = cb_ownerUserId b" "bc_state c = Cleanup_pending" "bc_nextAttemptAt c = txnow"
    "bc_leaseOwner c = None" "bc_completedAt c = None"
    "set (bc_objectPrefixes c) = {''content-bundles/'' @ cb_id b @ ''/''} \<union>
       {p. \<exists>t \<in> set (processing_attempts db). (cb_creatorAttemptId b = Some (att_id t) \<or> cb_winningAttemptId b = Some (att_id t))
          \<and> att_objectPrefix t = Some p}"
    "txnow + 60000 \<le> bc_quiesceAfter c"
    "t \<in> set (processing_attempts db) \<Longrightarrow> cb_creatorAttemptId b = Some (att_id t) \<or> cb_winningAttemptId b = Some (att_id t) \<Longrightarrow>
       att_writeDeadlineAt t = Some d \<Longrightarrow> d + 60000 \<le> bc_quiesceAfter c"
proof -
  show "bc_bundleId c = cb_id b" "bc_ownerUserId c = cb_ownerUserId b" "bc_state c = Cleanup_pending" "bc_nextAttemptAt c = txnow"
    "bc_leaseOwner c = None" "bc_completedAt c = None"
    by (simp_all add: assms bundle_cleanup_def)
  show "set (bc_objectPrefixes c) = {''content-bundles/'' @ cb_id b @ ''/''} \<union>
       {p. \<exists>t \<in> set (processing_attempts db). (cb_creatorAttemptId b = Some (att_id t) \<or> cb_winningAttemptId b = Some (att_id t))
          \<and> att_objectPrefix t = Some p}"
    by (auto simp: assms bundle_cleanup_def bundle_prefixes_def attempt_named_def set_map_filter_Some)
  show "txnow + 60000 \<le> bc_quiesceAfter c"
    unfolding assms bundle_cleanup_def quiesce_after_def minute_def by (simp add: foldr_max_bounds(1))
  assume "t \<in> set (processing_attempts db)" "cb_creatorAttemptId b = Some (att_id t) \<or> cb_winningAttemptId b = Some (att_id t)"
    "att_writeDeadlineAt t = Some d"
  then have "d + minute \<in> set (map (\<lambda>t. t + minute)
      (List.map_filter att_writeDeadlineAt (filter (attempt_named b) (processing_attempts db))))"
    by (auto simp: attempt_named_def set_map_filter_Some)
  from foldr_max_bounds(2) [OF this] show "d + 60000 \<le> bc_quiesceAfter c"
    by (simp add: assms bundle_cleanup_def quiesce_after_def minute_def)
qed

text \<open>The tables a deletion leaves, in the terms of its statements.\<close>

lemma deletion_effect:
  assumes "deleteOwned now txnow owner a db = (db', Inr (Deletion_cleanup r))"
    and "owns owner a db" "\<not> listed_artifact a db" "\<not> active_hold txnow a db"
  defines "over \<equiv> handed_over a db (filter (\<lambda>b. bundle_of_artifact a db (cb_id b)) (content_bundles db))"
  obtains cs where "r = deletion_record a db"
    "db' = db\<lparr>stored_artifacts := filter (\<lambda>r. art_id r \<noteq> a) (stored_artifacts db),
      artifact_versions := filter (\<lambda>v. ver_artifactId v \<noteq> a) (artifact_versions db),
      publications := filter (\<lambda>p. pub_artifactId p \<noteq> a) (publications db),
      share_links := filter (\<lambda>l. link_artifactId l \<noteq> a) (share_links db),
      upload_sessions := filter (\<lambda>r. sess_artifactId r \<noteq> a) (upload_sessions db),
      fingerprint_candidates := filter (\<lambda>r. \<not> session_of_artifact a db (cand_uploadSessionId r)) (fingerprint_candidates db),
      processing_jobs := filter (\<lambda>r. \<not> session_of_artifact a db (job_uploadSessionId r)) (processing_jobs db),
      processing_attempts := filter (\<lambda>r. \<not> job_of_artifact a db (att_jobId r)) (processing_attempts db),
      idempotency_records := filter (\<lambda>r. idem_targetResourceId r \<noteq> Some a) (idempotency_records db),
      deletion_cleanups := deletion_cleanups db @ [cleanup_row txnow a owner r],
      content_bundles := update_where (\<lambda>b. bundle_of_artifact a db (cb_id b)) (released_bundle now txnow a db) (content_bundles db),
      bundle_aliases := retire_alias now over (bundle_aliases db), raw_aliases := retire_alias now over (raw_aliases db),
      thumbnail_jobs := cancel_thumbnails txnow over (thumbnail_jobs db), bundle_cleanups := bundle_cleanups db @ cs\<rparr>"
    "fresh_cleanups txnow db over (content_bundles db) cs"
proof -
  let ?bs = "filter (\<lambda>b. bundle_of_artifact a db (cb_id b)) (content_bundles db)"
  let ?row = "cleanup_row txnow a owner r"
  obtain g where g: "close_artifact_listings txnow a (gallery db) = Inr g"
    and r: "r = deletion_record a db" and steps: "\<exists>db2. release_bundles now txnow a ?bs
      (db\<lparr>gallery := g, deletion_cleanups := deletion_cleanups db @ [?row]\<rparr>) = Inr db2 \<and> remove_rows a (listed_artifact a db) db2 = Inr db'"
    using delete_owned_steps [OF assms(1,2)] assms(4) by metis
  have "g = gallery db" using close_unlisted [OF g] assms(3) by (simp add: listed_artifact_def)
  then have same: "db\<lparr>gallery := g, deletion_cleanups := x\<rparr> = db\<lparr>deletion_cleanups := x\<rparr>" for x by simp
  define db1 where db1: "db1 = db\<lparr>deletion_cleanups := deletion_cleanups db @ [?row]\<rparr>"
  from steps assms(3) obtain db2 where 2: "release_bundles now txnow a ?bs db1 = Inr db2" and 3: "remove_rows a False db2 = Inr db'"
    unfolding same db1 by auto
  have used: "used_elsewhere a db1 = used_elsewhere a db" "attempt_of_artifact a db1 = attempt_of_artifact a db"
    by (intro ext; simp add: db1 used_elsewhere_def attempt_of_artifact_def job_of_artifact_def session_of_artifact_def)+
  have "handed_over a db1 ?bs = over" "released_bundle now txnow a db1 = released_bundle now txnow a db"
    by (intro ext; simp add: over_def handed_over_def released_bundle_def used)+
  moreover have "bundle_cleanup txnow b db1 = bundle_cleanup txnow b db" "bundle_cleanups db1 = bundle_cleanups db" for b
    by (simp_all add: db1 bundle_cleanup_def bundle_prefixes_def quiesce_after_def)
  ultimately have first: "handed_over a db1 ?bs = over" "released_bundle now txnow a db1 = released_bundle now txnow a db"
    "bundle_cleanup txnow b db1 = bundle_cleanup txnow b db" "bundle_cleanups db1 = bundle_cleanups db" for b by simp_all
  from release_bundles_tables [OF 2, unfolded first] obtain cs where
    db2: "db2 = db1\<lparr>bundle_aliases := retire_alias now over (bundle_aliases db1),
      raw_aliases := retire_alias now over (raw_aliases db1), thumbnail_jobs := cancel_thumbnails txnow over (thumbnail_jobs db1),
      bundle_cleanups := bundle_cleanups db @ cs,
      content_bundles := update_where (\<lambda>r. cb_id r \<in> cb_id ` set ?bs) (released_bundle now txnow a db) (content_bundles db1)\<rparr>"
    and cs: "fresh_cleanups txnow db1 over ?bs cs" by blast
  have later: "session_of_artifact a db2 = session_of_artifact a db" "job_of_artifact a db2 = job_of_artifact a db"
    by (intro ext; simp add: db2 db1 session_of_artifact_def job_of_artifact_def)+
  have own: "update_where (\<lambda>b. cb_id b \<in> cb_id ` set ?bs) f (content_bundles db)
      = update_where (\<lambda>b. bundle_of_artifact a db (cb_id b)) f (content_bundles db)" for f
    by (auto simp: update_where_def)
  show thesis
  proof (rule that [OF r _ ])
    show "fresh_cleanups txnow db over (content_bundles db) cs" using cs by (auto simp: fresh_cleanups_def first)
  qed (unfold remove_rows_frame [OF 3, unfolded later] db2 db1, rule content_db.equality, simp_all add: own [simplified])
qed

text \<open>
  C6: a deleted artifact is gone and nothing else is. When an artifact without a listing and
  without a hold is deleted, its row, versions, publications, links, upload sessions, raw
  fingerprints, jobs, attempts and idempotency records are gone, and of these tables nothing else.
  The answer and the one cleanup row added name exactly the raw objects of its sessions and the
  staging prefixes of its attempts. A bundle its versions used and no version of another artifact
  uses is being deleted, its aliases are retired and its thumbnail jobs cancelled; unless it has a
  cleanup already it gets one, which is due at once, removes the root of the bundle and every
  object prefix of the attempts that made it, and waits a minute longer than their write
  deadlines. A bundle another artifact uses only loses the attempts that go. No other row and no
  other table changed, the Gallery included.
\<close>

theorem deletion_removes_exactly_the_artifact:
  assumes "deleteOwned now txnow owner a db = (db', Inr (Deletion_cleanup r))"
    and "owns owner a db" "\<not> listed_artifact a db" "\<not> active_hold txnow a db"
  defines "session \<equiv> \<lambda>x. \<exists>s \<in> set (upload_sessions db). sess_id s = x \<and> sess_artifactId s = a"
  defines "job \<equiv> \<lambda>x. \<exists>j \<in> set (processing_jobs db). job_id j = x \<and> session (job_uploadSessionId j)"
  defines "going \<equiv> \<lambda>x. \<exists>i. x = Some i \<and> (\<exists>t \<in> set (processing_attempts db). att_id t = i \<and> job (att_jobId t))"
  defines "own \<equiv> \<lambda>x. \<exists>v \<in> set (artifact_versions db). ver_artifactId v = a \<and> ver_contentBundleId v = Some x"
  defines "shared \<equiv> \<lambda>x. \<exists>v \<in> set (artifact_versions db). ver_artifactId v \<noteq> a \<and> ver_contentBundleId v = Some x"
  defines "freed \<equiv> \<lambda>x. own x \<and> \<not> shared x \<and> x \<in> cb_id ` set (content_bundles db)"
  shows "distinct (dr_objectKeys r) \<and> set (dr_objectKeys r) = {sess_rawObjectKey s | s. s \<in> set (upload_sessions db) \<and> sess_artifactId s = a}
    \<and> distinct (dr_stagingPrefixes r)
    \<and> set (dr_stagingPrefixes r) = {att_stagingPrefix t | t. t \<in> set (processing_attempts db) \<and> job (att_jobId t)}
    \<and> (\<exists>cs. db' = db\<lparr>stored_artifacts := filter (\<lambda>x. art_id x \<noteq> a) (stored_artifacts db),
          artifact_versions := filter (\<lambda>v. ver_artifactId v \<noteq> a) (artifact_versions db),
          publications := filter (\<lambda>p. pub_artifactId p \<noteq> a) (publications db),
          share_links := filter (\<lambda>l. link_artifactId l \<noteq> a) (share_links db),
          upload_sessions := filter (\<lambda>s. sess_artifactId s \<noteq> a) (upload_sessions db),
          fingerprint_candidates := filter (\<lambda>c. \<not> session (cand_uploadSessionId c)) (fingerprint_candidates db),
          processing_jobs := filter (\<lambda>j. \<not> session (job_uploadSessionId j)) (processing_jobs db),
          processing_attempts := filter (\<lambda>t. \<not> job (att_jobId t)) (processing_attempts db),
          idempotency_records := filter (\<lambda>x. idem_targetResourceId x \<noteq> Some a) (idempotency_records db),
          deletion_cleanups := deletion_cleanups db @ [\<lparr>del_artifactId = a, del_ownerUserId = owner, del_objectKeys = dr_objectKeys r,
            del_stagingPrefixes = dr_stagingPrefixes r, del_createdAt = txnow, del_leaseOwner = None, del_leaseExpiresAt = None,
            del_attemptCount = 0, del_nextAttemptAt = Some txnow, del_lastErrorCode = None\<rparr>],
          content_bundles := map (\<lambda>b. if \<not> own (cb_id b) then b
            else if \<not> shared (cb_id b) then b\<lparr>cb_lifecycleState := Bundle_deleting, cb_creatorAttemptId := None,
              cb_winningAttemptId := None, cb_deletingAt := Some now, cb_updatedAt := now\<rparr>
            else if going (cb_creatorAttemptId b) \<or> going (cb_winningAttemptId b) then
              b\<lparr>cb_creatorAttemptId := (if going (cb_creatorAttemptId b) then None else cb_creatorAttemptId b),
                cb_winningAttemptId := (if going (cb_winningAttemptId b) then None else cb_winningAttemptId b), cb_updatedAt := txnow\<rparr>
            else b) (content_bundles db),
          bundle_aliases := map (\<lambda>x. if freed (alias_bundleId x) \<and> alias_retiredAt x = None then x\<lparr>alias_retiredAt := Some now\<rparr> else x)
            (bundle_aliases db),
          raw_aliases := map (\<lambda>x. if freed (alias_bundleId x) \<and> alias_retiredAt x = None then x\<lparr>alias_retiredAt := Some now\<rparr> else x)
            (raw_aliases db),
          thumbnail_jobs := map (\<lambda>x. if freed (tj_bundleId x) \<and> (tj_state x = Thumbnail_queued \<or> tj_state x = Thumbnail_running)
            then x\<lparr>tj_state := Thumbnail_cancelled, tj_leaseOwner := None, tj_leaseExpiresAt := None, tj_heartbeatAt := None,
              tj_updatedAt := txnow\<rparr> else x) (thumbnail_jobs db),
          bundle_cleanups := bundle_cleanups db @ cs\<rparr>
        \<and> distinct (map bc_bundleId cs) \<and> bc_bundleId ` set cs = {x. freed x \<and> x \<notin> bc_bundleId ` set (bundle_cleanups db)}
        \<and> (\<forall>c \<in> set cs. \<exists>b \<in> set (content_bundles db). cb_id b = bc_bundleId c \<and> bc_ownerUserId c = cb_ownerUserId b
            \<and> bc_state c = Cleanup_pending \<and> bc_nextAttemptAt c = txnow \<and> bc_leaseOwner c = None \<and> bc_completedAt c = None
            \<and> set (bc_objectPrefixes c) = {''content-bundles/'' @ cb_id b @ ''/''} \<union>
                {p. \<exists>t \<in> set (processing_attempts db). (cb_creatorAttemptId b = Some (att_id t) \<or> cb_winningAttemptId b = Some (att_id t))
                  \<and> att_objectPrefix t = Some p}
            \<and> txnow + 60000 \<le> bc_quiesceAfter c
            \<and> (\<forall>t \<in> set (processing_attempts db). \<forall>d. (cb_creatorAttemptId b = Some (att_id t) \<or> cb_winningAttemptId b = Some (att_id t))
                  \<and> att_writeDeadlineAt t = Some d \<longrightarrow> d + 60000 \<le> bc_quiesceAfter c)))"
proof -
  obtain cs where r: "r = deletion_record a db" and
    db': "db' = db\<lparr>stored_artifacts := filter (\<lambda>r. art_id r \<noteq> a) (stored_artifacts db),
      artifact_versions := filter (\<lambda>v. ver_artifactId v \<noteq> a) (artifact_versions db),
      publications := filter (\<lambda>p. pub_artifactId p \<noteq> a) (publications db),
      share_links := filter (\<lambda>l. link_artifactId l \<noteq> a) (share_links db),
      upload_sessions := filter (\<lambda>r. sess_artifactId r \<noteq> a) (upload_sessions db),
      fingerprint_candidates := filter (\<lambda>r. \<not> session_of_artifact a db (cand_uploadSessionId r)) (fingerprint_candidates db),
      processing_jobs := filter (\<lambda>r. \<not> session_of_artifact a db (job_uploadSessionId r)) (processing_jobs db),
      processing_attempts := filter (\<lambda>r. \<not> job_of_artifact a db (att_jobId r)) (processing_attempts db),
      idempotency_records := filter (\<lambda>r. idem_targetResourceId r \<noteq> Some a) (idempotency_records db),
      deletion_cleanups := deletion_cleanups db @ [cleanup_row txnow a owner r],
      content_bundles := update_where (\<lambda>b. bundle_of_artifact a db (cb_id b)) (released_bundle now txnow a db) (content_bundles db),
      bundle_aliases := retire_alias now (handed_over a db (filter (\<lambda>b. bundle_of_artifact a db (cb_id b)) (content_bundles db))) (bundle_aliases db),
      raw_aliases := retire_alias now (handed_over a db (filter (\<lambda>b. bundle_of_artifact a db (cb_id b)) (content_bundles db))) (raw_aliases db),
      thumbnail_jobs := cancel_thumbnails txnow (handed_over a db (filter (\<lambda>b. bundle_of_artifact a db (cb_id b)) (content_bundles db))) (thumbnail_jobs db),
      bundle_cleanups := bundle_cleanups db @ cs\<rparr>"
    and cs: "fresh_cleanups txnow db (handed_over a db (filter (\<lambda>b. bundle_of_artifact a db (cb_id b)) (content_bundles db))) (content_bundles db) cs"
    by (rule deletion_effect [OF assms(1-4)]) (rule that; assumption)
  have raw: "session_of_artifact a db = session" "job_of_artifact a db = job" "made_by (attempt_of_artifact a db) = going"
    "bundle_of_artifact a db = own" "used_elsewhere a db = shared"
    by (rule ext; auto simp: session_of_artifact_def job_of_artifact_def attempt_of_artifact_def bundle_of_artifact_def
        used_elsewhere_def made_by_def session_def job_def going_def own_def shared_def exists_where_iff split: option.splits)+
  have freed: "handed_over a db (filter (\<lambda>b. own (cb_id b)) (content_bundles db)) = freed"
    by (rule ext) (auto simp: handed_over_def freed_def raw)
  have row: "(if own (cb_id b) then released_bundle now txnow a db b else b) = (if \<not> own (cb_id b) then b
            else if \<not> shared (cb_id b) then b\<lparr>cb_lifecycleState := Bundle_deleting, cb_creatorAttemptId := None,
              cb_winningAttemptId := None, cb_deletingAt := Some now, cb_updatedAt := now\<rparr>
            else if going (cb_creatorAttemptId b) \<or> going (cb_winningAttemptId b) then
              b\<lparr>cb_creatorAttemptId := (if going (cb_creatorAttemptId b) then None else cb_creatorAttemptId b),
                cb_winningAttemptId := (if going (cb_winningAttemptId b) then None else cb_winningAttemptId b), cb_updatedAt := txnow\<rparr>
            else b)" for b
    by (simp add: released_bundle_def raw deleting_bundle_def detach_attempts_def)
  note db' = db' [unfolded raw freed cleanup_row_def retire_alias_def cancel_thumbnails_def update_where_def row]
  have "distinct (dr_objectKeys r)" "set (dr_objectKeys r) = {sess_rawObjectKey s | s. s \<in> set (upload_sessions db) \<and> sess_artifactId s = a}"
    "distinct (dr_stagingPrefixes r)"
    "set (dr_stagingPrefixes r) = {att_stagingPrefix t | t. t \<in> set (processing_attempts db) \<and> job (att_jobId t)}"
    by (auto simp: r deletion_record_def raw)
  moreover have "distinct (map bc_bundleId cs)" "bc_bundleId ` set cs = {x. freed x \<and> x \<notin> bc_bundleId ` set (bundle_cleanups db)}"
    using cs unfolding raw freed fresh_cleanups_def exists_where_iff by auto
  moreover have "\<exists>b \<in> set (content_bundles db). c = bundle_cleanup txnow b db" if "c \<in> set cs" for c
    using cs that unfolding fresh_cleanups_def by blast
  moreover have "\<forall>c \<in> set cs. \<exists>b \<in> set (content_bundles db). cb_id b = bc_bundleId c \<and> bc_ownerUserId c = cb_ownerUserId b
            \<and> bc_state c = Cleanup_pending \<and> bc_nextAttemptAt c = txnow \<and> bc_leaseOwner c = None \<and> bc_completedAt c = None
            \<and> set (bc_objectPrefixes c) = {''content-bundles/'' @ cb_id b @ ''/''} \<union>
                {p. \<exists>t \<in> set (processing_attempts db). (cb_creatorAttemptId b = Some (att_id t) \<or> cb_winningAttemptId b = Some (att_id t))
                  \<and> att_objectPrefix t = Some p}
            \<and> txnow + 60000 \<le> bc_quiesceAfter c
            \<and> (\<forall>t \<in> set (processing_attempts db). \<forall>d. (cb_creatorAttemptId b = Some (att_id t) \<or> cb_winningAttemptId b = Some (att_id t))
                  \<and> att_writeDeadlineAt t = Some d \<longrightarrow> d + 60000 \<le> bc_quiesceAfter c)"
  proof
    fix c assume "c \<in> set cs"
    then obtain b where b: "b \<in> set (content_bundles db)" "c = bundle_cleanup txnow b db"
      using cs unfolding fresh_cleanups_def by blast
    show "\<exists>b \<in> set (content_bundles db). cb_id b = bc_bundleId c \<and> bc_ownerUserId c = cb_ownerUserId b
            \<and> bc_state c = Cleanup_pending \<and> bc_nextAttemptAt c = txnow \<and> bc_leaseOwner c = None \<and> bc_completedAt c = None
            \<and> set (bc_objectPrefixes c) = {''content-bundles/'' @ cb_id b @ ''/''} \<union>
                {p. \<exists>t \<in> set (processing_attempts db). (cb_creatorAttemptId b = Some (att_id t) \<or> cb_winningAttemptId b = Some (att_id t))
                  \<and> att_objectPrefix t = Some p}
            \<and> txnow + 60000 \<le> bc_quiesceAfter c
            \<and> (\<forall>t \<in> set (processing_attempts db). \<forall>d. (cb_creatorAttemptId b = Some (att_id t) \<or> cb_winningAttemptId b = Some (att_id t))
                  \<and> att_writeDeadlineAt t = Some d \<longrightarrow> d + 60000 \<le> bc_quiesceAfter c)"
      by (rule bexI [OF _ b(1)]; intro conjI ballI allI impI; (elim conjE)?; simp add: bundle_cleanup_facts [OF b(2)])
  qed
  ultimately show ?thesis using db' by (intro conjI exI [of _ cs])
qed

subsection \<open>Content in use is never handed over\<close>

text \<open>No version refers to a bundle that is being deleted.\<close>

definition content_live :: "'x content_db_scheme \<Rightarrow> bool" where
  "content_live db \<longleftrightarrow>
     (\<forall>v \<in> set (artifact_versions db). \<forall>b \<in> set (content_bundles db).
        ver_contentBundleId v = Some (cb_id b) \<longrightarrow> cb_lifecycleState b \<noteq> Bundle_deleting)"

inductive content_step :: "content_db \<Rightarrow> content_db \<Rightarrow> bool" where
  Step_delete: "deleteOwned now txnow owner a db = (db', res) \<Longrightarrow> content_step db db'"
| Step_complete: "content_step db (completeDeletion txnow owner a db)"
| Step_reconcile: "completeArtifactDeletionCleanup txnow a token db = (db', res) \<Longrightarrow> content_step db db'"
| Step_share: "sharing_step db db' \<Longrightarrow> content_step db db'"

inductive_cases content_step_elim [consumes 1, case_names delete complete reconcile share]: "content_step db db'"

text \<open>
  Bundles only start being deleted, and versions only lose their bundle or go: then what has to
  be checked is that no version still names a bundle that started being deleted.
\<close>

lemma content_liveI:
  assumes "content_live db"
    and "\<And>v. v \<in> set (artifact_versions db') \<Longrightarrow> ver_contentBundleId v \<noteq> None \<Longrightarrow> v \<in> set (artifact_versions db)"
    and "\<And>c. c \<in> set (content_bundles db') \<Longrightarrow> cb_lifecycleState c = Bundle_deleting \<Longrightarrow>
      (\<exists>b \<in> set (content_bundles db). cb_id b = cb_id c \<and> cb_lifecycleState b = Bundle_deleting)
      \<or> (\<forall>v \<in> set (artifact_versions db'). ver_contentBundleId v \<noteq> Some (cb_id c))"
  shows "content_live db'"
  using assms unfolding content_live_def by (metis option.distinct(1))

lemma in_update_cases:
  assumes "r \<in> set (update_where p f t)"
  obtains "r \<in> set t" "\<not> p r" | q where "q \<in> set t" "p q" "r = f q"
  using assms by (auto simp: in_update_where split: if_splits)

lemma remove_rows_versions:
  assumes "remove_rows a listed db = Inr db'"
  shows "content_bundles db' = content_bundles db"
    and "v \<in> set (artifact_versions db') \<Longrightarrow> ver_contentBundleId v \<noteq> None \<Longrightarrow>
      v \<in> set (artifact_versions db) \<and> ver_artifactId v \<noteq> a"
proof -
  have eq: "content_bundles db' = content_bundles db \<and>
      artifact_versions db' = update_where (\<lambda>v. ver_artifactId v = a) anonymous_version (artifact_versions db)" if listed
    using assms that by (auto simp: remove_rows_def bindR_eq_Inr update_versions_Inr remove_sharing_def)
  note gone = remove_rows_unlisted [of a db db']
  show "content_bundles db' = content_bundles db" using assms eq gone by (cases listed) simp_all
  show "v \<in> set (artifact_versions db) \<and> ver_artifactId v \<noteq> a"
    if "v \<in> set (artifact_versions db')" "ver_contentBundleId v \<noteq> None"
    using that assms eq gone by (cases listed) (auto elim!: in_update_cases simp: anonymous_version_def)
qed

lemma delete_owned_live:
  assumes "deleteOwned now txnow owner a db = (db', res)" "content_live db"
  shows "content_live db'"
proof (cases "db' = db")
  case False
  from assms(1) False obtain x where x: "res = Inr x" "delete_owned_body now txnow owner a db = Inr (db', x)"
    by (auto simp: deleteOwned_def run_tx_def split: sum.splits)
  then have own: "owns owner a db" and idle: "\<not> active_upload a db"
    using False by (auto simp: delete_owned_body_def owns_def split: if_splits option.splits)
  have "\<exists>r. x = Deletion_cleanup r"
  proof (rule ccontr)
    assume no: "\<nexists>r. x = Deletion_cleanup r"
    show False
      using x(2) own idle no by (auto simp: delete_owned_body_def owns_def Let_def split: if_splits elim!: bindR_InrE Inr_pairE)
  qed
  then obtain r where "x = Deletion_cleanup r" by blast
  with assms(1) x(1) have del: "deleteOwned now txnow owner a db = (db', Inr (Deletion_cleanup r))" by simp
  from delete_owned_steps [OF del own] obtain g where
    held: "active_hold txnow a db \<Longrightarrow>
       db' = db\<lparr>gallery := g, deletion_cleanups := deletion_cleanups db @ [cleanup_row txnow a owner r]\<rparr>"
    and free: "\<not> active_hold txnow a db \<Longrightarrow> \<exists>db2. release_bundles now txnow a
        (filter (\<lambda>b. bundle_of_artifact a db (cb_id b)) (content_bundles db))
        (db\<lparr>gallery := g, deletion_cleanups := deletion_cleanups db @ [cleanup_row txnow a owner r]\<rparr>) = Inr db2
      \<and> remove_rows a (listed_artifact a db) db2 = Inr db'" by metis
  show ?thesis
  proof (cases "active_hold txnow a db")
    case True
    then show ?thesis using held assms(2) by (simp add: content_live_def)
  next
    case False
    define db1 where "db1 = db\<lparr>gallery := g, deletion_cleanups := deletion_cleanups db @ [cleanup_row txnow a owner r]\<rparr>"
    have same: "artifact_versions db1 = artifact_versions db" "content_bundles db1 = content_bundles db" by (simp_all add: db1_def)
    from free [OF False] obtain db2 where 2: "release_bundles now txnow a
        (filter (\<lambda>b. bundle_of_artifact a db (cb_id b)) (content_bundles db)) db1 = Inr db2"
      and 3: "remove_rows a (listed_artifact a db) db2 = Inr db'" by (auto simp: db1_def)
    note 2 = released_state [OF 2] and 3 = remove_rows_versions [OF 3]
    show ?thesis
    proof (rule content_liveI [OF assms(2)])
      fix c assume c: "c \<in> set (content_bundles db')" "cb_lifecycleState c = Bundle_deleting"
      then obtain b where b: "b \<in> set (content_bundles db)" "c = b \<or> c = released_bundle now txnow a db1 b"
        using 2(11) 3(1) same by (auto simp: in_update_where split: if_splits)
      show "(\<exists>b \<in> set (content_bundles db). cb_id b = cb_id c \<and> cb_lifecycleState b = Bundle_deleting)
        \<or> (\<forall>v \<in> set (artifact_versions db'). ver_contentBundleId v \<noteq> Some (cb_id c))"
      proof (cases "cb_lifecycleState b = Bundle_deleting")
        case False
        with b c have "\<not> used_elsewhere a db1 (cb_id b)" "cb_id c = cb_id b" by (auto split: if_splits)
        then have "ver_contentBundleId v \<noteq> Some (cb_id c)" if "v \<in> set (artifact_versions db')" for v
          using 3(2) [OF that] 2(1) same by (auto simp: used_elsewhere_def exists_where_iff)
        then show ?thesis by blast
      qed (use b in auto)
    qed (use 3(2) 2(1) same in auto)
  qed
qed (use assms in simp)

lemma reconcile_live:
  assumes "completeArtifactDeletionCleanup txnow a token db = (db', res)" "content_live db"
  shows "content_live db'"
proof (cases "artifact_versions db' = artifact_versions db \<and> content_bundles db' = content_bundles db")
  case True
  then show ?thesis using assms(2) by (simp add: content_live_def)
next
  case False
  let ?freed = "\<lambda>b. bundle_of_artifact a db (cb_id b) \<and> \<not> used_elsewhere a db (cb_id b)"
  have eq: "artifact_versions db' = update_where (\<lambda>v. ver_artifactId v = a) (\<lambda>v. v\<lparr>ver_contentBundleId := None\<rparr>) (artifact_versions db)"
    "content_bundles db' = update_where ?freed (deleting_bundle txnow) (content_bundles db)"
    using assms(1) False
    by (auto simp: completeArtifactDeletionCleanup_def run_tx_def Let_def bindR_eq_Inr update_bundles_Inr update_versions_Inr
        retain_tombstone_def remove_sharing_def split: sum.splits if_splits)
  have kept: "v \<in> set (artifact_versions db) \<and> ver_artifactId v \<noteq> a"
    if "v \<in> set (artifact_versions db')" "ver_contentBundleId v \<noteq> None" for v
    using that unfolding eq by (auto elim!: in_update_cases)
  show ?thesis
  proof (rule content_liveI [OF assms(2)])
    fix c assume "c \<in> set (content_bundles db')" "cb_lifecycleState c = Bundle_deleting"
    then obtain b where b: "b \<in> set (content_bundles db)" "cb_id b = cb_id c" "cb_lifecycleState b = Bundle_deleting \<or> ?freed b"
      unfolding eq by (auto simp: in_update_where split: if_splits)
    then show "(\<exists>b \<in> set (content_bundles db). cb_id b = cb_id c \<and> cb_lifecycleState b = Bundle_deleting)
        \<or> (\<forall>v \<in> set (artifact_versions db'). ver_contentBundleId v \<noteq> Some (cb_id c))"
      using kept by (fastforce simp: used_elsewhere_def exists_where_iff)
  qed (use kept in blast)
qed

lemma sharing_step_content:
  assumes "sharing_step db db'"
  shows "artifact_versions db' = artifact_versions db \<and> content_bundles db' = content_bundles db"
  using assms
proof (cases rule: sharing_step_elim)
  case (publish seal unseal nonce c now txnow rnd i res)
  show ?thesis
  proof (cases "db' = db")
    case False
    from publish_changes [OF publish False] obtain pub link where
      new: "publish seal unseal nonce c now txnow rnd i db = (db', Inr (Published pub link))"
        "row_where (\<lambda>r. scope_of r = publish_scope i) (idempotency_records db) = None" .
    show ?thesis by (rule publish_write_Inr [OF publish_fresh(1) [OF new]]) simp
  qed simp
qed (auto simp: unpublish_def updateExpiration_def run_tx_def bindR_eq_Inr write_publications_Inr Let_def split: if_splits sum.splits)

text \<open>
  C7: content in use is never handed over for deletion. Over any run of deletions, completions
  of deletions, publications, ends and changes of expiration, no version of any artifact comes
  to name a bundle that is being deleted.
\<close>

theorem deletions_keep_content_live:
  assumes "content_step\<^sup>*\<^sup>* db db'" "content_live db"
  shows "content_live db'"
  using assms
proof (induction rule: rtranclp_induct)
  case (step db1 db2)
  from step.hyps(2) have "content_live db1 \<Longrightarrow> content_live db2"
  proof (cases rule: content_step_elim)
    case (complete txnow owner a)
    then show "content_live db1 \<Longrightarrow> content_live db2"
      by (auto simp: completeDeletion_def Let_def retain_tombstone_def content_live_def)
  next
    case share
    then show "content_live db1 \<Longrightarrow> content_live db2" using sharing_step_content by (simp add: content_live_def)
  qed (auto intro: delete_owned_live reconcile_live)
  then show ?case using step by blast
qed simp

subsection \<open>Deletions that cannot succeed\<close>

lemma deleteOwned_cases:
  assumes "owns owner a db" "\<not> active_upload a db"
  obtains e where "deleteOwned now txnow owner a db = (db, Inl e)"
  | db' r where "deleteOwned now txnow owner a db = (db', Inr (Deletion_cleanup r))"
proof (cases "delete_owned_body now txnow owner a db")
  case (Inl e)
  then show thesis by (intro that(1)) (simp add: deleteOwned_def)
next
  case (Inr x)
  obtain db' y where x: "x = (db', y)" by (cases x)
  have "\<exists>r. y = Deletion_cleanup r"
  proof (rule ccontr)
    assume no: "\<nexists>r. y = Deletion_cleanup r"
    show False
      using Inr x assms no by (auto simp: delete_owned_body_def owns_def Let_def split: if_splits elim!: bindR_InrE Inr_pairE)
  qed
  then obtain r where "y = Deletion_cleanup r" by blast
  with Inr x show thesis by (intro that(2) [of db' r]) (simp add: deleteOwned_def)
qed

text \<open>
  A copied artifact cannot be deleted. The provenance of a server-side copy references its
  artifact with \<open>on delete restrict\<close> and is immutable, so deleting a copy that is not listed
  always fails and changes nothing.
\<close>

theorem copied_artifact_cannot_be_deleted:
  assumes "owns owner a db" "exists_where (\<lambda>p. prov_artifactId p = a) (provenances db)"
    and "\<not> listed_artifact a db" "\<not> active_hold txnow a db" "\<not> active_upload a db"
  shows "\<exists>e. deleteOwned now txnow owner a db = (db, Inl e)"
proof (rule deleteOwned_cases [OF assms(1,5)])
  fix db' r
  assume del: "deleteOwned now txnow owner a db = (db', Inr (Deletion_cleanup r))"
  let ?bs = "filter (\<lambda>b. bundle_of_artifact a db (cb_id b)) (content_bundles db)"
  obtain g where "\<exists>db2. release_bundles now txnow a ?bs
      (db\<lparr>gallery := g, deletion_cleanups := deletion_cleanups db @ [cleanup_row txnow a owner r]\<rparr>) = Inr db2
    \<and> remove_rows a (listed_artifact a db) db2 = Inr db'"
    using delete_owned_steps [OF del assms(1)] assms(4) by metis
  then obtain db2 where 2: "release_bundles now txnow a ?bs
      (db\<lparr>gallery := g, deletion_cleanups := deletion_cleanups db @ [cleanup_row txnow a owner r]\<rparr>) = Inr db2"
    and 3: "remove_rows a False db2 = Inr db'" using assms(3) by auto
  have "provenances db2 = provenances db" using released_state(10) [OF 2] by simp
  with assms(2) 3 have False
    by (auto simp: remove_rows_def bindR_eq_Inr delete_artifact_def artifact_restricted_def dest!: delete_versions_Inr)
  then show ?thesis ..
qed blast

lemma remove_rows_listed:
  assumes "remove_rows a True db = Inr db'"
  shows "stored_artifacts db' = stored_artifacts db" "upload_sessions db' = upload_sessions db"
    "deletion_cleanups db' = deletion_cleanups db"
  using assms by (auto simp: remove_rows_def bindR_eq_Inr update_versions_Inr remove_sharing_def)

text \<open>What stays of an artifact that is listed or held.\<close>

lemma retained_artifact:
  assumes "deleteOwned now txnow owner a db = (db', Inr (Deletion_cleanup r))" "owns owner a db"
    and "listed_artifact a db \<or> active_hold txnow a db"
  shows "owns owner a db'" "\<not> active_upload a db'" "awaits_cleanup a db'"
proof -
  from delete_owned_steps [OF assms(1,2)] obtain g where idle: "\<not> active_upload a db"
    and held: "active_hold txnow a db \<Longrightarrow>
       db' = db\<lparr>gallery := g, deletion_cleanups := deletion_cleanups db @ [cleanup_row txnow a owner r]\<rparr>"
    and free: "\<not> active_hold txnow a db \<Longrightarrow> \<exists>db2. release_bundles now txnow a
        (filter (\<lambda>b. bundle_of_artifact a db (cb_id b)) (content_bundles db))
        (db\<lparr>gallery := g, deletion_cleanups := deletion_cleanups db @ [cleanup_row txnow a owner r]\<rparr>) = Inr db2
      \<and> remove_rows a (listed_artifact a db) db2 = Inr db'" by metis
  have "stored_artifacts db' = stored_artifacts db \<and> upload_sessions db' = upload_sessions db
    \<and> deletion_cleanups db' = deletion_cleanups db @ [cleanup_row txnow a owner r]"
  proof (cases "active_hold txnow a db")
    case True
    then show ?thesis using held by simp
  next
    case False
    with free assms(3) obtain db2 where "release_bundles now txnow a
        (filter (\<lambda>b. bundle_of_artifact a db (cb_id b)) (content_bundles db))
        (db\<lparr>gallery := g, deletion_cleanups := deletion_cleanups db @ [cleanup_row txnow a owner r]\<rparr>) = Inr db2"
      "remove_rows a True db2 = Inr db'" by auto
    from released_state [OF this(1)] remove_rows_listed [OF this(2)] show ?thesis by simp
  qed
  with assms(2) idle show "owns owner a db'" "\<not> active_upload a db'" "awaits_cleanup a db'"
    by (simp_all add: owns_def active_upload_def awaits_cleanup_def exists_where_iff cleanup_row_def)
qed

text \<open>
  A deletion that left rows behind cannot be repeated. After a first deletion of an artifact
  that is listed, or that a hold keeps, the artifact is still there; every further deletion of
  it fails on the cleanup it already has, or on its tombstones, and changes nothing.
\<close>

theorem repeated_deletion_raises:
  assumes "deleteOwned now txnow owner a db = (db', Inr (Deletion_cleanup r))" "owns owner a db"
    and "listed_artifact a db \<or> active_hold txnow a db"
  shows "\<exists>e. deleteOwned now' txnow' owner a db' = (db', Inl e)"
proof (rule deleteOwned_cases [OF retained_artifact(1,2) [OF assms]])
  fix db2 r2
  assume again: "deleteOwned now' txnow' owner a db' = (db2, Inr (Deletion_cleanup r2))"
  from delete_owned_steps [OF again retained_artifact(1) [OF assms]] have "\<not> awaits_cleanup a db'" by metis
  with retained_artifact(3) [OF assms] show ?thesis by simp
qed blast

text \<open>
  C39: a held artifact stays public after its deletion. When a hold of the Gallery keeps the content,
  the deletion returns before the publications and links are removed, and the viewer does not
  ask for pending deletions: it answers every request for every link as before.
\<close>

theorem held_deletion_stays_public:
  assumes "deleteOwned now txnow owner a db = (db', Inr (Deletion_cleanup r))" "owns owner a db"
    and "active_hold txnow a db"
  shows "resolveViewer t slug raw db' = resolveViewer t slug raw db"
proof -
  from delete_owned_steps [OF assms(1,2)] assms(3) obtain g where g: "close_artifact_listings txnow a (gallery db) = Inr g"
    and db': "db' = db\<lparr>gallery := g, deletion_cleanups := deletion_cleanups db @ [cleanup_row txnow a owner r]\<rparr>" by metis
  have blocked: "artifact_blocked (gallery db') x = artifact_blocked (gallery db) x" for x
    using close_artifact_listings_keeps_ids(5,6) [OF g] by (simp add: artifact_blocked_def db')
  have tables: "share_links db' = share_links db" "findLatest x db' = findLatest x db" "artifact_versions db' = artifact_versions db"
      "bundle_assets db' = bundle_assets db" "bundle_manifests db' = bundle_manifests db" for x
    by (simp_all add: db' findLatest_def)
  have "resolveShareSlug t slug db' = resolveShareSlug t slug db"
    unfolding resolveShareSlug_def blocked tables by (rule refl)
  moreover have "find_content v raw db' = find_content v raw db" for v
    unfolding find_content_def findAsset_def findEntryAsset_def version_assets_def tables by (rule refl)
  ultimately show ?thesis by (simp add: resolveViewer_def split: ShareResolution.splits)
qed

text \<open>
  The reconciliation never completes such a deletion. For a listed artifact it clears the
  bundle of every version but not its owner and renderer revision, which the check of the
  version row forbids; so as long as a version has its owner the completion fails and the
  artifact keeps its publications and links.
\<close>

theorem held_deletion_never_completes:
  assumes "listed_artifact a db" "exists_where (\<lambda>c. del_artifactId c = a \<and> del_leaseOwner c = Some token) (deletion_cleanups db)"
    and "exists_where (\<lambda>v. ver_artifactId v = a \<and> ver_ownerUserId v \<noteq> None) (artifact_versions db)"
  shows "\<exists>e. completeArtifactDeletionCleanup txnow a token db = (db, Inl e)"
proof -
  from assms(3) obtain v where v: "v \<in> set (artifact_versions db)" "ver_artifactId v = a" "ver_ownerUserId v \<noteq> None"
    by (auto simp: exists_where_iff)
  then have "\<not> artifact_version_row_ok (v\<lparr>ver_contentBundleId := None\<rparr>)" by (simp add: artifact_version_row_ok_def)
  moreover have "v\<lparr>ver_contentBundleId := None\<rparr> \<in>
      set (update_where (\<lambda>v. ver_artifactId v = a) (\<lambda>v. v\<lparr>ver_contentBundleId := None\<rparr>) (artifact_versions db))"
    using v unfolding in_update_where by (intro bexI [of _ v]) simp_all
  ultimately have no: "\<not> list_all artifact_version_row_ok
      (update_where (\<lambda>v. ver_artifactId v = a) (\<lambda>v. v\<lparr>ver_contentBundleId := None\<rparr>) (artifact_versions db))"
    unfolding list_all_iff by blast
  have stuck: "\<exists>e. bindR (update_bundles p f d)
      (\<lambda>d. bindR (update_versions (\<lambda>v. ver_artifactId v = a) (\<lambda>v. v\<lparr>ver_contentBundleId := None\<rparr>) d) h) = Inl e"
    if "artifact_versions d = artifact_versions db" for p f h and d :: content_db
  proof (cases "update_bundles p f d")
    case (Inr d1)
    then have "artifact_versions d1 = artifact_versions db" using that by (simp add: update_bundles_Inr)
    with no Inr show ?thesis by (simp add: update_versions_def Let_def)
  qed simp
  let ?own = "bundle_of_artifact a db"
  let ?freed = "\<lambda>b. ?own (cb_id b) \<and> \<not> used_elsewhere a db (cb_id b)"
  from stuck [of "db\<lparr>bundle_cleanups := fold (\<lambda>b. insert_bundle_cleanup (bundle_cleanup txnow b db))
               (filter ?freed (content_bundles db)) (bundle_cleanups db),
             bundle_aliases := retire_alias txnow ?own (bundle_aliases db),
             raw_aliases := retire_alias txnow ?own (raw_aliases db),
             thumbnail_jobs := cancel_thumbnails txnow ?own (thumbnail_jobs db)\<rparr>" ?freed "deleting_bundle txnow"
      "\<lambda>d. Inr (retain_tombstone (\<lambda>c. del_artifactId c = a \<and> del_leaseOwner c = Some token) (remove_sharing a d), ())"]
  show ?thesis
    using assms(1,2) unfolding completeArtifactDeletionCleanup_def Let_def by (auto simp: run_tx_def)
qed

subsection \<open>Witnesses\<close>

definition example_bundle :: content_bundle_row where
  "example_bundle = \<lparr>cb_id = ''bundle_1'', cb_ownerUserId = ''u1'', cb_contentIdentityRevision = ''1'', cb_lifecycleState = Bundle_ready,
     cb_integrityState = Bundle_healthy, cb_creatorAttemptId = None, cb_creatorLeaseExpiresAt = None, cb_winningAttemptId = None,
     cb_readyAt = Some 0, cb_deletingAt = None, cb_createdAt = 0, cb_updatedAt = 0\<rparr>"

text \<open>The shared artifact with its bundle, and with a hold on it if a case is given.\<close>

definition deletable_db :: "case_row list \<Rightarrow> content_db" where
  "deletable_db cs = (shared_db [])\<lparr>content_bundles := [example_bundle], gallery := empty_gallery\<lparr>cases := cs\<rparr>,
     evidence_holds := [\<lparr>hold_caseId = ''case_1'', hold_releasedAt = None\<rparr>]\<rparr>"

definition example_case :: case_row where
  "example_case = \<lparr>gcase_id = ''case_1'', gcase_kind = Case_report, gcase_listing_id = None, gcase_artifact_id = Some ''artifact_1'',
     gcase_proposal_id = None, gcase_report_id = Some ''report_1'', gcase_parent_case_id = None, gcase_state = Case_open,
     gcase_evidence_digest = ''digest_1'', gcase_opened_at = 0, gcase_closed_at = None\<rparr>"

lemma deletable_db_facts:
  "owns ''u1'' ''artifact_1'' (deletable_db cs)" "\<not> listed_artifact ''artifact_1'' (deletable_db cs)"
  "\<not> active_hold 8 ''artifact_1'' (deletable_db [])" "active_hold 8 ''artifact_1'' (deletable_db [example_case])"
  "\<not> active_upload ''artifact_1'' (deletable_db cs)" "content_live (deletable_db cs)"
  by (simp_all add: owns_def listed_artifact_def active_hold_def active_upload_def content_live_def deletable_db_def shared_db_def
      exists_where_def empty_content_db_def empty_artifact_db_def empty_gallery_def artifact_db.defs example_bundle_def example_case_def)

lemma example_close: "close_artifact_listings t a (empty_gallery\<lparr>cases := cs\<rparr>) = Inr (empty_gallery\<lparr>cases := cs\<rparr>)"
  by (simp add: close_artifact_listings_def Let_def update_listings_def update_proposals_def check_listings_def check_proposals_def
      empty_gallery_def listings_unique_def proposals_unique_def unique_on_def)

lemma example_unchanged_body:
  "delete_owned_body 9 8 ''u1'' ''artifact_1'' (deletable_db cs) =
     bindR (insert_deletion_cleanup 8 ''artifact_1'' ''u1'' (deletion_record ''artifact_1'' (deletable_db cs)) (deletable_db cs)) (\<lambda>db.
       if active_hold 8 ''artifact_1'' (deletable_db cs)
       then Inr (db, Deletion_cleanup (deletion_record ''artifact_1'' (deletable_db cs)))
       else bindR (release_bundles 9 8 ''artifact_1'' [example_bundle] db) (\<lambda>db.
         bindR (remove_rows ''artifact_1'' False db) (\<lambda>db.
         Inr (db, Deletion_cleanup (deletion_record ''artifact_1'' (deletable_db cs))))))"
proof -
  have gallery: "gallery (deletable_db cs) = empty_gallery\<lparr>cases := cs\<rparr>"
    "(deletable_db cs)\<lparr>gallery := empty_gallery\<lparr>cases := cs\<rparr>\<rparr> = deletable_db cs" by (simp_all add: deletable_db_def)
  have "filter (\<lambda>b. bundle_of_artifact ''artifact_1'' (deletable_db cs) (cb_id b)) (content_bundles (deletable_db cs)) = [example_bundle]"
    by (simp add: bundle_of_artifact_def deletable_db_def shared_db_def exists_where_def example_bundle_def)
  then show ?thesis
    using deletable_db_facts(1,2,5) [of cs]
    by (simp add: delete_owned_body_def owns_def Let_def gallery example_close cong: if_cong)
qed

lemma example_no_cleanup: "\<not> awaits_cleanup a (deletable_db cs)"
  by (simp add: awaits_cleanup_def exists_where_def deletable_db_def shared_db_def empty_content_db_def empty_artifact_db_def artifact_db.defs)

lemma example_held:
  "\<exists>db' r. deleteOwned 9 8 ''u1'' ''artifact_1'' (deletable_db [example_case]) = (db', Inr (Deletion_cleanup r))"
  using deletable_db_facts(4) by (simp add: deleteOwned_def run_tx_def example_unchanged_body insert_deletion_cleanup_def example_no_cleanup)

lemma example_rows_removed:
  "\<exists>db. bindR (release_bundles 9 8 ''artifact_1'' [example_bundle] ((deletable_db [])\<lparr>deletion_cleanups := cl\<rparr>))
     (remove_rows ''artifact_1'' False) = Inr db"
  by (simp add: exists_where_def release_bundle_def used_elsewhere_def Let_def update_bundles_def check_bundles_def example_bundle_def deleting_bundle_def
      content_bundle_row_ok_def bundles_unique_def unique_on_def remove_rows_def delete_versions_def version_restricted_def
      delete_artifact_def artifact_restricted_def listed_artifact_def
      deletable_db_def shared_db_def empty_content_db_def empty_artifact_db_def empty_gallery_def artifact_db.defs)

lemma example_removed:
  "\<exists>db' r. deleteOwned 9 8 ''u1'' ''artifact_1'' (deletable_db []) = (db', Inr (Deletion_cleanup r))"
proof -
  obtain db2 db3 where "release_bundles 9 8 ''artifact_1'' [example_bundle] ((deletable_db [])
      \<lparr>deletion_cleanups := deletion_cleanups (deletable_db []) @ [cleanup_row 8 ''artifact_1'' ''u1'' (deletion_record ''artifact_1'' (deletable_db []))]\<rparr>)
    = Inr db2" "remove_rows ''artifact_1'' False db2 = Inr db3"
    using example_rows_removed unfolding bindR_eq_Inr by blast
  moreover have "insert_deletion_cleanup 8 ''artifact_1'' ''u1'' (deletion_record ''artifact_1'' (deletable_db [])) (deletable_db [])
    = Inr ((deletable_db [])\<lparr>deletion_cleanups := deletion_cleanups (deletable_db []) @
        [cleanup_row 8 ''artifact_1'' ''u1'' (deletion_record ''artifact_1'' (deletable_db []))]\<rparr>)"
    using example_no_cleanup by (simp add: insert_deletion_cleanup_Inr)
  ultimately show ?thesis using deletable_db_facts(3) by (simp add: deleteOwned_def run_tx_def example_unchanged_body)
qed

lemma deletion_removes_exactly_the_artifact_witness:
  "\<exists>db' r. deleteOwned 9 8 ''u1'' ''artifact_1'' (deletable_db []) = (db', Inr (Deletion_cleanup r))
    \<and> stored_artifacts db' = [] \<and> map cb_lifecycleState (content_bundles db') = [Bundle_deleting]"
proof -
  let ?db = "deletable_db []"
  obtain db' r where d: "deleteOwned 9 8 ''u1'' ''artifact_1'' ?db = (db', Inr (Deletion_cleanup r))"
    using example_removed by blast
  have rows: "content_bundles ?db = [example_bundle]" "filter (\<lambda>x. art_id x \<noteq> ''artifact_1'') (stored_artifacts ?db) = []"
    "\<exists>v \<in> set (artifact_versions ?db). ver_artifactId v = ''artifact_1'' \<and> ver_contentBundleId v = Some (cb_id example_bundle)"
    "\<not> (\<exists>v \<in> set (artifact_versions ?db). ver_artifactId v \<noteq> ''artifact_1'' \<and> ver_contentBundleId v = Some (cb_id example_bundle))"
    by (simp_all add: deletable_db_def shared_db_def example_bundle_def)
  from rows(3) have "\<not> (\<forall>v \<in> set (artifact_versions ?db). ver_artifactId v = ''artifact_1'' \<longrightarrow>
      ver_contentBundleId v \<noteq> Some (cb_id example_bundle))" by blast
  note rows = rows this
  note gone = deletion_removes_exactly_the_artifact [OF d deletable_db_facts(1,2,3)]
  have "stored_artifacts db' = []"
    using gone by (elim conjE exE) (simp (no_asm_simp) add: rows(2))
  moreover have "map cb_lifecycleState (content_bundles db') = [Bundle_deleting]"
    using gone by (elim conjE exE) (simp (no_asm_simp) add: rows(1,4,5))
  ultimately show ?thesis using d by (intro exI [of _ db'] exI [of _ r] conjI)
qed

lemma deletions_keep_content_live_witness:
  "content_live (fst (deleteOwned 9 8 ''u1'' ''artifact_1'' (deletable_db [])))"
proof -
  have "content_step (deletable_db []) (fst (deleteOwned 9 8 ''u1'' ''artifact_1'' (deletable_db [])))"
    by (rule Step_delete [OF prod.collapse [symmetric]])
  then have "content_step\<^sup>*\<^sup>* (deletable_db []) (fst (deleteOwned 9 8 ''u1'' ''artifact_1'' (deletable_db [])))" ..
  then show ?thesis by (rule deletions_keep_content_live) (rule deletable_db_facts)
qed

definition copied_artifact_db :: content_db where
  "copied_artifact_db = (deletable_db [])
     \<lparr>provenances := [\<lparr>prov_artifactId = ''artifact_1'', prov_immediateVersionId = ''v'', prov_rootVersionId = ''v''\<rparr>]\<rparr>"

lemma copied_artifact_cannot_be_deleted_witness:
  "\<exists>e. deleteOwned 9 8 ''u1'' ''artifact_1'' copied_artifact_db = (copied_artifact_db, Inl e)"
  by (rule copied_artifact_cannot_be_deleted)
    (simp_all add: owns_def listed_artifact_def active_hold_def active_upload_def copied_artifact_db_def deletable_db_def shared_db_def
      exists_where_def empty_content_db_def empty_artifact_db_def empty_gallery_def artifact_db.defs)

lemma repeated_deletion_raises_witness:
  "\<exists>db' e. snd (deleteOwned 9 8 ''u1'' ''artifact_1'' (deletable_db [example_case])) \<noteq> Inl e
    \<and> db' = fst (deleteOwned 9 8 ''u1'' ''artifact_1'' (deletable_db [example_case]))
    \<and> deleteOwned 11 10 ''u1'' ''artifact_1'' db' = (db', Inl e)"
proof -
  obtain db' r where d: "deleteOwned 9 8 ''u1'' ''artifact_1'' (deletable_db [example_case]) = (db', Inr (Deletion_cleanup r))"
    using example_held by blast
  from repeated_deletion_raises [OF d] deletable_db_facts(1,4) obtain e where "deleteOwned 11 10 ''u1'' ''artifact_1'' db' = (db', Inl e)"
    by blast
  with d show ?thesis by auto
qed

lemma held_deletion_stays_public_witness:
  "\<exists>db' r. deleteOwned 9 8 ''u1'' ''artifact_1'' (deletable_db [example_case]) = (db', Inr (Deletion_cleanup r))
    \<and> resolveViewer 12 ''s'' [] db' = resolveViewer 12 ''s'' [] (deletable_db [example_case])"
  using held_deletion_stays_public [OF _ deletable_db_facts(1,4)] example_held by blast

definition reconciled_db :: content_db where
  "reconciled_db = (deletable_db [])
     \<lparr>gallery := empty_gallery\<lparr>listings := [\<lparr>gl_id = ''l'', gl_artifact_id = ''artifact_1'', gl_owner_user_id = ''u1'', gl_creator_profile_id = ''p'',
        gl_opaque_slug = ''o'', gl_lifecycle_state = Withdrawn, gl_review_state = Clear, gl_closure_reason = Some Artifact_deleted,
        gl_listing_revision = 2, gl_current_revision_id = None, gl_predecessor_listing_id = None, gl_restoration_forfeited_at = None,
        gl_created_at = 0, gl_updated_at = 0, gl_closed_at = Some 0\<rparr>]\<rparr>,
      deletion_cleanups := [(cleanup_row 0 ''artifact_1'' ''u1'' \<lparr>dr_objectKeys = [], dr_stagingPrefixes = []\<rparr>)
        \<lparr>del_leaseOwner := Some ''t'', del_leaseExpiresAt := Some 9\<rparr>]\<rparr>"

lemma held_deletion_never_completes_witness:
  "\<exists>e. completeArtifactDeletionCleanup 8 ''artifact_1'' ''t'' reconciled_db = (reconciled_db, Inl e)"
  by (rule held_deletion_never_completes)
    (simp_all add: listed_artifact_def reconciled_db_def cleanup_row_def deletable_db_def shared_db_def exists_where_def)

end
