(* ===== verification/Reconciliation_Store.thy ===== *)
theory Reconciliation_Store
  imports Artifact_Deletion "HOL-Library.Option_ord"
begin

text \<open>
  The repository of the reconciliation, \<open>api/src/db/reconciliation-repository.ts\<close>: expired
  leases of processing jobs, the objects nobody references, and the durable cleanups of
  deleted artifacts, content bundles, abandoned attempts and thumbnails. A cleanup is claimed
  under a lease of a minute, and completed or failed by the holder of the lease.
  \<open>completeArtifactDeletionCleanup\<close> is in \<open>Artifact_Deletion\<close>.

  \<open>txnow\<close> is \<open>now()\<close> of the statement, \<open>now\<close> the time a caller passes, \<open>collate\<close> the collation
  of the database. The rows an update returns come in the order of its candidates, which SQL
  leaves open. Limits are natural numbers where the caller has checked them. Locks are not
  modelled: \<open>skip locked\<close> skips nothing.
\<close>

subsection \<open>Candidates and statements\<close>

definition candidates :: "('r \<Rightarrow> bool) \<Rightarrow> ('r \<Rightarrow> 'k :: linorder) \<Rightarrow> nat \<Rightarrow> 'r list \<Rightarrow> 'r list" where
  "candidates p k limit t = take limit (sort_key k (filter p t))"

definition among :: "('r \<Rightarrow> js_string) \<Rightarrow> 'r list \<Rightarrow> 'r \<Rightarrow> bool" where
  "among i cs r \<longleftrightarrow> exists_where (\<lambda>c. i c = i r) cs"

definition update_attempts ::
  "(attempt_row \<Rightarrow> bool) \<Rightarrow> (attempt_row \<Rightarrow> attempt_row) \<Rightarrow> content_db \<Rightarrow> tx_error + content_db" where
  "update_attempts p f db =
     (let t = update_where p f (processing_attempts db) in
      if \<not> list_all attempt_row_ok t then Inl (Check_violation ''artifact_processing_attempt_cleanup_check'')
      else if \<not> attempts_unique t then Inl (Unique_violation ''artifact_processing_attempt_job_number_unique'')
      else Inr (db\<lparr>processing_attempts := t\<rparr>))"

definition update_jobs ::
  "(processing_job_row \<Rightarrow> bool) \<Rightarrow> (processing_job_row \<Rightarrow> processing_job_row) \<Rightarrow> content_db \<Rightarrow> tx_error + content_db" where
  "update_jobs p f db =
     (let t = update_where p f (processing_jobs db) in
      if list_all processing_job_row_ok t then Inr (db\<lparr>processing_jobs := t\<rparr>)
      else Inl (Check_violation ''artifact_processing_job_lease_check''))"

definition update_deletion_cleanups ::
  "(deletion_cleanup_row \<Rightarrow> bool) \<Rightarrow> (deletion_cleanup_row \<Rightarrow> deletion_cleanup_row) \<Rightarrow> content_db
    \<Rightarrow> tx_error + content_db" where
  "update_deletion_cleanups p f db =
     (let t = update_where p f (deletion_cleanups db) in
      if list_all deletion_cleanup_row_ok t then Inr (db\<lparr>deletion_cleanups := t\<rparr>)
      else Inl (Check_violation ''artifact_deletion_cleanup_lease_check''))"

definition update_bundle_cleanups ::
  "(bundle_cleanup_row \<Rightarrow> bool) \<Rightarrow> (bundle_cleanup_row \<Rightarrow> bundle_cleanup_row) \<Rightarrow> content_db \<Rightarrow> tx_error + content_db" where
  "update_bundle_cleanups p f db =
     (let t = update_where p f (bundle_cleanups db) in
      if list_all bundle_cleanup_row_ok t then Inr (db\<lparr>bundle_cleanups := t\<rparr>)
      else Inl (Check_violation ''content_bundle_cleanup_lease_check''))"

definition update_thumbnail_attempts ::
  "(thumbnail_attempt_row \<Rightarrow> bool) \<Rightarrow> (thumbnail_attempt_row \<Rightarrow> thumbnail_attempt_row) \<Rightarrow> content_db
    \<Rightarrow> tx_error + content_db" where
  "update_thumbnail_attempts p f db =
     (let t = update_where p f (thumbnail_attempts db) in
      if \<not> list_all thumbnail_attempt_row_ok t then Inl (Check_violation ''content_bundle_thumbnail_attempt_cleanup_check'')
      else if \<not> thumbnail_attempts_unique t then Inl (Unique_violation ''content_bundle_thumbnail_attempt_job_number_unique'')
      else Inr (db\<lparr>thumbnail_attempts := t\<rparr>))"

definition statement :: "(content_db \<Rightarrow> tx_error + content_db) \<Rightarrow> content_db \<Rightarrow> content_db \<times> (tx_error + unit)" where
  "statement f = run_tx (\<lambda>db. bindR (f db) (\<lambda>db. Inr (db, ())))"

definition new_leaseToken :: "js_string \<Rightarrow> js_string \<Rightarrow> js_string" where
  "new_leaseToken cleanupLeaseOwner uuid = cleanupLeaseOwner @ ''-'' @ uuid"

subsection \<open>Expired leases\<close>

definition lease_expired :: "time \<Rightarrow> processing_job_row \<Rightarrow> bool" where
  "lease_expired expiredBefore j \<longleftrightarrow>
     job_state j = Running \<and> (case job_leaseExpiresAt j of None \<Rightarrow> False | Some t \<Rightarrow> t \<le> expiredBefore)"

definition expired_jobs :: "(js_string \<Rightarrow> 'k :: linorder) \<Rightarrow> time \<Rightarrow> nat \<Rightarrow> content_db \<Rightarrow> processing_job_row list" where
  "expired_jobs collate expiredBefore limit db =
     candidates (lease_expired expiredBefore) (\<lambda>j. (the (job_leaseExpiresAt j), collate (job_id j))) limit (processing_jobs db)"

definition running_attempt :: "processing_job_row \<Rightarrow> attempt_row \<Rightarrow> bool" where
  "running_attempt j a \<longleftrightarrow>
     att_jobId a = job_id j \<and> att_attemptNumber a = job_attemptCount j \<and> att_state a = Attempt_running"

definition expired_attempt :: "time \<Rightarrow> attempt_row \<Rightarrow> attempt_row" where
  "expired_attempt txnow a =
     a\<lparr>att_state := Attempt_failed, att_reasonCode := Some ''processing_lease_expired'', att_finishedAt := Some txnow\<rparr>"

definition requeued_job :: "time \<Rightarrow> processing_job_row \<Rightarrow> processing_job_row" where
  "requeued_job txnow j =
     j\<lparr>job_state := Queued, job_availableAt := txnow, job_leaseOwner := None, job_leaseExpiresAt := None,
       job_heartbeatAt := None, job_updatedAt := txnow\<rparr>"

definition exhausted_job :: "time \<Rightarrow> processing_job_row \<Rightarrow> processing_job_row" where
  "exhausted_job txnow j =
     j\<lparr>job_state := Failed, job_leaseOwner := None, job_leaseExpiresAt := None, job_heartbeatAt := None,
       job_updatedAt := txnow\<rparr>"

definition interrupted_session :: "time \<Rightarrow> upload_session_row \<Rightarrow> upload_session_row" where
  "interrupted_session txnow s =
     s\<lparr>sess_state := Session_failed, sess_failureReasonCode := Some ''processing_lease_expired'',
       sess_failureSummary := Some ''Processing was interrupted.'', sess_retryable := True, sess_updatedAt := txnow\<rparr>"

definition recover_lease :: "time \<Rightarrow> processing_job_row \<Rightarrow> content_db \<Rightarrow> tx_error + content_db" where
  "recover_lease txnow j db =
     bindR (update_attempts (running_attempt j) (expired_attempt txnow) db) (\<lambda>db'.
       if length (filter (running_attempt j) (processing_attempts db)) \<noteq> 1 then
         Inl (Thrown (''Running attempt '' @ decimal_int (job_attemptCount j) @ '' is missing for expired job '' @ job_id j @ ''.''))
       else if job_attemptCount j < job_maxAttempts j then
         update_jobs (\<lambda>r. job_id r = job_id j) (requeued_job txnow) db'
       else
         bindR (update_jobs (\<lambda>r. job_id r = job_id j) (exhausted_job txnow) db') (\<lambda>db.
         bindR (update_upload_sessions (\<lambda>s. sess_id s = job_uploadSessionId j) (interrupted_session txnow) db)
           (\<lambda>(n, db). Inr db)))"

fun recover_leases :: "time \<Rightarrow> processing_job_row list \<Rightarrow> content_db \<Rightarrow> tx_error + content_db" where
  "recover_leases txnow [] db = Inr db"
| "recover_leases txnow (j # js) db = bindR (recover_lease txnow j db) (recover_leases txnow js)"

definition recoverExpiredLeases ::
  "(js_string \<Rightarrow> 'k :: linorder) \<Rightarrow> time \<Rightarrow> time \<Rightarrow> nat \<Rightarrow> content_db \<Rightarrow> content_db \<times> (tx_error + nat)" where
  "recoverExpiredLeases collate txnow expiredBefore limit = run_tx (\<lambda>db.
     let expired = expired_jobs collate expiredBefore limit db in
     bindR (recover_leases txnow expired db) (\<lambda>db. Inr (db, length expired)))"

subsection \<open>Objects nobody references\<close>

definition input_consumed :: "upload_session_row \<Rightarrow> bool" where
  "input_consumed s \<longleftrightarrow> sess_supersededAt s \<noteq> None \<or> sess_state s = Session_committed"

definition findRemovableRawObjectKeys :: "js_string list \<Rightarrow> 'x artifact_db_scheme \<Rightarrow> js_string list" where
  "findRemovableRawObjectKeys keys db =
     filter (\<lambda>key. list_all input_consumed (filter (\<lambda>s. sess_rawObjectKey s = key) (upload_sessions db))) keys"

definition attemptIdFromStagingKey :: "js_string \<Rightarrow> js_string option" where
  "attemptIdFromStagingKey key =
     (let parts = take 4 (split_on (CHR ''/'') key) in
      if length parts = 4 \<and> parts ! 0 = ''staging'' \<and> parts ! 2 \<noteq> [] then Some (parts ! 2) else None)"

record staging_attempt =
  sa_id :: js_string
  sa_state :: attempt_state
  sa_stagingPrefix :: js_string
  sa_artifactId :: js_string

definition staging_attempts :: "js_string list \<Rightarrow> 'x content_db_scheme \<Rightarrow> staging_attempt list" where
  "staging_attempts ids db =
     [\<lparr>sa_id = att_id a, sa_state = att_state a, sa_stagingPrefix = att_stagingPrefix a, sa_artifactId = sess_artifactId s\<rparr>.
        a \<leftarrow> processing_attempts db, att_id a \<in> set ids,
        j \<leftarrow> processing_jobs db, job_id j = att_jobId a,
        s \<leftarrow> upload_sessions db, sess_id s = job_uploadSessionId j]"

definition findRemovableStagingObjectKeys :: "js_string list \<Rightarrow> 'x content_db_scheme \<Rightarrow> js_string list" where
  "findRemovableStagingObjectKeys keys db =
     (let attempts = staging_attempts (js_unique (List.map_filter attemptIdFromStagingKey keys)) db in
      filter (\<lambda>key.
        case row_where (\<lambda>c. attemptIdFromStagingKey key = Some (sa_id c) \<and> starts_with (sa_stagingPrefix c) key) attempts of
          None \<Rightarrow> True
        | Some a \<Rightarrow> sa_state a = Attempt_failed
            \<or> exists_where (\<lambda>v. ver_artifactId v = sa_artifactId a) (artifact_versions db)) keys)"
subsection \<open>Cleanups of deleted artifacts\<close>

record DeletionCleanupRow =
  dc_artifactId :: js_string
  dc_objectKeys :: "js_string list"
  dc_stagingPrefixes :: "js_string list"
  dc_attemptCount :: int
  dc_leaseToken :: js_string

definition claimable_deletion :: "time \<Rightarrow> time \<Rightarrow> content_db \<Rightarrow> deletion_cleanup_row \<Rightarrow> bool" where
  "claimable_deletion txnow createdBefore db c \<longleftrightarrow>
     del_createdAt c < createdBefore
     \<and> (case del_nextAttemptAt c of None \<Rightarrow> False | Some t \<Rightarrow> t \<le> txnow)
     \<and> (case del_leaseExpiresAt c of None \<Rightarrow> True | Some t \<Rightarrow> t \<le> txnow)
     \<and> \<not> active_hold txnow (del_artifactId c) db"

definition claimed_deletion :: "time \<Rightarrow> js_string \<Rightarrow> deletion_cleanup_row \<Rightarrow> deletion_cleanup_row" where
  "claimed_deletion txnow token c =
     c\<lparr>del_leaseOwner := Some token, del_leaseExpiresAt := Some (txnow + minute),
       del_attemptCount := del_attemptCount c + 1, del_lastErrorCode := None\<rparr>"

definition deletion_cleanup_row_of :: "deletion_cleanup_row \<Rightarrow> DeletionCleanupRow" where
  "deletion_cleanup_row_of c =
     \<lparr>dc_artifactId = del_artifactId c, dc_objectKeys = del_objectKeys c, dc_stagingPrefixes = del_stagingPrefixes c,
      dc_attemptCount = del_attemptCount c, dc_leaseToken = (case del_leaseOwner c of None \<Rightarrow> [] | Some t \<Rightarrow> t)\<rparr>"

definition claimArtifactDeletionCleanups ::
  "(js_string \<Rightarrow> 'k :: linorder) \<Rightarrow> js_string \<Rightarrow> time \<Rightarrow> time \<Rightarrow> nat \<Rightarrow> content_db
    \<Rightarrow> content_db \<times> (tx_error + DeletionCleanupRow list)" where
  "claimArtifactDeletionCleanups collate token txnow createdBefore limit = run_tx (\<lambda>db.
     let cs = candidates (claimable_deletion txnow createdBefore db)
           (\<lambda>c. (del_nextAttemptAt c, del_createdAt c, collate (del_artifactId c))) limit (deletion_cleanups db) in
     bindR (update_deletion_cleanups (among del_artifactId cs) (claimed_deletion txnow token) db) (\<lambda>db.
     Inr (db, map (\<lambda>c. deletion_cleanup_row_of (claimed_deletion txnow token c)) cs)))"

definition failArtifactDeletionCleanup ::
  "js_string \<Rightarrow> js_string \<Rightarrow> time \<Rightarrow> js_string \<Rightarrow> content_db \<Rightarrow> content_db \<times> (tx_error + unit)" where
  "failArtifactDeletionCleanup artifactId leaseToken nextAttemptAt errorCode =
     statement (update_deletion_cleanups
       (\<lambda>c. del_artifactId c = artifactId \<and> del_leaseOwner c = Some leaseToken)
       (\<lambda>c. c\<lparr>del_leaseOwner := None, del_leaseExpiresAt := None, del_nextAttemptAt := Some nextAttemptAt,
         del_lastErrorCode := Some errorCode\<rparr>))"

subsection \<open>Cleanups of content bundles\<close>

record ContentBundleCleanupRow =
  cc_bundleId :: js_string
  cc_ownerUserId :: js_string
  cc_objectPrefixes :: "js_string list"
  cc_attemptCount :: int
  cc_leaseToken :: js_string

text \<open>A creating bundle with its creator attempt, once its lease and its job are over.\<close>

definition abandoned_bundle :: "time \<Rightarrow> content_db \<Rightarrow> content_bundle_row \<times> attempt_row \<Rightarrow> bool" where
  "abandoned_bundle expiredBefore db = (\<lambda>(b, a).
     cb_creatorAttemptId b = Some (att_id a)
     \<and> exists_where (\<lambda>j. job_id j = att_jobId a \<and> (job_state j = Completed \<or> job_state j = Failed)) (processing_jobs db)
     \<and> cb_lifecycleState b = Bundle_creating
     \<and> (case cb_creatorLeaseExpiresAt b of None \<Rightarrow> False | Some t \<Rightarrow> t \<le> expiredBefore)
     \<and> \<not> exists_where (\<lambda>v. ver_contentBundleId v = Some (cb_id b)) (artifact_versions db))"

definition abandoned_cleanup :: "time \<Rightarrow> time \<Rightarrow> content_bundle_row \<times> attempt_row \<Rightarrow> bundle_cleanup_row" where
  "abandoned_cleanup txnow quiesceAfter = (\<lambda>(b, a).
     \<lparr>bc_bundleId = cb_id b, bc_ownerUserId = cb_ownerUserId b,
      bc_objectPrefixes = (''content-bundles/'' @ cb_id b @ ''/'') #
        (case att_objectPrefix a of None \<Rightarrow> [] | Some p \<Rightarrow> [p]),
      bc_state = Cleanup_pending,
      bc_quiesceAfter = max quiesceAfter (max (txnow + minute)
        ((case att_writeDeadlineAt a of None \<Rightarrow> txnow | Some t \<Rightarrow> t) + minute)),
      bc_leaseOwner = None, bc_leaseExpiresAt = None, bc_attemptCount = 0, bc_nextAttemptAt = txnow,
      bc_lastErrorCode = None, bc_createdAt = txnow, bc_completedAt = None\<rparr>)"

definition abandoned_deleting :: "time \<Rightarrow> content_bundle_row \<Rightarrow> content_bundle_row" where
  "abandoned_deleting txnow b =
     b\<lparr>cb_lifecycleState := Bundle_deleting, cb_creatorAttemptId := None, cb_winningAttemptId := None,
       cb_creatorLeaseExpiresAt := None, cb_deletingAt := Some txnow, cb_updatedAt := txnow\<rparr>"

definition recoverExpiredCreatingBundles ::
  "(js_string \<Rightarrow> 'k :: linorder) \<Rightarrow> time \<Rightarrow> time \<Rightarrow> time \<Rightarrow> int \<Rightarrow> content_db \<Rightarrow> content_db \<times> (tx_error + nat)" where
  "recoverExpiredCreatingBundles collate txnow expiredBefore quiesceAfter limit = run_tx (\<lambda>db.
     bindR (guardR (safe_integer limit \<and> 0 < limit) (Thrown ''Recovery limit must be positive.'')) (\<lambda>_.
     let cs = candidates (abandoned_bundle expiredBefore db)
           (\<lambda>(b, a). (cb_creatorLeaseExpiresAt b, collate (cb_id b))) (nat limit)
           (List.product (content_bundles db) (processing_attempts db)) in
     bindR (update_bundles (among cb_id (map fst cs)) (abandoned_deleting txnow)
       (db\<lparr>bundle_cleanups := fold insert_bundle_cleanup (map (abandoned_cleanup txnow quiesceAfter) cs) (bundle_cleanups db)\<rparr>))
       (\<lambda>db. Inr (db, length cs))))"

definition claimable_bundle_cleanup :: "time \<Rightarrow> bundle_cleanup_row \<Rightarrow> bool" where
  "claimable_bundle_cleanup now c \<longleftrightarrow>
     bc_quiesceAfter c \<le> now \<and> bc_nextAttemptAt c \<le> now
     \<and> (bc_state c = Cleanup_pending
         \<or> bc_state c = Cleanup_running \<and> (case bc_leaseExpiresAt c of None \<Rightarrow> False | Some t \<Rightarrow> t \<le> now))"

definition claimed_bundle_cleanup :: "time \<Rightarrow> js_string \<Rightarrow> bundle_cleanup_row \<Rightarrow> bundle_cleanup_row" where
  "claimed_bundle_cleanup now token c =
     c\<lparr>bc_state := Cleanup_running, bc_leaseOwner := Some token, bc_leaseExpiresAt := Some (now + minute),
       bc_attemptCount := bc_attemptCount c + 1, bc_lastErrorCode := None\<rparr>"

definition bundle_cleanup_row_of :: "bundle_cleanup_row \<Rightarrow> ContentBundleCleanupRow" where
  "bundle_cleanup_row_of c =
     \<lparr>cc_bundleId = bc_bundleId c, cc_ownerUserId = bc_ownerUserId c, cc_objectPrefixes = bc_objectPrefixes c,
      cc_attemptCount = bc_attemptCount c, cc_leaseToken = (case bc_leaseOwner c of None \<Rightarrow> [] | Some t \<Rightarrow> t)\<rparr>"

definition claimContentBundleCleanups ::
  "(js_string \<Rightarrow> 'k :: linorder) \<Rightarrow> js_string \<Rightarrow> time \<Rightarrow> nat \<Rightarrow> content_db
    \<Rightarrow> content_db \<times> (tx_error + ContentBundleCleanupRow list)" where
  "claimContentBundleCleanups collate token now limit = run_tx (\<lambda>db.
     let cs = candidates (claimable_bundle_cleanup now)
           (\<lambda>c. (bc_nextAttemptAt c, bc_createdAt c, collate (bc_bundleId c))) limit (bundle_cleanups db) in
     bindR (update_bundle_cleanups (among bc_bundleId cs) (claimed_bundle_cleanup now token) db) (\<lambda>db.
     Inr (db, map (\<lambda>c. bundle_cleanup_row_of (claimed_bundle_cleanup now token c)) cs)))"

definition delete_thumbnail_jobs :: "js_string \<Rightarrow> content_db \<Rightarrow> tx_error + content_db" where
  "delete_thumbnail_jobs b db =
     (let gone = (\<lambda>a. exists_where (\<lambda>j. tj_id j = ta_jobId a \<and> tj_bundleId j = b) (thumbnail_jobs db)) in
      if exists_where (\<lambda>t. exists_where (\<lambda>a. ta_id a = th_winningAttemptId t \<and> gone a) (thumbnail_attempts db)) (thumbnails db)
      then Inl (Foreign_key_violation ''content_bundle_thumbnail_attempt'')
      else Inr (db\<lparr>thumbnail_jobs := filter (\<lambda>j. tj_bundleId j \<noteq> b) (thumbnail_jobs db),
                   thumbnail_attempts := filter (\<lambda>a. \<not> gone a) (thumbnail_attempts db)\<rparr>))"

text \<open>A version that names the bundle keeps it; everything else below it goes with the row.\<close>

definition delete_bundle :: "js_string \<Rightarrow> content_db \<Rightarrow> tx_error + content_db" where
  "delete_bundle b db =
     (if exists_where (\<lambda>v. ver_contentBundleId v = Some b) (artifact_versions db)
      then Inl (Foreign_key_violation ''content_bundle'')
      else Inr (db\<lparr>content_bundles := filter (\<lambda>r. cb_id r \<noteq> b) (content_bundles db),
                   bundle_assets := filter (\<lambda>r. asset_bundleId r \<noteq> b) (bundle_assets db),
                   bundle_manifests := filter (\<lambda>r. man_bundleId r \<noteq> b) (bundle_manifests db),
                   bundle_aliases := filter (\<lambda>r. alias_bundleId r \<noteq> b) (bundle_aliases db),
                   raw_aliases := filter (\<lambda>r. alias_bundleId r \<noteq> b) (raw_aliases db),
                   bundle_cleanups := filter (\<lambda>r. bc_bundleId r \<noteq> b) (bundle_cleanups db)\<rparr>))"

definition string_array :: "js_string list \<Rightarrow> js_string" where
  "string_array xs = stringify (JArr (map JStr xs))"

definition held_cleanup :: "js_string \<Rightarrow> js_string \<Rightarrow> bundle_cleanup_row \<Rightarrow> bool" where
  "held_cleanup b token c \<longleftrightarrow> bc_bundleId c = b \<and> bc_state c = Cleanup_running \<and> bc_leaseOwner c = Some token"

definition completeContentBundleCleanup ::
  "time \<Rightarrow> js_string \<Rightarrow> js_string \<Rightarrow> js_string list \<Rightarrow> content_db \<Rightarrow> content_db \<times> (tx_error + bool)" where
  "completeContentBundleCleanup txnow bundleId leaseToken processedPrefixes = run_tx (\<lambda>db.
     case row_where (held_cleanup bundleId leaseToken) (bundle_cleanups db) of
       None \<Rightarrow> Inr (db, False)
     | Some c \<Rightarrow>
         if string_array (bc_objectPrefixes c) \<noteq> string_array processedPrefixes then
           bindR (update_bundle_cleanups (\<lambda>c. bc_bundleId c = bundleId \<and> bc_leaseOwner c = Some leaseToken)
             (\<lambda>c. c\<lparr>bc_state := Cleanup_pending, bc_leaseOwner := None, bc_leaseExpiresAt := None,
               bc_nextAttemptAt := txnow\<rparr>) db) (\<lambda>db.
           Inr (db, False))
         else
           bindR (delete_thumbnail_jobs bundleId
             (db\<lparr>thumbnails := filter (\<lambda>t. th_bundleId t \<noteq> bundleId) (thumbnails db)\<rparr>)) (\<lambda>db.
           bindR (delete_bundle bundleId db) (\<lambda>db.
           Inr (db, True))))"

definition failContentBundleCleanup ::
  "js_string \<Rightarrow> js_string \<Rightarrow> time \<Rightarrow> js_string \<Rightarrow> content_db \<Rightarrow> content_db \<times> (tx_error + unit)" where
  "failContentBundleCleanup bundleId leaseToken nextAttemptAt errorCode =
     statement (update_bundle_cleanups (held_cleanup bundleId leaseToken)
       (\<lambda>c. c\<lparr>bc_state := Cleanup_pending, bc_leaseOwner := None, bc_leaseExpiresAt := None,
         bc_nextAttemptAt := nextAttemptAt, bc_lastErrorCode := Some errorCode\<rparr>))"

definition open_cleanup :: "js_string \<Rightarrow> bundle_cleanup_row \<Rightarrow> bool" where
  "open_cleanup b c \<longleftrightarrow> bc_bundleId c = b \<and> (bc_state c = Cleanup_pending \<or> bc_state c = Cleanup_running)"

definition with_prefix :: "js_string \<Rightarrow> bundle_cleanup_row \<Rightarrow> bundle_cleanup_row" where
  "with_prefix p c =
     (if p \<in> set (bc_objectPrefixes c) then c else c\<lparr>bc_objectPrefixes := bc_objectPrefixes c @ [p]\<rparr>)"

definition recordLateContentBundlePrefix ::
  "js_string \<Rightarrow> js_string \<Rightarrow> content_db \<Rightarrow> content_db \<times> (tx_error + bool)" where
  "recordLateContentBundlePrefix bundleId objectPrefix = run_tx (\<lambda>db.
     bindR (guardR (starts_with (''content-bundles/'' @ bundleId @ ''/'') objectPrefix \<and> ends_with ''/'' objectPrefix)
       (Thrown ''A late content bundle prefix must stay below its bundle root and end with '/'.'')) (\<lambda>_.
     bindR (update_bundle_cleanups (open_cleanup bundleId) (with_prefix objectPrefix) db) (\<lambda>db'.
     Inr (db', length (filter (open_cleanup bundleId) (bundle_cleanups db)) = 1))))"

subsection \<open>Cleanups of attempts and thumbnails\<close>

text \<open>What a claim returns: the attempt, its object prefix or object key, and the lease.\<close>

record claimed_objects =
  cl_attemptId :: js_string
  cl_object :: js_string
  cl_attemptCount :: int
  cl_leaseToken :: js_string

definition objects_due ::
  "time \<Rightarrow> object_cleanup_state \<Rightarrow> time option \<Rightarrow> time option \<Rightarrow> time \<Rightarrow> time option \<Rightarrow> bool" where
  "objects_due now state eligibleAt cleanedAt nextAttemptAt leaseExpiresAt \<longleftrightarrow>
     (state = Objects_eligible
       \<or> state = Objects_cleaned \<and> (case cleanedAt of None \<Rightarrow> False | Some t \<Rightarrow> t \<le> now - minute))
     \<and> (case eligibleAt of None \<Rightarrow> False | Some t \<Rightarrow> t \<le> now)
     \<and> nextAttemptAt \<le> now
     \<and> (case leaseExpiresAt of None \<Rightarrow> True | Some t \<Rightarrow> t \<le> now)"

definition claimable_attempt :: "time \<Rightarrow> attempt_row \<Rightarrow> bool" where
  "claimable_attempt now a \<longleftrightarrow> att_objectPrefix a \<noteq> None \<and>
     objects_due now (att_cleanupState a) (att_cleanupEligibleAt a) (att_cleanedAt a) (att_cleanupNextAttemptAt a)
       (att_cleanupLeaseExpiresAt a)"

definition attempt_order :: "(js_string \<Rightarrow> 'k) \<Rightarrow> attempt_row \<Rightarrow> time \<times> time option \<times> 'k" where
  "attempt_order collate a = (att_cleanupNextAttemptAt a, att_cleanupEligibleAt a, collate (att_id a))"

definition claimed_attempt :: "time \<Rightarrow> js_string \<Rightarrow> attempt_row \<Rightarrow> attempt_row" where
  "claimed_attempt now token a =
     a\<lparr>att_cleanupState := Objects_eligible, att_cleanedAt := None, att_cleanupLeaseOwner := Some token,
       att_cleanupLeaseExpiresAt := Some (now + minute), att_cleanupAttemptCount := att_cleanupAttemptCount a + 1,
       att_cleanupLastErrorCode := None\<rparr>"

definition attempt_objects :: "attempt_row \<Rightarrow> claimed_objects" where
  "attempt_objects a =
     \<lparr>cl_attemptId = att_id a, cl_object = (case att_objectPrefix a of None \<Rightarrow> [] | Some p \<Rightarrow> p),
      cl_attemptCount = att_cleanupAttemptCount a,
      cl_leaseToken = (case att_cleanupLeaseOwner a of None \<Rightarrow> [] | Some t \<Rightarrow> t)\<rparr>"

definition due_attempts :: "(js_string \<Rightarrow> 'k :: linorder) \<Rightarrow> time \<Rightarrow> nat \<Rightarrow> content_db \<Rightarrow> attempt_row list" where
  "due_attempts collate now limit db = candidates (claimable_attempt now) (attempt_order collate) limit (processing_attempts db)"

definition claimEligibleAttemptPrefixes ::
  "(js_string \<Rightarrow> 'k :: linorder) \<Rightarrow> js_string \<Rightarrow> time \<Rightarrow> nat \<Rightarrow> content_db \<Rightarrow> content_db \<times> (tx_error + claimed_objects list)" where
  "claimEligibleAttemptPrefixes collate token now limit = run_tx (\<lambda>db.
     let cs = due_attempts collate now limit db in
     bindR (update_attempts (among att_id cs) (claimed_attempt now token) db) (\<lambda>db.
     Inr (db, map (\<lambda>a. attempt_objects (claimed_attempt now token a)) cs)))"

definition held_attempt :: "js_string \<Rightarrow> js_string \<Rightarrow> attempt_row \<Rightarrow> bool" where
  "held_attempt t token a \<longleftrightarrow>
     att_id a = t \<and> att_cleanupState a = Objects_eligible \<and> att_cleanupLeaseOwner a = Some token"

definition cleaned_attempt :: "time \<Rightarrow> attempt_row \<Rightarrow> attempt_row" where
  "cleaned_attempt txnow a =
     a\<lparr>att_cleanupState := Objects_cleaned, att_cleanedAt := Some txnow, att_cleanupLeaseOwner := None,
       att_cleanupLeaseExpiresAt := None, att_cleanupLastErrorCode := None\<rparr>"

definition completeAttemptPrefixCleanup ::
  "time \<Rightarrow> js_string \<Rightarrow> js_string \<Rightarrow> content_db \<Rightarrow> content_db \<times> (tx_error + unit)" where
  "completeAttemptPrefixCleanup txnow attemptId leaseToken =
     statement (update_attempts (held_attempt attemptId leaseToken) (cleaned_attempt txnow))"

definition failAttemptPrefixCleanup ::
  "js_string \<Rightarrow> js_string \<Rightarrow> time \<Rightarrow> js_string \<Rightarrow> content_db \<Rightarrow> content_db \<times> (tx_error + unit)" where
  "failAttemptPrefixCleanup attemptId leaseToken nextAttemptAt errorCode =
     statement (update_attempts (held_attempt attemptId leaseToken)
       (\<lambda>a. a\<lparr>att_cleanupLeaseOwner := None, att_cleanupLeaseExpiresAt := None,
         att_cleanupNextAttemptAt := nextAttemptAt, att_cleanupLastErrorCode := Some errorCode\<rparr>))"

definition claimable_thumbnail :: "time \<Rightarrow> thumbnail_attempt_row \<Rightarrow> bool" where
  "claimable_thumbnail now a \<longleftrightarrow>
     objects_due now (ta_cleanupState a) (ta_cleanupEligibleAt a) (ta_cleanedAt a) (ta_cleanupNextAttemptAt a)
       (ta_cleanupLeaseExpiresAt a)"

definition claimed_thumbnail :: "time \<Rightarrow> js_string \<Rightarrow> thumbnail_attempt_row \<Rightarrow> thumbnail_attempt_row" where
  "claimed_thumbnail now token a =
     a\<lparr>ta_cleanupState := Objects_eligible, ta_cleanedAt := None, ta_cleanupLeaseOwner := Some token,
       ta_cleanupLeaseExpiresAt := Some (now + minute), ta_cleanupAttemptCount := ta_cleanupAttemptCount a + 1,
       ta_cleanupLastErrorCode := None\<rparr>"

definition thumbnail_objects :: "thumbnail_attempt_row \<Rightarrow> claimed_objects" where
  "thumbnail_objects a =
     \<lparr>cl_attemptId = ta_id a, cl_object = ta_objectKey a, cl_attemptCount = ta_cleanupAttemptCount a,
      cl_leaseToken = (case ta_cleanupLeaseOwner a of None \<Rightarrow> [] | Some t \<Rightarrow> t)\<rparr>"

definition claimEligibleThumbnailObjects ::
  "(js_string \<Rightarrow> 'k :: linorder) \<Rightarrow> js_string \<Rightarrow> time \<Rightarrow> nat \<Rightarrow> content_db \<Rightarrow> content_db \<times> (tx_error + claimed_objects list)" where
  "claimEligibleThumbnailObjects collate token now limit = run_tx (\<lambda>db.
     let cs = candidates (claimable_thumbnail now)
           (\<lambda>a. (ta_cleanupNextAttemptAt a, ta_cleanupEligibleAt a, collate (ta_id a))) limit (thumbnail_attempts db) in
     bindR (update_thumbnail_attempts (among ta_id cs) (claimed_thumbnail now token) db) (\<lambda>db.
     Inr (db, map (\<lambda>a. thumbnail_objects (claimed_thumbnail now token a)) cs)))"

definition held_thumbnail :: "js_string \<Rightarrow> js_string \<Rightarrow> thumbnail_attempt_row \<Rightarrow> bool" where
  "held_thumbnail t token a \<longleftrightarrow>
     ta_id a = t \<and> ta_cleanupState a = Objects_eligible \<and> ta_cleanupLeaseOwner a = Some token"

definition completeThumbnailObjectCleanup ::
  "time \<Rightarrow> js_string \<Rightarrow> js_string \<Rightarrow> content_db \<Rightarrow> content_db \<times> (tx_error + unit)" where
  "completeThumbnailObjectCleanup txnow attemptId leaseToken =
     statement (update_thumbnail_attempts (held_thumbnail attemptId leaseToken)
       (\<lambda>a. a\<lparr>ta_cleanupState := Objects_cleaned, ta_cleanedAt := Some txnow, ta_cleanupLeaseOwner := None,
         ta_cleanupLeaseExpiresAt := None, ta_cleanupLastErrorCode := None\<rparr>))"

definition failThumbnailObjectCleanup ::
  "js_string \<Rightarrow> js_string \<Rightarrow> time \<Rightarrow> js_string \<Rightarrow> content_db \<Rightarrow> content_db \<times> (tx_error + unit)" where
  "failThumbnailObjectCleanup attemptId leaseToken nextAttemptAt errorCode =
     statement (update_thumbnail_attempts (held_thumbnail attemptId leaseToken)
       (\<lambda>a. a\<lparr>ta_cleanupLeaseOwner := None, ta_cleanupLeaseExpiresAt := None,
         ta_cleanupNextAttemptAt := nextAttemptAt, ta_cleanupLastErrorCode := Some errorCode\<rparr>))"
subsection \<open>What the statements leave\<close>

lemma candidates_sub: "r \<in> set (candidates p k n t) \<Longrightarrow> r \<in> set t \<and> p r"
  by (auto simp: candidates_def dest: in_set_takeD)

lemma length_candidates: "length (candidates p k n t) \<le> n"
  by (simp add: candidates_def)

text \<open>A row is left out while as many rows as the limit come before it.\<close>

lemma candidates_first:
  assumes "x \<in> set (candidates p k n t)"
  shows "length (filter (\<lambda>r. p r \<and> k r < k x) t) < n"
proof -
  let ?s = "sort_key k (filter p t)"
  from assms obtain i where i: "i < n" "i < length ?s" "?s ! i = x"
    by (auto simp: candidates_def in_set_conv_nth)
  have sorted: "sorted (map k ?s)" by simp
  have later: "filter (\<lambda>r. k r < k x) (drop i ?s) = []"
  proof (rule ccontr)
    assume "filter (\<lambda>r. k r < k x) (drop i ?s) \<noteq> []"
    then obtain r where "r \<in> set (drop i ?s)" "k r < k x" by (auto simp: filter_empty_conv)
    then obtain j where "j < length ?s - i" "?s ! (i + j) = r" by (auto simp: in_set_conv_nth)
    then have j: "i + j < length ?s" "?s ! (i + j) = r" by simp_all
    have "k (?s ! i) \<le> k (?s ! (i + j))"
      using sorted_nth_mono [OF sorted, of i "i + j"] j(1) i(2) by simp
    then show False using i(3) j(2) \<open>k r < k x\<close> by simp
  qed
  have "length (filter (\<lambda>r. p r \<and> k r < k x) t) = length (filter (\<lambda>r. k r < k x) ?s)"
    by (simp add: filter_sort conj_commute)
  also have "\<dots> = length (filter (\<lambda>r. k r < k x) (take i ?s @ drop i ?s))" by simp
  also have "\<dots> \<le> i" unfolding filter_append by (simp add: later order_trans [OF length_filter_le])
  finally show ?thesis using i(1) by simp
qed

lemma among_iff: "among i cs r \<longleftrightarrow> (\<exists>c \<in> set cs. i c = i r)"
  by (simp add: among_def exists_where_iff)

lemma update_attempts_Inr:
  "update_attempts p f db = Inr db' \<longleftrightarrow>
     list_all attempt_row_ok (update_where p f (processing_attempts db))
     \<and> attempts_unique (update_where p f (processing_attempts db))
     \<and> db' = db\<lparr>processing_attempts := update_where p f (processing_attempts db)\<rparr>"
  by (auto simp: update_attempts_def Let_def)

lemma update_jobs_Inr:
  "update_jobs p f db = Inr db' \<longleftrightarrow>
     list_all processing_job_row_ok (update_where p f (processing_jobs db))
     \<and> db' = db\<lparr>processing_jobs := update_where p f (processing_jobs db)\<rparr>"
  by (auto simp: update_jobs_def Let_def)

lemma update_deletion_cleanups_Inr:
  "update_deletion_cleanups p f db = Inr db' \<longleftrightarrow>
     list_all deletion_cleanup_row_ok (update_where p f (deletion_cleanups db))
     \<and> db' = db\<lparr>deletion_cleanups := update_where p f (deletion_cleanups db)\<rparr>"
  by (auto simp: update_deletion_cleanups_def Let_def)

lemma update_bundle_cleanups_Inr:
  "update_bundle_cleanups p f db = Inr db' \<longleftrightarrow>
     list_all bundle_cleanup_row_ok (update_where p f (bundle_cleanups db))
     \<and> db' = db\<lparr>bundle_cleanups := update_where p f (bundle_cleanups db)\<rparr>"
  by (auto simp: update_bundle_cleanups_def Let_def)

lemma update_thumbnail_attempts_Inr:
  "update_thumbnail_attempts p f db = Inr db' \<longleftrightarrow>
     list_all thumbnail_attempt_row_ok (update_where p f (thumbnail_attempts db))
     \<and> thumbnail_attempts_unique (update_where p f (thumbnail_attempts db))
     \<and> db' = db\<lparr>thumbnail_attempts := update_where p f (thumbnail_attempts db)\<rparr>"
  by (auto simp: update_thumbnail_attempts_def Let_def)

lemmas reconciliation_updates_Inr = update_attempts_Inr update_jobs_Inr update_deletion_cleanups_Inr
  update_bundle_cleanups_Inr update_thumbnail_attempts_Inr

text \<open>A transaction that ends with an error changed nothing; otherwise its statements ran.\<close>

lemma run_tx_cases:
  assumes "Q s" and "\<And>s' x. f s = Inr (s', x) \<Longrightarrow> Q s'"
  shows "Q (fst (run_tx f s))"
  using assms by (auto simp: run_tx_def split: sum.splits)

lemma statement_cases:
  assumes "Q db" and "\<And>db'. f db = Inr db' \<Longrightarrow> Q db'"
  shows "Q (fst (statement f db))"
  unfolding statement_def by (rule run_tx_cases) (use assms in \<open>auto elim!: bindR_InrE Inr_pairE\<close>)

end
