(* ===== verification/Reconciliation.thy ===== *)
theory Reconciliation
  imports Reconciliation_Store
begin

text \<open>
  The reconciliation, \<open>api/src/application/reconciliation/reconciliation.ts\<close>: one bounded run
  of one kind of work over the database (\<open>Reconciliation_Store\<close>) and the object storage.

  The storage is a record of operations that may fail. Clocks and random ids are parameters:
  \<open>re_now\<close> is the clock of the module, \<open>re_dbNow\<close> and \<open>re_dateNow\<close> the clocks of the database
  and of the process when the item with an id is handled (the empty id for the first
  statement of a run), \<open>re_uuid\<close> the random part of the n-th lease token of a run. A limit
  that is not an integer is \<open>None\<close>, and so is an invalid date. \<open>Promise.all\<close> starts every
  operation, so all of them happen, in order, and one failure fails the whole.
\<close>

datatype ReconciliationWorkType =
  Expired_leases | Raw_objects | Staging_objects | Artifact_deletions | Content_bundle_deletions

record ReconciliationInput =
  ri_workType :: ReconciliationWorkType
  ri_olderThan :: "time option"
  ri_limit :: "int option"
  ri_cursor :: "js_string option"

record ReconciliationReport =
  rr_workType :: ReconciliationWorkType
  rr_scannedCount :: nat
  rr_deletedCount :: nat
  rr_recoveredLeaseCount :: nat
  rr_nextCursor :: "js_string option"

record cleanup_outcome_log =
  log_bundleClaimed :: nat
  log_bundleCompleted :: nat
  log_bundleFailed :: nat
  log_attemptClaimed :: nat
  log_attemptCompleted :: nat
  log_attemptFailed :: nat

datatype reconciliation_error =
    Limit_invalid
  | Cutoff_invalid
  | Store_failed tx_error
  | Objects_failed storage_error

record 's cleanup_storage =
  cs_deleteObject :: "js_string \<Rightarrow> 's \<Rightarrow> 's \<times> (storage_error + unit)"
  cs_removeStagingPrefix :: "js_string \<Rightarrow> 's \<Rightarrow> 's \<times> (storage_error + nat)"
  cs_removeContentBundlePrefix :: "js_string \<Rightarrow> 's \<Rightarrow> 's \<times> (storage_error + nat)"
  cs_listObjects :: "ObjectListInput \<Rightarrow> 's \<Rightarrow> storage_error + ObjectListResult"

record ('s, 'k) reconciliation_env =
  re_storage :: "'s cleanup_storage"
  re_leaseOwner :: js_string
  re_collate :: "js_string \<Rightarrow> 'k"
  re_now :: time
  re_dbNow :: "js_string \<Rightarrow> time"
  re_dateNow :: "js_string \<Rightarrow> time"
  re_uuid :: "nat \<Rightarrow> js_string"

definition re_token :: "('s, 'k) reconciliation_env \<Rightarrow> nat \<Rightarrow> js_string" where
  "re_token env n = new_leaseToken (re_leaseOwner env) (re_uuid env n)"

definition maxBatchSize :: int where
  "maxBatchSize = 1000"

definition validateInput :: "ReconciliationInput \<Rightarrow> reconciliation_error + int \<times> time" where
  "validateInput i =
     (case ri_limit i of
        None \<Rightarrow> Inl Limit_invalid
      | Some n \<Rightarrow>
          if n < 1 \<or> maxBatchSize < n then Inl Limit_invalid
          else (case ri_olderThan i of None \<Rightarrow> Inl Cutoff_invalid | Some t \<Rightarrow> Inr (n, t)))"

subsection \<open>Steps over the database and the storage\<close>

type_synonym ('s, 'a) work = "content_db \<times> 's \<Rightarrow> (content_db \<times> 's) \<times> (reconciliation_error + 'a)"

definition on_db :: "(content_db \<Rightarrow> content_db \<times> (tx_error + 'a)) \<Rightarrow> ('s, 'a) work" where
  "on_db f = (\<lambda>(db, s). case f db of
       (db', Inl e) \<Rightarrow> ((db', s), Inl (Store_failed e))
     | (db', Inr x) \<Rightarrow> ((db', s), Inr x))"

definition on_storage :: "('s \<Rightarrow> 's \<times> (storage_error + 'a)) \<Rightarrow> ('s, 'a) work" where
  "on_storage f = (\<lambda>(db, s). case f s of
       (s', Inl e) \<Rightarrow> ((db, s'), Inl (Objects_failed e))
     | (s', Inr x) \<Rightarrow> ((db, s'), Inr x))"

definition andThen :: "('s, 'a) work \<Rightarrow> ('a \<Rightarrow> ('s, 'b) work) \<Rightarrow> ('s, 'b) work" where
  "andThen f g st = (case f st of (st', Inl e) \<Rightarrow> (st', Inl e) | (st', Inr x) \<Rightarrow> g x st')"

definition give :: "'a \<Rightarrow> ('s, 'a) work" where
  "give x st = (st, Inr x)"

lemma andThen_Inr: "f st = (st', Inr x) \<Longrightarrow> andThen f g st = g x st'"
  by (simp add: andThen_def)

lemma andThen_Inl: "f st = (st', Inl e) \<Longrightarrow> andThen f g st = (st', Inl e)"
  by (simp add: andThen_def)

text \<open>\<open>try { work } catch { handler }\<close>.\<close>

definition tryCatch :: "('s, 'a) work \<Rightarrow> ('s, 'a) work \<Rightarrow> ('s, 'a) work" where
  "tryCatch work handler st = (case work st of (st', Inl _) \<Rightarrow> handler st' | (st', Inr x) \<Rightarrow> (st', Inr x))"

fun each :: "('c \<Rightarrow> ('s, 'a) work) \<Rightarrow> 'c list \<Rightarrow> ('s, 'a list) work" where
  "each f [] = give []"
| "each f (c # cs) = andThen (f c) (\<lambda>x. andThen (each f cs) (\<lambda>xs. give (x # xs)))"

fun all_settled :: "('s, unit) work list \<Rightarrow> ('s, unit) work" where
  "all_settled [] st = (st, Inr ())"
| "all_settled (f # fs) st =
     (case f st of
        (st', Inl e) \<Rightarrow> (fst (all_settled fs st'), Inl e)
      | (st', Inr _) \<Rightarrow> all_settled fs st')"

definition ignoring :: "('s, 'a) work \<Rightarrow> ('s, unit) work" where
  "ignoring f = andThen f (\<lambda>_. give ())"

subsection \<open>The kinds of work\<close>

datatype cleanup_outcome = Cleaned | Not_cleaned | Cleanup_failed

definition delaySeconds :: "int \<Rightarrow> int" where
  "delaySeconds attemptCount = min 3600 (30 * 2 ^ nat (min (attemptCount - 1) 7))"

definition retry_at :: "time \<Rightarrow> int \<Rightarrow> time" where
  "retry_at t attemptCount = t + delaySeconds attemptCount * 1000"

definition object_cleanup_failed :: js_string where
  "object_cleanup_failed = ''object_cleanup_failed''"

definition clean_artifact :: "('s, 'k) reconciliation_env \<Rightarrow> DeletionCleanupRow \<Rightarrow> ('s, cleanup_outcome) work" where
  "clean_artifact env c =
     tryCatch
       (andThen (all_settled
           (map (\<lambda>key. on_storage (cs_deleteObject (re_storage env) key)) (dc_objectKeys c)
            @ map (\<lambda>p. ignoring (on_storage (cs_removeStagingPrefix (re_storage env) p))) (dc_stagingPrefixes c))) (\<lambda>_.
        andThen (on_db (completeArtifactDeletionCleanup (re_dbNow env (dc_artifactId c)) (dc_artifactId c) (dc_leaseToken c))) (\<lambda>_.
        give Cleaned)))
       (andThen (on_db (failArtifactDeletionCleanup (dc_artifactId c) (dc_leaseToken c)
           (retry_at (re_dateNow env (dc_artifactId c)) (dc_attemptCount c)) object_cleanup_failed)) (\<lambda>_.
        give Cleanup_failed))"

definition clean_bundle :: "('s, 'k) reconciliation_env \<Rightarrow> ContentBundleCleanupRow \<Rightarrow> ('s, cleanup_outcome) work" where
  "clean_bundle env c =
     tryCatch
       (andThen (each (\<lambda>p. on_storage (cs_removeContentBundlePrefix (re_storage env) p)) (cc_objectPrefixes c)) (\<lambda>_.
        andThen (on_db (completeContentBundleCleanup (re_dbNow env (cc_bundleId c)) (cc_bundleId c) (cc_leaseToken c)
          (cc_objectPrefixes c))) (\<lambda>completed.
        give (if completed then Cleaned else Not_cleaned))))
       (andThen (on_db (failContentBundleCleanup (cc_bundleId c) (cc_leaseToken c)
           (retry_at (re_now env) (cc_attemptCount c)) object_cleanup_failed)) (\<lambda>_.
        give Cleanup_failed))"

definition clean_attempt :: "('s, 'k) reconciliation_env \<Rightarrow> claimed_objects \<Rightarrow> ('s, cleanup_outcome) work" where
  "clean_attempt env c =
     tryCatch
       (andThen (on_storage (cs_removeContentBundlePrefix (re_storage env) (cl_object c))) (\<lambda>_.
        andThen (on_db (completeAttemptPrefixCleanup (re_dbNow env (cl_attemptId c)) (cl_attemptId c) (cl_leaseToken c))) (\<lambda>_.
        give Cleaned)))
       (andThen (on_db (failAttemptPrefixCleanup (cl_attemptId c) (cl_leaseToken c)
           (retry_at (re_now env) (cl_attemptCount c)) object_cleanup_failed)) (\<lambda>_.
        give Cleanup_failed))"

definition clean_thumbnail :: "('s, 'k) reconciliation_env \<Rightarrow> claimed_objects \<Rightarrow> ('s, cleanup_outcome) work" where
  "clean_thumbnail env c =
     tryCatch
       (andThen (on_storage (cs_deleteObject (re_storage env) (cl_object c))) (\<lambda>_.
        andThen (on_db (completeThumbnailObjectCleanup (re_dbNow env (cl_attemptId c)) (cl_attemptId c) (cl_leaseToken c))) (\<lambda>_.
        give Cleaned)))
       (andThen (on_db (failThumbnailObjectCleanup (cl_attemptId c) (cl_leaseToken c)
           (retry_at (re_dateNow env (cl_attemptId c)) (cl_attemptCount c)) object_cleanup_failed)) (\<lambda>_.
        give Cleanup_failed))"

definition outcomes :: "cleanup_outcome \<Rightarrow> cleanup_outcome list \<Rightarrow> nat" where
  "outcomes x xs = length (filter (\<lambda>y. y = x) xs)"

definition run_leases :: "('s, 'k :: linorder) reconciliation_env \<Rightarrow> time \<Rightarrow> int \<Rightarrow> ('s, ReconciliationReport) work" where
  "run_leases env olderThan limit =
     andThen (on_db (recoverExpiredLeases (re_collate env) (re_dbNow env []) olderThan (nat limit))) (\<lambda>n.
     give \<lparr>rr_workType = Expired_leases, rr_scannedCount = n, rr_deletedCount = 0, rr_recoveredLeaseCount = n,
           rr_nextCursor = None\<rparr>)"

definition run_artifact_deletions ::
  "('s, 'k :: linorder) reconciliation_env \<Rightarrow> time \<Rightarrow> int \<Rightarrow> ('s, ReconciliationReport) work" where
  "run_artifact_deletions env olderThan limit =
     andThen (on_db (claimArtifactDeletionCleanups (re_collate env) (re_token env 0) (re_dbNow env []) olderThan (nat limit))) (\<lambda>cleanups.
     andThen (each (clean_artifact env) cleanups) (\<lambda>xs.
     give \<lparr>rr_workType = Artifact_deletions, rr_scannedCount = length cleanups, rr_deletedCount = outcomes Cleaned xs,
           rr_recoveredLeaseCount = 0, rr_nextCursor = None\<rparr>))"

definition run_bundle_deletions ::
  "('s, 'k :: linorder) reconciliation_env \<Rightarrow> time \<Rightarrow> int
    \<Rightarrow> ('s, ReconciliationReport \<times> cleanup_outcome_log) work" where
  "run_bundle_deletions env olderThan limit =
     andThen (on_db (recoverExpiredCreatingBundles (re_collate env) (re_dbNow env []) olderThan (re_now env) limit)) (\<lambda>_.
     andThen (on_db (claimContentBundleCleanups (re_collate env) (re_token env 0) (re_now env) (nat limit))) (\<lambda>bundles.
     andThen (on_db (claimEligibleAttemptPrefixes (re_collate env) (re_token env 1) (re_now env) (nat limit))) (\<lambda>attempts.
     andThen (on_db (claimEligibleThumbnailObjects (re_collate env) (re_token env 2) (re_now env) (nat limit))) (\<lambda>thumbs.
     andThen (each (clean_bundle env) bundles) (\<lambda>bs.
     andThen (each (clean_attempt env) attempts) (\<lambda>as.
     andThen (each (clean_thumbnail env) thumbs) (\<lambda>ts.
     give (\<lparr>rr_workType = Content_bundle_deletions,
            rr_scannedCount = length bundles + length attempts + length thumbs,
            rr_deletedCount = outcomes Cleaned bs + outcomes Cleaned as + outcomes Cleaned ts,
            rr_recoveredLeaseCount = 0, rr_nextCursor = None\<rparr>,
           \<lparr>log_bundleClaimed = length bundles, log_bundleCompleted = outcomes Cleaned bs,
            log_bundleFailed = outcomes Cleanup_failed bs,
            log_attemptClaimed = length attempts + length thumbs,
            log_attemptCompleted = outcomes Cleaned as + outcomes Cleaned ts,
            log_attemptFailed = outcomes Cleanup_failed as + outcomes Cleanup_failed ts\<rparr>))))))))"

definition object_prefix_of :: "ReconciliationWorkType \<Rightarrow> js_string" where
  "object_prefix_of w = (if w = Raw_objects then ''raw/'' else ''staging/'')"

definition old_keys :: "time \<Rightarrow> ObjectListResult \<Rightarrow> js_string list" where
  "old_keys olderThan page = map ss_key (filter (\<lambda>o'. ss_lastModified o' < olderThan) (or_objects page))"

definition removable_keys :: "ReconciliationWorkType \<Rightarrow> js_string list \<Rightarrow> content_db \<Rightarrow> js_string list" where
  "removable_keys w keys db =
     (if w = Raw_objects then findRemovableRawObjectKeys keys db else findRemovableStagingObjectKeys keys db)"

definition run_objects ::
  "('s, 'k) reconciliation_env \<Rightarrow> ReconciliationWorkType \<Rightarrow> time \<Rightarrow> int \<Rightarrow> js_string option
    \<Rightarrow> ('s, ReconciliationReport) work" where
  "run_objects env w olderThan limit cursor =
     andThen (on_storage (\<lambda>s. (s, cs_listObjects (re_storage env)
         \<lparr>ol_prefix = object_prefix_of w, ol_limit = nat limit, ol_cursor = truthy cursor\<rparr> s))) (\<lambda>page.
     andThen (on_db (\<lambda>db. (db, Inr (removable_keys w (old_keys olderThan page) db)))) (\<lambda>keys.
     andThen (each (\<lambda>key. on_storage (cs_deleteObject (re_storage env) key)) keys) (\<lambda>_.
     give \<lparr>rr_workType = w, rr_scannedCount = length (or_objects page), rr_deletedCount = length keys,
           rr_recoveredLeaseCount = 0, rr_nextCursor = truthy (or_nextCursor page)\<rparr>)))"

text \<open>A run, with what it logs.\<close>

definition without_log :: "('s, 'a) work \<Rightarrow> ('s, 'a \<times> cleanup_outcome_log option) work" where
  "without_log f = andThen f (\<lambda>x. give (x, None))"

definition run_reconciliation ::
  "('s, 'k :: linorder) reconciliation_env \<Rightarrow> ReconciliationInput
    \<Rightarrow> ('s, ReconciliationReport \<times> cleanup_outcome_log option) work" where
  "run_reconciliation env i st =
     (case validateInput i of
        Inl e \<Rightarrow> (st, Inl e)
      | Inr (limit, olderThan) \<Rightarrow>
          (case ri_workType i of
             Expired_leases \<Rightarrow> without_log (run_leases env olderThan limit) st
           | Artifact_deletions \<Rightarrow> without_log (run_artifact_deletions env olderThan limit) st
           | Content_bundle_deletions \<Rightarrow>
               andThen (run_bundle_deletions env olderThan limit) (\<lambda>(r, l). give (r, Some l)) st
           | w \<Rightarrow> without_log (run_objects env w olderThan limit (ri_cursor i)) st))"

subsection \<open>The storage in memory\<close>

definition memory_cleanup :: "memory_objects cleanup_storage" where
  "memory_cleanup =
     \<lparr>cs_deleteObject = (\<lambda>key s. (deleteObject key s, Inr ())),
      cs_removeStagingPrefix = removeStagingPrefix,
      cs_removeContentBundlePrefix = removeContentBundlePrefix,
      cs_listObjects = (\<lambda>i s. Inr (listObjects i s))\<rparr>"
subsection \<open>Properties of work\<close>

text \<open>
  \<open>keeps P f Q\<close>: whether \<open>f\<close> succeeds or fails, it keeps \<open>P\<close>, and a result satisfies \<open>Q\<close>.
\<close>

definition keeps :: "(content_db \<times> 's \<Rightarrow> bool) \<Rightarrow> ('s, 'a) work \<Rightarrow> ('a \<Rightarrow> bool) \<Rightarrow> bool" where
  "keeps P f Q \<longleftrightarrow> (\<forall>st. P st \<longrightarrow> P (fst (f st)) \<and> (\<forall>x. snd (f st) = Inr x \<longrightarrow> Q x))"

lemma keepsI:
  assumes "\<And>st st' r. P st \<Longrightarrow> f st = (st', r) \<Longrightarrow> P st' \<and> (\<forall>x. r = Inr x \<longrightarrow> Q x)"
  shows "keeps P f Q"
  unfolding keeps_def by (metis assms prod.collapse)

lemma keepsD:
  assumes "keeps P f Q" and "P st"
  shows "P (fst (f st))" and "snd (f st) = Inr x \<Longrightarrow> Q x"
  using assms unfolding keeps_def by blast+

lemma keeps_give: "Q x \<Longrightarrow> keeps P (give x) Q"
  by (simp add: keeps_def give_def)

lemma keeps_andThen:
  assumes "keeps P f Q" and "\<And>x. Q x \<Longrightarrow> keeps P (g x) R"
  shows "keeps P (andThen f g) R"
proof (rule keepsI)
  fix st st' r assume st: "P st" "andThen f g st = (st', r)"
  obtain st1 r1 where f: "f st = (st1, r1)" by (cases "f st")
  have 1: "P st1" "\<And>x. r1 = Inr x \<Longrightarrow> Q x" using keepsD [OF assms(1) st(1)] by (simp_all add: f)
  show "P st' \<and> (\<forall>x. r = Inr x \<longrightarrow> R x)"
  proof (cases r1)
    case (Inl e)
    with st(2) f 1 show ?thesis by (auto simp: andThen_def)
  next
    case (Inr x)
    with st(2) f have "g x st1 = (st', r)" by (simp add: andThen_def)
    then show ?thesis using keepsD [OF assms(2) [OF 1(2) [OF Inr]] 1(1)] by simp
  qed
qed

lemma keeps_tryCatch:
  assumes "keeps P f Q" and "keeps P h Q"
  shows "keeps P (tryCatch f h) Q"
  using assms unfolding keeps_def tryCatch_def by (force split: prod.split sum.split)

lemma keeps_each:
  assumes "\<And>c. c \<in> set cs \<Longrightarrow> keeps P (f c) Q"
  shows "keeps P (each f cs) (\<lambda>_. True)"
  using assms by (induction cs) (auto intro!: keeps_give keeps_andThen)

lemma keeps_all_settled:
  assumes "\<And>f. f \<in> set fs \<Longrightarrow> keeps P f (\<lambda>_. True)"
  shows "keeps P (all_settled fs) (\<lambda>_. True)"
proof -
  have "P (fst (all_settled fs st))" if "P st" for st
    using that assms
  proof (induction fs arbitrary: st)
    case (Cons f fs)
    then have "P (fst (f st))" by (meson keepsD(1) list.set_intros(1))
    then show ?case using Cons by (auto split: prod.split sum.split)
  qed simp
  then show ?thesis by (simp add: keeps_def)
qed

lemma keeps_on_db:
  assumes "\<And>db s. P (db, s) \<Longrightarrow> P (fst (f db), s)"
    and "\<And>db s x. P (db, s) \<Longrightarrow> snd (f db) = Inr x \<Longrightarrow> Q x"
  shows "keeps P (on_db f) Q"
proof (rule keepsI)
  fix st st' r assume st: "P st" "on_db f st = (st', r)"
  obtain db s where "st = (db, s)" by (cases st)
  moreover obtain db' r' where "f db = (db', r')" by (cases "f db")
  ultimately show "P st' \<and> (\<forall>x. r = Inr x \<longrightarrow> Q x)"
    using st assms [of db s] by (cases r') (auto simp: on_db_def)
qed

lemma keeps_on_storage:
  assumes "\<And>db s. P (db, s) \<Longrightarrow> P (db, fst (f s))"
  shows "keeps P (on_storage f) (\<lambda>_. True)"
proof (rule keepsI)
  fix st st' r assume st: "P st" "on_storage f st = (st', r)"
  obtain db s where "st = (db, s)" by (cases st)
  moreover obtain s' r' where "f s = (s', r')" by (cases "f s")
  ultimately show "P st' \<and> (\<forall>x. r = Inr x \<longrightarrow> True)"
    using st assms [of db s] by (cases r') (auto simp: on_storage_def)
qed

lemma keeps_ignoring: "keeps P f (\<lambda>_. True) \<Longrightarrow> keeps P (ignoring f) (\<lambda>_. True)"
  unfolding ignoring_def by (erule keeps_andThen) (simp add: keeps_give)

text \<open>The shape of every cleanup: work, then its completion; on any failure its record.\<close>

lemma keeps_cleanup:
  assumes "keeps P w (\<lambda>_. True)" "keeps P c (\<lambda>_. True)" "keeps P f (\<lambda>_. True)"
  shows "keeps P (tryCatch (andThen w (\<lambda>_. andThen c (\<lambda>x. give (r x)))) (andThen f (\<lambda>_. give y))) (\<lambda>_. True)"
  by (intro keeps_tryCatch keeps_andThen [OF assms(1)] keeps_andThen [OF assms(2)] keeps_andThen [OF assms(3)] keeps_give TrueI)

end
