(* ===== verification/Reconciliation_Safety.thy ===== *)
theory Reconciliation_Safety
  imports Reconciliation
begin

text \<open>
  What the reconciliation may remove: no run of any kind of work deletes an object of content
  that some version still names. The laws of the storage it relies on are the locale
  \<open>cleanup_objects\<close>, interpreted on the storage in memory.
\<close>

subsection \<open>Where objects lie\<close>

definition bundle_root :: "js_string \<Rightarrow> js_string" where
  "bundle_root b = ''content-bundles/'' @ b @ ''/''"

lemma bundle_root_disjoint:
  assumes "starts_with (bundle_root b) k" "starts_with (bundle_root c) k"
    and "CHR ''/'' \<notin> set b" "CHR ''/'' \<notin> set c"
  shows "b = c"
proof -
  from assms(1,2) obtain u v where "b @ CHR ''/'' # u = c @ CHR ''/'' # v"
    by (auto simp: bundle_root_def starts_with_iff)
  moreover have "takeWhile (\<lambda>x. x \<noteq> CHR ''/'') (s @ CHR ''/'' # t) = s" if "CHR ''/'' \<notin> set s" for s t
    using that by (induction s) auto
  ultimately show ?thesis using assms(3,4) by metis
qed

definition bundle_in_use :: "'x artifact_db_scheme \<Rightarrow> js_string \<Rightarrow> bool" where
  "bundle_in_use db b \<longleftrightarrow> (\<exists>v \<in> set (artifact_versions db). ver_contentBundleId v = Some b)"

text \<open>The keys of the content that some version names.\<close>

definition content_object :: "'x content_db_scheme \<Rightarrow> js_string \<Rightarrow> bool" where
  "content_object db k \<longleftrightarrow>
     (\<exists>a \<in> set (bundle_assets db). asset_objectKey a = k \<and> bundle_in_use db (asset_bundleId a))
     \<or> (\<exists>m \<in> set (bundle_manifests db). man_objectKey m = k \<and> bundle_in_use db (man_bundleId m))"

text \<open>
  Objects of a bundle lie below its root; a bundle waiting for its cleanup is being deleted,
  and its prefixes lie below its root; attempts and thumbnails handed to a cleanup do not
  hold content in use; deleted artifacts only left raw inputs behind.
\<close>

definition objects_placed :: "'x content_db_scheme \<Rightarrow> bool" where
  "objects_placed db \<longleftrightarrow>
     (\<forall>a \<in> set (bundle_assets db). CHR ''/'' \<notin> set (asset_bundleId a) \<and> starts_with (bundle_root (asset_bundleId a)) (asset_objectKey a))
     \<and> (\<forall>m \<in> set (bundle_manifests db). CHR ''/'' \<notin> set (man_bundleId m) \<and> starts_with (bundle_root (man_bundleId m)) (man_objectKey m))
     \<and> (\<forall>b \<in> set (content_bundles db). CHR ''/'' \<notin> set (cb_id b) \<and>
          (\<forall>t \<in> set (processing_attempts db). attempt_named b t \<longrightarrow>
            (\<forall>p. att_objectPrefix t = Some p \<longrightarrow> starts_with (bundle_root (cb_id b)) p)))
     \<and> (\<forall>c \<in> set (bundle_cleanups db).
          (\<exists>b \<in> set (content_bundles db). cb_id b = bc_bundleId c \<and> cb_lifecycleState b = Bundle_deleting)
          \<and> (\<forall>p \<in> set (bc_objectPrefixes c). starts_with (bundle_root (bc_bundleId c)) p))
     \<and> (\<forall>t \<in> set (processing_attempts db). att_cleanupState t \<noteq> Objects_pending \<longrightarrow>
          (\<forall>p k. att_objectPrefix t = Some p \<longrightarrow> content_object db k \<longrightarrow> \<not> starts_with p k))
     \<and> (\<forall>t \<in> set (thumbnail_attempts db). ta_cleanupState t \<noteq> Objects_pending \<longrightarrow> \<not> content_object db (ta_objectKey t))
     \<and> (\<forall>d \<in> set (deletion_cleanups db). \<forall>k \<in> set (del_objectKeys d). starts_with ''raw/'' k)"

lemma placed_bundle:
  assumes "objects_placed db" "b \<in> set (content_bundles db)"
  shows "CHR ''/'' \<notin> set (cb_id b)"
    and "t \<in> set (processing_attempts db) \<Longrightarrow> attempt_named b t \<Longrightarrow> att_objectPrefix t = Some p \<Longrightarrow>
      starts_with (bundle_root (cb_id b)) p"
  using assms by (simp_all add: objects_placed_def)

lemma placed_cleanup:
  assumes "objects_placed db" "c \<in> set (bundle_cleanups db)"
  obtains b where "b \<in> set (content_bundles db)" "cb_id b = bc_bundleId c" "cb_lifecycleState b = Bundle_deleting"
    "\<And>p. p \<in> set (bc_objectPrefixes c) \<Longrightarrow> starts_with (bundle_root (bc_bundleId c)) p"
proof -
  from assms have "(\<exists>b \<in> set (content_bundles db). cb_id b = bc_bundleId c \<and> cb_lifecycleState b = Bundle_deleting)
      \<and> (\<forall>p \<in> set (bc_objectPrefixes c). starts_with (bundle_root (bc_bundleId c)) p)"
    by (simp add: objects_placed_def)
  then show thesis using that by blast
qed

lemma content_object_below:
  assumes "objects_placed db" "content_object db k"
  obtains b where "bundle_in_use db b" "CHR ''/'' \<notin> set b" "starts_with (bundle_root b) k"
  using assms unfolding objects_placed_def content_object_def by metis

lemma raw_not_bundle: "starts_with ''raw/'' k \<Longrightarrow> \<not> starts_with (bundle_root b) k"
  "starts_with ''staging/'' k \<Longrightarrow> \<not> starts_with (bundle_root b) k"
  by (auto simp: bundle_root_def starts_with_iff)

text \<open>A cleanup prefix covers no content in use.\<close>

lemma cleanup_prefix_free:
  assumes "objects_placed db" "content_live db" "c \<in> set (bundle_cleanups db)" "p \<in> set (bc_objectPrefixes c)"
    and "content_object db k"
  shows "\<not> starts_with p k"
proof
  assume "starts_with p k"
  from placed_cleanup [OF assms(1,3)] assms(4) obtain b where b: "b \<in> set (content_bundles db)" "cb_id b = bc_bundleId c"
      "cb_lifecycleState b = Bundle_deleting" "starts_with (bundle_root (bc_bundleId c)) p" by metis
  note slash = placed_bundle(1) [OF assms(1) b(1)]
  obtain u where u: "bundle_in_use db u" "CHR ''/'' \<notin> set u" "starts_with (bundle_root u) k"
    by (rule content_object_below [OF assms(1,5)])
  have "starts_with (bundle_root (cb_id b)) k" using b(2,4) \<open>starts_with p k\<close> by (auto simp: starts_with_iff)
  then have "u = cb_id b" by (rule bundle_root_disjoint [OF u(3) _ u(2) slash])
  with u(1) b(1,3) assms(2) show False by (auto simp: content_live_def bundle_in_use_def)
qed

subsection \<open>Steps that keep the placement\<close>

definition sound :: "(js_string \<Rightarrow> bool) \<Rightarrow> content_db \<Rightarrow> bool" where
  "sound K db \<longleftrightarrow> content_live db \<and> objects_placed db \<and> content_object db = K"

lemma content_object_cong:
  assumes "artifact_versions db' = artifact_versions db" "bundle_assets db' = bundle_assets db"
    "bundle_manifests db' = bundle_manifests db"
  shows "content_object db' = content_object db"
  by (simp add: fun_eq_iff content_object_def bundle_in_use_def assms)

text \<open>Attempts keep their prefix and are not taken out of \<open>pending\<close> by the reconciliation.\<close>

lemma sound_attempts:
  assumes "sound K db"
    and "\<And>t'. t' \<in> set T \<Longrightarrow> \<exists>t \<in> set (processing_attempts db). att_id t = att_id t' \<and> att_objectPrefix t = att_objectPrefix t'
      \<and> (att_cleanupState t' \<noteq> Objects_pending \<longrightarrow> att_cleanupState t \<noteq> Objects_pending)"
  shows "sound K (db\<lparr>processing_attempts := T\<rparr>)"
proof -
  have K: "content_object (db\<lparr>processing_attempts := T\<rparr>) = content_object db" by (rule content_object_cong) simp_all
  from assms(1) have db: "objects_placed db" "content_live db" "content_object db = K" by (simp_all add: sound_def)
  have "objects_placed (db\<lparr>processing_attempts := T\<rparr>)"
    unfolding objects_placed_def K
  proof (intro conjI ballI impI allI)
    fix b t' p assume b: "b \<in> set (content_bundles (db\<lparr>processing_attempts := T\<rparr>))"
      and t': "t' \<in> set (processing_attempts (db\<lparr>processing_attempts := T\<rparr>))" "attempt_named b t'" "att_objectPrefix t' = Some p"
    from t'(1) obtain t where t: "t \<in> set (processing_attempts db)" "att_id t = att_id t'" "att_objectPrefix t = att_objectPrefix t'"
      using assms(2) [of t'] by auto
    moreover from t t'(2) have "attempt_named b t" by (simp add: attempt_named_def)
    ultimately show "starts_with (bundle_root (cb_id b)) p" using b t'(3) db(1) by (simp add: objects_placed_def)
  next
    fix t' p k assume t': "t' \<in> set (processing_attempts (db\<lparr>processing_attempts := T\<rparr>))" "att_cleanupState t' \<noteq> Objects_pending"
      "att_objectPrefix t' = Some p" "content_object db k"
    from t'(1) obtain t where "t \<in> set (processing_attempts db)" "att_objectPrefix t = Some p" "att_cleanupState t \<noteq> Objects_pending"
      using assms(2) [of t'] t'(2,3) by auto
    then show "\<not> starts_with p k" using t'(4) db(1) unfolding objects_placed_def by blast
  qed (use db(1) in \<open>auto simp: objects_placed_def\<close>)
  then show ?thesis using db K by (simp add: sound_def content_live_def)
qed

lemma sound_bundle_cleanups:
  assumes "sound K db"
    and "\<And>c'. c' \<in> set T \<Longrightarrow> \<exists>c \<in> set (bundle_cleanups db). bc_bundleId c = bc_bundleId c' \<and> bc_objectPrefixes c = bc_objectPrefixes c'"
  shows "sound K (db\<lparr>bundle_cleanups := T\<rparr>)"
proof -
  have K: "content_object (db\<lparr>bundle_cleanups := T\<rparr>) = content_object db" by (rule content_object_cong) simp_all
  from assms(1) have db: "objects_placed db" "content_live db" "content_object db = K" by (simp_all add: sound_def)
  have "objects_placed (db\<lparr>bundle_cleanups := T\<rparr>)"
    unfolding objects_placed_def K
  proof (intro conjI ballI)
    fix c' assume "c' \<in> set (bundle_cleanups (db\<lparr>bundle_cleanups := T\<rparr>))"
    then obtain c where c: "c \<in> set (bundle_cleanups db)" "bc_bundleId c = bc_bundleId c'" "bc_objectPrefixes c = bc_objectPrefixes c'"
      using assms(2) [of c'] by auto
    show "\<exists>b \<in> set (content_bundles (db\<lparr>bundle_cleanups := T\<rparr>)). cb_id b = bc_bundleId c' \<and> cb_lifecycleState b = Bundle_deleting"
      using c(1) db(1) unfolding objects_placed_def by (simp flip: c(2))
    show "starts_with (bundle_root (bc_bundleId c')) p" if "p \<in> set (bc_objectPrefixes c')" for p
      using c db(1) that unfolding objects_placed_def by metis
  qed (use db(1) in \<open>auto simp: objects_placed_def\<close>)
  then show ?thesis using db K by (simp add: sound_def content_live_def)
qed

lemma sound_thumbnail_attempts:
  assumes "sound K db"
    and "\<And>t'. t' \<in> set T \<Longrightarrow> \<exists>t \<in> set (thumbnail_attempts db). ta_objectKey t = ta_objectKey t'
      \<and> (ta_cleanupState t' \<noteq> Objects_pending \<longrightarrow> ta_cleanupState t \<noteq> Objects_pending)"
  shows "sound K (db\<lparr>thumbnail_attempts := T\<rparr>)"
proof -
  have K: "content_object (db\<lparr>thumbnail_attempts := T\<rparr>) = content_object db" by (rule content_object_cong) simp_all
  from assms(1) have db: "objects_placed db" "content_live db" "content_object db = K" by (simp_all add: sound_def)
  have "objects_placed (db\<lparr>thumbnail_attempts := T\<rparr>)"
    unfolding objects_placed_def K using db(1) assms(2) by (fastforce simp: objects_placed_def)
  then show ?thesis using db K by (simp add: sound_def content_live_def)
qed

text \<open>Tables the placement does not look at.\<close>

lemma sound_cong:
  assumes "artifact_versions db' = artifact_versions db" "bundle_assets db' = bundle_assets db"
    "bundle_manifests db' = bundle_manifests db" "content_bundles db' = content_bundles db"
    "processing_attempts db' = processing_attempts db" "bundle_cleanups db' = bundle_cleanups db"
    "thumbnail_attempts db' = thumbnail_attempts db" "deletion_cleanups db' = deletion_cleanups db"
  shows "sound K db' = sound K db"
proof -
  have "content_object db' = content_object db" by (rule content_object_cong) (simp_all add: assms)
  then show ?thesis by (simp add: sound_def content_live_def objects_placed_def assms)
qed

lemma sound_frame:
  assumes "sound K db"
  shows "sound K (db\<lparr>thumbnails := th\<rparr>)" "sound K (db\<lparr>thumbnail_jobs := tj\<rparr>)" "sound K (db\<lparr>processing_jobs := pj\<rparr>)"
    "sound K (db\<lparr>processing_jobs := pj, upload_sessions := us\<rparr>)"
  by (rule sound_cong [THEN iffD2, OF _ _ _ _ _ _ _ _ assms]; simp)+

lemma sound_update_attempts:
  assumes "update_attempts p f db = Inr db'" "sound K db"
    and "\<And>t. p t \<Longrightarrow> att_id (f t) = att_id t \<and> att_objectPrefix (f t) = att_objectPrefix t
      \<and> (att_cleanupState (f t) \<noteq> Objects_pending \<longrightarrow> att_cleanupState t \<noteq> Objects_pending)"
  shows "sound K db'"
proof -
  have "sound K (db\<lparr>processing_attempts := update_where p f (processing_attempts db)\<rparr>)"
    by (rule sound_attempts [OF assms(2)]) (erule in_update_cases; metis assms(3))
  with assms(1) show ?thesis by (simp add: update_attempts_Inr)
qed

lemma sound_update_bundle_cleanups:
  assumes "update_bundle_cleanups p f db = Inr db'" "sound K db"
    and "\<And>c. p c \<Longrightarrow> bc_bundleId (f c) = bc_bundleId c \<and> bc_objectPrefixes (f c) = bc_objectPrefixes c"
  shows "sound K db'"
proof -
  have "sound K (db\<lparr>bundle_cleanups := update_where p f (bundle_cleanups db)\<rparr>)"
    by (rule sound_bundle_cleanups [OF assms(2)]) (erule in_update_cases; metis assms(3))
  with assms(1) show ?thesis by (simp add: update_bundle_cleanups_Inr)
qed

lemma sound_update_thumbnail_attempts:
  assumes "update_thumbnail_attempts p f db = Inr db'" "sound K db"
    and "\<And>t. p t \<Longrightarrow> ta_objectKey (f t) = ta_objectKey t
      \<and> (ta_cleanupState (f t) \<noteq> Objects_pending \<longrightarrow> ta_cleanupState t \<noteq> Objects_pending)"
  shows "sound K db'"
proof -
  have "sound K (db\<lparr>thumbnail_attempts := update_where p f (thumbnail_attempts db)\<rparr>)"
    by (rule sound_thumbnail_attempts [OF assms(2)]) (erule in_update_cases; metis assms(3))
  with assms(1) show ?thesis by (simp add: update_thumbnail_attempts_Inr)
qed

lemma sound_recover_lease:
  assumes "recover_lease txnow j db = Inr db'" "sound K db"
  shows "sound K db'"
proof -
  from assms(1) obtain db1 where 1: "update_attempts (running_attempt j) (expired_attempt txnow) db = Inr db1"
    and "db' = db1\<lparr>processing_jobs := processing_jobs db'\<rparr>
      \<or> db' = db1\<lparr>processing_jobs := processing_jobs db', upload_sessions := upload_sessions db'\<rparr>"
    by (auto simp: recover_lease_def bindR_eq_Inr update_jobs_Inr update_upload_sessions_Inr split: if_splits)
  moreover have "sound K db1"
    by (rule sound_update_attempts [OF 1 assms(2)]) (simp add: expired_attempt_def)
  ultimately show ?thesis by (metis sound_frame(3,4))
qed

lemma sound_recoverExpiredLeases:
  assumes "sound K db"
  shows "sound K (fst (recoverExpiredLeases collate txnow t n db))"
  unfolding recoverExpiredLeases_def
proof (rule run_tx_cases [of "sound K", OF assms])
  have all: "sound K db'" if "recover_leases txnow js db = Inr db'" "sound K db" for js db db'
    using that by (induction js arbitrary: db) (auto simp: bindR_eq_Inr intro: sound_recover_lease)
  show "sound K s'" if "(let expired = expired_jobs collate t n db in
      bindR (recover_leases txnow expired db) (\<lambda>db. Inr (db, length expired))) = Inr (s', x)" for s' x
    using that all assms by (auto simp: Let_def bindR_eq_Inr)
qed

lemma insert_cleanups_cases:
  "c \<in> set (fold insert_bundle_cleanup cs t) \<Longrightarrow> c \<in> set t \<or> c \<in> set cs"
  by (induction cs arbitrary: t) (force simp: insert_bundle_cleanup_def split: if_splits)+

text \<open>Bundles that no version names start being deleted, and their cleanups are recorded.\<close>

lemma sound_start_deleting:
  assumes "sound K db"
    and freed: "\<And>b. P b \<Longrightarrow> cb_id (f b) = cb_id b \<and> cb_lifecycleState (f b) = Bundle_deleting
      \<and> cb_creatorAttemptId (f b) = None \<and> cb_winningAttemptId (f b) = None"
    and unused: "\<And>b. b \<in> set (content_bundles db) \<Longrightarrow> P b \<Longrightarrow> \<not> bundle_in_use db (cb_id b)"
    and new: "\<And>c. c \<in> set C \<Longrightarrow> c \<in> set (bundle_cleanups db) \<or> (\<exists>b \<in> set (content_bundles db). P b \<and> bc_bundleId c = cb_id b
      \<and> (\<forall>p \<in> set (bc_objectPrefixes c). starts_with (bundle_root (cb_id b)) p))"
  shows "sound K (db\<lparr>bundle_cleanups := C, content_bundles := update_where P f (content_bundles db)\<rparr>)"
    (is "sound K ?db")
proof -
  from assms(1) have db: "objects_placed db" "content_live db" "content_object db = K" by (simp_all add: sound_def)
  have K: "content_object ?db = content_object db" by (rule content_object_cong) simp_all
  have live: "content_live ?db"
    using db(2) unused freed by (fastforce simp: content_live_def bundle_in_use_def elim!: in_update_cases)
  have "objects_placed ?db"
    unfolding objects_placed_def K
  proof (intro conjI ballI impI allI)
    fix b assume "b \<in> set (content_bundles ?db)"
    then obtain q where q: "q \<in> set (content_bundles db)" "b = (if P q then f q else q)" by (auto simp: in_update_where)
    then show "CHR ''/'' \<notin> set (cb_id b)" using db(1) freed by (auto simp: objects_placed_def)
    fix t p assume t: "t \<in> set (processing_attempts ?db)" "attempt_named b t" "att_objectPrefix t = Some p"
    then have "\<not> P q" using q freed by (auto simp: attempt_named_def)
    then show "starts_with (bundle_root (cb_id b)) p" using q t db(1) by (simp add: objects_placed_def)
  next
    fix c assume "c \<in> set (bundle_cleanups ?db)"
    then have c: "c \<in> set C" by simp
    have was: "\<exists>b \<in> set (content_bundles ?db). cb_id b = cb_id q \<and> cb_lifecycleState b = Bundle_deleting"
      if "q \<in> set (content_bundles db)" "P q \<or> cb_lifecycleState q = Bundle_deleting" for q
      using that freed [of q] by (intro bexI [of _ "if P q then f q else q"]) (auto simp: in_update_where)
    have del: "(\<exists>b \<in> set (content_bundles ?db). cb_id b = bc_bundleId c \<and> cb_lifecycleState b = Bundle_deleting)
      \<and> (\<forall>p \<in> set (bc_objectPrefixes c). starts_with (bundle_root (bc_bundleId c)) p)"
    proof (cases "c \<in> set (bundle_cleanups db)")
      case True
      from placed_cleanup [OF db(1) this] obtain b where
        "b \<in> set (content_bundles db)" "cb_id b = bc_bundleId c" "cb_lifecycleState b = Bundle_deleting"
        "\<And>p. p \<in> set (bc_objectPrefixes c) \<Longrightarrow> starts_with (bundle_root (bc_bundleId c)) p" by metis
      then show ?thesis using was [of b] by auto
    next
      case False
      then obtain b where "b \<in> set (content_bundles db)" "P b" "bc_bundleId c = cb_id b"
          "\<forall>p \<in> set (bc_objectPrefixes c). starts_with (bundle_root (cb_id b)) p"
        using new [OF c] by blast
      then show ?thesis using was [of b] by auto
    qed
    then show "\<exists>b \<in> set (content_bundles ?db). cb_id b = bc_bundleId c \<and> cb_lifecycleState b = Bundle_deleting" by blast
    show "starts_with (bundle_root (bc_bundleId c)) p" if "p \<in> set (bc_objectPrefixes c)" for p
      using del that by blast
  qed (use db(1) in \<open>auto simp: objects_placed_def\<close>)
  with live K db(3) show ?thesis by (simp add: sound_def)
qed

lemma sound_abandoned:
  assumes "sound K db"
    and cs: "\<And>b a. (b, a) \<in> set cs \<Longrightarrow>
      b \<in> set (content_bundles db) \<and> a \<in> set (processing_attempts db) \<and> abandoned_bundle t db (b, a)"
  shows "sound K (db\<lparr>bundle_cleanups := fold insert_bundle_cleanup (map (abandoned_cleanup txnow q) cs) (bundle_cleanups db),
      content_bundles := update_where (among cb_id (map fst cs)) (abandoned_deleting txnow) (content_bundles db)\<rparr>)"
proof (rule sound_start_deleting [OF assms(1)])
  show "\<not> bundle_in_use db (cb_id b)" if "among cb_id (map fst cs) b" for b
  proof -
    from that obtain b' a where "(b', a) \<in> set cs" "cb_id b' = cb_id b" by (auto simp: among_iff)
    then show ?thesis using cs [of b' a] by (simp add: abandoned_bundle_def exists_where_iff bundle_in_use_def)
  qed
  fix c assume "c \<in> set (fold insert_bundle_cleanup (map (abandoned_cleanup txnow q) cs) (bundle_cleanups db))"
  then have "c \<in> set (bundle_cleanups db) \<or> c \<in> set (map (abandoned_cleanup txnow q) cs)" by (rule insert_cleanups_cases)
  then show "c \<in> set (bundle_cleanups db) \<or> (\<exists>b \<in> set (content_bundles db). among cb_id (map fst cs) b \<and> bc_bundleId c = cb_id b
      \<and> (\<forall>p \<in> set (bc_objectPrefixes c). starts_with (bundle_root (cb_id b)) p))"
  proof
    assume "c \<in> set (map (abandoned_cleanup txnow q) cs)"
    then obtain b a where ba: "(b, a) \<in> set cs" "c = abandoned_cleanup txnow q (b, a)" by auto
    note in_db = cs [OF ba(1)]
    have "attempt_named b a" using in_db by (simp add: abandoned_bundle_def attempt_named_def)
    moreover have "objects_placed db" using assms(1) by (simp add: sound_def)
    ultimately have "starts_with (bundle_root (cb_id b)) p" if "p \<in> set (bc_objectPrefixes c)" for p
      using that ba(2) placed_bundle(2) [of db b a p] in_db
      by (auto simp: abandoned_cleanup_def bundle_root_def starts_with_iff split: option.splits)
    moreover have "among cb_id (map fst cs) b" using ba(1) by (force simp: among_iff)
    ultimately show ?thesis using in_db ba(2) by (auto simp: abandoned_cleanup_def)
  qed simp
qed (simp add: abandoned_deleting_def)

lemma sound_recoverExpiredCreatingBundles:
  assumes "sound K db"
  shows "sound K (fst (recoverExpiredCreatingBundles collate txnow t q n db))"
  unfolding recoverExpiredCreatingBundles_def
proof (rule run_tx_cases [of "sound K", OF assms])
  let ?key = "\<lambda>(b, a). (cb_creatorLeaseExpiresAt b, collate (cb_id b))"
  let ?pairs = "List.product (content_bundles db) (processing_attempts db)"
  fix s' x assume step: "bindR (guardR (safe_integer n \<and> 0 < n) (Thrown ''Recovery limit must be positive.'')) (\<lambda>_.
     let cs = candidates (abandoned_bundle t db) ?key (nat n) ?pairs in
     bindR (update_bundles (among cb_id (map fst cs)) (abandoned_deleting txnow)
       (db\<lparr>bundle_cleanups := fold insert_bundle_cleanup (map (abandoned_cleanup txnow q) cs) (bundle_cleanups db)\<rparr>))
       (\<lambda>db. Inr (db, length cs))) = Inr (s', x)"
  obtain cs where cs: "cs = candidates (abandoned_bundle t db) ?key (nat n) ?pairs" by simp
  have "s' = db\<lparr>bundle_cleanups := fold insert_bundle_cleanup (map (abandoned_cleanup txnow q) cs) (bundle_cleanups db),
      content_bundles := update_where (among cb_id (map fst cs)) (abandoned_deleting txnow) (content_bundles db)\<rparr>"
    using step unfolding cs [symmetric] Let_def by (auto simp: bindR_eq_Inr update_bundles_Inr)
  moreover have in_db: "b \<in> set (content_bundles db) \<and> a \<in> set (processing_attempts db) \<and> abandoned_bundle t db (b, a)"
    if "(b, a) \<in> set cs" for b a
    using candidates_sub [OF that [unfolded cs]] by simp
  ultimately show "sound K s'" using sound_abandoned [OF assms, of cs t txnow q] in_db by simp
qed
text \<open>With unique ids the rows an update selects by the ids of the candidates are the candidates.\<close>

lemma among_candidates:
  assumes "unique_on (\<lambda>_. True) i (update_where (among i (candidates p k n t)) f t)" and "\<And>r. i (f r) = i r"
    and "r \<in> set t" "among i (candidates p k n t) r"
  shows "p r"
proof -
  have "map i (update_where (among i (candidates p k n t)) f t) = map i t"
    by (rule map_update_where_same) (simp add: assms(2))
  with assms(1) have distinct: "unique_on (\<lambda>_. True) i t" by (simp add: unique_on_def)
  from assms(4) obtain c where c: "c \<in> set (candidates p k n t)" "i c = i r" by (auto simp: among_iff)
  from candidates_sub [OF c(1)] have "c \<in> set t" "p c" by simp_all
  moreover have "c = r" by (rule unique_onD [OF distinct]) (use calculation c(2) assms(3) in auto)
  ultimately show ?thesis by simp
qed

lemma sound_claims:
  assumes "sound K db"
  shows "sound K (fst (claimContentBundleCleanups collate token now n db))"
    "sound K (fst (claimEligibleAttemptPrefixes collate token now n db))"
    "sound K (fst (claimEligibleThumbnailObjects collate token now n db))"
proof -
  let ?b = "candidates (claimable_bundle_cleanup now) (\<lambda>c. (bc_nextAttemptAt c, bc_createdAt c, collate (bc_bundleId c))) n (bundle_cleanups db)"
  have "sound K db'" if "update_bundle_cleanups (among bc_bundleId ?b) (claimed_bundle_cleanup now token) db = Inr db'" for db'
    by (rule sound_update_bundle_cleanups [OF that assms]) (simp add: claimed_bundle_cleanup_def)
  then show "sound K (fst (claimContentBundleCleanups collate token now n db))"
    unfolding claimContentBundleCleanups_def by (intro run_tx_cases [of "sound K", OF assms]) (auto simp: Let_def bindR_eq_Inr)
next
  have "sound K db'" if step: "update_attempts (among att_id (due_attempts collate now n db)) (claimed_attempt now token) db = Inr db'" for db'
  proof -
    from step have T: "processing_attempts db' = update_where (among att_id (due_attempts collate now n db)) (claimed_attempt now token) (processing_attempts db)"
      and db': "db' = db\<lparr>processing_attempts := processing_attempts db'\<rparr>" and unique: "attempts_unique (processing_attempts db')"
      by (simp_all add: update_attempts_Inr)
    have due: "claimable_attempt now t" if "t \<in> set (processing_attempts db)" "among att_id (due_attempts collate now n db) t" for t
      by (rule among_candidates [OF _ _ that(1) that(2) [unfolded due_attempts_def], where f = "claimed_attempt now token"])
        (use unique in \<open>simp_all add: T due_attempts_def attempts_unique_def claimed_attempt_def\<close>)
    have "sound K (db\<lparr>processing_attempts := processing_attempts db'\<rparr>)"
    proof (rule sound_attempts [OF assms])
      fix t' assume "t' \<in> set (processing_attempts db')"
      then have "t' \<in> set (update_where (among att_id (due_attempts collate now n db)) (claimed_attempt now token) (processing_attempts db))" by (simp only: T)
      then show "\<exists>t \<in> set (processing_attempts db). att_id t = att_id t' \<and> att_objectPrefix t = att_objectPrefix t'
        \<and> (att_cleanupState t' \<noteq> Objects_pending \<longrightarrow> att_cleanupState t \<noteq> Objects_pending)"
      proof (cases rule: in_update_cases)
        case (2 t)
        from due [OF 2(1,2)] have "att_cleanupState t \<noteq> Objects_pending" by (auto simp: claimable_attempt_def objects_due_def)
        then show ?thesis using 2 by (intro bexI [of _ t]) (simp_all add: claimed_attempt_def)
      qed blast
    qed
    with db' show ?thesis by simp
  qed
  then show "sound K (fst (claimEligibleAttemptPrefixes collate token now n db))"
    unfolding claimEligibleAttemptPrefixes_def by (intro run_tx_cases [of "sound K", OF assms]) (auto simp: Let_def bindR_eq_Inr)
next
  let ?t = "candidates (claimable_thumbnail now) (\<lambda>a. (ta_cleanupNextAttemptAt a, ta_cleanupEligibleAt a, collate (ta_id a))) n
    (thumbnail_attempts db)"
  have "sound K db'" if step: "update_thumbnail_attempts (among ta_id ?t) (claimed_thumbnail now token) db = Inr db'" for db'
  proof -
    from step have T: "thumbnail_attempts db' = update_where (among ta_id ?t) (claimed_thumbnail now token) (thumbnail_attempts db)"
      and db': "db' = db\<lparr>thumbnail_attempts := thumbnail_attempts db'\<rparr>" and unique: "thumbnail_attempts_unique (thumbnail_attempts db')"
      by (simp_all add: update_thumbnail_attempts_Inr)
    have due: "claimable_thumbnail now t" if "t \<in> set (thumbnail_attempts db)" "among ta_id ?t t" for t
      by (rule among_candidates [OF _ _ that, where f = "claimed_thumbnail now token"])
        (use unique in \<open>simp_all add: T thumbnail_attempts_unique_def claimed_thumbnail_def\<close>)
    have "sound K (db\<lparr>thumbnail_attempts := thumbnail_attempts db'\<rparr>)"
    proof (rule sound_thumbnail_attempts [OF assms])
      fix t' assume "t' \<in> set (thumbnail_attempts db')"
      then have "t' \<in> set (update_where (among ta_id ?t) (claimed_thumbnail now token) (thumbnail_attempts db))" by (simp only: T)
      then show "\<exists>t \<in> set (thumbnail_attempts db). ta_objectKey t = ta_objectKey t'
        \<and> (ta_cleanupState t' \<noteq> Objects_pending \<longrightarrow> ta_cleanupState t \<noteq> Objects_pending)"
      proof (cases rule: in_update_cases)
        case (2 t)
        from due [OF 2(1,2)] have "ta_cleanupState t \<noteq> Objects_pending" by (auto simp: claimable_thumbnail_def objects_due_def)
        then show ?thesis using 2 by (intro bexI [of _ t]) (simp_all add: claimed_thumbnail_def)
      qed blast
    qed
    with db' show ?thesis by simp
  qed
  then show "sound K (fst (claimEligibleThumbnailObjects collate token now n db))"
    unfolding claimEligibleThumbnailObjects_def by (intro run_tx_cases [of "sound K", OF assms]) (auto simp: Let_def bindR_eq_Inr)
qed
lemma sound_delete_bundle:
  assumes "delete_bundle b db = Inr db'" "sound K db"
  shows "sound K db'"
proof -
  from assms(2) have db: "objects_placed db" "content_live db" "content_object db = K" by (simp_all add: sound_def)
  from assms(1) have unused: "\<not> bundle_in_use db b"
    by (auto simp: delete_bundle_def exists_where_iff bundle_in_use_def split: if_splits)
  from assms(1) have db': "artifact_versions db' = artifact_versions db"
      "content_bundles db' = filter (\<lambda>r. cb_id r \<noteq> b) (content_bundles db)"
      "bundle_assets db' = filter (\<lambda>r. asset_bundleId r \<noteq> b) (bundle_assets db)"
      "bundle_manifests db' = filter (\<lambda>r. man_bundleId r \<noteq> b) (bundle_manifests db)"
      "bundle_cleanups db' = filter (\<lambda>r. bc_bundleId r \<noteq> b) (bundle_cleanups db)"
      "processing_attempts db' = processing_attempts db" "thumbnail_attempts db' = thumbnail_attempts db"
      "deletion_cleanups db' = deletion_cleanups db"
    by (auto simp: delete_bundle_def split: if_splits)
  have use: "bundle_in_use db' = bundle_in_use db" by (simp add: fun_eq_iff bundle_in_use_def db')
  then have K: "content_object db' = content_object db"
    using unused by (auto simp: fun_eq_iff content_object_def db')
  have "objects_placed db'"
    unfolding objects_placed_def K db'
  proof (intro conjI ballI)
    fix c assume c: "c \<in> set (filter (\<lambda>r. bc_bundleId r \<noteq> b) (bundle_cleanups db))"
    then have "c \<in> set (bundle_cleanups db)" by simp
    from placed_cleanup [OF db(1) this] obtain q where "q \<in> set (content_bundles db)" "cb_id q = bc_bundleId c"
        "cb_lifecycleState q = Bundle_deleting" by metis
    then show "\<exists>q \<in> set (filter (\<lambda>r. cb_id r \<noteq> b) (content_bundles db)). cb_id q = bc_bundleId c \<and> cb_lifecycleState q = Bundle_deleting"
      using c by auto
  qed (use db(1) in \<open>simp_all add: objects_placed_def\<close>)
  then show ?thesis using db K by (simp add: sound_def content_live_def db')
qed

lemma sound_delete_thumbnail_jobs:
  assumes "delete_thumbnail_jobs b db = Inr db'" "sound K db"
  shows "sound K db'"
proof -
  obtain gone where "db' = db\<lparr>thumbnail_jobs := filter (\<lambda>j. tj_bundleId j \<noteq> b) (thumbnail_jobs db),
      thumbnail_attempts := filter (\<lambda>a. \<not> gone a) (thumbnail_attempts db)\<rparr>"
    using assms(1) by (auto simp: delete_thumbnail_jobs_def Let_def split: if_splits)
  moreover have "sound K (db\<lparr>thumbnail_jobs := j, thumbnail_attempts := filter (\<lambda>a. \<not> gone a) (thumbnail_attempts db)\<rparr>)" for j
    by (rule sound_thumbnail_attempts [OF sound_frame(2) [OF assms(2)]]) auto
  ultimately show ?thesis by simp
qed

lemma sound_completeContentBundleCleanup:
  assumes "sound K db"
  shows "sound K (fst (completeContentBundleCleanup txnow b token ps db))"
  unfolding completeContentBundleCleanup_def
proof (rule run_tx_cases [of "sound K", OF assms])
  fix db' x
  assume step: "(case row_where (held_cleanup b token) (bundle_cleanups db) of
       None \<Rightarrow> Inr (db, False)
     | Some c \<Rightarrow>
         if string_array (bc_objectPrefixes c) \<noteq> string_array ps then
           bindR (update_bundle_cleanups (\<lambda>c. bc_bundleId c = b \<and> bc_leaseOwner c = Some token)
             (\<lambda>c. c\<lparr>bc_state := Cleanup_pending, bc_leaseOwner := None, bc_leaseExpiresAt := None,
               bc_nextAttemptAt := txnow\<rparr>) db) (\<lambda>db.
           Inr (db, False))
         else
           bindR (delete_thumbnail_jobs b
             (db\<lparr>thumbnails := filter (\<lambda>t. th_bundleId t \<noteq> b) (thumbnails db)\<rparr>)) (\<lambda>db.
           bindR (delete_bundle b db) (\<lambda>db.
           Inr (db, True)))) = Inr (db', x)"
  show "sound K db'"
  proof (cases "row_where (held_cleanup b token) (bundle_cleanups db)")
    case None
    with step assms show ?thesis by simp
  next
    case (Some c)
    show ?thesis
    proof (cases "string_array (bc_objectPrefixes c) = string_array ps")
      case True
      with Some step obtain db1 where "delete_thumbnail_jobs b (db\<lparr>thumbnails := filter (\<lambda>t. th_bundleId t \<noteq> b) (thumbnails db)\<rparr>) = Inr db1"
          "delete_bundle b db1 = Inr db'" by (auto simp: bindR_eq_Inr)
      then show ?thesis using sound_delete_thumbnail_jobs sound_delete_bundle sound_frame(1) [OF assms] by blast
    next
      case False
      with Some step have "update_bundle_cleanups (\<lambda>c. bc_bundleId c = b \<and> bc_leaseOwner c = Some token)
             (\<lambda>c. c\<lparr>bc_state := Cleanup_pending, bc_leaseOwner := None, bc_leaseExpiresAt := None,
               bc_nextAttemptAt := txnow\<rparr>) db = Inr db'" by (auto simp: bindR_eq_Inr)
      then show ?thesis by (rule sound_update_bundle_cleanups [OF _ assms]) simp
    qed
  qed
qed

lemma sound_settled:
  assumes "sound K db"
  shows "sound K (fst (failContentBundleCleanup b token next e db))"
    "sound K (fst (completeAttemptPrefixCleanup txnow t token db))"
    "sound K (fst (failAttemptPrefixCleanup t token next e db))"
    "sound K (fst (completeThumbnailObjectCleanup txnow t token db))"
    "sound K (fst (failThumbnailObjectCleanup t token next e db))"
  unfolding failContentBundleCleanup_def completeAttemptPrefixCleanup_def failAttemptPrefixCleanup_def
    completeThumbnailObjectCleanup_def failThumbnailObjectCleanup_def
  by (rule statement_cases [of "sound K", OF assms],
      erule sound_update_bundle_cleanups [OF _ assms] sound_update_attempts [OF _ assms] sound_update_thumbnail_attempts [OF _ assms],
      simp add: held_cleanup_def held_attempt_def held_thumbnail_def cleaned_attempt_def)+

subsection \<open>What a claim hands out\<close>

lemma claimed_bundles_free:
  assumes "sound K db" "snd (claimContentBundleCleanups collate token now n db) = Inr rows"
    and "c \<in> set rows" "p \<in> set (cc_objectPrefixes c)" "K k"
  shows "\<not> starts_with p k"
proof -
  from assms(2,3) obtain r where "r \<in> set (candidates (claimable_bundle_cleanup now)
      (\<lambda>c. (bc_nextAttemptAt c, bc_createdAt c, collate (bc_bundleId c))) n (bundle_cleanups db))"
    and c: "c = bundle_cleanup_row_of (claimed_bundle_cleanup now token r)"
    by (auto simp: claimContentBundleCleanups_def run_tx_def Let_def bindR_eq_Inr split: sum.splits)
  then have "r \<in> set (bundle_cleanups db)" using candidates_sub by metis
  moreover have "p \<in> set (bc_objectPrefixes r)"
    using assms(4) by (simp add: c bundle_cleanup_row_of_def claimed_bundle_cleanup_def)
  ultimately show ?thesis using assms(1,5) cleanup_prefix_free [of db r p k] by (auto simp: sound_def)
qed

lemma claimed_attempts_free:
  assumes "sound K db" "snd (claimEligibleAttemptPrefixes collate token now n db) = Inr rows"
    and "c \<in> set rows" "K k"
  shows "\<not> starts_with (cl_object c) k"
proof -
  from assms(2,3) obtain r where "r \<in> set (due_attempts collate now n db)" and c: "c = attempt_objects (claimed_attempt now token r)"
    by (auto simp: claimEligibleAttemptPrefixes_def run_tx_def Let_def bindR_eq_Inr split: sum.splits)
  then have r: "r \<in> set (processing_attempts db)" "claimable_attempt now r"
    using candidates_sub unfolding due_attempts_def by metis+
  then obtain p where "att_objectPrefix r = Some p" "att_cleanupState r \<noteq> Objects_pending"
    by (auto simp: claimable_attempt_def objects_due_def)
  moreover from this have "cl_object c = p" by (simp add: c attempt_objects_def claimed_attempt_def)
  ultimately show ?thesis using r(1) assms(1,4) unfolding sound_def objects_placed_def by blast
qed

lemma claimed_thumbnails_free:
  assumes "sound K db" "snd (claimEligibleThumbnailObjects collate token now n db) = Inr rows" "c \<in> set rows"
  shows "\<not> K (cl_object c)"
proof -
  from assms(2,3) obtain r where "r \<in> set (candidates (claimable_thumbnail now)
      (\<lambda>a. (ta_cleanupNextAttemptAt a, ta_cleanupEligibleAt a, collate (ta_id a))) n (thumbnail_attempts db))"
    and c: "c = thumbnail_objects (claimed_thumbnail now token r)"
    by (auto simp: claimEligibleThumbnailObjects_def run_tx_def Let_def bindR_eq_Inr split: sum.splits)
  then have "r \<in> set (thumbnail_attempts db)" "claimable_thumbnail now r"
    using candidates_sub by metis+
  moreover from this have "ta_cleanupState r \<noteq> Objects_pending" by (auto simp: claimable_thumbnail_def objects_due_def)
  moreover have "cl_object c = ta_objectKey r" by (simp add: c thumbnail_objects_def claimed_thumbnail_def)
  ultimately show ?thesis using assms(1) unfolding sound_def objects_placed_def by metis
qed
subsection \<open>Completing the deletion of an artifact\<close>

lemma sound_deletion_cleanups:
  assumes "sound K db" "\<And>d'. d' \<in> set T \<Longrightarrow> \<exists>d \<in> set (deletion_cleanups db). del_objectKeys d = del_objectKeys d'"
  shows "sound K (db\<lparr>deletion_cleanups := T\<rparr>)"
proof -
  have K: "content_object (db\<lparr>deletion_cleanups := T\<rparr>) = content_object db" by (rule content_object_cong) simp_all
  from assms(1) have db: "objects_placed db" "content_live db" "content_object db = K" by (simp_all add: sound_def)
  have "objects_placed (db\<lparr>deletion_cleanups := T\<rparr>)"
    unfolding objects_placed_def K
  proof (intro conjI ballI)
    fix d' k assume "d' \<in> set (deletion_cleanups (db\<lparr>deletion_cleanups := T\<rparr>))" "k \<in> set (del_objectKeys d')"
    then obtain d where "d \<in> set (deletion_cleanups db)" "k \<in> set (del_objectKeys d)" using assms(2) [of d'] by auto
    then show "starts_with ''raw/'' k" using db(1) unfolding objects_placed_def by blast
  qed (use db(1) in \<open>simp_all add: objects_placed_def\<close>)
  then show ?thesis using db K by (simp add: sound_def content_live_def)
qed

lemma sound_update_deletion_cleanups:
  assumes "update_deletion_cleanups p f db = Inr db'" "sound K db" "\<And>d. del_objectKeys (f d) = del_objectKeys d"
  shows "sound K db'"
proof -
  have "sound K (db\<lparr>deletion_cleanups := update_where p f (deletion_cleanups db)\<rparr>)"
    by (rule sound_deletion_cleanups [OF assms(2)]) (erule in_update_cases; metis assms(3))
  with assms(1) show ?thesis by (simp add: update_deletion_cleanups_Inr)
qed

text \<open>Versions that lose their bundle only leave less content in use.\<close>

lemma sound_versions:
  assumes "sound K db" "\<And>v. v \<in> set V \<Longrightarrow> ver_contentBundleId v \<noteq> None \<Longrightarrow> v \<in> set (artifact_versions db)"
  shows "sound (content_object (db\<lparr>artifact_versions := V\<rparr>)) (db\<lparr>artifact_versions := V\<rparr>)"
    and "content_object (db\<lparr>artifact_versions := V\<rparr>) k \<Longrightarrow> K k"
proof -
  let ?db = "db\<lparr>artifact_versions := V\<rparr>"
  from assms(1) have db: "objects_placed db" "content_live db" "content_object db = K" by (simp_all add: sound_def)
  have use: "bundle_in_use ?db b \<Longrightarrow> bundle_in_use db b" for b
    using assms(2) by (fastforce simp: bundle_in_use_def)
  have less: "content_object ?db k \<Longrightarrow> K k" for k
    using use unfolding db(3) [symmetric] content_object_def by auto
  show "content_object ?db k \<Longrightarrow> K k" by (rule less)
  have "content_live ?db" by (rule content_liveI [OF db(2)]) (use assms(2) in auto)
  moreover have "objects_placed ?db"
    using db(1) less unfolding objects_placed_def db(3) by simp blast
  ultimately show "sound (content_object ?db) ?db" by (simp add: sound_def)
qed

lemma bundle_cleanup_below:
  assumes "objects_placed db" "b \<in> set (content_bundles db)" "p \<in> set (bc_objectPrefixes (bundle_cleanup txnow b db))"
  shows "starts_with (bundle_root (cb_id b)) p"
proof -
  from assms(3) have "p = bundle_root (cb_id b)
      \<or> (\<exists>t \<in> set (processing_attempts db). attempt_named b t \<and> att_objectPrefix t = Some p)"
    by (auto simp: bundle_cleanup_def bundle_prefixes_def bundle_root_def List.map_filter_def)
  then show ?thesis using placed_bundle(2) [OF assms(1,2)] by (auto simp: starts_with_iff)
qed
definition without_bundle :: "js_string \<Rightarrow> artifact_version_row list \<Rightarrow> artifact_version_row list" where
  "without_bundle a = update_where (\<lambda>v. ver_artifactId v = a) (\<lambda>v. v\<lparr>ver_contentBundleId := None\<rparr>)"

definition freed_with :: "js_string \<Rightarrow> content_db \<Rightarrow> content_bundle_row \<Rightarrow> bool" where
  "freed_with a db b \<longleftrightarrow> bundle_of_artifact a db (cb_id b) \<and> \<not> used_elsewhere a db (cb_id b)"

definition freed_cleanups :: "time \<Rightarrow> js_string \<Rightarrow> content_db \<Rightarrow> bundle_cleanup_row list" where
  "freed_cleanups txnow a db = fold (\<lambda>b. insert_bundle_cleanup (bundle_cleanup txnow b db))
     (filter (freed_with a db) (content_bundles db)) (bundle_cleanups db)"

lemma sound_freed_bundles:
  fixes a :: js_string
  assumes "sound K db"
  defines "db1 \<equiv> db\<lparr>artifact_versions := without_bundle a (artifact_versions db)\<rparr>"
  shows "sound (content_object db1) (db1\<lparr>bundle_cleanups := freed_cleanups txnow a db,
      content_bundles := update_where (freed_with a db) (deleting_bundle txnow) (content_bundles db)\<rparr>)"
    and "content_object db1 k \<Longrightarrow> K k"
proof -
  let ?C = "freed_cleanups txnow a db"
  have sub: "v \<in> set (artifact_versions db)" if "v \<in> set (without_bundle a (artifact_versions db))" "ver_contentBundleId v \<noteq> None" for v
    using that(1) unfolding without_bundle_def by (rule in_update_cases) (use that(2) in auto)
  have 1: "sound (content_object db1) db1" unfolding db1_def by (rule sound_versions(1) [OF assms(1) sub])
  show "content_object db1 k \<Longrightarrow> K k" unfolding db1_def by (rule sound_versions(2) [OF assms(1) sub])
  have same: "content_bundles db1 = content_bundles db" "bundle_cleanups db1 = bundle_cleanups db" by (simp_all add: db1_def)
  have "sound (content_object db1) (db1\<lparr>bundle_cleanups := ?C,
      content_bundles := update_where (freed_with a db) (deleting_bundle txnow) (content_bundles db1)\<rparr>)"
  proof (rule sound_start_deleting [OF 1])
    show "\<not> bundle_in_use db1 (cb_id b)" if "freed_with a db b" for b
      using that by (auto simp: db1_def without_bundle_def freed_with_def bundle_in_use_def used_elsewhere_def exists_where_iff
          elim!: in_update_cases)
    fix c assume "c \<in> set ?C"
    then have "c \<in> set (fold insert_bundle_cleanup (map (\<lambda>b. bundle_cleanup txnow b db) (filter (freed_with a db) (content_bundles db)))
        (bundle_cleanups db))"
      by (simp add: freed_cleanups_def fold_map o_def)
    then have "c \<in> set (bundle_cleanups db) \<or> (\<exists>b \<in> set (content_bundles db). freed_with a db b \<and> c = bundle_cleanup txnow b db)"
      by (auto dest!: insert_cleanups_cases)
    then show "c \<in> set (bundle_cleanups db1) \<or> (\<exists>b \<in> set (content_bundles db1). freed_with a db b \<and> bc_bundleId c = cb_id b
        \<and> (\<forall>p \<in> set (bc_objectPrefixes c). starts_with (bundle_root (cb_id b)) p))"
    proof
      assume "\<exists>b \<in> set (content_bundles db). freed_with a db b \<and> c = bundle_cleanup txnow b db"
      then obtain b where "b \<in> set (content_bundles db)" "freed_with a db b" "c = bundle_cleanup txnow b db" by blast
      then show ?thesis using bundle_cleanup_below [of db b _ txnow] assms(1)
        by (intro disjI2 bexI [of _ b]) (simp_all add: sound_def same, simp add: bundle_cleanup_def)
    qed (simp add: same)
  qed (simp_all add: deleting_bundle_def)
  then show "sound (content_object db1) (db1\<lparr>bundle_cleanups := ?C,
      content_bundles := update_where (freed_with a db) (deleting_bundle txnow) (content_bundles db)\<rparr>)" by (simp add: same)
qed

lemma completed_deletion_cases:
  assumes "fst (completeArtifactDeletionCleanup txnow a token db) = db'"
  obtains "db' = db"
  | T where "db' = db\<lparr>deletion_cleanups := T\<rparr>" "set T \<subseteq> set (deletion_cleanups db)"
  | P where "artifact_versions db' = without_bundle a (artifact_versions db)"
      "content_bundles db' = update_where (freed_with a db) (deleting_bundle txnow) (content_bundles db)"
      "bundle_cleanups db' = freed_cleanups txnow a db"
      "bundle_assets db' = bundle_assets db" "bundle_manifests db' = bundle_manifests db"
      "processing_attempts db' = processing_attempts db" "thumbnail_attempts db' = thumbnail_attempts db"
      "deletion_cleanups db' = update_where P
         (\<lambda>c. c\<lparr>del_leaseOwner := None, del_leaseExpiresAt := None, del_nextAttemptAt := None,
           del_lastErrorCode := Some ''gallery_tombstone_retained''\<rparr>) (deletion_cleanups db)"
proof (cases "listed_artifact a db \<and> exists_where (\<lambda>c. del_artifactId c = a \<and> del_leaseOwner c = Some token) (deletion_cleanups db)")
  case False
  with assms show thesis
    by (auto simp: completeArtifactDeletionCleanup_def run_tx_def Let_def intro: that(1,2) split: if_splits)
next
  case True
  note freed = freed_with_def [of a db, abs_def, symmetric]
  show thesis
  proof (cases "snd (completeArtifactDeletionCleanup txnow a token db)")
    case (Inl e)
    with assms show thesis by (intro that(1)) (auto simp: completeArtifactDeletionCleanup_def run_tx_def split: sum.splits)
  next
    case (Inr u)
    with assms True show thesis
      by (intro that(3))
        (auto simp: completeArtifactDeletionCleanup_def run_tx_def Let_def bindR_eq_Inr update_bundles_Inr update_versions_Inr
          retain_tombstone_def remove_sharing_def without_bundle_def freed_cleanups_def freed split: sum.splits)
  qed
qed

lemma completed_deletion:
  assumes "sound K db"
  shows "\<exists>K'. sound K' (fst (completeArtifactDeletionCleanup txnow a token db)) \<and> (\<forall>k. K' k \<longrightarrow> K k)"
proof -
  let ?tomb = "\<lambda>c. c\<lparr>del_leaseOwner := None, del_leaseExpiresAt := None, del_nextAttemptAt := None,
      del_lastErrorCode := Some ''gallery_tombstone_retained''\<rparr>"
  obtain db' where db': "fst (completeArtifactDeletionCleanup txnow a token db) = db'" by simp
  from db' have "\<exists>K'. sound K' db' \<and> (\<forall>k. K' k \<longrightarrow> K k)"
  proof (cases rule: completed_deletion_cases)
    case 1
    with assms show ?thesis by blast
  next
    case (2 T)
    have "sound K db'" unfolding 2(1) by (rule sound_deletion_cleanups [OF assms]) (use 2(2) in auto)
    then show ?thesis by blast
  next
    case (3 P)
    let ?db1 = "db\<lparr>artifact_versions := without_bundle a (artifact_versions db)\<rparr>"
    have "sound (content_object ?db1) (?db1\<lparr>bundle_cleanups := freed_cleanups txnow a db,
        content_bundles := update_where (freed_with a db) (deleting_bundle txnow) (content_bundles db),
        deletion_cleanups := update_where P ?tomb (deletion_cleanups db)\<rparr>)"
      by (rule sound_deletion_cleanups [OF sound_freed_bundles(1) [OF assms]]) (auto elim!: in_update_cases)
    then have "sound (content_object ?db1) db'" by (rule sound_cong [THEN iffD2, rotated 8]) (simp_all add: 3)
    then show ?thesis using sound_freed_bundles(2) [OF assms] by blast
  qed
  with db' show ?thesis by simp
qed
lemma sound_claimArtifactDeletions:
  assumes "sound K db"
  shows "sound K (fst (claimArtifactDeletionCleanups collate token now t n db))"
  unfolding claimArtifactDeletionCleanups_def
  by (rule run_tx_cases [of "sound K", OF assms])
    (auto simp: Let_def bindR_eq_Inr claimed_deletion_def intro: sound_update_deletion_cleanups [OF _ assms])

lemma claimed_deletions_raw:
  assumes "sound K db" "snd (claimArtifactDeletionCleanups collate token now t n db) = Inr rows"
    and "c \<in> set rows" "key \<in> set (dc_objectKeys c)"
  shows "starts_with ''raw/'' key"
proof -
  from assms(2,3) obtain r where "r \<in> set (candidates (claimable_deletion now t db)
      (\<lambda>c. (del_nextAttemptAt c, del_createdAt c, collate (del_artifactId c))) n (deletion_cleanups db))"
    and c: "c = deletion_cleanup_row_of (claimed_deletion now token r)"
    by (auto simp: claimArtifactDeletionCleanups_def run_tx_def Let_def bindR_eq_Inr split: sum.splits)
  then have "r \<in> set (deletion_cleanups db)" using candidates_sub by metis
  moreover have "key \<in> set (del_objectKeys r)"
    using assms(4) by (simp add: c deletion_cleanup_row_of_def claimed_deletion_def)
  ultimately show ?thesis using assms(1) unfolding sound_def objects_placed_def by blast
qed

lemma sound_failArtifactDeletion:
  assumes "sound K db"
  shows "sound K (fst (failArtifactDeletionCleanup a token next e db))"
  unfolding failArtifactDeletionCleanup_def
  by (rule statement_cases [of "sound K", OF assms]) (erule sound_update_deletion_cleanups [OF _ assms], simp)

subsection \<open>The storage the reconciliation relies on\<close>

text \<open>
  A delete removes at most its object, a cleanup at most what lies below its prefix and its
  root, and a listing shows objects below its prefix with the times they were written. Any of
  them may fail.
\<close>

locale cleanup_objects =
  fixes stored :: "'s \<Rightarrow> js_string \<Rightarrow> MemoryObject option" and ops :: "'s cleanup_storage"
  assumes delete_other: "k \<noteq> key \<Longrightarrow> stored (fst (cs_deleteObject ops key s)) k = stored s k"
    and staging_other: "\<not> starts_with ''staging/'' k \<Longrightarrow> stored (fst (cs_removeStagingPrefix ops p s)) k = stored s k"
    and bundle_other: "\<not> starts_with p k \<Longrightarrow> stored (fst (cs_removeContentBundlePrefix ops p s)) k = stored s k"
    and bundle_removed: "cs_removeContentBundlePrefix ops p s = (s', Inr n) \<Longrightarrow> starts_with p k \<Longrightarrow> stored s' k = None"
    and listed_below: "cs_listObjects ops i s = Inr r \<Longrightarrow> x \<in> set (or_objects r) \<Longrightarrow> starts_with (ol_prefix i) (ss_key x)"
    and listed_time: "cs_listObjects ops i s = Inr r \<Longrightarrow> x \<in> set (or_objects r) \<Longrightarrow>
      \<exists>m. stored s (ss_key x) = Some m \<and> mo_lastModified m = ss_lastModified x"
begin

definition protected :: "(js_string \<Rightarrow> bool) \<Rightarrow> 's \<Rightarrow> content_db \<times> 's \<Rightarrow> bool" where
  "protected K s0 = (\<lambda>(db, s). sound K db \<and> (\<forall>k. K k \<longrightarrow> stored s k = stored s0 k))"

lemma protected_db:
  assumes "\<And>db. sound K db \<Longrightarrow> sound K (fst (f db))" and "\<And>db x. sound K db \<Longrightarrow> snd (f db) = Inr x \<Longrightarrow> Q x"
  shows "keeps (protected K s0) (on_db f) Q"
  by (rule keeps_on_db) (use assms in \<open>auto simp: protected_def\<close>)

lemma protected_delete:
  "\<not> K key \<Longrightarrow> keeps (protected K s0) (on_storage (cs_deleteObject ops key)) (\<lambda>_. True)"
  by (rule keeps_on_storage) (auto simp: protected_def, metis delete_other)

lemma protected_remove:
  "(\<And>k. K k \<Longrightarrow> \<not> starts_with p k) \<Longrightarrow> keeps (protected K s0) (on_storage (cs_removeContentBundlePrefix ops p)) (\<lambda>_. True)"
  by (rule keeps_on_storage) (auto simp: protected_def bundle_other)

lemma protected_call:
  "(\<And>db. sound K db \<Longrightarrow> sound K (fst (f db))) \<Longrightarrow> keeps (protected K s0) (on_db f) (\<lambda>_. True)"
  by (rule protected_db) simp_all

lemma protected_clean:
  assumes "re_storage env = ops"
  shows "(\<And>p k. p \<in> set (cc_objectPrefixes b) \<Longrightarrow> K k \<Longrightarrow> \<not> starts_with p k) \<Longrightarrow>
      keeps (protected K s0) (clean_bundle env b) (\<lambda>_. True)"
    and "(\<And>k. K k \<Longrightarrow> \<not> starts_with (cl_object a) k) \<Longrightarrow> keeps (protected K s0) (clean_attempt env a) (\<lambda>_. True)"
    and "\<not> K (cl_object t) \<Longrightarrow> keeps (protected K s0) (clean_thumbnail env t) (\<lambda>_. True)"
proof -
  assume "\<And>p k. p \<in> set (cc_objectPrefixes b) \<Longrightarrow> K k \<Longrightarrow> \<not> starts_with p k"
  then have "keeps (protected K s0) (each (\<lambda>p. on_storage (cs_removeContentBundlePrefix ops p)) (cc_objectPrefixes b)) (\<lambda>_. True)"
    by (intro keeps_each [where Q = "\<lambda>_. True"] protected_remove)
  then show "keeps (protected K s0) (clean_bundle env b) (\<lambda>_. True)"
    unfolding clean_bundle_def assms
    by (rule keeps_cleanup) (rule protected_call, erule sound_completeContentBundleCleanup sound_settled)+
next
  assume "\<And>k. K k \<Longrightarrow> \<not> starts_with (cl_object a) k"
  then show "keeps (protected K s0) (clean_attempt env a) (\<lambda>_. True)"
    unfolding clean_attempt_def assms
    by (rule keeps_cleanup [OF protected_remove]) (assumption, (rule protected_call, erule sound_settled)+)
next
  assume "\<not> K (cl_object t)"
  then show "keeps (protected K s0) (clean_thumbnail env t) (\<lambda>_. True)"
    unfolding clean_thumbnail_def assms
    by (rule keeps_cleanup [OF protected_delete]) (rule protected_call, erule sound_settled)+
qed

lemma protected_bundle_run:
  assumes "re_storage env = ops"
  shows "keeps (protected K s0) (run_bundle_deletions env t n) (\<lambda>_. True)"
  unfolding run_bundle_deletions_def
proof (rule keeps_andThen)
  show "keeps (protected K s0) (on_db (recoverExpiredCreatingBundles (re_collate env) (re_dbNow env []) t (re_now env) n)) (\<lambda>_. True)"
    by (rule protected_db) (simp_all add: sound_recoverExpiredCreatingBundles)
next
  fix u :: nat
  let ?B = "\<lambda>rows. \<forall>c \<in> set rows. \<forall>p \<in> set (cc_objectPrefixes c). \<forall>k. K k \<longrightarrow> \<not> starts_with p k"
  let ?A = "\<lambda>rows. \<forall>c \<in> set rows. \<forall>k. K k \<longrightarrow> \<not> starts_with (cl_object c) k"
  let ?T = "\<lambda>rows. \<forall>c \<in> set rows. \<not> K (cl_object c)"
  have b: "keeps (protected K s0) (on_db (claimContentBundleCleanups (re_collate env) (re_token env 0) (re_now env) (nat n))) ?B"
    by (rule protected_db) (simp add: sound_claims, metis claimed_bundles_free)
  have a: "keeps (protected K s0) (on_db (claimEligibleAttemptPrefixes (re_collate env) (re_token env 1) (re_now env) (nat n))) ?A"
    by (rule protected_db) (simp add: sound_claims, metis claimed_attempts_free)
  have t: "keeps (protected K s0) (on_db (claimEligibleThumbnailObjects (re_collate env) (re_token env 2) (re_now env) (nat n))) ?T"
    by (rule protected_db) (simp add: sound_claims, metis claimed_thumbnails_free)
  note clean = protected_clean [OF assms]
  show "keeps (protected K s0)
     (andThen (on_db (claimContentBundleCleanups (re_collate env) (re_token env 0) (re_now env) (nat n))) (\<lambda>bundles.
     andThen (on_db (claimEligibleAttemptPrefixes (re_collate env) (re_token env 1) (re_now env) (nat n))) (\<lambda>attempts.
     andThen (on_db (claimEligibleThumbnailObjects (re_collate env) (re_token env 2) (re_now env) (nat n))) (\<lambda>thumbs.
     andThen (each (clean_bundle env) bundles) (\<lambda>bs.
     andThen (each (clean_attempt env) attempts) (\<lambda>as.
     andThen (each (clean_thumbnail env) thumbs) (\<lambda>ts.
     give (\<lparr>rr_workType = Content_bundle_deletions,
            rr_scannedCount = length bundles + length attempts + length thumbs,
            rr_deletedCount = outcomes Cleaned bs + outcomes Cleaned as + outcomes Cleaned ts,
            rr_recoveredLeaseCount = 0, rr_nextCursor = None\<rparr>,
           \<lparr>log_bundleClaimed = length bundles, log_bundleCompleted = outcomes Cleaned bs,
            log_bundleFailed = outcomes Cleanup_failed bs,
            log_attemptClaimed = length attempts + length thumbs,
            log_attemptCompleted = outcomes Cleaned as + outcomes Cleaned ts,
            log_attemptFailed = outcomes Cleanup_failed as + outcomes Cleanup_failed ts\<rparr>))))))))
     (\<lambda>_. True)"
    by (rule keeps_andThen [OF b], rule keeps_andThen [OF a], rule keeps_andThen [OF t],
        (rule keeps_andThen [OF keeps_each], blast intro: clean)+) (simp add: keeps_give)
qed

text \<open>The other kinds of work touch nothing below the root of a bundle.\<close>

definition shielded :: "(js_string \<Rightarrow> bool) \<Rightarrow> 's \<Rightarrow> content_db \<times> 's \<Rightarrow> bool" where
  "shielded K0 s0 = (\<lambda>(db, s). (\<exists>K. sound K db \<and> (\<forall>k. K k \<longrightarrow> K0 k))
     \<and> (\<forall>k b. starts_with (bundle_root b) k \<longrightarrow> stored s k = stored s0 k))"

lemma shielded_db:
  assumes "\<And>K db. sound K db \<Longrightarrow> \<exists>K'. sound K' (fst (f db)) \<and> (\<forall>k. K' k \<longrightarrow> K k)"
    and "\<And>K db x. sound K db \<Longrightarrow> snd (f db) = Inr x \<Longrightarrow> Q x"
  shows "keeps (shielded K0 s0) (on_db f) Q"
  by (rule keeps_on_db) (use assms in \<open>unfold shielded_def prod.case, metis+\<close>)

lemma shielded_call:
  "(\<And>K db. sound K db \<Longrightarrow> sound K (fst (f db))) \<Longrightarrow> keeps (shielded K0 s0) (on_db f) (\<lambda>_. True)"
  by (rule shielded_db) blast+

lemma shielded_delete:
  assumes "starts_with ''raw/'' key \<or> starts_with ''staging/'' key"
  shows "keeps (shielded K0 s0) (on_storage (cs_deleteObject ops key)) (\<lambda>_. True)"
proof (rule keeps_on_storage)
  have "stored (fst (cs_deleteObject ops key s)) k = stored s k" if "starts_with (bundle_root b) k" for b k s
    using that assms raw_not_bundle by (intro delete_other) blast
  then show "shielded K0 s0 (db, fst (cs_deleteObject ops key s))" if "shielded K0 s0 (db, s)" for db s
    using that unfolding shielded_def prod.case by metis
qed

lemma shielded_staging: "keeps (shielded K0 s0) (on_storage (cs_removeStagingPrefix ops p)) (\<lambda>_. True)"
proof (rule keeps_on_storage)
  have "stored (fst (cs_removeStagingPrefix ops p s)) k = stored s k" if "starts_with (bundle_root b) k" for b k s
    using that raw_not_bundle by (intro staging_other) blast
  then show "shielded K0 s0 (db, fst (cs_removeStagingPrefix ops p s))" if "shielded K0 s0 (db, s)" for db s
    using that unfolding shielded_def prod.case by metis
qed

lemma shielded_artifact_run:
  assumes "re_storage env = ops"
  shows "keeps (shielded K0 s0) (run_artifact_deletions env t n) (\<lambda>_. True)"
  unfolding run_artifact_deletions_def
proof (rule keeps_andThen)
  let ?Q = "\<lambda>rows. \<forall>c \<in> set rows. \<forall>key \<in> set (dc_objectKeys c). starts_with ''raw/'' key"
  show "keeps (shielded K0 s0)
      (on_db (claimArtifactDeletionCleanups (re_collate env) (re_token env 0) (re_dbNow env []) t (nat n))) ?Q"
  proof (rule shielded_db)
    fix K db assume db: "sound K db"
    show "\<exists>K'. sound K' (fst (claimArtifactDeletionCleanups (re_collate env) (re_token env 0) (re_dbNow env []) t (nat n) db))
        \<and> (\<forall>k. K' k \<longrightarrow> K k)"
      using sound_claimArtifactDeletions [OF db] by blast
    fix rows assume "snd (claimArtifactDeletionCleanups (re_collate env) (re_token env 0) (re_dbNow env []) t (nat n) db) = Inr rows"
    then show "?Q rows" using claimed_deletions_raw [OF db] by metis
  qed
next
  fix rows :: "DeletionCleanupRow list" assume rows: "\<forall>c \<in> set rows. \<forall>key \<in> set (dc_objectKeys c). starts_with ''raw/'' key"
  have "keeps (shielded K0 s0) (clean_artifact env c) (\<lambda>_. True)" if "c \<in> set rows" for c
    unfolding clean_artifact_def assms
  proof (rule keeps_cleanup)
    show "keeps (shielded K0 s0) (all_settled
        (map (\<lambda>key. on_storage (cs_deleteObject ops key)) (dc_objectKeys c)
         @ map (\<lambda>p. ignoring (on_storage (cs_removeStagingPrefix ops p))) (dc_stagingPrefixes c))) (\<lambda>_. True)"
      using rows that by (intro keeps_all_settled) (auto intro: shielded_delete keeps_ignoring shielded_staging)
    show "keeps (shielded K0 s0) (on_db (completeArtifactDeletionCleanup (re_dbNow env (dc_artifactId c)) (dc_artifactId c)
        (dc_leaseToken c))) (\<lambda>_. True)"
      by (rule shielded_db) (erule completed_deletion, rule TrueI)
    show "keeps (shielded K0 s0) (on_db (failArtifactDeletionCleanup (dc_artifactId c) (dc_leaseToken c)
        (retry_at (re_dateNow env (dc_artifactId c)) (dc_attemptCount c)) object_cleanup_failed)) (\<lambda>_. True)"
      by (rule shielded_call) (rule sound_failArtifactDeletion)
  qed
  then show "keeps (shielded K0 s0) (andThen (each (clean_artifact env) rows) (\<lambda>xs.
     give \<lparr>rr_workType = Artifact_deletions, rr_scannedCount = length rows, rr_deletedCount = outcomes Cleaned xs,
           rr_recoveredLeaseCount = 0, rr_nextCursor = None\<rparr>)) (\<lambda>_. True)"
    by (intro keeps_andThen [OF keeps_each] keeps_give) auto
qed

lemma shielded_object_run:
  assumes "re_storage env = ops"
  shows "keeps (shielded K0 s0) (run_objects env w t n c) (\<lambda>_. True)"
  unfolding run_objects_def assms
proof (rule keeps_andThen)
  let ?Q = "\<lambda>page. \<forall>x \<in> set (or_objects page). starts_with (object_prefix_of w) (ss_key x)"
  show "keeps (shielded K0 s0) (on_storage (\<lambda>s. (s, cs_listObjects ops
         \<lparr>ol_prefix = object_prefix_of w, ol_limit = nat n, ol_cursor = truthy c\<rparr> s))) ?Q"
    by (rule keepsI) (auto simp: on_storage_def dest: listed_below split: prod.splits sum.splits)
next
  fix page :: ObjectListResult assume page: "\<forall>x \<in> set (or_objects page). starts_with (object_prefix_of w) (ss_key x)"
  let ?R = "\<lambda>keys. \<forall>key \<in> set keys. starts_with (object_prefix_of w) key"
  have "?R (removable_keys w (old_keys t page) db)" for db
    using page by (auto simp: removable_keys_def old_keys_def findRemovableRawObjectKeys_def findRemovableStagingObjectKeys_def Let_def)
  then have read: "keeps (shielded K0 s0) (on_db (\<lambda>db. (db, Inr (removable_keys w (old_keys t page) db)))) ?R"
    by (intro shielded_db) auto
  have del: "keeps (shielded K0 s0) (each (\<lambda>key. on_storage (cs_deleteObject ops key)) keys) (\<lambda>_. True)" if "?R keys" for keys
    using that by (intro keeps_each [where Q = "\<lambda>_. True"] shielded_delete) (auto simp: object_prefix_of_def split: if_splits)
  show "keeps (shielded K0 s0) (andThen (on_db (\<lambda>db. (db, Inr (removable_keys w (old_keys t page) db)))) (\<lambda>keys.
     andThen (each (\<lambda>key. on_storage (cs_deleteObject ops key)) keys) (\<lambda>_.
     give \<lparr>rr_workType = w, rr_scannedCount = length (or_objects page), rr_deletedCount = length keys,
           rr_recoveredLeaseCount = 0, rr_nextCursor = truthy (or_nextCursor page)\<rparr>))) (\<lambda>_. True)"
    by (rule keeps_andThen [OF read], rule keeps_andThen [OF del]) (simp_all add: keeps_give)
qed

lemma shielded_lease_run: "keeps (shielded K0 s0) (run_leases env t n) (\<lambda>_. True)"
  unfolding run_leases_def by (rule keeps_andThen [OF shielded_call]) (simp_all add: sound_recoverExpiredLeases keeps_give)

text \<open>Whatever a run does, what is in use afterwards was in use before, and its objects are as they were.\<close>

lemma run_keeps_content:
  assumes "re_storage env = ops" "sound K db"
  shows "\<exists>K'. sound K' (fst (fst (run_reconciliation env i (db, s)))) \<and>
    (\<forall>k. K' k \<longrightarrow> K k \<and> stored (snd (fst (run_reconciliation env i (db, s)))) k = stored s k)"
proof -
  have start: "protected K s (db, s)" "shielded K s (db, s)" using assms(2) by (auto simp: protected_def shielded_def)
  have shield: "\<exists>K'. sound K' (fst st) \<and> (\<forall>k. K' k \<longrightarrow> K k \<and> stored (snd st) k = stored s k)" if "shielded K s st" for st
  proof -
    from that obtain K' where K': "sound K' (fst st)" "\<forall>k. K' k \<longrightarrow> K k"
      and same: "\<forall>k b. starts_with (bundle_root b) k \<longrightarrow> stored (snd st) k = stored s k"
      by (auto simp: shielded_def split: prod.splits)
    have "stored (snd st) k = stored s k" if "K' k" for k
      using content_object_below [of "fst st" k] K'(1) that same unfolding sound_def by metis
    with K' show ?thesis by blast
  qed
  have protect: "\<exists>K'. sound K' (fst st) \<and> (\<forall>k. K' k \<longrightarrow> K k \<and> stored (snd st) k = stored s k)" if "protected K s st" for st
    using that by (auto simp: protected_def split: prod.splits)
  have log: "keeps P f (\<lambda>_. True) \<Longrightarrow> keeps P (without_log f) (\<lambda>_. True)" for P and f :: "('s, ReconciliationReport) work"
    unfolding without_log_def by (erule keeps_andThen) (simp add: keeps_give)
  show ?thesis
  proof (cases "validateInput i")
    case (Inl e)
    then show ?thesis using assms(2) by (auto simp: run_reconciliation_def)
  next
    case (Inr v)
    obtain n t where v: "v = (n, t)" by (cases v)
    note runs = keepsD(1) [OF log [OF shielded_lease_run] start(2)] keepsD(1) [OF log [OF shielded_artifact_run [OF assms(1)]] start(2)]
      keepsD(1) [OF log [OF shielded_object_run [OF assms(1)]] start(2)]
    have bundles: "keeps (protected K s) (andThen (run_bundle_deletions env t n) (\<lambda>(r, l). give (r, Some l))) (\<lambda>_. True)"
      by (rule keeps_andThen [OF protected_bundle_run [OF assms(1)]]) (auto simp: keeps_give)
    show ?thesis
      using shield [OF runs(1)] shield [OF runs(2)] shield [OF runs(3)] protect [OF keepsD(1) [OF bundles start(1)]]
      by (cases "ri_workType i") (simp_all add: run_reconciliation_def Inr v)
  qed
qed

end
interpretation memory_reconciliation: cleanup_objects map_of memory_cleanup
proof
  show "map_of (fst (cs_deleteObject memory_cleanup key s)) k = map_of s k" if "k \<noteq> key" for k key s
    using that by (simp add: memory_cleanup_def deleteObject_def AList.delete_conv)
  have removed: "map_of (fst (removePrefix p s)) k = (if starts_with p k then None else map_of s k)" for p k and s :: memory_objects
    by (induction s) (auto simp: removePrefix_def)
  show "map_of (fst (cs_removeStagingPrefix memory_cleanup p s)) k = map_of s k" if "\<not> starts_with ''staging/'' k" for k p s
  proof -
    have "starts_with p k \<Longrightarrow> starts_with ''staging/'' p \<Longrightarrow> False" using that by (auto simp: starts_with_iff)
    then show ?thesis
      by (auto simp: memory_cleanup_def removeStagingPrefix_def remove_below_def assertCleanupPrefix_def removed
          split: sum.splits if_splits)
  qed
  show "map_of (fst (cs_removeContentBundlePrefix memory_cleanup p s)) k = map_of s k" if "\<not> starts_with p k" for k p s
    using that by (auto simp: memory_cleanup_def removeContentBundlePrefix_def remove_below_def removed split: sum.splits)
  show "map_of s' k = None" if "cs_removeContentBundlePrefix memory_cleanup p s = (s', Inr n)" "starts_with p k" for k p s s' n
    using that removed [of p s k]
    by (cases "removePrefix p s") (auto simp: memory_cleanup_def removeContentBundlePrefix_def remove_below_def split: sum.splits)
  fix i s r x
  assume "cs_listObjects memory_cleanup i s = Inr r" "x \<in> set (or_objects r)"
  then obtain k where k: "k \<in> set (page_keys (listed_keys (map fst s) i) (ol_limit i))" "x = summary_of s k"
    by (auto simp: memory_cleanup_def listObjects_def Let_def)
  then have "k \<in> set (map fst s)" "starts_with (ol_prefix i) k"
    by (auto simp: page_keys_def listed_keys_def dest!: in_set_takeD)
  then obtain m where "map_of s k = Some m" by (metis map_of_eq_None_iff not_None_eq set_map)
  then show "starts_with (ol_prefix i) (ss_key x)" "\<exists>m. map_of s (ss_key x) = Some m \<and> mo_lastModified m = ss_lastModified x"
    using k(2) \<open>starts_with (ol_prefix i) k\<close> by (simp_all add: summary_of_def)
qed

subsection \<open>Content in use survives the reconciliation\<close>

fun reconcile ::
  "((memory_objects, 'k :: linorder) reconciliation_env \<times> ReconciliationInput) list
    \<Rightarrow> content_db \<times> memory_objects \<Rightarrow> content_db \<times> memory_objects" where
  "reconcile [] st = st"
| "reconcile ((env, i) # runs) st = reconcile runs (fst (run_reconciliation env i st))"

text \<open>
  C8: content in use survives the reconciliation. Over any sequence of runs of any kinds of
  work, successful or not, with the storage in memory: what some version still names
  afterwards was named before, and every object of it is exactly as it was; and the placement
  this rests on is kept.
\<close>

theorem content_in_use_survives_reconciliation:
  assumes "content_live db" "objects_placed db"
    and "\<forall>(env, i) \<in> set runs. re_storage env = memory_cleanup"
    and "reconcile runs (db, s) = (db', s')"
  shows "content_live db' \<and> objects_placed db' \<and>
    (\<forall>k. content_object db' k \<longrightarrow> content_object db k \<and> map_of s' k = map_of s k)"
  using assms
proof (induction runs arbitrary: db s)
  case (Cons run runs)
  obtain env i where run: "run = (env, i)" by (cases run)
  obtain db1 s1 where 1: "fst (run_reconciliation env i (db, s)) = (db1, s1)" by (metis prod.collapse)
  have "sound (content_object db) db" using Cons.prems(1,2) by (simp add: sound_def)
  from memory_reconciliation.run_keeps_content [OF _ this, of env i s] Cons.prems(3)
  have "sound (content_object db1) db1" "\<forall>k. content_object db1 k \<longrightarrow> content_object db k \<and> map_of s1 k = map_of s k"
    by (auto simp: run 1 sound_def)
  moreover from this have "content_live db' \<and> objects_placed db' \<and>
      (\<forall>k. content_object db' k \<longrightarrow> content_object db1 k \<and> map_of s' k = map_of s1 k)"
    by (intro Cons.IH) (use Cons.prems(3,4) in \<open>simp_all add: run 1 sound_def\<close>)
  ultimately show ?case by metis
qed simp

subsection \<open>Raw inputs and staging objects\<close>

lemma each_deleteObject:
  "each (\<lambda>key. on_storage (cs_deleteObject memory_cleanup key)) keys (db, s) =
     ((db, fold deleteObject keys s), Inr (map (\<lambda>_. ()) keys))"
  by (induction keys arbitrary: s) (simp_all add: give_def andThen_def on_storage_def memory_cleanup_def)

lemma map_of_deleted: "map_of (fold deleteObject keys s) k = (if k \<in> set keys then None else map_of s k)"
  by (induction keys arbitrary: s) (auto simp: deleteObject_def AList.delete_conv')

definition object_page :: "ReconciliationInput \<Rightarrow> int \<Rightarrow> memory_objects \<Rightarrow> ObjectListResult" where
  "object_page i n s = listObjects \<lparr>ol_prefix = object_prefix_of (ri_workType i), ol_limit = nat n, ol_cursor = truthy (ri_cursor i)\<rparr> s"

text \<open>A run over objects: of one page, the old objects the repository releases are deleted.\<close>

lemma object_run:
  fixes db :: content_db and s :: memory_objects
  assumes "re_storage env = memory_cleanup" "ri_workType i = Raw_objects \<or> ri_workType i = Staging_objects"
    and "validateInput i = Inr (n, cutoff)"
  defines "keys \<equiv> removable_keys (ri_workType i) (old_keys cutoff (object_page i n s)) db"
  shows "run_reconciliation env i (db, s) = ((db, fold deleteObject keys s), Inr
    (\<lparr>rr_workType = ri_workType i, rr_scannedCount = length (or_objects (object_page i n s)), rr_deletedCount = length keys,
      rr_recoveredLeaseCount = 0, rr_nextCursor = truthy (or_nextCursor (object_page i n s))\<rparr>, None))"
proof -
  have "run_reconciliation env i (db, s) = without_log (run_objects env (ri_workType i) cutoff n (ri_cursor i)) (db, s)"
    using assms(2,3) by (auto simp: run_reconciliation_def)
  also have "\<dots> = ((db, fold deleteObject keys s), Inr
    (\<lparr>rr_workType = ri_workType i, rr_scannedCount = length (or_objects (object_page i n s)), rr_deletedCount = length keys,
      rr_recoveredLeaseCount = 0, rr_nextCursor = truthy (or_nextCursor (object_page i n s))\<rparr>, None))"
  proof -
    let ?l = "\<lparr>ol_prefix = object_prefix_of (ri_workType i), ol_limit = nat n, ol_cursor = truthy (ri_cursor i)\<rparr>"
    have page: "on_storage (\<lambda>s. (s, cs_listObjects memory_cleanup ?l s)) (db, s) = ((db, s), Inr (object_page i n s))"
      by (simp add: on_storage_def memory_cleanup_def object_page_def)
    have read: "on_db (\<lambda>db. (db, Inr (removable_keys (ri_workType i) (old_keys cutoff (object_page i n s)) db))) (db, s)
        = ((db, s), Inr keys)" by (simp add: on_db_def keys_def)
    show ?thesis
      unfolding without_log_def run_objects_def assms(1)
      by (rule trans [OF andThen_Inr], rule trans [OF andThen_Inr], rule page, rule trans [OF andThen_Inr], rule read,
          rule trans [OF andThen_Inr], rule each_deleteObject) (simp_all add: give_def)
  qed
  finally show ?thesis .
qed

lemma removed_key:
  assumes "k \<in> set (removable_keys w (old_keys cutoff (object_page i n s)) db)"
  shows "starts_with (object_prefix_of (ri_workType i)) k" "\<exists>m. map_of s k = Some m \<and> mo_lastModified m < cutoff"
    "w = Raw_objects \<Longrightarrow> k \<in> set (findRemovableRawObjectKeys (old_keys cutoff (object_page i n s)) db)"
proof -
  from assms have "k \<in> set (old_keys cutoff (object_page i n s))"
    by (auto simp: removable_keys_def findRemovableRawObjectKeys_def findRemovableStagingObjectKeys_def Let_def split: if_splits)
  then obtain x where x: "x \<in> set (or_objects (object_page i n s))" "ss_lastModified x < cutoff" "k = ss_key x"
    by (auto simp: old_keys_def)
  let ?l = "\<lparr>ol_prefix = object_prefix_of (ri_workType i), ol_limit = nat n, ol_cursor = truthy (ri_cursor i)\<rparr>"
  have "cs_listObjects memory_cleanup ?l s = Inr (object_page i n s)" by (simp add: memory_cleanup_def object_page_def)
  note page = memory_reconciliation.listed_below [OF this x(1)] memory_reconciliation.listed_time [OF this x(1)]
  show "starts_with (object_prefix_of (ri_workType i)) k" "\<exists>m. map_of s k = Some m \<and> mo_lastModified m < cutoff"
    using page x(2,3) by auto
  show "w = Raw_objects \<Longrightarrow> k \<in> set (findRemovableRawObjectKeys (old_keys cutoff (object_page i n s)) db)"
    using assms by (simp add: removable_keys_def)
qed

text \<open>
  Cleaning raw inputs spares every input that is still needed. A run removes only objects
  below \<open>raw/\<close> that are older than the cutoff and whose every session is committed or
  superseded; everything else is as it was, and so is the database.
\<close>

theorem raw_cleanup_spares_needed_inputs:
  assumes "re_storage env = memory_cleanup" "ri_workType i = Raw_objects" "ri_olderThan i = Some cutoff"
    and "run_reconciliation env i (db, s) = ((db', s'), res)"
  shows "db' = db \<and> (\<forall>k. map_of s' k = map_of s k \<or>
    map_of s' k = None \<and> starts_with ''raw/'' k \<and> (\<exists>m. map_of s k = Some m \<and> mo_lastModified m < cutoff) \<and>
    (\<forall>u \<in> set (upload_sessions db). sess_rawObjectKey u = k \<longrightarrow> sess_supersededAt u \<noteq> None \<or> sess_state u = Session_committed))"
proof (cases "validateInput i")
  case (Inl e)
  with assms(4) show ?thesis by (simp add: run_reconciliation_def)
next
  case (Inr v)
  obtain n where v: "v = (n, cutoff)"
    using Inr assms(3) by (auto simp: validateInput_def split: option.splits if_splits)
  define keys where "keys = removable_keys (ri_workType i) (old_keys cutoff (object_page i n s)) db"
  from object_run [OF assms(1) disjI1 [OF assms(2)] Inr [unfolded v], of db s] assms(4)
  have eq: "db' = db" "s' = fold deleteObject keys s" by (simp_all add: keys_def)
  have "map_of s' k = map_of s k \<or>
    map_of s' k = None \<and> starts_with ''raw/'' k \<and> (\<exists>m. map_of s k = Some m \<and> mo_lastModified m < cutoff) \<and>
    (\<forall>u \<in> set (upload_sessions db). sess_rawObjectKey u = k \<longrightarrow> sess_supersededAt u \<noteq> None \<or> sess_state u = Session_committed)" for k
  proof (cases "k \<in> set keys")
    case True
    note removed_key [OF True [unfolded keys_def]]
    then show ?thesis using True assms(2)
      by (auto simp: eq map_of_deleted object_prefix_of_def findRemovableRawObjectKeys_def input_consumed_def list_all_iff)
  qed (simp add: eq map_of_deleted)
  with eq(1) show ?thesis by blast
qed

subsection \<open>Examples\<close>

definition example_bundle :: "js_string \<Rightarrow> bundle_lifecycle \<Rightarrow> content_bundle_row" where
  "example_bundle b state =
     \<lparr>cb_id = b, cb_ownerUserId = ''u1'', cb_contentIdentityRevision = ''c1'', cb_lifecycleState = state,
      cb_integrityState = Bundle_healthy, cb_creatorAttemptId = None, cb_creatorLeaseExpiresAt = None,
      cb_winningAttemptId = None, cb_readyAt = Some 1, cb_deletingAt = (if state = Bundle_deleting then Some 2 else None),
      cb_createdAt = 1, cb_updatedAt = 1\<rparr>"

definition example_attempt :: "js_string \<Rightarrow> js_string \<Rightarrow> object_cleanup_state \<Rightarrow> time \<Rightarrow> attempt_row" where
  "example_attempt t prefix state next =
     \<lparr>att_id = t, att_ownerUserId = ''u1'', att_jobId = t, att_attemptNumber = 1, att_state = Attempt_failed,
      att_stagingPrefix = ''staging/s/'', att_objectPrefix = Some prefix, att_writeDeadlineAt = None,
      att_cleanupState = state, att_cleanupEligibleAt = Some 0, att_cleanedAt = (if state = Objects_cleaned then Some 0 else None),
      att_cleanupLeaseOwner = None, att_cleanupLeaseExpiresAt = None, att_cleanupAttemptCount = 0,
      att_cleanupNextAttemptAt = next, att_cleanupLastErrorCode = None, att_reasonCode = None, att_startedAt = 0,
      att_finishedAt = Some 0\<rparr>"

definition example_cleanup :: "js_string \<Rightarrow> bundle_cleanup_row" where
  "example_cleanup b =
     \<lparr>bc_bundleId = b, bc_ownerUserId = ''u1'', bc_objectPrefixes = [bundle_root b], bc_state = Cleanup_pending,
      bc_quiesceAfter = 0, bc_leaseOwner = None, bc_leaseExpiresAt = None, bc_attemptCount = 0, bc_nextAttemptAt = 0,
      bc_lastErrorCode = None, bc_createdAt = 0, bc_completedAt = None\<rparr>"

definition example_version :: artifact_version_row where
  "example_version =
     \<lparr>ver_id = ''v1'', ver_artifactId = ''a1'', ver_ownerUserId = Some ''u1'',
      ver_contentBundleId = Some ''b1'', ver_rendererRevision = Some ''r'', ver_uploadSessionId = None,
      ver_versionNumber = 1, ver_createdAt = 1, ver_readyAt = 1\<rparr>"

definition example_asset :: asset_row where
  "example_asset =
     \<lparr>asset_bundleId = ''b1'', asset_ownerUserId = ''u1'', asset_path = ''i'',
      asset_objectKey = ''content-bundles/b1/i'', asset_sizeBytes = 1, asset_contentType = ''t'', asset_sha256 = None\<rparr>"

definition cleaned_db :: content_db where
  "cleaned_db = empty_content_db
     \<lparr>artifact_versions := [example_version],
      processing_attempts := [example_attempt ''t2'' ''content-bundles/b2/attempts/t2/'' Objects_eligible 0],
      content_bundles := [example_bundle ''b1'' Bundle_ready, example_bundle ''b2'' Bundle_deleting],
      bundle_assets := [example_asset],
      bundle_cleanups := [example_cleanup ''b2'']\<rparr>"

definition example_object :: MemoryObject where
  "example_object = \<lparr>mo_bytes = [], mo_contentType = None, mo_lastModified = 0\<rparr>"

definition example_env :: "time \<Rightarrow> (memory_objects, nat) reconciliation_env" where
  "example_env now = \<lparr>re_storage = memory_cleanup, re_leaseOwner = ''api'', re_collate = (\<lambda>_. 0), re_now = now,
     re_dbNow = (\<lambda>_. now), re_dateNow = (\<lambda>_. now), re_uuid = (\<lambda>_. ''x'')\<rparr>"

definition bundle_run :: ReconciliationInput where
  "bundle_run = \<lparr>ri_workType = Content_bundle_deletions, ri_olderThan = Some 0, ri_limit = Some 1, ri_cursor = None\<rparr>"

definition cleaned_objects :: memory_objects where
  "cleaned_objects = [(''content-bundles/b1/i'', example_object), (''content-bundles/b2/i'', example_object)]"

lemma cleaned_db_tables:
  "artifact_versions cleaned_db = [example_version]"
  "processing_attempts cleaned_db = [example_attempt ''t2'' ''content-bundles/b2/attempts/t2/'' Objects_eligible 0]"
  "content_bundles cleaned_db = [example_bundle ''b1'' Bundle_ready, example_bundle ''b2'' Bundle_deleting]"
  "bundle_assets cleaned_db = [example_asset]" "bundle_manifests cleaned_db = []"
  "bundle_cleanups cleaned_db = [example_cleanup ''b2'']" "thumbnail_attempts cleaned_db = []" "deletion_cleanups cleaned_db = []"
  by (simp_all add: cleaned_db_def empty_content_db_def empty_artifact_db_def artifact_db.defs)

lemma cleaned_db_facts: "content_live cleaned_db" "objects_placed cleaned_db"
proof -
  show "content_live cleaned_db" by (simp add: content_live_def cleaned_db_tables example_bundle_def example_version_def)
  have K: "content_object cleaned_db k \<longleftrightarrow> k = ''content-bundles/b1/i''" for k
    by (auto simp: content_object_def bundle_in_use_def cleaned_db_tables example_version_def example_asset_def)
  show "objects_placed cleaned_db"
    by (simp add: objects_placed_def K cleaned_db_tables attempt_named_def bundle_root_def example_bundle_def example_asset_def
        example_cleanup_def example_attempt_def)
qed

lemma content_in_use_survives_reconciliation_witness:
  "map_of (snd (reconcile [(example_env 100000, bundle_run)] (cleaned_db, cleaned_objects))) ''content-bundles/b1/i'' = Some example_object
   \<and> map_of (snd (reconcile [(example_env 100000, bundle_run)] (cleaned_db, cleaned_objects))) ''content-bundles/b2/i'' = None"
proof -
  let ?after = "reconcile [(example_env 100000, bundle_run)] (cleaned_db, cleaned_objects)"
  have used: "content_object (fst ?after) ''content-bundles/b1/i''" by code_simp
  have "\<forall>(env, i) \<in> set [(example_env 100000, bundle_run)]. re_storage env = memory_cleanup"
    by (simp add: example_env_def)
  from content_in_use_survives_reconciliation [OF cleaned_db_facts this surjective_pairing] used
  have "map_of (snd ?after) ''content-bundles/b1/i'' = map_of cleaned_objects ''content-bundles/b1/i''" by blast
  moreover have "map_of (snd ?after) ''content-bundles/b2/i'' = None" by code_simp
  ultimately show ?thesis by (simp add: cleaned_objects_def)
qed

definition raw_session :: "js_string \<Rightarrow> session_state \<Rightarrow> upload_session_row" where
  "raw_session key state =
     \<lparr>sess_id = key, sess_artifactId = ''a1'', sess_ownerUserId = ''u1'',
      sess_policy = \<lparr>pol_revision = ''1'', pol_archiveSizeBytes = 9, pol_expandedSizeBytes = 9, pol_fileCount = 9,
        pol_singleFileSizeBytes = 9, pol_formats = []\<rparr>,
      sess_rawObjectKey = key, sess_rawSizeBytes = 1, sess_requestedEntry = None, sess_state = state,
      sess_failureReasonCode = None, sess_failureSummary = None, sess_validationReport = None, sess_retryable = False,
      sess_supersededAt = None, sess_createdAt = 1, sess_updatedAt = 1\<rparr>"

definition raw_db :: content_db where
  "raw_db = empty_content_db\<lparr>upload_sessions :=
     [raw_session ''raw/1'' Session_committed, raw_session ''raw/2'' Session_failed]\<rparr>"

definition raw_objects_run :: ReconciliationInput where
  "raw_objects_run = \<lparr>ri_workType = Raw_objects, ri_olderThan = Some 5, ri_limit = Some 10, ri_cursor = None\<rparr>"

definition example_raws :: memory_objects where
  "example_raws = [(''raw/1'', example_object), (''raw/2'', example_object)]"

lemma raw_cleanup_spares_needed_inputs_witness:
  "map_of (snd (fst (run_reconciliation (example_env 9) raw_objects_run (raw_db, example_raws)))) ''raw/2'' = Some example_object
   \<and> map_of (snd (fst (run_reconciliation (example_env 9) raw_objects_run (raw_db, example_raws)))) ''raw/1'' = None"
proof -
  obtain db' s' res where run: "run_reconciliation (example_env 9) raw_objects_run (raw_db, example_raws) = ((db', s'), res)"
    by (metis prod.collapse)
  have env: "re_storage (example_env 9) = memory_cleanup" "ri_workType raw_objects_run = Raw_objects"
      "ri_olderThan raw_objects_run = Some 5"
    by (simp_all add: example_env_def raw_objects_run_def)
  have "map_of s' ''raw/2'' = map_of example_raws ''raw/2'' \<or> (\<forall>u \<in> set (upload_sessions raw_db). sess_rawObjectKey u = ''raw/2'' \<longrightarrow>
      sess_supersededAt u \<noteq> None \<or> sess_state u = Session_committed)"
    using raw_cleanup_spares_needed_inputs [OF env run] by blast
  moreover have "raw_session ''raw/2'' Session_failed \<in> set (upload_sessions raw_db)" by (simp add: raw_db_def)
  ultimately have "map_of s' ''raw/2'' = Some example_object"
    by (auto simp: raw_session_def example_raws_def)
  moreover have "map_of (snd (fst (run_reconciliation (example_env 9) raw_objects_run (raw_db, example_raws)))) ''raw/1'' = None"
    by code_simp
  ultimately show ?thesis by (simp add: run)
qed

end
