(* ===== verification/Reconciliation_Laws.thy ===== *)
theory Reconciliation_Laws
  imports Reconciliation_Safety
begin

text \<open>
  What the runs of the reconciliation achieve, and what they cannot: expired leases, late
  prefixes, finished and failed cleanups, and attempts whose cleanup never comes.
\<close>

subsection \<open>Expired leases\<close>

definition recovered_job :: "time \<Rightarrow> processing_job_row list \<Rightarrow> processing_job_row \<Rightarrow> processing_job_row" where
  "recovered_job txnow js r =
     (case row_where (\<lambda>j. job_id j = job_id r) js of
        None \<Rightarrow> r
      | Some j \<Rightarrow> if job_attemptCount j < job_maxAttempts j then requeued_job txnow r else exhausted_job txnow r)"

definition given_up :: "processing_job_row list \<Rightarrow> upload_session_row \<Rightarrow> bool" where
  "given_up js s \<longleftrightarrow> (\<exists>j \<in> set js. job_maxAttempts j \<le> job_attemptCount j \<and> job_uploadSessionId j = sess_id s)"

lemma recover_lease_Inr:
  assumes "recover_lease txnow j db = Inr db'"
  shows "processing_attempts db' = update_where (running_attempt j) (expired_attempt txnow) (processing_attempts db)"
    "\<exists>a \<in> set (processing_attempts db). running_attempt j a"
    "processing_jobs db' = map (recovered_job txnow [j]) (processing_jobs db)"
    "upload_sessions db' = update_where (given_up [j]) (interrupted_session txnow) (upload_sessions db)"
proof -
  have one: "length (filter (running_attempt j) (processing_attempts db)) = 1"
    using assms by (auto simp: recover_lease_def bindR_eq_Inr split: if_splits)
  then show "\<exists>a \<in> set (processing_attempts db). running_attempt j a"
    by (metis filter_empty_conv length_0_conv zero_neq_one)
  show "processing_attempts db' = update_where (running_attempt j) (expired_attempt txnow) (processing_attempts db)"
    using assms by (auto simp: recover_lease_def bindR_eq_Inr update_attempts_Inr update_jobs_Inr update_upload_sessions_Inr split: if_splits)
  have "processing_jobs db' = update_where (\<lambda>r. job_id r = job_id j)
      (if job_attemptCount j < job_maxAttempts j then requeued_job txnow else exhausted_job txnow) (processing_jobs db)"
    using assms by (auto simp: recover_lease_def bindR_eq_Inr update_attempts_Inr update_jobs_Inr update_upload_sessions_Inr split: if_splits)
  then show "processing_jobs db' = map (recovered_job txnow [j]) (processing_jobs db)"
    by (auto simp: update_where_def recovered_job_def)
  have "upload_sessions db' = (if job_attemptCount j < job_maxAttempts j then upload_sessions db
      else update_where (\<lambda>s. sess_id s = job_uploadSessionId j) (interrupted_session txnow) (upload_sessions db))"
    using assms by (auto simp: recover_lease_def bindR_eq_Inr update_attempts_Inr update_jobs_Inr update_upload_sessions_Inr split: if_splits)
  then show "upload_sessions db' = update_where (given_up [j]) (interrupted_session txnow) (upload_sessions db)"
    by (auto simp: given_up_def update_where_def)
qed

lemma recovered_job_simps [simp]: "job_id (recovered_job txnow js r) = job_id r"
  by (simp add: recovered_job_def requeued_job_def exhausted_job_def split: option.split)

lemma running_attempt_expired: "\<not> running_attempt j (expired_attempt txnow a)"
  by (simp add: running_attempt_def expired_attempt_def)

lemma recover_leases_Inr:
  assumes "recover_leases txnow js db = Inr db'" "distinct (map job_id js)"
  shows "processing_jobs db' = map (recovered_job txnow js) (processing_jobs db)
    \<and> upload_sessions db' = update_where (given_up js) (interrupted_session txnow) (upload_sessions db)
    \<and> processing_attempts db' = update_where (\<lambda>a. \<exists>j \<in> set js. running_attempt j a) (expired_attempt txnow) (processing_attempts db)
    \<and> (\<forall>j \<in> set js. \<exists>a \<in> set (processing_attempts db). running_attempt j a)"
  using assms
proof (induction js arbitrary: db)
  case Nil
  then show ?case by (simp add: recovered_job_def given_up_def update_where_def)
next
  case (Cons j js)
  then obtain db1 where 1: "recover_lease txnow j db = Inr db1" "recover_leases txnow js db1 = Inr db'" by (auto simp: bindR_eq_Inr)
  note step = recover_lease_Inr [OF 1(1)] and rest = Cons.IH [OF 1(2)]
  have "recovered_job txnow js (recovered_job txnow [j] r) = recovered_job txnow (j # js) r" for r
  proof (cases "job_id j = job_id r")
    case True
    then have "row_where (\<lambda>i. job_id i = job_id r) js = None" using Cons.prems(2) by (auto simp: row_where_None image_iff)
    with True show ?thesis by (simp add: recovered_job_def requeued_job_def exhausted_job_def)
  qed (simp add: recovered_job_def)
  then have jobs: "processing_jobs db' = map (recovered_job txnow (j # js)) (processing_jobs db)"
    using rest Cons.prems(2) step(3) by simp
  have sessions: "upload_sessions db' = update_where (given_up (j # js)) (interrupted_session txnow) (upload_sessions db)"
    using rest Cons.prems(2) step(4) by (auto simp: update_where_def given_up_def interrupted_session_def)
  have attempts: "processing_attempts db' = update_where (\<lambda>a. \<exists>i \<in> set (j # js). running_attempt i a) (expired_attempt txnow)
      (processing_attempts db)"
    using rest Cons.prems(2) step(1) by (auto simp: update_where_def running_attempt_expired)
  have "\<exists>a \<in> set (processing_attempts db). running_attempt i a" if "i \<in> set js" for i
  proof -
    have "\<forall>i \<in> set js. \<exists>a \<in> set (processing_attempts db1). running_attempt i a" using rest Cons.prems(2) by simp
    with that obtain a where "a \<in> set (processing_attempts db1)" "running_attempt i a" by blast
    then show ?thesis unfolding step(1) by (metis in_update_cases running_attempt_expired)
  qed
  with step(2) jobs sessions attempts show ?case by simp
qed

lemma recovered_rows:
  assumes "recoverExpiredLeases collate txnow t n db = (db', Inr m)" "unique_on (\<lambda>_. True) job_id (processing_jobs db)"
  defines "expired \<equiv> expired_jobs collate t n db"
  shows "m = length expired \<and> m \<le> n
    \<and> (\<forall>j \<in> set expired. lease_expired t j \<and> (\<exists>a \<in> set (processing_attempts db). running_attempt j a))
    \<and> processing_jobs db' = map (\<lambda>j. if j \<notin> set expired then j
        else if job_attemptCount j < job_maxAttempts j then requeued_job txnow j else exhausted_job txnow j) (processing_jobs db)
    \<and> upload_sessions db' = update_where (given_up expired) (interrupted_session txnow) (upload_sessions db)
    \<and> processing_attempts db' =
        update_where (\<lambda>a. \<exists>j \<in> set expired. running_attempt j a) (expired_attempt txnow) (processing_attempts db)"
proof -
  from assms(1) have run: "recover_leases txnow expired db = Inr db'" and m: "m = length expired"
    by (auto simp: recoverExpiredLeases_def run_tx_eq_Inr bindR_eq_Inr Let_def expired_def)
  have sub: "j \<in> set (processing_jobs db) \<and> lease_expired t j" if "j \<in> set expired" for j
    using that by (auto simp: expired_def expired_jobs_def dest: candidates_sub)
  have ids: "distinct (map job_id (processing_jobs db))" using assms(2) by (simp add: unique_on_def)
  have "distinct (map job_id expired)"
    unfolding expired_def expired_jobs_def candidates_def using ids
    by (simp add: take_map [symmetric] distinct_map_filter distinct_map inj_on_def)
  note rows = recover_leases_Inr [OF run this]
  have "recovered_job txnow expired j = (if j \<notin> set expired then j
        else if job_attemptCount j < job_maxAttempts j then requeued_job txnow j else exhausted_job txnow j)"
    if "j \<in> set (processing_jobs db)" for j
  proof (cases "row_where (\<lambda>i. job_id i = job_id j) expired")
    case None
    then have "j \<notin> set expired" by (auto simp: row_where_None)
    with None show ?thesis by (simp add: recovered_job_def)
  next
    case (Some i)
    then have "i \<in> set expired" "job_id i = job_id j" by (auto dest: row_where_Some)
    moreover from this have "i = j" using sub that ids by (metis distinct_map inj_on_def)
    ultimately show ?thesis using Some by (simp add: recovered_job_def)
  qed
  then show ?thesis using rows m sub by (simp add: expired_def expired_jobs_def length_candidates)
qed

lemma recover_leases_frame:
  "recover_leases txnow js db = Inr db' \<Longrightarrow>
     \<exists>xs ys zs. db' = db\<lparr>processing_jobs := xs, upload_sessions := ys, processing_attempts := zs\<rparr>"
proof (induction js arbitrary: db)
  case Nil
  then have "db' = db\<lparr>processing_jobs := processing_jobs db, upload_sessions := upload_sessions db,
      processing_attempts := processing_attempts db\<rparr>" by simp
  then show ?case by blast
next
  case (Cons j js)
  then obtain db1 where 1: "recover_lease txnow j db = Inr db1" "recover_leases txnow js db1 = Inr db'"
    by (auto simp: bindR_eq_Inr)
  have "db1 = db\<lparr>processing_jobs := processing_jobs db1, upload_sessions := upload_sessions db1,
      processing_attempts := processing_attempts db1\<rparr>"
    using 1(1) by (auto simp: recover_lease_def bindR_eq_Inr update_attempts_Inr update_jobs_Inr update_upload_sessions_Inr
        split: if_splits)
  then obtain us vs ws where db1: "db1 = db\<lparr>processing_jobs := us, upload_sessions := vs, processing_attempts := ws\<rparr>"
    by blast
  obtain xs ys zs where db': "db' = db1\<lparr>processing_jobs := xs, upload_sessions := ys, processing_attempts := zs\<rparr>"
    using Cons.IH [OF 1(2)] by blast
  have "db' = db\<lparr>processing_jobs := xs, upload_sessions := ys, processing_attempts := zs\<rparr>"
    unfolding db' db1 by simp
  then show ?case by blast
qed

text \<open>The rows selected are the first ones in the order of the query.\<close>

lemma candidates_lowest:
  assumes "r \<in> set (candidates p key n xs)" "q \<in> set xs" "p q" "q \<notin> set (candidates p key n xs)"
  shows "key r \<le> key q"
proof -
  let ?ys = "sort_key key (filter p xs)"
  have "q \<in> set (take n ?ys @ drop n ?ys)" using assms(2,3) unfolding append_take_drop_id by simp
  with assms(4) have "q \<in> set (drop n ?ys)" by (simp add: candidates_def del: append_take_drop_id)
  moreover have "r \<in> set (take n ?ys)" using assms(1) by (simp add: candidates_def)
  moreover have "sorted (map key (take n ?ys @ drop n ?ys))" unfolding append_take_drop_id by simp
  ultimately show ?thesis by (auto simp: sorted_append simp del: append_take_drop_id)
qed

text \<open>
  C34: expired leases are recovered exactly. When the recovery succeeds, it took as many of the
  running jobs with an expired lease as the limit allows, those that expired first, and every one
  of them had its running attempt. A job with attempts left waits in the queue again, without
  lease, and any other is failed; the session of a failed one is failed with the reason the owner
  sees and may be retried; the running attempts of all of them are failed and finished. No other
  job, session or attempt and no other table changed.
\<close>

theorem expired_leases_are_recovered:
  assumes "recoverExpiredLeases collate txnow t n db = (db', Inr m)" "unique_on (\<lambda>_. True) job_id (processing_jobs db)"
  defines "expired \<equiv> expired_jobs collate t n db"
  shows "m = length expired \<and> distinct expired
    \<and> m = min n (length (filter (\<lambda>j. job_state j = Running \<and> (\<exists>e. job_leaseExpiresAt j = Some e \<and> e \<le> t)) (processing_jobs db)))
    \<and> (\<forall>j \<in> set expired. j \<in> set (processing_jobs db) \<and> job_state j = Running
        \<and> (\<exists>e. job_leaseExpiresAt j = Some e \<and> e \<le> t
            \<and> (\<forall>i \<in> set (processing_jobs db). \<forall>e'. i \<notin> set expired \<and> job_state i = Running \<and> job_leaseExpiresAt i = Some e' \<longrightarrow> e \<le> e'))
        \<and> (\<exists>a \<in> set (processing_attempts db).
            att_jobId a = job_id j \<and> att_attemptNumber a = job_attemptCount j \<and> att_state a = Attempt_running))
    \<and> db' = db\<lparr>processing_jobs := map (\<lambda>j. if j \<notin> set expired then j
          else if job_attemptCount j < job_maxAttempts j then
            j\<lparr>job_state := Queued, job_availableAt := txnow, job_leaseOwner := None, job_leaseExpiresAt := None,
              job_heartbeatAt := None, job_updatedAt := txnow\<rparr>
          else j\<lparr>job_state := Failed, job_leaseOwner := None, job_leaseExpiresAt := None, job_heartbeatAt := None,
              job_updatedAt := txnow\<rparr>) (processing_jobs db),
        upload_sessions := map (\<lambda>s. if \<exists>j \<in> set expired. job_maxAttempts j \<le> job_attemptCount j \<and> job_uploadSessionId j = sess_id s
          then s\<lparr>sess_state := Session_failed, sess_failureReasonCode := Some ''processing_lease_expired'',
            sess_failureSummary := Some ''Processing was interrupted.'', sess_retryable := True, sess_updatedAt := txnow\<rparr>
          else s) (upload_sessions db),
        processing_attempts := map (\<lambda>a. if \<exists>j \<in> set expired. att_jobId a = job_id j \<and> att_attemptNumber a = job_attemptCount j
              \<and> att_state a = Attempt_running
          then a\<lparr>att_state := Attempt_failed, att_reasonCode := Some ''processing_lease_expired'', att_finishedAt := Some txnow\<rparr>
          else a) (processing_attempts db)\<rparr>"
proof -
  have "recover_leases txnow expired db = Inr db'"
    using assms(1) by (auto simp: recoverExpiredLeases_def run_tx_eq_Inr bindR_eq_Inr Let_def expired_def)
  then obtain xs ys zs where frame: "db' = db\<lparr>processing_jobs := xs, upload_sessions := ys, processing_attempts := zs\<rparr>"
    using recover_leases_frame by blast
  note rows = recovered_rows [OF assms(1,2), folded expired_def]
  have lease: "lease_expired t = (\<lambda>j. job_state j = Running \<and> (\<exists>e. job_leaseExpiresAt j = Some e \<and> e \<le> t))"
    by (rule ext) (auto simp: lease_expired_def split: option.split)
  have sub: "j \<in> set (processing_jobs db)" if "j \<in> set expired" for j
    using that by (auto simp: expired_def expired_jobs_def dest: candidates_sub)
  have first: "e \<le> e'" if "j \<in> set expired" "job_leaseExpiresAt j = Some e" "i \<in> set (processing_jobs db)" "i \<notin> set expired"
      "job_state i = Running" "job_leaseExpiresAt i = Some e'" for i j e e'
  proof (cases "e' \<le> t")
    case True
    then have "lease_expired t i" using that by (simp add: lease)
    from candidates_lowest [OF that(1) [unfolded expired_def expired_jobs_def] that(3) this that(4) [unfolded expired_def expired_jobs_def]]
    show ?thesis using that by (auto simp: less_eq_prod_def)
  next
    case False
    have "lease_expired t j" using rows that(1) by blast
    with that(2) have "e \<le> t" by (simp add: lease)
    with False show ?thesis by simp
  qed
  have "distinct (processing_jobs db)" using assms(2) by (simp add: unique_on_def distinct_map)
  then have dist: "distinct expired" by (simp add: expired_def expired_jobs_def candidates_def)
  have m: "m = length expired" using rows by blast
  then have count: "m = min n (length (filter (lease_expired t) (processing_jobs db)))"
    by (simp add: expired_def expired_jobs_def candidates_def min.commute)
  note updates = rows [unfolded update_where_def requeued_job_def exhausted_job_def interrupted_session_def expired_attempt_def
      given_up_def running_attempt_def]
  let ?jobs = "map (\<lambda>j. if j \<notin> set expired then j
          else if job_attemptCount j < job_maxAttempts j then
            j\<lparr>job_state := Queued, job_availableAt := txnow, job_leaseOwner := None, job_leaseExpiresAt := None,
              job_heartbeatAt := None, job_updatedAt := txnow\<rparr>
          else j\<lparr>job_state := Failed, job_leaseOwner := None, job_leaseExpiresAt := None, job_heartbeatAt := None,
              job_updatedAt := txnow\<rparr>) (processing_jobs db)"
  let ?sessions = "map (\<lambda>s. if \<exists>j \<in> set expired. job_maxAttempts j \<le> job_attemptCount j \<and> job_uploadSessionId j = sess_id s
          then s\<lparr>sess_state := Session_failed, sess_failureReasonCode := Some ''processing_lease_expired'',
            sess_failureSummary := Some ''Processing was interrupted.'', sess_retryable := True, sess_updatedAt := txnow\<rparr>
          else s) (upload_sessions db)"
  let ?attempts = "map (\<lambda>a. if \<exists>j \<in> set expired. att_jobId a = job_id j \<and> att_attemptNumber a = job_attemptCount j
              \<and> att_state a = Attempt_running
          then a\<lparr>att_state := Attempt_failed, att_reasonCode := Some ''processing_lease_expired'', att_finishedAt := Some txnow\<rparr>
          else a) (processing_attempts db)"
  have parts: "processing_jobs db' = ?jobs" "upload_sessions db' = ?sessions" "processing_attempts db' = ?attempts"
    using updates by blast+
  have "xs = ?jobs" "ys = ?sessions" "zs = ?attempts"
    unfolding parts [symmetric] frame by simp_all
  then have tables: "db' = db\<lparr>processing_jobs := ?jobs, upload_sessions := ?sessions, processing_attempts := ?attempts\<rparr>"
    unfolding frame by (simp only:)
  show ?thesis
  proof (intro conjI ballI)
    show "m = length expired" "distinct expired" by (rule m, rule dist)
    show "m = min n (length (filter (\<lambda>j. job_state j = Running \<and> (\<exists>e. job_leaseExpiresAt j = Some e \<and> e \<le> t)) (processing_jobs db)))"
      using count unfolding lease .
  next
    fix j assume j: "j \<in> set expired"
    then have "lease_expired t j" using rows by blast
    with j first show "j \<in> set (processing_jobs db)" "job_state j = Running"
      "\<exists>e. job_leaseExpiresAt j = Some e \<and> e \<le> t \<and> (\<forall>i \<in> set (processing_jobs db). \<forall>e'. i \<notin> set expired \<and> job_state i = Running
        \<and> job_leaseExpiresAt i = Some e' \<longrightarrow> e \<le> e')"
      by (auto simp: lease sub)
    show "\<exists>a \<in> set (processing_attempts db).
        att_jobId a = job_id j \<and> att_attemptNumber a = job_attemptCount j \<and> att_state a = Attempt_running"
      using updates j by blast
  qed (rule tables)
qed

text \<open>
  One missing attempt stops the whole recovery. If any selected job has no running attempt,
  the recovery raises and every expired lease stays as it is.
\<close>

theorem missing_attempt_blocks_recovery:
  assumes "j \<in> set (expired_jobs collate t n db)" "\<not> (\<exists>a \<in> set (processing_attempts db). running_attempt j a)"
  shows "\<exists>e. recoverExpiredLeases collate txnow t n db = (db, Inl e)"
proof -
  have blocked: "\<exists>e. recover_leases txnow js d = Inl e"
    if "j \<in> set js" "\<not> (\<exists>a \<in> set (processing_attempts d). running_attempt j a)" for js d
    using that
  proof (induction js arbitrary: d)
    case (Cons i js)
    show ?case
    proof (cases "recover_lease txnow i d")
      case (Inr d1)
      with recover_lease_Inr(2) [OF Inr] Cons.prems have "j \<in> set js" by auto
      moreover have "\<not> (\<exists>a \<in> set (processing_attempts d1). running_attempt j a)"
        unfolding recover_lease_Inr(1) [OF Inr] using Cons.prems(2) running_attempt_expired by (metis in_update_cases)
      ultimately show ?thesis using Cons.IH Inr by simp
    qed simp
  qed simp
  from blocked [OF assms] show ?thesis by (auto simp: recoverExpiredLeases_def run_tx_def Let_def)
qed

subsection \<open>Bundle cleanups\<close>

lemma string_array_inject [simp]: "string_array xs = string_array ys \<longleftrightarrow> xs = ys"
proof
  have plain: "json_parse (string_array zs) = Some (JArr (map JStr zs))" for zs
    unfolding string_array_def by (rule json_parse_stringify) (simp add: list_all_iff)
  assume "string_array xs = string_array ys"
  then have "map JStr xs = map JStr ys" using plain [of xs] plain [of ys] by simp
  then show "xs = ys" by (simp add: inj_map_eq_map inj_on_def)
qed simp

lemma held_row:
  assumes "unique_on (\<lambda>_. True) bc_bundleId T" "r \<in> set T" "held_cleanup b token r"
  shows "row_where (held_cleanup b token) T = Some r"
proof (cases "row_where (held_cleanup b token) T")
  case None
  then show ?thesis using assms(2,3) by (auto simp: row_where_None)
next
  case (Some q)
  then have "q \<in> set T" "held_cleanup b token q" by (auto dest: row_where_Some)
  then have "q = r" using unique_onD [OF assms(1), of q r] assms(2,3) by (simp add: held_cleanup_def)
  with Some show ?thesis by simp
qed

lemma claimContentBundleCleanups_Inr:
  assumes "claimContentBundleCleanups collate token now n db = (db1, Inr rows)"
  obtains cs where "set cs \<subseteq> set (bundle_cleanups db)"
    "rows = map (\<lambda>c. bundle_cleanup_row_of (claimed_bundle_cleanup now token c)) cs"
    "db1 = db\<lparr>bundle_cleanups := update_where (among bc_bundleId cs) (claimed_bundle_cleanup now token) (bundle_cleanups db)\<rparr>"
proof -
  let ?cs = "candidates (claimable_bundle_cleanup now) (\<lambda>c. (bc_nextAttemptAt c, bc_createdAt c, collate (bc_bundleId c))) n
    (bundle_cleanups db)"
  have "set ?cs \<subseteq> set (bundle_cleanups db)" by (auto dest: candidates_sub)
  moreover have "rows = map (\<lambda>c. bundle_cleanup_row_of (claimed_bundle_cleanup now token c)) ?cs"
    "db1 = db\<lparr>bundle_cleanups := update_where (among bc_bundleId ?cs) (claimed_bundle_cleanup now token) (bundle_cleanups db)\<rparr>"
    using assms by (simp_all add: claimContentBundleCleanups_def run_tx_eq_Inr bindR_eq_Inr update_bundle_cleanups_Inr Let_def)
  ultimately show thesis by (rule that)
qed

text \<open>
  C33: a prefix recorded late is not lost. When a writer records another prefix while a cleanup
  is under way, the completion of that cleanup reports false, the bundle stays, and its cleanup
  waits again with all the prefixes, the late one included.
\<close>

theorem late_prefix_is_not_lost:
  assumes "claimContentBundleCleanups collate token now n db = (db1, Inr rows)" "c \<in> set rows"
    and "bundle_cleanups_unique (bundle_cleanups db)"
    and "recordLateContentBundlePrefix (cc_bundleId c) p db1 = (db2, Inr True)" "p \<notin> set (cc_objectPrefixes c)"
    and "completeContentBundleCleanup txnow (cc_bundleId c) token (cc_objectPrefixes c) db2 = (db3, res)"
  shows "res = Inr False \<and> content_bundles db3 = content_bundles db \<and>
    (\<exists>r \<in> set (bundle_cleanups db3). bc_bundleId r = cc_bundleId c \<and> bc_state r = Cleanup_pending
      \<and> bc_nextAttemptAt r = txnow \<and> bc_objectPrefixes r = cc_objectPrefixes c @ [p])"
proof -
  let ?b = "cc_bundleId c"
  from claimContentBundleCleanups_Inr [OF assms(1)] obtain cs where
    "set cs \<subseteq> set (bundle_cleanups db)" "rows = map (\<lambda>c. bundle_cleanup_row_of (claimed_bundle_cleanup now token c)) cs"
    and db1: "db1 = db\<lparr>bundle_cleanups := update_where (among bc_bundleId cs) (claimed_bundle_cleanup now token) (bundle_cleanups db)\<rparr>"
    by metis
  with assms(2) obtain r0 where cs: "r0 \<in> set cs" "r0 \<in> set (bundle_cleanups db)"
      "c = bundle_cleanup_row_of (claimed_bundle_cleanup now token r0)" by auto
  have T1: "bundle_cleanups db1 = update_where (among bc_bundleId cs) (claimed_bundle_cleanup now token) (bundle_cleanups db)"
      "content_bundles db1 = content_bundles db" by (simp_all add: db1)
  define r1 where "r1 = claimed_bundle_cleanup now token r0"
  define r2 where "r2 = with_prefix p r1"
  from assms(4) have T2: "bundle_cleanups db2 = update_where (open_cleanup ?b) (with_prefix p) (bundle_cleanups db1)"
      "content_bundles db2 = content_bundles db1" "list_all bundle_cleanup_row_ok (bundle_cleanups db2)"
    by (auto simp: recordLateContentBundlePrefix_def run_tx_eq_Inr bindR_eq_Inr update_bundle_cleanups_Inr)
  have r1: "r1 \<in> set (bundle_cleanups db1)" "bc_bundleId r1 = ?b" "bc_state r1 = Cleanup_running"
      "bc_leaseOwner r1 = Some token" "bc_objectPrefixes r1 = cc_objectPrefixes c"
    using cs by (auto simp: r1_def T1(1) in_update_where among_iff claimed_bundle_cleanup_def bundle_cleanup_row_of_def
        intro!: bexI [of _ r0])
  have r2: "r2 \<in> set (bundle_cleanups db2)" "held_cleanup ?b token r2" "bc_objectPrefixes r2 = cc_objectPrefixes c @ [p]"
      "bc_bundleId r2 = ?b"
    using r1 assms(5) by (auto simp: r2_def T2(1) in_update_where open_cleanup_def held_cleanup_def with_prefix_def intro!: bexI [of _ r1])
  have "map bc_bundleId (bundle_cleanups db2) = map bc_bundleId (bundle_cleanups db)"
    unfolding T2(1) T1(1) by (simp add: map_update_where_same with_prefix_def claimed_bundle_cleanup_def)
  then have unique: "unique_on (\<lambda>_. True) bc_bundleId (bundle_cleanups db2)"
    using assms(3) by (simp add: bundle_cleanups_unique_def unique_on_def)
  let ?p = "\<lambda>c. bc_bundleId c = ?b \<and> bc_leaseOwner c = Some token"
  let ?f = "\<lambda>c. c\<lparr>bc_state := Cleanup_pending, bc_leaseOwner := None, bc_leaseExpiresAt := None, bc_nextAttemptAt := txnow\<rparr>"
  have only: "q = r2" if "q \<in> set (bundle_cleanups db2)" "?p q" for q
    using unique_onD [OF unique that(1) r2(1)] that(2) r2(4) by simp
  have "list_all bundle_cleanup_row_ok (update_where ?p ?f (bundle_cleanups db2))"
  proof (rule list_all_update_where)
    fix q assume q: "q \<in> set (bundle_cleanups db2)"
    with T2(3) have "bundle_cleanup_row_ok q" by (simp add: list_all_iff)
    then show "bundle_cleanup_row_ok (if ?p q then ?f q else q)"
      using only [OF q] r2(2) by (auto simp: bundle_cleanup_row_ok_def held_cleanup_def)
  qed
  then have "completeContentBundleCleanup txnow ?b token (cc_objectPrefixes c) db2
      = (db2\<lparr>bundle_cleanups := update_where ?p ?f (bundle_cleanups db2)\<rparr>, Inr False)"
    using held_row [OF unique r2(1,2)] r2(3)
    by (simp add: completeContentBundleCleanup_def run_tx_eq_Inr bindR_eq_Inr update_bundle_cleanups_Inr)
  with assms(6) have "res = Inr False" "db3 = db2\<lparr>bundle_cleanups := update_where ?p ?f (bundle_cleanups db2)\<rparr>" by simp_all
  moreover have "?f r2 \<in> set (update_where ?p ?f (bundle_cleanups db2))"
    using r2 by (auto simp: in_update_where held_cleanup_def intro!: bexI [of _ r2])
  ultimately show ?thesis using r2 T1(2) T2(2) by (intro conjI bexI [of _ "?f r2"]) (simp_all add: held_cleanup_def)
qed

lemma each_removed:
  assumes "each (\<lambda>p. on_storage (cs_removeContentBundlePrefix memory_cleanup p)) ps (db, s) = ((db1, s1), r)"
  shows "db1 = db \<and> ((\<forall>p \<in> set ps. \<not> starts_with p k) \<longrightarrow> map_of s1 k = map_of s k)
    \<and> ((\<exists>xs. r = Inr xs) \<longrightarrow> (\<exists>p \<in> set ps. starts_with p k) \<longrightarrow> map_of s1 k = None)"
  using assms
proof (induction ps arbitrary: s r)
  case (Cons q ps)
  let ?rm = "\<lambda>p. on_storage (cs_removeContentBundlePrefix memory_cleanup p)"
  obtain s2 r2 where q: "cs_removeContentBundlePrefix memory_cleanup q s = (s2, r2)" by (cases "cs_removeContentBundlePrefix memory_cleanup q s")
  have one: "?rm q (db, s) = (case r2 of Inl e \<Rightarrow> ((db, s2), Inl (Objects_failed e)) | Inr n \<Rightarrow> ((db, s2), Inr n))"
    by (cases r2) (simp_all add: on_storage_def q)
  have other: "map_of s2 k = map_of s k" if "\<not> starts_with q k"
    using memory_reconciliation.bundle_other [OF that, of s] q by simp
  show ?case
  proof (cases r2)
    case (Inl e)
    then show ?thesis using Cons.prems other one by (auto simp: andThen_def)
  next
    case (Inr n)
    obtain r3 where rest: "each ?rm ps (db, s2) = ((db1, s1), r3)" and r3: "(\<exists>xs. r = Inr xs) \<longrightarrow> (\<exists>ys. r3 = Inr ys)"
      using Cons.prems one Inr by (auto simp: andThen_def give_def split: prod.splits sum.splits)
    have "map_of s2 k = None" if "starts_with q k"
      using memory_reconciliation.bundle_removed [OF q [unfolded Inr] that] .
    then show ?thesis using Cons.IH [OF rest] r3 other by auto
  qed
qed (simp add: give_def)

definition bundle_work :: "('s, 'k) reconciliation_env \<Rightarrow> ContentBundleCleanupRow \<Rightarrow> ('s, cleanup_outcome) work" where
  "bundle_work env c =
     andThen (each (\<lambda>p. on_storage (cs_removeContentBundlePrefix (re_storage env) p)) (cc_objectPrefixes c)) (\<lambda>_.
     andThen (on_db (completeContentBundleCleanup (re_dbNow env (cc_bundleId c)) (cc_bundleId c) (cc_leaseToken c)
       (cc_objectPrefixes c))) (\<lambda>completed.
     give (if completed then Cleaned else Not_cleaned)))"

lemma completed_bundle:
  assumes "completeContentBundleCleanup txnow b token ps db = (db', Inr True)"
  shows "\<exists>r. row_where (held_cleanup b token) (bundle_cleanups db) = Some r \<and> bc_objectPrefixes r = ps"
    and "\<not> bundle_in_use db b" and "artifact_versions db' = artifact_versions db"
    and "content_bundles db' = filter (\<lambda>r. cb_id r \<noteq> b) (content_bundles db)"
    and "bundle_cleanups db' = filter (\<lambda>r. bc_bundleId r \<noteq> b) (bundle_cleanups db)"
proof -
  from assms obtain r db1 where r: "row_where (held_cleanup b token) (bundle_cleanups db) = Some r" "bc_objectPrefixes r = ps"
    and 1: "delete_thumbnail_jobs b (db\<lparr>thumbnails := filter (\<lambda>t. th_bundleId t \<noteq> b) (thumbnails db)\<rparr>) = Inr db1"
    and 2: "delete_bundle b db1 = Inr db'"
    by (auto simp: completeContentBundleCleanup_def run_tx_eq_Inr bindR_eq_Inr split: option.splits if_splits)
  from r show "\<exists>r. row_where (held_cleanup b token) (bundle_cleanups db) = Some r \<and> bc_objectPrefixes r = ps" by blast
  have db1: "artifact_versions db1 = artifact_versions db" "content_bundles db1 = content_bundles db" "bundle_cleanups db1 = bundle_cleanups db"
    using 1 by (auto simp: delete_thumbnail_jobs_def Let_def split: if_splits)
  from 2 db1 show "\<not> bundle_in_use db b" "artifact_versions db' = artifact_versions db"
    "content_bundles db' = filter (\<lambda>r. cb_id r \<noteq> b) (content_bundles db)"
    "bundle_cleanups db' = filter (\<lambda>r. bc_bundleId r \<noteq> b) (bundle_cleanups db)"
    by (auto simp: delete_bundle_def bundle_in_use_def exists_where_iff split: if_splits)
qed

text \<open>
  C32: a finished bundle cleanup leaves nothing behind and takes nothing else. When the cleanup
  of a bundle reports success, exactly its recorded prefixes were processed: no object remains
  below them, every other object is as it was, no version named the bundle, and the bundle and
  its cleanup are gone while all other bundles and cleanups stay.
\<close>

theorem cleaned_bundle_leaves_nothing:
  assumes "clean_bundle env c (db, s) = ((db', s'), Inr Cleaned)" "re_storage env = memory_cleanup"
  shows "(\<exists>r. row_where (held_cleanup (cc_bundleId c) (cc_leaseToken c)) (bundle_cleanups db) = Some r
      \<and> bc_objectPrefixes r = cc_objectPrefixes c)
    \<and> (\<forall>k. map_of s' k = (if \<exists>p \<in> set (cc_objectPrefixes c). starts_with p k then None else map_of s k))
    \<and> \<not> bundle_in_use db (cc_bundleId c) \<and> artifact_versions db' = artifact_versions db
    \<and> content_bundles db' = filter (\<lambda>r. cb_id r \<noteq> cc_bundleId c) (content_bundles db)
    \<and> bundle_cleanups db' = filter (\<lambda>r. bc_bundleId r \<noteq> cc_bundleId c) (bundle_cleanups db)"
proof -
  have "snd (andThen f (\<lambda>_. give Cleanup_failed) st) \<noteq> Inr Cleaned" for f :: "(memory_objects, unit) work" and st
    by (simp add: andThen_def give_def split: prod.split sum.split)
  then have work: "bundle_work env c (db, s) = ((db', s'), Inr Cleaned)"
    using assms(1) by (auto simp: clean_bundle_def bundle_work_def [symmetric] tryCatch_def split: prod.splits sum.splits)
      (metis snd_conv)
  obtain db1 s1 r1 where each: "each (\<lambda>p. on_storage (cs_removeContentBundlePrefix memory_cleanup p)) (cc_objectPrefixes c) (db, s)
      = ((db1, s1), r1)" by (metis prod.collapse)
  with work obtain xs where r1: "r1 = Inr xs" by (cases r1) (auto simp: bundle_work_def assms(2) andThen_def)
  note removed = each_removed [OF each]
  obtain db2 r2 where complete: "completeContentBundleCleanup (re_dbNow env (cc_bundleId c)) (cc_bundleId c) (cc_leaseToken c)
      (cc_objectPrefixes c) db = (db2, r2)" by (metis prod.collapse)
  with work each r1 removed [of "[]"] have "db2 = db'" "s1 = s'" "r2 = Inr True"
    by (cases r2; auto simp: bundle_work_def assms(2) andThen_def on_db_def give_def split: if_splits)+
  note done' = completed_bundle [OF complete [unfolded this]] and same = this
  have "map_of s' k = (if \<exists>p \<in> set (cc_objectPrefixes c). starts_with p k then None else map_of s k)" for k
    using removed [of k] r1 same(2) by auto
  with done' show ?thesis by simp
qed

lemma each_storage_db:
  "each (\<lambda>p. on_storage (f p)) ps (db, s) = ((db1, s1), r) \<Longrightarrow> db1 = db"
proof (induction ps arbitrary: s r db1 s1)
  case (Cons p ps)
  obtain s2 r2 where "f p s = (s2, r2)" by (cases "f p s")
  then show ?case using Cons
    by (cases r2) (auto simp: andThen_def on_storage_def [of "f p"] give_def split: prod.splits sum.splits)
qed (simp add: give_def)

lemma delay_bounds: "1 \<le> n \<Longrightarrow> 30 \<le> delaySeconds n" "delaySeconds n \<le> 3600"
proof -
  have "1 \<le> (2 :: int) ^ nat (min (n - 1) 7)" by simp
  then show "30 \<le> delaySeconds n" by (simp add: delaySeconds_def)
  show "delaySeconds n \<le> 3600" by (simp add: delaySeconds_def)
qed

text \<open>
  A failed bundle cleanup is retried, within bounds. When a step of the cleanup fails, no
  row but its cleanup changes; that waits again with all its prefixes, not before half a minute
  and not after an hour from the start of the run, doubling with the attempts.
\<close>

theorem failed_bundle_cleanup_is_retried:
  assumes "clean_bundle env c (db, s) = ((db', s'), Inr Cleanup_failed)" "1 \<le> cc_attemptCount c"
    and "row_where (held_cleanup (cc_bundleId c) (cc_leaseToken c)) (bundle_cleanups db) = Some r"
  shows "content_bundles db' = content_bundles db \<and> artifact_versions db' = artifact_versions db
    \<and> (\<exists>r' \<in> set (bundle_cleanups db'). bc_bundleId r' = cc_bundleId c \<and> bc_state r' = Cleanup_pending
      \<and> bc_objectPrefixes r' = bc_objectPrefixes r
      \<and> (\<forall>now < re_now env + 30000. \<not> claimable_bundle_cleanup now r')
      \<and> (\<forall>now \<ge> re_now env + 3600000. bc_quiesceAfter r \<le> now \<longrightarrow> claimable_bundle_cleanup now r'))"
proof -
  let ?f = "\<lambda>r. r\<lparr>bc_state := Cleanup_pending, bc_leaseOwner := None, bc_leaseExpiresAt := None,
      bc_nextAttemptAt := retry_at (re_now env) (cc_attemptCount c), bc_lastErrorCode := Some object_cleanup_failed\<rparr>"
  let ?fail = "andThen (on_db (failContentBundleCleanup (cc_bundleId c) (cc_leaseToken c)
      (retry_at (re_now env) (cc_attemptCount c)) object_cleanup_failed)) (\<lambda>_. give Cleanup_failed)"
  obtain db1 s1 w where work: "bundle_work env c (db, s) = ((db1, s1), w)" by (metis prod.collapse)
  have "x \<noteq> Cleanup_failed" if "w = Inr x" for x
    using work that by (auto simp: bundle_work_def andThen_def give_def split: prod.splits sum.splits if_splits)
  moreover have "clean_bundle env c (db, s) = (case w of Inl e \<Rightarrow> ?fail (db1, s1) | Inr x \<Rightarrow> ((db1, s1), Inr x))"
    by (cases w) (simp_all add: clean_bundle_def bundle_work_def [symmetric] tryCatch_def work)
  ultimately obtain e where w: "w = Inl e" and fail: "?fail (db1, s1) = ((db', s'), Inr Cleanup_failed)"
    using assms(1) by (cases w) auto
  have "db1 = db"
    using work unfolding w
    by (auto simp: bundle_work_def andThen_def on_db_def give_def completeContentBundleCleanup_def run_tx_eq_Inl
        split: prod.splits sum.splits dest: each_storage_db)
  with fail have db': "db' = db\<lparr>bundle_cleanups := update_where (held_cleanup (cc_bundleId c) (cc_leaseToken c)) ?f (bundle_cleanups db)\<rparr>"
    by (auto simp: andThen_def on_db_def give_def failContentBundleCleanup_def statement_def run_tx_def update_bundle_cleanups_Inr
        split: prod.splits sum.splits elim!: bindR_InrE)
  have r: "r \<in> set (bundle_cleanups db)" "held_cleanup (cc_bundleId c) (cc_leaseToken c) r"
    using row_where_Some [OF assms(3)] by simp_all
  then have "?f r \<in> set (bundle_cleanups db')" by (auto simp: db' in_update_where)
  moreover have "bc_bundleId r = cc_bundleId c" using r(2) by (simp add: held_cleanup_def)
  ultimately show ?thesis
    using delay_bounds [of "cc_attemptCount c"] assms(2)
    by (intro conjI bexI [of _ "?f r"]) (auto simp: db' claimable_bundle_cleanup_def retry_at_def)
qed

subsection \<open>Staging objects of running attempts\<close>

text \<open>
  The staging objects of a running attempt may be released. As soon as the artifact has any
  version, an older one included, the staging key of an attempt that is still running for a
  further upload is handed out for deletion; only its age protects it.
\<close>

theorem staging_of_running_attempt_is_released:
  assumes "a \<in> set (processing_attempts db)" "att_state a = Attempt_running"
    and "j \<in> set (processing_jobs db)" "job_id j = att_jobId a"
    and "s \<in> set (upload_sessions db)" "sess_id s = job_uploadSessionId j"
    and "unique_on (\<lambda>_. True) att_id (processing_attempts db)" "unique_on (\<lambda>_. True) job_id (processing_jobs db)"
    and "unique_on (\<lambda>_. True) sess_id (upload_sessions db)"
    and "attemptIdFromStagingKey key = Some (att_id a)" "starts_with (att_stagingPrefix a) key"
    and "v \<in> set (artifact_versions db)" "ver_artifactId v = sess_artifactId s"
  shows "findRemovableStagingObjectKeys [key] db = [key]"
proof -
  define atts where "atts = staging_attempts (js_unique (List.map_filter attemptIdFromStagingKey [key])) db"
  let ?p = "\<lambda>c. attemptIdFromStagingKey key = Some (sa_id c) \<and> starts_with (sa_stagingPrefix c) key"
  have "exists_where (\<lambda>v. ver_artifactId v = sa_artifactId c) (artifact_versions db)" if "row_where ?p atts = Some c" for c
  proof -
    from row_where_Some [OF that] have c: "c \<in> set atts" "sa_id c = att_id a" using assms(10) by auto
    then obtain a' j' s' where rows: "a' \<in> set (processing_attempts db)" "att_id a' = att_id a" "j' \<in> set (processing_jobs db)"
        "job_id j' = att_jobId a'" "s' \<in> set (upload_sessions db)" "sess_id s' = job_uploadSessionId j'" "sa_artifactId c = sess_artifactId s'"
      by (auto simp: atts_def staging_attempts_def split: if_splits)
    have "a' = a" by (rule unique_onD [OF assms(7)]) (use rows assms(1) in auto)
    with rows have "j' = j" by (intro unique_onD [OF assms(8)]) (use assms(3,4) in auto)
    with rows have "s' = s" by (intro unique_onD [OF assms(9)]) (use assms(5,6) in auto)
    with rows assms(12,13) show ?thesis by (auto simp: exists_where_iff)
  qed
  then show ?thesis
    unfolding findRemovableStagingObjectKeys_def Let_def atts_def [symmetric] by (simp split: option.split)
qed

text \<open>The staging objects of a Gallery copy name a copy job, which no processing attempt is.\<close>

lemma copy_staging_is_released:
  assumes "j \<noteq> []" "CHR ''/'' \<notin> set j" "\<not> (\<exists>a \<in> set (processing_attempts db). att_id a = j)"
  shows "findRemovableStagingObjectKeys [''staging/gallery-copy/'' @ j @ ''/'' @ rest] db
    = [''staging/gallery-copy/'' @ j @ ''/'' @ rest]"
proof -
  let ?key = "''staging/gallery-copy/'' @ j @ ''/'' @ rest"
  have "attemptIdFromStagingKey ?key \<noteq> Some t" if "t \<noteq> j" for t
    using assms(1,2) that split_on_append_sep [of "CHR ''/''" j rest] by (simp add: attemptIdFromStagingKey_def)
  moreover have "sa_id c \<noteq> j" if "c \<in> set (staging_attempts ids db)" for c ids
    using that assms(3) by (auto simp: staging_attempts_def split: if_splits)
  ultimately have "row_where (\<lambda>c. attemptIdFromStagingKey ?key = Some (sa_id c) \<and> starts_with (sa_stagingPrefix c) ?key)
      (staging_attempts ids db) = None" for ids
    by (auto simp: row_where_None)
  then show ?thesis by (simp add: findRemovableStagingObjectKeys_def Let_def)
qed

subsection \<open>Examples\<close>

definition leased_job :: "js_string \<Rightarrow> int \<Rightarrow> processing_job_row" where
  "leased_job j attempts =
     \<lparr>job_id = j, job_uploadSessionId = ''raw/'' @ j, job_state = Running, job_availableAt = 0, job_leaseOwner = Some ''w'',
      job_leaseExpiresAt = Some 10, job_heartbeatAt = Some 1, job_attemptCount = attempts, job_maxAttempts = 3,
      job_createdAt = 0, job_updatedAt = 1\<rparr>"

definition running_row :: "js_string \<Rightarrow> int \<Rightarrow> attempt_row" where
  "running_row j n = (example_attempt j [] Objects_pending 0)
     \<lparr>att_attemptNumber := n, att_state := Attempt_running, att_objectPrefix := None, att_cleanupEligibleAt := None,
      att_finishedAt := None\<rparr>"

definition leased_db :: "attempt_row list \<Rightarrow> content_db" where
  "leased_db attempts = empty_content_db
     \<lparr>processing_jobs := [leased_job ''1'' 1, leased_job ''2'' 3],
      upload_sessions := [(raw_session ''raw/1'' Session_processing)\<lparr>sess_artifactId := ''a2''\<rparr>, raw_session ''raw/2'' Session_processing],
      processing_attempts := attempts\<rparr>"

lemma expired_leases_are_recovered_witness:
  "\<exists>db'. recoverExpiredLeases (\<lambda>_. 0 :: nat) 20 15 10 (leased_db [running_row ''1'' 1, running_row ''2'' 3]) = (db', Inr 2)
     \<and> map job_state (processing_jobs db') = [Queued, Failed]
     \<and> map sess_state (upload_sessions db') = [Session_processing, Session_failed]
     \<and> map sess_retryable (upload_sessions db') = [False, True]"
proof -
  let ?db = "leased_db [running_row ''1'' 1, running_row ''2'' 3]"
  let ?expired = "[leased_job ''1'' 1, leased_job ''2'' 3]"
  have "snd (recoverExpiredLeases (\<lambda>_. 0 :: nat) 20 15 10 ?db) = Inr 2" by code_simp
  then obtain db' where run: "recoverExpiredLeases (\<lambda>_. 0 :: nat) 20 15 10 ?db = (db', Inr 2)" by (metis prod.collapse)
  have ids: "unique_on (\<lambda>_. True) job_id (processing_jobs ?db)" by code_simp
  have expired: "expired_jobs (\<lambda>_. 0 :: nat) 15 10 ?db = ?expired" by code_simp
  have rows: "processing_jobs ?db = ?expired" by code_simp
  note recovered = expired_leases_are_recovered [OF run ids, unfolded expired]
  let ?sessions = "map (\<lambda>s. if \<exists>j \<in> set ?expired. job_maxAttempts j \<le> job_attemptCount j \<and> job_uploadSessionId j = sess_id s
          then s\<lparr>sess_state := Session_failed, sess_failureReasonCode := Some ''processing_lease_expired'',
            sess_failureSummary := Some ''Processing was interrupted.'', sess_retryable := True, sess_updatedAt := 20\<rparr>
          else s) (upload_sessions ?db)"
  have "map job_state (processing_jobs db') = [Queued, Failed]"
    using recovered by (simp add: rows) (simp add: leased_job_def)
  moreover have "upload_sessions db' = ?sessions" using recovered by simp
  moreover have "map sess_state ?sessions = [Session_processing, Session_failed]" by code_simp
  moreover have "map sess_retryable ?sessions = [False, True]" by code_simp
  ultimately show ?thesis using run by (intro exI [of _ db']) simp
qed

lemma missing_attempt_blocks_recovery_witness:
  "\<exists>e. recoverExpiredLeases (\<lambda>_. 0 :: nat) 20 15 10 (leased_db [running_row ''1'' 1]) = (leased_db [running_row ''1'' 1], Inl e)"
proof (rule missing_attempt_blocks_recovery)
  show "leased_job ''2'' 3 \<in> set (expired_jobs (\<lambda>_. 0 :: nat) 15 10 (leased_db [running_row ''1'' 1]))" by code_simp
  show "\<not> (\<exists>a \<in> set (processing_attempts (leased_db [running_row ''1'' 1])). running_attempt (leased_job ''2'' 3) a)"
    by (simp add: leased_db_def running_attempt_def running_row_def example_attempt_def leased_job_def)
qed

lemma late_prefix_is_not_lost_witness:
  "\<exists>db1 db2 db3 c. claimContentBundleCleanups (\<lambda>_. 0 :: nat) ''x'' 100000 1 cleaned_db = (db1, Inr [c])
     \<and> recordLateContentBundlePrefix ''b2'' ''content-bundles/b2/late/'' db1 = (db2, Inr True)
     \<and> completeContentBundleCleanup 100001 ''b2'' ''x'' (cc_objectPrefixes c) db2 = (db3, Inr False)
     \<and> content_bundles db3 = content_bundles cleaned_db"
proof -
  let ?c = "bundle_cleanup_row_of (claimed_bundle_cleanup 100000 ''x'' (example_cleanup ''b2''))"
  have "snd (claimContentBundleCleanups (\<lambda>_. 0 :: nat) ''x'' 100000 1 cleaned_db) = Inr [?c]" by code_simp
  then obtain db1 where 1: "claimContentBundleCleanups (\<lambda>_. 0 :: nat) ''x'' 100000 1 cleaned_db = (db1, Inr [?c])"
    by (metis prod.collapse)
  have "snd (recordLateContentBundlePrefix ''b2'' ''content-bundles/b2/late/''
      (fst (claimContentBundleCleanups (\<lambda>_. 0 :: nat) ''x'' 100000 1 cleaned_db))) = Inr True" by code_simp
  then obtain db2 where 2: "recordLateContentBundlePrefix ''b2'' ''content-bundles/b2/late/'' db1 = (db2, Inr True)"
    unfolding 1 fst_conv by (metis prod.collapse)
  obtain db3 res where 3: "completeContentBundleCleanup 100001 ''b2'' ''x'' (cc_objectPrefixes ?c) db2 = (db3, res)"
    by (metis prod.collapse)
  have c: "?c \<in> set [?c]" "cc_bundleId ?c = ''b2''" "''content-bundles/b2/late/'' \<notin> set (cc_objectPrefixes ?c)"
    "bundle_cleanups_unique (bundle_cleanups cleaned_db)" by code_simp+
  from late_prefix_is_not_lost [OF 1 c(1) c(4), unfolded c(2), OF 2 c(3) 3] 1 2 3 show ?thesis by blast
qed

definition cleanup_claimed_db :: "js_string list \<Rightarrow> content_db" where
  "cleanup_claimed_db prefixes = cleaned_db\<lparr>bundle_cleanups :=
     [claimed_bundle_cleanup 100000 ''x'' ((example_cleanup ''b2'')\<lparr>bc_objectPrefixes := prefixes\<rparr>)]\<rparr>"

definition claimed_row :: "js_string list \<Rightarrow> ContentBundleCleanupRow" where
  "claimed_row prefixes = bundle_cleanup_row_of (claimed_bundle_cleanup 100000 ''x''
     ((example_cleanup ''b2'')\<lparr>bc_objectPrefixes := prefixes\<rparr>))"

lemma cleaned_bundle_leaves_nothing_witness:
  "\<exists>db' s'. clean_bundle (example_env 100000) (claimed_row [bundle_root ''b2'']) (cleanup_claimed_db [bundle_root ''b2''], cleaned_objects)
       = ((db', s'), Inr Cleaned)
     \<and> map_of s' ''content-bundles/b2/i'' = None \<and> map_of s' ''content-bundles/b1/i'' = Some example_object
     \<and> map cb_id (content_bundles db') = [''b1'']"
proof -
  let ?run = "clean_bundle (example_env 100000) (claimed_row [bundle_root ''b2'']) (cleanup_claimed_db [bundle_root ''b2''], cleaned_objects)"
  have "snd ?run = Inr Cleaned" by code_simp
  then obtain db' s' where run: "?run = ((db', s'), Inr Cleaned)" by (metis prod.collapse)
  have env: "re_storage (example_env 100000) = memory_cleanup" by (simp add: example_env_def)
  have c: "cc_objectPrefixes (claimed_row [bundle_root ''b2'']) = [bundle_root ''b2'']" "cc_bundleId (claimed_row [bundle_root ''b2'']) = ''b2''"
    by code_simp+
  have objects: "map_of s' k = (if starts_with (bundle_root ''b2'') k then None else map_of cleaned_objects k)"
    and bundles: "content_bundles db' = filter (\<lambda>r. cb_id r \<noteq> ''b2'') (content_bundles (cleanup_claimed_db [bundle_root ''b2'']))" for k
    using cleaned_bundle_leaves_nothing [OF run env] unfolding c by simp_all
  have "map_of s' ''content-bundles/b2/i'' = None" "map_of s' ''content-bundles/b1/i'' = Some example_object"
    unfolding objects by (simp_all add: bundle_root_def cleaned_objects_def)
  moreover have "map cb_id (content_bundles db') = [''b1'']" unfolding bundles by code_simp
  ultimately show ?thesis using run by (intro exI [of _ db'] exI [of _ s'] conjI)
qed

lemma failed_bundle_cleanup_is_retried_witness:
  "\<exists>db' s' r'. clean_bundle (example_env 100000) (claimed_row [''raw/'']) (cleanup_claimed_db [''raw/''], cleaned_objects)
       = ((db', s'), Inr Cleanup_failed)
     \<and> r' \<in> set (bundle_cleanups db') \<and> \<not> claimable_bundle_cleanup 129999 r' \<and> claimable_bundle_cleanup 3700000 r'"
proof -
  let ?run = "clean_bundle (example_env 100000) (claimed_row [''raw/'']) (cleanup_claimed_db [''raw/''], cleaned_objects)"
  let ?r = "claimed_bundle_cleanup 100000 ''x'' ((example_cleanup ''b2'')\<lparr>bc_objectPrefixes := [''raw/'']\<rparr>)"
  have "snd ?run = Inr Cleanup_failed" by code_simp
  then obtain db' s' where run: "?run = ((db', s'), Inr Cleanup_failed)" by (metis prod.collapse)
  have count: "1 \<le> cc_attemptCount (claimed_row [''raw/''])" by code_simp
  have r: "row_where (held_cleanup (cc_bundleId (claimed_row [''raw/''])) (cc_leaseToken (claimed_row [''raw/''])))
      (bundle_cleanups (cleanup_claimed_db [''raw/''])) = Some ?r"
    by code_simp
  have times: "re_now (example_env 100000) = 100000" "bc_quiesceAfter ?r = 0"
    by (simp_all add: example_env_def example_cleanup_def claimed_bundle_cleanup_def)
  from failed_bundle_cleanup_is_retried [OF run count r] obtain r' where "r' \<in> set (bundle_cleanups db')"
      "\<forall>now < 130000. \<not> claimable_bundle_cleanup now r'" "\<forall>now \<ge> 3700000. claimable_bundle_cleanup now r'"
    unfolding times by auto
  then show ?thesis using run by (intro exI [of _ db'] exI [of _ s'] exI [of _ r']) simp
qed

definition replaced_db :: content_db where
  "replaced_db = (leased_db [running_row ''2'' 3])\<lparr>artifact_versions := [example_version]\<rparr>"

lemma staging_of_running_attempt_is_released_witness:
  "findRemovableStagingObjectKeys [''staging/s/2/f''] (replaced_db
     \<lparr>processing_attempts := [(running_row ''2'' 3)\<lparr>att_stagingPrefix := ''staging/s/2/''\<rparr>]\<rparr>) = [''staging/s/2/f'']"
  by (rule staging_of_running_attempt_is_released [where a = "(running_row ''2'' 3)\<lparr>att_stagingPrefix := ''staging/s/2/''\<rparr>"
        and j = "leased_job ''2'' 3" and s = "raw_session ''raw/2'' Session_processing" and v = example_version])
    (code_simp+)

end
