(* ===== verification/Governance_Tables.thy ===== *)
theory Governance_Tables
  imports Gallery_Tables Json
begin

text \<open>
  The tables of the governance of the Gallery: \<open>db/migrations/0015\<close>, \<open>0024\<close> and \<open>0025\<close>, the
  provenance of copies (\<open>0016\<close>) and the reporter signals, beside the Gallery tables. Cases,
  decisions, appeals, restrictions and takedowns are in \<open>Gallery_Tables\<close>. Surrogate ids that
  nothing reads back and the evidence snapshots are left out, as are foreign keys.
\<close>

record administrator_row =
  ad_user_id :: js_string
  ad_granted_by_user_id :: "js_string option"
  ad_granted_at :: time
  ad_revoked_at :: "time option"
  ad_revision :: int

datatype administrator_action =
    Audit_grant | Audit_revoke | Audit_queue_read | Audit_case_read | Audit_decision
  | Audit_appeal_read | Audit_featured_change

record audit_row =
  au_actor_user_id :: js_string
  au_subject_user_id :: "js_string option"
  au_action :: administrator_action
  au_resource_id :: "js_string option"

datatype GalleryReportCategory =
  Report_malware | Report_abuse | Report_copyright | Report_privacy | Report_other

record report_row =
  rep_id :: js_string
  rep_listing_id :: js_string
  rep_listing_revision :: int
  rep_category :: GalleryReportCategory
  rep_details :: js_string
  rep_reporter_actor_hash :: js_string
  rep_challenge_evidence_digest :: js_string

record evidence_row =
  eh_case_id :: js_string
  eh_object_key :: js_string
  eh_reason_code :: js_string
  eh_released_at :: "time option"

datatype basis_kind = Basis_report | Basis_proposal | Basis_takedown | Basis_restriction

datatype basis_state = Basis_active | Basis_closed | Basis_reversed

record basis_row =
  rb_artifact_id :: js_string
  rb_listing_id :: "js_string option"
  rb_case_id :: js_string
  rb_basis_kind :: basis_kind
  rb_source_decision_id :: "js_string option"
  rb_source_root_decision_id :: "js_string option"
  rb_state :: basis_state
  rb_ended_at :: "time option"
  rb_ending_decision_id :: "js_string option"

record appeal_policy_row =
  apo_version :: js_string
  apo_deadline_seconds :: int
  apo_active :: bool

datatype notification_category =
    Notify_removal | Notify_appeal_decision | Notify_artifact_takedown | Notify_public_sharing_restriction

record notification_row =
  no_recipient_user_id :: js_string
  no_case_id :: js_string
  no_decision_id :: js_string
  no_category :: notification_category
  no_rule_code :: js_string
  no_current_effect :: js_string
  no_appeal_policy_version :: "js_string option"
  no_appeal_deadline_at :: "time option"

record featured_row =
  fp_position :: int
  fp_listing_id :: js_string
  fp_set_by_user_id :: js_string
  fp_listing_revision :: int

datatype featured_action = Featured_placed | Featured_removed | Featured_eligibility_removed

record featured_event =
  fe_actor_user_id :: "js_string option"
  fe_listing_id :: js_string
  fe_position :: int
  fe_action :: featured_action
  fe_reason_code :: js_string

record signal_row =
  sig_subject_key :: js_string
  sig_created_at :: time
  sig_retained_until :: time

record copy_row =
  copy_artifact_id :: js_string
  copy_immediate_listing_id :: js_string
  copy_immediate_version_id :: js_string
  copy_root_listing_id :: js_string
  copy_root_version_id :: js_string

text \<open>\<open>artifact_owners\<close> is the artifact table as far as governance reads it: id and owner.\<close>

record governance_db = gallery_db +
  administrators :: "administrator_row list"
  administrator_audit :: "audit_row list"
  reports :: "report_row list"
  case_evidence :: "evidence_row list"
  review_bases :: "basis_row list"
  appeal_policies :: "appeal_policy_row list"
  notifications :: "notification_row list"
  featured_positions :: "featured_row list"
  featured_events :: "featured_event list"
  reporter_signals :: "signal_row list"
  saved_copies :: "copy_row list"
  artifact_owners :: "(js_string \<times> js_string) list"

subsection \<open>Constraints\<close>

definition block_row_ok :: "block_row \<Rightarrow> bool" where
  "block_row_ok b \<longleftrightarrow> (gb_active b \<longleftrightarrow> gb_ended_at b = None \<and> gb_ending_decision_id b = None)
     \<and> (\<not> gb_active b \<longrightarrow> gb_ended_at b \<noteq> None \<and> gb_ending_decision_id b \<noteq> None)"

definition restrictions_unique :: "block_row list \<Rightarrow> bool" where
  "restrictions_unique t \<longleftrightarrow>
     unique_on (\<lambda>_. True) (\<lambda>b. (gb_artifact_id b, gb_source_decision_id b)) t \<and> unique_on gb_active gb_artifact_id t"

definition takedowns_unique :: "block_row list \<Rightarrow> bool" where
  "takedowns_unique t \<longleftrightarrow>
     unique_on (\<lambda>_. True) gb_source_decision_id t \<and> unique_on gb_active gb_artifact_id t"

definition case_row_ok :: "case_row \<Rightarrow> bool" where
  "case_row_ok c \<longleftrightarrow>
     (gcase_listing_id c \<noteq> None \<or> gcase_artifact_id c \<noteq> None \<or> gcase_proposal_id c \<noteq> None \<or> gcase_report_id c \<noteq> None)
     \<and> (gcase_state c = Case_open \<longleftrightarrow> gcase_closed_at c = None)"

definition decisions_unique :: "decision_row list \<Rightarrow> bool" where
  "decisions_unique t \<longleftrightarrow>
     unique_on (\<lambda>_. True) gd_id t
     \<and> unique_on (\<lambda>_. True) (\<lambda>d. (gd_actor_user_id d, gd_idempotency_key_digest d)) t"

definition decision_row_ok :: "decision_row \<Rightarrow> bool" where
  "decision_row_ok d \<longleftrightarrow> (gd_appeal_policy_version d = None \<longleftrightarrow> gd_appeal_deadline_at d = None)"

definition appeal_row_ok :: "appeal_row \<Rightarrow> bool" where
  "appeal_row_ok a \<longleftrightarrow>
     (gap_state a = Appeal_state_pending \<and> gap_resolved_at a = None \<and> gap_resolution_decision_id a = None)
     \<or> (gap_state a \<noteq> Appeal_state_pending \<and> gap_resolved_at a \<noteq> None)"

definition appeals_unique :: "appeal_row list \<Rightarrow> bool" where
  "appeals_unique t \<longleftrightarrow>
     unique_on (\<lambda>_. True) gap_id t
     \<and> unique_on (\<lambda>_. True) (\<lambda>a. (gap_decision_id a, gap_appellant_user_id a)) t
     \<and> unique_on (\<lambda>_. True) (\<lambda>a. (gap_appellant_user_id a, gap_idempotency_key_digest a)) t"

definition featured_unique :: "featured_row list \<Rightarrow> bool" where
  "featured_unique t \<longleftrightarrow> unique_on (\<lambda>_. True) fp_position t \<and> unique_on (\<lambda>_. True) fp_listing_id t"

definition evidence_unique :: "evidence_row list \<Rightarrow> bool" where
  "evidence_unique t \<longleftrightarrow> unique_on (\<lambda>_. True) (\<lambda>h. (eh_case_id h, eh_object_key h)) t"

definition governance_db_ok :: "governance_db \<Rightarrow> bool" where
  "governance_db_ok db \<longleftrightarrow>
     gallery_db_ok db
     \<and> list_all block_row_ok (public_sharing_restrictions db) \<and> restrictions_unique (public_sharing_restrictions db)
     \<and> list_all block_row_ok (artifact_takedowns db) \<and> takedowns_unique (artifact_takedowns db)
     \<and> list_all case_row_ok (cases db) \<and> unique_on (\<lambda>_. True) gcase_id (cases db)
     \<and> list_all decision_row_ok (decisions db) \<and> decisions_unique (decisions db)
     \<and> list_all appeal_row_ok (appeals db) \<and> appeals_unique (appeals db)
     \<and> featured_unique (featured_positions db) \<and> evidence_unique (case_evidence db)"

subsection \<open>Statements\<close>

text \<open>An inserted restriction, takedown, decision or appeal meets the unique indexes or raises.\<close>

definition insert_restriction :: "block_row \<Rightarrow> governance_db \<Rightarrow> tx_error + governance_db" where
  "insert_restriction b db =
     (let t = public_sharing_restrictions db @ [b] in
      if restrictions_unique t then Inr (db\<lparr>public_sharing_restrictions := t\<rparr>)
      else Inl (Unique_violation ''gallery_one_active_public_sharing_restriction_idx''))"

definition insert_restriction_do_nothing :: "block_row \<Rightarrow> governance_db \<Rightarrow> governance_db" where
  "insert_restriction_do_nothing b db =
     (let t = public_sharing_restrictions db @ [b] in
      if restrictions_unique t then db\<lparr>public_sharing_restrictions := t\<rparr> else db)"

definition insert_takedown :: "block_row \<Rightarrow> governance_db \<Rightarrow> tx_error + governance_db" where
  "insert_takedown b db =
     (let t = artifact_takedowns db @ [b] in
      if takedowns_unique t then Inr (db\<lparr>artifact_takedowns := t\<rparr>)
      else Inl (Unique_violation ''gallery_one_active_artifact_takedown_idx''))"

definition insert_decision :: "decision_row \<Rightarrow> governance_db \<Rightarrow> tx_error + governance_db" where
  "insert_decision d db =
     (let t = decisions db @ [d] in
      if decisions_unique t then Inr (db\<lparr>decisions := t\<rparr>)
      else Inl (Unique_violation ''gallery_governance_decision_actor_user_id_idempotency_key_digest_key''))"

definition insert_appeal :: "appeal_row \<Rightarrow> governance_db \<Rightarrow> tx_error + governance_db" where
  "insert_appeal a db =
     (let t = appeals db @ [a] in
      if appeals_unique t then Inr (db\<lparr>appeals := t\<rparr>)
      else Inl (Unique_violation ''gallery_appeal_decision_id_appellant_user_id_key''))"

definition insert_case :: "case_row \<Rightarrow> governance_db \<Rightarrow> tx_error + governance_db" where
  "insert_case c db =
     (let t = cases db @ [c] in
      if \<not> case_row_ok c then Inl (Check_violation ''gallery_governance_case_subject_check'')
      else if unique_on (\<lambda>_. True) gcase_id t then Inr (db\<lparr>cases := t\<rparr>)
      else Inl (Unique_violation ''gallery_governance_case_pkey''))"

definition insert_evidence :: "evidence_row \<Rightarrow> governance_db \<Rightarrow> tx_error + governance_db" where
  "insert_evidence h db =
     (let t = case_evidence db @ [h] in
      if evidence_unique t then Inr (db\<lparr>case_evidence := t\<rparr>)
      else Inl (Unique_violation ''gallery_governance_evidence_hold_case_id_object_key_key''))"

definition insert_basis :: "basis_row \<Rightarrow> governance_db \<Rightarrow> governance_db" where
  "insert_basis b db = db\<lparr>review_bases := review_bases db @ [b]\<rparr>"

definition notify :: "notification_row list \<Rightarrow> governance_db \<Rightarrow> governance_db" where
  "notify ns db = db\<lparr>notifications := notifications db @ ns\<rparr>"

definition update_bases :: "(basis_row \<Rightarrow> bool) \<Rightarrow> (basis_row \<Rightarrow> basis_row) \<Rightarrow> governance_db \<Rightarrow> governance_db" where
  "update_bases p f db = db\<lparr>review_bases := update_where p f (review_bases db)\<rparr>"

definition update_restrictions :: "(block_row \<Rightarrow> bool) \<Rightarrow> (block_row \<Rightarrow> block_row) \<Rightarrow> governance_db \<Rightarrow> governance_db" where
  "update_restrictions p f db = db\<lparr>public_sharing_restrictions := update_where p f (public_sharing_restrictions db)\<rparr>"

definition update_takedowns :: "(block_row \<Rightarrow> bool) \<Rightarrow> (block_row \<Rightarrow> block_row) \<Rightarrow> governance_db \<Rightarrow> governance_db" where
  "update_takedowns p f db = db\<lparr>artifact_takedowns := update_where p f (artifact_takedowns db)\<rparr>"

definition update_appeals :: "(appeal_row \<Rightarrow> bool) \<Rightarrow> (appeal_row \<Rightarrow> appeal_row) \<Rightarrow> governance_db \<Rightarrow> governance_db" where
  "update_appeals p f db = db\<lparr>appeals := update_where p f (appeals db)\<rparr>"

definition active_basis :: "basis_row \<Rightarrow> bool" where
  "active_basis b \<longleftrightarrow> rb_state b = Basis_active"

end
