(* ===== verification/Governance.thy ===== *)
theory Governance
  imports Governance_Tables Js_Dates
begin

text \<open>
  The governance of the Gallery: \<open>api/src/application/gallery/governance.ts\<close>, the authority of
  administrators (\<open>administrator-authority.ts\<close>) and accepted reports (\<open>reports.ts\<close>). A report
  opens a case, an administrator decides it, the affected owner may appeal the decision, and
  the review state of a listing is recomputed from what remains in force.

  The environment holds \<open>now()\<close> of the transaction, the clock of the process, the fresh ids and
  the digest. An error of the services is \<open>Thrown\<close> with its code. The surrogate ids of events,
  notifications, bases, restrictions and takedowns are left out: nothing reads them back.
\<close>

record governance_env =
  gv_now :: time
  gv_dateNow :: time
  gv_uuid :: "nat \<Rightarrow> js_string"
  gv_digest :: "js_string \<Rightarrow> js_string"

definition digest_json :: "governance_env \<Rightarrow> json \<Rightarrow> js_string" where
  "digest_json env value = gv_digest env (stringify value)"

definition control_character :: "char \<Rightarrow> bool" where
  "control_character c \<longleftrightarrow>
     (let n = of_char c :: nat in n \<le> 8 \<or> n = 11 \<or> n = 12 \<or> 14 \<le> n \<and> n \<le> 31)"

definition safeText :: "js_string \<Rightarrow> nat \<Rightarrow> tx_error + js_string" where
  "safeText value maximum =
     (let text = js_trim value in
      if text = [] \<or> maximum < js_length text \<or> list_ex control_character text then Inl (Thrown ''invalid_text'')
      else Inr text)"

subsection \<open>The authority of administrators\<close>

definition active_administrator :: "js_string \<Rightarrow> administrator_row \<Rightarrow> bool" where
  "active_administrator u r \<longleftrightarrow> ad_user_id r = u \<and> ad_revoked_at r = None"

definition audit :: "js_string \<Rightarrow> js_string option \<Rightarrow> administrator_action \<Rightarrow> js_string option \<Rightarrow> governance_db \<Rightarrow> governance_db" where
  "audit actor subject' action resource db =
     db\<lparr>administrator_audit := administrator_audit db @
       [\<lparr>au_actor_user_id = actor, au_subject_user_id = subject', au_action = action, au_resource_id = resource\<rparr>]\<rparr>"

definition authority_require ::
  "js_string \<Rightarrow> administrator_action \<Rightarrow> js_string option \<Rightarrow> governance_db \<Rightarrow> tx_error + governance_db" where
  "authority_require userId action resourceId db =
     bindR (guardR (length (filter (active_administrator userId) (administrators db)) = 1)
       (Thrown ''administrator_forbidden'')) (\<lambda>_.
     Inr (audit userId None action resourceId db))"

definition granted_authority :: "time \<Rightarrow> js_string \<Rightarrow> js_string \<Rightarrow> administrator_row list \<Rightarrow> administrator_row list" where
  "granted_authority now actor subject' t =
     (if exists_where (\<lambda>r. ad_user_id r = subject') t then
        update_where (\<lambda>r. ad_user_id r = subject')
          (\<lambda>r. r\<lparr>ad_revoked_at := None, ad_granted_by_user_id := Some actor, ad_granted_at := now,
             ad_revision := ad_revision r + 1\<rparr>) t
      else t @ [\<lparr>ad_user_id = subject', ad_granted_by_user_id = Some actor, ad_granted_at = now, ad_revoked_at = None,
                ad_revision = 1\<rparr>])"

text \<open>\<open>grant\<close> and \<open>revoke\<close> run outside a transaction: the audit of the actor stays.\<close>

definition grant :: "time \<Rightarrow> js_string \<Rightarrow> js_string \<Rightarrow> governance_db \<Rightarrow> governance_db \<times> (tx_error + unit)" where
  "grant now actor subject' db =
     (case authority_require actor Audit_decision (Some ''authority'') db of
        Inl e \<Rightarrow> (db, Inl e)
      | Inr db \<Rightarrow>
          (audit actor (Some subject') Audit_grant None
             (db\<lparr>administrators := granted_authority now actor subject' (administrators db)\<rparr>), Inr ()))"

definition revoke :: "time \<Rightarrow> js_string \<Rightarrow> js_string \<Rightarrow> governance_db \<Rightarrow> governance_db \<times> (tx_error + unit)" where
  "revoke now actor subject' db =
     (case authority_require actor Audit_decision (Some ''authority'') db of
        Inl e \<Rightarrow> (db, Inl e)
      | Inr db \<Rightarrow>
          (audit actor (Some subject') Audit_revoke None
             (db\<lparr>administrators := update_where (active_administrator subject')
                (\<lambda>r. r\<lparr>ad_revoked_at := Some now, ad_revision := ad_revision r + 1\<rparr>) (administrators db)\<rparr>), Inr ()))"

subsection \<open>Reports\<close>

record GalleryReportInput =
  gri_slug :: js_string
  gri_category :: GalleryReportCategory
  gri_detail :: js_string
  gri_remoteIp :: js_string
  gri_reporterUserId :: "js_string option"

text \<open>What the challenge verifier answers for an anonymous report.\<close>

datatype challenge_result = Challenge_success | Challenge_unavailable | Challenge_rejected

fun category_text :: "GalleryReportCategory \<Rightarrow> js_string" where
  "category_text Report_malware = ''malware''"
| "category_text Report_abuse = ''abuse''"
| "category_text Report_copyright = ''copyright''"
| "category_text Report_privacy = ''privacy''"
| "category_text Report_other = ''other''"

definition recent_signal :: "time \<Rightarrow> js_string \<Rightarrow> signal_row \<Rightarrow> bool" where
  "recent_signal now key s \<longleftrightarrow> sig_subject_key s = key \<and> now - 3600000 < sig_created_at s"

definition current_revision :: "governance_db \<Rightarrow> listing_row \<Rightarrow> revision_row option" where
  "current_revision db l =
     (case gl_current_revision_id l of None \<Rightarrow> None | Some i \<Rightarrow> row_where (\<lambda>r. gr_id r = i) (revisions db))"

definition reportable :: "governance_db \<Rightarrow> js_string \<Rightarrow> listing_row \<Rightarrow> bool" where
  "reportable db slug l \<longleftrightarrow>
     gl_opaque_slug l = slug \<and> gl_lifecycle_state l = Listed \<and> gl_review_state l \<noteq> Restricted
     \<and> \<not> artifact_blocked db (gl_artifact_id l) \<and> current_revision db l \<noteq> None"

definition report_snapshot :: "governance_db \<Rightarrow> listing_row \<Rightarrow> GalleryReportCategory \<Rightarrow> js_string \<Rightarrow> json" where
  "report_snapshot db l category detail =
     JObj [(''listingId'', JStr (gl_id l)), (''listingRevision'', JNum (gl_listing_revision l)),
       (''versionId'', JStr (case current_revision db l of None \<Rightarrow> [] | Some r \<Rightarrow> gr_version_id r)),
       (''category'', JStr (category_text category)), (''detail'', JStr detail)]"

definition new_report :: "governance_env \<Rightarrow> GalleryReportInput \<Rightarrow> js_string \<Rightarrow> js_string \<Rightarrow> js_string \<Rightarrow> listing_row \<Rightarrow> report_row" where
  "new_report env i detail reporterKey digest l =
     \<lparr>rep_id = ''greport_'' @ gv_uuid env 0, rep_listing_id = gl_id l, rep_listing_revision = gl_listing_revision l,
      rep_category = gri_category i, rep_details = detail, rep_reporter_actor_hash = reporterKey,
      rep_challenge_evidence_digest = digest\<rparr>"

definition report_case :: "governance_env \<Rightarrow> js_string \<Rightarrow> listing_row \<Rightarrow> case_row" where
  "report_case env digest l =
     \<lparr>gcase_id = ''gcase_'' @ gv_uuid env 1, gcase_kind = Case_report, gcase_listing_id = Some (gl_id l),
      gcase_artifact_id = Some (gl_artifact_id l), gcase_proposal_id = None,
      gcase_report_id = Some (''greport_'' @ gv_uuid env 0), gcase_parent_case_id = None, gcase_state = Case_open,
      gcase_evidence_digest = digest, gcase_opened_at = gv_now env, gcase_closed_at = None\<rparr>"

definition report_evidence :: "governance_env \<Rightarrow> js_string \<Rightarrow> evidence_row" where
  "report_evidence env digest =
     \<lparr>eh_case_id = ''gcase_'' @ gv_uuid env 1, eh_object_key = ''evidence/'' @ digest,
      eh_reason_code = ''active_report'', eh_released_at = None\<rparr>"

definition report_basis :: "governance_env \<Rightarrow> listing_row \<Rightarrow> basis_row" where
  "report_basis env l =
     \<lparr>rb_artifact_id = gl_artifact_id l, rb_listing_id = Some (gl_id l), rb_case_id = ''gcase_'' @ gv_uuid env 1,
      rb_basis_kind = Basis_report, rb_source_decision_id = None, rb_source_root_decision_id = None,
      rb_state = Basis_active, rb_ended_at = None, rb_ending_decision_id = None\<rparr>"

definition submit_body ::
  "governance_env \<Rightarrow> GalleryReportInput \<Rightarrow> js_string \<Rightarrow> governance_db \<Rightarrow> tx_error + governance_db \<times> js_string" where
  "submit_body env i detail db =
     (let reporterKey = gv_digest env (case gri_reporterUserId i of None \<Rightarrow> gri_remoteIp i | Some u \<Rightarrow> u) in
      bindR (guardR (length (filter (recent_signal (gv_now env) reporterKey) (reporter_signals db)) < 10)
        (Thrown ''rate_limited'')) (\<lambda>_.
      bindR (fromOption (Thrown ''not_found'') (row_where (reportable db (gri_slug i)) (listings db))) (\<lambda>l.
      let digest = digest_json env (report_snapshot db l (gri_category i) detail) in
      bindR (insert_case (report_case env digest l)
        (db\<lparr>reports := reports db @ [new_report env i detail reporterKey digest l]\<rparr>)) (\<lambda>db.
      bindR (insert_evidence (report_evidence env digest) db) (\<lambda>db.
      bindR (update_listings (\<lambda>r. gl_id r = gl_id l \<and> gl_review_state r = Clear)
        (\<lambda>r. r\<lparr>gl_review_state := Reviewing, gl_updated_at := gv_now env\<rparr>) (insert_basis (report_basis env l) db)) (\<lambda>db.
      Inr (db\<lparr>reporter_signals := reporter_signals db @ [\<lparr>sig_subject_key = reporterKey, sig_created_at = gv_now env,
             sig_retained_until = gv_now env + 30 * 86400000\<rparr>]\<rparr>, ''greport_'' @ gv_uuid env 0)))))))"

definition submit ::
  "governance_env \<Rightarrow> challenge_result \<Rightarrow> GalleryReportInput \<Rightarrow> governance_db \<Rightarrow> governance_db \<times> (tx_error + js_string)" where
  "submit env challenge i db =
     (let detail = js_trim (gri_detail i) in
      if detail = [] \<or> 4000 < js_length detail \<or> list_ex control_character detail then (db, Inl (Thrown ''invalid_report''))
      else if (gri_reporterUserId i = None \<or> gri_reporterUserId i = Some []) \<and> challenge \<noteq> Challenge_success then
        (db, Inl (Thrown (if challenge = Challenge_unavailable then ''challenge_unavailable'' else ''challenge_rejected'')))
      else run_tx (submit_body env i detail) db)"

subsection \<open>What a decision does to blocks and bases\<close>

definition ended_block :: "block_state \<Rightarrow> time \<Rightarrow> js_string \<Rightarrow> block_row \<Rightarrow> block_row" where
  "ended_block st now decisionId b = b\<lparr>gb_state := st, gb_ended_at := Some now, gb_ending_decision_id := Some decisionId\<rparr>"

definition ended_basis :: "basis_state \<Rightarrow> time \<Rightarrow> js_string \<Rightarrow> basis_row \<Rightarrow> basis_row" where
  "ended_basis st now decisionId b = b\<lparr>rb_state := st, rb_ended_at := Some now, rb_ending_decision_id := Some decisionId\<rparr>"

definition new_block :: "js_string \<Rightarrow> js_string \<Rightarrow> js_string \<Rightarrow> block_row" where
  "new_block artifactId decisionId ruleCode =
     \<lparr>gb_artifact_id = artifactId, gb_source_decision_id = decisionId, gb_source_root_decision_id = decisionId,
      gb_state = Block_active, gb_rule_code = ruleCode, gb_ended_at = None, gb_ending_decision_id = None\<rparr>"

definition new_basis :: "js_string \<Rightarrow> js_string option \<Rightarrow> js_string \<Rightarrow> basis_kind \<Rightarrow> js_string \<Rightarrow> basis_row" where
  "new_basis artifactId listingId caseId kind decisionId =
     \<lparr>rb_artifact_id = artifactId, rb_listing_id = listingId, rb_case_id = caseId, rb_basis_kind = kind,
      rb_source_decision_id = Some decisionId, rb_source_root_decision_id = Some decisionId,
      rb_state = Basis_active, rb_ended_at = None, rb_ending_decision_id = None\<rparr>"

definition active_block_of :: "js_string \<Rightarrow> block_row \<Rightarrow> bool" where
  "active_block_of a b \<longleftrightarrow> gb_artifact_id b = a \<and> gb_active b"

definition active_basis_of :: "js_string \<Rightarrow> basis_row \<Rightarrow> bool" where
  "active_basis_of a b \<longleftrightarrow> rb_artifact_id b = a \<and> active_basis b"

text \<open>The review state that restrictions, bases and takedowns of an artifact project.\<close>

definition projected_review_state :: "governance_db \<Rightarrow> js_string \<Rightarrow> GalleryReviewState" where
  "projected_review_state db a =
     (if exists_where (active_block_of a) (public_sharing_restrictions db) then Restricted
      else if exists_where (active_basis_of a) (review_bases db) \<or> exists_where (active_block_of a) (artifact_takedowns db)
        then Reviewing
      else Clear)"

definition recomputeArtifact :: "time \<Rightarrow> js_string \<Rightarrow> governance_db \<Rightarrow> tx_error + governance_db" where
  "recomputeArtifact now artifactId db =
     update_listings (\<lambda>r. gl_artifact_id r = artifactId \<and> open_listing r)
       (\<lambda>r. r\<lparr>gl_review_state := projected_review_state db artifactId, gl_updated_at := now\<rparr>) db"

fun recompute_all :: "time \<Rightarrow> js_string list \<Rightarrow> governance_db \<Rightarrow> tx_error + governance_db" where
  "recompute_all now [] db = Inr db"
| "recompute_all now (a # as) db = bindR (recomputeArtifact now a db) (recompute_all now as)"

text \<open>The copies made from the current revision of a listing of the artifact, directly or as root.\<close>

definition copied_from :: "governance_db \<Rightarrow> js_string \<Rightarrow> js_string list" where
  "copied_from db artifactId =
     [copy_artifact_id c. source \<leftarrow> listings db, gl_artifact_id source = artifactId,
        r \<leftarrow> revisions db, gl_current_revision_id source = Some (gr_id r),
        c \<leftarrow> saved_copies db,
        copy_immediate_listing_id c = gl_id source \<and> copy_immediate_version_id c = gr_version_id r
        \<or> copy_root_listing_id c = gl_id source \<and> copy_root_version_id c = gr_version_id r]"

definition restricted_by :: "js_string \<Rightarrow> governance_db \<Rightarrow> block_row list" where
  "restricted_by decisionId db = filter (\<lambda>b. gb_source_root_decision_id b = decisionId) (public_sharing_restrictions db)"

definition open_listings_of :: "js_string \<Rightarrow> governance_db \<Rightarrow> listing_row list" where
  "open_listings_of a db = filter (\<lambda>l. gl_artifact_id l = a \<and> open_listing l) (listings db)"

definition based_on :: "js_string \<Rightarrow> js_string \<Rightarrow> basis_row \<Rightarrow> bool" where
  "based_on a decisionId b \<longleftrightarrow>
     rb_artifact_id b = a \<and> rb_source_root_decision_id b = Some decisionId \<and> active_basis b"

definition derived_bases :: "js_string \<Rightarrow> js_string \<Rightarrow> governance_db \<Rightarrow> basis_row list" where
  "derived_bases decisionId caseId db =
     [new_basis (gb_artifact_id b) listingId caseId Basis_restriction decisionId.
        b \<leftarrow> restricted_by decisionId db,
        \<not> exists_where (based_on (gb_artifact_id b) decisionId) (review_bases db),
        listingId \<leftarrow> (case open_listings_of (gb_artifact_id b) db of [] \<Rightarrow> [None] | ls \<Rightarrow> map (\<lambda>l. Some (gl_id l)) ls)]"

text \<open>The case of a decision comes with the decision, which the caller has just inserted.\<close>

definition propagateRestriction ::
  "time \<Rightarrow> js_string \<Rightarrow> js_string \<Rightarrow> js_string \<Rightarrow> js_string \<Rightarrow> governance_db \<Rightarrow> tx_error + governance_db" where
  "propagateRestriction now sourceArtifactId caseId decisionId ruleCode db =
     (let db = fold insert_restriction_do_nothing (map (\<lambda>a. new_block a decisionId ruleCode) (copied_from db sourceArtifactId)) db;
          db = db\<lparr>review_bases := review_bases db @ derived_bases decisionId caseId db\<rparr> in
      update_listings
        (\<lambda>l. exists_where (active_block_of (gl_artifact_id l)) (restricted_by decisionId db) \<and> open_listing l)
        (\<lambda>l. l\<lparr>gl_review_state := Restricted, gl_updated_at := now\<rparr>) db)"

definition blocked_initially :: "js_string \<Rightarrow> listing_row \<Rightarrow> bool" where
  "blocked_initially a l \<longleftrightarrow>
     gl_artifact_id l = a \<and> gl_lifecycle_state l = Removed \<and> gl_closure_reason l = Some Initial_governance_block"

definition block_event :: "js_string \<Rightarrow> listing_row \<Rightarrow> event_row" where
  "block_event decisionId l =
     \<lparr>ge_listing_id = gl_id l, ge_from_lifecycle_state = Some Pending, ge_to_lifecycle_state = Removed,
      ge_closure_reason = Some Initial_governance_block, ge_base_listing_revision = None,
      ge_committed_listing_revision = gl_listing_revision l, ge_actor_kind = Actor_administrator,
      ge_actor_id = Some decisionId\<rparr>"

definition block_tombstone :: "listing_row \<Rightarrow> tombstone_row" where
  "block_tombstone l =
     \<lparr>gt_listing_id = gl_id l, gt_opaque_slug = gl_opaque_slug l, gt_was_ever_public = False,
      gt_terminal_lifecycle_state = Removed, gt_closure_reason = Initial_governance_block,
      gt_source_deleted_at = None, gt_permanently_non_restorable_at = None\<rparr>"

fun insert_tombstones_do_nothing :: "tombstone_row list \<Rightarrow> governance_db \<Rightarrow> tx_error + governance_db" where
  "insert_tombstones_do_nothing [] db = Inr db"
| "insert_tombstones_do_nothing (t # ts) db = bindR (insert_tombstone_do_nothing t db) (insert_tombstones_do_nothing ts)"

definition closeBlockedProposals :: "time \<Rightarrow> js_string \<Rightarrow> js_string \<Rightarrow> governance_db \<Rightarrow> tx_error + governance_db" where
  "closeBlockedProposals now artifactId decisionId db =
     bindR (update_proposals
       (\<lambda>p. exists_where (\<lambda>l. gl_id l = gp_listing_id p \<and> gl_artifact_id l = artifactId) (listings db) \<and> gp_state p = Open)
       (\<lambda>p. p\<lparr>gp_state := Governance_blocked, gp_closed_at := Some now\<rparr>) db) (\<lambda>db.
     bindR (update_listings
       (\<lambda>l. gl_artifact_id l = artifactId \<and> gl_lifecycle_state l = Pending \<and> gl_current_revision_id l = None)
       (\<lambda>l. l\<lparr>gl_lifecycle_state := Removed, gl_closure_reason := Some Initial_governance_block,
          gl_closed_at := Some now, gl_listing_revision := gl_listing_revision l + 1, gl_updated_at := now\<rparr>) db) (\<lambda>db.
     let blocked = filter (blocked_initially artifactId) (listings db) in
     insert_tombstones_do_nothing (map block_tombstone blocked)
       (fold insert_event (map (block_event decisionId) blocked) db)))"

definition ended_roots :: "js_string \<Rightarrow> governance_db \<Rightarrow> js_string list" where
  "ended_roots decisionId db =
     map gb_source_root_decision_id
       (filter (\<lambda>b. gb_ending_decision_id b = Some decisionId) (public_sharing_restrictions db @ artifact_takedowns db))"

definition moot_notice :: "js_string \<Rightarrow> appeal_row \<Rightarrow> notification_row" where
  "moot_notice decisionId a =
     \<lparr>no_recipient_user_id = gap_appellant_user_id a, no_case_id = gap_case_id a, no_decision_id = decisionId,
      no_category = Notify_appeal_decision, no_rule_code = ''direct_reversal'',
      no_current_effect = ''The challenged decision is no longer in force; the Appeal is moot.'',
      no_appeal_policy_version = None, no_appeal_deadline_at = None\<rparr>"

definition closeDerivedBasesAndRecompute ::
  "time \<Rightarrow> js_string \<Rightarrow> bool \<Rightarrow> governance_db \<Rightarrow> tx_error + governance_db" where
  "closeDerivedBasesAndRecompute now endingDecisionId reversed db =
     (let roots = ended_roots endingDecisionId db;
          challenged = (\<lambda>a. gap_state a = Appeal_state_pending \<and> gap_decision_id a \<in> set roots);
          derived = (\<lambda>b. (case rb_source_root_decision_id b of None \<Rightarrow> False | Some r \<Rightarrow> r \<in> set roots) \<and> active_basis b);
          db' = notify (map (moot_notice endingDecisionId) (filter challenged (appeals db))) db;
          db' = update_appeals challenged
            (\<lambda>a. a\<lparr>gap_state := (if reversed then Appeal_state_reversed else Appeal_state_moot),
               gap_resolved_at := Some now, gap_resolution_decision_id := Some endingDecisionId\<rparr>) db';
          db' = update_bases derived
            (ended_basis (if reversed then Basis_reversed else Basis_closed) now endingDecisionId) db' in
      recompute_all now (map rb_artifact_id (filter derived (review_bases db))) db')"

definition pending_appeal_of :: "js_string \<Rightarrow> appeal_row \<Rightarrow> bool" where
  "pending_appeal_of caseId a \<longleftrightarrow> gap_case_id a = caseId \<and> gap_state a = Appeal_state_pending"

definition appeal_notice :: "bool \<Rightarrow> js_string \<Rightarrow> appeal_row \<Rightarrow> notification_row" where
  "appeal_notice reverse decisionId a =
     \<lparr>no_recipient_user_id = gap_appellant_user_id a, no_case_id = gap_case_id a, no_decision_id = decisionId,
      no_category = Notify_appeal_decision,
      no_rule_code = (if reverse then ''reverse_appeal'' else ''uphold_appeal''),
      no_current_effect =
        (if reverse then ''The challenged decision was reversed; access will be recomputed from remaining governance bases.''
         else ''The challenged decision remains in force; no further Gallery Appeal is available.''),
      no_appeal_policy_version = None, no_appeal_deadline_at = None\<rparr>"

definition resolveAppeal ::
  "time \<Rightarrow> js_string \<Rightarrow> js_string \<Rightarrow> bool \<Rightarrow> governance_db \<Rightarrow> tx_error + governance_db" where
  "resolveAppeal now caseId decisionId reverse db =
     bindR (fromOption (Thrown ''invalid_decision'') (row_where (pending_appeal_of caseId) (appeals db))) (\<lambda>a.
     let db = notify [appeal_notice reverse decisionId a]
           (update_appeals (\<lambda>r. gap_id r = gap_id a)
             (\<lambda>r. r\<lparr>gap_state := (if reverse then Appeal_state_reversed else Appeal_state_upheld),
                gap_resolved_at := Some now, gap_resolution_decision_id := Some decisionId\<rparr>) db);
         challenged = (\<lambda>b. gb_source_decision_id b = gap_decision_id a \<and> gb_active b) in
     if \<not> reverse then Inr db
     else
       recompute_all now (map gb_artifact_id (filter challenged (public_sharing_restrictions db)))
         (update_bases (\<lambda>b. rb_source_root_decision_id b = Some (gap_decision_id a) \<and> active_basis b)
            (ended_basis Basis_reversed now decisionId)
           (update_takedowns challenged (ended_block Block_reversed now decisionId)
             (update_restrictions challenged (ended_block Block_reversed now decisionId) db))))"

definition ineligible_for_featuring :: "governance_db \<Rightarrow> js_string \<Rightarrow> bool" where
  "ineligible_for_featuring db listingId \<longleftrightarrow>
     exists_where (\<lambda>l. gl_id l = listingId \<and>
       (gl_lifecycle_state l \<noteq> Listed \<or> gl_review_state l = Restricted
        \<or> exists_where (active_block_of (gl_artifact_id l)) (artifact_takedowns db))) (listings db)"

definition removeFeaturedIfIneligible ::
  "js_string \<Rightarrow> js_string \<Rightarrow> js_string \<Rightarrow> governance_db \<Rightarrow> governance_db" where
  "removeFeaturedIfIneligible listingId actorUserId decisionId db =
     (if \<not> ineligible_for_featuring db listingId then db
      else case row_where (\<lambda>f. fp_listing_id f = listingId) (featured_positions db) of
        None \<Rightarrow> db
      | Some f \<Rightarrow> db\<lparr>featured_positions := filter (\<lambda>f. fp_listing_id f \<noteq> listingId) (featured_positions db),
          featured_events := featured_events db @ [\<lparr>fe_actor_user_id = Some actorUserId, fe_listing_id = listingId,
            fe_position = fp_position f, fe_action = Featured_eligibility_removed,
            fe_reason_code = ''decision:'' @ decisionId\<rparr>]\<rparr>)"

subsection \<open>Decisions\<close>

fun decision_text :: "GovernanceDecisionKind \<Rightarrow> js_string" where
  "decision_text Decide_approve = ''approve''"
| "decision_text Decide_reject = ''reject''"
| "decision_text Decide_dismiss = ''dismiss''"
| "decision_text Decide_remove = ''remove''"
| "decision_text Decide_restore = ''restore''"
| "decision_text Decide_restrict = ''restrict''"
| "decision_text Decide_clear_restriction = ''clear_restriction''"
| "decision_text Decide_takedown = ''takedown''"
| "decision_text Decide_clear_takedown = ''clear_takedown''"
| "decision_text Decide_uphold_appeal = ''uphold_appeal''"
| "decision_text Decide_reverse_appeal = ''reverse_appeal''"

fun allowedDecisions :: "case_kind \<Rightarrow> GovernanceDecisionKind list" where
  "allowedDecisions Case_report = [Decide_dismiss, Decide_remove, Decide_restrict, Decide_takedown]"
| "allowedDecisions Case_proposal = [Decide_approve, Decide_reject, Decide_restrict, Decide_takedown]"
| "allowedDecisions Case_appeal = [Decide_uphold_appeal, Decide_reverse_appeal]"
| "allowedDecisions Case_removal = [Decide_restore]"
| "allowedDecisions Case_restriction = [Decide_clear_restriction]"
| "allowedDecisions Case_takedown = [Decide_clear_takedown]"

definition appealable :: "GovernanceDecisionKind \<Rightarrow> bool" where
  "appealable kind \<longleftrightarrow> kind = Decide_remove \<or> kind = Decide_restrict \<or> kind = Decide_takedown"

definition administrator_event ::
  "js_string \<Rightarrow> GalleryLifecycle \<Rightarrow> GalleryLifecycle \<Rightarrow> GalleryClosureReason option \<Rightarrow> listing_row \<Rightarrow> event_row" where
  "administrator_event actorUserId from' to' reason l =
     \<lparr>ge_listing_id = gl_id l, ge_from_lifecycle_state = Some from', ge_to_lifecycle_state = to',
      ge_closure_reason = reason, ge_base_listing_revision = None,
      ge_committed_listing_revision = gl_listing_revision l, ge_actor_kind = Actor_administrator,
      ge_actor_id = Some actorUserId\<rparr>"

definition removable_listing :: "js_string \<Rightarrow> listing_row \<Rightarrow> bool" where
  "removable_listing listingId l \<longleftrightarrow>
     gl_id l = listingId \<and> gl_lifecycle_state l = Listed \<and> gl_current_revision_id l \<noteq> None"

definition removed_listing :: "time \<Rightarrow> listing_row \<Rightarrow> listing_row" where
  "removed_listing now l =
     l\<lparr>gl_lifecycle_state := Removed, gl_review_state := Clear, gl_closure_reason := Some Administrator_removal,
       gl_listing_revision := gl_listing_revision l + 1, gl_closed_at := Some now, gl_updated_at := now\<rparr>"

definition removal_tombstone :: "listing_row \<Rightarrow> tombstone_row" where
  "removal_tombstone l =
     \<lparr>gt_listing_id = gl_id l, gt_opaque_slug = gl_opaque_slug l, gt_was_ever_public = True,
      gt_terminal_lifecycle_state = Removed, gt_closure_reason = Administrator_removal,
      gt_source_deleted_at = None, gt_permanently_non_restorable_at = None\<rparr>"

definition remove_listing :: "time \<Rightarrow> js_string \<Rightarrow> js_string \<Rightarrow> governance_db \<Rightarrow> tx_error + governance_db" where
  "remove_listing now actorUserId listingId db =
     bindR (update_listings (removable_listing listingId) (removed_listing now) db) (\<lambda>db'.
     bindR (guardR (length (filter (removable_listing listingId) (listings db)) = 1) (Thrown ''invalid_decision'')) (\<lambda>_.
     let gone = filter (\<lambda>l. gl_id l = listingId) (listings db') in
     insert_tombstones_do_nothing (map removal_tombstone gone)
       (fold insert_event
         (map (administrator_event actorUserId Listed Removed (Some Administrator_removal)) gone) db')))"

definition restorable_listing :: "governance_db \<Rightarrow> js_string \<Rightarrow> listing_row \<Rightarrow> bool" where
  "restorable_listing db listingId l \<longleftrightarrow>
     gl_id l = listingId \<and> gl_lifecycle_state l = Removed \<and> gl_closure_reason l = Some Administrator_removal
     \<and> gl_restoration_forfeited_at l = None
     \<and> \<not> exists_where (\<lambda>r. gl_artifact_id r = gl_artifact_id l \<and> gl_id r \<noteq> gl_id l
          \<and> (case gl_closed_at l of None \<Rightarrow> False | Some t \<Rightarrow> t < gl_created_at r)) (listings db)"

definition restored_listing :: "time \<Rightarrow> listing_row \<Rightarrow> listing_row" where
  "restored_listing now l =
     l\<lparr>gl_lifecycle_state := Listed, gl_review_state := Clear, gl_closure_reason := None,
       gl_listing_revision := gl_listing_revision l + 1, gl_closed_at := None, gl_updated_at := now\<rparr>"

definition restore_listing :: "time \<Rightarrow> js_string \<Rightarrow> js_string \<Rightarrow> governance_db \<Rightarrow> tx_error + governance_db" where
  "restore_listing now actorUserId listingId db =
     bindR (update_listings (restorable_listing db listingId) (restored_listing now) db) (\<lambda>db'.
     bindR (guardR (length (filter (restorable_listing db listingId) (listings db)) = 1) (Thrown ''invalid_decision'')) (\<lambda>_.
     Inr (fold insert_event
       (map (administrator_event actorUserId Removed Listed None)
         (filter (\<lambda>l. gl_id l = listingId) (listings db'))) db')))"

definition restrict_artifact ::
  "time \<Rightarrow> case_row \<Rightarrow> js_string \<Rightarrow> js_string \<Rightarrow> js_string \<Rightarrow> governance_db \<Rightarrow> tx_error + governance_db" where
  "restrict_artifact now c artifactId decisionId ruleCode db =
     bindR (insert_restriction (new_block artifactId decisionId ruleCode) db) (\<lambda>db.
     bindR (propagateRestriction now artifactId (gcase_id c) decisionId ruleCode
       (insert_basis (new_basis artifactId (gcase_listing_id c) (gcase_id c) Basis_restriction decisionId) db)) (\<lambda>db.
     closeBlockedProposals now artifactId decisionId db))"

definition take_down_artifact ::
  "time \<Rightarrow> case_row \<Rightarrow> js_string \<Rightarrow> js_string \<Rightarrow> js_string \<Rightarrow> governance_db \<Rightarrow> tx_error + governance_db" where
  "take_down_artifact now c artifactId decisionId ruleCode db =
     bindR (insert_takedown (new_block artifactId decisionId ruleCode) db) (\<lambda>db.
     bindR (propagateRestriction now artifactId (gcase_id c) decisionId ruleCode
       (insert_basis (new_basis artifactId (gcase_listing_id c) (gcase_id c) Basis_takedown decisionId) db)) (\<lambda>db.
     closeBlockedProposals now artifactId decisionId db))"

definition clear_restriction :: "time \<Rightarrow> js_string \<Rightarrow> js_string \<Rightarrow> governance_db \<Rightarrow> tx_error + governance_db" where
  "clear_restriction now artifactId decisionId db =
     (let db = update_restrictions (active_block_of artifactId) (ended_block Block_cleared now decisionId) db;
          roots = map gb_source_root_decision_id
            (filter (\<lambda>b. gb_artifact_id b = artifactId \<and> gb_ending_decision_id b = Some decisionId)
              (public_sharing_restrictions db));
          db = update_restrictions (\<lambda>b. gb_source_root_decision_id b \<in> set roots \<and> gb_active b)
            (ended_block Block_cleared now decisionId) db in
      closeDerivedBasesAndRecompute now decisionId False db)"

definition clear_takedown :: "time \<Rightarrow> js_string \<Rightarrow> js_string \<Rightarrow> governance_db \<Rightarrow> tx_error + governance_db" where
  "clear_takedown now artifactId decisionId db =
     closeDerivedBasesAndRecompute now decisionId False
       (update_takedowns (active_block_of artifactId) (ended_block Block_cleared now decisionId) db)"

text \<open>The branch of a decision, by its kind and the subject of its case.\<close>

definition apply_kind ::
  "time \<Rightarrow> case_row \<Rightarrow> js_string \<Rightarrow> GovernanceDecisionKind \<Rightarrow> js_string \<Rightarrow> js_string \<Rightarrow> governance_db
    \<Rightarrow> tx_error + governance_db" where
  "apply_kind now c decisionId kind ruleCode actorUserId db =
     (case (kind, gcase_listing_id c, gcase_artifact_id c) of
        (Decide_dismiss, _, _) \<Rightarrow>
          Inr (update_bases (\<lambda>b. rb_case_id b = gcase_id c \<and> active_basis b) (ended_basis Basis_closed now decisionId) db)
      | (Decide_remove, Some l, _) \<Rightarrow> remove_listing now actorUserId l db
      | (Decide_restore, Some l, _) \<Rightarrow> restore_listing now actorUserId l db
      | (Decide_restrict, _, Some a) \<Rightarrow> restrict_artifact now c a decisionId ruleCode db
      | (Decide_clear_restriction, _, Some a) \<Rightarrow> clear_restriction now a decisionId db
      | (Decide_takedown, _, Some a) \<Rightarrow> take_down_artifact now c a decisionId ruleCode db
      | (Decide_clear_takedown, _, Some a) \<Rightarrow> clear_takedown now a decisionId db
      | (Decide_uphold_appeal, _, _) \<Rightarrow>
          if gcase_parent_case_id c = None then Inr db else resolveAppeal now (gcase_id c) decisionId False db
      | (Decide_reverse_appeal, _, _) \<Rightarrow>
          if gcase_parent_case_id c = None then Inr db else resolveAppeal now (gcase_id c) decisionId True db
      | _ \<Rightarrow> Inr db)"

definition decision_notice ::
  "case_row \<Rightarrow> GovernanceDecisionKind \<Rightarrow> js_string \<Rightarrow> listing_row \<Rightarrow> decision_row \<Rightarrow> notification_row" where
  "decision_notice c kind ruleCode l d =
     \<lparr>no_recipient_user_id = gl_owner_user_id l, no_case_id = gcase_id c, no_decision_id = gd_id d,
      no_category = (if kind = Decide_remove then Notify_removal
        else if kind = Decide_restrict then Notify_public_sharing_restriction else Notify_artifact_takedown),
      no_rule_code = ruleCode, no_current_effect = decision_text kind,
      no_appeal_policy_version = gd_appeal_policy_version d, no_appeal_deadline_at = gd_appeal_deadline_at d\<rparr>"

definition notify_owner ::
  "case_row \<Rightarrow> js_string \<Rightarrow> GovernanceDecisionKind \<Rightarrow> js_string \<Rightarrow> governance_db \<Rightarrow> governance_db" where
  "notify_owner c decisionId kind ruleCode db =
     (case row_where (\<lambda>l. gcase_listing_id c = Some (gl_id l)) (listings db) of
        None \<Rightarrow> db
      | Some l \<Rightarrow>
          notify (map (decision_notice c kind ruleCode l) (filter (\<lambda>d. gd_id d = decisionId) (decisions db))) db)"

definition applyDecision ::
  "time \<Rightarrow> case_row \<Rightarrow> js_string \<Rightarrow> GovernanceDecisionKind \<Rightarrow> js_string \<Rightarrow> js_string \<Rightarrow> governance_db
    \<Rightarrow> tx_error + governance_db" where
  "applyDecision now c decisionId kind ruleCode actorUserId db =
     bindR (apply_kind now c decisionId kind ruleCode actorUserId db) (\<lambda>db.
     bindR (case gcase_artifact_id c of None \<Rightarrow> Inr db | Some a \<Rightarrow> recomputeArtifact now a db) (\<lambda>db.
     let db = (case gcase_listing_id c of None \<Rightarrow> db
       | Some l \<Rightarrow> removeFeaturedIfIneligible l actorUserId decisionId db) in
     Inr (if appealable kind then notify_owner c decisionId kind ruleCode db else db)))"

record GovernanceDecisionInput =
  gdi_actorUserId :: js_string
  gdi_caseId :: js_string
  gdi_kind :: GovernanceDecisionKind
  gdi_ruleCode :: js_string
  gdi_rationale :: js_string
  gdi_idempotencyKey :: js_string
  gdi_expectedListingRevision :: "int option"

record AppealPolicySnapshot =
  aps_policyVersion :: js_string
  aps_decisionAt :: time
  aps_deadlineAt :: time

record GovernanceDecisionResponse =
  gdr_decisionId :: js_string
  gdr_committedAt :: time
  gdr_policy :: "AppealPolicySnapshot option"
  gdr_effectiveAccess :: GalleryEffectiveAccess

definition appeal_policy_of :: "decision_row \<Rightarrow> AppealPolicySnapshot option" where
  "appeal_policy_of d =
     (case (gd_appeal_policy_version d, gd_appeal_deadline_at d) of
        (Some v, Some t) \<Rightarrow> Some \<lparr>aps_policyVersion = v, aps_decisionAt = gd_created_at d, aps_deadlineAt = t\<rparr>
      | _ \<Rightarrow> None)"

definition case_access :: "governance_db \<Rightarrow> case_row \<Rightarrow> GalleryEffectiveAccess" where
  "case_access db c =
     (let listing = row_where (\<lambda>l. gcase_listing_id c = Some (gl_id l)) (listings db);
          blocked = (\<lambda>t. case gcase_artifact_id c of None \<Rightarrow> False | Some a \<Rightarrow> exists_where (active_block_of a) t);
          restrictions =
            (if map_option gl_lifecycle_state listing = Some Listed then [] else [Not_listed])
            @ (if map_option gl_review_state listing = Some Restricted \<or> blocked (public_sharing_restrictions db)
               then [Public_sharing_restricted] else [])
            @ (if blocked (artifact_takedowns db) then [Artifact_takedown] else []) in
      \<lparr>accessible = (restrictions = []), access_restrictions = restrictions\<rparr>)"

definition decisionResponse :: "js_string \<Rightarrow> governance_db \<Rightarrow> tx_error + GovernanceDecisionResponse" where
  "decisionResponse decisionId db =
     bindR (fromOption (Thrown ''TypeError'') (row_where (\<lambda>d. gd_id d = decisionId) (decisions db))) (\<lambda>d.
     bindR (fromOption (Thrown ''TypeError'') (row_where (\<lambda>c. gcase_id c = gd_case_id d) (cases db))) (\<lambda>c.
     Inr \<lparr>gdr_decisionId = gd_id d, gdr_committedAt = gd_created_at d, gdr_policy = appeal_policy_of d,
          gdr_effectiveAccess = case_access db c\<rparr>))"

definition decision_message :: "GovernanceDecisionInput \<Rightarrow> js_string \<Rightarrow> js_string \<Rightarrow> json" where
  "decision_message i ruleCode rationale =
     JObj [(''caseId'', JStr (gdi_caseId i)), (''kind'', JStr (decision_text (gdi_kind i))), (''ruleCode'', JStr ruleCode),
       (''rationale'', JStr rationale), (''expectedListingRevision'', json_option JNum (gdi_expectedListingRevision i))]"

definition listing_as_expected :: "governance_db \<Rightarrow> case_row \<Rightarrow> int option \<Rightarrow> bool" where
  "listing_as_expected db c expected \<longleftrightarrow>
     (case gcase_listing_id c of
        None \<Rightarrow> True
      | Some l \<Rightarrow>
          (case row_where (\<lambda>r. gl_id r = l) (listings db) of
             None \<Rightarrow> False
           | Some r \<Rightarrow> expected = Some (gl_listing_revision r)))"

definition new_decision ::
  "governance_env \<Rightarrow> GovernanceDecisionInput \<Rightarrow> js_string \<Rightarrow> js_string \<Rightarrow> case_row \<Rightarrow> appeal_policy_row option \<Rightarrow> decision_row" where
  "new_decision env i ruleCode rationale c policy =
     \<lparr>gd_id = ''gdecision_'' @ gv_uuid env 0, gd_case_id = gdi_caseId i, gd_actor_user_id = gdi_actorUserId i,
      gd_decision_kind = gdi_kind i, gd_rule_code = ruleCode, gd_rationale = rationale,
      gd_evidence_digest = gcase_evidence_digest c,
      gd_appeal_policy_version = map_option apo_version policy,
      gd_appeal_deadline_at = map_option (\<lambda>p. gv_now env + apo_deadline_seconds p * 1000) policy,
      gd_idempotency_key_digest = digest_json env (JStr (gdi_idempotencyKey i)),
      gd_input_fingerprint = digest_json env (decision_message i ruleCode rationale),
      gd_created_at = gv_now env\<rparr>"

definition decided_case :: "time \<Rightarrow> case_row \<Rightarrow> case_row" where
  "decided_case now c = c\<lparr>gcase_state := Case_decided, gcase_closed_at := Some now\<rparr>"

definition first_decision ::
  "governance_env \<Rightarrow> GovernanceDecisionInput \<Rightarrow> js_string \<Rightarrow> js_string \<Rightarrow> governance_db
    \<Rightarrow> tx_error + governance_db \<times> GovernanceDecisionResponse" where
  "first_decision env i ruleCode rationale db =
     bindR (fromOption (Thrown ''case_not_found'') (row_where (\<lambda>c. gcase_id c = gdi_caseId i) (cases db))) (\<lambda>c.
     bindR (guardR (gcase_state c = Case_open) (Thrown ''case_closed'')) (\<lambda>_.
     bindR (guardR (gdi_kind i \<in> set (allowedDecisions (gcase_kind c))) (Thrown ''invalid_decision'')) (\<lambda>_.
     bindR (guardR (listing_as_expected db c (gdi_expectedListingRevision i)) (Thrown ''decision_conflict'')) (\<lambda>_.
     let policy = (if appealable (gdi_kind i) then row_where apo_active (appeal_policies db) else None) in
     bindR (guardR (appealable (gdi_kind i) \<longrightarrow> policy \<noteq> None) (Thrown ''invalid_decision'')) (\<lambda>_.
     bindR (guardR (case policy of None \<Rightarrow> True | Some p \<Rightarrow> apo_deadline_seconds p < 2 ^ 31) (Thrown ''integer out of range'')) (\<lambda>_.
     let d = new_decision env i ruleCode rationale c policy in
     bindR (insert_decision d db) (\<lambda>db.
     bindR (applyDecision (gv_now env) c (gd_id d) (gdi_kind i) ruleCode (gdi_actorUserId i) db) (\<lambda>db.
     let db = db\<lparr>cases := update_where (\<lambda>c. gcase_id c = gdi_caseId i) (decided_case (gv_now env)) (cases db)\<rparr> in
     bindR (decisionResponse (gd_id d) db) (\<lambda>response.
     Inr (db, response))))))))))"

definition made_decision :: "governance_env \<Rightarrow> GovernanceDecisionInput \<Rightarrow> decision_row \<Rightarrow> bool" where
  "made_decision env i d \<longleftrightarrow>
     gd_actor_user_id d = gdi_actorUserId i \<and> gd_idempotency_key_digest d = digest_json env (JStr (gdi_idempotencyKey i))"

definition decide_body ::
  "governance_env \<Rightarrow> GovernanceDecisionInput \<Rightarrow> js_string \<Rightarrow> js_string \<Rightarrow> governance_db
    \<Rightarrow> tx_error + governance_db \<times> GovernanceDecisionResponse" where
  "decide_body env i ruleCode rationale db =
     bindR (authority_require (gdi_actorUserId i) Audit_decision (Some (gdi_caseId i)) db) (\<lambda>db.
     case row_where (made_decision env i) (decisions db) of
       Some d \<Rightarrow>
         bindR (guardR (gd_input_fingerprint d = digest_json env (decision_message i ruleCode rationale))
           (Thrown ''decision_conflict'')) (\<lambda>_.
         bindR (decisionResponse (gd_id d) db) (\<lambda>response. Inr (db, response)))
     | None \<Rightarrow> first_decision env i ruleCode rationale db)"

definition decide ::
  "governance_env \<Rightarrow> GovernanceDecisionInput \<Rightarrow> governance_db \<Rightarrow> governance_db \<times> (tx_error + GovernanceDecisionResponse)" where
  "decide env i db =
     (case bindR (safeText (gdi_rationale i) 8000) (\<lambda>rationale.
        bindR (safeText (gdi_ruleCode i) 200) (\<lambda>ruleCode. Inr (rationale, ruleCode))) of
        Inl e \<Rightarrow> (db, Inl e)
      | Inr (rationale, ruleCode) \<Rightarrow> run_tx (decide_body env i ruleCode rationale) db)"

subsection \<open>Appeals\<close>

record GalleryAppealInput =
  gai_userId :: js_string
  gai_decisionId :: js_string
  gai_statement :: js_string
  gai_idempotencyKey :: js_string

record GalleryAppealResponse =
  gar_appealId :: js_string
  gar_policy :: AppealPolicySnapshot

text \<open>The owner of the listing, or of the artifact when the case has no listing.\<close>

definition affected_owner :: "governance_db \<Rightarrow> case_row \<Rightarrow> js_string option" where
  "affected_owner db c =
     (case row_where (\<lambda>l. gcase_listing_id c = Some (gl_id l)) (listings db) of
        Some l \<Rightarrow> Some (gl_owner_user_id l)
      | None \<Rightarrow> (case gcase_artifact_id c of None \<Rightarrow> None | Some a \<Rightarrow> map_of (artifact_owners db) a))"

definition decision_in_force :: "governance_db \<Rightarrow> decision_row \<Rightarrow> case_row \<Rightarrow> bool" where
  "decision_in_force db d c \<longleftrightarrow>
     exists_where (\<lambda>b. gb_source_decision_id b = gd_id d \<and> gb_active b) (public_sharing_restrictions db)
     \<or> exists_where (\<lambda>b. gb_source_decision_id b = gd_id d \<and> gb_active b) (artifact_takedowns db)
     \<or> gd_decision_kind d = Decide_remove
       \<and> exists_where (\<lambda>l. gcase_listing_id c = Some (gl_id l) \<and> gl_lifecycle_state l = Removed
           \<and> gl_closure_reason l = Some Administrator_removal) (listings db)"

definition appeal_message :: "GalleryAppealInput \<Rightarrow> js_string \<Rightarrow> json" where
  "appeal_message i statement = JObj [(''decisionId'', JStr (gai_decisionId i)), (''statement'', JStr statement)]"

definition appeal_snapshot :: "AppealPolicySnapshot \<Rightarrow> GalleryAppealInput \<Rightarrow> js_string \<Rightarrow> json" where
  "appeal_snapshot policy i statement =
     JObj [(''challengedDecisionId'', JStr (gai_decisionId i)), (''policyVersion'', JStr (aps_policyVersion policy)),
       (''deadlineAt'', JStr (iso_of (aps_deadlineAt policy))), (''statement'', JStr statement)]"

definition appeal_case :: "governance_env \<Rightarrow> js_string \<Rightarrow> case_row \<Rightarrow> case_row" where
  "appeal_case env evidence c =
     \<lparr>gcase_id = ''gcase_'' @ gv_uuid env 1, gcase_kind = Case_appeal, gcase_listing_id = gcase_listing_id c,
      gcase_artifact_id = gcase_artifact_id c, gcase_proposal_id = None, gcase_report_id = None,
      gcase_parent_case_id = Some (gcase_id c), gcase_state = Case_open, gcase_evidence_digest = evidence,
      gcase_opened_at = gv_now env, gcase_closed_at = None\<rparr>"

definition new_appeal :: "governance_env \<Rightarrow> GalleryAppealInput \<Rightarrow> js_string \<Rightarrow> AppealPolicySnapshot \<Rightarrow> appeal_row" where
  "new_appeal env i statement policy =
     \<lparr>gap_id = ''gappeal_'' @ gv_uuid env 0, gap_case_id = ''gcase_'' @ gv_uuid env 1, gap_decision_id = gai_decisionId i,
      gap_appellant_user_id = gai_userId i, gap_policy_version = aps_policyVersion policy,
      gap_deadline_at = aps_deadlineAt policy, gap_statement = statement, gap_state = Appeal_state_pending,
      gap_idempotency_key_digest = digest_json env (JStr (gai_idempotencyKey i)),
      gap_input_fingerprint = digest_json env (appeal_message i statement),
      gap_resolved_at = None, gap_resolution_decision_id = None\<rparr>"

definition first_appeal ::
  "governance_env \<Rightarrow> GalleryAppealInput \<Rightarrow> js_string \<Rightarrow> case_row \<Rightarrow> AppealPolicySnapshot
    \<Rightarrow> governance_db \<Rightarrow> tx_error + governance_db \<times> GalleryAppealResponse" where
  "first_appeal env i statement c policy db =
     bindR (guardR (\<not> exists_where (\<lambda>a. gap_decision_id a = gai_decisionId i \<and> gap_appellant_user_id a = gai_userId i)
       (appeals db)) (Thrown ''appeal_unavailable'')) (\<lambda>_.
     bindR (insert_case (appeal_case env (digest_json env (appeal_snapshot policy i statement)) c) db) (\<lambda>db.
     bindR (insert_appeal (new_appeal env i statement policy) db) (\<lambda>db.
     Inr (db, \<lparr>gar_appealId = gap_id (new_appeal env i statement policy), gar_policy = policy\<rparr>))))"

definition appeal_body ::
  "governance_env \<Rightarrow> GalleryAppealInput \<Rightarrow> js_string \<Rightarrow> governance_db
    \<Rightarrow> tx_error + governance_db \<times> GalleryAppealResponse" where
  "appeal_body env i statement db =
     bindR (fromOption (Thrown ''appeal_unavailable'') (row_where (\<lambda>d. gd_id d = gai_decisionId i) (decisions db))) (\<lambda>d.
     bindR (fromOption (Thrown ''appeal_unavailable'') (row_where (\<lambda>c. gcase_id c = gd_case_id d) (cases db))) (\<lambda>c.
     bindR (fromOption (Thrown ''appeal_unavailable'') (appeal_policy_of d)) (\<lambda>policy.
     bindR (guardR (decision_in_force db d c) (Thrown ''appeal_unavailable'')) (\<lambda>_.
     bindR (guardR (affected_owner db c = Some (gai_userId i)) (Thrown ''appeal_forbidden'')) (\<lambda>_.
     bindR (guardR (gv_dateNow env < aps_deadlineAt policy) (Thrown ''appeal_expired'')) (\<lambda>_.
     case row_where (\<lambda>a. gap_appellant_user_id a = gai_userId i
         \<and> gap_idempotency_key_digest a = digest_json env (JStr (gai_idempotencyKey i))) (appeals db) of
       Some a \<Rightarrow>
         bindR (guardR (gap_input_fingerprint a = digest_json env (appeal_message i statement))
           (Thrown ''decision_conflict'')) (\<lambda>_.
         Inr (db, \<lparr>gar_appealId = gap_id a, gar_policy = policy\<rparr>))
     | None \<Rightarrow> first_appeal env i statement c policy db))))))"

definition appeal ::
  "governance_env \<Rightarrow> GalleryAppealInput \<Rightarrow> governance_db
    \<Rightarrow> governance_db \<times> (tx_error + GalleryAppealResponse)" where
  "appeal env i db =
     (case safeText (gai_statement i) 8000 of
        Inl e \<Rightarrow> (db, Inl e)
      | Inr statement \<Rightarrow> run_tx (appeal_body env i statement) db)"

subsection \<open>Featured listings\<close>

definition featurable :: "governance_db \<Rightarrow> js_string \<Rightarrow> int \<Rightarrow> listing_row \<Rightarrow> bool" where
  "featurable db listingId expectedListingRevision l \<longleftrightarrow>
     gl_id l = listingId \<and> gl_listing_revision l = expectedListingRevision \<and> gl_lifecycle_state l = Listed
     \<and> gl_review_state l \<noteq> Restricted \<and> \<not> exists_where (active_block_of (gl_artifact_id l)) (artifact_takedowns db)"

definition upsert_featured :: "featured_row \<Rightarrow> governance_db \<Rightarrow> tx_error + governance_db" where
  "upsert_featured f db =
     (let t = (if exists_where (\<lambda>r. fp_position r = fp_position f) (featured_positions db)
         then update_where (\<lambda>r. fp_position r = fp_position f) (\<lambda>_. f) (featured_positions db)
         else featured_positions db @ [f]) in
      if fp_position f \<le> 0 then Inl (Check_violation ''gallery_featured_position_position_check'')
      else if featured_unique t then Inr (db\<lparr>featured_positions := t\<rparr>)
      else Inl (Unique_violation ''gallery_featured_position_listing_id_key''))"

definition featured_event_of :: "js_string \<Rightarrow> js_string \<Rightarrow> int \<Rightarrow> featured_action \<Rightarrow> js_string \<Rightarrow> featured_event" where
  "featured_event_of actor listingId position action reason =
     \<lparr>fe_actor_user_id = Some actor, fe_listing_id = listingId, fe_position = position, fe_action = action,
      fe_reason_code = reason\<rparr>"

definition setFeatured ::
  "js_string \<Rightarrow> js_string \<Rightarrow> int \<Rightarrow> int \<Rightarrow> governance_db \<Rightarrow> governance_db \<times> (tx_error + int \<times> js_string)" where
  "setFeatured actorUserId listingId position expectedListingRevision = run_tx (\<lambda>db.
     bindR (authority_require actorUserId Audit_featured_change (Some listingId) db) (\<lambda>db.
     bindR (fromOption (Thrown ''invalid_decision'')
       (row_where (featurable db listingId expectedListingRevision) (listings db))) (\<lambda>l.
     bindR (upsert_featured \<lparr>fp_position = position, fp_listing_id = listingId, fp_set_by_user_id = actorUserId,
       fp_listing_revision = gl_listing_revision l\<rparr> db) (\<lambda>db.
     Inr (db\<lparr>featured_events := featured_events db @
            [featured_event_of actorUserId listingId position Featured_placed ''administrator_selection'']\<rparr>,
          (position, listingId))))))"

definition removeFeatured :: "js_string \<Rightarrow> int \<Rightarrow> governance_db \<Rightarrow> governance_db \<times> (tx_error + unit)" where
  "removeFeatured actorUserId position = run_tx (\<lambda>db.
     bindR (authority_require actorUserId Audit_featured_change (Some (decimal_int position)) db) (\<lambda>db.
     case row_where (\<lambda>f. fp_position f = position) (featured_positions db) of
       None \<Rightarrow> Inr (db, ())
     | Some f \<Rightarrow>
         Inr (db\<lparr>featured_positions := filter (\<lambda>f. fp_position f \<noteq> position) (featured_positions db),
                featured_events := featured_events db @
                  [featured_event_of actorUserId (fp_listing_id f) position Featured_removed ''administrator_removal'']\<rparr>, ())))"

end
