(* ===== verification/Governance_Laws.thy ===== *)
theory Governance_Laws
  imports Governance
begin

text \<open>
  What the governance of the Gallery keeps along every sequence of calls: the links between
  cases, decisions, blocks, bases and appeals, and the review state as the projection of
  what is in force.
\<close>

subsection \<open>Calls\<close>

datatype governance_call =
    Call_submit governance_env challenge_result GalleryReportInput
  | Call_decide governance_env GovernanceDecisionInput
  | Call_appeal governance_env GalleryAppealInput
  | Call_feature js_string js_string int int
  | Call_unfeature js_string int
  | Call_grant time js_string js_string
  | Call_revoke time js_string js_string

fun governance_step :: "governance_call \<Rightarrow> governance_db \<Rightarrow> governance_db" where
  "governance_step (Call_submit env challenge i) db = fst (submit env challenge i db)"
| "governance_step (Call_decide env i) db = fst (decide env i db)"
| "governance_step (Call_appeal env i) db = fst (appeal env i db)"
| "governance_step (Call_feature actor l position revision) db = fst (setFeatured actor l position revision db)"
| "governance_step (Call_unfeature actor position) db = fst (removeFeatured actor position db)"
| "governance_step (Call_grant now actor u) db = fst (grant now actor u db)"
| "governance_step (Call_revoke now actor u) db = fst (revoke now actor u db)"

definition governance_run :: "governance_call list \<Rightarrow> governance_db \<Rightarrow> governance_db" where
  "governance_run calls db = fold governance_step calls db"

lemma governance_run_simps [simp]:
  "governance_run [] db = db"
  "governance_run (c # cs) db = governance_run cs (governance_step c db)"
  by (simp_all add: governance_run_def)

lemma governance_run_keeps:
  assumes "P db" and "\<And>c db. P db \<Longrightarrow> P (governance_step c db)"
  shows "P (governance_run calls db)"
  using assms(1) by (induction calls arbitrary: db) (simp_all add: assms(2))

subsection \<open>What the statements leave\<close>

text \<open>
  \<open>untouched db db'\<close>: the tables of the links between cases, decisions, appeals, blocks and
  bases are as they were.
\<close>

definition untouched :: "governance_db \<Rightarrow> governance_db \<Rightarrow> bool" where
  "untouched db db' \<longleftrightarrow>
     cases db' = cases db \<and> decisions db' = decisions db \<and> appeals db' = appeals db
     \<and> public_sharing_restrictions db' = public_sharing_restrictions db
     \<and> artifact_takedowns db' = artifact_takedowns db \<and> review_bases db' = review_bases db"

lemma untouchedD:
  assumes "untouched db db'"
  shows "cases db' = cases db" "decisions db' = decisions db" "appeals db' = appeals db"
    "public_sharing_restrictions db' = public_sharing_restrictions db"
    "artifact_takedowns db' = artifact_takedowns db" "review_bases db' = review_bases db"
  using assms by (simp_all add: untouched_def)

lemma untouched_refl: "untouched db db"
  by (simp add: untouched_def)

lemma untouched_trans: "untouched db db1 \<Longrightarrow> untouched db1 db2 \<Longrightarrow> untouched db db2"
  by (simp add: untouched_def)

lemma untouched_frame:
  "untouched db (db\<lparr>listings := x1\<rparr>)" "untouched db (db\<lparr>proposals := x2\<rparr>)" "untouched db (db\<lparr>tombstones := x3\<rparr>)"
  "untouched db (db\<lparr>lifecycle_events := x4\<rparr>)" "untouched db (db\<lparr>notifications := x5\<rparr>)"
  "untouched db (db\<lparr>featured_positions := x6\<rparr>)" "untouched db (db\<lparr>featured_events := x7\<rparr>)"
  "untouched db (db\<lparr>administrator_audit := x8\<rparr>)" "untouched db (db\<lparr>administrators := x9\<rparr>)"
  "untouched db (db\<lparr>reporter_signals := x10\<rparr>)" "untouched db (db\<lparr>reports := x11\<rparr>)"
  "untouched db (db\<lparr>case_evidence := x12\<rparr>)"
  by (simp_all add: untouched_def)

lemma projected_untouched:
  "untouched db db' \<Longrightarrow> projected_review_state db' a = projected_review_state db a"
  by (simp add: untouched_def projected_review_state_def)

text \<open>A statement over listings changes nothing else, and leaves the rows it does not select.\<close>

lemma update_listings_effect:
  assumes "update_listings p f db = Inr db'"
  shows "untouched db db'" "listings db' = update_where p f (listings db)" "saved_copies db' = saved_copies db"
    "revisions db' = revisions db"
    "list_all listing_row_ok (listings db')" "listings_unique (listings db')"
  using assms by (simp_all add: update_listings_Inr untouched_frame)

lemma fold_insert_event: "fold insert_event es db = db\<lparr>lifecycle_events := lifecycle_events db @ es\<rparr>"
  by (induction es arbitrary: db) (simp_all add: insert_event_def)

lemma insert_tombstones_frame:
  assumes "insert_tombstones_do_nothing ts db = Inr db'"
  shows "untouched db db' \<and> listings db' = listings db \<and> proposals db' = proposals db"
  using assms
proof (induction ts arbitrary: db)
  case (Cons t ts)
  from Cons.prems obtain db1 where one: "insert_tombstone_do_nothing t db = Inr db1"
    and rest: "insert_tombstones_do_nothing ts db1 = Inr db'" by (auto simp: bindR_eq_Inr)
  have "untouched db db1 \<and> listings db1 = listings db \<and> proposals db1 = proposals db"
    using one by (auto simp: insert_tombstone_do_nothing_Inr untouched_refl untouched_frame split: if_splits)
  with Cons.IH [OF rest] show ?case by (metis untouched_trans)
qed (simp add: untouched_refl)

lemma untouched_audit: "untouched db (audit a s x r db)"
  by (simp add: audit_def untouched_frame)

lemma audit_listings [simp]: "listings (audit a s x r db) = listings db"
  by (simp add: audit_def)

lemma authority_require_Inr:
  "authority_require u x r db = Inr db' \<longleftrightarrow>
     length (filter (active_administrator u) (administrators db)) = 1 \<and> db' = audit u None x r db"
  by (auto simp: authority_require_def bindR_eq_Inr)

subsection \<open>Review states\<close>

text \<open>The open listings outside \<open>X\<close> show what is in force on their artifact.\<close>

definition projected_except :: "js_string set \<Rightarrow> governance_db \<Rightarrow> bool" where
  "projected_except X db \<longleftrightarrow>
     (\<forall>l \<in> set (listings db). open_listing l \<longrightarrow> gl_artifact_id l \<notin> X \<longrightarrow>
       gl_review_state l = projected_review_state db (gl_artifact_id l))"

lemma projected_exceptI:
  assumes "projected_except Y db"
    and "\<And>l'. l' \<in> set (listings db') \<Longrightarrow> open_listing l' \<Longrightarrow> gl_artifact_id l' \<notin> X \<Longrightarrow>
      gl_review_state l' = projected_review_state db' (gl_artifact_id l')
      \<or> (\<exists>l \<in> set (listings db). open_listing l \<and> gl_artifact_id l = gl_artifact_id l' \<and> gl_review_state l = gl_review_state l')"
    and "\<And>a. a \<notin> X \<Longrightarrow> a \<notin> Y \<and> projected_review_state db' a = projected_review_state db a"
  shows "projected_except X db'"
  unfolding projected_except_def
proof (intro ballI impI)
  fix l' assume l': "l' \<in> set (listings db')" "open_listing l'" "gl_artifact_id l' \<notin> X"
  from assms(2) [OF l'] show "gl_review_state l' = projected_review_state db' (gl_artifact_id l')"
    using assms(1,3) l'(3) unfolding projected_except_def by metis
qed

lemma projected_except_mono: "projected_except X db \<Longrightarrow> X \<subseteq> Y \<Longrightarrow> projected_except Y db"
  by (auto simp: projected_except_def)

lemma projected_except_tables:
  assumes "projected_except Y db" "listings db' = listings db"
    and "\<And>a. a \<notin> X \<Longrightarrow> a \<notin> Y \<and> projected_review_state db' a = projected_review_state db a"
  shows "projected_except X db'"
  by (rule projected_exceptI [OF assms(1) _ assms(3)]) (use assms(2) in auto)

lemma projected_except_untouched:
  assumes "projected_except X db" "untouched db db'" "listings db' = listings db"
  shows "projected_except X db'"
  by (rule projected_except_tables [OF assms(1,3)]) (simp add: projected_untouched [OF assms(2)])

lemma open_listing_review [simp]:
  "open_listing (l\<lparr>gl_review_state := s, gl_updated_at := t\<rparr>) = open_listing l"
  by (simp add: open_listing_def)

text \<open>Listings that an update closes or leaves with their review state stay projected.\<close>

lemma projected_except_listings:
  assumes "projected_except X db" "update_listings p f db = Inr db'"
    and "\<And>l. l \<in> set (listings db) \<Longrightarrow> p l \<Longrightarrow> gl_artifact_id (f l) = gl_artifact_id l \<and>
      (open_listing (f l) \<longrightarrow> gl_artifact_id l \<notin> X \<longrightarrow> open_listing l \<and> gl_review_state (f l) = gl_review_state l
        \<or> gl_review_state (f l) = projected_review_state db (gl_artifact_id l))"
  shows "projected_except X db'"
proof (rule projected_exceptI [OF assms(1)])
  note e = update_listings_effect [OF assms(2)]
  show "a \<notin> X \<and> projected_review_state db' a = projected_review_state db a" if "a \<notin> X" for a
    using that projected_untouched [OF e(1)] by simp
  fix l' assume l': "l' \<in> set (listings db')" "open_listing l'" "gl_artifact_id l' \<notin> X"
  then obtain l where l: "l \<in> set (listings db)" "l' = (if p l then f l else l)" by (auto simp: e(2) in_update_where)
  show "gl_review_state l' = projected_review_state db' (gl_artifact_id l')
    \<or> (\<exists>l \<in> set (listings db). open_listing l \<and> gl_artifact_id l = gl_artifact_id l' \<and> gl_review_state l = gl_review_state l')"
  proof (cases "p l")
    case True
    with assms(3) [OF l(1) True] l l' show ?thesis by (auto simp: projected_untouched [OF e(1)])
  next
    case False
    with l l' show ?thesis by auto
  qed
qed

lemma recomputeArtifact_effect:
  assumes "recomputeArtifact now a db = Inr db'"
  shows "untouched db db'" "listings_unique (listings db')"
    "listings db' = update_where (\<lambda>r. gl_artifact_id r = a \<and> open_listing r)
       (\<lambda>r. r\<lparr>gl_review_state := projected_review_state db a, gl_updated_at := now\<rparr>) (listings db)"
  using update_listings_effect [OF assms [unfolded recomputeArtifact_def]] by simp_all

lemma recomputeArtifact_projected:
  assumes "recomputeArtifact now a db = Inr db'" "projected_except X db"
  shows "projected_except (X - {a}) db'"
  unfolding projected_except_def
proof (intro ballI impI)
  note e = recomputeArtifact_effect [OF assms(1)]
  fix l' assume l': "l' \<in> set (listings db')" "open_listing l'" "gl_artifact_id l' \<notin> X - {a}"
  then obtain l where l: "l \<in> set (listings db)"
      "l' = (if gl_artifact_id l = a \<and> open_listing l
        then l\<lparr>gl_review_state := projected_review_state db a, gl_updated_at := now\<rparr> else l)"
    unfolding e(3) in_update_where by blast
  have "gl_review_state l' = projected_review_state db (gl_artifact_id l')"
  proof (cases "gl_artifact_id l = a \<and> open_listing l")
    case True
    with l(2) show ?thesis by simp
  next
    case False
    with l l' have "l' = l" "open_listing l" "gl_artifact_id l \<notin> X" by auto
    with l(1) assms(2) show ?thesis unfolding projected_except_def by blast
  qed
  then show "gl_review_state l' = projected_review_state db' (gl_artifact_id l')"
    by (simp add: projected_untouched [OF e(1)])
qed

lemma recompute_all_projected:
  assumes "recompute_all now as db = Inr db'" "projected_except X db"
  shows "projected_except (X - set as) db' \<and> untouched db db'"
  using assms
proof (induction "as" arbitrary: db X)
  case (Cons a "as")
  from Cons.prems obtain db1 where one: "recomputeArtifact now a db = Inr db1" and rest: "recompute_all now as db1 = Inr db'"
    by (auto simp: bindR_eq_Inr)
  note first = recomputeArtifact_projected [OF one Cons.prems(2)]
  from Cons.IH [OF rest this] have "projected_except (X - {a} - set as) db'" "untouched db1 db'" by simp_all
  moreover have "X - {a} - set as = X - set (a # as)" by auto
  ultimately show ?case using untouched_trans [OF recomputeArtifact_effect(1) [OF one]] by simp
qed (simp add: untouched_refl)

subsection \<open>Links\<close>

definition block_traced :: "governance_db \<Rightarrow> block_row \<Rightarrow> bool" where
  "block_traced db b \<longleftrightarrow>
     gb_source_root_decision_id b = gb_source_decision_id b \<and> gb_source_decision_id b \<in> gd_id ` set (decisions db)"

definition takedown_traced :: "governance_db \<Rightarrow> block_row \<Rightarrow> bool" where
  "takedown_traced db b \<longleftrightarrow>
     (\<exists>d \<in> set (decisions db). \<exists>c \<in> set (cases db). gd_id d = gb_source_decision_id b \<and> gcase_id c = gd_case_id d
       \<and> gcase_artifact_id c = Some (gb_artifact_id b))"

definition appeal_traced :: "governance_db \<Rightarrow> appeal_row \<Rightarrow> bool" where
  "appeal_traced db p \<longleftrightarrow>
     (\<exists>c \<in> set (cases db). \<exists>d \<in> set (decisions db). \<exists>c0 \<in> set (cases db). gcase_id c = gap_case_id p
       \<and> gd_id d = gap_decision_id p \<and> gcase_id c0 = gd_case_id d \<and> gcase_artifact_id c0 = gcase_artifact_id c)"

definition block_of_basis :: "governance_db \<Rightarrow> js_string \<Rightarrow> js_string \<Rightarrow> bool" where
  "block_of_basis db a decisionId \<longleftrightarrow>
     (\<exists>b \<in> set (public_sharing_restrictions db) \<union> set (artifact_takedowns db).
       gb_active b \<and> gb_artifact_id b = a \<and> gb_source_decision_id b = decisionId)"

definition basis_traced :: "governance_db \<Rightarrow> basis_row \<Rightarrow> bool" where
  "basis_traced db b \<longleftrightarrow>
     (case rb_source_root_decision_id b of
        None \<Rightarrow> (\<exists>c \<in> set (cases db). gcase_id c = rb_case_id b \<and> gcase_artifact_id c = Some (rb_artifact_id b))
      | Some decisionId \<Rightarrow>
          (\<exists>d \<in> set (decisions db). gd_id d = decisionId \<and> gd_case_id d = rb_case_id b)
          \<and> (active_basis b \<longrightarrow> block_of_basis db (rb_artifact_id b) decisionId))"

definition governance_traced :: "governance_db \<Rightarrow> bool" where
  "governance_traced db \<longleftrightarrow>
     (\<forall>c \<in> set (cases db). gcase_kind c = Case_report \<or> gcase_kind c = Case_appeal)
     \<and> unique_on (\<lambda>_. True) gcase_id (cases db) \<and> unique_on (\<lambda>_. True) gd_id (decisions db)
     \<and> (\<forall>d \<in> set (decisions db). gd_case_id d \<in> gcase_id ` set (cases db))
     \<and> (\<forall>b \<in> set (public_sharing_restrictions db) \<union> set (artifact_takedowns db). block_traced db b)
     \<and> (\<forall>b \<in> set (artifact_takedowns db). takedown_traced db b)
     \<and> (\<forall>p \<in> set (appeals db). appeal_traced db p)
     \<and> (\<forall>b \<in> set (review_bases db). basis_traced db b)"

definition decided_cases :: "governance_db \<Rightarrow> bool" where
  "decided_cases db \<longleftrightarrow>
     (\<forall>d \<in> set (decisions db). \<forall>c \<in> set (cases db). gcase_id c = gd_case_id d \<longrightarrow> gcase_state c \<noteq> Case_open)"

lemma tracedD:
  assumes "governance_traced db"
  shows "c \<in> set (cases db) \<Longrightarrow> gcase_kind c = Case_report \<or> gcase_kind c = Case_appeal"
    "unique_on (\<lambda>_. True) gcase_id (cases db)" "unique_on (\<lambda>_. True) gd_id (decisions db)"
    "d \<in> set (decisions db) \<Longrightarrow> \<exists>c \<in> set (cases db). gcase_id c = gd_case_id d"
    "b \<in> set (public_sharing_restrictions db) \<Longrightarrow> block_traced db b"
    "b \<in> set (artifact_takedowns db) \<Longrightarrow> block_traced db b \<and> takedown_traced db b"
    "p \<in> set (appeals db) \<Longrightarrow> appeal_traced db p"
    "r \<in> set (review_bases db) \<Longrightarrow> basis_traced db r"
proof -
  have "d \<in> set (decisions db) \<Longrightarrow> gd_case_id d \<in> gcase_id ` set (cases db)" using assms by (simp add: governance_traced_def)
  then show "d \<in> set (decisions db) \<Longrightarrow> \<exists>c \<in> set (cases db). gcase_id c = gd_case_id d" by (auto simp: image_iff)
qed (use assms in \<open>simp_all add: governance_traced_def\<close>)

lemma traced_untouched:
  assumes "untouched db db'"
  shows "governance_traced db' = governance_traced db" "decided_cases db' = decided_cases db"
proof -
  note [simp] = untouchedD [OF assms]
  have "block_of_basis db' = block_of_basis db" by (simp add: fun_eq_iff block_of_basis_def)
  then have "basis_traced db' = basis_traced db" by (simp add: fun_eq_iff basis_traced_def split: option.split)
  moreover have "block_traced db' = block_traced db" "takedown_traced db' = takedown_traced db" "appeal_traced db' = appeal_traced db"
    by (simp_all add: fun_eq_iff block_traced_def takedown_traced_def appeal_traced_def)
  ultimately show "governance_traced db' = governance_traced db" by (simp add: governance_traced_def)
  show "decided_cases db' = decided_cases db" by (simp add: decided_cases_def)
qed

text \<open>More cases and decisions, blocks kept: what was traced stays traced.\<close>

lemma traced_more:
  assumes cs: "\<And>c. c \<in> set (cases db) \<Longrightarrow> \<exists>c' \<in> set (cases db'). gcase_id c' = gcase_id c \<and> gcase_artifact_id c' = gcase_artifact_id c"
    and ds: "set (decisions db) \<subseteq> set (decisions db')"
  shows "block_traced db b \<Longrightarrow> block_traced db' b" "takedown_traced db b \<Longrightarrow> takedown_traced db' b"
    "appeal_traced db p \<Longrightarrow> appeal_traced db' p"
    "basis_traced db r \<Longrightarrow> set (public_sharing_restrictions db) \<subseteq> set (public_sharing_restrictions db') \<Longrightarrow>
      set (artifact_takedowns db) \<subseteq> set (artifact_takedowns db') \<Longrightarrow> basis_traced db' r"
proof -
  show "block_traced db b \<Longrightarrow> block_traced db' b" using ds by (auto simp: block_traced_def)
  show "takedown_traced db' b" if traced: "takedown_traced db b"
  proof -
    from traced obtain d c where "d \<in> set (decisions db)" "c \<in> set (cases db)" "gd_id d = gb_source_decision_id b"
        "gcase_id c = gd_case_id d" "gcase_artifact_id c = Some (gb_artifact_id b)"
      unfolding takedown_traced_def by blast
    moreover obtain c' where "c' \<in> set (cases db')" "gcase_id c' = gcase_id c" "gcase_artifact_id c' = gcase_artifact_id c"
      using cs [OF \<open>c \<in> set (cases db)\<close>] by blast
    ultimately show ?thesis unfolding takedown_traced_def using ds by (intro bexI [of _ d] bexI [of _ c']) auto
  qed
  show "appeal_traced db' p" if traced: "appeal_traced db p"
  proof -
    from traced obtain c d c0 where *: "c \<in> set (cases db)" "d \<in> set (decisions db)" "c0 \<in> set (cases db)"
        "gcase_id c = gap_case_id p" "gd_id d = gap_decision_id p" "gcase_id c0 = gd_case_id d"
        "gcase_artifact_id c0 = gcase_artifact_id c"
      unfolding appeal_traced_def by blast
    obtain c' where "c' \<in> set (cases db')" "gcase_id c' = gcase_id c" "gcase_artifact_id c' = gcase_artifact_id c"
      using cs [OF *(1)] by blast
    moreover obtain c0' where "c0' \<in> set (cases db')" "gcase_id c0' = gcase_id c0" "gcase_artifact_id c0' = gcase_artifact_id c0"
      using cs [OF *(3)] by blast
    ultimately show ?thesis unfolding appeal_traced_def using * ds
      by (intro bexI [of _ c'] bexI [of _ d] bexI [of _ c0']) auto
  qed
  show "basis_traced db' r" if traced: "basis_traced db r"
    and bs: "set (public_sharing_restrictions db) \<subseteq> set (public_sharing_restrictions db')"
      "set (artifact_takedowns db) \<subseteq> set (artifact_takedowns db')"
  proof (cases "rb_source_root_decision_id r")
    case None
    with traced obtain c where "c \<in> set (cases db)" "gcase_id c = rb_case_id r" "gcase_artifact_id c = Some (rb_artifact_id r)"
      by (auto simp: basis_traced_def)
    moreover from cs [OF this(1)] obtain c' where "c' \<in> set (cases db')" "gcase_id c' = gcase_id c"
        "gcase_artifact_id c' = gcase_artifact_id c" by blast
    ultimately show ?thesis using None by (auto simp: basis_traced_def)
  next
    case (Some e)
    have "block_of_basis db a e \<Longrightarrow> block_of_basis db' a e" for a using bs by (auto simp: block_of_basis_def)
    with traced Some ds show ?thesis by (auto simp: basis_traced_def)
  qed
qed

subsection \<open>The effects of a decision\<close>

text \<open>Restrictions that propagate: copies get one each, unless one is in force already.\<close>

lemma fold_restrictions:
  fixes bs :: "block_row list"
  defines "after db \<equiv> fold insert_restriction_do_nothing bs db"
  shows "\<exists>new. public_sharing_restrictions (after db) = public_sharing_restrictions db @ new \<and> set new \<subseteq> set bs
    \<and> after db = db\<lparr>public_sharing_restrictions := public_sharing_restrictions db @ new\<rparr>"
  unfolding after_def
proof (induction bs arbitrary: db)
  case (Cons b bs)
  let ?db1 = "insert_restriction_do_nothing b db"
  obtain one where one: "?db1 = db\<lparr>public_sharing_restrictions := public_sharing_restrictions db @ one\<rparr>" "set one \<subseteq> {b}"
  proof (cases "restrictions_unique (public_sharing_restrictions db @ [b])")
    case True
    then show thesis using that [of "[b]"] by (simp add: insert_restriction_do_nothing_def)
  next
    case False
    then show thesis using that [of "[]"] by (simp add: insert_restriction_do_nothing_def)
  qed
  from Cons.IH [of ?db1] obtain new where
    "fold insert_restriction_do_nothing bs ?db1
      = ?db1\<lparr>public_sharing_restrictions := public_sharing_restrictions ?db1 @ new\<rparr>" "set new \<subseteq> set bs"
    by blast
  with one show ?case by (intro exI [of _ "one @ new"]) auto
qed simp

lemma fold_restrictions_unique:
  "restrictions_unique (public_sharing_restrictions db) \<Longrightarrow>
    restrictions_unique (public_sharing_restrictions (fold insert_restriction_do_nothing bs db))"
  by (induction bs arbitrary: db) (simp_all add: insert_restriction_do_nothing_def Let_def)

text \<open>An update that covers what \<open>Y\<close> does not except, with the state that is in force.\<close>

lemma projected_except_covered:
  assumes "projected_except X db" "update_listings p f db = Inr db'"
    and "\<And>l. p l \<Longrightarrow> gl_artifact_id (f l) = gl_artifact_id l \<and> gl_review_state (f l) = projected_review_state db (gl_artifact_id l)"
    and "\<And>l. open_listing l \<Longrightarrow> gl_artifact_id l \<in> X - Y \<Longrightarrow> p l"
  shows "projected_except Y db'"
  unfolding projected_except_def
proof (intro ballI impI)
  note e = update_listings_effect [OF assms(2)]
  fix l' assume l': "l' \<in> set (listings db')" "open_listing l'" "gl_artifact_id l' \<notin> Y"
  then obtain l where l: "l \<in> set (listings db)" "l' = (if p l then f l else l)" by (auto simp: e(2) in_update_where)
  have "gl_review_state l' = projected_review_state db (gl_artifact_id l')"
  proof (cases "p l")
    case True
    with l(2) assms(3) [OF True] show ?thesis by simp
  next
    case False
    with l l' have "l' = l" "open_listing l" by auto
    with False l'(3) assms(4) [of l] have "gl_artifact_id l \<notin> X" by auto
    with \<open>l' = l\<close> \<open>open_listing l\<close> l(1) assms(1) show ?thesis unfolding projected_except_def by blast
  qed
  then show "gl_review_state l' = projected_review_state db' (gl_artifact_id l')"
    by (simp add: projected_untouched [OF e(1)])
qed

lemma propagateRestriction_steps:
  assumes "propagateRestriction now a caseId decisionId ruleCode db = Inr db'"
  obtains new db2 where "\<And>b. b \<in> set new \<Longrightarrow> \<exists>x \<in> set (copied_from db a). b = new_block x decisionId ruleCode"
    "db2 = db\<lparr>public_sharing_restrictions := public_sharing_restrictions db @ new,
       review_bases := review_bases db @ derived_bases decisionId caseId
         (db\<lparr>public_sharing_restrictions := public_sharing_restrictions db @ new\<rparr>)\<rparr>"
    "update_listings
      (\<lambda>l. exists_where (active_block_of (gl_artifact_id l)) (restricted_by decisionId db2) \<and> open_listing l)
      (\<lambda>l. l\<lparr>gl_review_state := Restricted, gl_updated_at := now\<rparr>) db2 = Inr db'"
proof -
  let ?bs = "map (\<lambda>a. new_block a decisionId ruleCode) (copied_from db a)"
  from fold_restrictions [of ?bs db] obtain new where
    "fold insert_restriction_do_nothing ?bs db = db\<lparr>public_sharing_restrictions := public_sharing_restrictions db @ new\<rparr>"
    "set new \<subseteq> set ?bs" by blast
  moreover define db2 where "db2 = db\<lparr>public_sharing_restrictions := public_sharing_restrictions db @ new,
       review_bases := review_bases db @ derived_bases decisionId caseId
         (db\<lparr>public_sharing_restrictions := public_sharing_restrictions db @ new\<rparr>)\<rparr>"
  moreover from calculation assms have "update_listings
      (\<lambda>l. exists_where (active_block_of (gl_artifact_id l)) (restricted_by decisionId db2) \<and> open_listing l)
      (\<lambda>l. l\<lparr>gl_review_state := Restricted, gl_updated_at := now\<rparr>) db2 = Inr db'"
    by (simp add: propagateRestriction_def Let_def)
  ultimately show thesis by (intro that [of new db2]) (auto simp: image_iff)
qed

lemma closeBlockedProposals_effect:
  assumes "closeBlockedProposals now a decisionId db = Inr db'"
  shows "untouched db db'" "l' \<in> set (listings db') \<Longrightarrow> open_listing l' \<Longrightarrow> l' \<in> set (listings db)"
    "l' \<in> set (listings db') \<Longrightarrow> gl_artifact_id l' = a \<Longrightarrow> \<not> (gl_lifecycle_state l' = Pending \<and> gl_current_revision_id l' = None)"
    "l' \<in> set (listings db) \<Longrightarrow> \<not> open_listing l' \<Longrightarrow> l' \<in> set (listings db')"
proof -
  from assms obtain db1 db2 where
    1: "update_proposals (\<lambda>p. exists_where (\<lambda>l. gl_id l = gp_listing_id p \<and> gl_artifact_id l = a) (listings db) \<and> gp_state p = Open)
       (\<lambda>p. p\<lparr>gp_state := Governance_blocked, gp_closed_at := Some now\<rparr>) db = Inr db1"
    and 2: "update_listings (\<lambda>l. gl_artifact_id l = a \<and> gl_lifecycle_state l = Pending \<and> gl_current_revision_id l = None)
       (\<lambda>l. l\<lparr>gl_lifecycle_state := Removed, gl_closure_reason := Some Initial_governance_block,
          gl_closed_at := Some now, gl_listing_revision := gl_listing_revision l + 1, gl_updated_at := now\<rparr>) db1 = Inr db2"
    and 3: "insert_tombstones_do_nothing (map block_tombstone (filter (blocked_initially a) (listings db2)))
       (fold insert_event (map (block_event decisionId) (filter (blocked_initially a) (listings db2))) db2) = Inr db'"
    unfolding closeBlockedProposals_def by (auto simp: bindR_eq_Inr Let_def)
  note e2 = update_listings_effect [OF 2] and e3 = insert_tombstones_frame [OF 3, unfolded fold_insert_event]
  have "untouched db db1" "listings db1 = listings db" using 1 by (simp_all add: update_proposals_Inr untouched_frame)
  moreover have "untouched db2 db'" "listings db' = listings db2"
    using e3 untouched_trans [OF untouched_frame(4)] by auto
  ultimately show "untouched db db'" using e2(1) untouched_trans by blast
  have rows: "listings db' = update_where (\<lambda>l. gl_artifact_id l = a \<and> gl_lifecycle_state l = Pending \<and> gl_current_revision_id l = None)
       (\<lambda>l. l\<lparr>gl_lifecycle_state := Removed, gl_closure_reason := Some Initial_governance_block,
          gl_closed_at := Some now, gl_listing_revision := gl_listing_revision l + 1, gl_updated_at := now\<rparr>) (listings db)"
    using e2(2) \<open>listings db' = listings db2\<close> \<open>listings db1 = listings db\<close> by simp
  let ?p = "\<lambda>l. gl_artifact_id l = a \<and> gl_lifecycle_state l = Pending \<and> gl_current_revision_id l = None"
  have old: "l' \<in> set (listings db) \<and> \<not> ?p l' \<or> gl_lifecycle_state l' = Removed" if "l' \<in> set (listings db')"
  proof -
    from that obtain l where l: "l \<in> set (listings db)" "l' = (if ?p l then l\<lparr>gl_lifecycle_state := Removed,
        gl_closure_reason := Some Initial_governance_block, gl_closed_at := Some now,
        gl_listing_revision := gl_listing_revision l + 1, gl_updated_at := now\<rparr> else l)"
      unfolding rows in_update_where by blast
    show ?thesis
    proof (cases "?p l")
      case True
      with l(2) show ?thesis by simp
    next
      case False
      with l show ?thesis by auto
    qed
  qed
  show "l' \<in> set (listings db)" if "l' \<in> set (listings db')" "open_listing l'"
    using old [OF that(1)] that(2) by (auto simp: open_listing_def)
  show "\<not> (gl_lifecycle_state l' = Pending \<and> gl_current_revision_id l' = None)"
    if "l' \<in> set (listings db')" "gl_artifact_id l' = a"
    using old [OF that(1)] that(2) by auto
  show "l' \<in> set (listings db')" if "l' \<in> set (listings db)" "\<not> open_listing l'"
    using that unfolding rows in_update_where by (intro bexI [of _ l']) (simp_all add: open_listing_def)
qed

lemma projected_except_closed:
  assumes "projected_except X db" "untouched db db'"
    and "\<And>l'. l' \<in> set (listings db') \<Longrightarrow> open_listing l' \<Longrightarrow> l' \<in> set (listings db)"
  shows "projected_except X db'"
  by (rule projected_exceptI [OF assms(1)]) (use assms(3) in \<open>auto simp: projected_untouched [OF assms(2)]\<close>)

lemma traced_extend:
  assumes "governance_traced db" "cases db' = cases db" "decisions db' = decisions db" "appeals db' = appeals db"
    "public_sharing_restrictions db' = public_sharing_restrictions db @ R" "artifact_takedowns db' = artifact_takedowns db @ T"
    "review_bases db' = review_bases db @ B"
    and "\<And>b. b \<in> set R \<union> set T \<Longrightarrow> block_traced db' b" "\<And>b. b \<in> set T \<Longrightarrow> takedown_traced db' b"
    "\<And>b. b \<in> set B \<Longrightarrow> basis_traced db' b"
  shows "governance_traced db'"
proof -
  note old = tracedD [OF assms(1)]
  have cs: "\<And>c. c \<in> set (cases db) \<Longrightarrow> \<exists>c' \<in> set (cases db'). gcase_id c' = gcase_id c \<and> gcase_artifact_id c' = gcase_artifact_id c"
    and ds: "set (decisions db) \<subseteq> set (decisions db')"
    and bs: "set (public_sharing_restrictions db) \<subseteq> set (public_sharing_restrictions db')"
      "set (artifact_takedowns db) \<subseteq> set (artifact_takedowns db')"
    using assms(2,3,5,6) by auto
  note more = traced_more [OF cs ds]
  have blocks: "block_traced db' b" if "b \<in> set (public_sharing_restrictions db') \<union> set (artifact_takedowns db')" for b
    using that assms(5,6,8) old(5,6) more(1) by auto
  have takedowns: "takedown_traced db' b" if "b \<in> set (artifact_takedowns db')" for b
    using that assms(6,9) old(6) more(2) by auto
  have appeals: "appeal_traced db' p" if "p \<in> set (appeals db')" for p
    using that assms(4) old(7) more(3) by auto
  have bases: "basis_traced db' r" if "r \<in> set (review_bases db')" for r
    using that assms(7,10) old(8) more(4) bs by auto
  have "gd_case_id d \<in> gcase_id ` set (cases db')" if "d \<in> set (decisions db')" for d
    using that old(4) assms(2,3) by (metis image_eqI)
  then show ?thesis
    unfolding governance_traced_def
    using blocks takedowns appeals bases old(1,2,3) by (simp add: assms(2,3))
qed

subsection \<open>The branches of a decision\<close>

text \<open>A restriction or takedown of an artifact, with everything that follows from it.\<close>

lemma new_block_simps [simp]:
  "gb_artifact_id (new_block a d rc) = a" "gb_source_decision_id (new_block a d rc) = d"
  "gb_source_root_decision_id (new_block a d rc) = d" "gb_active (new_block a d rc)"
  by (simp_all add: new_block_def gb_active_def)

lemma new_basis_simps [simp]:
  "rb_artifact_id (new_basis a l c k d) = a" "rb_case_id (new_basis a l c k d) = c"
  "rb_source_root_decision_id (new_basis a l c k d) = Some d" "active_basis (new_basis a l c k d)"
  by (simp_all add: new_basis_def active_basis_def)

lemma blocked_artifact:
  assumes traced: "governance_traced db" and projected: "projected_except {} db"
    and d: "d \<in> set (decisions db)" "gd_case_id d = gcase_id c" "c \<in> set (cases db)" "gcase_artifact_id c = Some a"
    and fresh: "\<And>b. b \<in> set (public_sharing_restrictions db) \<Longrightarrow> gb_source_decision_id b \<noteq> gd_id d"
    and R0: "set R0 \<union> set T0 = {new_block a (gd_id d) ruleCode}"
    and db1: "db1 = db\<lparr>public_sharing_restrictions := public_sharing_restrictions db @ R0, artifact_takedowns := artifact_takedowns db @ T0,
      review_bases := review_bases db @ [new_basis a l (gcase_id c) k (gd_id d)]\<rparr>"
    and propagated: "propagateRestriction now a (gcase_id c) (gd_id d) ruleCode db1 = Inr db2"
    and closed: "closeBlockedProposals now a (gd_id d) db2 = Inr db3"
  shows "governance_traced db3 \<and> cases db3 = cases db \<and> decisions db3 = decisions db \<and> projected_except {a} db3"
proof -
  let ?D = "gd_id d"
  obtain new db1' where
    new: "\<And>b. b \<in> set new \<Longrightarrow> \<exists>x \<in> set (copied_from db1 a). b = new_block x ?D ruleCode"
    and db1': "db1' = db1\<lparr>public_sharing_restrictions := public_sharing_restrictions db1 @ new,
       review_bases := review_bases db1 @ derived_bases ?D (gcase_id c)
         (db1\<lparr>public_sharing_restrictions := public_sharing_restrictions db1 @ new\<rparr>)\<rparr>"
    and upd: "update_listings
      (\<lambda>l. exists_where (active_block_of (gl_artifact_id l)) (restricted_by ?D db1') \<and> open_listing l)
      (\<lambda>l. l\<lparr>gl_review_state := Restricted, gl_updated_at := now\<rparr>) db1' = Inr db2"
    by (rule propagateRestriction_steps [OF propagated]) (rule that, assumption+)
  let ?B = "derived_bases ?D (gcase_id c) (db1\<lparr>public_sharing_restrictions := public_sharing_restrictions db1 @ new\<rparr>)"
  let ?N = "gb_artifact_id ` set new"
  note upd' = update_listings_effect [OF upd] and close' = closeBlockedProposals_effect [OF closed]
  have tables: "cases db1' = cases db" "decisions db1' = decisions db" "appeals db1' = appeals db" "listings db1' = listings db"
    "public_sharing_restrictions db1' = public_sharing_restrictions db @ (R0 @ new)"
    "artifact_takedowns db1' = artifact_takedowns db @ T0"
    "review_bases db1' = review_bases db @ (new_basis a l (gcase_id c) k ?D # ?B)"
    by (simp_all add: db1' db1)
  have mine: "b = new_block a ?D ruleCode \<or> b \<in> set new" if "b \<in> set (R0 @ new) \<union> set T0" for b
    using that R0 by auto
  have shape: "gb_source_decision_id b = ?D" "gb_source_root_decision_id b = ?D" "gb_active b"
    if "b \<in> set (R0 @ new) \<union> set T0" for b
    using mine [OF that] new [of b] by auto
  have roots: "gb_source_root_decision_id b \<noteq> ?D" if "b \<in> set (public_sharing_restrictions db)" for b
    using fresh [OF that] tracedD(5) [OF traced that] by (simp add: block_traced_def)
  have restricted: "restricted_by ?D db1' = R0 @ new"
  proof -
    have "filter (\<lambda>b. gb_source_root_decision_id b = ?D) (public_sharing_restrictions db) = []"
      using roots by (simp add: filter_empty_conv)
    moreover have "filter (\<lambda>b. gb_source_root_decision_id b = ?D) (R0 @ new) = R0 @ new"
      using shape(2) by (intro filter_True) auto
    ultimately show ?thesis by (simp add: restricted_by_def tables(5))
  qed
  have B: "\<exists>b \<in> set (R0 @ new). \<exists>l'. r = new_basis (gb_artifact_id b) l' (gcase_id c) Basis_restriction ?D" if "r \<in> set ?B" for r
  proof -
    have "restricted_by ?D (db1\<lparr>public_sharing_restrictions := public_sharing_restrictions db1 @ new\<rparr>) = R0 @ new"
      using restricted by (simp add: restricted_by_def tables(5) db1)
    with that show ?thesis by (auto simp: derived_bases_def split: if_splits)
  qed
  have traced1: "governance_traced db1'"
  proof (rule traced_extend [OF traced tables(1,2,3,5,6,7)])
    show "block_traced db1' b" if "b \<in> set (R0 @ new) \<union> set T0" for b
      using shape(1,2) [OF that] d(1) by (simp add: block_traced_def tables(2))
    show "takedown_traced db1' b" if "b \<in> set T0" for b
    proof -
      have "b = new_block a ?D ruleCode" using that R0 by auto
      then show ?thesis unfolding takedown_traced_def tables(1,2) using d by (intro bexI [of _ d] bexI [of _ c]) auto
    qed
    show "basis_traced db1' r" if r: "r \<in> set (new_basis a l (gcase_id c) k ?D # ?B)" for r
    proof -
      have "\<exists>b \<in> set (R0 @ new) \<union> set T0. rb_artifact_id r = gb_artifact_id b"
      proof (cases "r \<in> set ?B")
        case True
        from B [OF this] show ?thesis by force
      next
        case False
        with r have "r = new_basis a l (gcase_id c) k ?D" by simp
        moreover have "new_block a ?D ruleCode \<in> set R0 \<union> set T0" using R0 by simp
        ultimately show ?thesis by (intro bexI [of _ "new_block a ?D ruleCode"]) auto
      qed
      then obtain b where "b \<in> set (R0 @ new) \<union> set T0" "rb_artifact_id r = gb_artifact_id b" by blast
      then have "block_of_basis db1' (rb_artifact_id r) ?D"
        unfolding block_of_basis_def tables(5,6) using shape by (intro bexI [of _ b]) auto
      moreover have "rb_source_root_decision_id r = Some ?D" "rb_case_id r = gcase_id c" using r B [of r] by auto
      ultimately show ?thesis using d by (auto simp: basis_traced_def tables(2) intro!: bexI [of _ d])
    qed
  qed
  have same: "projected_review_state db1' x = projected_review_state db x" if "x \<notin> {a} \<union> ?N" for x
  proof -
    have "\<not> active_block_of x b" if "b \<in> set (R0 @ new) \<union> set T0" for b
      using mine [OF that] \<open>x \<notin> {a} \<union> ?N\<close> by (auto simp: active_block_of_def)
    moreover have "\<not> active_basis_of x r" if "r \<in> set (new_basis a l (gcase_id c) k ?D # ?B)" for r
      using that B [of r] mine \<open>x \<notin> {a} \<union> ?N\<close> by (fastforce simp: active_basis_of_def)
    ultimately show ?thesis
      unfolding projected_review_state_def tables exists_where_iff by (simp add: ball_Un bex_Un; metis)
  qed
  have "projected_except ({a} \<union> ?N) db1'"
    by (rule projected_except_tables [OF projected tables(4)]) (use same in auto)
  then have "projected_except {a} db2"
  proof (rule projected_except_covered [OF _ upd])
    fix l :: listing_row
    assume "exists_where (active_block_of (gl_artifact_id l)) (restricted_by ?D db1') \<and> open_listing l"
    then have "exists_where (active_block_of (gl_artifact_id l)) (public_sharing_restrictions db1')"
      by (auto simp: exists_where_iff restricted_by_def)
    then show "gl_artifact_id (l\<lparr>gl_review_state := Restricted, gl_updated_at := now\<rparr>) = gl_artifact_id l
      \<and> gl_review_state (l\<lparr>gl_review_state := Restricted, gl_updated_at := now\<rparr>) = projected_review_state db1' (gl_artifact_id l)"
      by (simp add: projected_review_state_def)
  next
    fix l :: listing_row
    assume "open_listing l" "gl_artifact_id l \<in> ({a} \<union> ?N) - {a}"
    then obtain b where "b \<in> set new" "gb_artifact_id b = gl_artifact_id l" by auto
    then have "active_block_of (gl_artifact_id l) b" using shape(3) [of b] by (simp add: active_block_of_def)
    then show "exists_where (active_block_of (gl_artifact_id l)) (restricted_by ?D db1') \<and> open_listing l"
      using \<open>b \<in> set new\<close> \<open>open_listing l\<close> by (auto simp: exists_where_iff restricted)
  qed
  then have "projected_except {a} db3" by (rule projected_except_closed [OF _ close'(1,2)])
  moreover have all: "untouched db1' db3" using upd'(1) close'(1) by (rule untouched_trans)
  ultimately show ?thesis using traced1 traced_untouched(1) [OF all] untouchedD(1,2) [OF all] tables by simp
qed

text \<open>The end of a block or basis keeps everything but its state.\<close>

lemma ended_block_simps [simp]:
  "gb_artifact_id (ended_block st t d b) = gb_artifact_id b" "gb_source_decision_id (ended_block st t d b) = gb_source_decision_id b"
  "gb_source_root_decision_id (ended_block st t d b) = gb_source_root_decision_id b" "gb_state (ended_block st t d b) = st"
  by (simp_all add: ended_block_def)

lemma ended_basis_simps [simp]:
  "rb_artifact_id (ended_basis st t d b) = rb_artifact_id b" "rb_case_id (ended_basis st t d b) = rb_case_id b"
  "rb_source_root_decision_id (ended_basis st t d b) = rb_source_root_decision_id b"
  "active_basis (ended_basis st t d b) \<longleftrightarrow> st = Basis_active"
  by (simp_all add: ended_basis_def active_basis_def)

text \<open>Ending all blocks of one decision together with the bases it is the root of.\<close>

lemma exists_update_where:
  "exists_where q (update_where p f t) \<longleftrightarrow> (\<exists>b \<in> set t. q (if p b then f b else b))"
  by (induction t) (simp_all add: exists_where_def)

definition reversed_blocks :: "time \<Rightarrow> js_string \<Rightarrow> js_string \<Rightarrow> governance_db \<Rightarrow> governance_db" where
  "reversed_blocks now decisionId e db =
     (let challenged = (\<lambda>b. gb_source_decision_id b = e \<and> gb_active b) in
      update_bases (\<lambda>b. rb_source_root_decision_id b = Some e \<and> active_basis b) (ended_basis Basis_reversed now decisionId)
        (update_takedowns challenged (ended_block Block_reversed now decisionId)
          (update_restrictions challenged (ended_block Block_reversed now decisionId) db)))"

lemma reversed_blocks_tables:
  fixes db :: governance_db and e :: js_string
  defines "q \<equiv> \<lambda>b. gb_source_decision_id b = e \<and> gb_active b"
  shows "cases (reversed_blocks now x e db) = cases db" "decisions (reversed_blocks now x e db) = decisions db"
    "appeals (reversed_blocks now x e db) = appeals db" "listings (reversed_blocks now x e db) = listings db"
    "public_sharing_restrictions (reversed_blocks now x e db) = update_where q (ended_block Block_reversed now x) (public_sharing_restrictions db)"
    "artifact_takedowns (reversed_blocks now x e db) = update_where q (ended_block Block_reversed now x) (artifact_takedowns db)"
    "review_bases (reversed_blocks now x e db) =
      update_where (\<lambda>b. rb_source_root_decision_id b = Some e \<and> active_basis b) (ended_basis Basis_reversed now x) (review_bases db)"
  by (simp_all add: q_def reversed_blocks_def Let_def update_bases_def update_takedowns_def update_restrictions_def)

lemma reversed_blocks_traced:
  assumes "governance_traced db"
  shows "governance_traced (reversed_blocks now x e db)"
proof -
  let ?db = "reversed_blocks now x e db"
  note t = reversed_blocks_tables [of now x e db] and old = tracedD [OF assms]
  have blocks: "\<exists>b \<in> set T. gb_artifact_id b' = gb_artifact_id b \<and> gb_source_decision_id b' = gb_source_decision_id b
      \<and> gb_source_root_decision_id b' = gb_source_root_decision_id b"
    if "b' \<in> set (update_where q (ended_block Block_reversed now x) T)" for b' q and T :: "block_row list"
    using that by (auto simp: in_update_where split: if_splits)
  have R: "block_traced ?db b" if "b \<in> set (public_sharing_restrictions ?db)" for b
    using blocks [OF that [unfolded t(5)]] old(5) by (auto simp: block_traced_def t(2))
  have T: "block_traced ?db b \<and> takedown_traced ?db b" if "b \<in> set (artifact_takedowns ?db)" for b
    using blocks [OF that [unfolded t(6)]] old(6) by (auto simp: block_traced_def takedown_traced_def t(1,2))
  have P: "appeal_traced ?db p" if "p \<in> set (appeals ?db)" for p
    using that old(7) [of p] by (simp add: appeal_traced_def t(1,2,3))
  have B: "basis_traced ?db r'" if r': "r' \<in> set (review_bases ?db)" for r'
  proof -
    from r' obtain r where r: "r \<in> set (review_bases db)"
        "r' = (if rb_source_root_decision_id r = Some e \<and> active_basis r then ended_basis Basis_reversed now x r else r)"
      unfolding t(7) in_update_where by blast
    then have same: "rb_artifact_id r' = rb_artifact_id r" "rb_case_id r' = rb_case_id r"
        "rb_source_root_decision_id r' = rb_source_root_decision_id r" by auto
    show ?thesis
    proof (cases "rb_source_root_decision_id r")
      case None
      with old(8) [OF r(1)] same show ?thesis by (simp add: basis_traced_def t(1))
    next
      case (Some f)
      have "block_of_basis ?db (rb_artifact_id r) f" if "active_basis r'"
      proof -
        have "f \<noteq> e" "r' = r" using that r(2) Some by (auto split: if_splits)
        moreover from this have "block_of_basis db (rb_artifact_id r) f"
          using old(8) [OF r(1)] Some that by (simp add: basis_traced_def)
        ultimately obtain b where b: "b \<in> set (public_sharing_restrictions db) \<union> set (artifact_takedowns db)" "gb_active b"
            "gb_artifact_id b = rb_artifact_id r" "gb_source_decision_id b = f" "f \<noteq> e"
          unfolding block_of_basis_def by blast
        then have "b \<in> set (public_sharing_restrictions ?db) \<union> set (artifact_takedowns ?db)"
          by (auto simp: t(5,6) in_update_where intro!: bexI [of _ b])
        with b show ?thesis by (auto simp: block_of_basis_def)
      qed
      with old(8) [OF r(1)] same Some show ?thesis by (auto simp: basis_traced_def t(2))
    qed
  qed
  have "gd_case_id d \<in> gcase_id ` set (cases ?db)" if "d \<in> set (decisions ?db)" for d
    using that old(4) by (metis image_eqI t(1,2))
  then show ?thesis
    unfolding governance_traced_def using R T P B old(1,2,3) by (auto simp: t(1,2))
qed

lemma reversed_blocks_projection:
  assumes "governance_traced db"
    and "a \<notin> gb_artifact_id ` set (filter (\<lambda>b. gb_source_decision_id b = e \<and> gb_active b) (public_sharing_restrictions db))"
    and "a \<notin> gb_artifact_id ` set (filter (\<lambda>b. gb_source_decision_id b = e \<and> gb_active b) (artifact_takedowns db))"
  shows "projected_review_state (reversed_blocks now x e db) a = projected_review_state db a"
proof -
  note t = reversed_blocks_tables [of now x e db]
  let ?q = "\<lambda>b. gb_source_decision_id b = e \<and> gb_active b"
  have same: "exists_where (active_block_of a) (update_where ?q (ended_block Block_reversed now x) T) = exists_where (active_block_of a) T"
    if none: "a \<notin> gb_artifact_id ` set (filter ?q T)" for T :: "block_row list"
  proof -
    have "active_block_of a (if ?q b then ended_block Block_reversed now x b else b) = active_block_of a b" if "b \<in> set T" for b
      using that none by (auto simp: active_block_of_def)
    then show ?thesis unfolding exists_update_where unfolding exists_where_iff by blast
  qed
  have none: "\<not> (rb_source_root_decision_id r = Some e \<and> active_basis r)" if r: "r \<in> set (review_bases db)" "rb_artifact_id r = a" for r
  proof
    assume "rb_source_root_decision_id r = Some e \<and> active_basis r"
    with tracedD(8) [OF assms(1) r(1)] r(2) have "block_of_basis db a e" by (simp add: basis_traced_def)
    with assms(2,3) show False by (auto simp: block_of_basis_def)
  qed
  have "active_basis_of a (if rb_source_root_decision_id r = Some e \<and> active_basis r then ended_basis Basis_reversed now x r else r)
      = active_basis_of a r" if "r \<in> set (review_bases db)" for r
    using none [OF that] by (auto simp: active_basis_of_def)
  then have "exists_where (active_basis_of a) (review_bases (reversed_blocks now x e db)) = exists_where (active_basis_of a) (review_bases db)"
    unfolding t(7) unfolding exists_update_where unfolding exists_where_iff by blast
  then show ?thesis using same [OF assms(2)] same [OF assms(3)] by (simp add: projected_review_state_def t(5,6))
qed

lemma traced_appeals:
  assumes "governance_traced db"
    and "\<And>p'. p' \<in> set T \<Longrightarrow> \<exists>p \<in> set (appeals db). gap_case_id p' = gap_case_id p \<and> gap_decision_id p' = gap_decision_id p"
  shows "governance_traced (db\<lparr>appeals := T\<rparr>)"
proof -
  note old = tracedD [OF assms(1)]
  have "block_traced (db\<lparr>appeals := T\<rparr>) = block_traced db" "takedown_traced (db\<lparr>appeals := T\<rparr>) = takedown_traced db"
    by (simp_all add: fun_eq_iff block_traced_def takedown_traced_def)
  moreover have "basis_traced (db\<lparr>appeals := T\<rparr>) = basis_traced db"
    by (simp add: fun_eq_iff basis_traced_def block_of_basis_def split: option.split)
  moreover have "appeal_traced (db\<lparr>appeals := T\<rparr>) p'" if p': "p' \<in> set T" for p'
  proof -
    obtain p where "p \<in> set (appeals db)" "gap_case_id p' = gap_case_id p" "gap_decision_id p' = gap_decision_id p"
      using assms(2) [OF p'] by blast
    with old(7) [of p] show ?thesis by (simp add: appeal_traced_def)
  qed
  ultimately show ?thesis using assms(1) by (simp add: governance_traced_def)
qed

lemma resolveAppeal_effect:
  assumes "resolveAppeal now (gcase_id c) decisionId reverse db = Inr db'"
    and "governance_traced db" "projected_except {} db" "c \<in> set (cases db)"
  shows "governance_traced db' \<and> cases db' = cases db \<and> decisions db' = decisions db
    \<and> projected_except {x. gcase_artifact_id c = Some x} db'"
proof -
  from assms(1) obtain p where p: "row_where (pending_appeal_of (gcase_id c)) (appeals db) = Some p"
    by (auto simp: resolveAppeal_def bindR_eq_Inr)
  then have p': "p \<in> set (appeals db)" "gap_case_id p = gcase_id c" using row_where_Some [OF p] by (auto simp: pending_appeal_of_def)
  define db1 where "db1 = notify [appeal_notice reverse decisionId p]
           (update_appeals (\<lambda>r. gap_id r = gap_id p)
             (\<lambda>r. r\<lparr>gap_state := (if reverse then Appeal_state_reversed else Appeal_state_upheld),
                gap_resolved_at := Some now, gap_resolution_decision_id := Some decisionId\<rparr>) db)"
  have tables: "cases db1 = cases db" "decisions db1 = decisions db" "listings db1 = listings db"
      "public_sharing_restrictions db1 = public_sharing_restrictions db" "artifact_takedowns db1 = artifact_takedowns db"
      "review_bases db1 = review_bases db"
    by (simp_all add: db1_def notify_def update_appeals_def)
  have "governance_traced (db\<lparr>appeals := update_where (\<lambda>r. gap_id r = gap_id p)
             (\<lambda>r. r\<lparr>gap_state := (if reverse then Appeal_state_reversed else Appeal_state_upheld),
                gap_resolved_at := Some now, gap_resolution_decision_id := Some decisionId\<rparr>) (appeals db)\<rparr>)"
    by (rule traced_appeals [OF assms(2)]) (auto simp: in_update_where split: if_splits)
  then have traced1: "governance_traced db1"
    using traced_untouched(1) [OF untouched_frame(5)] by (simp add: db1_def notify_def update_appeals_def)
  have projected1: "projected_except {} db1"
    by (rule projected_except_tables [OF assms(3) tables(3)]) (simp add: projected_review_state_def tables)
  show ?thesis
  proof (cases reverse)
    case False
    with assms(1) have "db' = db1" by (simp add: resolveAppeal_def p db1_def)
    with traced1 tables projected1 show ?thesis by (auto intro: projected_except_mono)
  next
    case True
    let ?q = "\<lambda>b. gb_source_decision_id b = gap_decision_id p \<and> gb_active b"
    let ?R = "map gb_artifact_id (filter ?q (public_sharing_restrictions db))"
    let ?X = "{x. gcase_artifact_id c = Some x}"
    from assms(1) True have re: "recompute_all now ?R (reversed_blocks now decisionId (gap_decision_id p) db1) = Inr db'"
      by (simp add: resolveAppeal_def p db1_def reversed_blocks_def Let_def notify_def update_appeals_def)
    note t = reversed_blocks_tables [of now decisionId "gap_decision_id p" db1]
    have taken: "gb_artifact_id b \<in> ?X" if b: "b \<in> set (artifact_takedowns db)" "gb_source_decision_id b = gap_decision_id p" for b
    proof -
      from tracedD(6) [OF assms(2) b(1)] obtain d1 c1 where dc: "d1 \<in> set (decisions db)" "c1 \<in> set (cases db)"
          "gd_id d1 = gap_decision_id p" "gcase_id c1 = gd_case_id d1" "gcase_artifact_id c1 = Some (gb_artifact_id b)"
        using b(2) by (auto simp: takedown_traced_def)
      from tracedD(7) [OF assms(2) p'(1)] obtain c2 d2 c3 where ap: "c2 \<in> set (cases db)" "d2 \<in> set (decisions db)" "c3 \<in> set (cases db)"
          "gcase_id c2 = gcase_id c" "gd_id d2 = gap_decision_id p" "gcase_id c3 = gd_case_id d2" "gcase_artifact_id c3 = gcase_artifact_id c2"
        unfolding appeal_traced_def p'(2) by blast
      have "d1 = d2" by (rule unique_onD [OF tracedD(3) [OF assms(2)]]) (use dc ap in auto)
      then have "c1 = c3" by (intro unique_onD [OF tracedD(2) [OF assms(2)]]) (use dc ap in auto)
      moreover have "c2 = c" by (rule unique_onD [OF tracedD(2) [OF assms(2)]]) (use ap assms(4) in auto)
      ultimately show ?thesis using dc(5) ap(7) by simp
    qed
    have "projected_except (?X \<union> set ?R) (reversed_blocks now decisionId (gap_decision_id p) db1)"
    proof (rule projected_except_tables [OF projected1 t(4)])
      fix x assume x: "x \<notin> ?X \<union> set ?R"
      have "projected_review_state (reversed_blocks now decisionId (gap_decision_id p) db1) x = projected_review_state db1 x"
        by (rule reversed_blocks_projection [OF traced1]) (use x taken in \<open>auto simp: tables\<close>)
      then show "x \<notin> {} \<and> projected_review_state (reversed_blocks now decisionId (gap_decision_id p) db1) x = projected_review_state db1 x"
        by simp
    qed
    from recompute_all_projected [OF re this] have after: "projected_except (?X \<union> set ?R - set ?R) db'"
        "untouched (reversed_blocks now decisionId (gap_decision_id p) db1) db'" by simp_all
    have "projected_except ?X db'" by (rule projected_except_mono [OF after(1)]) auto
    moreover have "governance_traced db'"
      using reversed_blocks_traced [OF traced1] traced_untouched(1) [OF after(2)] by simp
    ultimately show ?thesis using untouchedD(1,2) [OF after(2)] by (simp add: t(1,2) tables)
  qed
qed

lemma traced_decision:
  assumes "governance_traced db" "c \<in> set (cases db)" "gd_case_id d = gcase_id c" "decisions_unique (decisions db @ [d])"
  shows "governance_traced (db\<lparr>decisions := decisions db @ [d]\<rparr>)"
    and "gd_id d \<notin> gd_id ` set (decisions db)"
proof -
  let ?db = "db\<lparr>decisions := decisions db @ [d]\<rparr>"
  note old = tracedD [OF assms(1)]
  have cs: "c \<in> set (cases db) \<Longrightarrow> \<exists>c' \<in> set (cases ?db). gcase_id c' = gcase_id c \<and> gcase_artifact_id c' = gcase_artifact_id c" for c
    by auto
  have ds: "set (decisions db) \<subseteq> set (decisions ?db)" by auto
  note more = traced_more [OF cs ds]
  show "gd_id d \<notin> gd_id ` set (decisions db)"
    using assms(4) by (auto simp: decisions_unique_def unique_on_append1)
  have "unique_on (\<lambda>_. True) gd_id (decisions ?db)" using assms(4) by (simp add: decisions_unique_def)
  moreover have "gd_case_id e \<in> gcase_id ` set (cases ?db)" if "e \<in> set (decisions ?db)" for e
    using that assms(2,3) old(4) [of e] by (auto simp: image_iff) metis
  ultimately show "governance_traced ?db"
    unfolding governance_traced_def using old more by auto
qed

lemma remove_listing_effect:
  assumes "remove_listing now actor l db = Inr db'"
  shows "untouched db db'" "listings db' = update_where (removable_listing l) (removed_listing now) (listings db)"
proof -
  from assms obtain db1 where 1: "update_listings (removable_listing l) (removed_listing now) db = Inr db1"
    and 2: "insert_tombstones_do_nothing (map removal_tombstone (filter (\<lambda>r. gl_id r = l) (listings db1)))
       (fold insert_event (map (administrator_event actor Listed Removed (Some Administrator_removal))
         (filter (\<lambda>r. gl_id r = l) (listings db1))) db1) = Inr db'"
    by (auto simp: remove_listing_def bindR_eq_Inr Let_def)
  note e1 = update_listings_effect [OF 1] and e2 = insert_tombstones_frame [OF 2, unfolded fold_insert_event]
  show "untouched db db'"
    using untouched_trans [OF e1(1) untouched_trans [OF untouched_frame(4)]] e2 by blast
  show "listings db' = update_where (removable_listing l) (removed_listing now) (listings db)" using e1(2) e2 by simp
qed

text \<open>A dismissal ends the basis of its own report only.\<close>

lemma dismissed_bases_effect:
  fixes now :: time and x :: js_string
  assumes "db' = update_bases (\<lambda>b. rb_case_id b = gcase_id c \<and> active_basis b) (ended_basis Basis_closed now x)
      (db\<lparr>decisions := ds\<rparr>)"
    and "governance_traced db" "decided_cases db" "c \<in> set (cases db)" "gcase_state c = Case_open"
    and "governance_traced (db\<lparr>decisions := ds\<rparr>)" "projected_except {} (db\<lparr>decisions := ds\<rparr>)"
  shows "governance_traced db' \<and> cases db' = cases db \<and> decisions db' = ds \<and> projected_except {x. gcase_artifact_id c = Some x} db'"
proof -
  let ?db = "db\<lparr>decisions := ds\<rparr>" and ?X = "{x. gcase_artifact_id c = Some x}"
  let ?p = "\<lambda>b. rb_case_id b = gcase_id c \<and> active_basis b"
  note db' = assms(1)
  have mine: "rb_source_root_decision_id r = None \<and> gcase_artifact_id c = Some (rb_artifact_id r)"
    if r: "r \<in> set (review_bases db)" "rb_case_id r = gcase_id c" for r
  proof (cases "rb_source_root_decision_id r")
    case None
    with tracedD(8) [OF assms(2) r(1)] obtain c' where "c' \<in> set (cases db)" "gcase_id c' = gcase_id c"
        "gcase_artifact_id c' = Some (rb_artifact_id r)" using r(2) by (auto simp: basis_traced_def)
    moreover from this have "c' = c" by (intro unique_onD [OF tracedD(2) [OF assms(2)]]) (use assms(4) in auto)
    ultimately show ?thesis using None by simp
  next
    case (Some e)
    with tracedD(8) [OF assms(2) r(1)] obtain d' where "d' \<in> set (decisions db)" "gd_case_id d' = gcase_id c"
      using r(2) by (auto simp: basis_traced_def)
    with assms(3,4,5) show ?thesis by (auto simp: decided_cases_def)
  qed
  have rows: "review_bases db' = update_where ?p (ended_basis Basis_closed now x) (review_bases db)"
    by (simp add: db' update_bases_def)
  have basis: "basis_traced db' r'" if r': "r' \<in> set (review_bases db')" for r'
  proof -
    from r' obtain r where r: "r \<in> set (review_bases db)" "r' = (if ?p r then ended_basis Basis_closed now x r else r)"
      unfolding rows in_update_where by blast
    have "basis_traced ?db r" using tracedD(8) [OF assms(6)] r(1) by simp
    with r(2) have "basis_traced ?db r'" by (auto simp: basis_traced_def split: option.splits)
    then show ?thesis by (simp add: basis_traced_def block_of_basis_def db' update_bases_def split: option.splits)
  qed
  have "block_traced db' = block_traced ?db" "takedown_traced db' = takedown_traced ?db" "appeal_traced db' = appeal_traced ?db"
    by (simp_all add: fun_eq_iff block_traced_def takedown_traced_def appeal_traced_def db' update_bases_def)
  with assms(6) basis have "governance_traced db'"
    by (simp add: governance_traced_def) (simp add: db' update_bases_def)
  moreover have "projected_except ?X db'"
  proof (rule projected_except_tables [OF assms(7)])
    show "listings db' = listings ?db" by (simp add: db' update_bases_def)
    fix y assume "y \<notin> ?X"
    then have "active_basis_of y (if ?p r then ended_basis Basis_closed now x r else r) = active_basis_of y r"
      if "r \<in> set (review_bases db)" for r
      using mine [OF that] by (auto simp: active_basis_of_def)
    then have "exists_where (active_basis_of y) (review_bases db') = exists_where (active_basis_of y) (review_bases db)"
      unfolding rows unfolding exists_update_where unfolding exists_where_iff by blast
    then show "y \<notin> {} \<and> projected_review_state db' y = projected_review_state ?db y"
      by (simp add: projected_review_state_def) (simp add: db' update_bases_def)
  qed
  ultimately show ?thesis by (simp add: db' update_bases_def)
qed

text \<open>A restriction and a takedown, from their inserts on.\<close>

lemma blocking_effect:
  assumes "restrict_artifact now c a (gd_id d) ruleCode db = Inr db' \<or> take_down_artifact now c a (gd_id d) ruleCode db = Inr db'"
    and "governance_traced db" "projected_except {} db"
    and "d \<in> set (decisions db)" "gd_case_id d = gcase_id c" "c \<in> set (cases db)" "gcase_artifact_id c = Some a"
    and "\<And>b. b \<in> set (public_sharing_restrictions db) \<Longrightarrow> gb_source_decision_id b \<noteq> gd_id d"
  shows "governance_traced db' \<and> cases db' = cases db \<and> decisions db' = decisions db
    \<and> projected_except {x. gcase_artifact_id c = Some x} db'"
proof -
  from assms(1) obtain R T k db2 where new: "set R \<union> set T = {new_block a (gd_id d) ruleCode}"
    and steps: "propagateRestriction now a (gcase_id c) (gd_id d) ruleCode
        (db\<lparr>public_sharing_restrictions := public_sharing_restrictions db @ R, artifact_takedowns := artifact_takedowns db @ T,
          review_bases := review_bases db @ [new_basis a (gcase_listing_id c) (gcase_id c) k (gd_id d)]\<rparr>) = Inr db2"
      "closeBlockedProposals now a (gd_id d) db2 = Inr db'"
  proof
    assume "restrict_artifact now c a (gd_id d) ruleCode db = Inr db'"
    then obtain db2 where "propagateRestriction now a (gcase_id c) (gd_id d) ruleCode
          (db\<lparr>public_sharing_restrictions := public_sharing_restrictions db @ [new_block a (gd_id d) ruleCode],
            review_bases := review_bases db @ [new_basis a (gcase_listing_id c) (gcase_id c) Basis_restriction (gd_id d)]\<rparr>) = Inr db2"
        "closeBlockedProposals now a (gd_id d) db2 = Inr db'"
      by (auto simp: restrict_artifact_def bindR_eq_Inr insert_restriction_def insert_basis_def Let_def split: if_splits)
    then show thesis by (intro that [of "[new_block a (gd_id d) ruleCode]" "[]" Basis_restriction db2]) simp_all
  next
    assume "take_down_artifact now c a (gd_id d) ruleCode db = Inr db'"
    then obtain db2 where "propagateRestriction now a (gcase_id c) (gd_id d) ruleCode
          (db\<lparr>artifact_takedowns := artifact_takedowns db @ [new_block a (gd_id d) ruleCode],
            review_bases := review_bases db @ [new_basis a (gcase_listing_id c) (gcase_id c) Basis_takedown (gd_id d)]\<rparr>) = Inr db2"
        "closeBlockedProposals now a (gd_id d) db2 = Inr db'"
      by (auto simp: take_down_artifact_def bindR_eq_Inr insert_takedown_def insert_basis_def Let_def split: if_splits)
    then show thesis by (intro that [of "[]" "[new_block a (gd_id d) ruleCode]" Basis_takedown db2]) simp_all
  qed
  have "{x. gcase_artifact_id c = Some x} = {a}" using assms(7) by auto
  with blocked_artifact [OF assms(2-8) new refl steps] show ?thesis by simp
qed

text \<open>What a decision leaves, before its case is closed.\<close>

lemma apply_kind_effect:
  assumes "apply_kind now c (gd_id d) kind ruleCode actor (db\<lparr>decisions := decisions db @ [d]\<rparr>) = Inr db'"
    and "governance_traced db" "decided_cases db" "projected_except {} db"
    and "c \<in> set (cases db)" "gcase_state c = Case_open" "kind \<in> set (allowedDecisions (gcase_kind c))"
    and "gd_case_id d = gcase_id c" "decisions_unique (decisions db @ [d])"
  shows "governance_traced db' \<and> cases db' = cases db \<and> decisions db' = decisions db @ [d]
    \<and> projected_except {x. gcase_artifact_id c = Some x} db'"
proof -
  let ?db = "db\<lparr>decisions := decisions db @ [d]\<rparr>" and ?X = "{x. gcase_artifact_id c = Some x}"
  note traced = traced_decision [OF assms(2,5,8,9)]
  have projected: "projected_except {} ?db"
    by (rule projected_except_tables [OF assms(4)]) (simp_all add: projected_review_state_def)
  have tables: "cases ?db = cases db" "decisions ?db = decisions db @ [d]" by simp_all
  have fresh: "gb_source_decision_id b \<noteq> gd_id d" if "b \<in> set (public_sharing_restrictions ?db)" for b
    using that tracedD(5) [OF assms(2), of b] traced(2) by (auto simp: block_traced_def)
  have unchanged: ?thesis if "untouched ?db db'" "projected_except {} db'"
    using that traced(1) traced_untouched(1) [OF that(1)] untouchedD(1,2) [OF that(1)]
    by (auto intro: projected_except_mono)
  have kinds: "gcase_kind c = Case_report \<or> gcase_kind c = Case_appeal" by (rule tracedD(1) [OF assms(2,5)])
  show ?thesis
  proof (cases kind)
    case Decide_dismiss
    have "db' = update_bases (\<lambda>b. rb_case_id b = gcase_id c \<and> active_basis b) (ended_basis Basis_closed now (gd_id d)) ?db"
      using assms(1) Decide_dismiss by (simp add: apply_kind_def)
    from dismissed_bases_effect [OF this assms(2,3,5,6) traced(1) projected] show ?thesis by simp
  next
    case Decide_remove
    show ?thesis
    proof (cases "gcase_listing_id c")
      case None
      with assms(1) Decide_remove have "db' = ?db" by (simp add: apply_kind_def)
      then show ?thesis using projected by (intro unchanged) (simp_all add: untouched_refl)
    next
      case (Some l)
      with assms(1) Decide_remove have rm: "remove_listing now actor l ?db = Inr db'" by (simp add: apply_kind_def)
      note e = remove_listing_effect [OF rm]
      have "projected_except {} db'"
        by (rule projected_except_closed [OF projected e(1)])
          (auto simp: e(2) in_update_where removed_listing_def open_listing_def split: if_splits)
      with e(1) show ?thesis by (rule unchanged)
    qed
  next
    case Decide_restrict
    show ?thesis
    proof (cases "gcase_artifact_id c")
      case None
      with assms(1) Decide_restrict have "db' = ?db" by (cases "gcase_listing_id c") (simp_all add: apply_kind_def)
      then show ?thesis using projected by (intro unchanged) (simp_all add: untouched_refl)
    next
      case (Some a)
      with assms(1) Decide_restrict have "restrict_artifact now c a (gd_id d) ruleCode ?db = Inr db'"
        by (cases "gcase_listing_id c") (simp_all add: apply_kind_def)
      then have blocked: "restrict_artifact now c a (gd_id d) ruleCode ?db = Inr db' \<or> take_down_artifact now c a (gd_id d) ruleCode ?db = Inr db'"
        by blast
      have "d \<in> set (decisions ?db)" "c \<in> set (cases ?db)" using assms(5) by simp_all
      from blocking_effect [OF blocked traced(1) projected this(1) assms(8) this(2) Some fresh] show ?thesis by simp
    qed
  next
    case Decide_takedown
    show ?thesis
    proof (cases "gcase_artifact_id c")
      case None
      with assms(1) Decide_takedown have "db' = ?db" by (cases "gcase_listing_id c") (simp_all add: apply_kind_def)
      then show ?thesis using projected by (intro unchanged) (simp_all add: untouched_refl)
    next
      case (Some a)
      with assms(1) Decide_takedown have "take_down_artifact now c a (gd_id d) ruleCode ?db = Inr db'"
        by (cases "gcase_listing_id c") (simp_all add: apply_kind_def)
      then have blocked: "restrict_artifact now c a (gd_id d) ruleCode ?db = Inr db' \<or> take_down_artifact now c a (gd_id d) ruleCode ?db = Inr db'"
        by blast
      have "d \<in> set (decisions ?db)" "c \<in> set (cases ?db)" using assms(5) by simp_all
      from blocking_effect [OF blocked traced(1) projected this(1) assms(8) this(2) Some fresh] show ?thesis by simp
    qed
  next
    case Decide_uphold_appeal
    show ?thesis
    proof (cases "gcase_parent_case_id c = None")
      case True
      with assms(1) Decide_uphold_appeal have "db' = ?db" by (simp add: apply_kind_def)
      then show ?thesis using projected by (intro unchanged) (simp_all add: untouched_refl)
    next
      case False
      with assms(1) Decide_uphold_appeal have r: "resolveAppeal now (gcase_id c) (gd_id d) False ?db = Inr db'" by (simp add: apply_kind_def)
      from resolveAppeal_effect [OF r traced(1) projected] assms(5) tables show ?thesis by simp
    qed
  next
    case Decide_reverse_appeal
    show ?thesis
    proof (cases "gcase_parent_case_id c = None")
      case True
      with assms(1) Decide_reverse_appeal have "db' = ?db" by (simp add: apply_kind_def)
      then show ?thesis using projected by (intro unchanged) (simp_all add: untouched_refl)
    next
      case False
      with assms(1) Decide_reverse_appeal have r: "resolveAppeal now (gcase_id c) (gd_id d) True ?db = Inr db'" by (simp add: apply_kind_def)
      from resolveAppeal_effect [OF r traced(1) projected] assms(5) tables show ?thesis by simp
    qed
  qed (use kinds assms(7) in auto)
qed

subsection \<open>Whole calls\<close>

text \<open>The invariant of governance.\<close>

definition governance_invariant :: "governance_db \<Rightarrow> bool" where
  "governance_invariant db \<longleftrightarrow>
     governance_traced db \<and> decided_cases db \<and> projected_except {} db"

lemma invariant_untouched:
  assumes "governance_invariant db" "untouched db db'" "listings db' = listings db"
  shows "governance_invariant db'"
  using assms traced_untouched [OF assms(2)] projected_except_untouched [OF _ assms(2,3)]
  by (simp add: governance_invariant_def)

lemma applyDecision_Inr:
  assumes "applyDecision now c decisionId kind ruleCode actor db = Inr db'"
  obtains db1 db2 where "apply_kind now c decisionId kind ruleCode actor db = Inr db1"
    "case gcase_artifact_id c of None \<Rightarrow> db2 = db1 | Some a \<Rightarrow> recomputeArtifact now a db1 = Inr db2"
    "untouched db2 db'" "listings db' = listings db2"
proof -
  from assms obtain db1 db2 where 1: "apply_kind now c decisionId kind ruleCode actor db = Inr db1"
    and 2: "(case gcase_artifact_id c of None \<Rightarrow> Inr db1 | Some a \<Rightarrow> recomputeArtifact now a db1) = Inr db2"
    and 3: "(let db = (case gcase_listing_id c of None \<Rightarrow> db2 | Some l \<Rightarrow> removeFeaturedIfIneligible l actor decisionId db2) in
       (if appealable kind then notify_owner c decisionId kind ruleCode db else db)) = db'"
    by (auto simp: applyDecision_def bindR_eq_Inr Let_def)
  have feature: "untouched d (removeFeaturedIfIneligible l actor decisionId d) \<and> listings (removeFeaturedIfIneligible l actor decisionId d) = listings d"
    for l d by (auto simp: removeFeaturedIfIneligible_def untouched_def split: option.split)
  have owner: "untouched d (notify_owner c decisionId kind ruleCode d) \<and> listings (notify_owner c decisionId kind ruleCode d) = listings d"
    for d by (auto simp: notify_owner_def notify_def untouched_def split: option.split)
  have "untouched db2 db' \<and> listings db' = listings db2"
    using 3 feature owner by (auto simp: Let_def untouched_refl split: option.splits if_splits intro: untouched_trans)
  moreover have "case gcase_artifact_id c of None \<Rightarrow> db2 = db1 | Some a \<Rightarrow> recomputeArtifact now a db1 = Inr db2"
    using 2 by (auto split: option.splits)
  ultimately show thesis using that [OF 1] by blast
qed

lemma applyDecision_effect:
  assumes "applyDecision now c (gd_id d) kind ruleCode actor (db\<lparr>decisions := decisions db @ [d]\<rparr>) = Inr db'"
    and "governance_invariant db"
    and "c \<in> set (cases db)" "gcase_state c = Case_open" "kind \<in> set (allowedDecisions (gcase_kind c))"
    and "gd_case_id d = gcase_id c" "decisions_unique (decisions db @ [d])"
  shows "governance_traced db' \<and> cases db' = cases db \<and> decisions db' = decisions db @ [d] \<and> projected_except {} db'"
proof -
  obtain db1 db2 where 1: "apply_kind now c (gd_id d) kind ruleCode actor (db\<lparr>decisions := decisions db @ [d]\<rparr>) = Inr db1"
    and 2: "case gcase_artifact_id c of None \<Rightarrow> db2 = db1 | Some a \<Rightarrow> recomputeArtifact now a db1 = Inr db2"
    and 3: "untouched db2 db'" "listings db' = listings db2"
    by (rule applyDecision_Inr [OF assms(1)])
  have e: "governance_traced db1 \<and> cases db1 = cases db \<and> decisions db1 = decisions db @ [d]
      \<and> projected_except {x. gcase_artifact_id c = Some x} db1"
    by (rule apply_kind_effect [OF 1]) (use assms in \<open>simp_all add: governance_invariant_def\<close>)
  have "untouched db1 db2 \<and> projected_except {} db2"
  proof (cases "gcase_artifact_id c")
    case None
    with 2 e show ?thesis by (simp add: untouched_refl)
  next
    case (Some a)
    with 2 have "recomputeArtifact now a db1 = Inr db2" by simp
    from recomputeArtifact_projected [OF this] recomputeArtifact_effect(1) [OF this] e Some show ?thesis by fastforce
  qed
  moreover from this have "untouched db1 db'" using 3(1) untouched_trans by blast
  ultimately show ?thesis
    using e projected_except_untouched [OF _ 3] traced_untouched(1) untouchedD(1,2) by metis
qed

lemma first_decision_Inr:
  assumes "first_decision env i ruleCode rationale db = Inr (db', response)"
  obtains c policy d db1 where
    "c \<in> set (cases db)" "gcase_id c = gdi_caseId i" "gcase_state c = Case_open" "gdi_kind i \<in> set (allowedDecisions (gcase_kind c))"
    "d = new_decision env i ruleCode rationale c policy" "policy = None \<longleftrightarrow> \<not> appealable (gdi_kind i)"
    "decisions_unique (decisions db @ [d])"
    "applyDecision (gv_now env) c (gd_id d) (gdi_kind i) ruleCode (gdi_actorUserId i) (db\<lparr>decisions := decisions db @ [d]\<rparr>) = Inr db1"
    "db' = db1\<lparr>cases := update_where (\<lambda>c. gcase_id c = gdi_caseId i) (decided_case (gv_now env)) (cases db1)\<rparr>"
    "decisionResponse (gd_id d) db' = Inr response"
proof -
  define policy where "policy = (if appealable (gdi_kind i) then row_where apo_active (appeal_policies db) else None)"
  from assms obtain c where c: "row_where (\<lambda>c. gcase_id c = gdi_caseId i) (cases db) = Some c" "gcase_state c = Case_open"
      "gdi_kind i \<in> set (allowedDecisions (gcase_kind c))" "appealable (gdi_kind i) \<longrightarrow> policy \<noteq> None"
    and rest: "bindR (insert_decision (new_decision env i ruleCode rationale c policy) db) (\<lambda>db1.
      bindR (applyDecision (gv_now env) c (gd_id (new_decision env i ruleCode rationale c policy)) (gdi_kind i) ruleCode (gdi_actorUserId i) db1) (\<lambda>db1.
      let db1 = db1\<lparr>cases := update_where (\<lambda>c. gcase_id c = gdi_caseId i) (decided_case (gv_now env)) (cases db1)\<rparr> in
      bindR (decisionResponse (gd_id (new_decision env i ruleCode rationale c policy)) db1) (\<lambda>response. Inr (db1, response)))) = Inr (db', response)"
    unfolding first_decision_def policy_def [symmetric] Let_def by (auto simp: bindR_eq_Inr)
  let ?d = "new_decision env i ruleCode rationale c policy"
  from rest obtain db1 where "decisions_unique (decisions db @ [?d])"
      "applyDecision (gv_now env) c (gd_id ?d) (gdi_kind i) ruleCode (gdi_actorUserId i) (db\<lparr>decisions := decisions db @ [?d]\<rparr>) = Inr db1"
      "db' = db1\<lparr>cases := update_where (\<lambda>c. gcase_id c = gdi_caseId i) (decided_case (gv_now env)) (cases db1)\<rparr>"
      "decisionResponse (gd_id ?d) db' = Inr response"
    by (auto simp: bindR_eq_Inr insert_decision_def Let_def split: if_splits)
  moreover have "policy = None \<longleftrightarrow> \<not> appealable (gdi_kind i)" using c(4) by (auto simp: policy_def)
  ultimately show thesis using that c(2,3) row_where_Some [OF c(1)] by blast
qed

text \<open>What a decision does at all: nothing, an audited read, or a first decision.\<close>

lemma decide_cases:
  assumes "decide env i db = (db', r)"
  obtains (refused) e where "db' = db" "r = Inl e"
  | (replayed) d response where "db' = audit (gdi_actorUserId i) None Audit_decision (Some (gdi_caseId i)) db" "r = Inr response"
      "d \<in> set (decisions db)" "made_decision env i d" "decisionResponse (gd_id d) db' = Inr response"
  | (first) ruleCode rationale response where "r = Inr response"
      "first_decision env i ruleCode rationale (audit (gdi_actorUserId i) None Audit_decision (Some (gdi_caseId i)) db) = Inr (db', response)"
      "safeText (gdi_ruleCode i) 200 = Inr ruleCode" "safeText (gdi_rationale i) 8000 = Inr rationale"
proof (cases "bindR (safeText (gdi_rationale i) 8000) (\<lambda>rationale.
        bindR (safeText (gdi_ruleCode i) 200) (\<lambda>ruleCode. Inr (rationale, ruleCode)))")
  case (Inl e)
  with assms show thesis by (intro refused [of e]) (auto simp: decide_def)
next
  case (Inr p)
  then obtain rationale ruleCode where p: "p = (rationale, ruleCode)" "safeText (gdi_ruleCode i) 200 = Inr ruleCode"
      "safeText (gdi_rationale i) 8000 = Inr rationale"
    by (auto simp: bindR_eq_Inr)
  let ?db = "audit (gdi_actorUserId i) None Audit_decision (Some (gdi_caseId i)) db"
  from assms Inr p have run: "run_tx (decide_body env i ruleCode rationale) db = (db', r)" by (simp add: decide_def)
  show thesis
  proof (cases r)
    case (Inl e)
    with run show thesis by (intro refused [of e]) (auto simp: run_tx_eq_Inl)
  next
    case r: (Inr response)
    with run have body: "(case row_where (made_decision env i) (decisions ?db) of
         Some d \<Rightarrow> bindR (guardR (gd_input_fingerprint d = digest_json env (decision_message i ruleCode rationale))
             (Thrown ''decision_conflict'')) (\<lambda>_. bindR (decisionResponse (gd_id d) ?db) (\<lambda>response. Inr (?db, response)))
       | None \<Rightarrow> first_decision env i ruleCode rationale ?db) = Inr (db', response)"
      by (auto simp: run_tx_eq_Inr decide_body_def bindR_eq_Inr authority_require_Inr)
    show thesis
    proof (cases "row_where (made_decision env i) (decisions ?db)")
      case None
      with body r p show thesis by (intro first) simp_all
    next
      case (Some d)
      with body have "db' = ?db" "decisionResponse (gd_id d) ?db = Inr response" by (auto simp: bindR_eq_Inr)
      moreover have "d \<in> set (decisions db)" "made_decision env i d" using row_where_Some [OF Some] by (auto simp: audit_def)
      ultimately show thesis using r by (intro replayed [of response d]) simp_all
    qed
  qed
qed

lemma traced_cases:
  assumes "governance_traced db" and "map gcase_id T = map gcase_id (cases db)"
    and "map gcase_kind T = map gcase_kind (cases db)" and "map gcase_artifact_id T = map gcase_artifact_id (cases db)"
  shows "governance_traced (db\<lparr>cases := T\<rparr>)"
proof -
  let ?db = "db\<lparr>cases := T\<rparr>"
  have len: "length T = length (cases db)" using assms(2) by (metis length_map)
  have pos: "gcase_id (T ! n) = gcase_id (cases db ! n) \<and> gcase_kind (T ! n) = gcase_kind (cases db ! n)
      \<and> gcase_artifact_id (T ! n) = gcase_artifact_id (cases db ! n)" if "n < length T" for n
    using that len assms(2,3,4) by (metis nth_map)
  have cs: "\<exists>c' \<in> set (cases ?db). gcase_id c' = gcase_id c \<and> gcase_artifact_id c' = gcase_artifact_id c" if "c \<in> set (cases db)" for c
  proof -
    from that obtain n where "n < length T" "cases db ! n = c" using len by (auto simp: in_set_conv_nth)
    then show ?thesis using pos by (intro bexI [of _ "T ! n"]) auto
  qed
  have ds: "set (decisions db) \<subseteq> set (decisions ?db)" by simp
  note old = tracedD [OF assms(1)] and more = traced_more [OF cs ds]
  have "gcase_kind c = Case_report \<or> gcase_kind c = Case_appeal" if "c \<in> set (cases ?db)" for c
  proof -
    from that obtain n where "n < length T" "T ! n = c" by (auto simp: in_set_conv_nth)
    then show ?thesis using pos [of n] old(1) [of "cases db ! n"] len by simp
  qed
  moreover have "unique_on (\<lambda>_. True) gcase_id (cases ?db)" using old(2) assms(2) by (simp add: unique_on_def)
  moreover have "gd_case_id d \<in> gcase_id ` set (cases ?db)" if "d \<in> set (decisions ?db)" for d
  proof -
    from that old(4) obtain c where "c \<in> set (cases db)" "gcase_id c = gd_case_id d" by auto
    with cs [OF this(1)] show ?thesis by (metis image_eqI)
  qed
  ultimately show ?thesis unfolding governance_traced_def using old more by auto
qed

lemma projected_except_cong:
  assumes "projected_except X db" "listings db' = listings db" "public_sharing_restrictions db' = public_sharing_restrictions db"
    "artifact_takedowns db' = artifact_takedowns db" "review_bases db' = review_bases db"
  shows "projected_except X db'"
  by (rule projected_except_tables [OF assms(1,2)]) (simp add: projected_review_state_def assms(3-5))

lemma first_decision_invariant:
  assumes "first_decision env i ruleCode rationale db = Inr (db', response)" "governance_invariant db"
  shows "governance_invariant db'"
  using assms(1)
proof (rule first_decision_Inr)
  fix c policy d db1
  assume c: "c \<in> set (cases db)" "gcase_id c = gdi_caseId i" "gcase_state c = Case_open" "gdi_kind i \<in> set (allowedDecisions (gcase_kind c))"
    and d: "d = new_decision env i ruleCode rationale c policy" and uniq: "decisions_unique (decisions db @ [d])"
    and apply': "applyDecision (gv_now env) c (gd_id d) (gdi_kind i) ruleCode (gdi_actorUserId i) (db\<lparr>decisions := decisions db @ [d]\<rparr>) = Inr db1"
    and db': "db' = db1\<lparr>cases := update_where (\<lambda>c. gcase_id c = gdi_caseId i) (decided_case (gv_now env)) (cases db1)\<rparr>"
  have dc: "gd_case_id d = gcase_id c" using c(2) by (simp add: d new_decision_def)
  from applyDecision_effect [OF apply' assms(2) c(1,3,4) dc uniq]
  have e: "governance_traced db1" "cases db1 = cases db" "decisions db1 = decisions db @ [d]" "projected_except {} db1" by simp_all
  let ?T = "update_where (\<lambda>c. gcase_id c = gdi_caseId i) (decided_case (gv_now env)) (cases db1)"
  have "governance_traced db'"
    unfolding db' by (rule traced_cases [OF e(1)]; rule map_update_where_same; simp add: decided_case_def)
  moreover have "decided_cases db'"
    unfolding decided_cases_def
  proof (intro ballI impI)
    fix d' c' assume d': "d' \<in> set (decisions db')" and c': "c' \<in> set (cases db')" "gcase_id c' = gd_case_id d'"
    from c' obtain c0 where c0: "c0 \<in> set (cases db)" "c' = (if gcase_id c0 = gdi_caseId i then decided_case (gv_now env) c0 else c0)"
      by (auto simp: db' e(2) in_update_where)
    show "gcase_state c' \<noteq> Case_open"
    proof (cases "gcase_id c0 = gdi_caseId i")
      case True
      with c0(2) show ?thesis by (simp add: decided_case_def)
    next
      case False
      with c0 c' have "gd_case_id d' \<noteq> gdi_caseId i" by simp
      with d' have "d' \<in> set (decisions db)" using dc c(2) by (auto simp: db' e(3))
      with assms(2) c0 c'(2) False show ?thesis by (auto simp: governance_invariant_def decided_cases_def)
    qed
  qed
  moreover have "projected_except {} db'" by (rule projected_except_cong [OF e(4)]) (simp_all add: db')
  ultimately show ?thesis by (simp add: governance_invariant_def)
qed

lemma decide_invariant:
  assumes "governance_invariant db"
  shows "governance_invariant (fst (decide env i db))"
proof -
  obtain db' r where run: "decide env i db = (db', r)" by (cases "decide env i db")
  have audited: "governance_invariant (audit a s x y db)" for a s x y
    by (rule invariant_untouched [OF assms untouched_audit]) simp
  from run show ?thesis
    by (cases rule: decide_cases) (use run assms audited first_decision_invariant in auto)
qed

lemma appeal_Inr:
  assumes "appeal_body env i statement db = Inr (db', response)"
  obtains "db' = db"
  | d c policy where "d \<in> set (decisions db)" "gd_id d = gai_decisionId i" "c \<in> set (cases db)" "gcase_id c = gd_case_id d"
      "appeal_policy_of d = Some policy" "decision_in_force db d c" "affected_owner db c = Some (gai_userId i)"
      "gv_dateNow env < aps_deadlineAt policy"
      "db' = db\<lparr>cases := cases db @ [appeal_case env (digest_json env (appeal_snapshot policy i statement)) c],
        appeals := appeals db @ [new_appeal env i statement policy]\<rparr>"
      "unique_on (\<lambda>_. True) gcase_id (cases db')" "appeals_unique (appeals db')"
proof -
  from assms obtain d c policy where dc: "row_where (\<lambda>d. gd_id d = gai_decisionId i) (decisions db) = Some d"
      "row_where (\<lambda>c. gcase_id c = gd_case_id d) (cases db) = Some c" "appeal_policy_of d = Some policy"
      "decision_in_force db d c" "affected_owner db c = Some (gai_userId i)" "gv_dateNow env < aps_deadlineAt policy"
    and rest: "(case row_where (\<lambda>a. gap_appellant_user_id a = gai_userId i
         \<and> gap_idempotency_key_digest a = digest_json env (JStr (gai_idempotencyKey i))) (appeals db) of
       Some a \<Rightarrow> bindR (guardR (gap_input_fingerprint a = digest_json env (appeal_message i statement)) (Thrown ''decision_conflict'')) (\<lambda>_.
         Inr (db, \<lparr>gar_appealId = gap_id a, gar_policy = policy\<rparr>))
     | None \<Rightarrow> first_appeal env i statement c policy db) = Inr (db', response)"
    unfolding appeal_body_def by (elim bindR_optionE bindR_guardE)
  show thesis
  proof (cases "row_where (\<lambda>a. gap_appellant_user_id a = gai_userId i
         \<and> gap_idempotency_key_digest a = digest_json env (JStr (gai_idempotencyKey i))) (appeals db)")
    case (Some a)
    with rest have "db' = db" by (auto simp: bindR_eq_Inr)
    then show thesis by (rule that(1))
  next
    case None
    with rest have "first_appeal env i statement c policy db = Inr (db', response)" by simp
    then show thesis using row_where_Some [OF dc(1)] row_where_Some [OF dc(2)] dc(3-6)
      by (intro that(2) [of d c policy])
        (auto simp: first_appeal_def bindR_eq_Inr insert_case_def insert_appeal_def Let_def split: if_splits)
  qed
qed

text \<open>A new case, with the rows that name it, leaves the links.\<close>

lemma traced_new_case:
  assumes "governance_traced db" "gcase_kind c = Case_report \<or> gcase_kind c = Case_appeal"
    and "unique_on (\<lambda>_. True) gcase_id (cases db @ [c])"
  shows "governance_traced (db\<lparr>cases := cases db @ [c]\<rparr>)"
proof -
  let ?db = "db\<lparr>cases := cases db @ [c]\<rparr>"
  have cs: "\<exists>c' \<in> set (cases ?db). gcase_id c' = gcase_id c0 \<and> gcase_artifact_id c' = gcase_artifact_id c0"
    if "c0 \<in> set (cases db)" for c0 using that by auto
  have ds: "set (decisions db) \<subseteq> set (decisions ?db)" by simp
  note old = tracedD [OF assms(1)] and more = traced_more [OF cs ds]
  have "gd_case_id d \<in> gcase_id ` set (cases ?db)" if "d \<in> set (decisions ?db)" for d
    using that old(4) [of d] by (auto simp: image_iff) metis
  then show ?thesis unfolding governance_traced_def using old more assms(2,3) by auto
qed

lemma traced_new_appeal:
  assumes "governance_traced db" "appeal_traced db p"
  shows "governance_traced (db\<lparr>appeals := appeals db @ [p]\<rparr>)"
proof -
  have "block_traced (db\<lparr>appeals := T\<rparr>) = block_traced db" "takedown_traced (db\<lparr>appeals := T\<rparr>) = takedown_traced db"
    "appeal_traced (db\<lparr>appeals := T\<rparr>) = appeal_traced db" for T
    by (simp_all add: fun_eq_iff block_traced_def takedown_traced_def appeal_traced_def)
  moreover have "basis_traced (db\<lparr>appeals := T\<rparr>) = basis_traced db" for T
    by (simp add: fun_eq_iff basis_traced_def block_of_basis_def split: option.split)
  ultimately show ?thesis using assms by (auto simp: governance_traced_def)
qed

lemma traced_new_basis:
  assumes "governance_traced db" "basis_traced db r"
  shows "governance_traced (insert_basis r db)"
proof (rule traced_extend [OF assms(1), where R = "[]" and T = "[]" and B = "[r]"])
  have "basis_traced (insert_basis r db) = basis_traced db"
    by (simp add: fun_eq_iff basis_traced_def block_of_basis_def insert_basis_def split: option.split)
  then show "basis_traced (insert_basis r db) b" if "b \<in> set [r]" for b using that assms(2) by simp
qed (simp_all add: insert_basis_def)

lemma appeal_invariant:
  assumes "governance_invariant db"
  shows "governance_invariant (fst (appeal env i db))"
proof (cases "safeText (gai_statement i) 8000")
  case (Inl e)
  with assms show ?thesis by (simp add: appeal_def)
next
  case (Inr statement)
  then have run: "appeal env i db = run_tx (appeal_body env i statement) db" by (simp add: appeal_def)
  have inv: "governance_traced db" "decided_cases db" "projected_except {} db" using assms by (simp_all add: governance_invariant_def)
  show ?thesis
  proof (cases "appeal_body env i statement db")
    case (Inl e)
    with run assms show ?thesis by (simp add: run_tx_def)
  next
    case (Inr q)
    obtain db' response where q: "q = (db', response)" by (cases q)
    with run Inr have db': "fst (appeal env i db) = db'" by (simp add: run_tx_def)
    from Inr q have body: "appeal_body env i statement db = Inr (db', response)" by simp
    from body show ?thesis
    proof (rule appeal_Inr)
      assume "db' = db"
      with db' assms show ?thesis by simp
    next
      fix d c policy
      let ?c = "appeal_case env (digest_json env (appeal_snapshot policy i statement)) c" and ?p = "new_appeal env i statement policy"
      let ?db1 = "db\<lparr>cases := cases db @ [?c]\<rparr>"
      assume d: "d \<in> set (decisions db)" "gd_id d = gai_decisionId i" and c: "c \<in> set (cases db)" "gcase_id c = gd_case_id d"
        and new: "db' = db\<lparr>cases := cases db @ [?c], appeals := appeals db @ [?p]\<rparr>"
        and uniq: "unique_on (\<lambda>_. True) gcase_id (cases db')"
      have "governance_traced ?db1"
        by (rule traced_new_case [OF inv(1)]) (use uniq new in \<open>simp_all add: appeal_case_def\<close>)
      moreover have "appeal_traced ?db1 ?p"
        unfolding appeal_traced_def using c d
        by (intro bexI [of _ ?c] bexI [of _ d] bexI [of _ c]) (simp_all add: appeal_case_def new_appeal_def)
      ultimately have "governance_traced (?db1\<lparr>appeals := appeals ?db1 @ [?p]\<rparr>)" by (rule traced_new_appeal)
      moreover have "?db1\<lparr>appeals := appeals ?db1 @ [?p]\<rparr> = db'" by (simp add: new)
      moreover have "decided_cases db'"
        unfolding decided_cases_def
      proof (intro ballI impI)
        fix d' c' assume d': "d' \<in> set (decisions db')" and c': "c' \<in> set (cases db')" "gcase_id c' = gd_case_id d'"
        from d' obtain c0 where "c0 \<in> set (cases db)" "gcase_id c0 = gd_case_id d'" using tracedD(4) [OF inv(1), of d'] by (auto simp: new)
        moreover from this have "c' = c0" by (intro unique_onD [OF uniq]) (use c' new in auto)
        ultimately show "gcase_state c' \<noteq> Case_open" using inv(2) d' by (auto simp: decided_cases_def new)
      qed
      moreover have "projected_except {} db'" by (rule projected_except_cong [OF inv(3)]) (simp_all add: new)
      ultimately show ?thesis by (simp add: governance_invariant_def db')
    qed
  qed
qed

text \<open>A report puts its listing under review: it is the one open listing of its artifact.\<close>

lemma report_projected:
  assumes "projected_except {} db" "reportable db slug l" "l \<in> set (listings db)"
    and tables: "listings db1 = listings db" "public_sharing_restrictions db1 = public_sharing_restrictions db"
      "artifact_takedowns db1 = artifact_takedowns db" "review_bases db1 = review_bases db @ [r]"
    and r: "active_basis r" "rb_artifact_id r = gl_artifact_id l"
    and upd: "update_listings (\<lambda>q. gl_id q = gl_id l \<and> gl_review_state q = Clear)
      (\<lambda>q. q\<lparr>gl_review_state := Reviewing, gl_updated_at := now\<rparr>) db1 = Inr db2"
  shows "projected_except {} db2"
  unfolding projected_except_def
proof (intro ballI impI)
  let ?p = "\<lambda>q. gl_id q = gl_id l \<and> gl_review_state q = Clear"
  let ?f = "\<lambda>q. q\<lparr>gl_review_state := Reviewing, gl_updated_at := now\<rparr>"
  note e = update_listings_effect [OF upd]
  fix q' assume q': "q' \<in> set (listings db2)" "open_listing q'"
  then obtain q where q: "q \<in> set (listings db)" "q' = (if ?p q then ?f q else q)"
    unfolding e(2) tables(1) in_update_where by blast
  have oq: "open_listing q" "gl_artifact_id q' = gl_artifact_id q" using q(2) q'(2) by (simp_all split: if_splits)
  have "gl_review_state q' = projected_review_state db1 (gl_artifact_id q')"
  proof (cases "gl_artifact_id q = gl_artifact_id l")
    case True
    let ?l' = "if ?p l then ?f l else l"
    have "?l' \<in> set (listings db2)" unfolding e(2) tables(1) in_update_where using assms(3) by blast
    moreover have "open_listing ?l'" using assms(2) by (simp add: reportable_def open_listing_def)
    moreover have "gl_artifact_id ?l' = gl_artifact_id q'" using True oq(2) by simp
    ultimately have "?l' = q'"
      using e(6) q' by (intro unique_onD [of open_listing gl_artifact_id]) (auto simp: listings_unique_def)
    moreover have "gl_review_state ?l' = Reviewing"
      using assms(2) by (cases "gl_review_state l") (simp_all add: reportable_def)
    moreover have "projected_review_state db1 (gl_artifact_id l) = Reviewing"
      using assms(2) r unfolding projected_review_state_def tables reportable_def artifact_blocked_def exists_where_iff
      by (auto simp: active_block_of_def active_basis_of_def)
    ultimately show ?thesis using True oq(2) by simp
  next
    case False
    have "map gl_id (listings db2) = map gl_id (listings db)" unfolding e(2) tables(1) by (rule map_update_where_same) simp
    with e(6) have "unique_on (\<lambda>_. True) gl_id (listings db)" by (simp add: listings_unique_def unique_on_def)
    then have "gl_id q \<noteq> gl_id l" using q(1) assms(3) False unique_onD [of "\<lambda>_. True" gl_id] by metis
    then have "q' = q" using q(2) by simp
    moreover have "gl_review_state q = projected_review_state db (gl_artifact_id q)"
      using assms(1) q(1) oq(1) by (simp add: projected_except_def)
    moreover have "projected_review_state db1 (gl_artifact_id q) = projected_review_state db (gl_artifact_id q)"
      using False r(2) unfolding projected_review_state_def tables exists_where_iff by (auto simp: active_basis_of_def)
    ultimately show ?thesis by simp
  qed
  then show "gl_review_state q' = projected_review_state db2 (gl_artifact_id q')"
    by (simp add: projected_untouched [OF e(1)])
qed

lemma submit_body_Inr:
  assumes "submit_body env i detail db = Inr (db', reportId)"
  obtains l c r db1 db2 where "l \<in> set (listings db)" "reportable db (gri_slug i) l"
    "gcase_kind c = Case_report" "gcase_artifact_id c = Some (gl_artifact_id l)" "gcase_state c = Case_open"
    "rb_artifact_id r = gl_artifact_id l" "rb_case_id r = gcase_id c" "rb_source_root_decision_id r = None" "active_basis r"
    "cases db1 = cases db @ [c]" "unique_on (\<lambda>_. True) gcase_id (cases db1)" "review_bases db1 = review_bases db @ [r]"
    "decisions db1 = decisions db" "appeals db1 = appeals db" "listings db1 = listings db"
    "public_sharing_restrictions db1 = public_sharing_restrictions db" "artifact_takedowns db1 = artifact_takedowns db"
    "update_listings (\<lambda>q. gl_id q = gl_id l \<and> gl_review_state q = Clear)
      (\<lambda>q. q\<lparr>gl_review_state := Reviewing, gl_updated_at := gv_now env\<rparr>) db1 = Inr db2"
    "untouched db2 db'" "listings db' = listings db2"
proof -
  from assms obtain l digest rs h dba dbb db2 where l: "row_where (reportable db (gri_slug i)) (listings db) = Some l"
    and a: "insert_case (report_case env digest l) (db\<lparr>reports := rs\<rparr>) = Inr dba" and b: "insert_evidence h dba = Inr dbb"
    and 2: "update_listings (\<lambda>q. gl_id q = gl_id l \<and> gl_review_state q = Clear)
      (\<lambda>q. q\<lparr>gl_review_state := Reviewing, gl_updated_at := gv_now env\<rparr>) (insert_basis (report_basis env l) dbb) = Inr db2"
    and 3: "\<exists>s. db' = db2\<lparr>reporter_signals := s\<rparr>"
    unfolding submit_body_def Let_def by (elim result_elims) blast
  note l' = row_where_Some [OF l]
  let ?c = "report_case env digest l" and ?r = "report_basis env l"
  have a': "dba = db\<lparr>reports := rs, cases := cases db @ [?c]\<rparr>" "unique_on (\<lambda>_. True) gcase_id (cases db @ [?c])"
    using a by (simp_all add: insert_case_def Let_def split: if_splits)
  have b': "\<exists>hs. dbb = dba\<lparr>case_evidence := hs\<rparr>" using b by (auto simp: insert_evidence_def Let_def split: if_splits)
  let ?db1 = "insert_basis ?r dbb"
  have 1: "cases ?db1 = cases db @ [?c]" "review_bases ?db1 = review_bases db @ [?r]"
      "decisions ?db1 = decisions db" "appeals ?db1 = appeals db" "listings ?db1 = listings db"
      "public_sharing_restrictions ?db1 = public_sharing_restrictions db" "artifact_takedowns ?db1 = artifact_takedowns db"
    using a' b' by (auto simp: insert_basis_def)
  have "untouched db2 db'" "listings db' = listings db2" using 3 untouched_frame by auto
  then show thesis
    using l' 1 2 a'(2) by (intro that [of l ?c ?r ?db1 db2]) (simp_all add: report_case_def report_basis_def active_basis_def)
qed

lemma submit_invariant:
  assumes "governance_invariant db"
  shows "governance_invariant (fst (submit env challenge i db))"
proof -
  have inv: "governance_traced db" "decided_cases db" "projected_except {} db" using assms by (simp_all add: governance_invariant_def)
  have body: "governance_invariant db'" if run: "submit_body env i detail db = Inr (db', reportId)" for detail db' reportId
    using run
  proof (rule submit_body_Inr)
    fix l c r db1 db2
    assume l: "l \<in> set (listings db)" "reportable db (gri_slug i) l"
      and c: "gcase_kind c = Case_report" "gcase_artifact_id c = Some (gl_artifact_id l)" "gcase_state c = Case_open"
      and r: "rb_artifact_id r = gl_artifact_id l" "rb_case_id r = gcase_id c" "rb_source_root_decision_id r = None" "active_basis r"
      and t: "cases db1 = cases db @ [c]" "unique_on (\<lambda>_. True) gcase_id (cases db1)" "review_bases db1 = review_bases db @ [r]"
        "decisions db1 = decisions db" "appeals db1 = appeals db" "listings db1 = listings db"
        "public_sharing_restrictions db1 = public_sharing_restrictions db" "artifact_takedowns db1 = artifact_takedowns db"
      and upd: "update_listings (\<lambda>q. gl_id q = gl_id l \<and> gl_review_state q = Clear)
        (\<lambda>q. q\<lparr>gl_review_state := Reviewing, gl_updated_at := gv_now env\<rparr>) db1 = Inr db2"
      and last: "untouched db2 db'" "listings db' = listings db2"
    let ?db0 = "db\<lparr>cases := cases db @ [c]\<rparr>"
    have "governance_traced ?db0" by (rule traced_new_case [OF inv(1)]) (use c t in simp_all)
    moreover have "basis_traced ?db0 r" using c r by (auto simp: basis_traced_def)
    ultimately have "governance_traced (insert_basis r ?db0)" by (rule traced_new_basis)
    moreover have "untouched (insert_basis r ?db0) db1" using t by (simp add: untouched_def insert_basis_def)
    ultimately have "governance_traced db1" using traced_untouched(1) by blast
    moreover have all: "untouched db1 db'" using update_listings_effect(1) [OF upd] last(1) by (rule untouched_trans)
    moreover have "decided_cases db1"
      unfolding decided_cases_def
    proof (intro ballI impI)
      fix d' c' assume d': "d' \<in> set (decisions db1)" and c': "c' \<in> set (cases db1)" "gcase_id c' = gd_case_id d'"
      from d' obtain c0 where "c0 \<in> set (cases db)" "gcase_id c0 = gd_case_id d'" using tracedD(4) [OF inv(1), of d'] by (auto simp: t(4))
      moreover from this have "c' = c0" by (intro unique_onD [OF t(2)]) (use c' t(1) in auto)
      ultimately show "gcase_state c' \<noteq> Case_open" using inv(2) d' by (auto simp: decided_cases_def t(4))
    qed
    moreover have "projected_except {} db2"
      by (rule report_projected [OF inv(3) l(2,1) t(6-8,3) r(4,1) upd])
    ultimately show "governance_invariant db'"
      using traced_untouched [OF all] projected_except_untouched [OF _ last] by (simp add: governance_invariant_def)
  qed
  show ?thesis
    using assms body by (auto simp: submit_def Let_def run_tx_def split: sum.split)
qed

subsection \<open>What no call takes back\<close>

text \<open>
  \<open>kept caseId\<close>: every closed listing is still there as it was, and so is every basis without
  a root decision, those of \<open>caseId\<close> apart.
\<close>

definition kept :: "js_string \<Rightarrow> governance_db \<Rightarrow> governance_db \<Rightarrow> bool" where
  "kept caseId db db' \<longleftrightarrow>
     (\<forall>l \<in> set (listings db). \<not> open_listing l \<longrightarrow> l \<in> set (listings db'))
     \<and> (\<forall>r \<in> set (review_bases db). rb_source_root_decision_id r = None \<longrightarrow> rb_case_id r \<noteq> caseId \<longrightarrow>
          r \<in> set (review_bases db'))"

lemma kept_trans: "kept caseId db db1 \<Longrightarrow> kept caseId db1 db2 \<Longrightarrow> kept caseId db db2"
  unfolding kept_def by blast

lemma kept_tables:
  assumes "listings db' = listings db" "set (review_bases db) \<subseteq> set (review_bases db')"
  shows "kept caseId db db'"
  using assms by (auto simp: kept_def)

lemma kept_bases:
  assumes "listings db' = listings db" "review_bases db' = update_where p f (review_bases db)"
    and "\<And>r. p r \<Longrightarrow> rb_source_root_decision_id r \<noteq> None \<or> rb_case_id r = caseId"
  shows "kept caseId db db'"
  unfolding kept_def assms(1,2) in_update_where using assms(3) by (metis (mono_tags))

lemma kept_update:
  assumes "update_listings p f db = Inr db'" "\<And>l. l \<in> set (listings db) \<Longrightarrow> p l \<Longrightarrow> open_listing l"
  shows "kept caseId db db'"
  using update_listings_effect(1,2) [OF assms(1)] assms(2)
  by (fastforce simp: kept_def untouchedD(6) in_update_where intro: bexI)

lemma kept_recompute:
  assumes "recomputeArtifact now a db = Inr db'"
  shows "kept caseId db db'"
  using assms unfolding recomputeArtifact_def by (rule kept_update) simp

lemma kept_recompute_all:
  "recompute_all now as db = Inr db' \<Longrightarrow> kept caseId db db'"
proof (induction "as" arbitrary: db)
  case (Cons a "as")
  then obtain db1 where "recomputeArtifact now a db = Inr db1" "recompute_all now as db1 = Inr db'" by (auto simp: bindR_eq_Inr)
  with Cons.IH [of db1] kept_recompute show ?case by (blast intro: kept_trans)
qed (simp add: kept_def)

lemma kept_blocked:
  assumes "propagateRestriction now a c decisionId ruleCode db = Inr db1" "closeBlockedProposals now a decisionId db1 = Inr db'"
  shows "kept caseId db db'"
proof -
  obtain new db2 where
    db2: "db2 = db\<lparr>public_sharing_restrictions := public_sharing_restrictions db @ new,
       review_bases := review_bases db @ derived_bases decisionId c
         (db\<lparr>public_sharing_restrictions := public_sharing_restrictions db @ new\<rparr>)\<rparr>"
    and upd: "update_listings
      (\<lambda>l. exists_where (active_block_of (gl_artifact_id l)) (restricted_by decisionId db2) \<and> open_listing l)
      (\<lambda>l. l\<lparr>gl_review_state := Restricted, gl_updated_at := now\<rparr>) db2 = Inr db1"
    by (rule propagateRestriction_steps [OF assms(1)]) (rule that, assumption+)
  have "kept caseId db db2" by (rule kept_tables) (simp_all add: db2)
  moreover have "kept caseId db2 db1" using upd by (rule kept_update) simp
  moreover have "kept caseId db1 db'"
    using closeBlockedProposals_effect(1,4) [OF assms(2)] by (auto simp: kept_def untouchedD(6))
  ultimately show ?thesis by (blast intro: kept_trans)
qed

lemma kept_resolve:
  assumes "resolveAppeal now c decisionId reverse db = Inr db'"
  shows "kept caseId db db'"
proof -
  from assms obtain p where p: "row_where (pending_appeal_of c) (appeals db) = Some p"
    by (auto simp: resolveAppeal_def bindR_eq_Inr)
  define db1 where "db1 = notify [appeal_notice reverse decisionId p]
           (update_appeals (\<lambda>r. gap_id r = gap_id p)
             (\<lambda>r. r\<lparr>gap_state := (if reverse then Appeal_state_reversed else Appeal_state_upheld),
                gap_resolved_at := Some now, gap_resolution_decision_id := Some decisionId\<rparr>) db)"
  have first: "kept caseId db db1" by (rule kept_tables) (simp_all add: db1_def notify_def update_appeals_def)
  show ?thesis
  proof (cases reverse)
    case False
    with assms first show ?thesis by (simp add: resolveAppeal_def p db1_def)
  next
    case True
    let ?as = "map gb_artifact_id (filter (\<lambda>b. gb_source_decision_id b = gap_decision_id p \<and> gb_active b) (public_sharing_restrictions db))"
    have "kept caseId db1 (reversed_blocks now decisionId (gap_decision_id p) db1)"
      by (rule kept_bases [OF reversed_blocks_tables(4,7)]) simp
    moreover from assms True have "recompute_all now ?as (reversed_blocks now decisionId (gap_decision_id p) db1) = Inr db'"
      by (simp add: resolveAppeal_def p db1_def reversed_blocks_def Let_def notify_def update_appeals_def)
    ultimately show ?thesis using first kept_recompute_all by (blast intro: kept_trans)
  qed
qed

lemma kept_apply:
  assumes "apply_kind now c decisionId kind ruleCode actor db = Inr db'"
    and "kind \<in> set (allowedDecisions (gcase_kind c))" "gcase_kind c = Case_report \<or> gcase_kind c = Case_appeal"
  shows "kept (gcase_id c) db db'"
proof -
  have same: "kept (gcase_id c) db db" by (rule kept_tables) simp_all
  have block: "kept (gcase_id c) db db'"
    if "listings db1 = listings db" "review_bases db1 = review_bases db" "propagateRestriction now a (gcase_id c) decisionId ruleCode (insert_basis r db1) = Inr db2"
      "closeBlockedProposals now a decisionId db2 = Inr db'" for a r db1 db2
  proof -
    have "kept (gcase_id c) db (insert_basis r db1)" by (rule kept_tables) (auto simp: insert_basis_def that)
    with kept_blocked [OF that(3,4)] show ?thesis by (blast intro: kept_trans)
  qed
  show ?thesis
  proof (cases kind)
    case Decide_dismiss
    with assms(1) have db': "db' = update_bases (\<lambda>b. rb_case_id b = gcase_id c \<and> active_basis b) (ended_basis Basis_closed now decisionId) db"
      by (simp add: apply_kind_def)
    show ?thesis
      by (rule kept_bases [where p = "\<lambda>b. rb_case_id b = gcase_id c \<and> active_basis b" and f = "ended_basis Basis_closed now decisionId"])
        (simp_all add: db' update_bases_def)
  next
    case Decide_remove
    show ?thesis
    proof (cases "gcase_listing_id c")
      case (Some l)
      with assms(1) Decide_remove have "remove_listing now actor l db = Inr db'" by (simp add: apply_kind_def)
      note e = remove_listing_effect [OF this]
      show ?thesis
        using untouchedD(6) [OF e(1)] unfolding kept_def e(2) in_update_where
        by (auto simp: removable_listing_def open_listing_def intro!: bexI)
    qed (use assms(1) Decide_remove same in \<open>simp add: apply_kind_def\<close>)
  next
    case Decide_restrict
    show ?thesis
    proof (cases "gcase_artifact_id c")
      case (Some a)
      with assms(1) Decide_restrict have "restrict_artifact now c a decisionId ruleCode db = Inr db'" by (simp add: apply_kind_def)
      then obtain db2 where "propagateRestriction now a (gcase_id c) decisionId ruleCode
            (insert_basis (new_basis a (gcase_listing_id c) (gcase_id c) Basis_restriction decisionId)
              (db\<lparr>public_sharing_restrictions := public_sharing_restrictions db @ [new_block a decisionId ruleCode]\<rparr>)) = Inr db2"
          "closeBlockedProposals now a decisionId db2 = Inr db'"
        by (auto simp: restrict_artifact_def bindR_eq_Inr insert_restriction_def Let_def split: if_splits)
      then show ?thesis by (rule block [rotated 2]) simp_all
    qed (use assms(1) Decide_restrict same in \<open>simp add: apply_kind_def\<close>)
  next
    case Decide_takedown
    show ?thesis
    proof (cases "gcase_artifact_id c")
      case (Some a)
      with assms(1) Decide_takedown have "take_down_artifact now c a decisionId ruleCode db = Inr db'" by (simp add: apply_kind_def)
      then obtain db2 where "propagateRestriction now a (gcase_id c) decisionId ruleCode
            (insert_basis (new_basis a (gcase_listing_id c) (gcase_id c) Basis_takedown decisionId)
              (db\<lparr>artifact_takedowns := artifact_takedowns db @ [new_block a decisionId ruleCode]\<rparr>)) = Inr db2"
          "closeBlockedProposals now a decisionId db2 = Inr db'"
        by (auto simp: take_down_artifact_def bindR_eq_Inr insert_takedown_def Let_def split: if_splits)
      then show ?thesis by (rule block [rotated 2]) simp_all
    qed (use assms(1) Decide_takedown same in \<open>simp add: apply_kind_def\<close>)
  qed (use assms same in \<open>auto simp: apply_kind_def intro: kept_resolve split: if_splits\<close>)
qed

text \<open>
  \<open>advances\<close>: closed listings and decided cases stay as they are, and so do the bases that the
  reports of decided cases gave.
\<close>

definition settled :: "governance_db \<Rightarrow> js_string \<Rightarrow> bool" where
  "settled db caseId \<longleftrightarrow> (\<exists>c \<in> set (cases db). gcase_id c = caseId \<and> gcase_state c \<noteq> Case_open)"

definition advances :: "governance_db \<Rightarrow> governance_db \<Rightarrow> bool" where
  "advances db db' \<longleftrightarrow>
     (\<forall>l \<in> set (listings db). \<not> open_listing l \<longrightarrow> l \<in> set (listings db'))
     \<and> (\<forall>c \<in> set (cases db). gcase_state c \<noteq> Case_open \<longrightarrow> c \<in> set (cases db'))
     \<and> (\<forall>r \<in> set (review_bases db). rb_source_root_decision_id r = None \<longrightarrow> settled db (rb_case_id r) \<longrightarrow>
          r \<in> set (review_bases db'))
     \<and> set (decisions db) \<subseteq> set (decisions db')"

lemma advances_refl: "advances db db"
  by (simp add: advances_def)

lemma advances_trans:
  assumes "advances db db1" "advances db1 db2"
  shows "advances db db2"
proof -
  have "settled db k \<Longrightarrow> settled db1 k" for k using assms(1) by (auto simp: advances_def settled_def)
  then show ?thesis using assms unfolding advances_def by (simp add: subset_iff)
qed

lemma advances_untouched: "untouched db db' \<Longrightarrow> listings db' = listings db \<Longrightarrow> advances db db'"
  by (simp add: advances_def untouchedD)

lemma kept_advances:
  assumes "kept caseId db db'" "\<not> settled db caseId"
    and "\<And>c. c \<in> set (cases db) \<Longrightarrow> gcase_state c \<noteq> Case_open \<Longrightarrow> c \<in> set (cases db')"
    "set (decisions db) \<subseteq> set (decisions db')"
  shows "advances db db'"
  using assms unfolding kept_def advances_def by metis

lemma kept_untouched: "untouched db db' \<Longrightarrow> listings db' = listings db \<Longrightarrow> kept caseId db db'"
  by (rule kept_tables) (simp_all add: untouchedD)

lemma first_decision_advances:
  assumes "first_decision env i ruleCode rationale db = Inr (db', response)" "governance_invariant db"
  shows "advances db db'"
  using assms(1)
proof (rule first_decision_Inr)
  fix c policy d db1
  let ?db0 = "db\<lparr>decisions := decisions db @ [d]\<rparr>"
  assume c: "c \<in> set (cases db)" "gcase_id c = gdi_caseId i" "gcase_state c = Case_open" "gdi_kind i \<in> set (allowedDecisions (gcase_kind c))"
    and d: "d = new_decision env i ruleCode rationale c policy" and uniq: "decisions_unique (decisions db @ [d])"
    and apply': "applyDecision (gv_now env) c (gd_id d) (gdi_kind i) ruleCode (gdi_actorUserId i) ?db0 = Inr db1"
    and db': "db' = db1\<lparr>cases := update_where (\<lambda>c. gcase_id c = gdi_caseId i) (decided_case (gv_now env)) (cases db1)\<rparr>"
  have traced: "governance_traced db" using assms(2) by (simp add: governance_invariant_def)
  have dc: "gd_case_id d = gcase_id c" using c(2) by (simp add: d new_decision_def)
  have cs: "cases db1 = cases db" "decisions db1 = decisions db @ [d]"
    using applyDecision_effect [OF apply' assms(2) c(1,3,4) dc uniq] by simp_all
  have mine: "q = c" if "q \<in> set (cases db)" "gcase_id q = gcase_id c" for q
    using unique_onD [OF tracedD(2) [OF traced] that(1) c(1)] that(2) by simp
  from applyDecision_Inr [OF apply'] obtain dbA dbB where
    1: "apply_kind (gv_now env) c (gd_id d) (gdi_kind i) ruleCode (gdi_actorUserId i) ?db0 = Inr dbA"
    and 2: "case gcase_artifact_id c of None \<Rightarrow> dbB = dbA | Some a \<Rightarrow> recomputeArtifact (gv_now env) a dbA = Inr dbB"
    and 3: "untouched dbB db1" "listings db1 = listings dbB" by blast
  have "kept (gcase_id c) db ?db0" by (rule kept_tables) simp_all
  moreover have "kept (gcase_id c) ?db0 dbA" by (rule kept_apply [OF 1 c(4) tracedD(1) [OF traced c(1)]])
  moreover have "kept (gcase_id c) dbA dbB"
    using 2 kept_untouched [OF untouched_refl] by (cases "gcase_artifact_id c") (auto intro: kept_recompute)
  moreover have "kept (gcase_id c) dbB db1" using 3 by (rule kept_untouched)
  moreover have "kept (gcase_id c) db1 db'" by (rule kept_tables) (simp_all add: db')
  ultimately have "kept (gcase_id c) db db'" by (blast intro: kept_trans)
  then show ?thesis
  proof (rule kept_advances)
    show "\<not> settled db (gcase_id c)" using mine c(3) by (auto simp: settled_def)
    show "q \<in> set (cases db')" if "q \<in> set (cases db)" "gcase_state q \<noteq> Case_open" for q
      using that mine [OF that(1)] c(2,3) unfolding db' by (auto simp: cs in_update_where intro!: bexI [of _ q])
    show "set (decisions db) \<subseteq> set (decisions db')" by (auto simp: db' cs)
  qed
qed

lemma submit_advances:
  assumes "governance_invariant db"
  shows "advances db (fst (submit env challenge i db))"
proof -
  have body: "advances db db'" if run: "submit_body env i detail db = Inr (db', reportId)" for detail db' reportId
    using run
  proof (rule submit_body_Inr)
    fix l c r db1 db2
    assume l: "l \<in> set (listings db)" "reportable db (gri_slug i) l"
      and t: "cases db1 = cases db @ [c]" "review_bases db1 = review_bases db @ [r]" "listings db1 = listings db" "decisions db1 = decisions db"
      and upd: "update_listings (\<lambda>q. gl_id q = gl_id l \<and> gl_review_state q = Clear)
        (\<lambda>q. q\<lparr>gl_review_state := Reviewing, gl_updated_at := gv_now env\<rparr>) db1 = Inr db2"
      and last: "untouched db2 db'" "listings db' = listings db2"
    note e = update_listings_effect [OF upd]
    have "map gl_id (listings db2) = map gl_id (listings db)" unfolding e(2) t(3) by (rule map_update_where_same) simp
    with e(6) have "unique_on (\<lambda>_. True) gl_id (listings db)" by (simp add: listings_unique_def unique_on_def)
    then have "open_listing q" if "q \<in> set (listings db)" "gl_id q = gl_id l" for q
      using unique_onD [of "\<lambda>_. True" gl_id "listings db" q l] that l by (simp add: reportable_def open_listing_def)
    then have "advances db db2"
      unfolding advances_def e(2) t untouchedD(1,2,6) [OF e(1)] by (auto simp: in_update_where)
    then show "advances db db'" using advances_untouched [OF last] by (rule advances_trans)
  qed
  show ?thesis
    using advances_refl body by (auto simp: submit_def Let_def run_tx_def split: sum.split)
qed

lemma appeal_advances: "advances db (fst (appeal env i db))"
proof -
  have body: "advances db db'" if run: "appeal_body env i statement db = Inr (db', response)" for statement db' response
    using run by (rule appeal_Inr) (auto simp: advances_def)
  then show ?thesis
    using advances_refl by (auto simp: appeal_def run_tx_def split: sum.split)
qed

lemma other_calls_untouched:
  fixes db :: governance_db
  shows "untouched db (fst (setFeatured actor l position revision db))"
    "listings (fst (setFeatured actor l position revision db)) = listings db"
    "untouched db (fst (removeFeatured actor position db))" "listings (fst (removeFeatured actor position db)) = listings db"
    "untouched db (fst (grant now actor u db))" "listings (fst (grant now actor u db)) = listings db"
    "untouched db (fst (revoke now actor u db))" "listings (fst (revoke now actor u db)) = listings db"
proof -
  have "untouched db db' \<and> listings db' = listings db" if "setFeatured actor l position revision db = (db', r)" for db' r
    using that
    by (cases r) (auto simp: setFeatured_def run_tx_eq_Inr run_tx_eq_Inl bindR_eq_Inr authority_require_Inr upsert_featured_def
      Let_def untouched_def audit_def split: if_splits)
  then show "untouched db (fst (setFeatured actor l position revision db))"
    "listings (fst (setFeatured actor l position revision db)) = listings db" by (metis prod.collapse)+
  have "untouched db db' \<and> listings db' = listings db" if "removeFeatured actor position db = (db', r)" for db' r
    using that
    by (cases r) (auto simp: removeFeatured_def run_tx_eq_Inr run_tx_eq_Inl bindR_eq_Inr authority_require_Inr
      untouched_def audit_def split: option.splits)
  then show "untouched db (fst (removeFeatured actor position db))" "listings (fst (removeFeatured actor position db)) = listings db"
    by (metis prod.collapse)+
qed (auto simp: grant_def revoke_def authority_require_def bindR_def guardR_def untouched_def audit_def split: sum.split if_splits)

lemma governance_step_keeps:
  assumes "governance_invariant db"
  shows "governance_invariant (governance_step call db) \<and> advances db (governance_step call db)"
proof (cases call)
  case (Call_submit env challenge i)
  then show ?thesis by (simp add: submit_invariant [OF assms] submit_advances [OF assms])
next
  case (Call_decide env i)
  obtain db' r where run: "decide env i db = (db', r)" by (cases "decide env i db")
  have audited: "governance_invariant (audit a s x y db)" "advances db (audit a s x y db)" for a s x y
    by (rule invariant_untouched [OF assms untouched_audit]) (simp_all add: advances_untouched untouched_audit)
  have "advances db db'"
    using run by (cases rule: decide_cases)
      (use run audited in \<open>auto simp: advances_refl dest!: first_decision_advances intro: advances_trans [OF audited(2)]\<close>)
  with Call_decide run decide_invariant [OF assms, of env i] show ?thesis by simp
next
  case (Call_appeal env i)
  have "advances db (fst (appeal env i db))" by (rule appeal_advances)
  with Call_appeal appeal_invariant [OF assms] show ?thesis by simp
qed (use other_calls_untouched [where db = db] in \<open>auto intro: invariant_untouched [OF assms] advances_untouched\<close>)

lemma governance_run_keeps_invariant:
  assumes "governance_invariant db"
  shows "governance_invariant (governance_run calls db) \<and> advances db (governance_run calls db)"
  using assms
proof (induction calls arbitrary: db)
  case (Cons call calls)
  from governance_step_keeps [OF Cons.prems, of call] Cons.IH [of "governance_step call db"] show ?case
    by (auto intro: advances_trans)
qed (simp add: advances_refl)

text \<open>One decision per actor and key.\<close>

lemma made_once:
  assumes "d \<in> set (decisions db)" "made_decision env i d"
  shows "fst (decide env i db) = db
    \<or> fst (decide env i db) = audit (gdi_actorUserId i) None Audit_decision (Some (gdi_caseId i)) db"
proof -
  obtain db' r where run: "decide env i db = (db', r)" by (cases "decide env i db")
  from run show ?thesis
  proof (cases rule: decide_cases)
    case (first ruleCode rationale response)
    from first(2) show ?thesis
    proof (rule first_decision_Inr)
      fix c policy d' db1
      assume "d' = new_decision env i ruleCode rationale c policy"
        and "decisions_unique (decisions (audit (gdi_actorUserId i) None Audit_decision (Some (gdi_caseId i)) db) @ [d'])"
      with assms show ?thesis
        by (auto simp: decisions_unique_def unique_on_append1 made_decision_def new_decision_def audit_def)
    qed
  qed (use run in simp_all)
qed

text \<open>Every propagated block leaves its artifact restricted, by itself or by the one in force.\<close>

lemma fold_restricts:
  assumes "restrictions_unique (public_sharing_restrictions db)" "b \<in> set bs"
    and "\<And>b. b \<in> set bs \<Longrightarrow> gb_active b \<and> gb_source_decision_id b = decisionId"
    and "\<And>b. b \<in> set (public_sharing_restrictions db) \<Longrightarrow> gb_source_decision_id b = decisionId \<Longrightarrow> gb_active b"
  shows "exists_where (active_block_of (gb_artifact_id b)) (public_sharing_restrictions (fold insert_restriction_do_nothing bs db))"
  using assms
proof (induction bs arbitrary: db)
  case (Cons b0 bs)
  let ?db1 = "insert_restriction_do_nothing b0 db"
  have unique1: "restrictions_unique (public_sharing_restrictions ?db1)"
    using Cons.prems(1) by (simp add: insert_restriction_do_nothing_def Let_def)
  have active1: "gb_active q" if "q \<in> set (public_sharing_restrictions ?db1)" "gb_source_decision_id q = decisionId" for q
    using that Cons.prems(3) [of b0] Cons.prems(4) [of q]
    by (auto simp: insert_restriction_do_nothing_def Let_def split: if_splits)
  show ?case
  proof (cases "b \<in> set bs")
    case True
    with Cons.IH [OF unique1 True] Cons.prems(3) active1 show ?thesis by simp
  next
    case False
    with Cons.prems(2) have b: "b = b0" by simp
    have b0: "gb_active b0" "gb_source_decision_id b0 = decisionId" using Cons.prems(3) [of b0] by simp_all
    have now: "exists_where (active_block_of (gb_artifact_id b0)) (public_sharing_restrictions ?db1)"
    proof (cases "restrictions_unique (public_sharing_restrictions db @ [b0])")
      case True
      with b0 show ?thesis by (simp add: insert_restriction_do_nothing_def exists_where_iff active_block_of_def)
    next
      case False
      with Cons.prems(1) b0 obtain q where "q \<in> set (public_sharing_restrictions db)" "gb_artifact_id q = gb_artifact_id b0"
          "gb_active q \<or> gb_source_decision_id q = decisionId"
        by (auto simp: restrictions_unique_def unique_on_append1)
      with False Cons.prems(4) [of q] show ?thesis
        by (auto simp: insert_restriction_do_nothing_def exists_where_iff active_block_of_def)
    qed
    obtain new where "public_sharing_restrictions (fold insert_restriction_do_nothing bs ?db1) = public_sharing_restrictions ?db1 @ new"
      using fold_restrictions [of bs ?db1] by blast
    with now show ?thesis by (auto simp: b exists_where_iff)
  qed
qed simp

text \<open>The blocks that a restriction or takedown leaves, on the artifact and on its copies.\<close>

lemma propagate_restrictions:
  assumes "propagateRestriction now a c decisionId ruleCode db = Inr db'"
  shows "public_sharing_restrictions db' = public_sharing_restrictions
      (fold insert_restriction_do_nothing (map (\<lambda>a. new_block a decisionId ruleCode) (copied_from db a)) db)"
    "artifact_takedowns db' = artifact_takedowns db"
proof -
  let ?bs = "map (\<lambda>a. new_block a decisionId ruleCode) (copied_from db a)"
  let ?db1 = "fold insert_restriction_do_nothing ?bs db"
  have u: "untouched (?db1\<lparr>review_bases := review_bases ?db1 @ derived_bases decisionId c ?db1\<rparr>) db'"
    using assms update_listings_effect(1) by (auto simp: propagateRestriction_def Let_def)
  from fold_restrictions [of ?bs db] obtain new where
    "?db1 = db\<lparr>public_sharing_restrictions := public_sharing_restrictions db @ new\<rparr>" by blast
  then show "public_sharing_restrictions db' = public_sharing_restrictions ?db1" "artifact_takedowns db' = artifact_takedowns db"
    using untouchedD(4,5) [OF u] by simp_all
qed

lemma copied_from_cong:
  assumes "listings db' = listings db" "revisions db' = revisions db" "saved_copies db' = saved_copies db"
  shows "copied_from db' = copied_from db"
  by (rule ext) (simp only: copied_from_def assms)

lemma propagate_reaches_copies:
  assumes "propagateRestriction now a c decisionId ruleCode db = Inr db'" "restrictions_unique (public_sharing_restrictions db)"
    and "\<And>b. b \<in> set (public_sharing_restrictions db) \<Longrightarrow> gb_source_decision_id b = decisionId \<Longrightarrow> gb_active b"
    and "x \<in> set (copied_from db a)"
  shows "exists_where (active_block_of x) (public_sharing_restrictions db')"
proof -
  let ?b = "new_block x decisionId ruleCode" and ?bs = "map (\<lambda>a. new_block a decisionId ruleCode) (copied_from db a)"
  have "exists_where (active_block_of (gb_artifact_id ?b)) (public_sharing_restrictions (fold insert_restriction_do_nothing ?bs db))"
    by (rule fold_restricts [OF assms(2), of _ _ decisionId]) (use assms(3,4) in auto)
  then show ?thesis unfolding propagate_restrictions(1) [OF assms(1)] by simp
qed

lemma restrict_artifact_blocks:
  assumes "restrict_artifact now c a decisionId ruleCode db = Inr db'"
    and "\<And>b. b \<in> set (public_sharing_restrictions db) \<Longrightarrow> gb_source_decision_id b \<noteq> decisionId"
    and "x = a \<or> x \<in> set (copied_from db a)"
  shows "exists_where (active_block_of x) (public_sharing_restrictions db')"
proof -
  let ?b = "new_block a decisionId ruleCode" and ?r = "new_basis a (gcase_listing_id c) (gcase_id c) Basis_restriction decisionId"
  let ?db0 = "insert_basis ?r (db\<lparr>public_sharing_restrictions := public_sharing_restrictions db @ [?b]\<rparr>)"
  from assms(1) obtain db2 where u: "restrictions_unique (public_sharing_restrictions db @ [?b])"
    and p: "propagateRestriction now a (gcase_id c) decisionId ruleCode ?db0 = Inr db2"
    and c: "closeBlockedProposals now a decisionId db2 = Inr db'"
    by (auto simp: restrict_artifact_def bindR_eq_Inr insert_restriction_def Let_def split: if_splits)
  have t: "public_sharing_restrictions ?db0 = public_sharing_restrictions db @ [?b]" by (simp add: insert_basis_def)
  have copies: "copied_from ?db0 = copied_from db" by (rule copied_from_cong) (simp_all add: insert_basis_def)
  have mine: "gb_active b" if "b \<in> set (public_sharing_restrictions ?db0)" "gb_source_decision_id b = decisionId" for b
  proof -
    from that assms(2) [of b] have "b = ?b" by (auto simp: t)
    then show ?thesis by (simp only: new_block_simps)
  qed
  have "exists_where (active_block_of x) (public_sharing_restrictions db2)"
  proof (cases "x \<in> set (copied_from db a)")
    case True
    show ?thesis
      by (rule propagate_reaches_copies [OF p _ mine]) (use u t True copies in simp_all)
  next
    case False
    obtain new where "public_sharing_restrictions db2 = public_sharing_restrictions ?db0 @ new"
      using propagate_restrictions(1) [OF p] fold_restrictions by metis
    with False assms(3) show ?thesis by (auto simp: exists_where_iff t active_block_of_def)
  qed
  then show ?thesis by (simp add: untouchedD(4) [OF closeBlockedProposals_effect(1) [OF c]])
qed

lemma take_down_artifact_blocks:
  assumes "take_down_artifact now c a decisionId ruleCode db = Inr db'"
    and "restrictions_unique (public_sharing_restrictions db)"
    and "\<And>b. b \<in> set (public_sharing_restrictions db) \<Longrightarrow> gb_source_decision_id b \<noteq> decisionId"
  shows "restrictions_unique (public_sharing_restrictions db')"
    "set (public_sharing_restrictions db) \<subseteq> set (public_sharing_restrictions db')"
    "artifact_takedowns db' = artifact_takedowns db @ [new_block a decisionId ruleCode]"
    "x \<in> set (copied_from db a) \<Longrightarrow> exists_where (active_block_of x) (public_sharing_restrictions db')"
proof -
  let ?b = "new_block a decisionId ruleCode" and ?r = "new_basis a (gcase_listing_id c) (gcase_id c) Basis_takedown decisionId"
  let ?db0 = "insert_basis ?r (db\<lparr>artifact_takedowns := artifact_takedowns db @ [?b]\<rparr>)"
  from assms(1) obtain db2 where
      p: "propagateRestriction now a (gcase_id c) decisionId ruleCode ?db0 = Inr db2"
    and c: "closeBlockedProposals now a decisionId db2 = Inr db'"
    by (auto simp: take_down_artifact_def bindR_eq_Inr insert_takedown_def Let_def split: if_splits)
  have t: "public_sharing_restrictions ?db0 = public_sharing_restrictions db" by (simp add: insert_basis_def)
  have copies: "copied_from ?db0 = copied_from db" by (rule copied_from_cong) (simp_all add: insert_basis_def)
  note same = untouchedD(4,5) [OF closeBlockedProposals_effect(1) [OF c]]
  show "restrictions_unique (public_sharing_restrictions db')"
    unfolding same(1) propagate_restrictions(1) [OF p] by (rule fold_restrictions_unique) (simp add: t assms(2))
  obtain new where "public_sharing_restrictions db2 = public_sharing_restrictions ?db0 @ new"
    using propagate_restrictions(1) [OF p] fold_restrictions by metis
  then show "set (public_sharing_restrictions db) \<subseteq> set (public_sharing_restrictions db')" by (simp add: same(1) t)
  show "artifact_takedowns db' = artifact_takedowns db @ [?b]"
    by (simp add: same(2) propagate_restrictions(2) [OF p] insert_basis_def)
  show "exists_where (active_block_of x) (public_sharing_restrictions db')" if "x \<in> set (copied_from db a)"
    unfolding same(1) by (rule propagate_reaches_copies [OF p]) (use t assms(2,3) that copies in auto)
qed

text \<open>A reversed appeal ends every restriction of the challenged decision.\<close>

lemma reversed_appeal_blocks:
  assumes "resolveAppeal now k x True db = Inr db'" "row_where (pending_appeal_of k) (appeals db) = Some p"
  defines "q \<equiv> \<lambda>b. gb_source_decision_id b = gap_decision_id p \<and> gb_active b"
  shows "public_sharing_restrictions db' = update_where q (ended_block Block_reversed now x) (public_sharing_restrictions db)"
    "artifact_takedowns db' = update_where q (ended_block Block_reversed now x) (artifact_takedowns db)"
proof -
  let ?db1 = "notify [appeal_notice True x p] (update_appeals (\<lambda>r. gap_id r = gap_id p)
     (\<lambda>r. r\<lparr>gap_state := Appeal_state_reversed, gap_resolved_at := Some now, gap_resolution_decision_id := Some x\<rparr>) db)"
  from assms(1,2) obtain xs where "recompute_all now xs (reversed_blocks now x (gap_decision_id p) ?db1) = Inr db'"
    by (simp add: resolveAppeal_def reversed_blocks_def Let_def)
  moreover have "untouched db1 db2" if "recompute_all now xs db1 = Inr db2" for db1 db2
    using that
  proof (induction xs arbitrary: db1)
    case (Cons y ys)
    then show ?case using recomputeArtifact_effect(1) untouched_trans by (fastforce simp: bindR_eq_Inr)
  qed (simp add: untouched_refl)
  ultimately have u: "untouched (reversed_blocks now x (gap_decision_id p) ?db1) db'" by blast
  show "public_sharing_restrictions db' = update_where q (ended_block Block_reversed now x) (public_sharing_restrictions db)"
    "artifact_takedowns db' = update_where q (ended_block Block_reversed now x) (artifact_takedowns db)"
    unfolding untouchedD(4,5) [OF u] reversed_blocks_tables q_def by (simp_all add: notify_def update_appeals_def)
qed

end
