(* ===== verification/Governance_Queues.thy ===== *)
theory Governance_Queues
  imports Governance Artifact_Queries Node_Buffers Json_Parse
begin

text \<open>
  The reads of \<open>api/src/application/gallery/governance.ts\<close>: the queues of open cases with their
  cursors and a single case. The timestamps of the database have microseconds, of which a
  JavaScript date keeps the milliseconds: \<open>rv_micros\<close> is what remains of a row's timestamp.
  The order of texts in the database and its reading of a timestamp are parameters.
\<close>

record read_env =
  rv_micros :: "js_string \<Rightarrow> int"
  rv_collate :: "js_string \<Rightarrow> nat list"
  rv_timestamptz :: "js_string \<Rightarrow> int option"

subsection \<open>Cursors\<close>

record case_cursor =
  cc_createdAt :: js_string
  cc_id :: js_string

definition cursor_json :: "case_cursor \<Rightarrow> json" where
  "cursor_json c = JObj [(''createdAt'', JStr (cc_createdAt c)), (''id'', JStr (cc_id c))]"

definition encodeCursor :: "case_cursor \<Rightarrow> js_string" where
  "encodeCursor c = base64url (utf8_bytes (stringify (cursor_json c)))"

definition cursor_of_json :: "json \<Rightarrow> case_cursor option" where
  "cursor_of_json v =
     (case v of
        JObj kvs \<Rightarrow>
          (case (map_of kvs ''createdAt'', map_of kvs ''id'') of
             (Some (JStr t), Some (JStr i)) \<Rightarrow> Some \<lparr>cc_createdAt = t, cc_id = i\<rparr>
           | _ \<Rightarrow> None)
      | _ \<Rightarrow> None)"

definition decodeCursor :: "js_string option \<Rightarrow> case_cursor option" where
  "decodeCursor value =
     (case value of
        None \<Rightarrow> None
      | Some v \<Rightarrow> if v = [] then None
          else (case json_parse (utf8_text (from_base64url v)) of None \<Rightarrow> None | Some j \<Rightarrow> cursor_of_json j))"

subsection \<open>Queues\<close>

text \<open>A queue is named by its kind of case, in the plural.\<close>

fun case_kind_text :: "case_kind \<Rightarrow> js_string" where
  "case_kind_text Case_proposal = ''proposal''"
| "case_kind_text Case_report = ''report''"
| "case_kind_text Case_removal = ''removal''"
| "case_kind_text Case_restriction = ''restriction''"
| "case_kind_text Case_takedown = ''takedown''"
| "case_kind_text Case_appeal = ''appeal''"

fun case_state_text :: "case_state \<Rightarrow> js_string" where
  "case_state_text Case_open = ''open''"
| "case_state_text Case_decided = ''decided''"
| "case_state_text Case_moot = ''moot''"

record case_item =
  ci_id :: js_string
  ci_queue :: js_string
  ci_state :: js_string
  ci_createdAt :: js_string
  ci_listingRevision :: "int option"

record case_page =
  cp_items :: "case_item list"
  cp_nextCursor :: "js_string option"

definition case_key :: "read_env \<Rightarrow> case_row \<Rightarrow> int \<times> nat list" where
  "case_key env c = (1000 * gcase_opened_at c + rv_micros env (gcase_id c), rv_collate env (gcase_id c))"

definition cursor_key :: "read_env \<Rightarrow> case_cursor option \<Rightarrow> tx_error + (int \<times> nat list) option" where
  "cursor_key env cursor =
     (case cursor of
        None \<Rightarrow> Inr None
      | Some c \<Rightarrow>
          (case rv_timestamptz env (cc_createdAt c) of
             None \<Rightarrow> Inl (Thrown ''invalid input syntax for type timestamp with time zone'')
           | Some t \<Rightarrow> Inr (Some (t, rv_collate env (cc_id c)))))"

definition queued :: "read_env \<Rightarrow> case_kind \<Rightarrow> (int \<times> nat list) option \<Rightarrow> case_row \<Rightarrow> bool" where
  "queued env kind after c \<longleftrightarrow>
     gcase_state c = Case_open \<and> gcase_kind c = kind \<and> (case after of None \<Rightarrow> True | Some k \<Rightarrow> k < case_key env c)"

definition listing_revision_of :: "governance_db \<Rightarrow> case_row \<Rightarrow> int option" where
  "listing_revision_of db c =
     (case gcase_listing_id c of
        None \<Rightarrow> None
      | Some l \<Rightarrow> map_option gl_listing_revision (row_where (\<lambda>r. gl_id r = l) (listings db)))"

definition case_item_of :: "governance_db \<Rightarrow> case_kind \<Rightarrow> case_row \<Rightarrow> case_item" where
  "case_item_of db kind c =
     \<lparr>ci_id = gcase_id c, ci_queue = case_kind_text kind @ ''s'', ci_state = case_state_text (gcase_state c),
      ci_createdAt = iso_of (gcase_opened_at c), ci_listingRevision = listing_revision_of db c\<rparr>"

definition boundedLimit :: "int \<Rightarrow> nat" where
  "boundedLimit limit = nat (min (max limit 1) 100)"

definition cursor_of :: "case_row \<Rightarrow> case_cursor" where
  "cursor_of c = \<lparr>cc_createdAt = iso_of (gcase_opened_at c), cc_id = gcase_id c\<rparr>"

definition case_page_of :: "governance_db \<Rightarrow> case_kind \<Rightarrow> nat \<Rightarrow> case_row list \<Rightarrow> case_page" where
  "case_page_of db kind limit rows =
     (let selected = take limit rows in
      \<lparr>cp_items = map (case_item_of db kind) selected,
       cp_nextCursor = (if limit < length rows \<and> selected \<noteq> [] then Some (encodeCursor (cursor_of (last selected))) else None)\<rparr>)"

definition case_rows ::
  "read_env \<Rightarrow> case_kind \<Rightarrow> (int \<times> nat list) option \<Rightarrow> nat \<Rightarrow> governance_db \<Rightarrow> case_row list" where
  "case_rows env kind after limit db = take (limit + 1) (sort_key (case_key env) (filter (queued env kind after) (cases db)))"

definition queue ::
  "read_env \<Rightarrow> js_string \<Rightarrow> case_kind \<Rightarrow> js_string option \<Rightarrow> int \<Rightarrow> governance_db
    \<Rightarrow> governance_db \<times> (tx_error + case_page)" where
  "queue env actorUserId kind cursor limit db =
     (case authority_require actorUserId Audit_queue_read None db of
        Inl e \<Rightarrow> (db, Inl e)
      | Inr db \<Rightarrow>
          (db, bindR (cursor_key env (decodeCursor cursor)) (\<lambda>after.
             Inr (case_page_of db kind (boundedLimit limit) (case_rows env kind after (boundedLimit limit) db)))))"

subsection \<open>A case\<close>

record case_view =
  cv_case :: case_item
  cv_evidenceDigest :: js_string
  cv_plainTextEvidence :: "js_string option"
  cv_appealPolicy :: "AppealPolicySnapshot option"
  cv_allowedDecisions :: "GovernanceDecisionKind list"

text \<open>The newest decision of the case.\<close>

definition latest_decision :: "js_string \<Rightarrow> governance_db \<Rightarrow> decision_row option" where
  "latest_decision caseId db = first_row (order_desc gd_created_at (filter (\<lambda>d. gd_case_id d = caseId) (decisions db)))"

definition report_details :: "governance_db \<Rightarrow> case_row \<Rightarrow> js_string option" where
  "report_details db c =
     (case gcase_report_id c of
        None \<Rightarrow> None
      | Some i \<Rightarrow>
          (case row_where (\<lambda>r. rep_id r = i) (reports db) of
             None \<Rightarrow> None
           | Some r \<Rightarrow> if rep_details r = [] then None else Some (rep_details r)))"

definition getCase ::
  "js_string \<Rightarrow> js_string \<Rightarrow> governance_db \<Rightarrow> governance_db \<times> (tx_error + case_view)" where
  "getCase actorUserId caseId db =
     (case authority_require actorUserId Audit_case_read (Some caseId) db of
        Inl e \<Rightarrow> (db, Inl e)
      | Inr db \<Rightarrow>
          (db, bindR (fromOption (Thrown ''case_not_found'') (row_where (\<lambda>c. gcase_id c = caseId) (cases db))) (\<lambda>c.
             Inr \<lparr>cv_case = case_item_of db (gcase_kind c) c, cv_evidenceDigest = gcase_evidence_digest c,
                  cv_plainTextEvidence = report_details db c,
                  cv_appealPolicy = (case latest_decision caseId db of None \<Rightarrow> None | Some d \<Rightarrow> appeal_policy_of d),
                  cv_allowedDecisions = allowedDecisions (gcase_kind c)\<rparr>)))"

subsection \<open>Cursors read back\<close>

lemma ascii_simps [simp]:
  "ascii []" "ascii (c # s) \<longleftrightarrow> byte_of c < 128 \<and> ascii s" "ascii (s @ t) \<longleftrightarrow> ascii s \<and> ascii t"
  by (auto simp: ascii_def)

lemma ascii_escape: "byte_of c < 128 \<Longrightarrow> ascii (json_escape c)"
  by (auto simp: json_escape_def hex_digit_def Let_def)

lemma ascii_concat_escape: "ascii s \<Longrightarrow> ascii (concat (map json_escape s))"
  by (induction s) (simp_all add: ascii_escape)

lemma ascii_quote: "ascii s \<Longrightarrow> ascii (json_quote s)"
  by (simp add: json_quote_def ascii_concat_escape)

lemma ascii_digits [simp]: "ascii (digits w n)"
  by (induction w arbitrary: n) simp_all

lemma ascii_iso_of [simp]: "ascii (iso_of t)"
  by (simp add: iso_of_def iso_year_def Let_def split: prod.split)

lemma ascii_cursor: "ascii (cc_createdAt c) \<Longrightarrow> ascii (cc_id c) \<Longrightarrow> ascii (stringify (cursor_json c))"
  by (simp add: cursor_json_def comma_separated_def ascii_quote)

lemma decode_encode_cursor:
  assumes "ascii (cc_createdAt c)" "ascii (cc_id c)"
  shows "decodeCursor (Some (encodeCursor c)) = Some c"
proof -
  have "utf8_text (utf8_bytes (stringify (cursor_json c))) = stringify (cursor_json c)"
    by (rule utf8_round_trip [OF ascii_well_formed [OF ascii_cursor [OF assms]]])
  moreover have "json_parse (stringify (cursor_json c)) = Some (cursor_json c)"
    by (rule json_parse_stringify) (simp add: cursor_json_def)
  moreover have "encodeCursor c \<noteq> []"
    using base64url_inject [of "utf8_bytes (stringify (cursor_json c))" "[]"]
    by (auto simp: encodeCursor_def base64url_def cursor_json_def)
  ultimately show ?thesis by (simp add: decodeCursor_def encodeCursor_def) (simp add: cursor_of_json_def cursor_json_def)
qed

subsection \<open>Pages\<close>

lemma queue_Inr:
  assumes "queue env actor kind cursor limit db = (db1, Inr page)"
  obtains after where "db1 = audit actor None Audit_queue_read None db"
    "length (filter (active_administrator actor) (administrators db)) = 1"
    "page = case_page_of db kind (boundedLimit limit) (case_rows env kind after (boundedLimit limit) db)"
proof -
  from assms obtain after where 1: "db1 = audit actor None Audit_queue_read None db"
      "length (filter (active_administrator actor) (administrators db)) = 1"
      "page = case_page_of db1 kind (boundedLimit limit) (case_rows env kind after (boundedLimit limit) db1)"
    by (auto simp: queue_def authority_require_def bindR_def guardR_def split: sum.splits if_splits)
  moreover have "case_item_of db1 = case_item_of db"
    by (simp add: fun_eq_iff case_item_of_def listing_revision_of_def 1(1) audit_def split: option.split)
  moreover have "case_rows env kind after n db1 = case_rows env kind after n db" for n
    by (simp add: case_rows_def 1(1) audit_def)
  ultimately show thesis using that [of after] by (simp add: case_page_of_def)
qed

lemma sort_key_hd_le:
  assumes "x \<in> set xs"
  shows "sort_key k xs \<noteq> [] \<and> hd (sort_key k xs) \<in> set xs \<and> k (hd (sort_key k xs)) \<le> k x"
proof -
  obtain y ys where y: "sort_key k xs = y # ys" using assms by (cases "sort_key k xs") (auto dest: arg_cong [of _ _ set])
  have "sorted (map k (y # ys))" using sorted_sort_key [of k xs] by (simp add: y)
  moreover have "x \<in> set (y # ys)" "y \<in> set xs" using assms set_sort [of k xs] by (auto simp: y)
  ultimately show ?thesis by (auto simp: y)
qed

text \<open>The cursor a page hands out lies before the case it names by that case's microseconds.\<close>

lemma page_cursor:
  assumes "cp_nextCursor (case_page_of db kind n rows) = Some cur"
  obtains "rows \<noteq> []" "take n rows \<noteq> []" "cur = encodeCursor (cursor_of (last (take n rows)))"
    "ci_id (last (cp_items (case_page_of db kind n rows))) = gcase_id (last (take n rows))"
proof (rule that)
  have *: "take n rows \<noteq> []" "cur = encodeCursor (cursor_of (last (take n rows)))"
    using assms by (simp_all add: case_page_of_def Let_def split: if_splits)
  then show "take n rows \<noteq> []" "rows \<noteq> []" "cur = encodeCursor (cursor_of (last (take n rows)))" by auto
  show "ci_id (last (cp_items (case_page_of db kind n rows))) = gcase_id (last (take n rows))"
    using * by (simp add: case_page_of_def Let_def last_map case_item_of_def)
qed

lemma case_rows_start:
  assumes "c \<in> set (cases db)" "queued env kind after c" "0 < n"
  shows "take n (case_rows env kind after n db) \<noteq> [] \<and> hd (case_rows env kind after n db) \<in> set (cases db)
    \<and> case_key env (hd (case_rows env kind after n db)) \<le> case_key env c"
  using sort_key_hd_le [of c "filter (queued env kind after) (cases db)" "case_key env"] assms
  by (cases "sort_key (case_key env) (filter (queued env kind after) (cases db))") (auto simp: case_rows_def)

lemma boundedLimit_pos [simp]: "0 < boundedLimit limit"
  by (simp add: boundedLimit_def)

lemma queue_first_item:
  assumes "take n rows \<noteq> []"
  shows "cp_items (case_page_of db kind n rows) \<noteq> [] \<and> ci_id (hd (cp_items (case_page_of db kind n rows))) = gcase_id (hd rows)"
  using assms by (cases rows; cases n) (simp_all add: case_page_of_def case_item_of_def)

end
