(* ===== verification/Governance_Properties.thy ===== *)
theory Governance_Properties
  imports Governance_Laws Governance_Queues
begin

text \<open>
  What the governance of the Gallery promises: the review state of a listing is what is in
  force, a decision acts once, a restriction reaches the copies; and what it does not: a
  closed listing never returns, an accepted report marks its artifact for good, and of two
  overlapping restrictions of a copy only the first counts.
\<close>

subsection \<open>An example\<close>

text \<open>An artifact of Ann with a listing and a listed copy that Bob made of it.\<close>

definition example_governed_listing :: "js_string \<Rightarrow> js_string \<Rightarrow> js_string \<Rightarrow> js_string \<Rightarrow> listing_row" where
  "example_governed_listing lid artifactId owner revisionId =
     \<lparr>gl_id = lid, gl_artifact_id = artifactId, gl_owner_user_id = owner, gl_creator_profile_id = owner,
      gl_opaque_slug = ''slug_'' @ lid, gl_lifecycle_state = Listed, gl_review_state = Clear, gl_closure_reason = None,
      gl_listing_revision = 1, gl_current_revision_id = Some revisionId, gl_predecessor_listing_id = None,
      gl_restoration_forfeited_at = None, gl_created_at = 0, gl_updated_at = 0, gl_closed_at = None\<rparr>"

definition example_revision :: "js_string \<Rightarrow> js_string \<Rightarrow> js_string \<Rightarrow> revision_row" where
  "example_revision rid lid versionId =
     \<lparr>gr_id = rid, gr_listing_id = lid, gr_revision = 1, gr_version_id = versionId, gr_permission_acceptance_id = ''acc'',
      gr_public_title = ''title'', gr_public_description = None, gr_tags = []\<rparr>"

definition example_governance :: governance_db where
  "example_governance =
     \<lparr>listings = [example_governed_listing ''l1'' ''a1'' ''ann'' ''r1'', example_governed_listing ''l2'' ''a2'' ''bob'' ''r2''],
      proposals = [], revisions = [example_revision ''r1'' ''l1'' ''v1'', example_revision ''r2'' ''l2'' ''v2''],
      acceptances = [], lifecycle_events = [], tombstones = [], profiles = [], public_sharing_restrictions = [],
      artifact_takedowns = [], appeals = [], decisions = [], cases = [], account_closures = [],
      administrators = [\<lparr>ad_user_id = ''root'', ad_granted_by_user_id = None, ad_granted_at = 0, ad_revoked_at = None, ad_revision = 1\<rparr>],
      administrator_audit = [], reports = [], case_evidence = [], review_bases = [],
      appeal_policies = [\<lparr>apo_version = ''p1'', apo_deadline_seconds = 1000, apo_active = True\<rparr>],
      notifications = [], featured_positions = [], featured_events = [], reporter_signals = [],
      saved_copies = [\<lparr>copy_artifact_id = ''a2'', copy_immediate_listing_id = ''l1'', copy_immediate_version_id = ''v1'',
        copy_root_listing_id = ''l1'', copy_root_version_id = ''v1''\<rparr>],
      artifact_owners = [(''a1'', ''ann''), (''a2'', ''bob'')]\<rparr>"

definition example_env :: "js_string \<Rightarrow> time \<Rightarrow> governance_env" where
  "example_env name now =
     \<lparr>gv_now = now, gv_dateNow = now, gv_uuid = (\<lambda>n. name @ (if n = 0 then ''x'' else ''y'')), gv_digest = take 2\<rparr>"

definition example_report :: "js_string \<Rightarrow> time \<Rightarrow> js_string \<Rightarrow> governance_call" where
  "example_report name now lid =
     Call_submit (example_env name now) Challenge_success
       \<lparr>gri_slug = ''slug_'' @ lid, gri_category = Report_abuse, gri_detail = ''bad'', gri_remoteIp = ''ip'', gri_reporterUserId = None\<rparr>"

definition example_input :: "js_string \<Rightarrow> js_string \<Rightarrow> GovernanceDecisionKind \<Rightarrow> int \<Rightarrow> GovernanceDecisionInput" where
  "example_input name caseId kind revision =
     \<lparr>gdi_actorUserId = ''root'', gdi_caseId = caseId, gdi_kind = kind, gdi_ruleCode = ''rule'', gdi_rationale = ''why'',
      gdi_idempotencyKey = name, gdi_expectedListingRevision = Some revision\<rparr>"

definition example_decision :: "js_string \<Rightarrow> time \<Rightarrow> js_string \<Rightarrow> GovernanceDecisionKind \<Rightarrow> int \<Rightarrow> governance_call" where
  "example_decision name now caseId kind revision =
     Call_decide (example_env name now) (example_input name caseId kind revision)"

definition example_appeal :: "js_string \<Rightarrow> time \<Rightarrow> js_string \<Rightarrow> js_string \<Rightarrow> governance_call" where
  "example_appeal name now user decisionId =
     Call_appeal (example_env name now) \<lparr>gai_userId = user, gai_decisionId = decisionId, gai_statement = ''no'', gai_idempotencyKey = name\<rparr>"

definition example_removal :: governance_db where
  "example_removal = governance_run
     [example_report ''A'' 1 ''l1'', example_decision ''B'' 2 ''gcase_Ay'' Decide_remove 1,
      example_appeal ''C'' 3 ''ann'' ''gdecision_Bx''] example_governance"

text \<open>Governance starts with every open listing clear.\<close>

lemma governance_starts:
  assumes "cases db = []" "decisions db = []" "appeals db = []" "public_sharing_restrictions db = []"
    "artifact_takedowns db = []" "review_bases db = []"
    and "\<And>l. l \<in> set (listings db) \<Longrightarrow> gl_review_state l = Clear"
  shows "governance_invariant db"
  using assms
  by (simp add: governance_invariant_def governance_traced_def decided_cases_def projected_except_def projected_review_state_def
    exists_where_iff unique_on_def)

lemma example_governance_invariant: "governance_invariant example_governance"
  by (rule governance_starts) (auto simp: example_governance_def example_governed_listing_def)

lemma example_removal_invariant: "governance_invariant example_removal"
  unfolding example_removal_def using governance_run_keeps_invariant [OF example_governance_invariant] by blast

subsection \<open>The review state\<close>

text \<open>C11: after any calls an open listing shows exactly the review state of what is in force.\<close>

theorem review_state_projects_governance:
  assumes "governance_invariant db" and "l \<in> set (listings (governance_run calls db))" and "open_listing l"
  shows "gl_review_state l = projected_review_state (governance_run calls db) (gl_artifact_id l)"
  using governance_run_keeps_invariant [OF assms(1), of calls] assms(2,3)
  by (simp add: governance_invariant_def projected_except_def)

definition example_restriction_calls :: "governance_call list" where
  "example_restriction_calls = [example_report ''A'' 1 ''l1'', example_decision ''B'' 2 ''gcase_Ay'' Decide_restrict 1]"

theorem review_state_projects_governance_witness:
  "(let db = governance_run example_restriction_calls example_governance in
    gl_review_state (last (listings db)) = projected_review_state db (gl_artifact_id (last (listings db)))
    \<and> map gl_review_state (listings db) = [Restricted, Restricted])"
proof -
  let ?db = "governance_run example_restriction_calls example_governance"
  have "last (listings ?db) \<in> set (listings ?db)" "open_listing (last (listings ?db))" by code_simp+
  note review_state_projects_governance [OF example_governance_invariant this]
  moreover have "map gl_review_state (listings ?db) = [Restricted, Restricted]" by code_simp
  ultimately show ?thesis by (simp add: Let_def)
qed

text \<open>C24: a listing that was closed, for instance by a removal, is never open again: no sequence of
  decisions and appeals changes its row.\<close>

theorem closed_listing_never_returns:
  assumes "governance_invariant db" and "l \<in> set (listings db)" and "\<not> open_listing l"
  shows "l \<in> set (listings (governance_run calls db))"
  using governance_run_keeps_invariant [OF assms(1), of calls] assms(2,3) by (simp add: advances_def)

theorem closed_listing_never_returns_witness:
  "(let db = governance_run [example_decision ''D'' 4 ''gcase_Cy'' Decide_reverse_appeal 2] example_removal in
    hd (listings example_removal) \<in> set (listings db)
    \<and> gl_closure_reason (hd (listings db)) = Some Administrator_removal \<and> map gap_state (appeals db) = [Appeal_state_reversed])"
proof -
  let ?calls = "[example_decision ''D'' 4 ''gcase_Cy'' Decide_reverse_appeal 2]"
  have "hd (listings example_removal) \<in> set (listings (governance_run ?calls example_removal))"
    by (rule closed_listing_never_returns [OF example_removal_invariant]) code_simp+
  moreover have "gl_closure_reason (hd (listings (governance_run ?calls example_removal))) = Some Administrator_removal
      \<and> map gap_state (appeals (governance_run ?calls example_removal)) = [Appeal_state_reversed]" by code_simp
  ultimately show ?thesis by (simp add: Let_def)
qed

text \<open>C26: a report whose case was decided without being dismissed keeps every open listing of the
  artifact from ever being clear again.\<close>

theorem undismissed_report_marks_artifact:
  assumes "governance_invariant db" and "r \<in> set (review_bases db)" and "active_basis r"
    and "rb_source_root_decision_id r = None" and "settled db (rb_case_id r)"
    and "l \<in> set (listings (governance_run calls db))" and "open_listing l" and "gl_artifact_id l = rb_artifact_id r"
  shows "gl_review_state l \<noteq> Clear"
proof -
  let ?db = "governance_run calls db"
  have all: "governance_invariant ?db" "advances db ?db" using governance_run_keeps_invariant [OF assms(1)] by simp_all
  with assms have "r \<in> set (review_bases ?db)" by (simp add: advances_def)
  then have "projected_review_state ?db (gl_artifact_id l) \<noteq> Clear"
    using assms(3,8) by (auto simp: projected_review_state_def exists_where_iff active_basis_of_def)
  with all(1) assms(6,7) show ?thesis by (simp add: governance_invariant_def projected_except_def)
qed

definition example_restriction :: governance_db where
  "example_restriction = governance_run example_restriction_calls example_governance"

definition example_appeal_calls :: "governance_call list" where
  "example_appeal_calls =
     [example_appeal ''C'' 3 ''ann'' ''gdecision_Bx'', example_decision ''D'' 4 ''gcase_Cy'' Decide_reverse_appeal 1]"

definition example_marked :: "governance_db \<Rightarrow> governance_db \<Rightarrow> bool" where
  "example_marked db db' \<longleftrightarrow>
     hd (review_bases db) \<in> set (review_bases db) \<and> active_basis (hd (review_bases db))
     \<and> rb_source_root_decision_id (hd (review_bases db)) = None \<and> settled db (rb_case_id (hd (review_bases db)))
     \<and> hd (listings db') \<in> set (listings db') \<and> open_listing (hd (listings db'))
     \<and> gl_artifact_id (hd (listings db')) = rb_artifact_id (hd (review_bases db))
     \<and> map gl_review_state (listings db') = [Reviewing, Clear]"

definition example_marked_by :: "governance_db \<Rightarrow> bool" where
  "example_marked_by db \<longleftrightarrow> example_marked db (governance_run example_appeal_calls db)"

lemma example_marked_after:
  "example_marked example_restriction (governance_run example_appeal_calls example_restriction)"
proof -
  have "example_marked_by example_restriction" by code_simp
  then show ?thesis by (simp add: example_marked_by_def)
qed

theorem undismissed_report_marks_artifact_witness:
  "(let db = governance_run example_appeal_calls example_restriction in
    gl_review_state (hd (listings db)) \<noteq> Clear \<and> map gl_review_state (listings db) = [Reviewing, Clear])"
proof -
  let ?before = "example_restriction"
  let ?db = "governance_run example_appeal_calls ?before"
  have inv: "governance_invariant ?before"
    unfolding example_restriction_def using governance_run_keeps_invariant [OF example_governance_invariant] by blast
  note facts = example_marked_after [unfolded example_marked_def]
  have "gl_review_state (hd (listings ?db)) \<noteq> Clear"
    by (rule undismissed_report_marks_artifact [OF inv, of "hd (review_bases ?before)"]) (use facts in blast)+
  with facts show ?thesis by (simp add: Let_def)
qed

text \<open>C25: a copy under the restriction of one decision gets none from a later takedown of its source;
  when the first is reversed on appeal the copy is free although the takedown is in force.\<close>

theorem overlapping_restriction_is_lost:
  assumes "restrictions_unique (public_sharing_restrictions db)"
    and "\<And>b. b \<in> set (public_sharing_restrictions db) \<Longrightarrow> gb_source_decision_id b \<noteq> decisionId"
    and "b0 \<in> set (public_sharing_restrictions db)" and "active_block_of x b0" and "x \<in> set (copied_from db a)"
    and "take_down_artifact now c a decisionId ruleCode db = Inr db1"
    and "row_where (pending_appeal_of k) (appeals db1) = Some p" and "gap_decision_id p = gb_source_decision_id b0"
    and "resolveAppeal now' k e True db1 = Inr db2"
  shows "\<not> exists_where (active_block_of x) (public_sharing_restrictions db2) \<and> exists_where (active_block_of a) (artifact_takedowns db2)"
proof -
  note down = take_down_artifact_blocks [OF assms(6,1,2)] and up = reversed_appeal_blocks [OF assms(9,7)]
  have b0: "b0 \<in> set (public_sharing_restrictions db1)" "gb_active b0" "gb_artifact_id b0 = x"
    using assms(3,4) down(2) by (auto simp: active_block_of_def)
  have only: "r = b0" if "r \<in> set (public_sharing_restrictions db1)" "active_block_of x r" for r
    using down(1) b0 that unique_onD [of gb_active gb_artifact_id "public_sharing_restrictions db1" r b0]
    by (simp add: restrictions_unique_def active_block_of_def)
  have "\<not> active_block_of x (if gb_source_decision_id r = gap_decision_id p \<and> gb_active r then ended_block Block_reversed now' e r else r)"
    if "r \<in> set (public_sharing_restrictions db1)" for r
    using only [OF that] assms(8) b0(2) by (auto simp: active_block_of_def gb_active_def)
  then have "\<not> exists_where (active_block_of x) (public_sharing_restrictions db2)"
    unfolding up(1) exists_update_where by blast
  moreover have "gb_source_decision_id b0 \<noteq> decisionId" by (rule assms(2) [OF assms(3)])
  then have "active_block_of a (if gb_source_decision_id (new_block a decisionId ruleCode) = gap_decision_id p
      \<and> gb_active (new_block a decisionId ruleCode)
      then ended_block Block_reversed now' e (new_block a decisionId ruleCode) else new_block a decisionId ruleCode)"
    using assms(8) by (simp add: active_block_of_def)
  then have "exists_where (active_block_of a) (artifact_takedowns db2)"
    unfolding up(2) exists_update_where by (rule bexI) (simp add: down(3))
  ultimately show ?thesis by blast
qed

definition example_appealed :: governance_db where
  "example_appealed = governance_run [example_appeal ''C'' 3 ''ann'' ''gdecision_Bx''] example_restriction"

definition example_overlap :: "governance_db \<Rightarrow> bool" where
  "example_overlap db \<longleftrightarrow>
     restrictions_unique (public_sharing_restrictions db)
     \<and> (\<forall>b \<in> set (public_sharing_restrictions db). gb_source_decision_id b \<noteq> ''d2'')
     \<and> last (public_sharing_restrictions db) \<in> set (public_sharing_restrictions db)
     \<and> active_block_of ''a2'' (last (public_sharing_restrictions db)) \<and> ''a2'' \<in> set (copied_from db ''a1'')
     \<and> (case take_down_artifact 4 (hd (cases db)) ''a1'' ''d2'' ''rule'' db of Inl e \<Rightarrow> False
        | Inr db1 \<Rightarrow>
            (case row_where (pending_appeal_of ''gcase_Cy'') (appeals db1) of None \<Rightarrow> False
             | Some p \<Rightarrow> gap_decision_id p = gb_source_decision_id (last (public_sharing_restrictions db)))
            \<and> (case resolveAppeal 5 ''gcase_Cy'' ''d3'' True db1 of Inl e \<Rightarrow> False | Inr db2 \<Rightarrow> True))"

theorem overlapping_restriction_is_lost_witness:
  "(case take_down_artifact 4 (hd (cases example_appealed)) ''a1'' ''d2'' ''rule'' example_appealed of Inl e \<Rightarrow> False
    | Inr db1 \<Rightarrow>
        (case resolveAppeal 5 ''gcase_Cy'' ''d3'' True db1 of Inl e \<Rightarrow> False
         | Inr db2 \<Rightarrow> \<not> exists_where (active_block_of ''a2'') (public_sharing_restrictions db2)
             \<and> exists_where (active_block_of ''a1'') (artifact_takedowns db2)))"
proof -
  have "example_overlap example_appealed" by code_simp
  note facts = this [unfolded example_overlap_def]
  then obtain db1 p db2 where run: "take_down_artifact 4 (hd (cases example_appealed)) ''a1'' ''d2'' ''rule'' example_appealed = Inr db1"
      "row_where (pending_appeal_of ''gcase_Cy'') (appeals db1) = Some p"
      "gap_decision_id p = gb_source_decision_id (last (public_sharing_restrictions example_appealed))"
      "resolveAppeal 5 ''gcase_Cy'' ''d3'' True db1 = Inr db2"
    by (auto split: sum.splits option.splits)
  have "\<not> exists_where (active_block_of ''a2'') (public_sharing_restrictions db2)
      \<and> exists_where (active_block_of ''a1'') (artifact_takedowns db2)"
    by (rule overlapping_restriction_is_lost [OF _ _ _ _ _ run]) (use facts in blast)+
  then show ?thesis by (simp add: run)
qed

text \<open>The restrictions and takedowns a first decision leaves.\<close>

lemma decision_blocks:
  assumes "governance_invariant db" and "restrictions_unique (public_sharing_restrictions db)"
    and "\<And>d. d \<in> set (decisions db) \<Longrightarrow> \<not> made_decision env i d"
    and "c \<in> set (cases db)" and "gcase_id c = gdi_caseId i" and "gcase_artifact_id c = Some a"
    and "gdi_kind i = Decide_restrict \<or> gdi_kind i = Decide_takedown"
    and "decide env i db = (db', Inr response)"
  shows "(\<forall>x. x \<in> set (copied_from db a) \<or> gdi_kind i = Decide_restrict \<and> x = a \<longrightarrow>
        exists_where (active_block_of x) (public_sharing_restrictions db'))
    \<and> (gdi_kind i = Decide_takedown \<longrightarrow> exists_where (active_block_of a) (artifact_takedowns db'))"
proof -
  let ?db = "audit (gdi_actorUserId i) None Audit_decision (Some (gdi_caseId i)) db"
  let ?blocks = "\<lambda>db'. (\<forall>x. x \<in> set (copied_from db a) \<or> gdi_kind i = Decide_restrict \<and> x = a \<longrightarrow>
        exists_where (active_block_of x) (public_sharing_restrictions db'))
    \<and> (gdi_kind i = Decide_takedown \<longrightarrow> exists_where (active_block_of a) (artifact_takedowns db'))"
  have traced: "governance_traced db" using assms(1) by (simp add: governance_invariant_def)
  show ?thesis
    using assms(8)
  proof (cases rule: decide_cases)
    case (first ruleCode rationale response')
    from first(2) show ?thesis
    proof (rule first_decision_Inr)
      fix c' policy d db1
      let ?base = "?db\<lparr>decisions := decisions ?db @ [d]\<rparr>"
      assume c': "c' \<in> set (cases ?db)" "gcase_id c' = gdi_caseId i" and uniq: "decisions_unique (decisions ?db @ [d])"
        and apply': "applyDecision (gv_now env) c' (gd_id d) (gdi_kind i) ruleCode (gdi_actorUserId i) ?base = Inr db1"
        and db': "db' = db1\<lparr>cases := update_where (\<lambda>c. gcase_id c = gdi_caseId i) (decided_case (gv_now env)) (cases db1)\<rparr>"
      have "c' = c"
        using c' assms(4,5) unique_onD [OF tracedD(2) [OF traced], of c' c] by (simp add: audit_def)
      with apply' obtain dbA dbB where
        1: "apply_kind (gv_now env) c (gd_id d) (gdi_kind i) ruleCode (gdi_actorUserId i) ?base = Inr dbA"
        and 2: "case gcase_artifact_id c of None \<Rightarrow> dbB = dbA | Some a \<Rightarrow> recomputeArtifact (gv_now env) a dbA = Inr dbB"
        and 3: "untouched dbB db1" by (metis applyDecision_Inr)
      have new: "gb_source_decision_id b \<noteq> gd_id d" if "b \<in> set (public_sharing_restrictions ?base)" for b
      proof -
        from that have "b \<in> set (public_sharing_restrictions db)" by (simp add: audit_def)
        then have "gb_source_decision_id b \<in> gd_id ` set (decisions db)" using tracedD(5) [OF traced] by (auto simp: block_traced_def)
        with uniq show ?thesis by (auto simp: decisions_unique_def unique_on_append1 audit_def)
      qed
      have copies: "copied_from ?base = copied_from db" by (rule copied_from_cong) (simp_all add: audit_def)
      have "?blocks dbA"
      proof (cases "gdi_kind i = Decide_restrict")
        case True
        with 1 assms(6) have "restrict_artifact (gv_now env) c a (gd_id d) ruleCode ?base = Inr dbA" by (simp add: apply_kind_def)
        from restrict_artifact_blocks [OF this new] show ?thesis using True copies by auto
      next
        case False
        with assms(7) have k: "gdi_kind i = Decide_takedown" by simp
        with 1 assms(6) have "take_down_artifact (gv_now env) c a (gd_id d) ruleCode ?base = Inr dbA" by (simp add: apply_kind_def)
        note down = take_down_artifact_blocks [OF this _ new]
        have "restrictions_unique (public_sharing_restrictions ?base)" using assms(2) by (simp add: audit_def)
        note down = down(3,4) [OF this, simplified copies]
        then show ?thesis using k by (simp add: active_block_of_def new_block_def gb_active_def exists_where_iff)
      qed
      moreover from 2 assms(6) have "untouched dbA dbB" by (auto intro: recomputeArtifact_effect(1))
      ultimately show ?thesis using untouchedD(4,5) [OF untouched_trans [OF _ 3]] by (simp add: db')
    qed
  qed (use assms(3) in auto)
qed

text \<open>
  C12: a restriction or takedown reaches every copy. When it succeeds for the first time under
  its key, every Artifact saved as a copy of the current revision of a listing of the decided
  Artifact, directly or through another copy, has an active restriction of public sharing, whether
  it was ever shared or is still private, and every open listing it has shows it; a restriction
  does the same to the decided Artifact itself, and a takedown is in force on it.
\<close>

theorem restriction_reaches_copies:
  assumes "governance_invariant db" and "restrictions_unique (public_sharing_restrictions db)"
    and "\<And>d. d \<in> set (decisions db) \<Longrightarrow> \<not> made_decision env i d"
    and "c \<in> set (cases db)" and "gcase_id c = gdi_caseId i" and "gcase_artifact_id c = Some a"
    and "gdi_kind i = Decide_restrict \<or> gdi_kind i = Decide_takedown"
    and "decide env i db = (db', Inr response)"
  defines "blocked \<equiv> \<lambda>x. (\<exists>b \<in> set (public_sharing_restrictions db'). gb_artifact_id b = x \<and> gb_active b)
    \<and> (\<forall>l \<in> set (listings db'). open_listing l \<and> gl_artifact_id l = x \<longrightarrow> gl_review_state l = Restricted)"
  shows "(\<forall>p \<in> set (saved_copies db). \<forall>l \<in> set (listings db). \<forall>r \<in> set (revisions db).
        gl_artifact_id l = a \<and> gl_current_revision_id l = Some (gr_id r)
        \<and> (copy_immediate_listing_id p = gl_id l \<and> copy_immediate_version_id p = gr_version_id r
           \<or> copy_root_listing_id p = gl_id l \<and> copy_root_version_id p = gr_version_id r)
        \<longrightarrow> blocked (copy_artifact_id p))
    \<and> (gdi_kind i = Decide_restrict \<longrightarrow> blocked a)
    \<and> (gdi_kind i = Decide_takedown \<longrightarrow> (\<exists>b \<in> set (artifact_takedowns db'). gb_artifact_id b = a \<and> gb_active b))"
proof -
  have inv: "governance_invariant db'" using decide_invariant [OF assms(1), of env i] assms(8) by simp
  have blocked: "blocked x" if "exists_where (active_block_of x) (public_sharing_restrictions db')" for x
    using that inv by (auto simp: blocked_def governance_invariant_def projected_except_def projected_review_state_def
        exists_where_iff active_block_of_def)
  have copies: "copy_artifact_id p \<in> set (copied_from db a)"
    if "p \<in> set (saved_copies db)" "l \<in> set (listings db)" "r \<in> set (revisions db)" "gl_artifact_id l = a"
      "gl_current_revision_id l = Some (gr_id r)"
      "copy_immediate_listing_id p = gl_id l \<and> copy_immediate_version_id p = gr_version_id r
        \<or> copy_root_listing_id p = gl_id l \<and> copy_root_version_id p = gr_version_id r" for p l r
    using that by (force simp: copied_from_def)
  note block = decision_blocks [OF assms(1-8)]
  show ?thesis
  proof (intro conjI ballI impI)
    fix p l r assume "p \<in> set (saved_copies db)" "l \<in> set (listings db)" "r \<in> set (revisions db)"
      "gl_artifact_id l = a \<and> gl_current_revision_id l = Some (gr_id r)
        \<and> (copy_immediate_listing_id p = gl_id l \<and> copy_immediate_version_id p = gr_version_id r
           \<or> copy_root_listing_id p = gl_id l \<and> copy_root_version_id p = gr_version_id r)"
    then have "copy_artifact_id p \<in> set (copied_from db a)" using copies by blast
    with block show "blocked (copy_artifact_id p)" by (intro blocked) blast
  next
    assume "gdi_kind i = Decide_restrict"
    with block show "blocked a" by (intro blocked) blast
  next
    assume "gdi_kind i = Decide_takedown"
    with block show "\<exists>b \<in> set (artifact_takedowns db'). gb_artifact_id b = a \<and> gb_active b"
      by (simp add: exists_where_iff active_block_of_def)
  qed
qed

definition example_reported :: governance_db where
  "example_reported = governance_run [example_report ''A'' 1 ''l1''] example_governance"

lemma example_reported_invariant: "governance_invariant example_reported"
  unfolding example_reported_def using governance_run_keeps_invariant [OF example_governance_invariant] by blast

text \<open>The example with a third Artifact, a private copy of the first.\<close>

definition example_private_copy :: governance_db where
  "example_private_copy = example_reported\<lparr>saved_copies := saved_copies example_reported @
     [\<lparr>copy_artifact_id = ''a3'', copy_immediate_listing_id = ''l2'', copy_immediate_version_id = ''v2'',
       copy_root_listing_id = ''l1'', copy_root_version_id = ''v1''\<rparr>]\<rparr>"

lemma example_private_copy_invariant: "governance_invariant example_private_copy"
  unfolding example_private_copy_def by (rule invariant_untouched [OF example_reported_invariant]) (simp_all add: untouched_def)

definition example_reaches :: "governance_db \<Rightarrow> bool" where
  "example_reaches db \<longleftrightarrow>
     restrictions_unique (public_sharing_restrictions db) \<and> decisions db = [] \<and> hd (cases db) \<in> set (cases db)
     \<and> gcase_id (hd (cases db)) = ''gcase_Ay'' \<and> gcase_artifact_id (hd (cases db)) = Some ''a1''
     \<and> last (saved_copies db) \<in> set (saved_copies db) \<and> copy_artifact_id (last (saved_copies db)) = ''a3''
     \<and> copy_root_listing_id (last (saved_copies db)) = gl_id (hd (listings db))
     \<and> copy_root_version_id (last (saved_copies db)) = gr_version_id (hd (revisions db))
     \<and> hd (listings db) \<in> set (listings db) \<and> gl_artifact_id (hd (listings db)) = ''a1''
     \<and> hd (revisions db) \<in> set (revisions db) \<and> gl_current_revision_id (hd (listings db)) = Some (gr_id (hd (revisions db)))
     \<and> (case decide (example_env ''B'' 2) (example_input ''B'' ''gcase_Ay'' Decide_takedown 1) db of
          (db', Inl e) \<Rightarrow> False | (db', Inr response) \<Rightarrow> True)"

theorem restriction_reaches_copies_witness:
  "(case decide (example_env ''B'' 2) (example_input ''B'' ''gcase_Ay'' Decide_takedown 1) example_private_copy of
      (db', Inl e) \<Rightarrow> False
    | (db', Inr response) \<Rightarrow> (\<exists>b \<in> set (public_sharing_restrictions db'). gb_artifact_id b = ''a3'' \<and> gb_active b)
        \<and> (\<exists>b \<in> set (artifact_takedowns db'). gb_artifact_id b = ''a1'' \<and> gb_active b))"
proof -
  let ?db = example_private_copy
  have "example_reaches ?db" by code_simp
  note facts = this [unfolded example_reaches_def]
  then obtain db' response where
    run: "decide (example_env ''B'' 2) (example_input ''B'' ''gcase_Ay'' Decide_takedown 1) ?db = (db', Inr response)"
    by (auto split: prod.splits sum.splits)
  have "gdi_kind (example_input ''B'' ''gcase_Ay'' Decide_takedown 1) = Decide_takedown"
    "gdi_caseId (example_input ''B'' ''gcase_Ay'' Decide_takedown 1) = ''gcase_Ay''"
    by (simp_all add: example_input_def)
  with restriction_reaches_copies [OF example_private_copy_invariant _ _ _ _ _ _ run, of "hd (cases ?db)" "''a1''"] facts
  have "(\<exists>b \<in> set (public_sharing_restrictions db'). gb_artifact_id b = ''a3'' \<and> gb_active b)
      \<and> (\<exists>b \<in> set (artifact_takedowns db'). gb_artifact_id b = ''a1'' \<and> gb_active b)"
    by (metis empty_iff list.set(1))
  then show ?thesis by (simp add: run)
qed

text \<open>C23: a decision acts once: whatever happened since, the same actor and key can at most leave
  another line in the audit.\<close>

theorem decision_acts_once:
  assumes "governance_invariant db" and "decide env i db = (db1, Inr response)" and "gv_digest env' = gv_digest env"
    and "gdi_actorUserId j = gdi_actorUserId i" and "gdi_idempotencyKey j = gdi_idempotencyKey i"
  shows "fst (decide env' j (governance_run calls db1)) \<in> {governance_run calls db1,
    audit (gdi_actorUserId j) None Audit_decision (Some (gdi_caseId j)) (governance_run calls db1)}"
proof -
  have inv: "governance_invariant db1" using decide_invariant [OF assms(1), of env i] assms(2) by simp
  have "\<exists>d \<in> set (decisions db1). made_decision env i d"
    using assms(2)
  proof (cases rule: decide_cases)
    case (replayed d response')
    then show ?thesis by (auto simp: audit_def)
  next
    case (first ruleCode rationale response')
    let ?db = "audit (gdi_actorUserId i) None Audit_decision (Some (gdi_caseId i)) db"
    have invA: "governance_invariant ?db" by (rule invariant_untouched [OF assms(1) untouched_audit]) simp
    from first(2) show ?thesis
    proof (rule first_decision_Inr)
      fix c policy d db2
      assume c: "c \<in> set (cases ?db)" "gcase_id c = gdi_caseId i" "gcase_state c = Case_open" "gdi_kind i \<in> set (allowedDecisions (gcase_kind c))"
        and d: "d = new_decision env i ruleCode rationale c policy" and uniq: "decisions_unique (decisions ?db @ [d])"
        and apply': "applyDecision (gv_now env) c (gd_id d) (gdi_kind i) ruleCode (gdi_actorUserId i)
          (?db\<lparr>decisions := decisions ?db @ [d]\<rparr>) = Inr db2"
        and db': "db1 = db2\<lparr>cases := update_where (\<lambda>c. gcase_id c = gdi_caseId i) (decided_case (gv_now env)) (cases db2)\<rparr>"
      have "gd_case_id d = gcase_id c" using c(2) by (simp add: d new_decision_def)
      from applyDecision_effect [OF apply' invA c(1,3,4) this uniq] have "d \<in> set (decisions db1)" by (simp add: db')
      then show ?thesis by (intro bexI [of _ d]) (simp_all add: d new_decision_def made_decision_def)
    qed
  qed simp
  then obtain d where "d \<in> set (decisions (governance_run calls db1))" "made_decision env i d"
    using governance_run_keeps_invariant [OF inv, of calls] by (auto simp: advances_def)
  moreover have "made_decision env' j d = made_decision env i d" using assms(3-5) by (simp add: made_decision_def digest_json_def)
  ultimately show ?thesis using made_once [of d "governance_run calls db1" env' j] by simp
qed

theorem decision_acts_once_witness:
  "(let db1 = fst (decide (example_env ''B'' 2) (example_input ''B'' ''gcase_Ay'' Decide_remove 1) example_reported);
       db2 = governance_run [example_appeal ''C'' 3 ''ann'' ''gdecision_Bx''] db1 in
    fst (decide (example_env ''E'' 9) (example_input ''B'' ''gcase_Ay'' Decide_remove 1) db2) \<in>
      {db2, audit ''root'' None Audit_decision (Some ''gcase_Ay'') db2})"
proof -
  let ?run = "decide (example_env ''B'' 2) (example_input ''B'' ''gcase_Ay'' Decide_remove 1) example_reported"
  have "case snd ?run of Inl e \<Rightarrow> False | Inr response \<Rightarrow> True" by code_simp
  then obtain response where "?run = (fst ?run, Inr response)" by (cases ?run) (auto split: sum.splits)
  from decision_acts_once [OF example_reported_invariant this, of "example_env ''E'' 9" "example_input ''B'' ''gcase_Ay'' Decide_remove 1"
      "[example_appeal ''C'' 3 ''ann'' ''gdecision_Bx'']"]
  show ?thesis by (simp add: Let_def example_env_def example_input_def)
qed

text \<open>C40: the cursor of a page of a queue loses the microseconds of its last case, so the next page
  starts again at that case or before it.\<close>

theorem queue_page_starts_over:
  assumes "queue env actor kind cursor limit db = (db1, Inr page)" and "cp_nextCursor page = Some cur"
    and "unique_on (\<lambda>_. True) gcase_id (cases db)" and "c \<in> set (cases db)"
    and "gcase_id c = ci_id (last (cp_items page))" and "ascii (gcase_id c)" and "0 < rv_micros env (gcase_id c)"
    and "rv_timestamptz env (iso_of (gcase_opened_at c)) = Some (1000 * gcase_opened_at c)"
  shows "\<exists>page2. snd (queue env actor kind (Some cur) limit db1) = Inr page2 \<and> cp_items page2 \<noteq> []
    \<and> (\<exists>c2 \<in> set (cases db). gcase_id c2 = ci_id (hd (cp_items page2)) \<and> case_key env c2 \<le> case_key env c)"
  using assms(1)
proof (rule queue_Inr)
  let ?n = "boundedLimit limit"
  fix after
  assume db1: "db1 = audit actor None Audit_queue_read None db"
    and admin: "length (filter (active_administrator actor) (administrators db)) = 1"
    and page: "page = case_page_of db kind ?n (case_rows env kind after ?n db)"
  let ?rows = "case_rows env kind after ?n db" and ?after = "Some (1000 * gcase_opened_at c, rv_collate env (gcase_id c))"
  from page_cursor [OF assms(2) [unfolded page]] have
    taken: "take ?n ?rows \<noteq> []" and cur: "cur = encodeCursor (cursor_of (last (take ?n ?rows)))"
    and item: "ci_id (last (cp_items page)) = gcase_id (last (take ?n ?rows))" unfolding page by blast+
  have "last (take ?n ?rows) \<in> set (take ?n ?rows)" using taken by (rule last_in_set)
  then have row: "last (take ?n ?rows) \<in> set (cases db)" "queued env kind after (last (take ?n ?rows))"
    by (auto simp: case_rows_def dest!: in_set_takeD)
  then have c: "c = last (take ?n ?rows)" using unique_onD [OF assms(3) assms(4) row(1)] item assms(5) by simp
  have read: "cursor_key env (decodeCursor (Some cur)) = Inr ?after"
    using decode_encode_cursor [of "cursor_of c"] assms(6,8) by (simp add: cur c [symmetric] cursor_of_def cursor_key_def)
  have "queued env kind ?after c" using row(2) assms(7) by (simp add: c [symmetric] queued_def case_key_def)
  from case_rows_start [OF assms(4) this boundedLimit_pos]
  have first: "take ?n (case_rows env kind ?after ?n db) \<noteq> []" "hd (case_rows env kind ?after ?n db) \<in> set (cases db)"
    "case_key env (hd (case_rows env kind ?after ?n db)) \<le> case_key env c" by blast+
  have rows: "case_rows env kind ?after ?n (audit actor None Audit_queue_read None db1) = case_rows env kind ?after ?n db"
    by (simp add: case_rows_def db1 audit_def)
  have "authority_require actor Audit_queue_read None db1 = Inr (audit actor None Audit_queue_read None db1)"
    using admin by (simp add: authority_require_Inr db1 audit_def)
  then have "snd (queue env actor kind (Some cur) limit db1)
      = Inr (case_page_of (audit actor None Audit_queue_read None db1) kind ?n (case_rows env kind ?after ?n db))"
    by (simp add: queue_def read rows)
  then show ?thesis using queue_first_item [OF first(1)] first(2,3) by auto
qed

definition example_read :: read_env where
  "example_read =
     \<lparr>rv_micros = (\<lambda>_. 7), rv_collate = map of_char, rv_timestamptz = (\<lambda>s. map_option (\<lambda>t. 1000 * t) (date_of_iso s))\<rparr>"

definition example_two_reports :: governance_db where
  "example_two_reports = governance_run [example_report ''A'' 1 ''l1'', example_report ''B'' 2 ''l2''] example_governance"

definition example_first_page :: "governance_db \<Rightarrow> bool" where
  "example_first_page db \<longleftrightarrow>
     unique_on (\<lambda>_. True) gcase_id (cases db) \<and> hd (cases db) \<in> set (cases db) \<and> gcase_id (hd (cases db)) = ''gcase_Ay''
     \<and> gcase_opened_at (hd (cases db)) = 1 \<and> length (filter (active_administrator ''root'') (administrators db)) = 1
     \<and> map gcase_id (case_rows example_read Case_report None 1 db) = [''gcase_Ay'', ''gcase_By'']"

theorem queue_page_starts_over_witness:
  "(case queue example_read ''root'' Case_report None 1 example_two_reports of
      (db1, Inl e) \<Rightarrow> False
    | (db1, Inr page) \<Rightarrow>
        (\<exists>page2. snd (queue example_read ''root'' Case_report (cp_nextCursor page) 1 db1) = Inr page2 \<and> cp_items page2 \<noteq> []
          \<and> (\<exists>c2 \<in> set (cases example_two_reports). gcase_id c2 = ci_id (hd (cp_items page2))
             \<and> case_key example_read c2 \<le> case_key example_read (hd (cases example_two_reports)))))"
proof -
  let ?db = example_two_reports and ?rows = "case_rows example_read Case_report None 1 example_two_reports"
  have "example_first_page ?db" by code_simp
  note facts = this [unfolded example_first_page_def]
  let ?page = "case_page_of (audit ''root'' None Audit_queue_read None ?db) Case_report 1 ?rows"
  obtain r1 r2 where rows: "?rows = [r1, r2]" "gcase_id r1 = ''gcase_Ay''" using facts by auto
  have auth: "authority_require ''root'' Audit_queue_read None ?db = Inr (audit ''root'' None Audit_queue_read None ?db)"
    using facts by (simp add: authority_require_Inr)
  have same: "case_rows example_read Case_report None n (audit ''root'' None Audit_queue_read None ?db)
      = case_rows example_read Case_report None n ?db" for n by (simp add: case_rows_def audit_def)
  have run: "queue example_read ''root'' Case_report None 1 ?db = (audit ''root'' None Audit_queue_read None ?db, Inr ?page)"
    by (simp add: queue_def auth decodeCursor_def cursor_key_def boundedLimit_def same)
  have cursor: "cp_nextCursor ?page = Some (encodeCursor (cursor_of r1))" "ci_id (last (cp_items ?page)) = ''gcase_Ay''"
    unfolding case_page_of_def rows(1) Let_def using rows(2) by (simp_all add: case_item_of_def)
  have "rv_timestamptz example_read (iso_of 1) = Some 1000" by (simp add: example_read_def date_of_iso_of valid_time_def)
  then show ?thesis
    using queue_page_starts_over [OF run cursor(1), of "hd (cases ?db)"] facts run cursor
    by (simp add: example_read_def)
qed

end
