(* ===== verification/Spec2Isabelle.thy ===== *)
theory Spec2Isabelle
  imports Listing_Transitions Proposal_Promotion Source_Closure Quota_Accounting Gallery_Copy Rollback_Coordinator
    Archive_Entries Archive_Content Multipart_Upload Object_Storage Upload_Input Job_Wakes Container_Slots
    Idempotency_Store Artifact_Queries Artifact_Commits Artifact_Intake Artifact_Recovery Publication_Viewer Artifact_Deletion
    Reconciliation_Laws Governance_Properties
begin

text \<open>
  ShareSlices lets a user upload a ZIP of web pages as an artifact, publish it under a link and
  list it in a public gallery. This development models the TypeScript core of the system:

  The upload path. The browser checks the archive before sending it (\<open>Archive_Entries\<close>,
  \<open>Archive_Content\<close>: \<open>web/src/artifacts/archive-preflight.ts\<close>). The API parses the multipart
  body (\<open>Multipart_Upload\<close>: \<open>api/src/http/multipart-upload.ts\<close>), normalises and fingerprints
  the input (\<open>Upload_Input\<close>), stores the bytes (\<open>Object_Storage\<close>:
  \<open>api/src/storage/object-storage.ts\<close> and its provider in memory) and commits the rows
  (\<open>Artifact_Intake\<close>, \<open>Artifact_Recovery\<close>: \<open>api/src/application/artifacts/\<close>) through the
  repositories (\<open>Artifact_Queries\<close>, \<open>Artifact_Commits\<close>, \<open>Idempotency_Store\<close>:
  \<open>api/src/db/artifact-repositories.ts\<close>) over the tables of \<open>api/src/db/schema.ts\<close>
  (\<open>Artifact_Tables\<close>). Request hashes are kept encrypted (\<open>Idempotency_Evidence\<close>:
  \<open>api/src/db/idempotency-evidence.ts\<close>, over the buffers of \<open>Node_Buffers\<close>). On the hosted
  deployment jobs are woken by messages (\<open>Job_Wakes\<close>) and handed to containers
  (\<open>Container_Slots\<close>), \<open>api/src/cloudflare/\<close>.

  The gallery, \<open>api/src/application/gallery/\<close>: the lifecycle of a listing
  (\<open>Listing_Transitions\<close>), the resolution of proposals (\<open>Proposal_Promotion\<close>), the closure of
  an account (\<open>Source_Closure\<close>), the storage quota (\<open>Quota_Accounting\<close>), accepted copies
  (\<open>Gallery_Copy\<close>) and the rollback of a disabled gallery (\<open>Rollback_Coordinator\<close>), over the
  vocabulary and tables of \<open>Gallery_Domain\<close> and \<open>Gallery_Tables\<close>. Its governance
  (\<open>governance.ts\<close>, \<open>reports.ts\<close>, \<open>administrator-authority.ts\<close>): the tables of cases, blocks
  and bases (\<open>Governance_Tables\<close>), reports, decisions, appeals and featured positions
  (\<open>Governance\<close>), the queues (\<open>Governance_Queues\<close>), the invariant every call keeps
  (\<open>Governance_Laws\<close>) and what follows from it (\<open>Governance_Properties\<close>).

  Publication, \<open>api/src/db/publication-content-repository.ts\<close> and
  \<open>api/src/application/publications/\<close>: the tables of content, bundles and links
  (\<open>Content_Tables\<close>), the repository over them (\<open>Publication_Store\<close>, its laws in
  \<open>Publication_Laws\<close>), the service that publishes a version and serves what a link shows
  (\<open>Publication_Viewer\<close>), and the deletion of an artifact with everything it owns
  (\<open>Artifact_Deletion\<close>).

  Reconciliation, \<open>api/src/db/reconciliation-repository.ts\<close> (\<open>Reconciliation_Store\<close>) and
  \<open>api/src/application/reconciliation/reconciliation.ts\<close> (\<open>Reconciliation\<close>): the bounded runs
  that recover expired leases and remove objects nobody needs any more. What they may remove
  is in \<open>Reconciliation_Safety\<close>, what they achieve in \<open>Reconciliation_Laws\<close>.

  Shared vocabulary: \<open>Prelude\<close> (results, transactions, tables as lists of rows),
  \<open>Js_Strings\<close> (strings as UTF-8 bytes, trimming, splitting, UTF-16 lengths), \<open>Json\<close>
  (\<open>JSON.stringify\<close>), \<open>Text_Decoding\<close> (UTF-8 decoders, acceptance by \<open>JSON.parse\<close>),
  \<open>Json_Parse\<close> (\<open>JSON.parse\<close> and its round trip), \<open>Js_Dates\<close> (ISO dates).

  How code becomes definitions. A function that may throw returns a sum, \<open>Inl\<close> for the error.
  A table is the list of its rows, a statement checks its table after the change and raises
  the violated check or unique index, a transaction is \<open>run_tx\<close>: an error gives back the
  state it started from. A service over a database and a storage takes and returns both.
  Promises handed to a service are the values they settle to; where it matters whether the
  code awaits one, that is part of the result. Streams are the list of their events. Clocks,
  random ids, nonces, digests, ciphers, host comparisons and collations are parameters;
  hypotheses on them state documented behaviour: a digest is hexadecimal, opening undoes
  sealing, new ids are new. Loops are structural recursions or have a termination proof,
  so no fuel is needed; the sweep over the pages of an object listing takes a number of
  rounds, and one more round than there are objects is shown to be enough.

  What the theorems show. Listings move only along the documented edges, closed ones stay
  closed, and of two transitions against one revision at most one commits. A proposal is
  resolved once and publishes exactly itself. Quota totals are conserved along every run and
  stay within the policy. Copies and uploads are idempotent by their key; a failed upload
  leaves nothing behind and a valid one always succeeds. The idempotency table refines a map
  from scopes to answers, also under key rotation. Archives accepted in the browser are within
  the policy and contain only safe paths. The multipart parser settles once, and completes
  exactly for well-formed bodies. A published link shows the version its publication fixed, a
  replaced link stays retired, and deletion removes one artifact with its rows and marks no
  content that something else still uses. No sequence of reconciliation runs removes an object
  of content a version still names; an expired lease is recovered exactly, a prefix recorded
  during a cleanup is not lost, and a failed cleanup comes back within an hour. The review
  state of an open listing is always what the restrictions, bases and takedowns in force say,
  a decision acts once, and a restriction reaches every copy of the current revision. Along
  the way errors of the code surface as theorems about what it really does: statements that
  always violate a constraint, quota that leaks, an entry promise nobody awaits, replays that
  are refused, copies that cannot take versions, removals that no appeal undoes, restrictions
  that are lost under another one, queues whose pages overlap.

  Interfaces. The locale \<open>object_storage\<close> is what the services rely on from a storage, with the
  provider in memory as its interpretation; the locale \<open>idempotency_store\<close> is the contract of
  claims, completions and releases, interpreted on the table; the locale \<open>cleanup_objects\<close> is
  what the reconciliation relies on from the removals of a storage, interpreted on the
  provider in memory.

  Not modelled: foreign keys, except those that decide whether an artifact can be deleted;
  concurrent interleavings inside one transaction; the
  state projection of \<open>artifact-management.ts\<close>; eligibility and owner operations of the
  gallery; authentication, email and thumbnails; the HTTP routes and the web user
  interface, which are glue and presentation; the Rust worker and command line; the
  deployment scripts.
\<close>

end
